(* ===== verification/Prelude.thy ===== *)
theory Prelude
  imports Main "HOL-Library.Sublist"
begin

text \<open>
  Shared vocabulary of the development: the fact collections the component proofs are driven by,
  and the parts of the JavaScript string library that the TypeScript sources under \<open>src/\<close> use
  (\<open>split\<close>, \<open>join\<close>, \<open>includes\<close>, \<open>replace\<close>, \<open>trim\<close>, \<open>toUpperCase\<close>, number/string conversion).

  A model string is a list of ASCII characters; it stands for the JavaScript string with the same
  code units.  Text outside ASCII (the Chinese user-interface messages, for instance) never
  influences the control flow of the modelled code and is represented by named literals where it
  appears.
\<close>

named_theorems js_lib \<open>laws of the modelled JavaScript library functions\<close>
named_theorems cam_defs \<open>definitions of the modelled operations, for unfolding\<close>

section \<open>Characters and literals\<close>

abbreviation NL :: string where "NL \<equiv> [CHR 0x0A]"
abbreviation DQ :: string where "DQ \<equiv> [CHR 0x22]"
abbreviation SQ :: string where "SQ \<equiv> [CHR 0x27]"
abbreviation BSL :: string where "BSL \<equiv> [CHR 0x5C]"

definition is_digit :: "char \<Rightarrow> bool" where
  "is_digit c \<longleftrightarrow> of_char c \<ge> (48::nat) \<and> of_char c \<le> (57::nat)"

definition is_lower :: "char \<Rightarrow> bool" where
  "is_lower c \<longleftrightarrow> of_char c \<ge> (97::nat) \<and> of_char c \<le> (122::nat)"

definition is_upper :: "char \<Rightarrow> bool" where
  "is_upper c \<longleftrightarrow> of_char c \<ge> (65::nat) \<and> of_char c \<le> (90::nat)"

definition is_alnum :: "char \<Rightarrow> bool" where
  "is_alnum c \<longleftrightarrow> is_digit c \<or> is_lower c \<or> is_upper c"

text \<open>The ASCII part of the class \<open>\s\<close>: tab, line feed, vertical tab, form feed, return, space.\<close>

definition is_space :: "char \<Rightarrow> bool" where
  "is_space c \<longleftrightarrow> (of_char c \<ge> (9::nat) \<and> of_char c \<le> (13::nat)) \<or> of_char c = (32::nat)"

definition upper_char :: "char \<Rightarrow> char" where
  "upper_char c = (if is_lower c then char_of (of_char c - (32::nat)) else c)"

lemma upper_char_not_lower: "\<not> is_lower (upper_char c)"
proof (cases "is_lower c")
  case True
  then have "of_char c - (32::nat) < 256" "of_char c \<ge> (97::nat)" "of_char c \<le> (122::nat)"
    by (auto simp: is_lower_def)
  then show ?thesis by (simp add: upper_char_def is_lower_def)
next
  case False
  then show ?thesis by (simp add: upper_char_def)
qed

lemma upper_char_idem [simp]: "upper_char (upper_char c) = upper_char c"
  using upper_char_not_lower [of c] by (simp add: upper_char_def [of "upper_char c"])

lemma upper_char_literals [simp]:
  "upper_char CHR ''a'' = CHR ''A''"
  "upper_char CHR ''b'' = CHR ''B''"
  "upper_char CHR ''c'' = CHR ''C''"
  "upper_char CHR ''d'' = CHR ''D''"
  "upper_char CHR ''e'' = CHR ''E''"
  "upper_char CHR ''f'' = CHR ''F''"
  "upper_char CHR ''g'' = CHR ''G''"
  "upper_char CHR ''h'' = CHR ''H''"
  "upper_char CHR ''i'' = CHR ''I''"
  "upper_char CHR ''j'' = CHR ''J''"
  "upper_char CHR ''k'' = CHR ''K''"
  "upper_char CHR ''l'' = CHR ''L''"
  "upper_char CHR ''m'' = CHR ''M''"
  "upper_char CHR ''n'' = CHR ''N''"
  "upper_char CHR ''o'' = CHR ''O''"
  "upper_char CHR ''p'' = CHR ''P''"
  "upper_char CHR ''q'' = CHR ''Q''"
  "upper_char CHR ''r'' = CHR ''R''"
  "upper_char CHR ''s'' = CHR ''S''"
  "upper_char CHR ''t'' = CHR ''T''"
  "upper_char CHR ''u'' = CHR ''U''"
  "upper_char CHR ''v'' = CHR ''V''"
  "upper_char CHR ''w'' = CHR ''W''"
  "upper_char CHR ''x'' = CHR ''X''"
  "upper_char CHR ''y'' = CHR ''Y''"
  "upper_char CHR ''z'' = CHR ''Z''"
  "upper_char CHR ''A'' = CHR ''A''"
  "upper_char CHR ''B'' = CHR ''B''"
  "upper_char CHR ''C'' = CHR ''C''"
  "upper_char CHR ''D'' = CHR ''D''"
  "upper_char CHR ''E'' = CHR ''E''"
  "upper_char CHR ''F'' = CHR ''F''"
  "upper_char CHR ''G'' = CHR ''G''"
  "upper_char CHR ''H'' = CHR ''H''"
  "upper_char CHR ''I'' = CHR ''I''"
  "upper_char CHR ''J'' = CHR ''J''"
  "upper_char CHR ''K'' = CHR ''K''"
  "upper_char CHR ''L'' = CHR ''L''"
  "upper_char CHR ''M'' = CHR ''M''"
  "upper_char CHR ''N'' = CHR ''N''"
  "upper_char CHR ''O'' = CHR ''O''"
  "upper_char CHR ''P'' = CHR ''P''"
  "upper_char CHR ''Q'' = CHR ''Q''"
  "upper_char CHR ''R'' = CHR ''R''"
  "upper_char CHR ''S'' = CHR ''S''"
  "upper_char CHR ''T'' = CHR ''T''"
  "upper_char CHR ''U'' = CHR ''U''"
  "upper_char CHR ''V'' = CHR ''V''"
  "upper_char CHR ''W'' = CHR ''W''"
  "upper_char CHR ''X'' = CHR ''X''"
  "upper_char CHR ''Y'' = CHR ''Y''"
  "upper_char CHR ''Z'' = CHR ''Z''"
  by code_simp+

section \<open>split and join\<close>

text \<open>\<open>s.split(c)\<close> for a one-character separator: never empty, the pieces in order.\<close>

fun split_on :: "char \<Rightarrow> string \<Rightarrow> string list" where
  "split_on c [] = [[]]"
| "split_on c (x # xs) =
     (if x = c then [] # split_on c xs
      else (case split_on c xs of [] \<Rightarrow> [[x]] | p # ps \<Rightarrow> (x # p) # ps))"

fun join :: "string \<Rightarrow> string list \<Rightarrow> string" where
  "join sep [] = []"
| "join sep [x] = x"
| "join sep (x # y # ys) = x @ sep @ join sep (y # ys)"

lemma split_on_nonempty [simp]: "split_on c s \<noteq> []"
  by (induction s) (auto split: list.splits)

lemma join_Cons: "xs \<noteq> [] \<Longrightarrow> join sep (x # xs) = x @ sep @ join sep xs"
  by (cases xs) auto

lemma join_split_on [js_lib]: "join [c] (split_on c s) = s"
proof (induction s)
  case (Cons x xs)
  obtain p ps where p: "split_on c xs = p # ps" by (cases "split_on c xs") auto
  with Cons show ?case by (cases ps) (auto simp: join_Cons)
qed simp

lemma split_on_free: "c \<notin> set s \<Longrightarrow> split_on c s = [s]"
  by (induction s) auto

lemma split_on_append: "c \<notin> set p \<Longrightarrow> split_on c (p @ c # s) = p # split_on c s"
  by (induction p) auto

lemma split_on_parts_free: "p \<in> set (split_on c s) \<Longrightarrow> c \<notin> set p"
  by (induction s arbitrary: p) (auto split: list.splits if_splits)

lemma split_on_join [js_lib]:
  "xs \<noteq> [] \<Longrightarrow> \<forall>x\<in>set xs. c \<notin> set x \<Longrightarrow> split_on c (join [c] xs) = xs"
proof (induction xs)
  case (Cons x xs)
  then show ?case
    by (cases xs) (auto simp: split_on_free split_on_append join_Cons)
qed simp

lemma set_join: "set (join sep xs) \<subseteq> set sep \<union> \<Union> (set ` set xs)"
  by (induction sep xs rule: join.induct) auto

section \<open>Substring search and replacement\<close>

text \<open>\<open>find_sub pat s\<close>: the text before and after the first occurrence of \<open>pat\<close> in \<open>s\<close>.\<close>

fun find_sub :: "string \<Rightarrow> string \<Rightarrow> (string \<times> string) option" where
  "find_sub pat s =
     (if prefix pat s then Some ([], drop (length pat) s)
      else (case s of [] \<Rightarrow> None
            | c # cs \<Rightarrow> map_option (\<lambda>(b, a). (c # b, a)) (find_sub pat cs)))"

declare find_sub.simps [simp del]

definition js_includes :: "string \<Rightarrow> string \<Rightarrow> bool" where
  "js_includes s pat \<longleftrightarrow> find_sub pat s \<noteq> None"

lemma find_sub_Some: "find_sub pat s = Some (b, a) \<Longrightarrow> s = b @ pat @ a"
proof (induction pat s arbitrary: b a rule: find_sub.induct)
  case (1 pat s)
  show ?case
  proof (cases "prefix pat s")
    case True
    with 1 show ?thesis by (auto simp: find_sub.simps [of pat s] prefix_def)
  next
    case False
    with "1.prems" obtain c cs b' where s: "s = c # cs" "find_sub pat cs = Some (b', a)" "b = c # b'"
      by (auto simp: find_sub.simps [of pat s] split: list.splits)
    from "1.IH" [OF False s(1) s(2)] s show ?thesis by simp
  qed
qed

lemma find_sub_occurs: "find_sub pat (b @ pat @ a) \<noteq> None"
  by (induction b) (auto simp: find_sub.simps [of pat "pat @ a"] find_sub.simps [of pat "x # xs" for x xs])

lemma js_includes_iff [js_lib]: "js_includes s pat \<longleftrightarrow> (\<exists>b a. s = b @ pat @ a)"
proof
  assume "js_includes s pat"
  then obtain b a where "find_sub pat s = Some (b, a)" by (auto simp: js_includes_def)
  then have "s = b @ pat @ a" by (rule find_sub_Some)
  then show "\<exists>b a. s = b @ pat @ a" by blast
next
  assume "\<exists>b a. s = b @ pat @ a"
  then show "js_includes s pat" using find_sub_occurs unfolding js_includes_def by blast
qed

lemma js_includes_appendI: "js_includes x p \<Longrightarrow> js_includes (b @ x @ a) p"
  unfolding js_includes_iff by (metis append.assoc)

lemma js_includes_refl: "js_includes (p @ a) p"
  unfolding js_includes_iff by (metis append_Nil)

lemma js_includes_concat: "x \<in> set xs \<Longrightarrow> js_includes (f x) p \<Longrightarrow> js_includes (concat (map f xs)) p"
  using js_includes_appendI by (fastforce dest: split_list)

lemma js_includes_join: "x \<in> set xs \<Longrightarrow> js_includes x p \<Longrightarrow> js_includes (join sep xs) p"
proof (induction xs)
  case (Cons y ys)
  show ?case
  proof (cases "ys = []")
    case True
    with Cons show ?thesis by simp
  next
    case False
    with Cons show ?thesis
      using js_includes_appendI [of y p "[]" "sep @ join sep ys"]
        js_includes_appendI [of "join sep ys" p "y @ sep" "[]"]
      by (auto simp: join_Cons)
  qed
qed simp

text \<open>
  The replacement text of \<open>s.replace(pat, repl)\<close> is a template even for a string pattern:
  \<open>$$\<close>, \<open>$&\<close>, the back-quote and the quote forms insert a dollar sign, the match, the text before
  it and the text after it.
\<close>

fun expand_dollar :: "string \<Rightarrow> string \<Rightarrow> string \<Rightarrow> string \<Rightarrow> string" where
  "expand_dollar m b a [] = []"
| "expand_dollar m b a [c] = [c]"
| "expand_dollar m b a (c # d # r) =
     (if c \<noteq> CHR ''$'' then c # expand_dollar m b a (d # r)
      else if d = CHR ''$'' then CHR ''$'' # expand_dollar m b a r
      else if d = CHR ''&'' then m @ expand_dollar m b a r
      else if d = CHR 0x60 then b @ expand_dollar m b a r
      else if d = CHR 0x27 then a @ expand_dollar m b a r
      else c # expand_dollar m b a (d # r))"

definition js_replace :: "string \<Rightarrow> string \<Rightarrow> string \<Rightarrow> string" where
  "js_replace s pat repl =
     (case find_sub pat s of None \<Rightarrow> s
      | Some (b, a) \<Rightarrow> b @ expand_dollar pat b a repl @ a)"

lemma expand_dollar_plain [js_lib]: "CHR ''$'' \<notin> set r \<Longrightarrow> expand_dollar m b a r = r"
  by (induction m b a r rule: expand_dollar.induct) auto

lemma js_replace_plain:
  assumes "find_sub pat s = Some (b, a)" and "CHR ''$'' \<notin> set repl"
  shows "js_replace s pat repl = b @ repl @ a"
  using assms by (simp add: js_replace_def expand_dollar_plain)

lemma js_replace_absent: "\<not> js_includes s pat \<Longrightarrow> js_replace s pat repl = s"
  by (cases "find_sub pat s") (simp_all add: js_replace_def js_includes_def)

section \<open>Trimming\<close>

definition drop_end :: "('a \<Rightarrow> bool) \<Rightarrow> 'a list \<Rightarrow> 'a list" where
  "drop_end P s = rev (dropWhile P (rev s))"

definition js_trim :: "string \<Rightarrow> string" where
  "js_trim s = drop_end is_space (dropWhile is_space s)"

lemma drop_end_split: "\<exists>t. s = drop_end P s @ t \<and> (\<forall>c\<in>set t. P c)"
proof -
  have "rev s = takeWhile P (rev s) @ dropWhile P (rev s)" by simp
  then have "rev (rev s) = rev (takeWhile P (rev s) @ dropWhile P (rev s))" by (rule arg_cong)
  then have "s = drop_end P s @ rev (takeWhile P (rev s))" unfolding drop_end_def rev_append rev_rev_ident .
  moreover have "\<forall>c\<in>set (rev (takeWhile P (rev s))). P c" by (auto dest: set_takeWhileD)
  ultimately show ?thesis by blast
qed

lemma drop_end_last: "drop_end P s \<noteq> [] \<Longrightarrow> \<not> P (last (drop_end P s))"
  by (simp add: drop_end_def last_rev hd_dropWhile)

lemma dropWhile_hd: "dropWhile P s \<noteq> [] \<Longrightarrow> \<not> P (hd (dropWhile P s))"
  by (rule hd_dropWhile)

lemma drop_end_id: "s = [] \<or> \<not> P (last s) \<Longrightarrow> drop_end P s = s"
  by (cases s rule: rev_cases) (auto simp: drop_end_def)

section \<open>Decimal numbers\<close>

definition digit_char :: "nat \<Rightarrow> char" where
  "digit_char d = char_of (48 + d)"

fun nat_str :: "nat \<Rightarrow> string" where
  "nat_str n = (if n < 10 then [digit_char n] else nat_str (n div 10) @ [digit_char (n mod 10)])"

declare nat_str.simps [simp del]

definition digits_val :: "string \<Rightarrow> nat" where
  "digits_val s = foldl (\<lambda>v c. 10 * v + (of_char c - 48)) 0 s"

definition all_digits :: "string \<Rightarrow> bool" where
  "all_digits s \<longleftrightarrow> s \<noteq> [] \<and> list_all is_digit s"

lemma digit_char_0: "digit_char 0 = CHR ''0''"
  by code_simp

lemma digit_char_val: "d < 10 \<Longrightarrow> of_char (digit_char d) = 48 + d"
  by (simp add: digit_char_def)

lemma is_digit_digit_char: "d < 10 \<Longrightarrow> is_digit (digit_char d)"
  by (simp add: is_digit_def digit_char_val)

lemma digits_val_snoc: "digits_val (s @ [c]) = 10 * digits_val s + (of_char c - 48)"
  by (simp add: digits_val_def)

lemma digits_val_nat_str [js_lib, simp]: "digits_val (nat_str n) = n"
proof (induction n rule: nat_str.induct)
  case (1 n)
  show ?case
  proof (cases "n < 10")
    case True
    then show ?thesis by (simp add: nat_str.simps [of n] digits_val_def digit_char_val)
  next
    case False
    with 1 show ?thesis
      by (simp add: nat_str.simps [of n] digits_val_snoc digit_char_val)
  qed
qed

lemma all_digits_nat_str [js_lib, simp]: "all_digits (nat_str n)"
proof (induction n rule: nat_str.induct)
  case (1 n)
  then show ?case
    by (cases "n < 10") (auto simp: nat_str.simps [of n] all_digits_def is_digit_digit_char)
qed

lemma nat_str_inject [simp]: "nat_str m = nat_str n \<longleftrightarrow> m = n"
  by (metis digits_val_nat_str)

lemma nat_str_nonempty [simp]: "nat_str n \<noteq> []"
  using all_digits_nat_str [of n] by (auto simp: all_digits_def simp del: all_digits_nat_str)

definition int_str :: "int \<Rightarrow> string" where
  "int_str n = (if n < 0 then CHR ''-'' # nat_str (nat (- n)) else nat_str (nat n))"

lemma digit_not_space: "is_digit c \<Longrightarrow> \<not> is_space c"
  by (simp add: is_digit_def is_space_def)

lemma js_trim_plain: "list_all (\<lambda>c. \<not> is_space c) s \<Longrightarrow> js_trim s = s"
proof -
  assume a: "list_all (\<lambda>c. \<not> is_space c) s"
  then have "dropWhile is_space s = s" by (cases s) auto
  moreover have "s = [] \<or> \<not> is_space (last s)" using a by (auto simp: list_all_iff)
  ultimately show ?thesis by (simp add: js_trim_def drop_end_id)
qed

lemma nat_str_no_space: "list_all (\<lambda>c. \<not> is_space c) (nat_str n)"
  using all_digits_nat_str [of n] digit_not_space by (auto simp: all_digits_def list_all_iff simp del: all_digits_nat_str)

lemma minus_not_digit: "\<not> is_digit CHR ''-''" "\<not> is_space CHR ''-''"
  by code_simp+

lemma js_trim_ends: "s \<noteq> [] \<Longrightarrow> \<not> is_space (hd s) \<Longrightarrow> \<not> is_space (last s) \<Longrightarrow> js_trim s = s"
  by (cases s) (simp_all add: js_trim_def drop_end_id)

lemma nat_str_one: "n < 10 \<Longrightarrow> nat_str n = [digit_char n]"
  by (simp add: nat_str.simps [of n])

lemma length_nat_str_le: "n < 10 ^ k \<Longrightarrow> 0 < k \<Longrightarrow> length (nat_str n) \<le> k"
proof (induction k arbitrary: n)
  case (Suc k)
  show ?case
  proof (cases "n < 10")
    case False
    then have "0 < k" using Suc.prems(1) by (cases k) auto
    moreover have "n div 10 < 10 ^ k" using Suc.prems(1) by (simp add: less_mult_imp_div_less mult.commute)
    ultimately show ?thesis using Suc.IH [of "n div 10"] False by (simp add: nat_str.simps [of n])
  qed (simp add: nat_str_one)
qed simp

lemma length_nat_str_ge: "10 ^ k \<le> n \<Longrightarrow> k < length (nat_str n)"
proof (induction k arbitrary: n)
  case (Suc k)
  then have "10 ^ k \<le> n div 10" by (simp add: less_eq_div_iff_mult_less_eq mult.commute)
  moreover have "(10::nat) \<le> 10 ^ Suc k" by simp
  then have "\<not> n < 10" using Suc.prems by linarith
  ultimately show ?case using Suc.IH [of "n div 10"] by (simp add: nat_str.simps [of n])
qed simp

section \<open>Values printed and read back\<close>

text \<open>
  The contract of a notation: what is printed for an admissible value is read back as that value.  The
  programs rely on it for keys of trees, status codes, dates, identifiers and addresses.
\<close>

locale codec =
  fixes enc :: "'a \<Rightarrow> 'b"
    and dec :: "'b \<Rightarrow> 'a option"
    and admissible :: "'a \<Rightarrow> bool"
  assumes dec_enc: "admissible x \<Longrightarrow> dec (enc x) = Some x"
begin

lemma enc_inject: "admissible x \<Longrightarrow> admissible y \<Longrightarrow> enc x = enc y \<longleftrightarrow> x = y"
  by (metis dec_enc option.inject)

lemma distinct_enc: "list_all admissible xs \<Longrightarrow> distinct (map enc xs) = distinct xs"
proof (induction xs)
  case (Cons a xs)
  then have "enc a \<in> enc ` set xs \<longleftrightarrow> a \<in> set xs"
    by (auto simp: list_all_iff dest: enc_inject [THEN iffD1, rotated 2])
  with Cons show ?case by simp
qed simp

end

section \<open>Lists and options\<close>

text \<open>\<open>a || b\<close> on an optional string: the empty string, \<open>null\<close> and \<open>undefined\<close> are falsy.\<close>

definition truthy_str :: "string option \<Rightarrow> bool" where
  "truthy_str x \<longleftrightarrow> (case x of None \<Rightarrow> False | Some s \<Rightarrow> s \<noteq> [])"

definition or_str :: "string option \<Rightarrow> string \<Rightarrow> string" where
  "or_str x d = (case x of None \<Rightarrow> d | Some s \<Rightarrow> if s = [] then d else s)"

lemma truthy_str_simps [simp]: "truthy_str None = False" "truthy_str (Some s) = (s \<noteq> [])"
  by (simp_all add: truthy_str_def)

lemma or_str_simps [simp]: "or_str None d = d" "or_str (Some s) d = (if s = [] then d else s)"
  by (simp_all add: or_str_def)

lemma map_of_filter_neq: "map_of (filter (\<lambda>(k, _). k \<noteq> a) xs) = (map_of xs)(a := None)"
  by (induction xs) auto

lemma map_of_append_if:
  "map_of (xs @ ys) k = (if k \<in> fst ` set xs then map_of xs k else map_of ys k)"
  by (induction xs) auto

text \<open>The list an optional value contributes.\<close>

fun opt_list :: "'a option \<Rightarrow> ('a \<Rightarrow> 'b list) \<Rightarrow> 'b list" where
  "opt_list None f = []"
| "opt_list (Some x) f = f x"

lemma set_opt_list: "y \<in> set (opt_list x f) \<longleftrightarrow> (\<exists>a. x = Some a \<and> y \<in> set (f a))"
  by (cases x) auto

lemma opt_list_cong [fundef_cong]:
  "x = x' \<Longrightarrow> (\<And>a. x' = Some a \<Longrightarrow> f a = g a) \<Longrightarrow> opt_list x f = opt_list x' g"
  by (cases x') auto

lemma map_opt_list: "map h (opt_list x f) = opt_list x (\<lambda>a. map h (f a))"
  by (cases x) auto

lemma set_map_filter: "set (List.map_filter f xs) = {y. \<exists>x\<in>set xs. f x = Some y}"
  by (induction xs) (auto split: option.splits)

end
