(* ===== verification/Js_Object.thy ===== *)
theory Js_Object
  imports Prelude
begin

text \<open>
  JavaScript objects used as dictionaries, and \<open>Map\<close>s.

  An object is the list of its own properties in the order in which \<open>Object.keys\<close> and
  \<open>Object.entries\<close> enumerate them: the array-index keys in ascending numeric order, then the other
  keys in the order they were created.  A \<open>Map\<close> enumerates its entries in insertion order.  Both
  give the same dictionary contract, stated once as the locale \<open>dictionary\<close>.
\<close>

type_synonym 'v js_obj = "(string \<times> 'v) list"

abbreviation obj_keys :: "('k \<times> 'v) list \<Rightarrow> 'k list" where
  "obj_keys \<equiv> map fst"

section \<open>The dictionary contract\<close>

locale dictionary =
  fixes lookup :: "'d \<Rightarrow> 'k \<Rightarrow> 'v option"
    and put :: "'k \<Rightarrow> 'v \<Rightarrow> 'd \<Rightarrow> 'd"
    and del :: "'k \<Rightarrow> 'd \<Rightarrow> 'd"
    and enum :: "'d \<Rightarrow> 'k list"
    and invar :: "'d \<Rightarrow> bool"
  assumes lookup_put: "lookup (put k v d) = (lookup d)(k \<mapsto> v)"
    and lookup_del: "lookup (del k d) = (lookup d)(k := None)"
    and enum_dom: "set (enum d) = dom (lookup d)"
    and enum_distinct: "invar d \<Longrightarrow> distinct (enum d)"
    and invar_put: "invar d \<Longrightarrow> invar (put k v d)"
    and invar_del: "invar d \<Longrightarrow> invar (del k d)"
begin

lemma get_put_same: "lookup (put k v d) k = Some v"
  by (simp add: lookup_put)

lemma get_put_other: "k' \<noteq> k \<Longrightarrow> lookup (put k v d) k' = lookup d k'"
  by (simp add: lookup_put)

lemma del_put_fresh: "lookup d k = None \<Longrightarrow> lookup (del k (put k v d)) = lookup d"
  by (auto simp: lookup_put lookup_del)

lemma size_put_fresh:
  assumes "invar d" "lookup d k = None"
  shows "length (enum (put k v d)) = Suc (length (enum d))"
proof -
  have "set (enum (put k v d)) = insert k (set (enum d))" "k \<notin> set (enum d)"
    using assms(2) by (auto simp: enum_dom lookup_put)
  moreover have "distinct (enum (put k v d))" "distinct (enum d)"
    using assms(1) by (simp_all add: enum_distinct invar_put)
  ultimately show ?thesis by (metis card_insert_disjoint distinct_card List.finite_set)
qed

lemma size_del_present:
  assumes "invar d" "lookup d k = Some v"
  shows "length (enum d) = Suc (length (enum (del k d)))"
proof -
  have "set (enum d) = insert k (set (enum (del k d)))" "k \<notin> set (enum (del k d))"
    using assms(2) by (auto simp: enum_dom lookup_del)
  moreover have "distinct (enum (del k d))" "distinct (enum d)"
    using assms(1) by (simp_all add: enum_distinct invar_del)
  ultimately show ?thesis by (metis card_insert_disjoint distinct_card List.finite_set)
qed

end

section \<open>Insertion-ordered maps (the \<open>Map\<close> class)\<close>

fun map_set :: "'k \<Rightarrow> 'v \<Rightarrow> ('k \<times> 'v) list \<Rightarrow> ('k \<times> 'v) list" where
  "map_set k v [] = [(k, v)]"
| "map_set k v ((a, b) # d) = (if a = k then (k, v) # d else (a, b) # map_set k v d)"

definition map_delete :: "'k \<Rightarrow> ('k \<times> 'v) list \<Rightarrow> ('k \<times> 'v) list" where
  "map_delete k d = filter (\<lambda>(a, _). a \<noteq> k) d"

definition distinct_keys :: "('k \<times> 'v) list \<Rightarrow> bool" where
  "distinct_keys d \<longleftrightarrow> distinct (obj_keys d)"

lemma map_of_map_set [simp]: "map_of (map_set k v d) = (map_of d)(k \<mapsto> v)"
  by (induction k v d rule: map_set.induct) auto

lemma map_of_map_delete [simp]: "map_of (map_delete k d) = (map_of d)(k := None)"
  by (simp add: map_delete_def map_of_filter_neq)

lemma keys_map_set:
  "obj_keys (map_set k v d) = (if k \<in> set (obj_keys d) then obj_keys d else obj_keys d @ [k])"
  by (induction k v d rule: map_set.induct) auto

lemma keys_map_delete: "obj_keys (map_delete k d) = filter (\<lambda>a. a \<noteq> k) (obj_keys d)"
  by (induction d) (auto simp: map_delete_def)

lemma keys_dom: "set (obj_keys d) = dom (map_of d)"
  by (simp add: dom_map_of_conv_image_fst)

interpretation js_map: dictionary map_of map_set map_delete obj_keys distinct_keys
  by unfold_locales
    (auto simp: keys_dom distinct_keys_def keys_map_set keys_map_delete simp del: set_map)

section \<open>Objects: array-index keys come first\<close>

text \<open>An array index is the canonical decimal form of a number below \<open>2^32 - 1\<close>.\<close>

definition is_index :: "string \<Rightarrow> bool" where
  "is_index k \<longleftrightarrow> all_digits k \<and> (k = ''0'' \<or> hd k \<noteq> CHR ''0'') \<and> digits_val k < 4294967295"

fun obj_insert :: "string \<Rightarrow> 'v \<Rightarrow> 'v js_obj \<Rightarrow> 'v js_obj" where
  "obj_insert k v [] = [(k, v)]"
| "obj_insert k v ((a, b) # d) =
     (if is_index a \<and> (\<not> is_index k \<or> digits_val a < digits_val k)
      then (a, b) # obj_insert k v d
      else if \<not> is_index a \<and> \<not> is_index k then (a, b) # obj_insert k v d
      else (k, v) # (a, b) # d)"

text \<open>\<open>o[k] = v\<close>: an existing property keeps its place, a new one goes where enumeration puts it.\<close>

definition obj_put :: "string \<Rightarrow> 'v \<Rightarrow> 'v js_obj \<Rightarrow> 'v js_obj" where
  "obj_put k v d = (if k \<in> set (obj_keys d) then map_set k v d else obj_insert k v d)"

text \<open>The enumeration order of own keys.\<close>

definition key_order :: "string \<Rightarrow> string \<Rightarrow> bool" where
  "key_order a b \<longleftrightarrow> (is_index b \<longrightarrow> is_index a \<and> digits_val a < digits_val b)"

definition obj_ok :: "'v js_obj \<Rightarrow> bool" where
  "obj_ok d \<longleftrightarrow> distinct_keys d \<and> sorted_wrt key_order (obj_keys d)"

lemma set_obj_insert: "set (obj_insert k v d) = insert (k, v) (set d)"
  by (induction k v d rule: obj_insert.induct) auto

lemma keys_obj_insert: "set (obj_keys (obj_insert k v d)) = insert k (set (obj_keys d))"
  by (simp add: set_obj_insert)

lemma map_of_obj_insert:
  "k \<notin> set (obj_keys d) \<Longrightarrow> map_of (obj_insert k v d) = (map_of d)(k \<mapsto> v)"
  by (induction k v d rule: obj_insert.induct) auto

lemma map_of_obj_put [simp]: "map_of (obj_put k v d) = (map_of d)(k \<mapsto> v)"
  by (simp add: obj_put_def map_of_obj_insert)

lemma distinct_obj_insert:
  "k \<notin> set (obj_keys d) \<Longrightarrow> distinct (obj_keys d) \<Longrightarrow> distinct (obj_keys (obj_insert k v d))"
  by (induction k v d rule: obj_insert.induct) (auto simp: set_obj_insert)

lemma nat_str_digits_val:
  "all_digits k \<Longrightarrow> k = ''0'' \<or> hd k \<noteq> CHR ''0'' \<Longrightarrow> nat_str (digits_val k) = k"
proof (induction k rule: rev_induct)
  case (snoc c s)
  have c: "is_digit c" and dc: "digit_char (of_char c - 48) = c" "of_char c - (48::nat) < 10"
    using snoc.prems(1) by (auto simp: all_digits_def is_digit_def digit_char_def)
  show ?case
  proof (cases "s = []")
    case True
    with dc show ?thesis by (simp add: digits_val_def nat_str.simps)
  next
    case False
    with snoc have IH: "nat_str (digits_val s) = s" and hd: "hd s \<noteq> CHR ''0''"
      by (auto simp: all_digits_def)
    have "digits_val s \<noteq> 0"
    proof
      assume "digits_val s = 0"
      with IH have "s = nat_str 0" by simp
      with hd show False by (simp add: nat_str.simps digit_char_0)
    qed
    with IH dc show ?thesis
      by (simp add: digits_val_snoc nat_str.simps [of "10 * v + d" for v d])
  qed
qed (simp add: all_digits_def)

lemma index_val_inj: "is_index a \<Longrightarrow> is_index b \<Longrightarrow> digits_val a = digits_val b \<Longrightarrow> a = b"
  by (metis is_index_def nat_str_digits_val)

lemma sorted_obj_insert:
  "k \<notin> set (obj_keys d) \<Longrightarrow> sorted_wrt key_order (obj_keys d) \<Longrightarrow>
   sorted_wrt key_order (obj_keys (obj_insert k v d))"
proof (induction k v d rule: obj_insert.induct)
  case (2 k v a b d)
  show ?case
  proof (cases "(is_index a \<and> (\<not> is_index k \<or> digits_val a < digits_val k)) \<or> (\<not> is_index a \<and> \<not> is_index k)")
    case True
    then have "obj_insert k v ((a, b) # d) = (a, b) # obj_insert k v d" by auto
    moreover from True 2 have "sorted_wrt key_order (obj_keys (obj_insert k v d))" by auto
    moreover from True have "key_order a k" by (auto simp: key_order_def)
    ultimately show ?thesis using 2 by (auto simp: set_obj_insert)
  next
    case False
    then have e: "obj_insert k v ((a, b) # d) = (k, v) # (a, b) # d" by auto
    from False have k: "is_index k" and ak: "is_index a \<longrightarrow> digits_val k \<le> digits_val a" by auto
    with 2 have "is_index a \<longrightarrow> digits_val k < digits_val a"
      using index_val_inj [of a k] by fastforce
    then have "key_order k a" by (simp add: key_order_def k)
    moreover have "\<forall>x\<in>set (obj_keys d). key_order k x"
      using 2 k \<open>is_index a \<longrightarrow> digits_val k < digits_val a\<close> by (fastforce simp: key_order_def)
    ultimately show ?thesis using e 2 by simp
  qed
qed simp

lemma obj_ok_put: "obj_ok d \<Longrightarrow> obj_ok (obj_put k v d)"
  by (simp add: obj_ok_def obj_put_def distinct_keys_def distinct_obj_insert sorted_obj_insert
      keys_map_set del: set_map)

lemma obj_ok_delete: "obj_ok d \<Longrightarrow> obj_ok (map_delete k d)"
  by (auto simp: obj_ok_def distinct_keys_def keys_map_delete sorted_wrt_filter simp del: set_map)

interpretation js_object: dictionary map_of obj_put map_delete obj_keys obj_ok
  by unfold_locales
    (auto simp: keys_dom obj_ok_put obj_ok_delete simp del: set_map,
     simp add: obj_ok_def distinct_keys_def)

text \<open>
  \<open>o[k]\<close> on an object also sees the members of \<open>Object.prototype\<close>; they are all truthy.
\<close>

definition object_prototype_members :: "string list" where
  "object_prototype_members =
     [''constructor'', ''toString'', ''toLocaleString'', ''valueOf'', ''hasOwnProperty'',
      ''isPrototypeOf'', ''propertyIsEnumerable'', ''__proto__'', ''__defineGetter__'',
      ''__defineSetter__'', ''__lookupGetter__'', ''__lookupSetter__'']"

definition obj_truthy :: "string js_obj \<Rightarrow> string \<Rightarrow> bool" where
  "obj_truthy d k \<longleftrightarrow> (case map_of d k of Some v \<Rightarrow> v \<noteq> [] | None \<Rightarrow> k \<in> set object_prototype_members)"

end
