(* ===== verification/Api_Types.thy ===== *)
theory Api_Types
  imports Js_Object
begin

text \<open>
  The data model both TypeScript packages declare
  (\<open>cam-fe-code-generator/src/services/apis/*/types.ts\<close> and its copy
  \<open>FE-CAM/src/services/*/types.ts\<close>): interfaces as records, closed string unions that the code
  branches on as datatypes, the open ones (\<open>ParamType\<close>, \<open>ParamLocation\<close>: the code also receives other
  strings there) as strings with the list of declared values.

  An optional or nullable member (\<open>x?: T | null\<close>) is an option, \<open>None\<close> for \<open>null\<close> and \<open>undefined\<close>.
  Members of a record carry a short prefix because Isabelle record fields are global names.
\<close>

section \<open>Users\<close>

record UserProfile =
  u_id :: int
  u_username :: string
  u_nickname :: string
  u_email :: string
  u_role :: string
  u_level :: int
  u_created_at :: string

record LoginRequest =
  lq_username :: string
  lq_password :: string

record LoginResponse =
  lr_status :: int
  lr_message :: string
  lr_access_token :: string

record RegisterRequest =
  rq_username :: string
  rq_password :: string
  rq_nickname :: string
  rq_email :: string
  rq_role :: string

record ModifyPasswordRequest =
  mq_old_password :: string
  mq_new_password :: string

record UserResponse =
  ur_status :: int
  ur_message :: string
  ur_user :: "UserProfile option"

text \<open>Every response carries \<open>status\<close> and \<open>message\<close>; the payload differs by endpoint.\<close>

record BaseResponse =
  status :: int
  message :: string

section \<open>APIs and their parameter trees\<close>

datatype HttpMethod = GET | POST | PUT | DELETE | PATCH

fun method_str :: "HttpMethod \<Rightarrow> string" where
  "method_str GET = ''GET''"
| "method_str POST = ''POST''"
| "method_str PUT = ''PUT''"
| "method_str DELETE = ''DELETE''"
| "method_str PATCH = ''PATCH''"

lemma method_str_inject [simp]: "method_str a = method_str b \<longleftrightarrow> a = b"
  by (cases a; cases b) simp_all

datatype ApiLevel = P0 | P1 | P2 | P3 | P4

fun level_str :: "ApiLevel \<Rightarrow> string" where
  "level_str P0 = ''P0''"
| "level_str P1 = ''P1''"
| "level_str P2 = ''P2''"
| "level_str P3 = ''P3''"
| "level_str P4 = ''P4''"

type_synonym ParamLocation = string

definition ParamLocations :: "ParamLocation list" where
  "ParamLocations = [''query'', ''path'', ''header'', ''cookie'', ''body'']"

type_synonym ParamType = string

definition ParamTypes :: "ParamType list" where
  "ParamTypes = [''string'', ''int'', ''double'', ''boolean'', ''array'', ''object'', ''binary'']"

text \<open>
  One node of a parameter tree.  \<open>RequestParam\<close>, \<open>RequestParamDraft\<close>, \<open>ResponseParam\<close> and
  \<open>ResponseParamDraft\<close> differ only in which of \<open>location\<close> and \<open>status_code\<close> is present and in the name
  of the member that refers to the owning API, so they share this type.
\<close>

datatype Param = Param
  (p_id: int)
  (p_api_id: int)
  (p_name: string)
  (p_location: "ParamLocation option")
  (p_status_code: "nat option")
  (p_type: ParamType)
  (p_required: bool)
  (p_default_value: "string option")
  (p_description: "string option")
  (p_example: "string option")
  (p_array_child_type: "ParamType option")
  (p_parent_param_id: "int option")
  (p_children_params: "Param list option")

type_synonym RequestParam = Param
type_synonym ResponseParam = Param
type_synonym RequestParamDraft = Param
type_synonym ResponseParamDraft = Param

lemma size_children_params: "p_children_params p = Some cs \<Longrightarrow> size_list size cs < size p"
  by (cases p) auto

record ApiCategory =
  cat_id :: int
  cat_name :: string
  cat_description :: "string option"

record ApiBrief =
  ab_id :: int
  ab_name :: string
  ab_method :: HttpMethod
  ab_path :: string
  ab_description :: "string option"
  ab_level :: "ApiLevel option"
  ab_is_enabled :: "bool option"
  ab_category_id :: "int option"

text \<open>
  \<open>ApiDetail | ApiDraftDetail\<close>: a published API belongs to a service, a draft to an iteration; the
  members the programs read are the same.  Status codes are natural numbers here.
\<close>

datatype ApiParent = OfService int | OfIteration int

record ApiDetail = ApiBrief +
  ad_parent :: ApiParent
  ad_owner_id :: int
  ad_created_at :: "string option"
  ad_updated_at :: "string option"
  ad_owner :: "UserProfile option"
  ad_category :: "ApiCategory option"
  request_params_by_location :: "Param list js_obj option"
  response_params_by_status_code :: "(nat \<times> Param list) list option"

section \<open>Services and iterations\<close>

record ServiceItem =
  si_id :: int
  si_service_uuid :: string
  si_version :: string
  si_description :: "string option"
  si_owner_id :: int
  si_created_at :: string
  si_is_deleted :: bool
  si_owner :: "UserProfile option"
  si_deleted_at :: "string option"

record ServiceDetail = ServiceItem +
  sd_maintainers :: "UserProfile list option"
  sd_apis :: "ApiBrief list option"
  sd_api_categories :: "ApiCategory list option"

record ServiceIterationDetail =
  it_id :: int
  it_service_id :: int
  it_version :: "string option"
  it_description :: "string option"
  it_is_committed :: bool
  it_service :: "ServiceItem option"
  it_creator :: UserProfile
  it_api_drafts :: "ApiBrief list option"

text \<open>\<open>ServiceDetail | ServiceIterationDetail\<close>, told apart in the code by \<open>"apis" in service\<close>.\<close>

datatype ServiceInfo = LatestInfo ServiceDetail | IterationInfo ServiceIterationDetail

record GetServiceByUuidAndVersionResponse = BaseResponse +
  gs_service :: ServiceInfo
  gs_is_latest :: bool

record GetApiByIdResponse = BaseResponse +
  ga_api :: "ApiDetail option"

end
