(* ===== verification/Cli_Utils.thy ===== *)
theory Cli_Utils
  imports Js_Object
begin

text \<open>
  The pure helpers of \<open>cam-fe-code-generator/src/utils/utils.ts\<close>: validation of versions and service
  names, and the capitalisation the code generator builds its identifiers with.
\<close>

section \<open>Versions\<close>

text \<open>The regular expression \<open>/^\d+\.\d+\.\d+$/\<close>.\<close>

definition version_regex :: "string \<Rightarrow> bool" where
  "version_regex s \<longleftrightarrow>
     (case split_on CHR ''.'' s of [x, y, z] \<Rightarrow> all_digits x \<and> all_digits y \<and> all_digits z
      | _ \<Rightarrow> False)"

definition isValidVersion :: "string \<Rightarrow> bool" where
  "isValidVersion value =
     (if value = [] then False
      else if value = ''latest'' then True
      else if \<not> version_regex value then False
      else True)"

lemma digits_no_dot: "all_digits s \<Longrightarrow> CHR ''.'' \<notin> set s"
  by (auto simp: all_digits_def list_all_iff is_digit_def)

lemma version_regex_iff [js_lib]:
  "version_regex s \<longleftrightarrow>
     (\<exists>x y z. all_digits x \<and> all_digits y \<and> all_digits z \<and> s = x @ ''.'' @ y @ ''.'' @ z)"
proof
  assume "version_regex s"
  then obtain x y z where p: "split_on CHR ''.'' s = [x, y, z]"
    and d: "all_digits x" "all_digits y" "all_digits z"
    by (auto simp: version_regex_def split: list.splits)
  have "s = x @ ''.'' @ y @ ''.'' @ z"
    using join_split_on [of "CHR ''.''" s] by (simp add: p)
  with d show "\<exists>x y z. all_digits x \<and> all_digits y \<and> all_digits z \<and> s = x @ ''.'' @ y @ ''.'' @ z"
    by blast
next
  assume "\<exists>x y z. all_digits x \<and> all_digits y \<and> all_digits z \<and> s = x @ ''.'' @ y @ ''.'' @ z"
  then show "version_regex s"
    by (auto simp: version_regex_def split_on_append split_on_free digits_no_dot)
qed

section \<open>Service names\<close>

text \<open>The class of the \<open>invalidChars\<close> regular expression: the reserved characters and the control range.\<close>

definition invalid_filename_char :: "char \<Rightarrow> bool" where
  "invalid_filename_char c \<longleftrightarrow>
     c \<in> set (''<>:/|?*'' @ DQ @ BSL) \<or> of_char c \<le> (31::nat)"

definition isValidFilename :: "string \<Rightarrow> bool" where
  "isValidFilename filename =
     (if filename = [] then False
      else if list_ex invalid_filename_char filename then False
      else if filename = ''.'' \<or> filename = ''..'' then False
      else True)"

lemma isValidFilename_no_slash: "isValidFilename f \<Longrightarrow> CHR ''/'' \<notin> set f"
  by (auto simp: isValidFilename_def list_ex_iff invalid_filename_char_def split: if_splits)

lemma isValidFilename_no_colon: "isValidFilename f \<Longrightarrow> CHR '':'' \<notin> set f"
  by (auto simp: isValidFilename_def list_ex_iff invalid_filename_char_def split: if_splits)

section \<open>Capitalisation\<close>

text \<open>\<open>string.charAt(0).toUpperCase() + string.slice(1)\<close>.\<close>

definition capitalizeFirstLetter :: "string \<Rightarrow> string" where
  "capitalizeFirstLetter s = (case s of [] \<Rightarrow> [] | c # cs \<Rightarrow> upper_char c # cs)"

lemma capitalize_Nil [simp]: "capitalizeFirstLetter [] = []"
  by (simp add: capitalizeFirstLetter_def)

lemma capitalize_Cons [simp]: "capitalizeFirstLetter (c # cs) = upper_char c # cs"
  by (simp add: capitalizeFirstLetter_def)

lemma capitalize_idem [simp]:
  "capitalizeFirstLetter (capitalizeFirstLetter s) = capitalizeFirstLetter s"
  by (cases s) simp_all

lemma capitalize_eq_Nil [simp]: "capitalizeFirstLetter s = [] \<longleftrightarrow> s = []"
  by (cases s) simp_all

lemma capitalize_append:
  "s \<noteq> [] \<Longrightarrow> capitalizeFirstLetter (s @ t) = capitalizeFirstLetter s @ t"
  by (cases s) simp_all

lemma length_capitalize [simp]: "length (capitalizeFirstLetter s) = length s"
  by (cases s) simp_all

end
