(* ===== verification/Generator.thy ===== *)
theory Generator
  imports Api_Types Cli_Utils
begin

text \<open>
  \<open>cam-fe-code-generator/src/services/code-generate/generator.ts\<close>: from the parameter trees of an
  API to the text of its TypeScript interfaces and to the option record the service-class template
  consumes.  The text-producing functions are translated literally; \<open>iface_tree\<close> is a structured
  reference of what they print, and the properties are proved on it and carried over.
\<close>

section \<open>Model\<close>

text \<open>The only exception the generator itself can raise: reading a member of \<open>undefined\<close>.\<close>

datatype gen_error = TypeErrorUndefined string

record ApiOption =
  functionName :: string
  apiMethod :: HttpMethod
  apiPath :: string
  apiDescription :: string
  reqBodyInterfaceName :: string
  reqQueryInterfaceName :: string
  reqPathInterfaceName :: string
  reqHeaderInterfaceName :: string
  reqCookieInterfaceName :: string
  respInterfaceNames :: "string list"
  reqBodyFields :: "string list"
  reqQueryFields :: "string list"
  reqPathFields :: "string list"
  reqHeaderFields :: "string list"
  reqCookieFields :: "string list"

function tsTypeMap :: "string \<Rightarrow> string option \<Rightarrow> string" where
  "tsTypeMap type arrayChildType =
     (if type \<in> set [''int'', ''float'', ''double'', ''long''] then ''number''
      else if type \<in> set [''string'', ''text''] then ''string''
      else if type \<in> set [''boolean'', ''bool''] then ''boolean''
      else if type \<in> set [''array'', ''list''] then
        (case arrayChildType of
           Some child \<Rightarrow> (if child \<noteq> [] then tsTypeMap child None @ ''[]'' else ''any[]'')
         | None \<Rightarrow> ''any[]'')
      else if type \<in> set [''object'', ''map''] then ''any''
      else ''any'')"
  by pat_completeness auto
termination
  by (relation "measure (\<lambda>(_, c). case c of None \<Rightarrow> 0 | Some _ \<Rightarrow> 1)") auto

declare tsTypeMap.simps [simp del]

definition has_children :: "Param \<Rightarrow> bool" where
  "has_children p \<longleftrightarrow> (case p_children_params p of None \<Rightarrow> False | Some cs \<Rightarrow> cs \<noteq> [])"

definition interface_text :: "string \<Rightarrow> string list \<Rightarrow> string" where
  "interface_text interfaceName flds =
     ''export interface '' @ interfaceName @ '' {'' @ NL @ join NL flds @ NL @ ''}''"

definition field_text :: "Param \<Rightarrow> string \<Rightarrow> string" where
  "field_text param type =
     (let comment = (if truthy_str (p_description param)
                     then ''  /** '' @ or_str (p_description param) [] @ '' */'' @ NL else []);
          isOptional = \<not> p_required param
      in comment @ ''  '' @ p_name param @ (if isOptional then ''?'' else []) @ '': '' @ type @ '';'')"

text \<open>
  \<open>generateInterface\<close> and the body of its \<open>params.forEach\<close> loop: \<open>gen_params\<close> returns what the loop
  pushes to \<open>interfaces\<close> and to \<open>fields\<close>.
\<close>

function generateInterface :: "string \<Rightarrow> Param list \<Rightarrow> string list"
  and gen_params :: "string \<Rightarrow> Param list \<Rightarrow> string list \<times> string list" where
  "generateInterface name params =
     (let interfaceName = capitalizeFirstLetter name;
          (interfaces, flds) = gen_params interfaceName params
      in interfaces @ [interface_text interfaceName flds])"
| "gen_params interfaceName [] = ([], [])"
| "gen_params interfaceName (param # params) =
     (let (childInterfaces, type) =
        (if p_type param = ''object'' \<and> has_children param then
           (let childInterfaceName = interfaceName @ capitalizeFirstLetter (p_name param)
            in (generateInterface childInterfaceName (case p_children_params param of None \<Rightarrow> [] | Some cs \<Rightarrow> cs),
                childInterfaceName))
         else if p_type param = ''array'' \<and> p_array_child_type param = Some ''object'' \<and> has_children param then
           (let childInterfaceName = interfaceName @ capitalizeFirstLetter (p_name param) @ ''Item''
            in (generateInterface childInterfaceName (case p_children_params param of None \<Rightarrow> [] | Some cs \<Rightarrow> cs),
                childInterfaceName @ ''[]''))
         else ([], tsTypeMap (p_type param) (p_array_child_type param)));
        (interfaces, flds) = gen_params interfaceName params
      in (childInterfaces @ interfaces, field_text param type # flds))"
  by pat_completeness auto
termination
  by (relation "measure (\<lambda>x. case x of Inl (_, ps) \<Rightarrow> 2 * size_list size ps + 1
                                      | Inr (_, ps) \<Rightarrow> 2 * size_list size ps)")
    (auto simp: has_children_def split: option.splits dest: size_children_params)

declare generateInterface.simps [simp del] gen_params.simps [simp del]

definition requestInterfaceName :: "string \<Rightarrow> string \<Rightarrow> string" where
  "requestInterfaceName apiName location =
     capitalizeFirstLetter apiName @ capitalizeFirstLetter location @ ''Request''"

definition responseInterfaceName :: "string \<Rightarrow> nat \<Rightarrow> string" where
  "responseInterfaceName apiName statusCode =
     capitalizeFirstLetter apiName @ nat_str statusCode @ ''Response''"

text \<open>The five \<open>let\<close> variables that the \<open>switch (location)\<close> assigns.\<close>

record ReqNames =
  nm_body :: string
  nm_query :: string
  nm_path :: string
  nm_header :: string
  nm_cookie :: string

definition no_names :: ReqNames where
  "no_names = \<lparr>nm_body = [], nm_query = [], nm_path = [], nm_header = [], nm_cookie = []\<rparr>"

definition assign_name :: "string \<Rightarrow> string \<Rightarrow> ReqNames \<Rightarrow> ReqNames" where
  "assign_name location name n =
     (if location = ''body'' then n\<lparr>nm_body := name\<rparr>
      else if location = ''query'' then n\<lparr>nm_query := name\<rparr>
      else if location = ''path'' then n\<lparr>nm_path := name\<rparr>
      else if location = ''header'' then n\<lparr>nm_header := name\<rparr>
      else if location = ''cookie'' then n\<lparr>nm_cookie := name\<rparr>
      else n)"

definition obj_at :: "('k \<times> Param list) list \<Rightarrow> 'k \<Rightarrow> Param list" where
  "obj_at d k = (case map_of d k of None \<Rightarrow> [] | Some ps \<Rightarrow> ps)"

fun request_loop :: "string \<Rightarrow> Param list js_obj \<Rightarrow> string list \<Rightarrow> string list \<times> ReqNames \<Rightarrow> string list \<times> ReqNames" where
  "request_loop apiName requestParams [] acc = acc"
| "request_loop apiName requestParams (location # ls) (namespaces, names) =
     (let params = obj_at requestParams location in
      if params \<noteq> [] then
        let requestName = requestInterfaceName apiName location;
            reqInterfaces = generateInterface requestName params
        in request_loop apiName requestParams ls
             (namespaces @ reqInterfaces, assign_name location requestName names)
      else request_loop apiName requestParams ls (namespaces, names))"

fun response_loop :: "string \<Rightarrow> (nat \<times> Param list) list \<Rightarrow> nat list \<Rightarrow> string list \<times> string list \<Rightarrow> string list \<times> string list" where
  "response_loop apiName responseParams [] acc = acc"
| "response_loop apiName responseParams (statusCode # cs) (namespaces, names) =
     (case map_of responseParams statusCode of
        None \<Rightarrow> response_loop apiName responseParams cs (namespaces, names)
      | Some params \<Rightarrow>
          if params \<noteq> [] then
            let responseName = responseInterfaceName apiName statusCode;
                resInterfaces = generateInterface responseName params
            in response_loop apiName responseParams cs (namespaces @ resInterfaces, names @ [responseName])
          else response_loop apiName responseParams cs (namespaces, names))"

text \<open>\<open>api.request_params_by_location?.body.map((param) => param.name) || []\<close>.\<close>

definition location_fields :: "Param list js_obj option \<Rightarrow> string \<Rightarrow> gen_error + string list" where
  "location_fields rp location =
     (case rp of None \<Rightarrow> Inr []
      | Some d \<Rightarrow> (case map_of d location of None \<Rightarrow> Inl (TypeErrorUndefined location)
                  | Some params \<Rightarrow> Inr (map p_name params)))"

definition generateTSCode :: "ApiDetail \<Rightarrow> gen_error + (string list \<times> ApiOption)" where
  "generateTSCode api =
     (let requestParams = (case request_params_by_location api of None \<Rightarrow> [] | Some d \<Rightarrow> d);
          (ns1, names) = request_loop (ab_name api) requestParams (obj_keys requestParams) ([], no_names);
          responseParams = (case response_params_by_status_code api of None \<Rightarrow> [] | Some d \<Rightarrow> d);
          (namespaces, respNames) = response_loop (ab_name api) responseParams (obj_keys responseParams) (ns1, []);
          rp = request_params_by_location api
      in case location_fields rp ''body'' of Inl e \<Rightarrow> Inl e | Inr bodyF \<Rightarrow>
         case location_fields rp ''query'' of Inl e \<Rightarrow> Inl e | Inr queryF \<Rightarrow>
         case location_fields rp ''path'' of Inl e \<Rightarrow> Inl e | Inr pathF \<Rightarrow>
         case location_fields rp ''header'' of Inl e \<Rightarrow> Inl e | Inr headerF \<Rightarrow>
         case location_fields rp ''cookie'' of Inl e \<Rightarrow> Inl e | Inr cookieF \<Rightarrow>
           Inr (namespaces,
             \<lparr>functionName = capitalizeFirstLetter (ab_name api) @ method_str (ab_method api),
              apiMethod = ab_method api,
              apiPath = ab_path api,
              apiDescription = or_str (ab_description api) [],
              reqBodyInterfaceName = nm_body names,
              reqQueryInterfaceName = nm_query names,
              reqPathInterfaceName = nm_path names,
              reqHeaderInterfaceName = nm_header names,
              reqCookieInterfaceName = nm_cookie names,
              respInterfaceNames = respNames,
              reqBodyFields = bodyF,
              reqQueryFields = queryF,
              reqPathFields = pathF,
              reqHeaderFields = headerF,
              reqCookieFields = cookieF\<rparr>))"

section \<open>A structured reference of the printed interfaces\<close>

text \<open>A member has a built-in type, an array of it so many levels deep, or names an interface.\<close>

datatype ts_base = TNumber | TString | TBoolean | TAny

datatype member_type = Plain ts_base nat | Ref string | RefArray string

datatype iface = Iface (if_name: string) (if_fields: "(Param \<times> member_type) list")

fun base_name :: "ts_base \<Rightarrow> string" where
  "base_name TNumber = ''number''"
| "base_name TString = ''string''"
| "base_name TBoolean = ''boolean''"
| "base_name TAny = ''any''"

fun render_type :: "member_type \<Rightarrow> string" where
  "render_type (Plain b k) = base_name b @ concat (replicate k ''[]'')"
| "render_type (Ref n) = n"
| "render_type (RefArray n) = n @ ''[]''"

definition render_iface :: "iface \<Rightarrow> string" where
  "render_iface i = interface_text (if_name i) (map (\<lambda>(p, t). field_text p (render_type t)) (if_fields i))"

text \<open>What a nested parameter adds to the name of the interface it occurs in, if it gets one.\<close>

definition name_ext :: "Param \<Rightarrow> string option" where
  "name_ext p =
     (if p_type p = ''object'' \<and> has_children p then Some (capitalizeFirstLetter (p_name p))
      else if p_type p = ''array'' \<and> p_array_child_type p = Some ''object'' \<and> has_children p
      then Some (capitalizeFirstLetter (p_name p) @ ''Item'')
      else None)"

text \<open>The built-in type of a declared type without its array suffix, and the number of suffixes.\<close>

definition base_of :: "string \<Rightarrow> ts_base" where
  "base_of t =
     (if t \<in> set [''int'', ''float'', ''double'', ''long''] then TNumber
      else if t \<in> set [''string'', ''text''] then TString
      else if t \<in> set [''boolean'', ''bool''] then TBoolean else TAny)"

definition is_array_type :: "string \<Rightarrow> bool" where
  "is_array_type t \<longleftrightarrow> t \<in> set [''array'', ''list'']"

definition plain_type :: "string \<Rightarrow> string option \<Rightarrow> member_type" where
  "plain_type t c =
     (if is_array_type t \<and> truthy_str c
      then (let ct = or_str c [] in Plain (base_of ct) (if is_array_type ct then 2 else 1))
      else Plain (base_of t) (if is_array_type t then 1 else 0))"

definition field_type :: "string \<Rightarrow> Param \<Rightarrow> member_type" where
  "field_type n p =
     (case name_ext p of None \<Rightarrow> plain_type (p_type p) (p_array_child_type p)
      | Some e \<Rightarrow> if p_type p = ''object'' then Ref (n @ e) else RefArray (n @ e))"

definition children :: "Param \<Rightarrow> Param list" where
  "children p = (case p_children_params p of None \<Rightarrow> [] | Some cs \<Rightarrow> cs)"

lemma size_children: "has_children p \<Longrightarrow> size_list size (children p) < size p"
  by (auto simp: has_children_def children_def split: option.splits dest: size_children_params)

lemma name_ext_has_children: "name_ext p = Some e \<Longrightarrow> has_children p"
  by (simp add: name_ext_def split: if_splits)

lemma size_list_member: "p \<in> set ps \<Longrightarrow> size p < size_list size ps"
  by (induction ps) auto

lemma size_children_less [termination_simp]:
  "p \<in> set ps \<Longrightarrow> name_ext p = Some e \<Longrightarrow> size_list size (children p) < size_list size ps"
  using size_list_member [of p ps] size_children [of p] name_ext_has_children [of p e] by simp

fun iface_tree :: "string \<Rightarrow> Param list \<Rightarrow> iface list" where
  "iface_tree n ps =
     concat (map (\<lambda>p. opt_list (name_ext p) (\<lambda>e. iface_tree (n @ e) (children p))) ps)
     @ [Iface n (map (\<lambda>p. (p, field_type n p)) ps)]"

declare iface_tree.simps [simp del]

abbreviation iface_names :: "iface list \<Rightarrow> string list" where
  "iface_names is \<equiv> map if_name is"

fun type_refs :: "member_type \<Rightarrow> string list" where
  "type_refs (Plain _ _) = []"
| "type_refs (Ref n) = [n]"
| "type_refs (RefArray n) = [n]"

definition iface_refs :: "iface \<Rightarrow> string list" where
  "iface_refs i = concat (map (type_refs \<circ> snd) (if_fields i))"

text \<open>Every generated name a declaration refers to is declared before it.\<close>

fun decl_before_use :: "string list \<Rightarrow> iface list \<Rightarrow> bool" where
  "decl_before_use D [] = True"
| "decl_before_use D (i # is) =
     (list_all (\<lambda>r. r \<in> set D) (iface_refs i) \<and> decl_before_use (if_name i # D) is)"

text \<open>
  The interface that stands for a parameter list, and that every member of a declaration has the type
  its parameter calls for, the interface of a nested parameter being among the declarations \<open>is\<close>
  with exactly the nested parameters as its members.
\<close>

definition iface_of :: "string \<Rightarrow> Param list \<Rightarrow> iface" where
  "iface_of n ps = Iface n (map (\<lambda>p. (p, field_type n p)) ps)"

definition member_declared :: "iface list \<Rightarrow> string \<Rightarrow> Param \<times> member_type \<Rightarrow> bool" where
  "member_declared is n f \<longleftrightarrow>
     (case f of (p, t) \<Rightarrow> t = field_type n p \<and>
        (case name_ext p of None \<Rightarrow> type_refs t = []
         | Some e \<Rightarrow> type_refs t = [n @ e] \<and> iface_of (n @ e) (children p) \<in> set is))"

definition members_declared :: "iface list \<Rightarrow> bool" where
  "members_declared is \<longleftrightarrow> list_all (\<lambda>i. list_all (member_declared is (if_name i)) (if_fields i)) is"

text \<open>No two sibling parameters have name extensions of which one is a prefix of the other.\<close>

fun prefix_free :: "string list \<Rightarrow> bool" where
  "prefix_free [] = True"
| "prefix_free (e # es) = (list_all (\<lambda>f. \<not> prefix e f \<and> \<not> prefix f e) es \<and> prefix_free es)"

fun exts_free :: "Param list \<Rightarrow> bool" where
  "exts_free ps \<longleftrightarrow>
     prefix_free (List.map_filter name_ext ps) \<and>
     list_all (\<lambda>p. case name_ext p of None \<Rightarrow> True | Some e \<Rightarrow> e \<noteq> [] \<and> exts_free (children p)) ps"

declare exts_free.simps [simp del]

section \<open>The printed text is the rendering of the reference\<close>

definition capitalized :: "string \<Rightarrow> bool" where
  "capitalized n \<longleftrightarrow> capitalizeFirstLetter n = n"

lemma capitalize_Item: "capitalizeFirstLetter (capitalizeFirstLetter x @ ''Item'') = capitalizeFirstLetter x @ ''Item''"
proof (cases x)
  case Nil
  then show ?thesis by (simp add: upper_char_def is_lower_def)
qed simp

lemma capitalized_ext:
  assumes "capitalized n" "name_ext p = Some e"
  shows "capitalizeFirstLetter (n @ e) = n @ e"
proof (cases "n = []")
  case True
  with assms(2) show ?thesis by (auto simp: name_ext_def capitalize_Item split: if_splits)
next
  case False
  with assms(1) show ?thesis by (simp add: capitalize_append capitalized_def)
qed

lemma tsTypeMap_alone: "tsTypeMap t None = base_name (base_of t) @ (if is_array_type t then ''[]'' else [])"
  by (simp add: tsTypeMap.simps base_of_def is_array_type_def)

lemma tsTypeMap_not_array: "\<not> is_array_type t \<Longrightarrow> tsTypeMap t c = tsTypeMap t None"
  by (simp add: tsTypeMap.simps is_array_type_def)

lemma tsTypeMap_array: "is_array_type t \<Longrightarrow> ct \<noteq> [] \<Longrightarrow> tsTypeMap t (Some ct) = tsTypeMap ct None @ ''[]''"
  unfolding is_array_type_def by (subst tsTypeMap.simps) auto

lemma tsTypeMap_empty: "is_array_type t \<Longrightarrow> tsTypeMap t (Some []) = tsTypeMap t None"
  unfolding is_array_type_def by (subst (1 2) tsTypeMap.simps) auto

lemma render_plain: "render_type (plain_type t c) = tsTypeMap t c"
proof (cases "is_array_type t \<and> truthy_str c")
  case True
  then obtain ct where ct: "c = Some ct" "ct \<noteq> []" "is_array_type t" by (cases c) auto
  then show ?thesis
    unfolding ct(1) tsTypeMap_array [OF ct(3,2)] tsTypeMap_alone
    by (simp add: plain_type_def Let_def numeral_2_eq_2)
next
  case False
  then have "tsTypeMap t c = tsTypeMap t None"
    using tsTypeMap_not_array [of t c] tsTypeMap_empty [of t] by (cases c) auto
  then show ?thesis unfolding tsTypeMap_alone using False by (simp add: plain_type_def)
qed

lemma gen_params_step:
  "gen_params n (p # ps) =
     (let (is, fs) = gen_params n ps
      in ((opt_list (name_ext p) (\<lambda>e. generateInterface (n @ e) (children p))) @ is,
          field_text p (render_type (field_type n p)) # fs))"
  by (auto simp: gen_params.simps name_ext_def field_type_def render_plain children_def Let_def split: prod.splits)

lemma gen_params_map:
  "gen_params n ps =
     (concat (map (\<lambda>p. opt_list (name_ext p) (\<lambda>e. generateInterface (n @ e) (children p))) ps),
      map (\<lambda>p. field_text p (render_type (field_type n p))) ps)"
  by (induction ps) (simp_all add: gen_params_step Let_def gen_params.simps(1))

lemma render_root:
  "render_iface (Iface n (map (\<lambda>p. (p, f p)) ps)) = interface_text n (map (\<lambda>p. field_text p (render_type (f p))) ps)"
  by (simp add: render_iface_def o_def)

lemma generate_refines:
  "capitalizeFirstLetter name = n \<Longrightarrow> generateInterface name ps = map render_iface (iface_tree n ps)"
proof (induction n ps arbitrary: name rule: iface_tree.induct)
  case (1 n ps)
  then have cap: "capitalized n" by (auto simp: capitalized_def)
  have "(opt_list (name_ext p) (\<lambda>e. generateInterface (n @ e) (children p))) =
        map render_iface (opt_list (name_ext p) (\<lambda>e. iface_tree (n @ e) (children p)))"
    if "p \<in> set ps" for p
    using "1.IH" [OF that _ capitalized_ext [OF cap]] by (cases "name_ext p") auto
  then have "concat (map (\<lambda>p. opt_list (name_ext p) (\<lambda>e. generateInterface (n @ e) (children p))) ps) =
        map render_iface (concat (map (\<lambda>p. opt_list (name_ext p) (\<lambda>e. iface_tree (n @ e) (children p))) ps))"
    by (simp add: map_concat o_def cong: map_cong)
  then show ?case
    by (simp add: "1.prems" generateInterface.simps [of name] iface_tree.simps [of n ps] gen_params_map
        render_root Let_def del: map_concat)
qed

section \<open>Properties of the reference\<close>

lemma iface_tree_last: "iface_tree n ps = is \<Longrightarrow> is \<noteq> [] \<and> last is = Iface n (map (\<lambda>p. (p, field_type n p)) ps)"
  by (subst (asm) iface_tree.simps) auto

lemma root_declared: "n \<in> set (iface_names (iface_tree n ps))"
  by (subst iface_tree.simps) simp

lemma in_iface_names:
  "m \<in> set (iface_names (iface_tree n ps)) \<longleftrightarrow>
     m = n \<or> (\<exists>p\<in>set ps. \<exists>e. name_ext p = Some e \<and> m \<in> set (iface_names (iface_tree (n @ e) (children p))))"
  by (fastforce simp: iface_tree.simps [of n ps] set_opt_list)

lemma iface_names_prefix: "m \<in> set (iface_names (iface_tree n ps)) \<Longrightarrow> prefix n m"
proof (induction n ps arbitrary: m rule: iface_tree.induct)
  case (1 n ps)
  from "1.prems" consider "m = n"
    | p e where "p \<in> set ps" "name_ext p = Some e" "m \<in> set (iface_names (iface_tree (n @ e) (children p)))"
    using in_iface_names by blast
  then show ?case
  proof cases
    case 2
    with "1.IH" [OF 2(1) 2(2)] have "prefix (n @ e) m" by simp
    then show ?thesis by (rule append_prefixD)
  qed simp
qed

lemma decl_before_use_append:
  "decl_before_use D (xs @ ys) \<longleftrightarrow>
     decl_before_use D xs \<and> decl_before_use (rev (iface_names xs) @ D) ys"
  by (induction xs arbitrary: D) auto

lemma decl_before_use_mono: "decl_before_use D xs \<Longrightarrow> set D \<subseteq> set E \<Longrightarrow> decl_before_use E xs"
proof (induction xs arbitrary: D E)
  case (Cons i xs)
  have "decl_before_use (if_name i # E) xs"
    by (rule Cons.IH [of "if_name i # D"]) (use Cons.prems in auto)
  with Cons show ?case by (auto simp: list_all_iff)
qed simp

lemma decl_before_use_concat:
  "\<forall>x\<in>set xss. decl_before_use [] x \<Longrightarrow> decl_before_use D (concat xss)"
  by (induction xss arbitrary: D) (auto simp: decl_before_use_append intro: decl_before_use_mono)

lemma field_type_refs:
  "r \<in> set (type_refs (field_type n p)) \<Longrightarrow> \<exists>e. name_ext p = Some e \<and> r = n @ e"
  by (auto simp: field_type_def plain_type_def Let_def split: option.splits if_splits)

lemma root_in_tree: "iface_of n ps \<in> set (iface_tree n ps)"
  by (subst iface_tree.simps) (simp add: iface_of_def)

lemma subtree_in_tree:
  "p \<in> set ps \<Longrightarrow> name_ext p = Some e \<Longrightarrow> set (iface_tree (n @ e) (children p)) \<subseteq> set (iface_tree n ps)"
  unfolding iface_tree.simps [of n ps] by (force simp: set_opt_list)

lemma in_iface_tree:
  "i \<in> set (iface_tree n ps) \<longleftrightarrow>
     i = iface_of n ps \<or> (\<exists>p\<in>set ps. \<exists>e. name_ext p = Some e \<and> i \<in> set (iface_tree (n @ e) (children p)))"
  by (auto simp: iface_tree.simps [of n ps] set_opt_list iface_of_def)

lemma member_declared_mono: "member_declared is n f \<Longrightarrow> set is \<subseteq> set is' \<Longrightarrow> member_declared is' n f"
  by (auto simp: member_declared_def split: option.splits)

lemma iface_tree_members: "members_declared (iface_tree n ps)"
proof (induction n ps rule: iface_tree.induct)
  case (1 n ps)
  let ?t = "iface_tree n ps"
  have "member_declared ?t (if_name i) f" if i: "i \<in> set ?t" and f: "f \<in> set (if_fields i)" for i f
  proof -
    from i consider (root) "i = iface_of n ps"
      | (below) p e where "p \<in> set ps" "name_ext p = Some e" "i \<in> set (iface_tree (n @ e) (children p))"
      using in_iface_tree by blast
    then show ?thesis
    proof cases
      case r: root
      with f obtain p where p: "p \<in> set ps" "f = (p, field_type n p)" by (auto simp: iface_of_def)
      show ?thesis
      proof (cases "name_ext p")
        case None
        then show ?thesis
          by (simp add: member_declared_def p(2) r iface_of_def field_type_def plain_type_def Let_def)
      next
        case (Some e)
        have "iface_of (n @ e) (children p) \<in> set ?t"
          using subtree_in_tree [OF p(1) Some] root_in_tree by blast
        with Some show ?thesis by (simp add: member_declared_def p(2) r iface_of_def field_type_def)
      qed
    next
      case below
      have "member_declared (iface_tree (n @ e) (children p)) (if_name i) f"
        using "1.IH" [OF below(1,2)] below(3) f by (auto simp: members_declared_def list_all_iff)
      then show ?thesis using subtree_in_tree [OF below(1,2)] by (rule member_declared_mono)
    qed
  qed
  then show ?case by (auto simp: members_declared_def list_all_iff)
qed

lemma iface_tree_closed: "decl_before_use [] (iface_tree n ps)"
proof (induction n ps rule: iface_tree.induct)
  case (1 n ps)
  let ?xss = "map (\<lambda>p. opt_list (name_ext p) (\<lambda>e. iface_tree (n @ e) (children p))) ps"
  let ?root = "Iface n (map (\<lambda>p. (p, field_type n p)) ps)"
  have "decl_before_use [] (opt_list (name_ext p) (\<lambda>e. iface_tree (n @ e) (children p)))"
    if "p \<in> set ps" for p
    using 1 [OF that] by (cases "name_ext p") auto
  then have "decl_before_use [] (concat ?xss)"
    by (intro decl_before_use_concat) auto
  moreover have "r \<in> set (iface_names (concat ?xss))" if "r \<in> set (iface_refs ?root)" for r
  proof -
    from that obtain p where p: "p \<in> set ps" "r \<in> set (type_refs (field_type n p))"
      by (auto simp: iface_refs_def)
    then obtain e where e: "name_ext p = Some e" "r = n @ e" using field_type_refs by blast
    with root_declared [of "n @ e" "children p"] p(1) show ?thesis by force
  qed
  ultimately show ?case
    by (subst iface_tree.simps) (simp add: decl_before_use_append list_all_iff del: concat.simps map_concat)
qed

lemma prefix_free_sorted: "prefix_free es \<longleftrightarrow> sorted_wrt (\<lambda>e f. \<not> prefix e f \<and> \<not> prefix f e) es"
  by (induction es) (auto simp: list_all_iff)

lemma prefix_free_map:
  "distinct xs \<Longrightarrow> (\<And>x y. x \<in> set xs \<Longrightarrow> y \<in> set xs \<Longrightarrow> x \<noteq> y \<Longrightarrow> \<not> prefix (f x) (f y)) \<Longrightarrow>
   prefix_free (map f xs)"
  by (induction xs) (auto simp: list_all_iff)

lemma prefix_free_append_left: "prefix_free (map ((@) n) es) \<longleftrightarrow> prefix_free es"
  by (simp add: prefix_free_sorted sorted_wrt_map)

text \<open>Trees whose names start with prefix-free roots have no name in common.\<close>

lemma distinct_forest:
  assumes "prefix_free (map f xs)"
    and "\<And>x. x \<in> set xs \<Longrightarrow> distinct (iface_names (t x))"
    and "\<And>x m. x \<in> set xs \<Longrightarrow> m \<in> set (iface_names (t x)) \<Longrightarrow> prefix (f x) m"
  shows "distinct (iface_names (concat (map t xs)))"
  using assms
proof (induction xs)
  case (Cons x xs)
  have IH: "distinct (iface_names (concat (map t xs)))" using Cons by simp
  have "m \<notin> set (iface_names (t y))" if "m \<in> set (iface_names (t x))" "y \<in> set xs" for m y
  proof
    assume "m \<in> set (iface_names (t y))"
    with that Cons.prems(3) have "prefix (f x) m" "prefix (f y) m" by (meson list.set_intros)+
    then have "prefix (f x) (f y) \<or> prefix (f y) (f x)" using prefix_same_cases by blast
    with Cons.prems(1) that(2) show False by (auto simp: list_all_iff)
  qed
  with IH Cons.prems(2) [of x] show ?case by fastforce
qed simp

lemma concat_opt_list:
  "concat (map (\<lambda>p. opt_list (g p) (t p)) ps) =
   concat (map (\<lambda>(p, e). t p e) (List.map_filter (\<lambda>p. map_option (Pair p) (g p)) ps))"
  by (induction ps) (auto split: option.splits)

lemma map_filter_pairs:
  "map (\<lambda>(p, e). n @ e) (List.map_filter (\<lambda>p. map_option (Pair p) (g p)) ps) = map ((@) n) (List.map_filter g ps)"
  by (induction ps) (auto split: option.splits)

lemma exts_freeD:
  assumes "exts_free ps"
  shows "prefix_free (List.map_filter name_ext ps)"
    and "p \<in> set ps \<Longrightarrow> name_ext p = Some e \<Longrightarrow> e \<noteq> [] \<and> exts_free (children p)"
  using assms by (auto simp: exts_free.simps [of ps] list_all_iff split: option.splits)

lemma iface_names_distinct: "exts_free ps \<Longrightarrow> distinct (iface_names (iface_tree n ps))"
proof (induction n ps rule: iface_tree.induct)
  case (1 n ps)
  let ?t = "\<lambda>p e. iface_tree (n @ e) (children p)"
  have "distinct (iface_names (concat (map (\<lambda>p. opt_list (name_ext p) (?t p)) ps)))"
  proof (unfold concat_opt_list, rule distinct_forest [where f = "\<lambda>(p, e). n @ e"])
    show "prefix_free (map (\<lambda>(p, e). n @ e) (List.map_filter (\<lambda>p. map_option (Pair p) (name_ext p)) ps))"
      using exts_freeD(1) [OF "1.prems"] by (simp only: map_filter_pairs prefix_free_append_left)
    have "distinct (iface_names (?t p e))" if "p \<in> set ps" "name_ext p = Some e" for p e
      using "1.IH" [OF that] exts_freeD(2) [OF "1.prems" that] by simp
    then show "distinct (iface_names ((\<lambda>(p, e). ?t p e) x))"
      if "x \<in> set (List.map_filter (\<lambda>p. map_option (Pair p) (name_ext p)) ps)" for x
      using that by (auto simp: set_map_filter)
    show "prefix ((\<lambda>(p, e). n @ e) x) m" if "m \<in> set (iface_names ((\<lambda>(p, e). ?t p e) x))" for x m
      using that iface_names_prefix by (auto simp: split_def)
  qed
  moreover have "n \<notin> set (iface_names (?t p e))" if "p \<in> set ps" "name_ext p = Some e" for p e
    using iface_names_prefix [of n "n @ e" "children p"] exts_freeD(2) [OF "1.prems" that]
    by (auto simp: prefix_def)
  then have "n \<notin> set (iface_names (concat (map (\<lambda>p. opt_list (name_ext p) (?t p)) ps)))"
    by (fastforce simp: set_opt_list)
  ultimately show ?case by (simp add: iface_tree.simps [of n ps])
qed

section \<open>The loops of \<open>generateTSCode\<close>\<close>

definition request_ifaces :: "string \<Rightarrow> Param list js_obj \<Rightarrow> string list \<Rightarrow> iface list" where
  "request_ifaces apiName d ls =
     concat (map (\<lambda>l. iface_tree (requestInterfaceName apiName l) (obj_at d l)) (filter (\<lambda>l. obj_at d l \<noteq> []) ls))"

definition response_ifaces :: "string \<Rightarrow> (nat \<times> Param list) list \<Rightarrow> nat list \<Rightarrow> iface list" where
  "response_ifaces apiName d cs =
     concat (map (\<lambda>c. iface_tree (responseInterfaceName apiName c) (obj_at d c)) (filter (\<lambda>c. obj_at d c \<noteq> []) cs))"

lemma capitalize_request: "capitalizeFirstLetter (requestInterfaceName a l) = requestInterfaceName a l"
proof (cases "a = [] \<and> l = []")
  case True
  then show ?thesis by (simp add: requestInterfaceName_def upper_char_def is_lower_def)
next
  case False
  then show ?thesis by (cases a; cases l) (simp_all add: requestInterfaceName_def)
qed

lemma upper_char_digit: "is_digit c \<Longrightarrow> upper_char c = c"
  by (simp add: upper_char_def is_lower_def is_digit_def)

lemma capitalize_nat_str: "capitalizeFirstLetter (nat_str c @ t) = nat_str c @ t"
  using all_digits_nat_str [of c]
  by (cases "nat_str c") (auto simp: all_digits_def upper_char_digit simp del: all_digits_nat_str)

lemma capitalize_response: "capitalizeFirstLetter (responseInterfaceName a c) = responseInterfaceName a c"
  by (cases a) (simp_all add: responseInterfaceName_def capitalize_nat_str)

lemma request_loop_eq:
  "request_loop a d ls (ns, names) =
     (ns @ map render_iface (request_ifaces a d ls),
      fold (\<lambda>l. assign_name l (requestInterfaceName a l)) (filter (\<lambda>l. obj_at d l \<noteq> []) ls) names)"
  by (induction ls arbitrary: ns names)
    (simp_all add: Let_def request_ifaces_def generate_refines [OF capitalize_request])

lemma response_loop_eq:
  "response_loop a d cs (ns, names) =
     (ns @ map render_iface (response_ifaces a d cs),
      names @ map (responseInterfaceName a) (filter (\<lambda>c. obj_at d c \<noteq> []) cs))"
  by (induction cs arbitrary: ns names)
    (auto simp: Let_def obj_at_def response_ifaces_def generate_refines [OF capitalize_response] split: option.splits)

text \<open>The five interface names of an option, by location.\<close>

definition name_at :: "ReqNames \<Rightarrow> string \<Rightarrow> string" where
  "name_at n location =
     (if location = ''body'' then nm_body n else if location = ''query'' then nm_query n
      else if location = ''path'' then nm_path n else if location = ''header'' then nm_header n
      else if location = ''cookie'' then nm_cookie n else [])"

lemma name_at_assign:
  "l \<in> set ParamLocations \<Longrightarrow> name_at (assign_name l' x n) l = (if l = l' then x else name_at n l)"
  by (auto simp: ParamLocations_def name_at_def assign_name_def)

lemma name_at_fold:
  "l \<in> set ParamLocations \<Longrightarrow>
   name_at (fold (\<lambda>l. assign_name l (f l)) ls n) l = (if l \<in> set ls then f l else name_at n l)"
  by (induction ls arbitrary: n) (auto simp: name_at_assign)

definition declares :: "string list \<Rightarrow> string \<Rightarrow> bool" where
  "declares ns n \<longleftrightarrow> list_ex (prefix (''export interface '' @ n @ '' {'')) ns"

lemma declares_append [simp]: "declares (xs @ ys) n \<longleftrightarrow> declares xs n \<or> declares ys n"
  by (simp add: declares_def)

lemma declares_render: "n \<in> set (iface_names is) \<Longrightarrow> declares (map render_iface is) n"
  by (auto simp: declares_def list_ex_iff render_iface_def interface_text_def prefix_def)

lemma request_declared:
  "l \<in> set ls \<Longrightarrow> obj_at d l \<noteq> [] \<Longrightarrow>
   requestInterfaceName a l \<in> set (iface_names (request_ifaces a d ls))"
  using root_declared [of "requestInterfaceName a l" "obj_at d l"] by (fastforce simp: request_ifaces_def)

lemma response_declared:
  "c \<in> set cs \<Longrightarrow> obj_at d c \<noteq> [] \<Longrightarrow>
   responseInterfaceName a c \<in> set (iface_names (response_ifaces a d cs))"
  using root_declared [of "responseInterfaceName a c" "obj_at d c"] by (fastforce simp: response_ifaces_def)

text \<open>The interface names the service-class template will mention for an API.\<close>

definition option_interfaces :: "ApiOption \<Rightarrow> string list" where
  "option_interfaces opt =
     filter (\<lambda>n. n \<noteq> [])
       [reqBodyInterfaceName opt, reqQueryInterfaceName opt, reqPathInterfaceName opt,
        reqHeaderInterfaceName opt, reqCookieInterfaceName opt] @ respInterfaceNames opt"

abbreviation req_obj :: "ApiDetail \<Rightarrow> Param list js_obj" where
  "req_obj api \<equiv> (case request_params_by_location api of None \<Rightarrow> [] | Some d \<Rightarrow> d)"

abbreviation resp_obj :: "ApiDetail \<Rightarrow> (nat \<times> Param list) list" where
  "resp_obj api \<equiv> (case response_params_by_status_code api of None \<Rightarrow> [] | Some d \<Rightarrow> d)"

definition api_ifaces :: "ApiDetail \<Rightarrow> iface list" where
  "api_ifaces api =
     request_ifaces (ab_name api) (req_obj api) (obj_keys (req_obj api)) @
     response_ifaces (ab_name api) (resp_obj api) (obj_keys (resp_obj api))"

lemma generateTSCode_namespaces:
  "generateTSCode api = Inr (ns, opt) \<Longrightarrow> ns = map render_iface (api_ifaces api)"
  by (auto simp: generateTSCode_def request_loop_eq response_loop_eq api_ifaces_def Let_def split: sum.splits)

definition req_names :: "ApiDetail \<Rightarrow> ReqNames" where
  "req_names api = fold (\<lambda>l. assign_name l (requestInterfaceName (ab_name api) l))
      (filter (\<lambda>l. obj_at (req_obj api) l \<noteq> []) (obj_keys (req_obj api))) no_names"

definition resp_names :: "ApiDetail \<Rightarrow> string list" where
  "resp_names api = map (responseInterfaceName (ab_name api))
      (filter (\<lambda>c. obj_at (resp_obj api) c \<noteq> []) (obj_keys (resp_obj api)))"

lemma generateTSCode_option:
  assumes "generateTSCode api = Inr (ns, opt)"
  shows "reqBodyInterfaceName opt = nm_body (req_names api)"
    and "reqQueryInterfaceName opt = nm_query (req_names api)"
    and "reqPathInterfaceName opt = nm_path (req_names api)"
    and "reqHeaderInterfaceName opt = nm_header (req_names api)"
    and "reqCookieInterfaceName opt = nm_cookie (req_names api)"
    and "respInterfaceNames opt = resp_names api"
    and "functionName opt = capitalizeFirstLetter (ab_name api) @ method_str (ab_method api)"
    and "apiPath opt = ab_path api"
    and "apiMethod opt = ab_method api"
    and "location_fields (request_params_by_location api) ''body'' = Inr (reqBodyFields opt)"
    and "location_fields (request_params_by_location api) ''query'' = Inr (reqQueryFields opt)"
    and "location_fields (request_params_by_location api) ''path'' = Inr (reqPathFields opt)"
    and "location_fields (request_params_by_location api) ''header'' = Inr (reqHeaderFields opt)"
    and "location_fields (request_params_by_location api) ''cookie'' = Inr (reqCookieFields opt)"
  using assms unfolding generateTSCode_def
  by (simp_all add: request_loop_eq response_loop_eq req_names_def resp_names_def Let_def split: sum.splits) auto

lemma option_interfaces_cases:
  assumes "generateTSCode api = Inr (ns, opt)" and "n \<in> set (option_interfaces opt)"
  shows "(\<exists>l\<in>set ParamLocations. n = name_at (req_names api) l \<and> n \<noteq> []) \<or> n \<in> set (resp_names api)"
  using assms(2)
  by (auto simp: option_interfaces_def generateTSCode_option [OF assms(1)] ParamLocations_def name_at_def
      split: if_splits)

lemma generateTSCode_interface_at:
  assumes "generateTSCode api = Inr (ns, opt)" and "n \<in> set (option_interfaces opt)"
  shows "(\<exists>l\<in>set (obj_keys (req_obj api)). obj_at (req_obj api) l \<noteq> [] \<and> n = requestInterfaceName (ab_name api) l) \<or>
     (\<exists>c\<in>set (obj_keys (resp_obj api)). obj_at (resp_obj api) c \<noteq> [] \<and> n = responseInterfaceName (ab_name api) c)"
  using option_interfaces_cases [OF assms]
proof
  assume "\<exists>l\<in>set ParamLocations. n = name_at (req_names api) l \<and> n \<noteq> []"
  then obtain l where l: "l \<in> set ParamLocations" "n = name_at (req_names api) l" "n \<noteq> []" by blast
  have "name_at no_names l = []" by (simp add: name_at_def no_names_def)
  with l show ?thesis
    by (auto simp: req_names_def name_at_fold [OF l(1)] simp del: set_map split: if_splits)
next
  assume "n \<in> set (resp_names api)"
  then show ?thesis by (fastforce simp: resp_names_def)
qed

text \<open>All the interface names of one API.\<close>

lemma locations_prefix_free:
  "l \<in> set ParamLocations \<Longrightarrow> l' \<in> set ParamLocations \<Longrightarrow> l \<noteq> l' \<Longrightarrow>
   \<not> prefix (capitalizeFirstLetter l @ ''Request'') (capitalizeFirstLetter l' @ ''Request'')"
  unfolding ParamLocations_def by auto

lemma codes_prefix_free:
  assumes "prefix (nat_str c @ ''Response'') (nat_str c' @ ''Response'')" shows "c = c'"
proof -
  from assms obtain z where z: "nat_str c' @ ''Response'' = nat_str c @ ''Response'' @ z" by (auto simp: prefix_def)
  have dig: "takeWhile is_digit (nat_str c @ t) = nat_str c @ takeWhile is_digit t" for c t
    using all_digits_nat_str [of c] by (simp add: all_digits_def list_all_iff del: all_digits_nat_str)
  have "takeWhile is_digit (nat_str c' @ ''Response'') = takeWhile is_digit (nat_str c @ ''Response'' @ z)"
    by (simp only: z)
  then show ?thesis by (simp add: dig is_digit_def)
qed

lemma location_code_prefix_free:
  assumes "l \<in> set ParamLocations"
  shows "\<not> prefix (capitalizeFirstLetter l @ ''Request'') (nat_str c @ ''Response'')"
    and "\<not> prefix (nat_str c @ ''Response'') (capitalizeFirstLetter l @ ''Request'')"
proof -
  from assms have h: "\<not> is_digit (hd (capitalizeFirstLetter l @ ''Request''))"
    by (auto simp: ParamLocations_def is_digit_def)
  have c: "is_digit (hd (nat_str c @ ''Response''))"
    using all_digits_nat_str [of c] by (cases "nat_str c") (auto simp: all_digits_def simp del: all_digits_nat_str)
  have *: "hd x = hd y" if "prefix x y" "x \<noteq> []" for x y :: string
    using that by (cases x) (auto simp: prefix_def)
  show "\<not> prefix (capitalizeFirstLetter l @ ''Request'') (nat_str c @ ''Response'')"
    and "\<not> prefix (nat_str c @ ''Response'') (capitalizeFirstLetter l @ ''Request'')"
    using h c * [of "capitalizeFirstLetter l @ ''Request''" "nat_str c @ ''Response''"]
      * [of "nat_str c @ ''Response''" "capitalizeFirstLetter l @ ''Request''"] by auto
qed

lemma names_prefix_free:
  "l \<in> set ParamLocations \<Longrightarrow> l' \<in> set ParamLocations \<Longrightarrow> l \<noteq> l' \<Longrightarrow>
     \<not> prefix (requestInterfaceName a l) (requestInterfaceName a l')"
  "l \<in> set ParamLocations \<Longrightarrow> \<not> prefix (requestInterfaceName a l) (responseInterfaceName a c)"
  "l \<in> set ParamLocations \<Longrightarrow> \<not> prefix (responseInterfaceName a c) (requestInterfaceName a l)"
  "c \<noteq> c' \<Longrightarrow> \<not> prefix (responseInterfaceName a c) (responseInterfaceName a c')"
  unfolding requestInterfaceName_def responseInterfaceName_def same_prefix_prefix
  using locations_prefix_free codes_prefix_free location_code_prefix_free by blast+

lemma distinct_sum: "distinct xs \<Longrightarrow> distinct ys \<Longrightarrow> distinct (map Inl xs @ map Inr ys)"
  by (auto simp: distinct_map)

lemma Inl_in_sum: "Inl l \<in> set (map Inl xs @ map Inr ys) \<longleftrightarrow> l \<in> set xs"
  by auto

lemma api_ifaces_distinct:
  assumes "set (obj_keys (req_obj api)) \<subseteq> set ParamLocations" "distinct (obj_keys (req_obj api))"
    and "distinct (obj_keys (resp_obj api))"
    and "\<forall>l. exts_free (obj_at (req_obj api) l)" "\<forall>c. exts_free (obj_at (resp_obj api) c)"
  shows "distinct (iface_names (api_ifaces api))"
proof -
  let ?ls = "filter (\<lambda>l. obj_at (req_obj api) l \<noteq> []) (obj_keys (req_obj api))"
  let ?cs = "filter (\<lambda>c. obj_at (resp_obj api) c \<noteq> []) (obj_keys (resp_obj api))"
  let ?f = "case_sum (requestInterfaceName (ab_name api)) (responseInterfaceName (ab_name api))"
  let ?t = "case_sum (\<lambda>l. iface_tree (requestInterfaceName (ab_name api) l) (obj_at (req_obj api) l))
     (\<lambda>c. iface_tree (responseInterfaceName (ab_name api) c) (obj_at (resp_obj api) c))"
  have dist: "distinct (map Inl ?ls @ map Inr ?cs)"
    by (rule distinct_sum) (simp_all add: assms(2,3))
  have sub: "set ?ls \<subseteq> set ParamLocations" using assms(1) by (auto simp del: set_map)
  have "distinct (iface_names (concat (map ?t (map Inl ?ls @ map Inr ?cs))))"
  proof (rule distinct_forest)
    show "prefix_free (map ?f (map Inl ?ls @ map Inr ?cs))"
    proof (rule prefix_free_map [OF dist])
      fix x y assume xy: "x \<in> set (map Inl ?ls @ map Inr ?cs)" "y \<in> set (map Inl ?ls @ map Inr ?cs)" "x \<noteq> y"
      have loc: "l \<in> set ParamLocations" if "Inl l \<in> set (map Inl ?ls @ map Inr ?cs)" for l
        using that sub unfolding Inl_in_sum by blast
      show "\<not> prefix (?f x) (?f y)"
      proof (cases x)
        case (Inl l)
        with xy loc have l: "l \<in> set ParamLocations" by blast
        show ?thesis
        proof (cases y)
          case (Inl l')
          with xy loc have "l' \<in> set ParamLocations" by blast
          with l Inl \<open>x = Inl l\<close> xy(3) show ?thesis by (simp add: names_prefix_free)
        next
          case (Inr c)
          with l \<open>x = Inl l\<close> show ?thesis by (simp add: names_prefix_free)
        qed
      next
        case (Inr c)
        then show ?thesis
        proof (cases y)
          case (Inl l')
          with xy loc have "l' \<in> set ParamLocations" by blast
          with Inl \<open>x = Inr c\<close> show ?thesis by (simp add: names_prefix_free)
        next
          case (Inr c')
          with \<open>x = Inr c\<close> xy(3) show ?thesis by (simp add: names_prefix_free)
        qed
      qed
    qed
    show "distinct (iface_names (?t x))" for x
      using assms(4,5) iface_names_distinct by (cases x) simp_all
    show "prefix (?f x) m" if "m \<in> set (iface_names (?t x))" for x m
      using that iface_names_prefix by (cases x) simp_all
  qed
  then show ?thesis by (simp add: api_ifaces_def request_ifaces_def response_ifaces_def o_def)
qed

section \<open>Results\<close>

abbreviation mk_param :: "string \<Rightarrow> string \<Rightarrow> bool \<Rightarrow> string option \<Rightarrow> Param list option \<Rightarrow> Param" where
  "mk_param nm ty req act ch \<equiv> Param 1 1 nm None None ty req None None None act None ch"

lemma generateTSCode_succeeds_iff:
  "(\<exists>r. generateTSCode api = Inr r) \<longleftrightarrow>
   (case request_params_by_location api of None \<Rightarrow> True
    | Some d \<Rightarrow> \<forall>l\<in>set ParamLocations. map_of d l \<noteq> None)"
proof (cases "request_params_by_location api")
  case None
  then show ?thesis by (simp add: generateTSCode_def location_fields_def Let_def split: prod.splits)
next
  case (Some d)
  then show ?thesis
    by (simp add: generateTSCode_def location_fields_def ParamLocations_def Let_def
        split: prod.splits sum.splits option.splits)
qed

lemma tsTypeMap_base:
  "tsTypeMap t None \<in> set [''number'', ''string'', ''boolean'', ''any[]'', ''any'']"
  by (simp add: tsTypeMap.simps)

lemma tsTypeMap_child: "t \<notin> set [''array'', ''list''] \<Longrightarrow> tsTypeMap t c = tsTypeMap t None"
  by (simp add: tsTypeMap.simps)

lemma method_suffix:
  "a @ method_str m = b @ method_str m' \<Longrightarrow> m = m' \<and> a = b"
proof -
  assume "a @ method_str m = b @ method_str m'"
  then have "rev (a @ method_str m) = rev (b @ method_str m')" by simp
  then show ?thesis by (cases m; cases m') simp_all
qed

text \<open>
  C17: What \<open>generateInterface\<close> prints for a parameter tree: the text of the declarations of
  \<open>iface_tree\<close>, where each member has a built-in type or, when its parameter is an object or an array
  of objects with nested parameters, names an interface whose members are exactly the nested
  parameters; each interface a member names is declared earlier in the list; the last declaration is
  the one for the list itself, with one member per parameter in order.
\<close>

theorem generateInterface_closed:
  "let n = capitalizeFirstLetter name; is = iface_tree n ps
   in generateInterface name ps = map render_iface is \<and> decl_before_use [] is \<and> members_declared is \<and>
      is \<noteq> [] \<and> last is = iface_of n ps"
  using generate_refines [OF refl, of name ps] iface_tree_closed iface_tree_members
    iface_tree_last [OF refl, of "capitalizeFirstLetter name" ps]
  by (simp add: Let_def iface_of_def)

text \<open>
  C19: \<open>generateTSCode\<close> throws exactly when the request parameters are present but one of the five
  locations is missing from them (reading \<open>.map\<close> of \<open>undefined\<close>); otherwise it returns code.
\<close>

theorem generateTSCode_throws_iff:
  "(\<exists>e. generateTSCode api = Inl e) \<longleftrightarrow>
   (\<exists>d. request_params_by_location api = Some d \<and> \<not> list_all (\<lambda>l. map_of d l \<noteq> None) ParamLocations)"
  using generateTSCode_succeeds_iff [of api]
  by (cases "generateTSCode api") (auto simp: list_all_iff split: option.splits)

lemma api_imports_declared:
  assumes "generateTSCode api = Inr (ns, opt)" and "n \<in> set (option_interfaces opt)"
  shows "declares ns n"
proof -
  have "n \<in> set (iface_names (api_ifaces api))"
    using generateTSCode_interface_at [OF assms] request_declared response_declared
    by (fastforce simp: api_ifaces_def)
  then show ?thesis using generateTSCode_namespaces [OF assms(1)] declares_render by simp
qed

text \<open>
  Every interface name the generated service class will import for an API (the request
  interfaces by location and the response interfaces by status code) is declared by the interface
  text generated for that API.
\<close>

theorem generateTSCode_imports_declared:
  assumes "generateTSCode api = Inr (ns, opt)" and "n \<in> set (option_interfaces opt)"
  shows "declares ns n"
  by (rule api_imports_declared [OF assms])

definition demo_api :: ApiDetail where
  "demo_api = \<lparr>ab_id = 65, ab_name = ''getUserInfo'', ab_method = GET, ab_path = ''/api/getUserInfo'',
     ab_description = None, ab_level = Some P0, ab_is_enabled = Some True, ab_category_id = None,
     ad_parent = OfIteration 22, ad_owner_id = 2, ad_created_at = None, ad_updated_at = None,
     ad_owner = None, ad_category = None,
     request_params_by_location = Some
       [(''query'', [mk_param ''user_id'' ''int'' True None None]), (''path'', []), (''header'', []),
        (''cookie'', []), (''body'', [])],
     response_params_by_status_code = Some
       [(200, [mk_param ''status'' ''int'' True None None,
               mk_param ''user'' ''object'' True None
                 (Some [mk_param ''name'' ''string'' True None None,
                        mk_param ''friends'' ''object'' False None
                          (Some [mk_param ''name'' ''string'' True None None])])])]\<rparr>"

lemma demo_api_code: "\<exists>ns opt. generateTSCode demo_api = Inr (ns, opt)"
  using generateTSCode_succeeds_iff [of demo_api] by (auto simp: demo_api_def ParamLocations_def)

theorem generateTSCode_imports_declared_witness:
  "declares (fst (projr (generateTSCode demo_api))) ''GetUserInfoQueryRequest''"
proof -
  obtain ns opt where g: "generateTSCode demo_api = Inr (ns, opt)" using demo_api_code by blast
  have "reqQueryInterfaceName opt = ''GetUserInfoQueryRequest''"
    using generateTSCode_option(2) [OF g]
    by (simp add: req_names_def demo_api_def obj_at_def assign_name_def no_names_def requestInterfaceName_def)
  then have "''GetUserInfoQueryRequest'' \<in> set (option_interfaces opt)" by (simp add: option_interfaces_def)
  then have "declares ns ''GetUserInfoQueryRequest''" by (rule generateTSCode_imports_declared [OF g])
  with g show ?thesis by simp
qed

text \<open>
  C18: Within one API no two generated interfaces have the same name, provided that no sibling
  parameters have name extensions of which one is a prefix of the other (at every level of the
  trees), that the request locations are the declared ones and that no key occurs twice.
\<close>

theorem api_interfaces_distinct:
  assumes "generateTSCode api = Inr (ns, opt)"
    and "set (obj_keys (req_obj api)) \<subseteq> set ParamLocations" "distinct_keys (req_obj api)"
    and "distinct_keys (resp_obj api)"
    and "\<forall>l. exts_free (obj_at (req_obj api) l)" "\<forall>c. exts_free (obj_at (resp_obj api) c)"
  shows "\<exists>is. ns = map render_iface is \<and> distinct (iface_names is)"
  using generateTSCode_namespaces [OF assms(1)] api_ifaces_distinct [OF assms(2) _ _ assms(5,6)] assms(3,4)
  by (auto simp: distinct_keys_def)

lemma demo_api_exts_free:
  "\<forall>l. exts_free (obj_at (req_obj demo_api) l)" "\<forall>c. exts_free (obj_at (resp_obj demo_api) c)"
  by (auto simp: demo_api_def obj_at_def exts_free.simps name_ext_def has_children_def children_def)

theorem api_interfaces_distinct_witness:
  "\<exists>is. fst (projr (generateTSCode demo_api)) = map render_iface is \<and> distinct (iface_names is)"
proof -
  obtain ns opt where g: "generateTSCode demo_api = Inr (ns, opt)" using demo_api_code by blast
  have "set (obj_keys (req_obj demo_api)) \<subseteq> set ParamLocations" "distinct_keys (req_obj demo_api)"
    "distinct_keys (resp_obj demo_api)"
    by (auto simp: demo_api_def ParamLocations_def distinct_keys_def)
  then show ?thesis using api_interfaces_distinct [OF g _ _ _ demo_api_exts_free] g by simp
qed

text \<open>
  Without that proviso names do collide: an array of objects \<open>tag\<close> and an object \<open>tagItem\<close> beside
  it, two parameters with different names, make \<open>generateInterface\<close> declare \<open>ReqTagItem\<close> twice, with
  different members.
\<close>

theorem interface_name_collision:
  "let ps = [mk_param ''tag'' ''array'' True (Some ''object'') (Some [mk_param ''a'' ''int'' True None None]),
             mk_param ''tagItem'' ''object'' True None (Some [mk_param ''b'' ''int'' True None None])]
   in distinct (map p_name ps) \<and>
      generateInterface ''req'' ps =
        [''export interface ReqTagItem {'' @ NL @ ''  a: number;'' @ NL @ ''}'',
         ''export interface ReqTagItem {'' @ NL @ ''  b: number;'' @ NL @ ''}'',
         ''export interface Req {'' @ NL @ ''  tag: ReqTagItem[];'' @ NL @ ''  tagItem: ReqTagItem;'' @ NL @ ''}'']"
  by (simp add: generateInterface.simps gen_params.simps has_children_def interface_text_def field_text_def
      tsTypeMap.simps Let_def)

text \<open>
  The names of the generated interfaces do not depend on the HTTP method: two APIs of a service
  that differ only in the method (the service model keeps \<open>method + name\<close> unique, not the name)
  produce the very same interface declarations, while their class methods get different names.
\<close>

theorem method_not_in_interface_names:
  "map_sum id fst (generateTSCode (api\<lparr>ab_method := m\<rparr>)) = map_sum id fst (generateTSCode api)"
  by (simp add: generateTSCode_def Let_def split: prod.splits sum.splits)

text \<open>
  The method names of the service class separate APIs: equal function names mean the same HTTP
  method and the same API name up to the case of the first letter.
\<close>

theorem functionName_determines:
  assumes "generateTSCode api = Inr (ns, opt)" and "generateTSCode api' = Inr (ns', opt')"
    and "functionName opt = functionName opt'"
  shows "ab_method api = ab_method api' \<and>
     capitalizeFirstLetter (ab_name api) = capitalizeFirstLetter (ab_name api')"
  using assms(3) method_suffix
  by (simp add: generateTSCode_option(7) [OF assms(1)] generateTSCode_option(7) [OF assms(2)])

theorem functionName_determines_witness:
  "ab_method demo_api = ab_method (demo_api\<lparr>ab_name := ''GetUserInfo''\<rparr>) \<and>
   capitalizeFirstLetter (ab_name demo_api) = capitalizeFirstLetter (ab_name (demo_api\<lparr>ab_name := ''GetUserInfo''\<rparr>))"
proof -
  let ?api = "demo_api\<lparr>ab_name := ''GetUserInfo''\<rparr>"
  obtain ns opt where g: "generateTSCode demo_api = Inr (ns, opt)" using demo_api_code by blast
  obtain ns' opt' where g': "generateTSCode ?api = Inr (ns', opt')"
    using generateTSCode_succeeds_iff [of ?api] by (auto simp: demo_api_def ParamLocations_def)
  have "functionName opt = functionName opt'"
    using generateTSCode_option(7) [OF g] generateTSCode_option(7) [OF g']
    by (simp add: demo_api_def)
  then show ?thesis by (rule functionName_determines [OF g g'])
qed

text \<open>
  \<open>tsTypeMap\<close> is total and its result is one of the five base types, or a base type followed by
  one \<open>[]\<close> when an array carries a child type: the child's own nesting is not expanded further.
\<close>

theorem tsTypeMap_shape:
  "tsTypeMap t c =
     (if t \<in> set [''array'', ''list''] \<and> truthy_str c then tsTypeMap (or_str c []) None @ ''[]''
      else tsTypeMap t None) \<and>
   tsTypeMap t None \<in> set [''number'', ''string'', ''boolean'', ''any[]'', ''any'']"
proof (cases "t \<in> set [''array'', ''list'']")
  case True
  then show ?thesis by (cases c) (auto simp: tsTypeMap.simps [of t])
next
  case False
  then show ?thesis using tsTypeMap_base [of t] tsTypeMap_child [of t c] by simp
qed

end
