(* ===== verification/Service_Class.thy ===== *)
theory Service_Class
  imports Generator
begin

text \<open>
  The text templates of \<open>cam-fe-code-generator/src/templates\<close>: the service class printed for a list of
  API options, the request demo and the initial configuration file.  \<open>allImportInterfaces\<close> is a
  JavaScript \<open>Set\<close>, which enumerates its members in insertion order.
\<close>

section \<open>Model\<close>

definition set_add :: "'a \<Rightarrow> 'a list \<Rightarrow> 'a list" where
  "set_add x s = (if x \<in> set s then s else s @ [x])"

text \<open>\<open>[...].filter(Boolean)\<close> on the five request interface names.\<close>

definition reqInterfaceNameWithValue :: "ApiOption \<Rightarrow> string list" where
  "reqInterfaceNameWithValue opt =
     filter (\<lambda>n. n \<noteq> [])
       [reqBodyInterfaceName opt, reqQueryInterfaceName opt, reqPathInterfaceName opt,
        reqHeaderInterfaceName opt, reqCookieInterfaceName opt]"

definition add_imports :: "string list \<Rightarrow> ApiOption \<Rightarrow> string list" where
  "add_imports s opt = fold set_add (respInterfaceNames opt) (fold set_add (reqInterfaceNameWithValue opt) s)"

definition allImportInterfaces :: "ApiOption list \<Rightarrow> string list" where
  "allImportInterfaces apiOptions = foldl add_imports [] apiOptions"

text \<open>A member of the object literal that a method builds, for one field.\<close>

definition field_member :: "string \<Rightarrow> string" where
  "field_member field = SQ @ field @ SQ @ '': _req['' @ DQ @ field @ DQ @ '']''"

definition paramsCode :: "string list \<Rightarrow> string" where
  "paramsCode flds = join '', '' (map field_member flds)"

definition object_or_undefined :: "string \<Rightarrow> string" where
  "object_or_undefined code = (if code \<noteq> [] then ''{ '' @ code @ '' }'' else ''undefined'')"

definition path_replace_code :: "string \<Rightarrow> string" where
  "path_replace_code field =
     NL @ ''    if (_req['' @ DQ @ field @ DQ @ ''] !== undefined && _req['' @ DQ @ field @ DQ @ '' ] !== null) {'' @
     NL @ ''      url = url.replace('' @ SQ @ ''{'' @ field @ ''}'' @ SQ @ '', String(_req['' @ DQ @ field @ DQ @ '']));'' @
     NL @ ''    }''"

definition urlCode :: "ApiOption \<Rightarrow> string" where
  "urlCode opt =
     ''let url = this.genBaseURL('' @ SQ @ apiPath opt @ SQ @ '');'' @
     concat (map path_replace_code (reqPathFields opt))"

definition reqParamDef :: "ApiOption \<Rightarrow> string" where
  "reqParamDef opt =
     (let reqInterfaceName = join '' & '' (reqInterfaceNameWithValue opt)
      in if reqInterfaceName \<noteq> [] then ''req: '' @ reqInterfaceName else ''req?: any'')"

definition respType :: "ApiOption \<Rightarrow> string" where
  "respType opt =
     (let t = join '' & '' (respInterfaceNames opt) in if t \<noteq> [] then t else ''any'')"

definition apiFunctionCode :: "ApiOption \<Rightarrow> string" where
  "apiFunctionCode opt = join NL
     [[],
      ''  /** '' @ apiDescription opt @ '' */'',
      ''  '' @ functionName opt @ ''('' @ reqParamDef opt @ '', options?: T): Promise<'' @ respType opt @ ''> {'',
      ''    const _req = req || {};'',
      ''    '' @ urlCode opt,
      ''    const method = '' @ SQ @ method_str (apiMethod opt) @ SQ @ '';'',
      ''    const data = '' @ object_or_undefined (paramsCode (reqBodyFields opt)) @ '';'',
      ''    const params = '' @ object_or_undefined (paramsCode (reqQueryFields opt)) @ '';'',
      ''    const headers = '' @ object_or_undefined (paramsCode (reqHeaderFields opt)) @ '';'',
      ''    return this.request({ url, method, data, params, headers }, options);'',
      ''  }'',
      ''        '']"

definition importCode :: "string list \<Rightarrow> string" where
  "importCode names =
     (if length names > 0
      then ''import type { '' @ join '', '' names @ '' } from '' @ DQ @ ''./namespaces'' @ DQ @ '';'' @ NL
      else [])"

definition serviceClassCode :: "string \<Rightarrow> ApiOption list \<Rightarrow> string" where
  "serviceClassCode serviceName apiOptions =
     (let className = capitalizeFirstLetter serviceName @ ''Service'';
          methodsCode = concat (map apiFunctionCode apiOptions)
      in join NL
       [[],
        importCode (allImportInterfaces apiOptions),
        ''export default class '' @ className @ ''<T> {'',
        ''  private request: any = () => {'',
        ''    throw new Error('' @ SQ @ className @ ''.request is undefined'' @ SQ @ '');'',
        ''  };'',
        ''  private baseURL: string | ((path: string) => string) = '' @ SQ @ SQ @ '';'',
        [],
        ''  constructor(options?: {'',
        ''    baseURL?: string | ((path: string) => string);'',
        ''    request?<R>('',
        ''      params: {'',
        ''        url: string;'',
        ''        method: '' @ SQ @ ''GET'' @ SQ @ '' |  '' @ SQ @ ''POST'' @ SQ @ '' | '' @ SQ @ ''PUT'' @ SQ
          @ '' |'' @ SQ @ ''DELETE'' @ SQ @ '' | '' @ SQ @ ''PATCH'' @ SQ @ '';'',
        ''        data?: any;'',
        ''        params?: any;'',
        ''        headers?: any;'',
        ''      },'',
        ''      options?: T,'',
        ''    ): Promise<R>;'',
        ''  }) {'',
        ''    this.request = options?.request || this.request;'',
        ''    this.baseURL = options?.baseURL || this.baseURL;'',
        ''  }'',
        [],
        ''  private genBaseURL(path: string) {'',
        ''    if (typeof this.baseURL === '' @ SQ @ ''string'' @ SQ @ '') {'',
        ''        const baseUrl = this.baseURL.trim().replace(/'' @ BSL @ ''/+$/, '' @ DQ @ DQ @ '');'',
        ''        const apiPath = path.trim().replace(/^'' @ BSL @ ''/+/, '' @ DQ @ DQ @ '');'',
        ''        return baseUrl + '' @ SQ @ ''/'' @ SQ @ '' + apiPath;'',
        ''    }'',
        ''    return this.baseURL(path);'',
        ''  }'',
        [],
        ''  /* API Services */'',
        methodsCode,
        ''};'',
        ''    ''])"

definition requestDemoCode :: "string \<Rightarrow> string" where
  "requestDemoCode demoServiceName =
     (let demoClassName = capitalizeFirstLetter (demoServiceName @ ''Service'')
      in join NL
       [[],
        ''// This is a demo request code for how to use auto generated service class.'',
        ''// You can also use your own request instance like axios or fetch.'',
        [],
        ''import axios, { type AxiosRequestConfig } from '' @ DQ @ ''axios'' @ DQ @ ''; // Install axios if you haven'' @ SQ @ ''t'',
        ''import '' @ demoClassName @ '' from '' @ DQ @ ''./'' @ demoServiceName @ ''/index'' @ DQ @ '';'',
        [],
        ''const BASE_URL = '' @ DQ @ ''http://localhost:3000'' @ DQ @ ''; // Change to the actual base URL'',
        [],
        ''export const demoServiceForAxios = new '' @ demoClassName @ ''<AxiosRequestConfig>({'',
        ''    baseURL: BASE_URL,'',
        ''    request: (config, _options) =>'',
        ''        axios.request({ ...config }),'',
        ''});'',
        [],
        ''export const demoServiceForFetch = new '' @ demoClassName @ ''<RequestInit>({'',
        ''    baseURL: BASE_URL,'',
        ''        request: (config, _options) =>'',
        ''            fetch(config.url, { ...config }).then((res) => res.json()),'',
        ''});'',
        []])"

definition CONFIG_FILE_NAME :: string where
  "CONFIG_FILE_NAME = ''cam.config.json''"

section \<open>The import list\<close>

lemma set_fold_set_add [simp]: "set (fold set_add xs s) = set xs \<union> set s"
  by (induction xs arbitrary: s) (auto simp: set_add_def)

lemma distinct_fold_set_add [simp]: "distinct s \<Longrightarrow> distinct (fold set_add xs s)"
  by (induction xs arbitrary: s) (auto simp: set_add_def)

lemma set_add_imports: "set (add_imports s opt) = set (option_interfaces opt) \<union> set s"
  by (auto simp: add_imports_def reqInterfaceNameWithValue_def option_interfaces_def)

lemma foldl_add_imports:
  "set (foldl add_imports s opts) = set s \<union> \<Union> ((set \<circ> option_interfaces) ` set opts)"
  by (induction opts arbitrary: s) (auto simp: set_add_imports)

lemma distinct_foldl_add_imports: "distinct s \<Longrightarrow> distinct (foldl add_imports s opts)"
  by (induction opts arbitrary: s) (auto simp: add_imports_def)

lemma set_allImportInterfaces:
  "set (allImportInterfaces opts) = \<Union> ((set \<circ> option_interfaces) ` set opts)"
  by (simp add: allImportInterfaces_def foldl_add_imports)

text \<open>
  The import statement of a service class names each interface once, and exactly the non-empty
  request interface names and the response interface names of the class's methods.
\<close>

theorem allImportInterfaces_exact:
  "distinct (allImportInterfaces opts) \<and>
   (n \<in> set (allImportInterfaces opts) \<longleftrightarrow>
     (\<exists>opt\<in>set opts. n \<in> set (reqInterfaceNameWithValue opt) \<or> n \<in> set (respInterfaceNames opt)))"
  using distinct_foldl_add_imports [of "[]" opts]
  by (auto simp: set_allImportInterfaces allImportInterfaces_def [symmetric] option_interfaces_def
      reqInterfaceNameWithValue_def)

text \<open>
  The class declared by \<open>serviceClassCode\<close> is the one the request demo imports, from the
  directory of the same service, for every service name that is not empty.
\<close>

theorem demo_imports_the_class:
  assumes "serviceName \<noteq> []"
  shows "js_includes (serviceClassCode serviceName opts)
      (''export default class '' @ capitalizeFirstLetter serviceName @ ''Service<T> {'') \<and>
    js_includes (requestDemoCode serviceName)
      (''import '' @ capitalizeFirstLetter serviceName @ ''Service from '' @ DQ @ ''./'' @ serviceName @ ''/index'' @ DQ)"
    (is "js_includes _ ?decl \<and> js_includes _ ?imp")
proof
  show "js_includes (serviceClassCode serviceName opts) ?decl"
    unfolding serviceClassCode_def Let_def
    by (rule js_includes_join [of ?decl]) (simp, rule js_includes_refl [of _ "[]", simplified])
  show "js_includes (requestDemoCode serviceName) ?imp"
    unfolding requestDemoCode_def Let_def
    by (rule js_includes_join [of "?imp @ '';''"])
      (simp add: capitalize_append assms, rule js_includes_refl)
qed

theorem demo_imports_the_class_witness:
  "js_includes (requestDemoCode ''user'')
     (''import UserService from '' @ DQ @ ''./user/index'' @ DQ)"
  using demo_imports_the_class [of "''user''" "[]"] by simp

end
