(* ===== verification/Node_World.thy ===== *)
theory Node_World
  imports Api_Types
begin

text \<open>
  The part of the Node.js runtime the command-line tool runs on: a file system, the console, process
  exit and exceptions.  A command is a function on the world that returns a value, throws, or ends the
  process; \<open>process.exit\<close> is not caught by \<open>try\<close>.

  A file that holds a JSON document is represented by the document (\<open>JSON.parse\<close> after
  \<open>JSON.stringify\<close> gives it back); any other file is text.  The remote server is a parameter: its state
  is an opaque part of the world and its answers are functions of that state and of the request.
\<close>

section \<open>Documents on disk\<close>

text \<open>\<open>CamrcConfig\<close> of \<open>utils/data-manager.ts\<close>; \<open>EmptyUser\<close> is the object \<open>{}\<close> stored on logout.\<close>

datatype stored_user = EmptyUser | StoredUser UserProfile

record CamrcConfig =
  rc_token :: "string option"
  rc_user :: "stored_user option"

text \<open>
  \<open>CamConfig\<close> of \<open>services/code-generate/config.ts\<close>, with the members the code tests for absence as
  options; \<open>generateConfig\<close> is never read.
\<close>

record CamConfig =
  cfg_services :: "string js_obj option"
  cfg_outDir :: "string option"
  cfg_generateConfig :: "string js_obj option"

datatype content = TextContent string | CamrcJson CamrcConfig | ConfigJson CamConfig

section \<open>Paths and the file system\<close>

type_synonym path = "string list"

datatype node = Dir | File content

type_synonym file_system = "path \<Rightarrow> node option"

text \<open>Resolution of a path string against a directory: \<open>.\<close>, \<open>..\<close> and empty components are resolved.\<close>

definition enter :: "path \<Rightarrow> string \<Rightarrow> path" where
  "enter base c = (if c = [] \<or> c = ''.'' then base else if c = ''..'' then butlast base else base @ [c])"

definition walk :: "path \<Rightarrow> string \<Rightarrow> path" where
  "walk base s = foldl enter base (split_on CHR ''/'' s)"

definition resolve :: "path \<Rightarrow> string \<Rightarrow> path" where
  "resolve cwd s = walk (if prefix ''/'' s then [] else cwd) s"

datatype fs_code = ENOENT | EISDIR | ENOTDIR | EEXIST

definition fs_read :: "path \<Rightarrow> file_system \<Rightarrow> fs_code + content" where
  "fs_read p fs = (case fs p of None \<Rightarrow> Inl ENOENT | Some Dir \<Rightarrow> Inl EISDIR | Some (File c) \<Rightarrow> Inr c)"

definition fs_write :: "path \<Rightarrow> content \<Rightarrow> file_system \<Rightarrow> fs_code + file_system" where
  "fs_write p c fs =
     (if p = [] \<or> fs p = Some Dir then Inl EISDIR
      else case fs (butlast p) of
             None \<Rightarrow> Inl ENOENT
           | Some (File _) \<Rightarrow> Inl ENOTDIR
           | Some Dir \<Rightarrow> Inr (fs(p \<mapsto> File c)))"

definition fs_rm :: "path \<Rightarrow> file_system \<Rightarrow> file_system" where
  "fs_rm p fs = (\<lambda>q. if prefix p q then None else fs q)"

definition is_file :: "node option \<Rightarrow> bool" where
  "is_file n \<longleftrightarrow> (case n of Some (File _) \<Rightarrow> True | _ \<Rightarrow> False)"

text \<open>\<open>mkdirSync(p, { recursive: true })\<close>: creates the missing directories on the way.\<close>

definition fs_mkdir :: "path \<Rightarrow> file_system \<Rightarrow> fs_code + file_system" where
  "fs_mkdir p fs =
     (if is_file (fs p) then Inl EEXIST
      else if list_ex (\<lambda>q. is_file (fs q)) (prefixes p) then Inl ENOTDIR
      else Inr (\<lambda>q. if prefix q p then Some Dir else fs q))"

definition fs_unlink :: "path \<Rightarrow> file_system \<Rightarrow> fs_code + file_system" where
  "fs_unlink p fs = (case fs p of None \<Rightarrow> Inl ENOENT | Some Dir \<Rightarrow> Inl EISDIR | Some (File c) \<Rightarrow> Inr (fs(p := None)))"

section \<open>Outcomes and commands\<close>

text \<open>What the code can throw: a file-system error, a \<open>TypeError\<close>, or a rejected message string.\<close>

datatype js_error = FsError fs_code path | TypeError string | Rejected string

datatype 'a outcome = Ret 'a | Throw js_error | Exit nat

datatype console_line =
  Log string | Warn string | Err string
| ErrWith string js_error

record 's world =
  w_fs :: file_system
  w_cwd :: path
  w_home :: path
  w_console :: "console_line list"
  w_server :: 's

type_synonym ('s, 'a) cmd = "'s world \<Rightarrow> 'a outcome \<times> 's world"

definition ret :: "'a \<Rightarrow> ('s, 'a) cmd" where
  "ret x w = (Ret x, w)"

definition throw :: "js_error \<Rightarrow> ('s, 'a) cmd" where
  "throw e w = (Throw e, w)"

definition exit_with :: "nat \<Rightarrow> ('s, 'a) cmd" where
  "exit_with n w = (Exit n, w)"

definition bind :: "('s, 'a) cmd \<Rightarrow> ('a \<Rightarrow> ('s, 'b) cmd) \<Rightarrow> ('s, 'b) cmd" where
  "bind m f w = (case m w of (Ret x, w') \<Rightarrow> f x w' | (Throw e, w') \<Rightarrow> (Throw e, w') | (Exit n, w') \<Rightarrow> (Exit n, w'))"

definition try_catch :: "('s, 'a) cmd \<Rightarrow> (js_error \<Rightarrow> ('s, 'a) cmd) \<Rightarrow> ('s, 'a) cmd" where
  "try_catch m h w = (case m w of (Throw e, w') \<Rightarrow> h e w' | r \<Rightarrow> r)"

fun for_each :: "('a \<Rightarrow> ('s, unit) cmd) \<Rightarrow> 'a list \<Rightarrow> ('s, unit) cmd" where
  "for_each f [] = ret ()"
| "for_each f (x # xs) = bind (f x) (\<lambda>_. for_each f xs)"

definition console :: "console_line \<Rightarrow> ('s, unit) cmd" where
  "console l w = (Ret (), w\<lparr>w_console := w_console w @ [l]\<rparr>)"

definition existsSync :: "path \<Rightarrow> ('s, bool) cmd" where
  "existsSync p w = (Ret (w_fs w p \<noteq> None), w)"

definition readFileSync :: "path \<Rightarrow> ('s, content) cmd" where
  "readFileSync p w = (case fs_read p (w_fs w) of Inl e \<Rightarrow> (Throw (FsError e p), w) | Inr c \<Rightarrow> (Ret c, w))"

definition writeFileSync :: "path \<Rightarrow> content \<Rightarrow> ('s, unit) cmd" where
  "writeFileSync p c w =
     (case fs_write p c (w_fs w) of Inl e \<Rightarrow> (Throw (FsError e p), w) | Inr fs \<Rightarrow> (Ret (), w\<lparr>w_fs := fs\<rparr>))"

text \<open>
  With \<open>recursive\<close> and \<open>force\<close>.  Permissions and busy directories are not modelled, so removing a tree
  always succeeds.
\<close>

definition rmSync :: "path \<Rightarrow> ('s, unit) cmd" where
  "rmSync p w = (Ret (), w\<lparr>w_fs := fs_rm p (w_fs w)\<rparr>)"

definition mkdirSync :: "path \<Rightarrow> ('s, unit) cmd" where
  "mkdirSync p w =
     (case fs_mkdir p (w_fs w) of Inl e \<Rightarrow> (Throw (FsError e p), w) | Inr fs \<Rightarrow> (Ret (), w\<lparr>w_fs := fs\<rparr>))"

definition unlinkSync :: "path \<Rightarrow> ('s, unit) cmd" where
  "unlinkSync p w =
     (case fs_unlink p (w_fs w) of Inl e \<Rightarrow> (Throw (FsError e p), w) | Inr fs \<Rightarrow> (Ret (), w\<lparr>w_fs := fs\<rparr>))"

definition get_cwd :: "('s, path) cmd" where "get_cwd w = (Ret (w_cwd w), w)"
definition get_home :: "('s, path) cmd" where "get_home w = (Ret (w_home w), w)"

lemmas cmd_simps = ret_def throw_def exit_with_def console_def existsSync_def readFileSync_def
  writeFileSync_def rmSync_def mkdirSync_def unlinkSync_def get_cwd_def get_home_def

lemma bind_ret [simp]: "bind (ret x) f = f x"
  by (rule ext) (simp add: bind_def ret_def)

lemma bind_throw [simp]: "bind (throw e) f = throw e"
  by (rule ext) (simp add: bind_def throw_def)

lemma bind_exit [simp]: "bind (exit_with n) f = exit_with n"
  by (rule ext) (simp add: bind_def exit_with_def)

lemma bind_assoc: "bind (bind m f) g = bind m (\<lambda>x. bind (f x) g)"
  by (rule ext) (auto simp: bind_def split: prod.splits outcome.splits)

lemma bind_Ret: "m w = (Ret x, w') \<Longrightarrow> bind m f w = f x w'"
  by (simp add: bind_def)

lemma bind_RetE:
  assumes "bind m f w = (Ret x, w')"
  obtains y w1 where "m w = (Ret y, w1)" "f y w1 = (Ret x, w')"
  using assms by (auto simp: bind_def split: prod.splits outcome.splits)

lemma bind_console: "bind (console l) f w = f () (w\<lparr>w_console := w_console w @ [l]\<rparr>)"
  by (simp add: bind_def console_def)

section \<open>Transition relations of commands\<close>

text \<open>
  A preorder on worlds that every basic effect respects is respected by every composed command, on
  every outcome: returns, exceptions and exits alike.
\<close>

definition keeps :: "('s world \<Rightarrow> 's world \<Rightarrow> bool) \<Rightarrow> ('s, 'a) cmd \<Rightarrow> bool" where
  "keeps R m \<longleftrightarrow> (\<forall>w. R w (snd (m w)))"

locale world_preorder =
  fixes R :: "'s world \<Rightarrow> 's world \<Rightarrow> bool"
  assumes R_refl: "R w w"
    and R_trans: "R u v \<Longrightarrow> R v w \<Longrightarrow> R u w"
    and R_console: "R w (w\<lparr>w_console := ls\<rparr>)"
begin

lemma keeps_ret: "keeps R (ret x)"
  by (simp add: keeps_def ret_def R_refl)

lemma keeps_throw: "keeps R (throw e)"
  by (simp add: keeps_def throw_def R_refl)

lemma keeps_exit: "keeps R (exit_with n)"
  by (simp add: keeps_def exit_with_def R_refl)

lemma keeps_console: "keeps R (console l)"
  by (simp add: keeps_def console_def R_console)

lemma keeps_reads: "keeps R (existsSync p)" "keeps R (readFileSync p)" "keeps R get_cwd" "keeps R get_home"
  by (auto simp: keeps_def cmd_simps R_refl split: sum.splits)

lemma keeps_bind: "keeps R m \<Longrightarrow> (\<And>x. keeps R (f x)) \<Longrightarrow> keeps R (bind m f)"
  unfolding keeps_def bind_def by (auto split: prod.splits outcome.splits) (metis R_trans snd_conv)+

lemma keeps_try: "keeps R m \<Longrightarrow> (\<And>e. keeps R (h e)) \<Longrightarrow> keeps R (try_catch m h)"
  unfolding keeps_def try_catch_def by (auto split: prod.splits outcome.splits) (metis R_trans snd_conv)+

lemma keeps_for_each: "(\<And>x. x \<in> set xs \<Longrightarrow> keeps R (f x)) \<Longrightarrow> keeps R (for_each f xs)"
  by (induction xs) (auto intro: keeps_ret keeps_bind)

lemma keeps_if: "keeps R m \<Longrightarrow> keeps R m' \<Longrightarrow> keeps R (if b then m else m')"
  by simp

lemmas keeps_rules = keeps_ret keeps_throw keeps_exit keeps_console keeps_reads keeps_bind keeps_try
  keeps_for_each keeps_if

end

lemma keeps_at: "keeps R m \<Longrightarrow> R w (snd (m w))"
  by (simp add: keeps_def)

lemma keepsD: "keeps R m \<Longrightarrow> m w = (r, w') \<Longrightarrow> R w w'"
  unfolding keeps_def by (metis snd_conv)

section \<open>What a command may change in the file system\<close>

text \<open>Only the paths in \<open>S\<close> may change; the working and the home directory never do.\<close>

definition touches :: "path set \<Rightarrow> 's world \<Rightarrow> 's world \<Rightarrow> bool" where
  "touches S w w' \<longleftrightarrow> (\<forall>p. p \<notin> S \<longrightarrow> w_fs w' p = w_fs w p) \<and> w_cwd w' = w_cwd w \<and> w_home w' = w_home w"

interpretation touches: world_preorder "touches S"
  by unfold_locales (auto simp: touches_def)

lemma touches_mono: "S \<subseteq> T \<Longrightarrow> touches S w w' \<Longrightarrow> touches T w w'"
  by (auto simp: touches_def)

lemma keeps_touches_mono: "keeps (touches S) m \<Longrightarrow> S \<subseteq> T \<Longrightarrow> keeps (touches T) m"
  unfolding keeps_def using touches_mono by blast

lemma touches_write: "p \<in> S \<Longrightarrow> keeps (touches S) (writeFileSync p c)"
  by (auto simp: keeps_def touches_def writeFileSync_def fs_write_def split: sum.splits option.splits node.splits)

lemma touches_unlink: "p \<in> S \<Longrightarrow> keeps (touches S) (unlinkSync p)"
  by (auto simp: keeps_def touches_def unlinkSync_def fs_unlink_def split: sum.splits option.splits node.splits)

lemma touches_rm: "{q. prefix p q} \<subseteq> S \<Longrightarrow> keeps (touches S) (rmSync p)"
  by (auto simp: keeps_def touches_def rmSync_def fs_rm_def)

lemma touches_mkdir: "{q. prefix q p} \<subseteq> S \<Longrightarrow> keeps (touches S) (mkdirSync p)"
  by (auto simp: keeps_def touches_def mkdirSync_def fs_mkdir_def split: sum.splits)

section \<open>File trees\<close>

definition fs_ok :: "file_system \<Rightarrow> bool" where
  "fs_ok fs \<longleftrightarrow> (\<forall>p n. fs (p @ [n]) \<noteq> None \<longrightarrow> fs p = Some Dir) \<and> fs [] = Some Dir"

lemma fs_ok_prefix: "fs_ok fs \<Longrightarrow> strict_prefix q p \<Longrightarrow> fs p \<noteq> None \<Longrightarrow> fs q = Some Dir"
proof (induction p rule: rev_induct)
  case (snoc n p)
  then have "fs p = Some Dir" by (auto simp: fs_ok_def)
  with snoc show ?case by (cases "q = p") (auto simp: strict_prefix_def)
qed simp

lemma fs_ok_write:
  assumes "fs_ok fs" "fs_write p c fs = Inr fs'" shows "fs_ok fs'"
proof -
  obtain q n where p: "p = q @ [n]" using assms(2) by (cases p rule: rev_cases) (auto simp: fs_write_def)
  with assms have "fs q = Some Dir" "fs p \<noteq> Some Dir" "fs' = fs(p \<mapsto> File c)"
    by (auto simp: fs_write_def split: option.splits node.splits if_splits)
  moreover have "fs (p @ [m]) = None" for m
    using assms(1) \<open>fs p \<noteq> Some Dir\<close> unfolding fs_ok_def by blast
  ultimately show ?thesis using assms(1) p unfolding fs_ok_def by auto
qed

lemma fs_ok_mkdir:
  assumes "fs_ok fs" "fs_mkdir p fs = Inr fs'" shows "fs_ok fs'"
proof -
  have f: "\<not> is_file (fs q)" if "prefix q p" for q
    using that assms(2) by (auto simp: fs_mkdir_def list_ex_iff split: if_splits)
  have e: "fs' = (\<lambda>q. if prefix q p then Some Dir else fs q)"
    using assms(2) by (auto simp: fs_mkdir_def split: if_splits)
  show ?thesis using assms(1) unfolding fs_ok_def e by (auto dest: append_prefixD)
qed

lemma fs_ok_rm: "fs_ok fs \<Longrightarrow> p \<noteq> [] \<Longrightarrow> fs_ok (fs_rm p fs)"
  unfolding fs_ok_def fs_rm_def by (auto simp: prefix_append)

end
