(* ===== verification/Http.thy ===== *)
theory Http
  imports Api_Types
begin

text \<open>
  HTTP requests as both TypeScript packages issue them, and the contract of the place where the
  access token is kept.  The server is not part of the sources: an endpoint is a function from the
  server's state and the request to a reply and a new state, of the type the caller casts it to.
\<close>

section \<open>Requests and replies\<close>

text \<open>Values in query parameters and bodies; \<open>JText v\<close> is the string \<open>JSON.stringify(v)\<close>.\<close>

datatype jval =
  JStr string | JInt int | JBool bool | JNull | JUndefined
| JArr "jval list" | JObj "(string \<times> jval) list" | JText jval

record http_request =
  hr_method :: HttpMethod
  hr_url :: string
  hr_params :: "(string \<times> jval) list"
  hr_data :: "jval option"
  hr_auth :: "string option"

definition get_request :: "string \<Rightarrow> (string \<times> jval) list \<Rightarrow> http_request" where
  "get_request url params =
     \<lparr>hr_method = GET, hr_url = url, hr_params = params, hr_data = None, hr_auth = None\<rparr>"

definition post_request :: "string \<Rightarrow> jval \<Rightarrow> http_request" where
  "post_request url body =
     \<lparr>hr_method = POST, hr_url = url, hr_params = [], hr_data = Some body, hr_auth = None\<rparr>"

text \<open>A failure carries the HTTP status when there was a response, the message, and \<open>ERR_NETWORK\<close>.\<close>

datatype 'a reply = Success 'a | Failure "nat option" string bool

type_synonym ('s, 'a) endpoint = "'s \<Rightarrow> http_request \<Rightarrow> 'a reply \<times> 's"

definition jopt_str :: "string option \<Rightarrow> jval" where
  "jopt_str x = (case x of None \<Rightarrow> JNull | Some s \<Rightarrow> JStr s)"

definition jopt_int :: "int option \<Rightarrow> jval" where
  "jopt_int x = (case x of None \<Rightarrow> JUndefined | Some n \<Rightarrow> JInt n)"

section \<open>Where the token is kept\<close>

text \<open>The \<open>Authorization\<close> header of the request interceptors.\<close>

definition auth_header :: "string option \<Rightarrow> string option" where
  "auth_header token = map_option (\<lambda>t. ''Bearer '' @ t) token"

text \<open>
  What the request layer and the user commands rely on: reading gives the token last stored, an
  empty token counts as none, and signing out leaves no token.
\<close>

locale session_store =
  fixes set_token :: "string \<Rightarrow> 'st \<Rightarrow> 'st"
    and get_token :: "'st \<Rightarrow> string option"
    and sign_out :: "'st \<Rightarrow> 'st"
  assumes get_set: "get_token (set_token t s) = (if t = [] then None else Some t)"
    and get_sign_out: "get_token (sign_out s) = None"
begin

lemma header_after_set: "t \<noteq> [] \<Longrightarrow> auth_header (get_token (set_token t s)) = Some (''Bearer '' @ t)"
  by (simp add: get_set auth_header_def)

lemma no_header_after_sign_out: "auth_header (get_token (sign_out s)) = None"
  by (simp add: get_sign_out auth_header_def)

lemma set_overwrites: "get_token (set_token t (set_token t' s)) = get_token (set_token t s)"
  by (simp add: get_set)

lemma token_never_empty: "get_token (set_token t s) \<noteq> Some []"
  by (simp add: get_set)

end

end
