(* ===== verification/Token_Manager.thy ===== *)
theory Token_Manager
  imports Node_World Http
begin

text \<open>
  \<open>cam-fe-code-generator/src/utils/data-manager.ts\<close> and \<open>src/request/index.ts\<close>: the token and the user
  profile kept in \<open>~/.camrc\<close>, and the axios instance with its two interceptors.
\<close>

section \<open>TokenManager\<close>

definition CONFIG_FILE :: string where
  "CONFIG_FILE = ''.camrc''"

definition camrc_path :: "'s world \<Rightarrow> path" where
  "camrc_path w = w_home w @ [CONFIG_FILE]"

definition empty_camrc :: CamrcConfig where
  "empty_camrc = \<lparr>rc_token = None, rc_user = None\<rparr>"

text \<open>\<open>JSON.parse\<close> of a file that is not a JSON document throws, which \<open>readConfig\<close> turns into \<open>{}\<close>.\<close>

definition parse_camrc :: "content \<Rightarrow> CamrcConfig option" where
  "parse_camrc c = (case c of CamrcJson r \<Rightarrow> Some r | ConfigJson _ \<Rightarrow> Some empty_camrc | TextContent _ \<Rightarrow> None)"

definition tm_readConfig :: "'s world \<Rightarrow> CamrcConfig" where
  "tm_readConfig w =
     (case fs_read (camrc_path w) (w_fs w) of
        Inl _ \<Rightarrow> empty_camrc
      | Inr c \<Rightarrow> (case parse_camrc c of None \<Rightarrow> empty_camrc | Some r \<Rightarrow> r))"

definition tm_write :: "CamrcConfig \<Rightarrow> ('s, unit) cmd" where
  "tm_write r w = writeFileSync (camrc_path w) (CamrcJson r) w"

definition setToken :: "string \<Rightarrow> ('s, unit) cmd" where
  "setToken token w = tm_write ((tm_readConfig w)\<lparr>rc_token := Some token\<rparr>) w"

definition getToken :: "'s world \<Rightarrow> string option" where
  "getToken w = (case rc_token (tm_readConfig w) of Some t \<Rightarrow> if t = [] then None else Some t | None \<Rightarrow> None)"

definition setUser :: "stored_user \<Rightarrow> ('s, unit) cmd" where
  "setUser user w = tm_write ((tm_readConfig w)\<lparr>rc_user := Some user\<rparr>) w"

definition getUser :: "'s world \<Rightarrow> stored_user option" where
  "getUser w = rc_user (tm_readConfig w)"

definition clearConfig :: "('s, unit) cmd" where
  "clearConfig w = (if w_fs w (camrc_path w) \<noteq> None then unlinkSync (camrc_path w) w else (Ret (), w))"

section \<open>The HTTP client\<close>

definition BASE_URL :: string where
  "BASE_URL = ''https://cam-api.com/api''"

text \<open>The request interceptor.\<close>

definition attach_token :: "'s world \<Rightarrow> http_request \<Rightarrow> http_request" where
  "attach_token w req = (case getToken w of None \<Rightarrow> req | Some t \<Rightarrow> req\<lparr>hr_auth := Some (''Bearer '' @ t)\<rparr>)"

definition clear_session :: "('s, unit) cmd" where
  "clear_session = bind (setToken []) (\<lambda>_. setUser EmptyUser)"

text \<open>
  The error branch of the response interceptor.  Returning \<open>undefined\<close> (a 401 with no token) makes
  the caller's \<open>res.data\<close> a \<open>TypeError\<close>.
\<close>

definition on_response_error :: "nat option \<Rightarrow> string \<Rightarrow> ('s, 'a) cmd" where
  "on_response_error code msg w =
     (let message = (if msg = [] then ''Request error'' else msg) in
      if code = Some 401 then
        (if getToken w = None then throw (TypeError ''data'') w
         else bind clear_session (\<lambda>_.
                bind (console (Warn ''User token expired, please login again.'')) (\<lambda>_.
                  throw (Rejected message))) w)
      else bind (console (Err (''API Error: '' @ message))) (\<lambda>_. throw (Rejected message)) w)"

definition send :: "('s, 'a) endpoint \<Rightarrow> http_request \<Rightarrow> ('s, 'a) cmd" where
  "send srv req w =
     (let (rep, s) = srv (w_server w) (attach_token w (req\<lparr>hr_url := BASE_URL @ hr_url req\<rparr>));
          w' = w\<lparr>w_server := s\<rparr>
      in case rep of Success x \<Rightarrow> (Ret x, w')
         | Failure code msg _ \<Rightarrow> on_response_error code msg w')"

section \<open>Endpoints of \<open>services/apis\<close> the tool calls\<close>

definition UserLogin :: "('s, LoginResponse) endpoint \<Rightarrow> LoginRequest \<Rightarrow> ('s, LoginResponse) cmd" where
  "UserLogin srv d = send srv (post_request ''/v1/user/login''
     (JObj [(''username'', JStr (lq_username d)), (''password'', JStr (lq_password d))]))"

definition GetMyInfo :: "('s, UserResponse) endpoint \<Rightarrow> ('s, UserResponse) cmd" where
  "GetMyInfo srv = send srv (get_request ''/v1/user/getMyInfo'' [])"

definition GetServiceByUuidAndVersion ::
    "('s, GetServiceByUuidAndVersionResponse) endpoint \<Rightarrow> string \<Rightarrow> string \<Rightarrow> ('s, GetServiceByUuidAndVersionResponse) cmd" where
  "GetServiceByUuidAndVersion srv service_uuid version =
     send srv (get_request ''/v1/service/getServiceByUuidAndVersion''
       [(''service_uuid'', JStr service_uuid), (''version'', JStr version)])"

definition GetApiById :: "('s, GetApiByIdResponse) endpoint \<Rightarrow> int \<Rightarrow> bool option \<Rightarrow> ('s, GetApiByIdResponse) cmd" where
  "GetApiById srv api_id is_latest =
     send srv (get_request ''/v1/api/getApiById''
       ((''api_id'', JInt api_id) #
        (case is_latest of None \<Rightarrow> [] | Some b \<Rightarrow> [(''is_latest'', JBool b)])))"

section \<open>The stored session\<close>

text \<open>The same operations on the contents of \<open>.camrc\<close>, for the session contract.\<close>

definition camrc_set :: "string \<Rightarrow> CamrcConfig \<Rightarrow> CamrcConfig" where
  "camrc_set t r = r\<lparr>rc_token := Some t\<rparr>"

definition camrc_get :: "CamrcConfig \<Rightarrow> string option" where
  "camrc_get r = (case rc_token r of Some t \<Rightarrow> if t = [] then None else Some t | None \<Rightarrow> None)"

definition camrc_sign_out :: "CamrcConfig \<Rightarrow> CamrcConfig" where
  "camrc_sign_out r = (camrc_set [] r)\<lparr>rc_user := Some EmptyUser\<rparr>"

interpretation camrc: session_store camrc_set camrc_get camrc_sign_out
  by unfold_locales (auto simp: camrc_set_def camrc_get_def camrc_sign_out_def)

lemma getToken_camrc: "getToken w = camrc_get (tm_readConfig w)"
  by (simp add: getToken_def camrc_get_def)

lemma writeFileSync_Ret:
  "writeFileSync p c w = (Ret x, w') \<Longrightarrow> w' = w\<lparr>w_fs := (w_fs w)(p \<mapsto> File c)\<rparr>"
  by (auto simp: writeFileSync_def fs_write_def split: sum.splits option.splits node.splits if_splits)

lemma tm_write_Ret:
  assumes "tm_write r w = (Ret x, w')"
  shows "tm_readConfig w' = r" "w' = w\<lparr>w_fs := (w_fs w)(camrc_path w \<mapsto> File (CamrcJson r))\<rparr>"
  using writeFileSync_Ret [OF assms [unfolded tm_write_def]]
  by (auto simp: tm_readConfig_def camrc_path_def fs_read_def parse_camrc_def)

lemma tm_write_fail: "tm_write r w = (Throw e, w') \<Longrightarrow> w' = w"
  by (auto simp: tm_write_def writeFileSync_def split: sum.splits)

lemma setToken_Ret: "setToken t w = (Ret x, w') \<Longrightarrow> tm_readConfig w' = camrc_set t (tm_readConfig w)"
  by (auto simp: setToken_def camrc_set_def dest: tm_write_Ret(1))

lemma setUser_Ret: "setUser u w = (Ret x, w') \<Longrightarrow> tm_readConfig w' = (tm_readConfig w)\<lparr>rc_user := Some u\<rparr>"
  by (auto simp: setUser_def dest: tm_write_Ret(1))

lemma clear_session_Ret:
  assumes "clear_session w = (Ret x, w')" shows "tm_readConfig w' = camrc_sign_out (tm_readConfig w)"
proof -
  from assms obtain w1 y where 1: "setToken [] w = (Ret y, w1)" and 2: "setUser EmptyUser w1 = (Ret x, w')"
    by (auto simp: clear_session_def bind_def split: prod.splits outcome.splits)
  from setUser_Ret [OF 2] setToken_Ret [OF 1] show ?thesis by (simp add: camrc_sign_out_def)
qed

section \<open>Only \<open>.camrc\<close> is touched\<close>

text \<open>The request layer writes no file but \<open>.camrc\<close>, and leaves a file tree a file tree.\<close>

definition camrc_only :: "'s world \<Rightarrow> 's world \<Rightarrow> bool" where
  "camrc_only w w' \<longleftrightarrow> touches {camrc_path w} w w' \<and> (fs_ok (w_fs w) \<longrightarrow> fs_ok (w_fs w'))"

interpretation camrc_only: world_preorder camrc_only
  by unfold_locales (auto simp: camrc_only_def touches_def camrc_path_def)

lemma tm_write_camrc_only: "keeps camrc_only (tm_write r)"
  unfolding keeps_def camrc_only_def
proof (intro allI conjI impI)
  fix w :: "'a world"
  show "touches {camrc_path w} w (snd (tm_write r w))"
    using keeps_at [OF touches_write, of "camrc_path w" "{camrc_path w}"] by (simp add: tm_write_def)
  assume "fs_ok (w_fs w)"
  then show "fs_ok (w_fs (snd (tm_write r w)))"
    by (auto simp: tm_write_def writeFileSync_def split: sum.splits dest: fs_ok_write)
qed

text \<open>The request layer never ends the process.\<close>

definition exit_free :: "('s, 'a) cmd \<Rightarrow> bool" where
  "exit_free m \<longleftrightarrow> (\<forall>w n. fst (m w) \<noteq> Exit n)"

lemma exit_free_basic: "exit_free (ret x)" "exit_free (throw e)" "exit_free (console l)"
  by (simp_all add: exit_free_def cmd_simps)

lemma exit_free_bind: "exit_free m \<Longrightarrow> (\<And>x. exit_free (f x)) \<Longrightarrow> exit_free (bind m f)"
  by (auto simp: exit_free_def bind_def split: prod.splits outcome.splits) (metis fst_conv)+

lemma exit_free_at: "exit_free m \<Longrightarrow> fst (m w) \<noteq> Exit n"
  by (simp add: exit_free_def)

lemma exit_free_tm_write: "fst (tm_write r w) \<noteq> Exit n"
  by (auto simp: tm_write_def writeFileSync_def split: sum.splits)

lemma exit_free_tm: "exit_free (setToken t)" "exit_free (setUser u)"
  by (simp_all add: exit_free_def setToken_def setUser_def exit_free_tm_write)

lemma exit_free_reject:
  "exit_free (bind clear_session (\<lambda>_. bind (console l) (\<lambda>_. throw e)))"
  "exit_free (bind (console l) (\<lambda>_. throw e))"
  unfolding clear_session_def by (intro exit_free_bind exit_free_basic exit_free_tm)+

lemma exit_free_error: "exit_free (on_response_error st msg)"
  unfolding exit_free_def on_response_error_def Let_def
  by (simp add: exit_free_reject [THEN exit_free_at] exit_free_basic [THEN exit_free_at])

lemma exit_free_send: "exit_free (send srv req)"
  unfolding exit_free_def send_def Let_def
  by (auto simp: exit_free_error [THEN exit_free_at] split: prod.splits reply.splits)

lemma setToken_camrc_only: "keeps camrc_only (setToken t)"
  using tm_write_camrc_only by (auto simp: keeps_def setToken_def)

lemma setUser_camrc_only: "keeps camrc_only (setUser t)"
  using tm_write_camrc_only by (auto simp: keeps_def setUser_def)

lemma clear_session_camrc_only: "keeps camrc_only clear_session"
  unfolding clear_session_def by (intro camrc_only.keeps_bind setToken_camrc_only setUser_camrc_only)

lemma reject_camrc_only:
  "keeps camrc_only (bind clear_session (\<lambda>_. bind (console l) (\<lambda>_. throw e)))"
  "keeps camrc_only (bind (console l) (\<lambda>_. throw e))"
  by (intro camrc_only.keeps_rules clear_session_camrc_only)+

lemma on_response_error_camrc_only: "keeps camrc_only (on_response_error st msg)"
  unfolding keeps_def on_response_error_def Let_def
  by (simp add: reject_camrc_only [THEN keeps_at] camrc_only.keeps_throw [THEN keeps_at])

lemma camrc_only_server:
  "camrc_only (w\<lparr>w_server := s\<rparr>) w' \<longleftrightarrow> camrc_only w w'" "camrc_only w (w'\<lparr>w_server := s\<rparr>) \<longleftrightarrow> camrc_only w w'"
  by (auto simp: camrc_only_def touches_def camrc_path_def)

lemma send_camrc_only:
  fixes srv :: "('s, 'a) endpoint"
  shows "keeps camrc_only (send srv req)"
  unfolding keeps_def
proof
  fix w :: "'s world"
  obtain rep s where srv: "srv (w_server w) (attach_token w (req\<lparr>hr_url := BASE_URL @ hr_url req\<rparr>)) = (rep, s)"
    by fastforce
  have "camrc_only w (snd ((on_response_error a b :: ('s, 'a) cmd) (w\<lparr>w_server := s\<rparr>)))" for a b
    using keeps_at [OF on_response_error_camrc_only, of "w\<lparr>w_server := s\<rparr>"] by (simp only: camrc_only_server(1))
  with srv show "camrc_only w (snd (send srv req w))"
    by (simp add: send_def Let_def camrc_only_server camrc_only.R_refl split: reply.splits)
qed

lemma endpoints_camrc_only:
  "keeps camrc_only (UserLogin srv1 d)" "keeps camrc_only (GetMyInfo srv2)"
  "keeps camrc_only (GetServiceByUuidAndVersion srv3 u v)" "keeps camrc_only (GetApiById srv4 i b)"
  by (simp_all add: UserLogin_def GetMyInfo_def GetServiceByUuidAndVersion_def GetApiById_def send_camrc_only)

section \<open>An expired token\<close>

lemma token_camrc_file: "getToken w \<noteq> None \<Longrightarrow> \<exists>c. w_fs w (camrc_path w) = Some (File c)"
  by (cases "w_fs w (camrc_path w)")
    (auto simp: getToken_def tm_readConfig_def fs_read_def empty_camrc_def split: node.splits)

lemma tm_write_ok:
  "w_fs w (w_home w) = Some Dir \<Longrightarrow> w_fs w (camrc_path w) \<noteq> Some Dir \<Longrightarrow>
   tm_write r w = (Ret (), w\<lparr>w_fs := (w_fs w)(camrc_path w \<mapsto> File (CamrcJson r))\<rparr>)"
  by (simp add: tm_write_def writeFileSync_def fs_write_def camrc_path_def)

lemma clear_session_ok:
  assumes "w_fs w (w_home w) = Some Dir" "w_fs w (camrc_path w) \<noteq> Some Dir"
  shows "\<exists>w'. clear_session w = (Ret (), w')"
proof -
  let ?r = "(tm_readConfig w)\<lparr>rc_token := Some []\<rparr>"
  let ?w = "w\<lparr>w_fs := (w_fs w)(camrc_path w \<mapsto> File (CamrcJson ?r))\<rparr>"
  have "setToken [] w = (Ret (), ?w)" by (simp add: setToken_def tm_write_ok [OF assms])
  moreover have "\<exists>w'. setUser EmptyUser ?w = (Ret (), w')"
    using tm_write_ok [of ?w] assms(1) by (simp add: setUser_def camrc_path_def)
  ultimately show ?thesis by (simp add: clear_session_def bind_def)
qed

text \<open>
  A 401 answer to a request that carried a token ends the session: the call rejects, the stored
  token and profile are cleared, so the next requests carry no \<open>Authorization\<close> header, and nothing but
  \<open>.camrc\<close> changes on disk.
\<close>

theorem unauthorized_signs_out:
  assumes "getToken w \<noteq> None" "w_fs w (w_home w) = Some Dir"
    and "srv (w_server w) (attach_token w (req\<lparr>hr_url := BASE_URL @ hr_url req\<rparr>)) = (Failure (Some 401) msg net, s)"
  shows "\<exists>m w'. send srv req w = (Throw (Rejected m), w') \<and> getToken w' = None \<and> getUser w' = Some EmptyUser \<and>
    attach_token w' req' = req' \<and> touches {camrc_path w} w w'"
proof -
  let ?w = "w\<lparr>w_server := s\<rparr>" and ?l = "Warn ''User token expired, please login again.''"
  have p: "camrc_path ?w = camrc_path w" by (simp add: camrc_path_def)
  have t: "getToken ?w \<noteq> None" using assms(1) by (simp add: getToken_def tm_readConfig_def p)
  obtain w1 where 1: "clear_session ?w = (Ret (), w1)"
    using clear_session_ok [of ?w] token_camrc_file [OF assms(1)] assms(2) by (auto simp: p)
  let ?w1 = "w1\<lparr>w_console := w_console w1 @ [?l]\<rparr>"
  have c: "tm_readConfig ?w1 = camrc_sign_out (tm_readConfig ?w)"
    using clear_session_Ret [OF 1] by (simp add: tm_readConfig_def camrc_path_def)
  then have none: "getToken ?w1 = None" by (simp only: getToken_camrc camrc.get_sign_out)
  moreover have "getUser ?w1 = Some EmptyUser" using c by (simp add: getUser_def camrc_sign_out_def)
  moreover have "attach_token ?w1 req' = req'" using none by (simp add: attach_token_def)
  moreover have "\<exists>m. send srv req w = (Throw (Rejected m), ?w1)"
    using t by (simp add: send_def assms(3) Let_def on_response_error_def bind_def 1 console_def throw_def)
  moreover have "touches {camrc_path w} w ?w1"
    using keepsD [OF clear_session_camrc_only 1] by (simp add: camrc_only_def touches_def camrc_path_def)
  ultimately show ?thesis by blast
qed

end
