(* ===== verification/Code_Generate.thy ===== *)
theory Code_Generate
  imports Service_Class Token_Manager
begin

text \<open>
  \<open>cam-fe-code-generator/src/services/code-generate/index.ts\<close>: the configuration file, adding and
  removing services, and the pull that regenerates the output directory from the server.

  \<open>prettier\<close> is not part of the sources: it is a parameter from code to formatted code or failure.  The
  two endpoints are parameters as well.  Path strings are resolved lexically.
\<close>

section \<open>Configuration\<close>

definition config_path :: "'s world \<Rightarrow> path" where
  "config_path w = resolve (w_cwd w) CONFIG_FILE_NAME"

definition no_config :: CamConfig where
  "no_config = \<lparr>cfg_services = None, cfg_outDir = None, cfg_generateConfig = None\<rparr>"

definition parse_config :: "content \<Rightarrow> CamConfig option" where
  "parse_config c = (case c of ConfigJson r \<Rightarrow> Some r | CamrcJson _ \<Rightarrow> Some no_config | TextContent _ \<Rightarrow> None)"

text \<open>What the configuration file holds, if it can be read and parsed.\<close>

definition config_at :: "'s world \<Rightarrow> CamConfig option" where
  "config_at w = (case fs_read (config_path w) (w_fs w) of Inl _ \<Rightarrow> None | Inr c \<Rightarrow> parse_config c)"

definition readConfig :: "('s, CamConfig) cmd" where
  "readConfig w =
     (if w_fs w (config_path w) = None
      then bind (console (Warn ''You need to run `cam init` first'')) (\<lambda>_. exit_with 1) w
      else case config_at w of
             Some c \<Rightarrow> (Ret c, w)
           | None \<Rightarrow> bind (console (Warn ''Failed to read config file, please delete it and run `cam init` again''))
                      (\<lambda>_. exit_with 1) w)"

section \<open>Pulling\<close>

definition autoGeneratePrefix :: string where
  "autoGeneratePrefix = join NL
     [[], ''// THIS IS AN AUTOGENERATED FILE. DO NOT EDIT THIS FILE DIRECTLY.'', ''/* eslint-disable */'',
      ''/* tslint:disable */'', ''// @ts-nocheck'', [], []]"

definition formatCodeByPrettier :: "(string \<Rightarrow> string option) \<Rightarrow> string \<Rightarrow> ('s, string) cmd" where
  "formatCodeByPrettier prettier code =
     (case prettier code of
        Some formatted \<Rightarrow> ret formatted
      | None \<Rightarrow> bind (console (Warn ''Prettier format failed, using unformatted code.'')) (\<lambda>_. ret code))"

definition generateNamespaceCodeByApiDetail :: "ApiDetail \<Rightarrow> gen_error + (string \<times> ApiOption)" where
  "generateNamespaceCodeByApiDetail api =
     (case generateTSCode api of Inl e \<Rightarrow> Inl e
      | Inr (namespaces, apiOption) \<Rightarrow> Inr (join (NL @ NL) namespaces, apiOption))"

text \<open>The loop over the APIs of a service, with \<open>namespaceCode\<close> and \<open>apiOptions\<close> as accumulators.\<close>

fun api_loop :: "('s, GetApiByIdResponse) endpoint \<Rightarrow> string \<Rightarrow> bool \<Rightarrow> ApiBrief list \<Rightarrow> string \<Rightarrow> ApiOption list
    \<Rightarrow> ('s, string \<times> ApiOption list) cmd" where
  "api_loop srv name isLatest [] namespaceCode apiOptions = ret (namespaceCode, apiOptions)"
| "api_loop srv name isLatest (api # apis) namespaceCode apiOptions =
     bind (GetApiById srv (ab_id api) (Some isLatest)) (\<lambda>apiRes.
       if status apiRes \<noteq> 200 then
         bind (console (Warn (''Failed to get api info for api '' @ ab_name api @ '' in service '' @ name @ '': '' @ message apiRes)))
           (\<lambda>_. api_loop srv name isLatest apis namespaceCode apiOptions)
       else case ga_api apiRes of
              None \<Rightarrow> throw (TypeError ''name'')
            | Some apiDetail \<Rightarrow>
                (case generateNamespaceCodeByApiDetail apiDetail of
                   Inl (TypeErrorUndefined _) \<Rightarrow> throw (TypeError ''map'')
                 | Inr (namespaceCodeForThisApi, apiOption) \<Rightarrow>
                     api_loop srv name isLatest apis
                       (namespaceCode @ NL @ NL @ namespaceCodeForThisApi) (apiOptions @ [apiOption])))"

text \<open>\<open>None\<close> in \<open>sd_apis\<close> is a service without the key \<open>apis\<close>.\<close>

definition service_apis :: "ServiceInfo \<Rightarrow> ApiBrief list" where
  "service_apis info =
     (case info of LatestInfo s \<Rightarrow> (case sd_apis s of None \<Rightarrow> [] | Some as \<Rightarrow> as)
      | IterationInfo i \<Rightarrow> (case it_api_drafts i of None \<Rightarrow> [] | Some ds \<Rightarrow> ds))"

text \<open>The body of the \<open>try\<close> block; \<open>None\<close> is its \<open>continue\<close>.\<close>

definition fetch_service ::
    "('s, GetServiceByUuidAndVersionResponse) endpoint \<Rightarrow> ('s, GetApiByIdResponse) endpoint \<Rightarrow> string \<Rightarrow> string \<Rightarrow> string
     \<Rightarrow> ('s, (string \<times> ApiOption list) option) cmd" where
  "fetch_service ssrv asrv name service_uuid version =
     bind (GetServiceByUuidAndVersion ssrv service_uuid version) (\<lambda>serviceRes.
       if status serviceRes \<noteq> 200 then
         bind (console (Warn (''Failed to get service info for service '' @ name @ '': '' @ message serviceRes)))
           (\<lambda>_. ret None)
       else let apis = service_apis (gs_service serviceRes)
            in bind (console (Log (''Service '' @ name @ '' has '' @ nat_str (length apis) @ '' api'' @
                        (if length apis = 1 then [] else ''s''))))
                 (\<lambda>_. bind (api_loop asrv name (gs_is_latest serviceRes) apis autoGeneratePrefix [])
                         (\<lambda>r. ret (Some r))))"

definition write_service :: "(string \<Rightarrow> string option) \<Rightarrow> string \<Rightarrow> path \<Rightarrow> string \<times> ApiOption list \<Rightarrow> ('s, unit) cmd" where
  "write_service prettier name outputDir r =
     (case r of (namespaceCode, apiOptions) \<Rightarrow>
        bind (formatCodeByPrettier prettier namespaceCode) (\<lambda>ns.
        bind (writeFileSync (walk outputDir ''namespaces.ts'') (TextContent ns)) (\<lambda>_.
        bind (formatCodeByPrettier prettier (autoGeneratePrefix @ NL @ serviceClassCode name apiOptions)) (\<lambda>code.
        writeFileSync (walk outputDir ''index.ts'') (TextContent code)))))"

text \<open>One iteration of the loop over \<open>Object.entries(config.services)\<close>.\<close>

definition pull_service ::
    "('s, GetServiceByUuidAndVersionResponse) endpoint \<Rightarrow> ('s, GetApiByIdResponse) endpoint \<Rightarrow> (string \<Rightarrow> string option)
     \<Rightarrow> path \<Rightarrow> string \<times> string \<Rightarrow> ('s, unit) cmd" where
  "pull_service ssrv asrv prettier outDir entry =
     (case entry of (name, UuidAndVersion) \<Rightarrow>
       (let parts = split_on CHR ''@'' UuidAndVersion;
            service_uuid = hd parts;
            version = (case tl parts of [] \<Rightarrow> [] | v # _ \<Rightarrow> v);
            outputDir = walk outDir name
        in if service_uuid = [] \<or> version = [] then
             console (Warn (''Invalid service info '' @ UuidAndVersion @ '' for service '' @ name @
               ''. Please use '' @ SQ @ ''cam add <name:uuid@version>'' @ SQ @ '' to add instead.''))
           else
             bind (existsSync outputDir) (\<lambda>e.
             bind (if e then ret () else mkdirSync outputDir) (\<lambda>_.
             bind (try_catch (fetch_service ssrv asrv name service_uuid version)
                    (\<lambda>err. bind (console (ErrWith (''Failed to get service info for service '' @ name @ '': '') err))
                      (\<lambda>_. ret None)))
               (\<lambda>r. case r of None \<Rightarrow> ret () | Some res \<Rightarrow> write_service prettier name outputDir res)))))"

definition clean_dir :: "path \<Rightarrow> ('s, unit) cmd" where
  "clean_dir outDir =
     bind (existsSync outDir) (\<lambda>e. bind (if e then rmSync outDir else ret ()) (\<lambda>_. mkdirSync outDir))"

definition write_demo :: "(string \<Rightarrow> string option) \<Rightarrow> path \<Rightarrow> string \<Rightarrow> string \<Rightarrow> ('s, unit) cmd" where
  "write_demo prettier outDir outDirName demoServiceName =
     (if demoServiceName = [] then exit_with 1
      else bind (formatCodeByPrettier prettier (requestDemoCode demoServiceName)) (\<lambda>code.
           bind (writeFileSync (walk outDir ''request-demo.ts'') (TextContent code)) (\<lambda>_.
           console (Log (''All services'' @ SQ @ '' apis have been generated in '' @ outDirName @ ''.'')))))"

definition pullAllApisInAllServices ::
    "('s, GetServiceByUuidAndVersionResponse) endpoint \<Rightarrow> ('s, GetApiByIdResponse) endpoint \<Rightarrow> (string \<Rightarrow> string option)
     \<Rightarrow> ('s, unit) cmd" where
  "pullAllApisInAllServices ssrv asrv prettier =
     bind readConfig (\<lambda>config.
       case cfg_services config of
         None \<Rightarrow> bind (console (Warn (''No service has been added yet. Please use '' @ SQ @ ''cam add <name:uuid@version>'' @ SQ @
                    '' to add a service first.''))) (\<lambda>_. exit_with 1)
       | Some [] \<Rightarrow> bind (console (Warn (''No service has been added yet. Please use '' @ SQ @ ''cam add <name:uuid@version>'' @ SQ @
                    '' to add a service first.''))) (\<lambda>_. exit_with 1)
       | Some (e # es) \<Rightarrow>
           bind get_cwd (\<lambda>cwd.
             let outDirName = or_str (cfg_outDir config) ''.'';
                 outDir = resolve cwd outDirName
             in bind (clean_dir outDir) (\<lambda>_.
                bind (for_each (pull_service ssrv asrv prettier outDir) (e # es)) (\<lambda>_.
                write_demo prettier outDir outDirName (fst e)))))"

section \<open>Adding and removing services\<close>

definition services_of :: "CamConfig \<Rightarrow> string js_obj" where
  "services_of config = (case cfg_services config of None \<Rightarrow> [] | Some d \<Rightarrow> d)"

definition uuid_of :: "string \<Rightarrow> string" where
  "uuid_of v = hd (split_on CHR ''@'' v)"

definition service_present :: "CamConfig \<Rightarrow> string \<Rightarrow> bool" where
  "service_present config name \<longleftrightarrow> (case cfg_services config of None \<Rightarrow> False | Some d \<Rightarrow> obj_truthy d name)"

definition add_entry :: "string \<Rightarrow> string \<Rightarrow> string \<Rightarrow> CamConfig \<Rightarrow> CamConfig" where
  "add_entry name service_uuid version config =
     config\<lparr>cfg_services := Some (obj_put name (service_uuid @ ''@'' @ version) (services_of config))\<rparr>"

definition remove_entry :: "string \<Rightarrow> CamConfig \<Rightarrow> CamConfig" where
  "remove_entry name config = config\<lparr>cfg_services := Some (map_delete name (services_of config))\<rparr>"

definition warn_exit :: "string \<Rightarrow> ('s, 'a) cmd" where
  "warn_exit msg = bind (console (Warn msg)) (\<lambda>_. exit_with 1)"

definition storeServiceInfo ::
    "('s, GetServiceByUuidAndVersionResponse) endpoint \<Rightarrow> ('s, GetApiByIdResponse) endpoint \<Rightarrow> (string \<Rightarrow> string option)
     \<Rightarrow> string \<Rightarrow> string \<Rightarrow> string \<Rightarrow> ('s, unit) cmd" where
  "storeServiceInfo ssrv asrv prettier name service_uuid version =
     bind readConfig (\<lambda>config.
       if service_present config name then warn_exit (''Service name '' @ name @ '' already exists'')
       else if list_ex (\<lambda>v. uuid_of v = service_uuid) (map snd (services_of config)) then
         warn_exit (''Service '' @ service_uuid @
           '' already exists. If you want to update the version, please remove this service first.'')
       else
         try_catch
           (bind (GetServiceByUuidAndVersion ssrv service_uuid version) (\<lambda>res.
              if status res \<noteq> 200 then
                warn_exit (if message res = [] then ''Failed to get service info'' else message res)
              else
                bind (\<lambda>w. writeFileSync (config_path w) (ConfigJson (add_entry name service_uuid version config)) w) (\<lambda>_.
                bind (console (Log (''Service '' @ name @ '' added successfully''))) (\<lambda>_.
                pullAllApisInAllServices ssrv asrv prettier))))
           (\<lambda>err. bind (console (ErrWith [] err)) (\<lambda>_. exit_with 1)))"

definition removeService ::
    "('s, GetServiceByUuidAndVersionResponse) endpoint \<Rightarrow> ('s, GetApiByIdResponse) endpoint \<Rightarrow> (string \<Rightarrow> string option)
     \<Rightarrow> string \<Rightarrow> ('s, unit) cmd" where
  "removeService ssrv asrv prettier serviceName =
     bind readConfig (\<lambda>config.
       if \<not> service_present config serviceName then
         warn_exit (''Service name '' @ serviceName @ '' does not exist'')
       else
         try_catch
           (bind (\<lambda>w. writeFileSync (config_path w) (ConfigJson (remove_entry serviceName config)) w) (\<lambda>_.
            bind (console (Log (''Successfully removed service '' @ serviceName))) (\<lambda>_.
            pullAllApisInAllServices ssrv asrv prettier)))
           (\<lambda>err. bind (console (ErrWith (''Failed to remove service '' @ serviceName @ '':'') err)) (\<lambda>_. exit_with 1)))"

end
