(* ===== verification/Code_Generate_Frame.thy ===== *)
theory Code_Generate_Frame
  imports Code_Generate
begin

text \<open>
  What pulling, adding and removing may change in the file system, and the contents they leave in
  the output directory.
\<close>

section \<open>Paths\<close>

lemma walk_component: "CHR ''/'' \<notin> set n \<Longrightarrow> n \<noteq> [] \<Longrightarrow> n \<noteq> ''.'' \<Longrightarrow> n \<noteq> ''..'' \<Longrightarrow> walk D n = D @ [n]"
  by (simp add: walk_def split_on_free enter_def)

lemma walk_valid [simp]: "isValidFilename n \<Longrightarrow> walk D n = D @ [n]"
  by (rule walk_component) (auto simp: isValidFilename_no_slash, auto simp: isValidFilename_def split: if_splits)

lemma walk_literals [simp]:
  "walk D ''namespaces.ts'' = D @ [''namespaces.ts'']" "walk D ''index.ts'' = D @ [''index.ts'']"
  "walk D ''request-demo.ts'' = D @ [''request-demo.ts'']"
  by (rule walk_component; simp)+

lemma config_path_eq: "config_path w = w_cwd w @ [CONFIG_FILE_NAME]"
proof -
  have "walk (w_cwd w) CONFIG_FILE_NAME = w_cwd w @ [CONFIG_FILE_NAME]"
    by (rule walk_component) (simp_all add: CONFIG_FILE_NAME_def)
  then show ?thesis by (simp add: config_path_def resolve_def CONFIG_FILE_NAME_def)
qed

definition outDir_path :: "'s world \<Rightarrow> CamConfig \<Rightarrow> path" where
  "outDir_path w config = resolve (w_cwd w) (or_str (cfg_outDir config) ''.'')"

definition service_files :: "path \<Rightarrow> string \<Rightarrow> path set" where
  "service_files D name = {D @ [name, ''namespaces.ts''], D @ [name, ''index.ts'']}"

definition service_paths :: "path \<Rightarrow> string \<Rightarrow> path set" where
  "service_paths D name = {q. prefix q (D @ [name])} \<union> service_files D name"

section \<open>Frames\<close>

text \<open>For a fixed home directory, only the paths in \<open>S\<close> change.\<close>

definition within :: "path \<Rightarrow> path set \<Rightarrow> 's world \<Rightarrow> 's world \<Rightarrow> bool" where
  "within h S w w' \<longleftrightarrow> (w_home w = h \<longrightarrow> touches S w w')"

interpretation within: world_preorder "within h S"
  by unfold_locales (auto simp: within_def touches_def)

lemma within_touches: "keeps (touches S) m \<Longrightarrow> keeps (within h S) m"
  by (simp add: keeps_def within_def)

lemma within_camrc:
  fixes m :: "('s, 'a) cmd"
  assumes "keeps camrc_only m" "h @ [CONFIG_FILE] \<in> S"
  shows "keeps (within h S) m"
  unfolding keeps_def within_def
proof (intro allI impI)
  fix w :: "'s world" assume h: "w_home w = h"
  have "touches {camrc_path w} w (snd (m w))" using keeps_at [OF assms(1)] by (simp add: camrc_only_def)
  then show "touches S w (snd (m w))" by (rule touches_mono [rotated]) (simp add: camrc_path_def h assms(2))
qed

lemma within_write: "p \<in> S \<Longrightarrow> keeps (within h S) (writeFileSync p c)"
  by (intro within_touches touches_write)

lemma within_mkdir: "{q. prefix q p} \<subseteq> S \<Longrightarrow> keeps (within h S) (mkdirSync p)"
  by (intro within_touches touches_mkdir)

lemma within_rm: "{q. prefix p q} \<subseteq> S \<Longrightarrow> keeps (within h S) (rmSync p)"
  by (intro within_touches touches_rm)

lemma format_camrc_only: "keeps camrc_only (formatCodeByPrettier pr c)"
  by (auto simp: formatCodeByPrettier_def intro!: camrc_only.keeps_rules split: option.splits)

lemma api_loop_camrc_only: "keeps camrc_only (api_loop srv name l apis ns opts)"
proof (induction apis arbitrary: ns opts)
  case Nil
  show ?case by (simp add: camrc_only.keeps_ret)
next
  case (Cons a apis)
  have "keeps camrc_only (case ga_api r of None \<Rightarrow> throw (TypeError ''name'')
      | Some d \<Rightarrow> (case generateNamespaceCodeByApiDetail d of
          Inl (TypeErrorUndefined _) \<Rightarrow> throw (TypeError ''map'')
        | Inr (n, opt) \<Rightarrow> api_loop srv name l apis (ns @ NL @ NL @ n) (opts @ [opt])))" for r
    by (auto intro: camrc_only.keeps_throw Cons.IH split: option.splits sum.splits gen_error.splits prod.splits)
  then show ?case
    by (auto intro!: camrc_only.keeps_bind camrc_only.keeps_console endpoints_camrc_only Cons.IH simp del: append_Cons)
qed

lemma fetch_service_camrc_only: "keeps camrc_only (fetch_service ssrv asrv name u v)"
  unfolding fetch_service_def Let_def
  by (intro camrc_only.keeps_bind endpoints_camrc_only)
    (auto intro!: camrc_only.keeps_rules api_loop_camrc_only split: option.splits simp del: append_Cons append_assoc)

lemma try_fetch_camrc_only:
  "keeps camrc_only (try_catch (fetch_service ssrv asrv name u v)
      (\<lambda>err. bind (console (ErrWith msg err)) (\<lambda>_. ret None)))"
  by (intro camrc_only.keeps_rules fetch_service_camrc_only)

lemma write_service_within:
  assumes "service_files D name \<subseteq> S" "h @ [CONFIG_FILE] \<in> S"
  shows "keeps (within h S) (write_service pr name (D @ [name]) r)"
proof (cases r)
  case (Pair ns opts)
  with assms show ?thesis
    by (auto simp: write_service_def service_files_def
        intro!: within.keeps_bind within_camrc [OF format_camrc_only] within_write)
qed

lemma pull_service_within:
  assumes "isValidFilename name" "service_paths D name \<subseteq> S" "h @ [CONFIG_FILE] \<in> S"
  shows "keeps (within h S) (pull_service ssrv asrv pr D (name, uv))"
proof -
  have m: "keeps (within h S) (if e then ret () else mkdirSync (D @ [name]))" for e
    using assms(2) by (auto simp: service_paths_def intro!: within.keeps_ret within_mkdir)
  have r: "keeps (within h S) (case r of None \<Rightarrow> ret () | Some res \<Rightarrow> write_service pr name (D @ [name]) res)" for r
    using assms(2,3) by (auto simp: service_paths_def intro!: within.keeps_ret write_service_within split: option.splits)
  show ?thesis
    unfolding pull_service_def prod.case Let_def walk_valid [OF assms(1)]
    by (intro within.keeps_if within.keeps_bind within.keeps_console within.keeps_reads m r
        within_camrc [OF try_fetch_camrc_only] assms(3))
qed

lemma clean_dir_within:
  "{q. prefix D q \<or> prefix q D} \<subseteq> S \<Longrightarrow> keeps (within h S) (clean_dir D)"
  unfolding clean_dir_def
  by (intro within.keeps_bind within.keeps_if within.keeps_reads within.keeps_ret within_rm within_mkdir) auto

lemma write_demo_within:
  "D @ [''request-demo.ts''] \<in> S \<Longrightarrow> h @ [CONFIG_FILE] \<in> S \<Longrightarrow> keeps (within h S) (write_demo pr D dn n)"
  unfolding write_demo_def walk_literals
  by (intro within.keeps_bind within.keeps_if within.keeps_exit within.keeps_console
      within_camrc [OF format_camrc_only] within_write)

lemma pull_loop_within:
  assumes "\<forall>n\<in>set (obj_keys d). isValidFilename n" "\<forall>n\<in>set (obj_keys d). service_paths D n \<subseteq> S"
    and "h @ [CONFIG_FILE] \<in> S"
  shows "keeps (within h S) (for_each (pull_service ssrv asrv pr D) d)"
proof (rule within.keeps_for_each)
  fix e assume "e \<in> set d"
  with assms show "keeps (within h S) (pull_service ssrv asrv pr D e)"
    by (cases e) (fastforce intro!: pull_service_within)
qed

section \<open>Unfolding the pull\<close>

lemma readConfig_Some: "config_at w = Some c \<Longrightarrow> readConfig w = (Ret c, w)"
  by (auto simp: readConfig_def config_at_def fs_read_def)

lemma bind_readConfig: "config_at w = Some c \<Longrightarrow> bind readConfig f w = f c w"
  using readConfig_Some [of w c] by (simp add: bind_def)

lemma bind_get_cwd: "bind get_cwd f w = f (w_cwd w) w"
  by (simp add: bind_def get_cwd_def)

lemma readConfig_None:
  "config_at w = None \<Longrightarrow> \<exists>l. readConfig w = (Exit 1, w\<lparr>w_console := w_console w @ [Warn l]\<rparr>)"
  by (auto simp: readConfig_def bind_console exit_with_def)

lemma pull_unfold:
  assumes "config_at w = Some config" "cfg_services config = Some ((n, v) # es)"
  shows "pullAllApisInAllServices ssrv asrv pr w =
    bind (clean_dir (outDir_path w config)) (\<lambda>_.
      bind (for_each (pull_service ssrv asrv pr (outDir_path w config)) ((n, v) # es)) (\<lambda>_.
        write_demo pr (outDir_path w config) (or_str (cfg_outDir config) ''.'') n)) w"
  using assms(2)
  by (simp add: pullAllApisInAllServices_def bind_readConfig [OF assms(1)] bind_get_cwd Let_def outDir_path_def
      del: for_each.simps)

lemma pull_no_services:
  assumes "config_at w = Some config" "services_of config = []"
  shows "\<exists>l. pullAllApisInAllServices ssrv asrv pr w = (Exit 1, w\<lparr>w_console := w_console w @ [Warn l]\<rparr>)"
  using assms(2)
  by (auto simp: pullAllApisInAllServices_def bind_readConfig [OF assms(1)] services_of_def
      bind_console exit_with_def split: option.splits)

lemma pull_no_config:
  assumes "config_at w = None"
  shows "\<exists>l. pullAllApisInAllServices ssrv asrv pr w = (Exit 1, w\<lparr>w_console := w_console w @ [Warn l]\<rparr>)"
  using readConfig_None [OF assms] by (auto simp: pullAllApisInAllServices_def bind_def)

definition names_valid :: "CamConfig \<Rightarrow> bool" where
  "names_valid config \<longleftrightarrow> list_all isValidFilename (obj_keys (services_of config))"

text \<open>The paths a pull may change: \<open>.camrc\<close>, the output directory and its ancestors.\<close>

definition pull_area :: "'s world \<Rightarrow> path \<Rightarrow> path set" where
  "pull_area w D = insert (camrc_path w) {q. prefix D q \<or> prefix q D}"

lemma service_paths_area: "service_paths D n \<subseteq> {q. prefix D q \<or> prefix q D}"
  by (auto simp: service_paths_def service_files_def)

lemma pull_frame_area:
  assumes "config_at w = Some config" "names_valid config"
  shows "touches (pull_area w (outDir_path w config)) w (snd (pullAllApisInAllServices ssrv asrv pr w))"
proof (cases "services_of config")
  case Nil
  from pull_no_services [OF assms(1) this, of ssrv asrv pr] show ?thesis by (auto simp: touches_def)
next
  case (Cons e es)
  obtain n v where e: "e = (n, v)" by (cases e)
  with Cons have sv: "cfg_services config = Some ((n, v) # es)" by (auto simp: services_of_def split: option.splits)
  let ?D = "outDir_path w config" and ?S = "pull_area w (outDir_path w config)"
  have h: "w_home w @ [CONFIG_FILE] \<in> ?S" by (simp add: pull_area_def camrc_path_def)
  have area: "{q. prefix ?D q \<or> prefix q ?D} \<subseteq> ?S" by (auto simp: pull_area_def)
  have val: "\<forall>m\<in>set (obj_keys ((n, v) # es)). isValidFilename m"
    using assms(2) by (simp add: names_valid_def list_all_iff services_of_def sv del: set_map)
  have "keeps (within (w_home w) ?S) (bind (clean_dir ?D) (\<lambda>_.
      bind (for_each (pull_service ssrv asrv pr ?D) ((n, v) # es)) (\<lambda>_.
        write_demo pr ?D (or_str (cfg_outDir config) ''.'') n)))"
    using area service_paths_area [of ?D]
    by (intro within.keeps_bind clean_dir_within pull_loop_within write_demo_within val h) auto
  then show ?thesis unfolding pull_unfold [OF assms(1) sv] by (auto simp: keeps_def within_def)
qed

text \<open>
  C15: A pull changes nothing outside its output directory: whatever the server answers and however
  the pull ends, every path that is neither under the configured \<open>outDir\<close>, nor one of its ancestors
  (created when missing), nor \<open>~/.camrc\<close> keeps its contents.
\<close>

theorem pull_frame:
  assumes "config_at w = Some config" "names_valid config"
  shows "touches (pull_area w (outDir_path w config)) w (snd (pullAllApisInAllServices ssrv asrv pr w))"
  by (rule pull_frame_area [OF assms])

end
