(* ===== verification/Code_Generate_Props.thy ===== *)
theory Code_Generate_Props
  imports Code_Generate_Frame
begin

text \<open>
  What a pull leaves in the output directory: no leftovers, and for every service a pair of files
  that belong together.
\<close>

section \<open>The cleaned directory\<close>

lemma fs_ok_below: "fs_ok fs \<Longrightarrow> fs p = None \<Longrightarrow> prefix p q \<Longrightarrow> fs q = None"
  using fs_ok_prefix [of fs p q] by (cases "p = q"; cases "fs q") (auto simp: strict_prefix_def)

lemma prefix_between: "strict_prefix D q \<Longrightarrow> prefix q (D @ [m]) \<Longrightarrow> q = D @ [m]"
  by (auto simp: prefix_snoc strict_prefix_def dest: prefix_order.antisym)

lemma clean_dir_empty:
  assumes "fs_ok (w_fs w)" "strict_prefix D q"
  shows "w_fs (snd (clean_dir D w)) q = None"
proof -
  have nq: "\<not> prefix q D" "prefix D q" using assms(2) prefix_order.less_le_not_le by auto
  have mk: "w_fs v q = None \<Longrightarrow> w_fs (snd (mkdirSync D v)) q = None" for v :: "'a world"
    using nq by (auto simp: mkdirSync_def fs_mkdir_def split: sum.splits)
  show ?thesis
  proof (cases "w_fs w D = None")
    case True
    with fs_ok_below [OF assms(1)] nq have "w_fs w q = None" by blast
    with mk [of w] show ?thesis by (simp add: clean_dir_def bind_def existsSync_def True ret_def)
  next
    case False
    with mk [of "w\<lparr>w_fs := fs_rm D (w_fs w)\<rparr>"] nq show ?thesis
      by (simp add: clean_dir_def bind_def existsSync_def rmSync_def fs_rm_def)
  qed
qed

lemma clean_dir_Ret: "clean_dir D w = (Ret x, w') \<Longrightarrow> w_fs w' D = Some Dir"
  by (auto simp: clean_dir_def bind_def existsSync_def rmSync_def ret_def mkdirSync_def fs_mkdir_def
      split: if_splits sum.splits)

lemma clean_dir_home: "w_home (snd (clean_dir D w)) = w_home w" "w_cwd (snd (clean_dir D w)) = w_cwd w"
  using keeps_at [OF clean_dir_within [where D = D and h = "w_home w", OF subset_refl], of w]
  by (auto simp: within_def touches_def)

lemma bind_snd_within:
  assumes "\<And>x. keeps (within (w_home w) S) (f x)" "w_home (snd (m w)) = w_home w"
  shows "touches S (snd (m w)) (snd (bind m f w))"
  using assms by (cases "m w"; cases "fst (m w)") (auto simp: bind_def keeps_def within_def touches.R_refl)

text \<open>
  C14: A pull leaves no stale files.  However it ends, every path strictly under the output
  directory that exists afterwards is \<open>request-demo.ts\<close>, the directory of a configured service, or
  that service's \<open>namespaces.ts\<close> or \<open>index.ts\<close> (or \<open>~/.camrc\<close>, should the home directory be there).
\<close>

theorem pull_no_stale_files:
  assumes "config_at w = Some config" "names_valid config" "services_of config \<noteq> []" "fs_ok (w_fs w)"
    and "strict_prefix (outDir_path w config) q"
  shows "w_fs (snd (pullAllApisInAllServices ssrv asrv pr w)) q = None \<or> q = camrc_path w \<or> q = outDir_path w config @ [''request-demo.ts''] \<or>
    (\<exists>n\<in>set (obj_keys (services_of config)).
       q = outDir_path w config @ [n] \<or> q \<in> service_files (outDir_path w config) n)"
proof (cases "w_fs (snd (pullAllApisInAllServices ssrv asrv pr w)) q = None")
  case False
  let ?D = "outDir_path w config"
  obtain n v es where sv: "cfg_services config = Some ((n, v) # es)"
    using assms(3) by (auto simp: services_of_def neq_Nil_conv split: option.splits)
  let ?ns = "obj_keys ((n, v) # es)"
  let ?E = "insert (camrc_path w) (insert (?D @ [''request-demo.ts'']) (\<Union>m\<in>set ?ns. service_paths ?D m))"
  have val: "\<forall>m\<in>set ?ns. isValidFilename m"
    using assms(2) by (simp add: names_valid_def list_all_iff services_of_def sv del: set_map)
  have h: "w_home w @ [CONFIG_FILE] \<in> ?E" by (simp add: camrc_path_def)
  have "keeps (within (w_home w) ?E) (bind (for_each (pull_service ssrv asrv pr ?D) ((n, v) # es)) (\<lambda>_.
        write_demo pr ?D (or_str (cfg_outDir config) ''.'') n))"
    by (intro within.keeps_bind pull_loop_within write_demo_within val h) auto
  then have "touches ?E (snd (clean_dir ?D w)) (snd (pullAllApisInAllServices ssrv asrv pr w))"
    unfolding pull_unfold [OF assms(1) sv] by (intro bind_snd_within clean_dir_home)
  moreover have "w_fs (snd (clean_dir ?D w)) q = None" using clean_dir_empty assms(4,5) by blast
  ultimately have "q \<in> ?E" using False unfolding touches_def by metis
  moreover have "q = ?D @ [m] \<or> q \<in> service_files ?D m" if "q \<in> service_paths ?D m" for m
    using that prefix_between [OF assms(5)] unfolding service_paths_def by blast
  ultimately show ?thesis by (auto simp: services_of_def sv)
qed simp

section \<open>The files of a service\<close>

definition formatted :: "(string \<Rightarrow> string option) \<Rightarrow> string \<Rightarrow> string" where
  "formatted pr code = (case pr code of None \<Rightarrow> code | Some f \<Rightarrow> f)"

text \<open>The namespace text and the options a list of API details gives, when none of them throws.\<close>

definition namespace_text :: "string list list \<Rightarrow> string" where
  "namespace_text nss = autoGeneratePrefix @ concat (map (\<lambda>ns. NL @ NL @ join (NL @ NL) ns) nss)"

definition generated_from :: "ApiDetail list \<Rightarrow> string \<Rightarrow> ApiOption list \<Rightarrow> bool" where
  "generated_from apis ns opts \<longleftrightarrow>
     (\<exists>rs. map generateTSCode apis = map Inr rs \<and> ns = namespace_text (map fst rs) \<and> opts = map snd rs)"

definition text_at :: "file_system \<Rightarrow> path \<Rightarrow> string \<Rightarrow> bool" where
  "text_at fs p s \<longleftrightarrow> fs p = Some (File (TextContent s))"

text \<open>Both files are there and come from the same API details, or neither is there.\<close>

definition service_consistent :: "(string \<Rightarrow> string option) \<Rightarrow> path \<Rightarrow> file_system \<Rightarrow> string \<Rightarrow> bool" where
  "service_consistent pr D fs name \<longleftrightarrow>
     (\<forall>p\<in>service_files D name. fs p = None) \<or>
     (\<exists>apis ns opts. generated_from apis ns opts \<and>
        text_at fs (D @ [name, ''namespaces.ts'']) (formatted pr ns) \<and>
        text_at fs (D @ [name, ''index.ts''])
          (formatted pr (autoGeneratePrefix @ NL @ serviceClassCode name opts)))"

lemma api_loop_Ret:
  assumes "api_loop srv name l briefs ns0 opts0 w = (Ret (ns, opts), w')"
  shows "\<exists>apis rs. map generateTSCode apis = map Inr rs \<and>
     ns = ns0 @ concat (map (\<lambda>n. NL @ NL @ join (NL @ NL) n) (map fst rs)) \<and> opts = opts0 @ map snd rs"
  using assms
proof (induction briefs arbitrary: ns0 opts0 w)
  case Nil
  then have "map generateTSCode [] = map Inr [] \<and> ns = ns0 @ concat (map (\<lambda>n. NL @ NL @ join (NL @ NL) n) (map fst [])) \<and> opts = opts0 @ map snd []"
    by (simp add: ret_def)
  then show ?case by blast
next
  case (Cons b briefs)
  from Cons.prems obtain r w1 where r: "GetApiById srv (ab_id b) (Some l) w = (Ret r, w1)"
    by (auto simp: bind_def split: prod.splits outcome.splits)
  show ?case
  proof (cases "status r = 200")
    case False
    with Cons.prems r obtain w2 where "api_loop srv name l briefs ns0 opts0 w2 = (Ret (ns, opts), w')"
      by (auto simp: bind_def console_def)
    then show ?thesis by (rule Cons.IH)
  next
    case True
    with Cons.prems r obtain d where d: "ga_api r = Some d"
      by (auto simp: bind_def throw_def split: option.splits)
    with Cons.prems r True obtain n opt where g: "generateTSCode d = Inr (n, opt)"
      and "api_loop srv name l briefs (ns0 @ NL @ NL @ join (NL @ NL) n) (opts0 @ [opt]) w1 = (Ret (ns, opts), w')"
      by (auto simp: bind_def throw_def generateNamespaceCodeByApiDetail_def split: sum.splits gen_error.splits prod.splits)
    from Cons.IH [OF this(2)] obtain apis rs where "map generateTSCode apis = map Inr rs"
      "ns = (ns0 @ NL @ NL @ join (NL @ NL) n) @ concat (map (\<lambda>n. NL @ NL @ join (NL @ NL) n) (map fst rs))"
      "opts = (opts0 @ [opt]) @ map snd rs" by blast
    with g have "map generateTSCode (d # apis) = map Inr ((n, opt) # rs) \<and>
      ns = ns0 @ concat (map (\<lambda>n. NL @ NL @ join (NL @ NL) n) (map fst ((n, opt) # rs))) \<and>
      opts = opts0 @ map snd ((n, opt) # rs)" by simp
    then show ?thesis by blast
  qed
qed

lemma fetch_service_Ret:
  assumes "fetch_service ssrv asrv name u v w = (Ret (Some (ns, opts)), w')"
  shows "\<exists>apis. generated_from apis ns opts"
proof -
  from assms obtain l apis w1 where "api_loop asrv name l apis autoGeneratePrefix [] w1 = (Ret (ns, opts), w')"
    by (auto simp: fetch_service_def Let_def bind_def console_def throw_def ret_def
        split: prod.splits outcome.splits if_splits option.splits)
  from api_loop_Ret [OF this] show ?thesis by (auto simp: generated_from_def namespace_text_def)
qed

lemma format_eq: "\<exists>ls. formatCodeByPrettier pr c w = (Ret (formatted pr c), w\<lparr>w_console := ls\<rparr>)"
proof (cases "pr c")
  case None
  then show ?thesis by (auto simp: formatCodeByPrettier_def formatted_def bind_console ret_def)
next
  case (Some f)
  then have "formatCodeByPrettier pr c w = (Ret (formatted pr c), w\<lparr>w_console := w_console w\<rparr>)"
    by (simp add: formatCodeByPrettier_def formatted_def ret_def)
  then show ?thesis by blast
qed

lemma write_service_Ret:
  assumes "write_service pr name (D @ [name]) (ns, opts) w = (Ret x, w')"
  shows "w_fs w' = (w_fs w)(D @ [name, ''namespaces.ts''] \<mapsto> File (TextContent (formatted pr ns)),
      D @ [name, ''index.ts''] \<mapsto> File (TextContent (formatted pr (autoGeneratePrefix @ NL @ serviceClassCode name opts))))"
proof -
  let ?c = "autoGeneratePrefix @ NL @ serviceClassCode name opts"
  let ?pn = "D @ [name, ''namespaces.ts'']" and ?pi = "D @ [name, ''index.ts'']"
  obtain l1 where f1: "formatCodeByPrettier pr ns w = (Ret (formatted pr ns), w\<lparr>w_console := l1\<rparr>)" using format_eq by blast
  from assms obtain w1 y where w1: "writeFileSync ?pn (TextContent (formatted pr ns)) (w\<lparr>w_console := l1\<rparr>) = (Ret y, w1)"
    by (auto simp: write_service_def bind_def f1 split: prod.splits outcome.splits)
  obtain l2 where f2: "formatCodeByPrettier pr ?c w1 = (Ret (formatted pr ?c), w1\<lparr>w_console := l2\<rparr>)" using format_eq by blast
  from assms have "writeFileSync ?pi (TextContent (formatted pr ?c)) (w1\<lparr>w_console := l2\<rparr>) = (Ret x, w')"
    by (simp add: write_service_def bind_def f1 w1 f2 [simplified])
  from writeFileSync_Ret [OF this] writeFileSync_Ret [OF w1] show ?thesis by simp
qed

lemma camrc_not_service_file: "camrc_path w \<notin> service_files D n"
  by (auto simp: camrc_path_def service_files_def CONFIG_FILE_def)

lemma camrc_only_files:
  "camrc_only w w' \<Longrightarrow> p \<in> service_files D n \<Longrightarrow> w_fs w' p = w_fs w p"
  using camrc_not_service_file [of w D n] unfolding camrc_only_def touches_def by (metis singletonD)

lemma mkdir_files: "p \<in> service_files D n \<Longrightarrow> w_fs (snd (mkdirSync (D @ [n]) w)) p = w_fs w p"
  by (auto simp: mkdirSync_def fs_mkdir_def service_files_def split: sum.splits)

text \<open>The steps of one service that is asked for: its directory, the fetch, the two files.\<close>

lemma pull_service_Ret:
  assumes "isValidFilename n" "pull_service ssrv asrv pr D (n, uv) w = (Ret x, w')"
    and "split_on CHR ''@'' uv = u # v # xs" "u \<noteq> []" "v \<noteq> []"
  obtains y w1 r w2 where
    "(if w_fs w (D @ [n]) \<noteq> None then ret () else mkdirSync (D @ [n])) w = (Ret y, w1)"
    "try_catch (fetch_service ssrv asrv n u v)
       (\<lambda>err. bind (console (ErrWith (''Failed to get service info for service '' @ n @ '': '') err)) (\<lambda>_. ret None)) w1 = (Ret r, w2)"
    "(case r of None \<Rightarrow> ret () | Some res \<Rightarrow> write_service pr n (D @ [n]) res) w2 = (Ret x, w')"
proof -
  have "bind (if w_fs w (D @ [n]) \<noteq> None then ret () else mkdirSync (D @ [n])) (\<lambda>_.
      bind (try_catch (fetch_service ssrv asrv n u v)
       (\<lambda>err. bind (console (ErrWith (''Failed to get service info for service '' @ n @ '': '') err)) (\<lambda>_. ret None)))
      (\<lambda>r. case r of None \<Rightarrow> ret () | Some res \<Rightarrow> write_service pr n (D @ [n]) res)) w = (Ret x, w')"
    using assms(2-5) unfolding pull_service_def prod.case Let_def walk_valid [OF assms(1)]
    by (simp add: bind_def [of "existsSync p" for p] existsSync_def del: append_Cons append_assoc)
  then show ?thesis by (elim bind_RetE) (rule that)
qed

lemma pull_service_skip:
  assumes "pull_service ssrv asrv pr D (n, uv) w = (Ret x, w')"
    and "\<nexists>u v xs. split_on CHR ''@'' uv = u # v # xs \<and> u \<noteq> [] \<and> v \<noteq> []"
  shows "w_fs w' = w_fs w"
proof -
  have "hd (split_on CHR ''@'' uv) = [] \<or> (case tl (split_on CHR ''@'' uv) of [] \<Rightarrow> [] | v # _ \<Rightarrow> v) = []"
    using assms(2) by (cases "split_on CHR ''@'' uv") (auto split: list.split)
  with assms(1) show ?thesis
    by (auto simp: pull_service_def Let_def console_def simp del: append_Cons append_assoc split: if_splits)
qed

lemma directory_files:
  "(if c then ret () else mkdirSync (D @ [n])) w = (Ret y, w1) \<Longrightarrow> p \<in> service_files D n \<Longrightarrow> w_fs w1 p = w_fs w p"
  using mkdir_files [of p D n w] by (auto simp: ret_def split: if_splits)

lemma pull_service_consistent:
  assumes "isValidFilename n" "pull_service ssrv asrv pr D (n, uv) w = (Ret x, w')"
    and "\<forall>p\<in>service_files D n. w_fs w p = None"
  shows "service_consistent pr D (w_fs w') n"
proof (cases "\<exists>u v xs. split_on CHR ''@'' uv = u # v # xs \<and> u \<noteq> [] \<and> v \<noteq> []")
  case False
  with pull_service_skip [OF assms(2)] assms(3) show ?thesis by (simp add: service_consistent_def)
next
  case True
  then obtain u v xs where uv: "split_on CHR ''@'' uv = u # v # xs" "u \<noteq> []" "v \<noteq> []" by blast
  show ?thesis
  proof (rule pull_service_Ret [OF assms(1,2) uv])
    fix y w1 r w2
    assume mk: "(if w_fs w (D @ [n]) \<noteq> None then ret () else mkdirSync (D @ [n])) w = (Ret y, w1)"
      and f: "try_catch (fetch_service ssrv asrv n u v)
        (\<lambda>err. bind (console (ErrWith (''Failed to get service info for service '' @ n @ '': '') err)) (\<lambda>_. ret None)) w1 = (Ret r, w2)"
      and wr: "(case r of None \<Rightarrow> ret () | Some res \<Rightarrow> write_service pr n (D @ [n]) res) w2 = (Ret x, w')"
    have none: "\<forall>p\<in>service_files D n. w_fs w2 p = None"
      using directory_files [OF mk] assms(3) camrc_only_files [OF keepsD [OF try_fetch_camrc_only f]] by simp
    show ?thesis
    proof (cases r)
      case None
      with wr none show ?thesis by (simp add: service_consistent_def ret_def)
    next
      case (Some res)
      obtain ns opts where res: "res = (ns, opts)" by (cases res)
      from f Some res have "fetch_service ssrv asrv n u v w1 = (Ret (Some (ns, opts)), w2)"
        by (auto simp: try_catch_def bind_console ret_def split: prod.splits outcome.splits)
      then obtain apis where "generated_from apis ns opts" using fetch_service_Ret by blast
      moreover have "w_fs w' = (w_fs w2)(D @ [n, ''namespaces.ts''] \<mapsto> File (TextContent (formatted pr ns)),
          D @ [n, ''index.ts''] \<mapsto> File (TextContent (formatted pr (autoGeneratePrefix @ NL @ serviceClassCode n opts))))"
        using wr Some res by (intro write_service_Ret) simp
      ultimately show ?thesis unfolding service_consistent_def text_at_def by auto
    qed
  qed
qed

text \<open>What one service's step can change leaves the files of the others alone.\<close>

lemma other_files: "m \<noteq> n \<Longrightarrow> p \<in> service_files D m \<Longrightarrow> p \<notin> service_paths D n"
  by (auto simp: service_files_def service_paths_def)

lemma files_of_others:
  assumes "p \<in> service_files D n" "n \<notin> M"
  shows "p \<notin> insert (h @ [CONFIG_FILE]) (\<Union>m\<in>M. service_paths D m)"
proof
  assume "p \<in> insert (h @ [CONFIG_FILE]) (\<Union>m\<in>M. service_paths D m)"
  moreover have "p \<noteq> h @ [CONFIG_FILE]" using assms(1) by (auto simp: service_files_def CONFIG_FILE_def)
  ultimately obtain m where "m \<in> M" "p \<in> service_paths D m" by blast
  with assms other_files [of n m p D] show False by auto
qed

lemma service_consistent_cong:
  "\<forall>p\<in>service_files D n. fs' p = fs p \<Longrightarrow> service_consistent pr D fs n \<Longrightarrow> service_consistent pr D fs' n"
  by (simp add: service_consistent_def service_files_def text_at_def)

text \<open>What holds of the files of a service when its step is done still holds at the end of the loop.\<close>

lemma for_each_files:
  assumes "for_each (pull_service ssrv asrv pr D) d w = (Ret x, w')" "distinct (obj_keys d)"
    and "\<forall>n\<in>set (obj_keys d). isValidFilename n"
    and "\<forall>n\<in>set (obj_keys d). \<forall>p\<in>service_files D n. w_fs w p = None" "I w"
    and step: "\<And>m v y v'. m \<in> set d \<Longrightarrow> pull_service ssrv asrv pr D m v = (Ret y, v') \<Longrightarrow>
      \<forall>p\<in>service_files D (fst m). w_fs v p = None \<Longrightarrow> I v \<Longrightarrow> P m v (w_fs v') \<and> I v'"
    and cong: "\<And>m v fs fs'. \<forall>p\<in>service_files D (fst m). fs' p = fs p \<Longrightarrow> P m v fs \<Longrightarrow> P m v fs'"
  shows "i < length d \<Longrightarrow> P (d ! i) (snd (for_each (pull_service ssrv asrv pr D) (take i d) w)) (w_fs w')"
  using assms(1-5) step
proof (induction d arbitrary: w i)
  case (Cons e d)
  obtain n uv where e: "e = (n, uv)" by (cases e)
  from Cons.prems(2) obtain y w1 where 1: "pull_service ssrv asrv pr D (n, uv) w = (Ret y, w1)"
    and 2: "for_each (pull_service ssrv asrv pr D) d w1 = (Ret x, w')" unfolding e for_each.simps by (elim bind_RetE)
  have n: "isValidFilename n" "n \<notin> set (obj_keys d)" using Cons.prems(3,4) by (auto simp: e)
  let ?S = "insert (w_home w @ [CONFIG_FILE]) (service_paths D n)"
  let ?T = "insert (w_home w @ [CONFIG_FILE]) (\<Union>m\<in>set (obj_keys d). service_paths D m)"
  have t1: "touches ?S w w1"
    using keepsD [OF pull_service_within [OF n(1), of D ?S "w_home w"] 1] by (auto simp: within_def)
  have "keeps (within (w_home w) ?T) (for_each (pull_service ssrv asrv pr D) d)"
    using Cons.prems(4) by (intro pull_loop_within) (auto simp: e)
  from keepsD [OF this 2] t1 have t2: "touches ?T w1 w'" by (simp add: within_def touches_def)
  have now: "P (n, uv) w (w_fs w1) \<and> I w1"
    using Cons.prems(7) [OF _ 1] Cons.prems(5,6) by (simp add: e)
  have "\<forall>p\<in>service_files D n. w_fs w' p = w_fs w1 p"
  proof
    fix p assume "p \<in> service_files D n"
    then have "p \<notin> ?T" using n(2) by (rule files_of_others)
    with t2 show "w_fs w' p = w_fs w1 p" unfolding touches_def by blast
  qed
  then have head: "P (n, uv) w (w_fs w')" using cong [of "(n, uv)" "w_fs w'" "w_fs w1" w] now by simp
  have none: "\<forall>m\<in>set (obj_keys d). \<forall>p\<in>service_files D m. w_fs w1 p = None"
  proof (intro ballI)
    fix m p assume m: "m \<in> set (obj_keys d)" and p: "p \<in> service_files D m"
    have "p \<notin> ?S" using files_of_others [OF p, of "{n}" "w_home w"] m n(2) by auto
    moreover have "w_fs w p = None" using Cons.prems(5) m p by (auto simp: e)
    ultimately show "w_fs w1 p = None" using t1 unfolding touches_def by simp
  qed
  show ?case
  proof (cases i)
    case 0
    with head show ?thesis by (simp add: e ret_def)
  next
    case (Suc k)
    have "P (d ! k) (snd (for_each (pull_service ssrv asrv pr D) (take k d) w1)) (w_fs w')"
    proof (rule Cons.IH)
      show "P m v (w_fs v') \<and> I v'" if "m \<in> set d" "pull_service ssrv asrv pr D m v = (Ret u, v')"
        "\<forall>p\<in>service_files D (fst m). w_fs v p = None" "I v" for m v u v'
        using Cons.prems(7) [of m v u v'] that by simp
    qed (use Cons.prems(1,3,4) 2 none now Suc in \<open>simp_all add: e\<close>)
    with Suc show ?thesis by (simp add: e bind_def 1)
  qed
qed simp

lemma for_each_consistent:
  assumes "for_each (pull_service ssrv asrv pr D) d w = (Ret x, w')" "distinct (obj_keys d)"
    and "\<forall>n\<in>set (obj_keys d). isValidFilename n"
    and "\<forall>n\<in>set (obj_keys d). \<forall>p\<in>service_files D n. w_fs w p = None"
  shows "\<forall>n\<in>set (obj_keys d). service_consistent pr D (w_fs w') n"
proof -
  have step: "service_consistent pr D (w_fs v') (fst m) \<and> True"
    if "m \<in> set d" "pull_service ssrv asrv pr D m v = (Ret y, v')" "\<forall>p\<in>service_files D (fst m). w_fs v p = None" for m v y v'
    using that assms(3) pull_service_consistent [of "fst m" ssrv asrv pr D "snd m"] by simp
  have "service_consistent pr D (w_fs w') (fst (d ! i))" if "i < length d" for i
    by (rule for_each_files [OF assms TrueI, where P = "\<lambda>e _ fs. service_consistent pr D fs (fst e)", OF step _ that])
      (assumption | rule service_consistent_cong)+
  then show ?thesis by (auto simp: in_set_conv_nth) (metis fst_conv)
qed

lemma demo_keeps_files:
  assumes "write_demo pr D s n w = (Ret x, w')"
  shows "\<forall>p\<in>service_files D m. w_fs w' p = w_fs w p"
proof -
  have "touches {D @ [''request-demo.ts''], w_home w @ [CONFIG_FILE]} w w'"
    using keepsD [OF write_demo_within assms, of "{D @ [''request-demo.ts''], w_home w @ [CONFIG_FILE]}" "w_home w"]
    by (simp add: within_def)
  then show ?thesis by (auto simp: touches_def service_files_def CONFIG_FILE_def)
qed

lemma pull_consistent_all:
  assumes "config_at w = Some config" "names_valid config" "distinct (obj_keys (services_of config))"
    and "services_of config \<noteq> []" "fs_ok (w_fs w)"
    and "pullAllApisInAllServices ssrv asrv pr w = (Ret x, w')"
  shows "list_all (service_consistent pr (outDir_path w config) (w_fs w')) (obj_keys (services_of config))"
proof -
  let ?D = "outDir_path w config"
  obtain n v es where sv: "cfg_services config = Some ((n, v) # es)"
    using assms(4) by (auto simp: services_of_def neq_Nil_conv split: option.splits)
  let ?d = "(n, v) # es"
  have d: "services_of config = ?d" by (simp add: services_of_def sv)
  have val: "\<forall>m\<in>set (obj_keys ?d). isValidFilename m"
    using assms(2) by (simp add: names_valid_def list_all_iff d del: set_map)
  from assms(6) obtain y z w1 w2 where 1: "clean_dir ?D w = (Ret y, w1)"
    and 2: "for_each (pull_service ssrv asrv pr ?D) ?d w1 = (Ret z, w2)"
    and 3: "write_demo pr ?D (or_str (cfg_outDir config) ''.'') n w2 = (Ret x, w')"
    unfolding pull_unfold [OF assms(1) sv] by (elim bind_RetE)
  have "\<forall>m\<in>set (obj_keys ?d). \<forall>p\<in>service_files ?D m. w_fs w1 p = None"
    using clean_dir_empty [OF assms(5), of ?D] 1 by (auto simp: service_files_def strict_prefix_def)
  with 2 assms(3) val have "\<forall>m\<in>set (obj_keys ?d). service_consistent pr ?D (w_fs w2) m"
    unfolding d by (intro for_each_consistent) auto
  moreover have "\<forall>p\<in>service_files ?D m. w_fs w' p = w_fs w2 p" for m
    by (rule demo_keeps_files [OF 3])
  ultimately show ?thesis using service_consistent_cong unfolding d list_all_iff by blast
qed

text \<open>
  C13: The two files of a service belong together: when a pull returns, each configured service
  either has no generated file, or its \<open>namespaces.ts\<close> and \<open>index.ts\<close> are the formatted texts
  generated from one and the same list of API details.
\<close>

theorem pull_consistent:
  assumes "config_at w = Some config" "names_valid config" "distinct (obj_keys (services_of config))"
    and "services_of config \<noteq> []" "fs_ok (w_fs w)"
    and "pullAllApisInAllServices ssrv asrv pr w = (Ret x, w')"
  shows "list_all (service_consistent pr (outDir_path w config) (w_fs w')) (obj_keys (services_of config))"
  by (rule pull_consistent_all [OF assms])

end
