(* ===== verification/Code_Generate_Total.thy ===== *)
theory Code_Generate_Total
  imports Code_Generate_Props
begin

text \<open>
  A pull completes: failing requests, malformed answers and a failing formatter never stop it, as long
  as the output directory can be created.
\<close>

lemma fs_write_ok:
  "fs p = Some Dir \<Longrightarrow> fs (p @ [x]) \<noteq> Some Dir \<Longrightarrow> fs_write (p @ [x]) c fs = Inr (fs(p @ [x] \<mapsto> File c))"
  by (simp add: fs_write_def)

lemma writeFileSync_ok:
  assumes "w_fs w p = Some Dir" "w_fs w (p @ [x]) \<noteq> Some Dir"
  shows "writeFileSync (p @ [x]) c w = (Ret (), w\<lparr>w_fs := (w_fs w)(p @ [x] \<mapsto> File c)\<rparr>)"
  by (simp add: writeFileSync_def fs_write_ok assms)

text \<open>The shape of the output directory while services are being written.\<close>

definition pulling :: "path \<Rightarrow> 's world \<Rightarrow> bool" where
  "pulling D w \<longleftrightarrow> fs_ok (w_fs w) \<and> w_fs w D = Some Dir \<and>
     (\<forall>n. \<not> is_file (w_fs w (D @ [n]))) \<and> (\<forall>n m. w_fs w (D @ [n, m]) \<noteq> Some Dir) \<and>
     w_fs w (D @ [''request-demo.ts'']) = None \<and> \<not> prefix D (camrc_path w)"

lemma pulling_console [simp]: "pulling D (w\<lparr>w_console := ls\<rparr>) = pulling D w"
  by (simp add: pulling_def camrc_path_def)

lemma pulling_camrc_only:
  assumes "pulling D w" "camrc_only w w'" shows "pulling D w'"
proof -
  have same: "w_fs w' p = w_fs w p" if "prefix D p" for p
  proof -
    have "p \<noteq> camrc_path w" using assms(1) that by (auto simp: pulling_def)
    then show ?thesis using assms(2) by (auto simp: camrc_only_def touches_def)
  qed
  have "camrc_path w' = camrc_path w" using assms(2) by (simp add: camrc_only_def touches_def camrc_path_def)
  then show ?thesis using assms same by (auto simp: pulling_def camrc_only_def)
qed

lemma pulling_dirs: "pulling D w \<Longrightarrow> prefix q D \<Longrightarrow> w_fs w q = Some Dir"
  using fs_ok_prefix [of "w_fs w" q D] by (cases "q = D") (auto simp: pulling_def strict_prefix_def)

lemma mkdir_pulling:
  assumes "pulling D w" "n \<noteq> ''request-demo.ts''"
  obtains w' where "mkdirSync (D @ [n]) w = (Ret (), w')" "pulling D w'" "w_fs w' (D @ [n]) = Some Dir"
proof -
  have nf: "\<not> is_file (w_fs w q)" if "prefix q (D @ [n])" for q
    using that assms(1) pulling_dirs [OF assms(1)] by (auto simp: prefix_snoc pulling_def is_file_def)
  let ?fs = "\<lambda>q. if prefix q (D @ [n]) then Some Dir else w_fs w q"
  have mk: "fs_mkdir (D @ [n]) (w_fs w) = Inr ?fs" using nf by (auto simp: fs_mkdir_def list_ex_iff)
  let ?w = "w\<lparr>w_fs := ?fs\<rparr>"
  have "fs_ok ?fs" using fs_ok_mkdir [OF _ mk] assms(1) by (simp add: pulling_def)
  then have "pulling D ?w"
    using assms by (auto simp: pulling_def camrc_path_def is_file_def)
  then show ?thesis using that [of ?w] mk by (simp add: mkdirSync_def)
qed

lemma write_pulling:
  assumes "pulling D w" "w_fs w (D @ [n]) = Some Dir"
  shows "\<exists>w'. writeFileSync (D @ [n, x]) c w = (Ret (), w') \<and> pulling D w' \<and> w_fs w' (D @ [n]) = Some Dir"
proof -
  let ?w = "w\<lparr>w_fs := (w_fs w)(D @ [n, x] \<mapsto> File c)\<rparr>"
  have nd: "w_fs w (D @ [n, x]) \<noteq> Some Dir" using assms(1) by (simp add: pulling_def)
  have wr: "writeFileSync (D @ [n, x]) c w = (Ret (), ?w)"
    using writeFileSync_ok [of w "D @ [n]" x c] assms(2) nd by simp
  have "fs_ok ((w_fs w)(D @ [n, x] \<mapsto> File c))"
    using fs_ok_write [of "w_fs w" "(D @ [n]) @ [x]" c] fs_write_ok [of "w_fs w" "D @ [n]" x c] assms nd
    by (simp add: pulling_def)
  then have "pulling D ?w" "w_fs ?w (D @ [n]) = Some Dir"
    using assms by (auto simp: pulling_def camrc_path_def)
  with wr show ?thesis by blast
qed

lemma write_service_pulling:
  assumes "pulling D w" "w_fs w (D @ [n]) = Some Dir"
  shows "\<exists>w'. write_service pr n (D @ [n]) r w = (Ret (), w') \<and> pulling D w'"
proof -
  obtain ns opts where r: "r = (ns, opts)" by (cases r)
  let ?c = "autoGeneratePrefix @ NL @ serviceClassCode n opts"
  obtain l1 where f1: "formatCodeByPrettier pr ns w = (Ret (formatted pr ns), w\<lparr>w_console := l1\<rparr>)" using format_eq by blast
  obtain w1 where w1: "writeFileSync (D @ [n, ''namespaces.ts'']) (TextContent (formatted pr ns)) (w\<lparr>w_console := l1\<rparr>) = (Ret (), w1)"
    "pulling D w1" "w_fs w1 (D @ [n]) = Some Dir"
    using write_pulling [of D "w\<lparr>w_console := l1\<rparr>" n] assms by fastforce
  obtain l2 where f2: "formatCodeByPrettier pr ?c w1 = (Ret (formatted pr ?c), w1\<lparr>w_console := l2\<rparr>)" using format_eq by blast
  obtain w2 where "writeFileSync (D @ [n, ''index.ts'']) (TextContent (formatted pr ?c)) (w1\<lparr>w_console := l2\<rparr>) = (Ret (), w2)"
    "pulling D w2"
    using write_pulling [of D "w1\<lparr>w_console := l2\<rparr>" n] w1 by fastforce
  then show ?thesis by (simp add: r write_service_def bind_def f1 w1(1) f2 [simplified])
qed

section \<open>No step throws or exits\<close>

lemma exit_free_api_loop: "exit_free (api_loop srv name l apis ns opts)"
proof (induction apis arbitrary: ns opts)
  case (Cons a apis)
  then show ?case
    by (auto simp: GetApiById_def intro!: exit_free_bind exit_free_send exit_free_basic
        split: option.splits sum.splits gen_error.splits simp del: append_Cons append_assoc)
qed (simp add: exit_free_basic)

lemma exit_free_fetch: "exit_free (fetch_service ssrv asrv name u v)"
  unfolding fetch_service_def Let_def GetServiceByUuidAndVersion_def
  by (intro exit_free_bind exit_free_send)
    (auto intro!: exit_free_bind exit_free_basic exit_free_api_loop split: option.splits simp del: append_Cons append_assoc)

lemma try_fetch_Ret:
  "\<exists>r w'. try_catch (fetch_service ssrv asrv name u v)
      (\<lambda>err. bind (console (ErrWith msg err)) (\<lambda>_. ret None)) w = (Ret r, w')"
  using exit_free_fetch [THEN exit_free_at, of ssrv asrv name u v w]
  by (cases "fetch_service ssrv asrv name u v w"; cases "fst (fetch_service ssrv asrv name u v w)")
    (auto simp: try_catch_def bind_console ret_def)

lemma pull_service_total:
  assumes "pulling D w" "isValidFilename n" "n \<noteq> ''request-demo.ts''"
  shows "\<exists>w'. pull_service ssrv asrv pr D (n, uv) w = (Ret (), w') \<and> pulling D w'"
proof -
  let ?u = "hd (split_on CHR ''@'' uv)" and ?v = "case tl (split_on CHR ''@'' uv) of [] \<Rightarrow> [] | v # _ \<Rightarrow> v"
  show ?thesis
  proof (cases "?u = [] \<or> ?v = []")
    case True
    with assms(1) show ?thesis
      by (simp add: pull_service_def console_def pulling_def camrc_path_def del: append_Cons append_assoc)
  next
    case False
    let ?mk = "if w_fs w (D @ [n]) \<noteq> None then ret () else mkdirSync (D @ [n])"
    let ?msg = "''Failed to get service info for service '' @ n @ '': ''"
    let ?fetch = "try_catch (fetch_service ssrv asrv n ?u ?v) (\<lambda>err. bind (console (ErrWith ?msg err)) (\<lambda>_. ret None))"
    let ?wr = "\<lambda>r. case r of None \<Rightarrow> ret () | Some res \<Rightarrow> write_service pr n (D @ [n]) res"
    have pull: "pull_service ssrv asrv pr D (n, uv) w = bind ?mk (\<lambda>_. bind ?fetch ?wr) w"
      using False unfolding pull_service_def prod.case Let_def walk_valid [OF assms(2)]
      by (simp add: bind_def [of "existsSync p" for p] existsSync_def del: append_Cons append_assoc)
    have "\<exists>w1. ?mk w = (Ret (), w1) \<and> pulling D w1 \<and> w_fs w1 (D @ [n]) = Some Dir"
    proof (cases "w_fs w (D @ [n])")
      case None
      then show ?thesis using mkdir_pulling [OF assms(1,3)] by auto
    next
      case (Some nd)
      moreover have "\<not> is_file (w_fs w (D @ [n]))" using assms(1) by (simp add: pulling_def)
      ultimately have "w_fs w (D @ [n]) = Some Dir" by (cases nd) (simp_all add: is_file_def)
      then show ?thesis using assms(1) by (simp add: ret_def)
    qed
    then obtain w1 where 1: "?mk w = (Ret (), w1)" "pulling D w1" "w_fs w1 (D @ [n]) = Some Dir" by blast
    obtain r w2 where 2: "?fetch w1 = (Ret r, w2)" using try_fetch_Ret by blast
    have c: "camrc_only w1 w2" by (rule keepsD [OF try_fetch_camrc_only 2])
    have p2: "pulling D w2" by (rule pulling_camrc_only [OF 1(2) c])
    have "\<not> prefix D (camrc_path w1)" using 1(2) by (simp add: pulling_def)
    then have "D @ [n] \<noteq> camrc_path w1" by (metis prefixI)
    then have "w_fs w2 (D @ [n]) = Some Dir" using c 1(3) by (auto simp: camrc_only_def touches_def)
    with p2 have "\<exists>w3. ?wr r w2 = (Ret (), w3) \<and> pulling D w3"
      using write_service_pulling [of D w2 n pr] by (cases r) (auto simp: ret_def)
    then show ?thesis unfolding pull bind_Ret [of ?mk, OF 1(1)] bind_Ret [of ?fetch, OF 2] by blast
  qed
qed

lemma pull_loop_total:
  assumes "pulling D w" "\<forall>n\<in>set (obj_keys d). isValidFilename n \<and> n \<noteq> ''request-demo.ts''"
  shows "\<exists>w'. for_each (pull_service ssrv asrv pr D) d w = (Ret (), w') \<and> pulling D w'"
  using assms
proof (induction d arbitrary: w)
  case (Cons e d)
  obtain n uv where e: "e = (n, uv)" by (cases e)
  with Cons.prems obtain w1 where "pull_service ssrv asrv pr D e w = (Ret (), w1)" "pulling D w1"
    using pull_service_total [of D w n ssrv asrv pr uv] by auto
  with Cons.IH [of w1] Cons.prems(2) show ?case by (simp add: bind_def)
qed (simp add: ret_def)

lemma clean_dir_total:
  assumes "fs_ok (w_fs w)" "D \<noteq> []" "\<forall>q. strict_prefix q D \<longrightarrow> \<not> is_file (w_fs w q)" "\<not> prefix D (camrc_path w)"
  shows "\<exists>w'. clean_dir D w = (Ret (), w') \<and> pulling D w'"
proof -
  let ?fs = "if w_fs w D \<noteq> None then fs_rm D (w_fs w) else w_fs w"
  let ?fs' = "\<lambda>q. if prefix q D then Some Dir else ?fs q"
  have ok: "fs_ok ?fs" using assms(1,2) fs_ok_rm by simp
  have none: "?fs q = None" if "prefix D q" for q
    using that fs_ok_below [OF assms(1)] by (auto simp: fs_rm_def)
  have "\<not> is_file (?fs q)" if "prefix q D" for q
  proof (cases "q = D")
    case True
    then show ?thesis using none [of D] by (simp add: is_file_def)
  next
    case False
    with that assms(3) show ?thesis by (auto simp: strict_prefix_def fs_rm_def is_file_def)
  qed
  then have mk: "fs_mkdir D ?fs = Inr ?fs'" by (auto simp: fs_mkdir_def list_ex_iff)
  have ok': "fs_ok ?fs'" by (rule fs_ok_mkdir [OF ok mk])
  have below: "?fs' (D @ x # xs) = None" for x xs
    using none [of "D @ x # xs"] by (auto simp: prefix_def)
  have "clean_dir D w = (Ret (), w\<lparr>w_fs := ?fs'\<rparr>)"
    using mk by (cases "w_fs w D = None") (simp_all add: clean_dir_def bind_def existsSync_def rmSync_def ret_def mkdirSync_def)
  moreover have "pulling D (w\<lparr>w_fs := ?fs'\<rparr>)"
    unfolding pulling_def using ok' below assms(4) by (simp add: camrc_path_def is_file_def)
  ultimately show ?thesis by blast
qed

lemma pull_total:
  assumes "config_at w = Some config" "services_of config \<noteq> []" "names_valid config"
    and "''request-demo.ts'' \<notin> set (obj_keys (services_of config))"
    and "fs_ok (w_fs w)" "outDir_path w config \<noteq> []"
    and "\<forall>q. strict_prefix q (outDir_path w config) \<longrightarrow> \<not> is_file (w_fs w q)"
    and "\<not> prefix (outDir_path w config) (camrc_path w)"
  shows "\<exists>w'. pullAllApisInAllServices ssrv asrv pr w = (Ret (), w')"
proof -
  let ?D = "outDir_path w config"
  obtain n v es where sv: "cfg_services config = Some ((n, v) # es)"
    using assms(2) by (auto simp: services_of_def neq_Nil_conv split: option.splits)
  let ?d = "(n, v) # es"
  have d: "services_of config = ?d" by (simp add: services_of_def sv)
  have val: "\<forall>m\<in>set (obj_keys ?d). isValidFilename m \<and> m \<noteq> ''request-demo.ts''"
    using assms(3,4) unfolding names_valid_def list_all_iff d by blast
  obtain w1 where 1: "clean_dir ?D w = (Ret (), w1)" "pulling ?D w1"
    using clean_dir_total [OF assms(5-8)] by blast
  obtain w2 where 2: "for_each (pull_service ssrv asrv pr ?D) ?d w1 = (Ret (), w2)" "pulling ?D w2"
    using pull_loop_total [OF 1(2) val] by blast
  have n: "n \<noteq> []" using val by (auto simp: isValidFilename_def)
  obtain ls where f: "formatCodeByPrettier pr (requestDemoCode n) w2 = (Ret (formatted pr (requestDemoCode n)), w2\<lparr>w_console := ls\<rparr>)"
    using format_eq by blast
  have "\<exists>w3. write_demo pr ?D (or_str (cfg_outDir config) ''.'') n w2 = (Ret (), w3)"
    using writeFileSync_ok [of "w2\<lparr>w_console := ls\<rparr>" ?D "''request-demo.ts''"] 2(2) n
    by (simp add: write_demo_def bind_def f console_def pulling_def)
  with 1 2 show ?thesis unfolding pull_unfold [OF assms(1) sv] by (simp add: bind_def del: for_each.simps)
qed

section \<open>What the server answers for a service\<close>

text \<open>
  The API details a service is generated from, read off the replies alone: \<open>auth\<close> adds the token to a
  request, \<open>s\<close> is the state of the server.  An API answered with another status is left out; a failed
  request, an answer without an API and one the generator throws on lose the service.
\<close>

abbreviation at_base :: "http_request \<Rightarrow> http_request" where
  "at_base req \<equiv> req\<lparr>hr_url := BASE_URL @ hr_url req\<rparr>"

definition api_request :: "int \<Rightarrow> bool \<Rightarrow> http_request" where
  "api_request i latest = get_request ''/v1/api/getApiById'' [(''api_id'', JInt i), (''is_latest'', JBool latest)]"

definition service_request :: "string \<Rightarrow> string \<Rightarrow> http_request" where
  "service_request u v =
     get_request ''/v1/service/getServiceByUuidAndVersion'' [(''service_uuid'', JStr u), (''version'', JStr v)]"

fun api_answers :: "('s, GetApiByIdResponse) endpoint \<Rightarrow> (http_request \<Rightarrow> http_request) \<Rightarrow> bool \<Rightarrow> ApiBrief list \<Rightarrow> 's
    \<Rightarrow> ApiDetail list option" where
  "api_answers srv auth latest [] s = Some []"
| "api_answers srv auth latest (b # bs) s =
     (case srv s (auth (at_base (api_request (ab_id b) latest))) of
        (Failure _ _ _, _) \<Rightarrow> None
      | (Success r, s') \<Rightarrow>
          if status r \<noteq> 200 then api_answers srv auth latest bs s'
          else (case ga_api r of None \<Rightarrow> None
                | Some d \<Rightarrow> (case generateTSCode d of Inl _ \<Rightarrow> None
                            | Inr _ \<Rightarrow> map_option ((#) d) (api_answers srv auth latest bs s'))))"

definition service_answers ::
    "('s, GetServiceByUuidAndVersionResponse) endpoint \<Rightarrow> ('s, GetApiByIdResponse) endpoint \<Rightarrow> string \<Rightarrow> string
     \<Rightarrow> (http_request \<Rightarrow> http_request) \<Rightarrow> 's \<Rightarrow> ApiDetail list option" where
  "service_answers ssrv asrv u v auth s =
     (case ssrv s (auth (at_base (service_request u v))) of
        (Failure _ _ _, _) \<Rightarrow> None
      | (Success r, s') \<Rightarrow>
          if status r \<noteq> 200 then None
          else api_answers asrv auth (gs_is_latest r) (service_apis (gs_service r)) s')"

text \<open>An entry of the configuration that is not \<open>uuid@version\<close> is not asked for.\<close>

definition entry_answers ::
    "('s, GetServiceByUuidAndVersionResponse) endpoint \<Rightarrow> ('s, GetApiByIdResponse) endpoint \<Rightarrow> string \<Rightarrow> 's world
     \<Rightarrow> ApiDetail list option" where
  "entry_answers ssrv asrv uv w =
     (case split_on CHR ''@'' uv of
        u # v # _ \<Rightarrow> (if u = [] \<or> v = [] then None else service_answers ssrv asrv u v (attach_token w) (w_server w))
      | _ \<Rightarrow> None)"

text \<open>The two files of a service, generated from these details, or none.\<close>

definition service_generated :: "(string \<Rightarrow> string option) \<Rightarrow> path \<Rightarrow> file_system \<Rightarrow> string \<Rightarrow> ApiDetail list option \<Rightarrow> bool" where
  "service_generated pr D fs name answer \<longleftrightarrow>
     (case answer of
        None \<Rightarrow> fs (D @ [name, ''namespaces.ts'']) = None \<and> fs (D @ [name, ''index.ts'']) = None
      | Some apis \<Rightarrow>
          (let rs = map (projr \<circ> generateTSCode) apis
           in text_at fs (D @ [name, ''namespaces.ts'']) (formatted pr (namespace_text (map fst rs))) \<and>
              text_at fs (D @ [name, ''index.ts''])
                (formatted pr (autoGeneratePrefix @ NL @ serviceClassCode name (map snd rs)))))"

text \<open>The world in which the pull comes to the entry number \<open>i\<close>.\<close>

definition world_before ::
    "('s, GetServiceByUuidAndVersionResponse) endpoint \<Rightarrow> ('s, GetApiByIdResponse) endpoint \<Rightarrow> (string \<Rightarrow> string option)
     \<Rightarrow> path \<Rightarrow> (string \<times> string) list \<Rightarrow> nat \<Rightarrow> 's world \<Rightarrow> 's world" where
  "world_before ssrv asrv pr D es i w =
     snd (for_each (pull_service ssrv asrv pr D) (take i es) (snd (clean_dir D w)))"

lemma attach_token_fields [simp]:
  "attach_token (w\<lparr>w_server := s\<rparr>) = attach_token w" "attach_token (w\<lparr>w_console := ls\<rparr>) = attach_token w"
  by (rule ext, simp add: attach_token_def getToken_def tm_readConfig_def camrc_path_def)+

lemma GetApiById_send: "GetApiById srv i (Some l) = send srv (api_request i l)"
  by (simp add: GetApiById_def api_request_def)

lemma GetService_send: "GetServiceByUuidAndVersion srv u v = send srv (service_request u v)"
  by (simp add: GetServiceByUuidAndVersion_def service_request_def)

lemma send_Success:
  "srv (w_server w) (attach_token w (at_base req)) = (Success x, s) \<Longrightarrow> send srv req w = (Ret x, w\<lparr>w_server := s\<rparr>)"
  by (simp add: send_def Let_def)

lemma send_Failure:
  fixes srv :: "('s, 'a) endpoint" and x :: 'a
  assumes "srv (w_server w) (attach_token w (at_base req)) = (Failure c m n, s)"
  shows "fst (send srv req w) \<noteq> Ret x"
proof -
  have "fst (on_response_error c m w') \<noteq> Ret x" for w' :: "'s world"
    by (auto simp: on_response_error_def Let_def throw_def bind_def split: prod.splits outcome.splits)
  then show ?thesis using assms by (simp add: send_def Let_def)
qed

lemma bind_not_Ret: "(\<And>x. fst (m w) \<noteq> Ret x) \<Longrightarrow> fst (bind m f w) \<noteq> Ret y"
  by (cases "m w"; cases "fst (m w)") (auto simp: bind_def)

lemma api_loop_answers:
  "case api_answers srv (attach_token w) l bs (w_server w) of
     None \<Rightarrow> (\<forall>x. fst (api_loop srv name l bs ns opts w) \<noteq> Ret x)
   | Some ds \<Rightarrow>
       fst (api_loop srv name l bs ns opts w) =
         Ret (ns @ concat (map (\<lambda>n. NL @ NL @ join (NL @ NL) n) (map (fst \<circ> projr \<circ> generateTSCode) ds)),
              opts @ map (snd \<circ> projr \<circ> generateTSCode) ds)"
proof (induction bs arbitrary: ns opts w)
  case (Cons b bs)
  obtain rep s where rep: "srv (w_server w) (attach_token w (at_base (api_request (ab_id b) l))) = (rep, s)" by fastforce
  show ?case
  proof (cases rep)
    case (Failure c m n)
    then have "\<forall>x. fst (api_loop srv name l (b # bs) ns opts w) \<noteq> Ret x"
      using send_Failure [of srv w "api_request (ab_id b) l" c m n s] rep
      by (auto simp: GetApiById_send del: notI intro!: bind_not_Ret)
    with Failure rep show ?thesis by simp
  next
    case (Success r)
    let ?w = "w\<lparr>w_server := s\<rparr>"
    have 1: "GetApiById srv (ab_id b) (Some l) w = (Ret r, ?w)"
      unfolding GetApiById_send using rep Success by (intro send_Success) simp
    show ?thesis
    proof (cases "status r = 200")
      case False
      let ?v = "?w\<lparr>w_console := w_console ?w @
        [Warn (''Failed to get api info for api '' @ ab_name b @ '' in service '' @ name @ '': '' @ message r)]\<rparr>"
      have a: "api_loop srv name l (b # bs) ns opts w = api_loop srv name l bs ns opts ?v"
        using False 1 by (simp add: bind_def console_def del: append_Cons append_assoc)
      have b: "api_answers srv (attach_token w) l (b # bs) (w_server w) = api_answers srv (attach_token ?v) l bs (w_server ?v)"
        using False rep Success by simp
      show ?thesis unfolding a b by (rule Cons.IH)
    next
      case ok: True
      show ?thesis
      proof (cases "ga_api r")
        case None
        with ok 1 rep Success show ?thesis by (simp add: bind_def throw_def)
      next
        case d: (Some d)
        show ?thesis
        proof (cases "generateTSCode d")
          case (Inl e)
          with ok 1 rep Success d show ?thesis
            by (cases e) (simp add: bind_def throw_def generateNamespaceCodeByApiDetail_def)
        next
          case (Inr g)
          obtain n opt where g: "g = (n, opt)" by (cases g)
          have "api_loop srv name l (b # bs) ns opts w =
              api_loop srv name l bs (ns @ NL @ NL @ join (NL @ NL) n) (opts @ [opt]) ?w"
            using ok 1 d Inr g by (simp add: bind_def generateNamespaceCodeByApiDetail_def)
          with Cons.IH [where w = ?w and ns = "ns @ NL @ NL @ join (NL @ NL) n" and opts = "opts @ [opt]"] ok rep Success d Inr g
          show ?thesis by (auto simp: o_def split: option.splits)
        qed
      qed
    qed
  qed
qed (simp add: ret_def)

lemma loop_answers:
  "case api_answers srv (attach_token w) l bs (w_server w) of
     None \<Rightarrow> (\<forall>x. fst (bind (api_loop srv name l bs autoGeneratePrefix []) (\<lambda>r. ret (Some r)) w) \<noteq> Ret (Some x))
   | Some ds \<Rightarrow>
       fst (bind (api_loop srv name l bs autoGeneratePrefix []) (\<lambda>r. ret (Some r)) w) =
         Ret (Some (namespace_text (map (fst \<circ> projr \<circ> generateTSCode) ds), map (snd \<circ> projr \<circ> generateTSCode) ds))"
  using api_loop_answers [of srv name l bs autoGeneratePrefix "[]" w]
  by (cases "api_loop srv name l bs autoGeneratePrefix [] w"; cases "fst (api_loop srv name l bs autoGeneratePrefix [] w)")
    (auto simp: bind_def ret_def namespace_text_def o_def split: option.splits)

lemma fetch_answers:
  "case service_answers ssrv asrv u v (attach_token w) (w_server w) of
     None \<Rightarrow> (\<forall>x. fst (fetch_service ssrv asrv name u v w) \<noteq> Ret (Some x))
   | Some ds \<Rightarrow>
       fst (fetch_service ssrv asrv name u v w) =
         Ret (Some (namespace_text (map (fst \<circ> projr \<circ> generateTSCode) ds), map (snd \<circ> projr \<circ> generateTSCode) ds))"
proof -
  obtain rep s where rep: "ssrv (w_server w) (attach_token w (at_base (service_request u v))) = (rep, s)" by fastforce
  show ?thesis
  proof (cases rep)
    case (Failure c m n)
    then have "\<forall>x. fst (fetch_service ssrv asrv name u v w) \<noteq> Ret x"
      using send_Failure [of ssrv w "service_request u v" c m n s] rep
      by (auto simp: fetch_service_def GetService_send del: notI intro!: bind_not_Ret)
    with Failure rep show ?thesis by (simp add: service_answers_def)
  next
    case (Success r)
    let ?w = "w\<lparr>w_server := s\<rparr>"
    have 1: "GetServiceByUuidAndVersion ssrv u v w = (Ret r, ?w)"
      unfolding GetService_send using rep Success by (intro send_Success) simp
    show ?thesis
    proof (cases "status r = 200")
      case False
      with 1 rep Success show ?thesis
        by (simp add: service_answers_def fetch_service_def bind_def console_def ret_def del: append_Cons append_assoc)
    next
      case True
      let ?apis = "service_apis (gs_service r)"
      let ?v = "?w\<lparr>w_console := w_console ?w @ [Log (''Service '' @ name @ '' has '' @ nat_str (length ?apis) @ '' api'' @
                        (if length ?apis = 1 then [] else ''s''))]\<rparr>"
      let ?loop = "api_loop asrv name (gs_is_latest r) ?apis autoGeneratePrefix []"
      have f: "fetch_service ssrv asrv name u v w = bind ?loop (\<lambda>r. ret (Some r)) ?v"
        using True 1
        by (simp add: fetch_service_def Let_def bind_def [of "GetServiceByUuidAndVersion _ _ _"] bind_console del: append_Cons append_assoc)
      have a: "service_answers ssrv asrv u v (attach_token w) (w_server w) =
          api_answers asrv (attach_token ?v) (gs_is_latest r) ?apis (w_server ?v)"
        using True rep Success by (simp add: service_answers_def)
      show ?thesis
        unfolding f a by (rule loop_answers)
    qed
  qed
qed

text \<open>Making the directory of a service changes neither the token nor the server.\<close>

lemma directory_session:
  assumes "pulling D w" "(if c then ret () else mkdirSync (D @ [n])) w = (Ret y, w1)"
  shows "attach_token w1 = attach_token w" "w_server w1 = w_server w"
proof -
  have "w_fs w1 (camrc_path w) = w_fs w (camrc_path w) \<and> camrc_path w1 = camrc_path w \<and> w_server w1 = w_server w"
  proof (cases c)
    case True
    with assms(2) show ?thesis by (simp add: ret_def)
  next
    case False
    have "\<not> prefix D (camrc_path w)" using assms(1) by (simp add: pulling_def)
    then have "prefix (camrc_path w) (D @ [n]) \<Longrightarrow> prefix (camrc_path w) D" by (auto simp: prefix_snoc)
    with pulling_dirs [OF assms(1)] False assms(2) show ?thesis
      by (auto simp: mkdirSync_def fs_mkdir_def camrc_path_def split: sum.splits if_splits)
  qed
  then show "attach_token w1 = attach_token w" "w_server w1 = w_server w"
    by (auto simp: attach_token_def getToken_def tm_readConfig_def fs_read_def)
qed

lemma entry_answers_skip:
  "\<nexists>u v xs. split_on CHR ''@'' uv = u # v # xs \<and> u \<noteq> [] \<and> v \<noteq> [] \<Longrightarrow> entry_answers ssrv asrv uv w = None"
  by (auto simp: entry_answers_def split: list.split)

lemma pull_service_generated:
  assumes "isValidFilename n" "pull_service ssrv asrv pr D (n, uv) w = (Ret x, w')"
    and "\<forall>p\<in>service_files D n. w_fs w p = None" "pulling D w"
  shows "service_generated pr D (w_fs w') n (entry_answers ssrv asrv uv w)"
proof (cases "\<exists>u v xs. split_on CHR ''@'' uv = u # v # xs \<and> u \<noteq> [] \<and> v \<noteq> []")
  case False
  with pull_service_skip [OF assms(2)] entry_answers_skip [of uv ssrv asrv w] assms(3) show ?thesis
    by (simp add: service_generated_def service_files_def)
next
  case True
  then obtain u v xs where uv: "split_on CHR ''@'' uv = u # v # xs" "u \<noteq> []" "v \<noteq> []" by blast
  show ?thesis
  proof (rule pull_service_Ret [OF assms(1,2) uv])
    fix y w1 r w2
    assume mk: "(if w_fs w (D @ [n]) \<noteq> None then ret () else mkdirSync (D @ [n])) w = (Ret y, w1)"
      and f: "try_catch (fetch_service ssrv asrv n u v)
        (\<lambda>err. bind (console (ErrWith (''Failed to get service info for service '' @ n @ '': '') err)) (\<lambda>_. ret None)) w1 = (Ret r, w2)"
      and wr: "(case r of None \<Rightarrow> ret () | Some res \<Rightarrow> write_service pr n (D @ [n]) res) w2 = (Ret x, w')"
    have answer: "entry_answers ssrv asrv uv w = service_answers ssrv asrv u v (attach_token w1) (w_server w1)"
      using uv directory_session [OF assms(4) mk] by (simp add: entry_answers_def)
    have none: "\<forall>p\<in>service_files D n. w_fs w2 p = None"
      using directory_files [OF mk] assms(3) camrc_only_files [OF keepsD [OF try_fetch_camrc_only f]] by simp
    have r: "r = (case fst (fetch_service ssrv asrv n u v w1) of Ret r \<Rightarrow> r | _ \<Rightarrow> None)"
      using f by (auto simp: try_catch_def bind_console ret_def split: prod.splits outcome.splits)
    show ?thesis
    proof (cases "entry_answers ssrv asrv uv w")
      case None
      then have "r = None"
        using fetch_answers [of ssrv asrv n u v w1] r unfolding answer by (cases r) (auto split: outcome.splits)
      with wr none show ?thesis by (simp add: None service_generated_def service_files_def ret_def)
    next
      case (Some ds)
      then have "r = Some (namespace_text (map (fst \<circ> projr \<circ> generateTSCode) ds), map (snd \<circ> projr \<circ> generateTSCode) ds)"
        using fetch_answers [of ssrv asrv n u v w1] r unfolding answer by simp
      with wr have "write_service pr n (D @ [n])
          (namespace_text (map (fst \<circ> projr \<circ> generateTSCode) ds), map (snd \<circ> projr \<circ> generateTSCode) ds) w2 = (Ret x, w')" by simp
      from write_service_Ret [OF this] show ?thesis by (simp add: Some service_generated_def text_at_def Let_def o_assoc)
    qed
  qed
qed

lemma service_generated_cong:
  "\<forall>p\<in>service_files D n. fs' p = fs p \<Longrightarrow> service_generated pr D fs n a \<Longrightarrow> service_generated pr D fs' n a"
  by (simp add: service_generated_def service_files_def text_at_def Let_def split: option.splits)

lemma pull_loop_generated:
  assumes "for_each (pull_service ssrv asrv pr D) d w = (Ret x, w')" "distinct (obj_keys d)"
    and "\<forall>n\<in>set (obj_keys d). isValidFilename n \<and> n \<noteq> ''request-demo.ts''"
    and "\<forall>n\<in>set (obj_keys d). \<forall>p\<in>service_files D n. w_fs w p = None" "pulling D w" "i < length d"
  shows "service_generated pr D (w_fs w') (fst (d ! i))
    (entry_answers ssrv asrv (snd (d ! i)) (snd (for_each (pull_service ssrv asrv pr D) (take i d) w)))"
proof -
  have val: "\<forall>n\<in>set (obj_keys d). isValidFilename n" using assms(3) by blast
  have step: "service_generated pr D (w_fs v') (fst m) (entry_answers ssrv asrv (snd m) v) \<and> pulling D v'"
    if m: "m \<in> set d" and p: "pull_service ssrv asrv pr D m v = (Ret y, v')"
      and none: "\<forall>p\<in>service_files D (fst m). w_fs v p = None" and I: "pulling D v" for m v y v'
  proof -
    have ok: "isValidFilename (fst m)" "fst m \<noteq> ''request-demo.ts''" using assms(3) m by auto
    have "pulling D v'" using pull_service_total [OF I ok, of ssrv asrv pr "snd m"] p by auto
    with pull_service_generated [OF ok(1), of ssrv asrv pr D "snd m" v y v'] p none I show ?thesis by simp
  qed
  show ?thesis
    by (rule for_each_files [where I = "pulling D", OF assms(1,2) val assms(4,5),
          where P = "\<lambda>e v fs. service_generated pr D fs (fst e) (entry_answers ssrv asrv (snd e) v)", OF step _ assms(6)])
      (assumption | rule service_generated_cong)+
qed

text \<open>
  C16: A pull always completes.  Whatever the server answers for any service or API, and whatever the
  formatter does, \<open>pullAllApisInAllServices\<close> returns normally, and each configured service then has
  both of its files generated from the details the server answered for its APIs when the pull came to
  it, or no file when it was skipped: an entry that is not \<open>uuid@version\<close>, a failed request, an
  answer the generator throws on.  It needs a configured service, distinct names that are valid file
  names other than \<open>request-demo.ts\<close>, and an output directory that can be created and that does not
  contain \<open>~/.camrc\<close>.
\<close>

theorem pull_completes:
  assumes "config_at w = Some config" "services_of config \<noteq> []" "names_valid config"
    and "''request-demo.ts'' \<notin> set (obj_keys (services_of config))" "distinct (obj_keys (services_of config))"
    and "fs_ok (w_fs w)" "outDir_path w config \<noteq> []"
    and "\<forall>q. strict_prefix q (outDir_path w config) \<longrightarrow> \<not> is_file (w_fs w q)"
    and "\<not> prefix (outDir_path w config) (camrc_path w)"
  shows "\<exists>w'. pullAllApisInAllServices ssrv asrv pr w = (Ret (), w') \<and>
    (let es = services_of config; D = outDir_path w config
     in list_all (\<lambda>i. service_generated pr D (w_fs w') (fst (es ! i))
          (entry_answers ssrv asrv (snd (es ! i)) (world_before ssrv asrv pr D es i w))) [0..<length es])"
proof -
  let ?D = "outDir_path w config"
  obtain w' where p: "pullAllApisInAllServices ssrv asrv pr w = (Ret (), w')"
    using pull_total [OF assms(1-4,6-9)] by blast
  obtain n v es where sv: "cfg_services config = Some ((n, v) # es)"
    using assms(2) by (auto simp: services_of_def neq_Nil_conv split: option.splits)
  let ?d = "(n, v) # es"
  have d: "services_of config = ?d" by (simp add: services_of_def sv)
  have val: "\<forall>m\<in>set (obj_keys ?d). isValidFilename m \<and> m \<noteq> ''request-demo.ts''"
    using assms(3,4) unfolding names_valid_def list_all_iff d by blast
  obtain w1 where 1: "clean_dir ?D w = (Ret (), w1)" "pulling ?D w1" using clean_dir_total [OF assms(6-9)] by blast
  from p 1 obtain z w2 where 2: "for_each (pull_service ssrv asrv pr ?D) ?d w1 = (Ret z, w2)"
    and 3: "write_demo pr ?D (or_str (cfg_outDir config) ''.'') n w2 = (Ret (), w')"
    unfolding pull_unfold [OF assms(1) sv] by (elim bind_RetE) (simp only: prod.inject)
  have none: "\<forall>m\<in>set (obj_keys ?d). \<forall>p\<in>service_files ?D m. w_fs w1 p = None"
    using clean_dir_empty [OF assms(6), of ?D] 1(1) by (auto simp: service_files_def strict_prefix_def)
  have dist: "distinct (obj_keys ?d)" using assms(5) d by simp
  have rest: "\<forall>p\<in>service_files ?D m. w_fs w' p = w_fs w2 p" for m
    by (rule demo_keeps_files [OF 3])
  have "service_generated pr ?D (w_fs w') (fst (?d ! i)) (entry_answers ssrv asrv (snd (?d ! i)) (world_before ssrv asrv pr ?D ?d i w))"
    if "i < length ?d" for i
    using service_generated_cong [OF rest pull_loop_generated [OF 2 dist val none 1(2) that]]
    by (simp only: world_before_def 1 snd_conv)
  with p show ?thesis unfolding d by (auto simp: Let_def list_all_iff)
qed

end
