(* ===== verification/Service_Config.thy ===== *)
theory Service_Config
  imports Code_Generate_Total
begin

text \<open>
  The configured services over time: \<open>cam add\<close> and \<open>cam remove\<close> keep the configuration well formed,
  and undo each other.
\<close>

section \<open>Well-formed configurations\<close>

text \<open>
  Every service has a valid directory name, its value is \<open>uuid@version\<close> with no further \<open>@\<close>, and no
  two services have the same UUID.
\<close>

definition entry_ok :: "string \<times> string \<Rightarrow> bool" where
  "entry_ok e \<longleftrightarrow> isValidFilename (fst e) \<and>
     (case split_on CHR ''@'' (snd e) of [u, v] \<Rightarrow> u \<noteq> [] \<and> v \<noteq> [] | _ \<Rightarrow> False)"

definition config_ok :: "CamConfig \<Rightarrow> bool" where
  "config_ok config \<longleftrightarrow> obj_ok (services_of config) \<and> list_all entry_ok (services_of config) \<and>
     distinct (map (uuid_of \<circ> snd) (services_of config))"

lemma config_ok_names: "config_ok config \<Longrightarrow> names_valid config"
  by (auto simp: config_ok_def names_valid_def list_all_iff entry_ok_def)

lemma config_ok_distinct: "config_ok config \<Longrightarrow> distinct (obj_keys (services_of config))"
  by (simp add: config_ok_def obj_ok_def distinct_keys_def)

lemma services_of_add [simp]:
  "services_of (add_entry name u v config) = obj_put name (u @ ''@'' @ v) (services_of config)"
  by (simp add: add_entry_def services_of_def)

lemma services_of_remove [simp]: "services_of (remove_entry name config) = map_delete name (services_of config)"
  by (simp add: remove_entry_def services_of_def)

lemma outDir_entry [simp]:
  "cfg_outDir (add_entry name u v config) = cfg_outDir config" "cfg_outDir (remove_entry name config) = cfg_outDir config"
  by (simp_all add: add_entry_def remove_entry_def)

lemma split_entry: "CHR ''@'' \<notin> set u \<Longrightarrow> CHR ''@'' \<notin> set v \<Longrightarrow> split_on CHR ''@'' (u @ ''@'' @ v) = [u, v]"
  by (simp add: split_on_append split_on_free)

lemma absent_name:
  assumes "\<not> service_present config name" "list_all entry_ok (services_of config)"
  shows "name \<notin> set (obj_keys (services_of config))"
proof
  assume "name \<in> set (obj_keys (services_of config))"
  then obtain x where x: "map_of (services_of config) name = Some x"
    by (metis keys_dom domD)
  then have "(name, x) \<in> set (services_of config)" by (rule map_of_SomeD)
  then have "x \<noteq> []" using assms(2) by (auto simp: list_all_iff entry_ok_def)
  with x assms(1) show False
    by (auto simp: service_present_def services_of_def obj_truthy_def split: option.splits)
qed

lemma distinct_map_insert:
  "distinct (map f (obj_insert k v d)) \<longleftrightarrow> distinct (map f ((k, v) # d))"
  by (induction k v d rule: obj_insert.induct) (auto simp: set_obj_insert)

lemma add_entry_ok:
  assumes "config_ok config" "\<not> service_present config name"
    and "\<not> list_ex (\<lambda>x. uuid_of x = u) (map snd (services_of config))"
    and "isValidFilename name" "u \<noteq> []" "v \<noteq> []" "CHR ''@'' \<notin> set u" "CHR ''@'' \<notin> set v"
  shows "config_ok (add_entry name u v config)"
proof -
  let ?d = "services_of config" and ?x = "u @ ''@'' @ v"
  have new: "name \<notin> set (obj_keys ?d)" using assms(1,2) by (intro absent_name) (auto simp: config_ok_def)
  then have put: "obj_put name ?x ?d = obj_insert name ?x ?d" by (simp add: obj_put_def del: set_map)
  have "entry_ok (name, ?x)" using assms(4-8) by (simp add: entry_ok_def split_entry [simplified])
  then have "list_all entry_ok (obj_insert name ?x ?d)"
    using assms(1) by (auto simp: config_ok_def list_all_iff set_obj_insert)
  moreover have "uuid_of ?x = u" using assms(7,8) by (simp add: uuid_of_def split_entry [simplified])
  then have "distinct (map (uuid_of \<circ> snd) (obj_insert name ?x ?d))"
    using assms(1,3) unfolding distinct_map_insert by (auto simp: config_ok_def list_ex_iff)
  moreover have "obj_ok (obj_insert name ?x ?d)"
    using assms(1) obj_ok_put [of ?d name ?x] unfolding put by (simp add: config_ok_def)
  ultimately show ?thesis unfolding config_ok_def services_of_add put by blast
qed

lemma remove_entry_ok: "config_ok config \<Longrightarrow> config_ok (remove_entry name config)"
  using obj_ok_delete [of "services_of config" name]
  by (auto simp: config_ok_def map_delete_def list_all_iff distinct_map_filter)

section \<open>What the commands do to the configuration file\<close>

text \<open>The configuration file is out of reach of the pull.\<close>

definition config_safe :: "'s world \<Rightarrow> CamConfig \<Rightarrow> bool" where
  "config_safe w config \<longleftrightarrow>
     \<not> prefix (outDir_path w config) (config_path w) \<and> \<not> prefix (config_path w) (outDir_path w config)"

lemma config_not_camrc: "config_path w \<noteq> camrc_path w"
  by (simp add: config_path_eq camrc_path_def CONFIG_FILE_NAME_def CONFIG_FILE_def)

lemma touches_config_at:
  assumes "touches S w w'" "config_path w \<notin> S" shows "config_at w' = config_at w"
proof -
  have "config_path w' = config_path w" using assms(1) by (simp add: touches_def config_path_def)
  then show ?thesis using assms by (simp add: config_at_def fs_read_def touches_def)
qed

lemma camrc_only_config_at: "camrc_only w w' \<Longrightarrow> config_at w' = config_at w"
  using config_not_camrc by (auto simp: camrc_only_def intro: touches_config_at)

lemma pull_keeps_config:
  assumes "config_at w = Some config" "names_valid config" "config_safe w config"
  shows "config_at (snd (pullAllApisInAllServices ssrv asrv pr w)) = Some config"
  using touches_config_at [OF pull_frame_area [OF assms(1,2)]] assms(1,3) config_not_camrc [of w]
  by (auto simp: pull_area_def config_safe_def)

lemma config_write_ok:
  assumes "config_at w = Some c" "fs_ok (w_fs w)"
  shows "writeFileSync (config_path w) (ConfigJson c') w =
    (Ret (), w\<lparr>w_fs := (w_fs w)(config_path w \<mapsto> File (ConfigJson c'))\<rparr>)"
proof -
  from assms(1) obtain x where x: "w_fs w (config_path w) = Some (File x)"
    by (auto simp: config_at_def fs_read_def split: option.splits node.splits)
  with assms(2) have "w_fs w (w_cwd w) = Some Dir" by (auto simp: fs_ok_def config_path_eq)
  with x show ?thesis unfolding config_path_eq by (intro writeFileSync_ok) simp_all
qed

lemma config_at_write [simp]:
  "config_at (w\<lparr>w_fs := (w_fs w)(config_path w \<mapsto> File (ConfigJson c))\<rparr>) = Some c"
  by (simp add: config_at_def config_path_def fs_read_def parse_config_def)

lemma config_at_console [simp]: "config_at (w\<lparr>w_console := ls\<rparr>) = config_at w"
  by (simp add: config_at_def config_path_def)

lemma outDir_path_eq:
  "w_cwd w' = w_cwd w \<Longrightarrow> cfg_outDir c' = cfg_outDir c \<Longrightarrow> outDir_path w' c' = outDir_path w c"
  by (simp add: outDir_path_def)

lemma config_safe_eq:
  "w_cwd w' = w_cwd w \<Longrightarrow> cfg_outDir c' = cfg_outDir c \<Longrightarrow> config_safe w' c' = config_safe w c"
  by (simp add: config_safe_def outDir_path_def config_path_def)

text \<open>Writing a new configuration and pulling leaves exactly that configuration, however the pull ends.\<close>

definition rewrite_and_pull ::
    "('s, GetServiceByUuidAndVersionResponse) endpoint \<Rightarrow> ('s, GetApiByIdResponse) endpoint \<Rightarrow> (string \<Rightarrow> string option)
     \<Rightarrow> CamConfig \<Rightarrow> string \<Rightarrow> ('s, unit) cmd" where
  "rewrite_and_pull ssrv asrv pr config msg =
     bind (\<lambda>w. writeFileSync (config_path w) (ConfigJson config) w) (\<lambda>_.
       bind (console (Log msg)) (\<lambda>_. pullAllApisInAllServices ssrv asrv pr))"

lemma rewrite_and_pull_config:
  assumes "config_at w = Some c" "fs_ok (w_fs w)" "names_valid c'" "config_safe w c" "cfg_outDir c' = cfg_outDir c"
  shows "config_at (snd (rewrite_and_pull ssrv asrv pr c' msg w)) = Some c'"
proof -
  let ?w = "w\<lparr>w_fs := (w_fs w)(config_path w \<mapsto> File (ConfigJson c'))\<rparr>"
  let ?v = "?w\<lparr>w_console := w_console ?w @ [Log msg]\<rparr>"
  have run: "rewrite_and_pull ssrv asrv pr c' msg w = pullAllApisInAllServices ssrv asrv pr ?v"
    by (simp add: rewrite_and_pull_def bind_def config_write_ok [OF assms(1,2)] console_def)
  have "config_at ?v = Some c'" unfolding config_at_console by (rule config_at_write)
  moreover have "config_safe ?v c'" using assms(4,5) config_safe_eq [of ?v w c' c] by simp
  ultimately show ?thesis unfolding run using assms(3) by (intro pull_keeps_config) auto
qed

lemma store_unfold:
  assumes "config_at w = Some c" "\<not> service_present c name"
    and "\<not> list_ex (\<lambda>v. uuid_of v = u) (map snd (services_of c))"
  shows "storeServiceInfo ssrv asrv pr name u v w =
    try_catch (bind (GetServiceByUuidAndVersion ssrv u v) (\<lambda>res.
        if status res \<noteq> 200 then warn_exit (if message res = [] then ''Failed to get service info'' else message res)
        else rewrite_and_pull ssrv asrv pr (add_entry name u v c) (''Service '' @ name @ '' added successfully'')))
      (\<lambda>err. bind (console (ErrWith [] err)) (\<lambda>_. exit_with 1)) w"
  unfolding storeServiceInfo_def bind_readConfig [OF assms(1)] rewrite_and_pull_def using assms(2,3) by simp

text \<open>How an outcome of a command relates to what the handler around it leaves.\<close>

lemma try_exit_config:
  "config_at (snd (try_catch m (\<lambda>err. bind (console (ErrWith x err)) (\<lambda>_. exit_with n)) w)) = config_at (snd (m w))"
  by (cases "m w"; cases "fst (m w)") (simp_all add: try_catch_def bind_console exit_with_def)

lemma try_exit_Ret:
  "fst (try_catch m (\<lambda>err. bind (console (ErrWith x err)) (\<lambda>_. exit_with n)) w) = Ret y \<longleftrightarrow> fst (m w) = Ret y"
  by (cases "m w"; cases "fst (m w)") (simp_all add: try_catch_def bind_console exit_with_def)

lemma store_config:
  assumes "config_at w = Some c" "fs_ok (w_fs w)" "config_safe w c" "config_ok c"
    and "isValidFilename name" "u \<noteq> []" "v \<noteq> []" "CHR ''@'' \<notin> set u" "CHR ''@'' \<notin> set v"
    and "storeServiceInfo ssrv asrv pr name u v w = (r, w')"
  shows "config_at w' = Some c \<and> r \<noteq> Ret () \<or>
    config_at w' = Some (add_entry name u v c) \<and> config_ok (add_entry name u v c) \<and> \<not> service_present c name"
proof (cases "service_present c name \<or> list_ex (\<lambda>x. uuid_of x = u) (map snd (services_of c))")
  case True
  have "\<exists>l. storeServiceInfo ssrv asrv pr name u v w = (Exit 1, w\<lparr>w_console := w_console w @ [Warn l]\<rparr>)"
    using True by (auto simp: storeServiceInfo_def bind_readConfig [OF assms(1)] warn_exit_def bind_console exit_with_def
        simp del: append_Cons append_assoc)
  then show ?thesis using assms(1,10) by auto
next
  case False
  then have new: "\<not> service_present c name" "\<not> list_ex (\<lambda>x. uuid_of x = u) (map snd (services_of c))" by auto
  have ok: "config_ok (add_entry name u v c)" by (rule add_entry_ok [OF assms(4) new assms(5-9)])
  let ?body = "bind (GetServiceByUuidAndVersion ssrv u v) (\<lambda>res.
        if status res \<noteq> 200 then warn_exit (if message res = [] then ''Failed to get service info'' else message res)
        else rewrite_and_pull ssrv asrv pr (add_entry name u v c) (''Service '' @ name @ '' added successfully''))"
  obtain r1 w1 where 1: "GetServiceByUuidAndVersion ssrv u v w = (r1, w1)" by fastforce
  have c1: "camrc_only w w1" by (rule keepsD [OF endpoints_camrc_only(3) 1])
  have w1: "config_at w1 = Some c" "fs_ok (w_fs w1)" "config_safe w1 c"
    using camrc_only_config_at [OF c1] c1 assms(1-3) config_safe_eq [of w1 w c c] by (auto simp: camrc_only_def touches_def)
  have eff: "config_at (snd (?body w)) = Some c \<and> fst (?body w) \<noteq> Ret () \<or>
      config_at (snd (?body w)) = Some (add_entry name u v c)"
  proof (cases r1)
    case (Ret res)
    then show ?thesis
      using 1 w1 rewrite_and_pull_config [OF w1(1,2) config_ok_names [OF ok] w1(3)]
      by (auto simp: bind_def warn_exit_def console_def exit_with_def simp del: append_Cons append_assoc)
  qed (use 1 w1 in \<open>simp_all add: bind_def\<close>)
  have run: "r = fst (storeServiceInfo ssrv asrv pr name u v w)" "w' = snd (storeServiceInfo ssrv asrv pr name u v w)"
    using assms(10) by auto
  show ?thesis using eff new ok
    unfolding run store_unfold [OF assms(1) new] try_exit_config try_exit_Ret by blast
qed

lemma remove_unfold:
  assumes "config_at w = Some c" "service_present c name"
  shows "removeService ssrv asrv pr name w =
    try_catch (rewrite_and_pull ssrv asrv pr (remove_entry name c) (''Successfully removed service '' @ name))
      (\<lambda>err. bind (console (ErrWith (''Failed to remove service '' @ name @ '':'') err)) (\<lambda>_. exit_with 1)) w"
  unfolding removeService_def bind_readConfig [OF assms(1)] rewrite_and_pull_def using assms(2) by simp

lemma names_valid_remove: "names_valid c \<Longrightarrow> names_valid (remove_entry name c)"
  by (auto simp: names_valid_def list_all_iff keys_map_delete simp del: set_map)

lemma remove_config:
  assumes "config_at w = Some c" "fs_ok (w_fs w)" "config_safe w c" "names_valid c"
  shows "config_at (snd (removeService ssrv asrv pr name w)) =
    Some (if service_present c name then remove_entry name c else c)"
proof (cases "service_present c name")
  case True
  then show ?thesis
    using rewrite_and_pull_config [OF assms(1,2) names_valid_remove [OF assms(4)] assms(3)]
    unfolding remove_unfold [OF assms(1) True] try_exit_config by simp
next
  case False
  then show ?thesis
    using assms(1) by (simp add: removeService_def bind_readConfig [OF assms(1)] warn_exit_def bind_console exit_with_def)
qed

lemma delete_absent: "name \<notin> set (obj_keys d) \<Longrightarrow> map_delete name d = d"
  by (induction d) (auto simp: map_delete_def)

lemma delete_insert: "name \<notin> set (obj_keys d) \<Longrightarrow> map_delete name (obj_insert name x d) = d"
proof (induction name x d rule: obj_insert.induct)
  case (2 k v a b d)
  then show ?case using delete_absent [of k d] by (auto simp: map_delete_def)
qed (simp add: map_delete_def)

lemma delete_put: "name \<notin> set (obj_keys d) \<Longrightarrow> map_delete name (obj_put name x d) = d"
  by (simp add: obj_put_def delete_insert del: set_map)

section \<open>The file tree stays a tree\<close>

definition tree_ok :: "'s world \<Rightarrow> 's world \<Rightarrow> bool" where
  "tree_ok w w' \<longleftrightarrow> w_cwd w' = w_cwd w \<and> (fs_ok (w_fs w) \<longrightarrow> fs_ok (w_fs w'))"

interpretation tree: world_preorder tree_ok
  by unfold_locales (auto simp: tree_ok_def)

lemma tree_write: "keeps tree_ok (writeFileSync p c)"
  by (auto simp: keeps_def tree_ok_def writeFileSync_def split: sum.splits dest: fs_ok_write)

lemma tree_mkdir: "keeps tree_ok (mkdirSync p)"
  by (auto simp: keeps_def tree_ok_def mkdirSync_def split: sum.splits dest: fs_ok_mkdir)

lemma tree_rm: "p \<noteq> [] \<Longrightarrow> keeps tree_ok (rmSync p)"
  by (auto simp: keeps_def tree_ok_def rmSync_def fs_ok_rm)

lemma tree_camrc: "keeps camrc_only m \<Longrightarrow> keeps tree_ok m"
  by (auto simp: keeps_def camrc_only_def tree_ok_def touches_def)

lemma tree_pull_service: "keeps tree_ok (pull_service ssrv asrv pr D e)"
proof -
  have m: "keeps tree_ok (if b then ret () else mkdirSync q)" for b q by (simp add: tree.keeps_ret tree_mkdir)
  have "keeps tree_ok (write_service pr n q (ns, opts))" for n q ns opts
    unfolding write_service_def prod.case by (intro tree.keeps_bind tree_write tree_camrc [OF format_camrc_only])
  then have r: "keeps tree_ok (case r of None \<Rightarrow> ret () | Some res \<Rightarrow> write_service pr n q res)" for r n q
    by (cases r) (auto simp: tree.keeps_ret split: prod.splits)
  show ?thesis
    unfolding pull_service_def Let_def
    by (cases e) (simp only: prod.case, intro tree.keeps_if tree.keeps_bind tree.keeps_console tree.keeps_reads m r
        tree_camrc [OF try_fetch_camrc_only])
qed

lemma tree_pull:
  assumes "config_at w = Some c" "outDir_path w c \<noteq> []"
  shows "tree_ok w (snd (pullAllApisInAllServices ssrv asrv pr w))"
proof (cases "services_of c")
  case Nil
  from pull_no_services [OF assms(1) this, of ssrv asrv pr] show ?thesis by (auto simp: tree_ok_def)
next
  case (Cons e es)
  obtain n v where "e = (n, v)" by (cases e)
  with Cons have sv: "cfg_services c = Some ((n, v) # es)" by (auto simp: services_of_def split: option.splits)
  have "keeps tree_ok (clean_dir (outDir_path w c))" unfolding clean_dir_def
    by (intro tree.keeps_bind tree.keeps_reads tree.keeps_if tree.keeps_ret tree_mkdir tree_rm assms(2))
  moreover have "keeps tree_ok (write_demo pr D x n)" for D x unfolding write_demo_def
    by (intro tree.keeps_if tree.keeps_bind tree.keeps_exit tree.keeps_console tree_write tree_camrc [OF format_camrc_only])
  ultimately have "keeps tree_ok (bind (clean_dir (outDir_path w c)) (\<lambda>_.
      bind (for_each (pull_service ssrv asrv pr D) ((n, v) # es)) (\<lambda>_. write_demo pr D x n)))" for D x
    by (intro tree.keeps_bind tree.keeps_for_each tree_pull_service)
  from keeps_at [OF this] show ?thesis unfolding pull_unfold [OF assms(1) sv] .
qed

lemma tree_rewrite_and_pull:
  assumes "config_at w = Some c" "fs_ok (w_fs w)" "outDir_path w c' \<noteq> []"
  shows "tree_ok w (snd (rewrite_and_pull ssrv asrv pr c' msg w))"
proof -
  let ?w = "w\<lparr>w_fs := (w_fs w)(config_path w \<mapsto> File (ConfigJson c'))\<rparr>"
  let ?v = "?w\<lparr>w_console := w_console ?w @ [Log msg]\<rparr>"
  have run: "rewrite_and_pull ssrv asrv pr c' msg w = pullAllApisInAllServices ssrv asrv pr ?v"
    by (simp add: rewrite_and_pull_def bind_def config_write_ok [OF assms(1,2)] console_def)
  have "tree_ok w ?w" using keepsD [OF tree_write config_write_ok [OF assms(1,2)]] .
  moreover have "tree_ok ?w ?v" by (rule tree.R_console)
  moreover have "config_at ?v = Some c'" unfolding config_at_console by (rule config_at_write)
  then have "tree_ok ?v (snd (rewrite_and_pull ssrv asrv pr c' msg w))"
    unfolding run using assms(3) by (intro tree_pull) (simp_all add: outDir_path_def)
  ultimately show ?thesis by (blast intro: tree.R_trans)
qed

lemma safe_not_root: "config_safe w c \<Longrightarrow> outDir_path w c \<noteq> []"
  by (auto simp: config_safe_def)

lemma tree_try_exit:
  "tree_ok w (snd (m w)) \<Longrightarrow> tree_ok w (snd (try_catch m (\<lambda>err. bind (console (ErrWith x err)) (\<lambda>_. exit_with n)) w))"
  by (cases "m w"; cases "fst (m w)") (simp_all add: try_catch_def bind_console exit_with_def tree_ok_def)

lemma store_tree:
  assumes "config_at w = Some c" "fs_ok (w_fs w)" "config_safe w c"
  shows "tree_ok w (snd (storeServiceInfo ssrv asrv pr name u v w))"
proof (cases "service_present c name \<or> list_ex (\<lambda>x. uuid_of x = u) (map snd (services_of c))")
  case True
  then show ?thesis
    by (auto simp: storeServiceInfo_def bind_readConfig [OF assms(1)] warn_exit_def bind_console exit_with_def tree_ok_def
        simp del: append_Cons append_assoc)
next
  case False
  then have new: "\<not> service_present c name" "\<not> list_ex (\<lambda>x. uuid_of x = u) (map snd (services_of c))" by auto
  let ?c = "add_entry name u v c"
  obtain r1 w1 where 1: "GetServiceByUuidAndVersion ssrv u v w = (r1, w1)" by fastforce
  have c1: "camrc_only w w1" by (rule keepsD [OF endpoints_camrc_only(3) 1])
  have w1: "config_at w1 = Some c" "fs_ok (w_fs w1)" "outDir_path w1 ?c \<noteq> []" "tree_ok w w1"
    using camrc_only_config_at [OF c1] c1 assms(1,2) safe_not_root [OF assms(3)] outDir_path_eq [of w1 w ?c c]
    by (auto simp: camrc_only_def touches_def tree_ok_def)
  show ?thesis unfolding store_unfold [OF assms(1) new]
  proof (rule tree_try_exit)
    show "tree_ok w (snd (bind (GetServiceByUuidAndVersion ssrv u v) (\<lambda>res.
        if status res \<noteq> 200 then warn_exit (if message res = [] then ''Failed to get service info'' else message res)
        else rewrite_and_pull ssrv asrv pr ?c (''Service '' @ name @ '' added successfully'')) w))"
    proof (cases r1)
      case (Ret res)
      have "tree_ok w1 (snd (rewrite_and_pull ssrv asrv pr ?c msg w1))" for msg
        by (rule tree_rewrite_and_pull [OF w1(1-3)])
      then show ?thesis using 1 Ret w1(4) tree.R_trans [OF w1(4)]
        by (simp add: bind_def warn_exit_def console_def exit_with_def del: append_Cons append_assoc)
          (simp add: tree_ok_def)
    qed (use 1 w1(4) in \<open>simp_all add: bind_def\<close>)
  qed
qed

lemma remove_tree:
  assumes "config_at w = Some c" "fs_ok (w_fs w)" "config_safe w c"
  shows "tree_ok w (snd (removeService ssrv asrv pr name w))"
proof (cases "service_present c name")
  case True
  then show ?thesis unfolding remove_unfold [OF assms(1) True]
    using safe_not_root [OF assms(3)] outDir_path_eq [of w w "remove_entry name c" c]
    by (intro tree_try_exit tree_rewrite_and_pull [OF assms(1,2)]) simp
next
  case False
  then show ?thesis
    by (simp add: removeService_def bind_readConfig [OF assms(1)] warn_exit_def bind_console exit_with_def tree_ok_def)
qed

section \<open>A concrete project\<close>

definition demo_config :: CamConfig where
  "demo_config = \<lparr>cfg_services = Some [(''user'', ''u-1@latest'')], cfg_outDir = Some ''gen'', cfg_generateConfig = Some []\<rparr>"

definition demo_world :: "unit world" where
  "demo_world = \<lparr>w_fs = map_of
      [([], Dir), ([''proj''], Dir), ([''home''], Dir),
       ([''proj'', ''cam.config.json''], File (ConfigJson demo_config)),
       ([''home'', ''.camrc''], File (CamrcJson \<lparr>rc_token = Some ''tok'', rc_user = None\<rparr>))],
     w_cwd = [''proj''], w_home = [''home''], w_console = [], w_server = ()\<rparr>"

definition demo_service :: GetServiceByUuidAndVersionResponse where
  "demo_service = \<lparr>status = 200, message = [],
     gs_service = IterationInfo \<lparr>it_id = 22, it_service_id = 3, it_version = Some ''1.0.0'', it_description = None,
       it_is_committed = True, it_service = None,
       it_creator = \<lparr>u_id = 2, u_username = ''bob'', u_nickname = ''Bob'', u_email = ''b@c.de'', u_role = ''qa'',
         u_level = 1, u_created_at = []\<rparr>,
       it_api_drafts = Some [ApiBrief.truncate demo_api]\<rparr>,
     gs_is_latest = False\<rparr>"

definition demo_ssrv :: "(unit, GetServiceByUuidAndVersionResponse) endpoint" where
  "demo_ssrv s r = (Success demo_service, s)"

definition demo_asrv :: "(unit, GetApiByIdResponse) endpoint" where
  "demo_asrv s r = (Success \<lparr>status = 200, message = [], ga_api = Some demo_api\<rparr>, s)"

lemma demo_config_path: "config_path demo_world = [''proj'', ''cam.config.json'']"
  by (simp add: config_path_eq demo_world_def CONFIG_FILE_NAME_def)

lemma demo_camrc_path: "camrc_path demo_world = [''home'', ''.camrc'']"
  by (simp add: camrc_path_def demo_world_def CONFIG_FILE_def)

lemma demo_config_at: "config_at demo_world = Some demo_config"
  unfolding config_at_def demo_config_path fs_read_def by (simp add: demo_world_def parse_config_def)

lemma demo_outDir: "outDir_path demo_world demo_config = [''proj'', ''gen'']"
  by (simp add: outDir_path_def demo_config_def demo_world_def resolve_def walk_def enter_def)

lemma demo_services: "services_of demo_config = [(''user'', ''u-1@latest'')]"
  by (simp add: services_of_def demo_config_def)

lemma demo_valid_names: "isValidFilename ''user''" "isValidFilename ''order''"
  by (simp_all add: isValidFilename_def invalid_filename_char_def)

lemma demo_config_ok: "config_ok demo_config"
  using demo_valid_names
  by (simp add: config_ok_def demo_services obj_ok_def distinct_keys_def entry_ok_def)

lemma demo_fs_ok: "fs_ok (w_fs demo_world)"
  by (auto simp: fs_ok_def demo_world_def append_eq_Cons_conv split: if_splits)

lemma demo_safe: "config_safe demo_world demo_config"
  by (simp add: config_safe_def demo_outDir demo_config_path)

lemmas demo_facts = demo_config_at demo_fs_ok demo_safe demo_config_ok

lemma demo_names: "names_valid demo_config"
  by (rule config_ok_names [OF demo_config_ok])

section \<open>Results\<close>

text \<open>
  \<open>cam add\<close> keeps the configuration well formed on every outcome (success, refused name or UUID,
  failed request, failed generation, process exit): afterwards the file holds the old configuration
  or the old one with exactly the new entry, which is well formed; and when the command returns
  normally the entry was new and is there.
\<close>

theorem add_keeps_config_ok:
  assumes "config_at w = Some c" "fs_ok (w_fs w)" "config_safe w c" "config_ok c"
    and "isValidFilename name" "u \<noteq> []" "v \<noteq> []" "CHR ''@'' \<notin> set u" "CHR ''@'' \<notin> set v"
    and "storeServiceInfo ssrv asrv pr name u v w = (r, w')"
  shows "\<exists>c'. config_at w' = Some c' \<and> config_ok c' \<and> (c' = c \<or> c' = add_entry name u v c) \<and>
    (r = Ret () \<longrightarrow> c' = add_entry name u v c \<and> \<not> service_present c name)"
  using store_config [OF assms] assms(4) by auto

theorem add_keeps_config_ok_witness:
  "\<exists>c'. config_at (snd (storeServiceInfo demo_ssrv demo_asrv Some ''order'' ''u-2'' ''1.0.0'' demo_world)) = Some c' \<and> config_ok c'"
proof -
  obtain r w' where s: "storeServiceInfo demo_ssrv demo_asrv Some ''order'' ''u-2'' ''1.0.0'' demo_world = (r, w')" by fastforce
  show ?thesis
    using add_keeps_config_ok [OF demo_facts demo_valid_names(2) _ _ _ _ s] unfolding s by auto
qed

text \<open>
  \<open>cam remove\<close> keeps the configuration well formed and removes exactly the named entry: however
  the regeneration that follows ends, the file holds the old configuration without that entry, and
  an unknown name changes nothing.
\<close>

theorem remove_keeps_config_ok:
  assumes "config_at w = Some c" "fs_ok (w_fs w)" "config_safe w c" "config_ok c"
  shows "\<exists>c'. config_at (snd (removeService ssrv asrv pr name w)) = Some c' \<and> config_ok c' \<and>
    map_of (services_of c') = (map_of (services_of c))(name := None)"
proof (cases "service_present c name")
  case True
  then show ?thesis
    using remove_config [OF assms(1-3) config_ok_names [OF assms(4)]] remove_entry_ok [OF assms(4)] by simp
next
  case False
  then have "map_of (services_of c) name = None"
    using absent_name [OF False] assms(4) by (simp add: config_ok_def map_of_eq_None_iff)
  with False show ?thesis
    using remove_config [OF assms(1-3) config_ok_names [OF assms(4)]] assms(4) by (simp add: fun_upd_idem)
qed

theorem remove_keeps_config_ok_witness:
  "\<exists>c'. config_at (snd (removeService demo_ssrv demo_asrv Some ''user'' demo_world)) = Some c' \<and> config_ok c' \<and>
    map_of (services_of c') = (map_of (services_of demo_config))(''user'' := None)"
  by (rule remove_keeps_config_ok [OF demo_facts])

text \<open>
  C22: Removing undoes adding: after a successful \<open>cam add\<close>, \<open>cam remove\<close> of the same name leaves the
  very list of services that was configured before, in the same order, and the same output directory.
\<close>

theorem add_remove_roundtrip:
  assumes "config_at w = Some c" "fs_ok (w_fs w)" "config_safe w c" "config_ok c"
    and "isValidFilename name" "u \<noteq> []" "v \<noteq> []" "CHR ''@'' \<notin> set u" "CHR ''@'' \<notin> set v"
    and "storeServiceInfo ssrv asrv pr name u v w = (Ret (), w')"
  shows "\<exists>c'. config_at (snd (removeService ssrv asrv pr name w')) = Some c' \<and>
    services_of c' = services_of c \<and> cfg_outDir c' = cfg_outDir c"
proof -
  let ?c = "add_entry name u v c"
  from store_config [OF assms(1-10)] have c: "config_at w' = Some ?c" "config_ok ?c" "\<not> service_present c name" by auto
  have new: "name \<notin> set (obj_keys (services_of c))"
    using absent_name [OF c(3)] assms(4) by (simp add: config_ok_def)
  have t: "w_cwd w' = w_cwd w" "fs_ok (w_fs w')"
    using store_tree [OF assms(1-3), of ssrv asrv pr name u v] assms(2,10) by (auto simp: tree_ok_def)
  have "service_present ?c name" by (simp add: service_present_def add_entry_def obj_truthy_def)
  moreover have "config_safe w' ?c" using assms(3) t(1) config_safe_eq [of w' w ?c c] by simp
  ultimately have "config_at (snd (removeService ssrv asrv pr name w')) = Some (remove_entry name ?c)"
    using remove_config [OF c(1) t(2) _ config_ok_names [OF c(2)]] by simp
  then show ?thesis using new by (simp add: delete_put del: set_map)
qed

lemma demo_get_service: "GetServiceByUuidAndVersion demo_ssrv u v w = (Ret demo_service, w)"
  by (simp add: GetServiceByUuidAndVersion_def send_def demo_ssrv_def Let_def)

lemma strict_prefix_pair: "strict_prefix q [a, b] \<longleftrightarrow> q = [] \<or> q = [a]"
  by (cases q rule: rev_cases) (auto simp: strict_prefix_def prefix_Cons)

lemma demo_store: "\<exists>w'. storeServiceInfo demo_ssrv demo_asrv Some ''order'' ''u-2'' ''1.0.0'' demo_world = (Ret (), w')"
proof -
  let ?c = "add_entry ''order'' ''u-2'' ''1.0.0'' demo_config" and ?msg = "''Service order added successfully''"
  let ?w = "demo_world\<lparr>w_fs := (w_fs demo_world)(config_path demo_world \<mapsto> File (ConfigJson ?c))\<rparr>"
  let ?v = "?w\<lparr>w_console := w_console ?w @ [Log ?msg]\<rparr>"
  have new: "\<not> service_present demo_config ''order''"
    "\<not> list_ex (\<lambda>x. uuid_of x = ''u-2'') (map snd (services_of demo_config))"
    by (simp_all add: demo_config_def service_present_def services_of_def obj_truthy_def object_prototype_members_def uuid_of_def)
  have "config_ok ?c" using add_entry_ok [OF demo_config_ok new demo_valid_names(2)] by simp
  then have nv: "names_valid ?c" by (rule config_ok_names)
  have sv: "services_of ?c = [(''user'', ''u-1@latest''), (''order'', ''u-2@1.0.0'')]"
    by (simp add: demo_services obj_put_def is_index_def all_digits_def is_digit_def)
  have D: "outDir_path ?v ?c = [''proj'', ''gen'']" using demo_outDir by (simp add: outDir_path_def)
  have "config_at ?v = Some ?c" unfolding config_at_console by (rule config_at_write)
  moreover have "tree_ok demo_world ?w" by (rule keepsD [OF tree_write config_write_ok [OF demo_config_at demo_fs_ok]])
  then have "fs_ok (w_fs ?v)" using demo_fs_ok by (simp add: tree_ok_def)
  moreover have "\<forall>q. strict_prefix q (outDir_path ?v ?c) \<longrightarrow> \<not> is_file (w_fs ?v q)"
    unfolding D strict_prefix_pair using demo_config_path by (auto simp: is_file_def demo_world_def)
  moreover have "\<not> prefix (outDir_path ?v ?c) (camrc_path ?v)"
    unfolding D using demo_camrc_path by (simp add: camrc_path_def)
  ultimately obtain w' where "pullAllApisInAllServices demo_ssrv demo_asrv Some ?v = (Ret (), w')"
    using pull_total [of ?v ?c demo_ssrv demo_asrv Some] nv D sv by auto
  then have "rewrite_and_pull demo_ssrv demo_asrv Some ?c ?msg demo_world = (Ret (), w')"
    by (simp add: rewrite_and_pull_def bind_def config_write_ok [OF demo_config_at demo_fs_ok] console_def)
  then have "storeServiceInfo demo_ssrv demo_asrv Some ''order'' ''u-2'' ''1.0.0'' demo_world = (Ret (), w')"
    unfolding store_unfold [OF demo_config_at new] by (simp add: try_catch_def bind_def demo_get_service demo_service_def)
  then show ?thesis by blast
qed

theorem add_remove_roundtrip_witness:
  "\<exists>c'. config_at (snd (removeService demo_ssrv demo_asrv Some ''order''
      (snd (storeServiceInfo demo_ssrv demo_asrv Some ''order'' ''u-2'' ''1.0.0'' demo_world)))) = Some c' \<and>
    services_of c' = services_of demo_config \<and> cfg_outDir c' = cfg_outDir demo_config"
proof -
  obtain w' where s: "storeServiceInfo demo_ssrv demo_asrv Some ''order'' ''u-2'' ''1.0.0'' demo_world = (Ret (), w')"
    using demo_store by blast
  show ?thesis using add_remove_roundtrip [OF demo_facts demo_valid_names(2) _ _ _ _ s] unfolding s by simp
qed

text \<open>
  Removing the last service ends with exit code 1 and leaves the generated code behind: the entry
  is deleted from the configuration, then the pull refuses to run without services, so no file but
  the configuration changes and the output directory still holds the removed service.
\<close>

theorem remove_last_service:
  assumes "config_at w = Some c" "fs_ok (w_fs w)" "services_of c = [(name, x)]" "x \<noteq> []"
    and "removeService ssrv asrv pr name w = (r, w')"
  shows "r = Exit 1 \<and> touches {config_path w} w w' \<and> (\<exists>c'. config_at w' = Some c' \<and> services_of c' = [])"
proof -
  let ?c = "remove_entry name c" and ?msg = "''Successfully removed service '' @ name"
  let ?w = "w\<lparr>w_fs := (w_fs w)(config_path w \<mapsto> File (ConfigJson ?c))\<rparr>"
  let ?v = "?w\<lparr>w_console := w_console ?w @ [Log ?msg]\<rparr>"
  have p: "service_present c name"
    using assms(3,4) by (auto simp: service_present_def services_of_def obj_truthy_def split: option.splits)
  have sv: "services_of ?c = []" by (simp add: assms(3) map_delete_def)
  have at: "config_at ?v = Some ?c" unfolding config_at_console by (rule config_at_write)
  from pull_no_services [OF at sv] obtain l where
    pull: "pullAllApisInAllServices ssrv asrv pr ?v = (Exit 1, ?v\<lparr>w_console := w_console ?v @ [Warn l]\<rparr>)" by blast
  have run: "rewrite_and_pull ssrv asrv pr ?c ?msg w = pullAllApisInAllServices ssrv asrv pr ?v"
    by (simp add: rewrite_and_pull_def bind_def config_write_ok [OF assms(1,2)] console_def)
  have "removeService ssrv asrv pr name w = (Exit 1, ?v\<lparr>w_console := w_console ?v @ [Warn l]\<rparr>)"
    unfolding remove_unfold [OF assms(1) p] try_catch_def run pull by simp
  then have "r = Exit 1" "w' = ?v\<lparr>w_console := w_console ?v @ [Warn l]\<rparr>" using assms(5) by auto
  moreover have "config_at (?v\<lparr>w_console := w_console ?v @ [Warn l]\<rparr>) = Some ?c" unfolding config_at_console by (rule config_at_write)
  ultimately show ?thesis using sv by (auto simp: touches_def)
qed

theorem remove_last_service_witness:
  "fst (removeService demo_ssrv demo_asrv Some ''user'' demo_world) = Exit 1"
proof -
  obtain r w' where s: "removeService demo_ssrv demo_asrv Some ''user'' demo_world = (r, w')" by fastforce
  from remove_last_service [OF demo_config_at demo_fs_ok demo_services _ s] show ?thesis unfolding s by simp
qed

section \<open>The pull on the concrete project\<close>

theorem pull_frame_witness:
  "touches (pull_area demo_world [''proj'', ''gen'']) demo_world
     (snd (pullAllApisInAllServices demo_ssrv demo_asrv Some demo_world))"
  using pull_frame [OF demo_config_at demo_names] unfolding demo_outDir .

theorem pull_no_stale_files_witness:
  "w_fs (snd (pullAllApisInAllServices demo_ssrv demo_asrv Some demo_world)) [''proj'', ''gen'', ''old.ts''] = None"
  using pull_no_stale_files [OF demo_config_at demo_names _ demo_fs_ok, of "[''proj'', ''gen'', ''old.ts'']" demo_ssrv demo_asrv Some]
  by (simp add: demo_outDir demo_services demo_camrc_path service_files_def strict_prefix_def)

lemma demo_no_file_above: "\<forall>q. strict_prefix q (outDir_path demo_world demo_config) \<longrightarrow> \<not> is_file (w_fs demo_world q)"
  unfolding demo_outDir strict_prefix_pair by (auto simp: is_file_def demo_world_def)

theorem pull_completes_witness:
  "\<exists>w'. pullAllApisInAllServices demo_ssrv demo_asrv Some demo_world = (Ret (), w') \<and>
    service_generated Some [''proj'', ''gen''] (w_fs w') ''user''
      (entry_answers demo_ssrv demo_asrv ''u-1@latest''
        (world_before demo_ssrv demo_asrv Some [''proj'', ''gen''] [(''user'', ''u-1@latest'')] 0 demo_world))"
  using pull_completes [OF demo_config_at _ demo_names _ _ demo_fs_ok _ demo_no_file_above, of demo_ssrv demo_asrv Some]
  by (simp add: demo_services demo_outDir demo_camrc_path Let_def)

lemma demo_pull: "\<exists>w'. pullAllApisInAllServices demo_ssrv demo_asrv Some demo_world = (Ret (), w')"
  by (rule pull_total [OF demo_config_at _ demo_names _ demo_fs_ok _ demo_no_file_above])
    (simp_all add: demo_services demo_outDir demo_camrc_path)

theorem pull_consistent_witness:
  "service_consistent Some [''proj'', ''gen'']
     (w_fs (snd (pullAllApisInAllServices demo_ssrv demo_asrv Some demo_world))) ''user''"
proof -
  obtain w' where p: "pullAllApisInAllServices demo_ssrv demo_asrv Some demo_world = (Ret (), w')" using demo_pull by blast
  show ?thesis
    using pull_consistent [OF demo_config_at demo_names _ _ demo_fs_ok p] unfolding p by (simp add: demo_services demo_outDir)
qed

end
