(* ===== verification/Cli_Commands.thy ===== *)
theory Cli_Commands
  imports Service_Config
begin

text \<open>
  The commands of \<open>cam-fe-code-generator/src/cli\<close> and \<open>loginRequired\<close> of \<open>utils/utils.ts\<close>, and the tool
  as a state machine: any sequence of commands keeps the configuration well formed.

  The interactive prompt, the table printer and the command-line parser are third-party packages:
  the prompt's answers and the rendering of the table are parameters, and a command is what the
  parser calls.
\<close>

section \<open>Session commands\<close>

definition validate_username :: "string \<Rightarrow> string option" where
  "validate_username input = (if length input > 0 then None else Some ''Username is required'')"

definition validate_password :: "string \<Rightarrow> string option" where
  "validate_password input = (if length input > 0 then None else Some ''Password is required'')"

definition store_profile :: "UserProfile option \<Rightarrow> ('s, unit) cmd" where
  "store_profile user =
     (case user of
        None \<Rightarrow> bind (\<lambda>w. tm_write ((tm_readConfig w)\<lparr>rc_user := None\<rparr>) w) (\<lambda>_. throw (TypeError ''nickname''))
      | Some u \<Rightarrow> bind (setUser (StoredUser u)) (\<lambda>_.
          console (Log (''Logged in as '' @ u_nickname u @ '' ('' @ u_username u @ '') - '' @ u_email u))))"

text \<open>
  Every error that reaches the handler is a rejected string, a \<open>TypeError\<close> or a file-system error,
  never an axios error, so only the \<open>else\<close> branch of the handler runs.
\<close>

definition login ::
    "('s, LoginResponse) endpoint \<Rightarrow> ('s, UserResponse) endpoint \<Rightarrow> LoginRequest \<Rightarrow> ('s, unit) cmd" where
  "login lsrv usrv answers =
     try_catch
       (bind (console (Log ''Authenticating...'')) (\<lambda>_.
        bind (UserLogin lsrv answers) (\<lambda>loginRes.
          if lr_status loginRes \<noteq> 200 then
            console (Warn (if lr_message loginRes = [] then ''Login failed'' else lr_message loginRes))
          else
            bind (setToken (lr_access_token loginRes)) (\<lambda>_.
            bind (GetMyInfo usrv) (\<lambda>getUserRes.
              if ur_status getUserRes \<noteq> 200 then
                console (Warn (if ur_message getUserRes = [] then ''Get user info failed'' else ur_message getUserRes))
              else store_profile (ur_user getUserRes))))))
       (\<lambda>err. bind (console (ErrWith [] err)) (\<lambda>_. exit_with 1))"

definition logout :: "('s, unit) cmd" where
  "logout w =
     (if getToken w = None then console (Warn ''No user logged in'') w
      else bind (setToken []) (\<lambda>_. bind (setUser EmptyUser) (\<lambda>_. console (Log ''Logged out successfully''))) w)"

definition whoami :: "((string \<times> string) list \<Rightarrow> string) \<Rightarrow> ('s, unit) cmd" where
  "whoami table w =
     (if getToken w = None then console (Warn ''No user logged in'') w
      else case getUser w of
             Some (StoredUser u) \<Rightarrow>
               if u_username u = [] then console (Warn ''User info not found'') w
               else console (Log (table [(''Username'', u_username u), (''Nickname'', u_nickname u),
                      (''Email'', u_email u), (''Role'', u_role u)])) w
           | _ \<Rightarrow> console (Warn ''User info not found'') w)"

definition loginRequired ::
    "('s, LoginResponse) endpoint \<Rightarrow> ('s, UserResponse) endpoint \<Rightarrow> LoginRequest \<Rightarrow> ('s, unit) cmd \<Rightarrow> ('s, unit) cmd" where
  "loginRequired lsrv usrv answers fn w =
     (if getToken w \<noteq> None then fn w
      else bind (console (Log ''Please login to proceed.'')) (\<lambda>_.
           bind (login lsrv usrv answers) (\<lambda>_.
             (\<lambda>w'. if getToken w' \<noteq> None then fn w' else (Ret (), w')))) w)"

section \<open>Project commands\<close>

text \<open>The document \<open>CONFIG_FILE_CONTENT\<close> of \<open>templates/init.ts\<close>.\<close>

definition CONFIG_FILE_CONTENT :: CamConfig where
  "CONFIG_FILE_CONTENT =
     \<lparr>cfg_services = Some [], cfg_outDir = Some ''src/cam-auto-generate'', cfg_generateConfig = Some []\<rparr>"

definition init :: "('s, unit) cmd" where
  "init w =
     (if w_fs w (config_path w) \<noteq> None then
        console (Warn (CONFIG_FILE_NAME @ '' already exists in the current directory.'' @ NL @
          ''If you want to overwrite it, please delete the existing file.'')) w
      else try_catch
             (bind (writeFileSync (config_path w) (ConfigJson CONFIG_FILE_CONTENT)) (\<lambda>_.
                console (Log (''Successfully initialized '' @ CONFIG_FILE_NAME))))
             (\<lambda>err. bind (console (ErrWith (''Failed to initialize '' @ CONFIG_FILE_NAME @ '':'') err)) (\<lambda>_. exit_with 1)) w)"

definition error_exit :: "string \<Rightarrow> ('s, 'a) cmd" where
  "error_exit msg = bind (console (Err msg)) (\<lambda>_. exit_with 1)"

definition usage_message :: string where
  "usage_message = ''Invalid format. Usage: cam add <service_name>:<service_uuid>@<version | latest>''"

definition second :: "string list \<Rightarrow> string" where
  "second xs = (case tl xs of [] \<Rightarrow> [] | y # _ \<Rightarrow> y)"

definition addService ::
    "('s, GetServiceByUuidAndVersionResponse) endpoint \<Rightarrow> ('s, GetApiByIdResponse) endpoint \<Rightarrow> (string \<Rightarrow> string option)
     \<Rightarrow> string \<Rightarrow> ('s, unit) cmd" where
  "addService ssrv asrv pr serviceIdentifier =
     (let parts = split_on CHR ''@'' serviceIdentifier;
          nameAndUuid = hd parts;
          version = (if second parts = [] then ''latest'' else second parts)
      in if \<not> isValidVersion version then
           error_exit (''Invalid version format. Version must be in the format x.y.z '' @
             ''(where x, y, and z are non-negative integers).'')
         else if nameAndUuid = [] then error_exit usage_message
         else
           (let names = split_on CHR '':'' nameAndUuid;
                serviceName = hd names;
                serviceUuid = second names
            in if serviceName = [] \<or> serviceUuid = [] then error_exit usage_message
               else if \<not> isValidFilename serviceName then
                 error_exit (''Invalid service name: '' @ DQ @ serviceName @ DQ @
                   ''. Service name must be a valid directory/file name.'')
               else
                 bind (console (Log (''Service Name: '' @ serviceName))) (\<lambda>_.
                 bind (console (Log (''Service UUID: '' @ serviceUuid))) (\<lambda>_.
                 bind (console (Log (''Version: '' @ version))) (\<lambda>_.
                 storeServiceInfo ssrv asrv pr serviceName serviceUuid version)))))"

text \<open>\<open>getConfig\<close> of \<open>services/code-generate/config.ts\<close> throws where \<open>readConfig\<close> exits.\<close>

datatype config_error = ConfigNotFound | ConfigUnparsable

definition getConfig :: "'s world \<Rightarrow> config_error + CamConfig" where
  "getConfig w =
     (if w_fs w (config_path w) = None then Inl ConfigNotFound
      else case config_at w of None \<Rightarrow> Inl ConfigUnparsable | Some c \<Rightarrow> Inr c)"

section \<open>The registered commands\<close>

datatype cli_command = Init | Login | Logout | Whoami | Add string | Remove string | Update

record 's environment =
  e_login :: "('s, LoginResponse) endpoint"
  e_user :: "('s, UserResponse) endpoint"
  e_service :: "('s, GetServiceByUuidAndVersionResponse) endpoint"
  e_api :: "('s, GetApiByIdResponse) endpoint"
  e_prettier :: "string \<Rightarrow> string option"
  e_answers :: LoginRequest
  e_table :: "(string \<times> string) list \<Rightarrow> string"

fun run_command :: "'s environment \<Rightarrow> cli_command \<Rightarrow> ('s, unit) cmd" where
  "run_command e Init = loginRequired (e_login e) (e_user e) (e_answers e) init"
| "run_command e Login = login (e_login e) (e_user e) (e_answers e)"
| "run_command e Logout = logout"
| "run_command e Whoami = whoami (e_table e)"
| "run_command e (Add ident) =
     loginRequired (e_login e) (e_user e) (e_answers e) (addService (e_service e) (e_api e) (e_prettier e) ident)"
| "run_command e (Remove name) =
     loginRequired (e_login e) (e_user e) (e_answers e) (removeService (e_service e) (e_api e) (e_prettier e) name)"
| "run_command e Update =
     loginRequired (e_login e) (e_user e) (e_answers e) (pullAllApisInAllServices (e_service e) (e_api e) (e_prettier e))"

section \<open>Parsing the identifier of \<open>cam add\<close>\<close>

lemma second_simps [simp]: "second [x] = []" "second (x # y # zs) = y"
  by (simp_all add: second_def)

lemma version_no_at:
  assumes "isValidVersion v" shows "v \<noteq> []" "CHR ''@'' \<notin> set v" "CHR '':'' \<notin> set v"
proof -
  have dig: "c \<notin> set x" if "all_digits x" "\<not> is_digit c" for x c
    using that by (auto simp: all_digits_def list_all_iff)
  have "CHR ''@'' \<notin> set v \<and> CHR '':'' \<notin> set v" if "version_regex v"
    using that unfolding version_regex_iff by (auto simp: dig is_digit_def)
  with assms show "v \<noteq> []" "CHR ''@'' \<notin> set v" "CHR '':'' \<notin> set v"
    by (auto simp: isValidVersion_def split: if_splits)
qed

lemma hd_split_free: "c \<notin> set (hd (split_on c s))"
  by (rule split_on_parts_free [of _ c s]) simp

lemma second_split_free: "c \<notin> set (second (split_on c s))"
proof (cases "split_on c s")
  case (Cons x xs)
  then show ?thesis using split_on_parts_free [of _ c s] by (cases xs) auto
qed simp

lemma set_join_member: "p \<in> set xs \<Longrightarrow> set p \<subseteq> set (join sep xs)"
  by (induction sep xs rule: join.induct) auto

lemma split_on_subset: "p \<in> set (split_on c s) \<Longrightarrow> set p \<subseteq> set s"
  using set_join_member [of p "split_on c s" "[c]"] by (simp add: join_split_on)

lemma second_subset: "set (second (split_on c s)) \<subseteq> set s"
proof (cases "split_on c s")
  case (Cons x xs)
  then show ?thesis using split_on_subset [of _ c s] by (cases xs) auto
qed simp

section \<open>The invariant of the tool\<close>

text \<open>
  The file system is a tree, and the configuration of the working directory, if there is one, is well
  formed and lies outside its own output directory.
\<close>

definition cli_inv :: "'s world \<Rightarrow> bool" where
  "cli_inv w \<longleftrightarrow> fs_ok (w_fs w) \<and> (\<forall>c. config_at w = Some c \<longrightarrow> config_ok c \<and> config_safe w c)"

definition inv_pres :: "'s world \<Rightarrow> 's world \<Rightarrow> bool" where
  "inv_pres w w' \<longleftrightarrow> (cli_inv w \<longrightarrow> cli_inv w')"

lemma cli_inv_console [simp]: "cli_inv (w\<lparr>w_console := ls\<rparr>) \<longleftrightarrow> cli_inv w"
  by (simp add: cli_inv_def config_safe_def outDir_path_def config_path_def)

interpretation inv_pres: world_preorder inv_pres
  by unfold_locales (auto simp: inv_pres_def)

lemma inv_camrc:
  fixes m :: "('s, 'a) cmd"
  assumes "keeps camrc_only m"
  shows "keeps inv_pres m"
  unfolding keeps_def inv_pres_def
proof (intro allI impI)
  fix w :: "'s world" assume inv: "cli_inv w"
  have c: "camrc_only w (snd (m w))" by (rule keeps_at [OF assms])
  then have "config_safe (snd (m w)) x = config_safe w x" for x
    by (intro config_safe_eq) (simp_all add: camrc_only_def touches_def)
  with c inv camrc_only_config_at [OF c] show "cli_inv (snd (m w))"
    by (simp add: cli_inv_def camrc_only_def)
qed

lemma inv_same_config:
  assumes "cli_inv w" "tree_ok w w'" "config_at w' = Some c'" "config_ok c'"
    and "config_at w = Some c" "cfg_outDir c' = cfg_outDir c"
  shows "cli_inv w'"
  using assms config_safe_eq [of w' w c' c] by (auto simp: cli_inv_def tree_ok_def)

lemma inv_pull: "keeps inv_pres (pullAllApisInAllServices ssrv asrv pr)"
  unfolding keeps_def inv_pres_def
proof (intro allI impI)
  fix w :: "'a world" assume inv: "cli_inv w"
  show "cli_inv (snd (pullAllApisInAllServices ssrv asrv pr w))"
  proof (cases "config_at w")
    case None
    then show ?thesis using pull_no_config [OF None, of ssrv asrv pr] inv by auto
  next
    case (Some c)
    with inv have c: "config_ok c" "config_safe w c" by (auto simp: cli_inv_def)
    show ?thesis
      by (rule inv_same_config [OF inv tree_pull [OF Some safe_not_root [OF c(2)]]
          pull_keeps_config [OF Some config_ok_names [OF c(1)] c(2)] c(1) Some refl])
  qed
qed

lemma inv_no_config: "config_at w = None \<Longrightarrow> cli_inv w \<Longrightarrow> cli_inv (snd (bind readConfig f w))"
  using readConfig_None [of w] by (auto simp: bind_def)

lemma inv_store:
  assumes "isValidFilename name" "u \<noteq> []" "v \<noteq> []" "CHR ''@'' \<notin> set u" "CHR ''@'' \<notin> set v"
  shows "keeps inv_pres (storeServiceInfo ssrv asrv pr name u v)"
  unfolding keeps_def inv_pres_def
proof (intro allI impI)
  fix w :: "'a world" assume inv: "cli_inv w"
  show "cli_inv (snd (storeServiceInfo ssrv asrv pr name u v w))"
  proof (cases "config_at w")
    case None
    then show ?thesis unfolding storeServiceInfo_def using inv by (rule inv_no_config)
  next
    case (Some c)
    with inv have c: "fs_ok (w_fs w)" "config_safe w c" "config_ok c" by (auto simp: cli_inv_def)
    obtain r w' where s: "storeServiceInfo ssrv asrv pr name u v w = (r, w')" by fastforce
    have t: "tree_ok w w'" using store_tree [OF Some c(1,2), of ssrv asrv pr name u v] by (simp add: s)
    from store_config [OF Some c assms s] show ?thesis
      using inv_same_config [OF inv t _ _ Some] c(3) by (auto simp: s)
  qed
qed

lemma inv_remove: "keeps inv_pres (removeService ssrv asrv pr name)"
  unfolding keeps_def inv_pres_def
proof (intro allI impI)
  fix w :: "'a world" assume inv: "cli_inv w"
  show "cli_inv (snd (removeService ssrv asrv pr name w))"
  proof (cases "config_at w")
    case None
    then show ?thesis unfolding removeService_def using inv by (rule inv_no_config)
  next
    case (Some c)
    with inv have c: "fs_ok (w_fs w)" "config_safe w c" "config_ok c" by (auto simp: cli_inv_def)
    show ?thesis
      using inv_same_config [OF inv remove_tree [OF Some c(1,2)] remove_config [OF Some c(1,2) config_ok_names [OF c(3)]] _ Some]
        c(3) remove_entry_ok [OF c(3)] by (simp split: if_splits)
  qed
qed

lemma store_profile_camrc_only: "keeps camrc_only (store_profile user)"
proof -
  have "keeps camrc_only (\<lambda>w. tm_write ((tm_readConfig w)\<lparr>rc_user := None\<rparr>) w)"
    using keeps_at [OF tm_write_camrc_only] by (auto simp: keeps_def)
  then show ?thesis
    by (auto simp: store_profile_def intro!: camrc_only.keeps_bind camrc_only.keeps_throw camrc_only.keeps_console
        setUser_camrc_only split: option.splits simp del: append_Cons append_assoc)
qed

lemma login_camrc_only: "keeps camrc_only (login lsrv usrv answers)"
  unfolding login_def
  by (intro camrc_only.keeps_try camrc_only.keeps_bind camrc_only.keeps_if camrc_only.keeps_console
      camrc_only.keeps_exit endpoints_camrc_only setToken_camrc_only store_profile_camrc_only)

lemma sign_out_camrc_only: "keeps camrc_only (bind (setToken []) (\<lambda>_. bind (setUser EmptyUser) (\<lambda>_. console l)))"
  by (intro camrc_only.keeps_bind camrc_only.keeps_console setToken_camrc_only setUser_camrc_only)

lemma logout_camrc_only: "keeps camrc_only logout"
  unfolding keeps_def logout_def
  by (simp add: camrc_only.keeps_console [THEN keeps_at] sign_out_camrc_only [THEN keeps_at])

lemma whoami_camrc_only: "keeps camrc_only (whoami table)"
  unfolding keeps_def whoami_def using camrc_only.keeps_console [THEN keeps_at]
  by (auto split: option.splits stored_user.splits simp del: append_Cons append_assoc)

lemma initial_config_ok: "config_ok CONFIG_FILE_CONTENT"
  by (simp add: config_ok_def services_of_def CONFIG_FILE_CONTENT_def obj_ok_def distinct_keys_def)

lemma initial_outDir: "outDir_path w CONFIG_FILE_CONTENT = w_cwd w @ [''src'', ''cam-auto-generate'']"
  by (simp add: outDir_path_def CONFIG_FILE_CONTENT_def resolve_def walk_def enter_def)

lemma initial_config_safe: "config_safe w CONFIG_FILE_CONTENT"
  by (simp add: config_safe_def initial_outDir config_path_eq CONFIG_FILE_NAME_def)

lemma init_cases:
  "w_fs (snd (init w)) = w_fs w \<or>
   (w_fs w (config_path w) = None \<and>
    fs_write (config_path w) (ConfigJson CONFIG_FILE_CONTENT) (w_fs w) = Inr (w_fs (snd (init w))))"
  "w_cwd (snd (init w)) = w_cwd w" "w_home (snd (init w)) = w_home w"
  by (auto simp: init_def console_def try_catch_def bind_def writeFileSync_def exit_with_def split: sum.splits)

lemma inv_init: "keeps inv_pres init"
  unfolding keeps_def inv_pres_def
proof (intro allI impI)
  fix w :: "'a world" assume inv: "cli_inv w"
  let ?w = "snd (init w)"
  have p: "config_path ?w = config_path w" by (simp add: config_path_def init_cases)
  show "cli_inv ?w"
  proof (cases "w_fs ?w = w_fs w")
    case True
    then have "config_at ?w = config_at w" by (simp add: config_at_def p)
    with inv True config_safe_eq [of ?w w] show ?thesis by (simp add: cli_inv_def init_cases)
  next
    case False
    then have wr: "fs_write (config_path w) (ConfigJson CONFIG_FILE_CONTENT) (w_fs w) = Inr (w_fs ?w)"
      using init_cases(1) [of w] by simp
    have "fs_ok (w_fs ?w)" using fs_ok_write [OF _ wr] inv by (simp add: cli_inv_def)
    moreover have "w_fs ?w (config_path ?w) = Some (File (ConfigJson CONFIG_FILE_CONTENT))"
      using wr unfolding p by (auto simp: fs_write_def fun_eq_iff split: option.splits node.splits if_splits)
    then have "config_at ?w = Some CONFIG_FILE_CONTENT" by (simp add: config_at_def fs_read_def parse_config_def)
    ultimately show ?thesis using initial_config_ok initial_config_safe by (simp add: cli_inv_def)
  qed
qed

text \<open>What the identifier denotes: an error message, or name, UUID and version.\<close>

definition parse_ident :: "string \<Rightarrow> string + (string \<times> string \<times> string)" where
  "parse_ident ident =
     (let parts = split_on CHR ''@'' ident;
          names = split_on CHR '':'' (hd parts);
          version = (if second parts = [] then ''latest'' else second parts)
      in if \<not> isValidVersion version then Inl (''Invalid version format. Version must be in the format x.y.z '' @
             ''(where x, y, and z are non-negative integers).'')
         else if hd parts = [] \<or> hd names = [] \<or> second names = [] then Inl usage_message
         else if \<not> isValidFilename (hd names) then Inl (''Invalid service name: '' @ DQ @ hd names @ DQ @
             ''. Service name must be a valid directory/file name.'')
         else Inr (hd names, second names, version))"

lemma addService_parse:
  "addService ssrv asrv pr ident =
     (case parse_ident ident of Inl msg \<Rightarrow> error_exit msg
      | Inr (n, u, v) \<Rightarrow>
          bind (console (Log (''Service Name: '' @ n))) (\<lambda>_. bind (console (Log (''Service UUID: '' @ u))) (\<lambda>_.
          bind (console (Log (''Version: '' @ v))) (\<lambda>_. storeServiceInfo ssrv asrv pr n u v))))"
  unfolding addService_def parse_ident_def Let_def by (simp only: if_distrib [of "case_sum _ _"] sum.case prod.case) auto

lemma parse_ident_Inr:
  assumes "parse_ident ident = Inr (n, u, v)"
  shows "isValidFilename n" "u \<noteq> []" "v \<noteq> []" "CHR ''@'' \<notin> set u" "CHR ''@'' \<notin> set v" "isValidVersion v"
proof -
  let ?parts = "split_on CHR ''@'' ident"
  let ?names = "split_on CHR '':'' (hd ?parts)"
  have p: "isValidFilename n" "u \<noteq> []" "isValidVersion v" "u = second ?names"
    using assms by (auto simp: parse_ident_def Let_def split: if_splits)
  then show "isValidFilename n" "u \<noteq> []" "isValidVersion v" by simp_all
  show "v \<noteq> []" "CHR ''@'' \<notin> set v" using version_no_at p(3) by auto
  show "CHR ''@'' \<notin> set u"
    using second_subset [of "CHR '':''" "hd ?parts"] hd_split_free [of "CHR ''@''" ident] p(4) by blast
qed

lemma inv_addService: "keeps inv_pres (addService ssrv asrv pr ident)"
proof (cases "parse_ident ident")
  case (Inl msg)
  then show ?thesis unfolding addService_parse error_exit_def
    by (auto intro!: inv_pres.keeps_bind inv_pres.keeps_console inv_pres.keeps_exit)
next
  case (Inr r)
  obtain n u v where r: "r = (n, u, v)" by (cases r)
  note ok = parse_ident_Inr [OF Inr [unfolded r]]
  show ?thesis unfolding addService_parse Inr r sum.case prod.case
    by (intro inv_pres.keeps_bind inv_pres.keeps_console inv_store ok)
qed

lemma inv_loginRequired:
  fixes fn :: "('s, unit) cmd"
  assumes "keeps inv_pres fn" shows "keeps inv_pres (loginRequired lsrv usrv answers fn)"
proof -
  have "keeps inv_pres (\<lambda>w. if getToken w \<noteq> None then fn w else (Ret (), w))"
    using assms by (simp add: keeps_def inv_pres.R_refl)
  then have "keeps inv_pres (bind (console (Log ''Please login to proceed.'')) (\<lambda>_. bind (login lsrv usrv answers) (\<lambda>_.
      (\<lambda>w. if getToken w \<noteq> None then fn w else (Ret (), w)))))"
    by (intro inv_pres.keeps_bind inv_pres.keeps_console inv_camrc [OF login_camrc_only])
  then show ?thesis using assms unfolding keeps_def loginRequired_def by simp
qed

lemma inv_run_command: "keeps inv_pres (run_command e c)"
  by (cases c) (simp_all add: inv_loginRequired inv_init inv_addService inv_remove inv_pull
      inv_camrc login_camrc_only logout_camrc_only whoami_camrc_only)

section \<open>Sessions\<close>

text \<open>
  A session is a sequence of command runs; between two runs the server (and the terminal) may change
  in any way, and each run may see another environment.
\<close>

inductive cli_step :: "'s world \<Rightarrow> 's world \<Rightarrow> bool" where
  run: "run_command e c w = (r, w') \<Longrightarrow> cli_step w w'"
| server: "cli_step w (w\<lparr>w_server := s\<rparr>)"

inductive cli_reachable :: "'s world \<Rightarrow> 's world \<Rightarrow> bool" where
  start: "cli_reachable w w"
| step: "cli_reachable w w' \<Longrightarrow> cli_step w' w'' \<Longrightarrow> cli_reachable w w''"

inductive_cases cli_stepE: "cli_step w w'"

lemma cli_step_inv: "cli_step w w' \<Longrightarrow> cli_inv w \<Longrightarrow> cli_inv w'"
proof (erule cli_stepE)
  fix e c r assume "run_command e c w = (r, w')" "cli_inv w"
  then show "cli_inv w'" using keepsD [OF inv_run_command, of e c w r w'] by (simp add: inv_pres_def)
next
  fix s assume "w' = w\<lparr>w_server := s\<rparr>" "cli_inv w"
  then show "cli_inv w'"
    by (simp add: cli_inv_def config_at_def config_path_def config_safe_def outDir_path_def)
qed

text \<open>
  C21: Whatever commands a user runs, in whatever order, with whatever arguments and server answers,
  and however each of them ends, the configuration file stays well formed (valid directory names,
  \<open>uuid@version\<close> values, distinct names and UUIDs) and outside the directory that a pull deletes.
\<close>

theorem session_invariant:
  assumes "cli_reachable w w'" "cli_inv w"
  shows "cli_inv w'"
  using assms by (induction rule: cli_reachable.induct) (auto intro: cli_step_inv)

definition demo_env :: "unit environment" where
  "demo_env = \<lparr>e_login = (\<lambda>s r. (Failure (Some 500) [] False, s)), e_user = (\<lambda>s r. (Failure (Some 401) [] False, s)),
     e_service = demo_ssrv, e_api = demo_asrv, e_prettier = Some, e_answers = \<lparr>lq_username = ''u'', lq_password = ''p''\<rparr>,
     e_table = (\<lambda>_. [])\<rparr>"

theorem session_invariant_witness:
  "cli_inv (snd (run_command demo_env (Add ''order:u-2@1.0.0'') demo_world))"
proof -
  have "cli_step demo_world (snd (run_command demo_env (Add ''order:u-2@1.0.0'') demo_world))"
    by (rule cli_step.run [OF prod.collapse [symmetric]])
  then have "cli_reachable demo_world (snd (run_command demo_env (Add ''order:u-2@1.0.0'') demo_world))"
    by (rule cli_reachable.step [OF cli_reachable.start])
  then show ?thesis
    by (rule session_invariant) (use demo_facts in \<open>simp add: cli_inv_def\<close>)
qed

section \<open>Results on single commands\<close>

lemma parse_ident_printed:
  assumes "isValidFilename n" "CHR ''@'' \<notin> set n" "u \<noteq> []" "CHR ''@'' \<notin> set u" "CHR '':'' \<notin> set u" "isValidVersion v"
  shows "parse_ident (n @ '':'' @ u @ ''@'' @ v) = Inr (n, u, v)" "parse_ident (n @ '':'' @ u) = Inr (n, u, ''latest'')"
proof -
  have n: "n \<noteq> []" "CHR '':'' \<notin> set n" using assms(1) isValidFilename_no_colon by (auto simp: isValidFilename_def)
  have nu: "CHR ''@'' \<notin> set (n @ '':'' @ u)" using assms by auto
  have "split_on CHR ''@'' ((n @ '':'' @ u) @ ''@'' @ v) = [n @ '':'' @ u, v]"
    using split_entry [OF nu version_no_at(2) [OF assms(6)]] .
  then have s1: "split_on CHR ''@'' (n @ '':'' @ u @ ''@'' @ v) = [n @ '':'' @ u, v]" by simp
  have s2: "split_on CHR ''@'' (n @ '':'' @ u) = [n @ '':'' @ u]" using nu by (rule split_on_free)
  have s3: "split_on CHR '':'' (n @ '':'' @ u) = [n, u]"
    using n(2) assms(5) by (simp add: split_on_append split_on_free)
  have l: "isValidVersion ''latest''" by (simp add: isValidVersion_def)
  show "parse_ident (n @ '':'' @ u @ ''@'' @ v) = Inr (n, u, v)"
    unfolding parse_ident_def Let_def s1 using s3 assms n version_no_at(1) [OF assms(6)] by simp
  show "parse_ident (n @ '':'' @ u) = Inr (n, u, ''latest'')"
    unfolding parse_ident_def Let_def s2 using s3 assms n l by simp
qed

text \<open>
  \<open>cam add\<close> reads back what the usage line prints: for a valid service name, a UUID without the
  separators and a valid version, \<open>name:uuid@version\<close> stores exactly that service, and \<open>name:uuid\<close>
  stores its latest version.
\<close>

theorem add_identifier_roundtrip:
  assumes "isValidFilename n" "CHR ''@'' \<notin> set n" "u \<noteq> []" "CHR ''@'' \<notin> set u" "CHR '':'' \<notin> set u" "isValidVersion v"
  shows "(\<exists>ls. addService ssrv asrv pr (n @ '':'' @ u @ ''@'' @ v) w =
      storeServiceInfo ssrv asrv pr n u v (w\<lparr>w_console := ls\<rparr>)) \<and>
    (\<exists>ls. addService ssrv asrv pr (n @ '':'' @ u) w =
      storeServiceInfo ssrv asrv pr n u ''latest'' (w\<lparr>w_console := ls\<rparr>))"
  unfolding addService_parse parse_ident_printed [OF assms] by (auto simp: bind_console)

theorem add_identifier_roundtrip_witness:
  "\<exists>ls. addService demo_ssrv demo_asrv Some ''order:u-2@1.0.0'' demo_world =
     storeServiceInfo demo_ssrv demo_asrv Some ''order'' ''u-2'' ''1.0.0'' (demo_world\<lparr>w_console := ls\<rparr>)"
proof -
  have "isValidVersion ''1.0.0''" by (simp add: isValidVersion_def version_regex_def all_digits_def is_digit_def)
  from add_identifier_roundtrip [OF demo_valid_names(2) _ _ _ _ this, of "''u-2''" demo_ssrv demo_asrv Some demo_world]
  show ?thesis by simp
qed

text \<open>
  \<open>cam add\<close> accepts only what it can store: whenever an identifier is not rejected with an error
  message and exit code 1, the service name is a valid directory name, the UUID is not empty and has
  no \<open>@\<close>, and the version is \<open>latest\<close> or \<open>x.y.z\<close>.
\<close>

theorem add_identifier_checked:
  "(\<exists>msg. addService ssrv asrv pr ident w = (Exit 1, w\<lparr>w_console := w_console w @ [Err msg]\<rparr>)) \<or>
   (\<exists>n u v ls. isValidFilename n \<and> u \<noteq> [] \<and> CHR ''@'' \<notin> set u \<and> (v = ''latest'' \<or> version_regex v) \<and>
      addService ssrv asrv pr ident w = storeServiceInfo ssrv asrv pr n u v (w\<lparr>w_console := ls\<rparr>))"
proof (cases "parse_ident ident")
  case (Inl msg)
  then show ?thesis by (auto simp: addService_parse error_exit_def bind_console exit_with_def)
next
  case (Inr r)
  obtain n u v where r: "r = (n, u, v)" by (cases r)
  note ok = parse_ident_Inr [OF Inr [unfolded r]]
  have "\<exists>ls. addService ssrv asrv pr ident w = storeServiceInfo ssrv asrv pr n u v (w\<lparr>w_console := ls\<rparr>)"
    unfolding addService_parse Inr r by (auto simp: bind_console)
  moreover have "v = ''latest'' \<or> version_regex v" using ok(6) by (auto simp: isValidVersion_def split: if_splits)
  ultimately show ?thesis using ok by blast
qed

text \<open>
  A guarded command runs only with a token: \<open>loginRequired\<close> either runs the action in a world that
  holds an access token, or does not run it at all (its result is the same for every action).
\<close>

theorem loginRequired_guards:
  "(\<exists>w'. getToken w' \<noteq> None \<and> loginRequired lsrv usrv answers fn w = fn w') \<or>
   (\<forall>fn'. loginRequired lsrv usrv answers fn' w = loginRequired lsrv usrv answers fn w)"
proof (cases "getToken w")
  case (Some t)
  then show ?thesis by (auto simp: loginRequired_def)
next
  case None
  obtain r w1 where l: "login lsrv usrv answers (w\<lparr>w_console := w_console w @ [Log ''Please login to proceed.'']\<rparr>) = (r, w1)"
    by fastforce
  have eq: "loginRequired lsrv usrv answers f w =
      (case r of Ret _ \<Rightarrow> if getToken w1 \<noteq> None then f w1 else (Ret (), w1) | Throw e \<Rightarrow> (Throw e, w1) | Exit n \<Rightarrow> (Exit n, w1))" for f
    using None unfolding loginRequired_def bind_console bind_def [of "login lsrv usrv answers"] l
    by (simp split: outcome.splits)
  show ?thesis unfolding eq by (cases r; cases "getToken w1") auto
qed

text \<open>
  Logging out signs out: when \<open>cam logout\<close> returns there is no token, requests carry no
  \<open>Authorization\<close> header and \<open>cam whoami\<close> reports that nobody is logged in; when it fails (an
  unwritable \<open>.camrc\<close>) it throws.
\<close>

theorem logout_signs_out:
  assumes "logout w = (r, w')"
  shows "(\<exists>e. r = Throw e) \<or>
    (r = Ret () \<and> getToken w' = None \<and> attach_token w' req = req \<and>
     whoami table w' = console (Warn ''No user logged in'') w')"
proof (cases "getToken w")
  case None
  then have "r = Ret ()" "getToken w' = None"
    using assms by (auto simp: logout_def console_def getToken_def tm_readConfig_def camrc_path_def)
  then show ?thesis by (simp add: attach_token_def whoami_def)
next
  case (Some t)
  then have l: "logout w = bind clear_session (\<lambda>_. console (Log ''Logged out successfully'')) w"
    by (simp add: logout_def clear_session_def bind_assoc)
  obtain r1 w1 where 1: "clear_session w = (r1, w1)" by fastforce
  have "exit_free clear_session" unfolding clear_session_def by (intro exit_free_bind exit_free_tm)
  then have "r1 \<noteq> Exit n" for n using exit_free_at [of clear_session w n] 1 by simp
  then consider (thrown) e where "r1 = Throw e" | (ok) "r1 = Ret ()" by (cases r1) auto
  then show ?thesis
  proof cases
    case thrown
    then show ?thesis using assms 1 unfolding l by (auto simp: bind_def)
  next
    case ok
    then have "getToken w1 = None"
      using clear_session_Ret [OF 1 [unfolded ok]] camrc.get_sign_out by (simp add: getToken_camrc)
    moreover have "r = Ret ()" "w' = w1\<lparr>w_console := w_console w1 @ [Log ''Logged out successfully'']\<rparr>"
      using assms 1 ok unfolding l by (auto simp: bind_def console_def)
    ultimately have "r = Ret ()" "getToken w' = None" by (simp_all add: getToken_def tm_readConfig_def camrc_path_def)
    then show ?thesis by (simp add: attach_token_def whoami_def)
  qed
qed

theorem logout_signs_out_witness:
  "fst (logout demo_world) = Ret () \<and> getToken (snd (logout demo_world)) = None"
proof -
  obtain r w' where l: "logout demo_world = (r, w')" by fastforce
  have "\<not> (\<exists>e. fst (logout demo_world) = Throw e)"
    by (simp add: logout_def getToken_def tm_readConfig_def bind_def setToken_def setUser_def tm_write_def
        writeFileSync_def fs_write_def fs_read_def parse_camrc_def camrc_path_def demo_world_def CONFIG_FILE_def console_def)
  with logout_signs_out [OF l] show ?thesis by (auto simp: l)
qed

theorem unauthorized_signs_out_witness:
  "getToken (snd (GetMyInfo (e_user demo_env) demo_world)) = None"
proof -
  let ?req = "get_request ''/v1/user/getMyInfo'' []"
  have t: "getToken demo_world \<noteq> None" "w_fs demo_world (w_home demo_world) = Some Dir"
    unfolding getToken_def tm_readConfig_def fs_read_def demo_camrc_path
    by (simp_all add: demo_world_def parse_camrc_def)
  have "e_user demo_env (w_server demo_world) (attach_token demo_world (?req\<lparr>hr_url := BASE_URL @ hr_url ?req\<rparr>)) =
      (Failure (Some 401) [] False, ())" by (simp add: demo_env_def)
  from unauthorized_signs_out [where srv = "e_user demo_env" and req = ?req and req' = ?req, OF t this] show ?thesis by (auto simp: GetMyInfo_def)
qed

end
