(* ===== verification/Fe_Params.thy ===== *)
theory Fe_Params
  imports Api_Types Cli_Utils
begin

text \<open>
  The API editor of the front end: \<open>FE-CAM/src/components/ApiManagement/ApiEdit\<close>.  Parameter trees as
  the form holds them, their conversion to the payload of \<open>UpdateApiByApiDraftId\<close>, the tree editing
  helpers, the parameter table and the checks of \<open>handleSubmit\<close>.

  The form library is a third-party package: the values it hands over are arguments.  Random ids
  (\<open>generateId\<close>) are arguments as well.
\<close>

section \<open>Data\<close>

text \<open>Ids are numbers for stored parameters and strings for new ones; \<open>===\<close> tells them apart.\<close>

datatype item_id = NumId int | StrId string

datatype ParamItem = ParamItem
  (pi_id: item_id)
  (pi_name: string)
  (pi_type: string)
  (pi_required: bool)
  (pi_description: "string option")
  (pi_default_value: "string option")
  (pi_example: "string option")
  (pi_array_child_type: "string option")
  (pi_children: "ParamItem list option")
  (pi_children_params: "ParamItem list option")

datatype ApiReqParamInput = ReqInput
  (ri_name: string)
  (ri_type: string)
  (ri_location: string)
  (ri_required: bool)
  (ri_default_value: "string option")
  (ri_description: "string option")
  (ri_example: "string option")
  (ri_array_child_type: "string option")
  (ri_children: "ApiReqParamInput list option")

text \<open>A status code is \<open>None\<close> for \<open>NaN\<close>.\<close>

datatype ApiRespParamInput = RespInput
  (rs_name: string)
  (rs_type: string)
  (rs_status_code: "int option")
  (rs_required: bool)
  (rs_description: "string option")
  (rs_example: "string option")
  (rs_array_child_type: "string option")
  (rs_children: "ApiRespParamInput list option")

definition HTTP_METHODS :: "HttpMethod list" where
  "HTTP_METHODS = [GET, POST, PUT, DELETE, PATCH]"

definition PARAM_TYPES :: "string list" where
  "PARAM_TYPES = [''string'', ''int'', ''double'', ''boolean'', ''array'', ''object'', ''binary'']"

text \<open>\<open>x || null\<close> on a string.\<close>

definition or_null :: "string option \<Rightarrow> string option" where
  "or_null x = (if truthy_str x then x else None)"

text \<open>\<open>a || b\<close> on arrays, which are truthy even when empty.\<close>

definition or_array :: "'a option \<Rightarrow> 'a option \<Rightarrow> 'a option" where
  "or_array a b = (case a of Some x \<Rightarrow> Some x | None \<Rightarrow> b)"

section \<open>Conversion to the payload\<close>

fun req_item :: "string \<Rightarrow> ParamItem \<Rightarrow> ApiReqParamInput" where
  "req_item location (ParamItem i nm ty rq de df ex act ch chp) =
     ReqInput nm ty location rq (or_null df) de ex (or_null act)
       (or_array (map_option (map (req_item location)) ch) (map_option (map (req_item location)) chp))"

definition processReqItems :: "ParamItem list \<Rightarrow> string \<Rightarrow> ApiReqParamInput list" where
  "processReqItems list location = map (req_item location) list"

definition transformReqParamsToApiInput :: "ParamItem list js_obj option \<Rightarrow> ApiReqParamInput list" where
  "transformReqParamsToApiInput requestParams =
     (case requestParams of None \<Rightarrow> []
      | Some d \<Rightarrow> concat (map (\<lambda>(key, items). processReqItems items key) d))"

text \<open>\<open>parseInt(key, 10)\<close>: white space, a sign, then the leading digits.\<close>

definition parseInt10 :: "string \<Rightarrow> int option" where
  "parseInt10 s =
     (let t = dropWhile is_space s;
          neg = prefix ''-'' t;
          u = (if neg \<or> prefix ''+'' t then tl t else t);
          ds = takeWhile is_digit u
      in if ds = [] then None else Some (if neg then - int (digits_val ds) else int (digits_val ds)))"

fun resp_item :: "int option \<Rightarrow> ParamItem \<Rightarrow> ApiRespParamInput" where
  "resp_item code (ParamItem i nm ty rq de df ex act ch chp) =
     RespInput nm ty code rq de ex (or_null act)
       (or_array (map_option (map (resp_item code)) ch) (map_option (map (resp_item code)) chp))"

definition processRespItems :: "ParamItem list \<Rightarrow> int option \<Rightarrow> ApiRespParamInput list" where
  "processRespItems list statusCode = map (resp_item statusCode) list"

definition transformRespParamsToApiInput :: "ParamItem list js_obj option \<Rightarrow> ApiRespParamInput list" where
  "transformRespParamsToApiInput responseParams =
     (case responseParams of None \<Rightarrow> []
      | Some d \<Rightarrow> concat (map (\<lambda>(key, items). processRespItems items (parseInt10 key)) d))"

section \<open>Tree editing\<close>

text \<open>A field together with its new value.\<close>

datatype field_value =
  SetName string | SetType string | SetRequired bool | SetDescription string | SetDefault string
| SetExample string | SetArrayChildType string | SetChildren "ParamItem list" | SetChildrenParams "ParamItem list"

fun set_field :: "field_value \<Rightarrow> ParamItem \<Rightarrow> ParamItem" where
  "set_field (SetName v) (ParamItem i nm ty rq de df ex act ch chp) = ParamItem i v ty rq de df ex act ch chp"
| "set_field (SetType v) (ParamItem i nm ty rq de df ex act ch chp) = ParamItem i nm v rq de df ex act ch chp"
| "set_field (SetRequired v) (ParamItem i nm ty rq de df ex act ch chp) = ParamItem i nm ty v de df ex act ch chp"
| "set_field (SetDescription v) (ParamItem i nm ty rq de df ex act ch chp) = ParamItem i nm ty rq (Some v) df ex act ch chp"
| "set_field (SetDefault v) (ParamItem i nm ty rq de df ex act ch chp) = ParamItem i nm ty rq de (Some v) ex act ch chp"
| "set_field (SetExample v) (ParamItem i nm ty rq de df ex act ch chp) = ParamItem i nm ty rq de df (Some v) act ch chp"
| "set_field (SetArrayChildType v) (ParamItem i nm ty rq de df ex act ch chp) = ParamItem i nm ty rq de df ex (Some v) ch chp"
| "set_field (SetChildren v) (ParamItem i nm ty rq de df ex act ch chp) = ParamItem i nm ty rq de df ex act (Some v) chp"
| "set_field (SetChildrenParams v) (ParamItem i nm ty rq de df ex act ch chp) = ParamItem i nm ty rq de df ex act ch (Some v)"

fun update_item :: "item_id \<Rightarrow> field_value \<Rightarrow> ParamItem \<Rightarrow> ParamItem" where
  "update_item tid fv (ParamItem i nm ty rq de df ex act ch chp) =
     (if i = tid then set_field fv (ParamItem i nm ty rq de df ex act ch chp)
      else ParamItem i nm ty rq de df ex act (map_option (map (update_item tid fv)) ch) chp)"

definition updateTreeItem :: "ParamItem list \<Rightarrow> item_id \<Rightarrow> field_value \<Rightarrow> ParamItem list" where
  "updateTreeItem list tid fv = map (update_item tid fv) list"

definition newItem :: "string \<Rightarrow> ParamItem" where
  "newItem tid = ParamItem (StrId tid) [] ''string'' True (Some []) (Some []) (Some []) None None None"

fun add_child :: "item_id \<Rightarrow> ParamItem \<Rightarrow> ParamItem \<Rightarrow> ParamItem" where
  "add_child parentId new (ParamItem i nm ty rq de df ex act ch chp) =
     (if i = parentId
      then ParamItem i nm ty rq de df ex act (Some ((case ch of None \<Rightarrow> [] | Some cs \<Rightarrow> cs) @ [new])) chp
      else ParamItem i nm ty rq de df ex act (map_option (map (add_child parentId new)) ch) chp)"

definition addTreeItem :: "string \<Rightarrow> ParamItem list \<Rightarrow> string option \<Rightarrow> ParamItem list" where
  "addTreeItem generatedId list parentId =
     (if truthy_str parentId then map (add_child (StrId (or_str parentId [])) (newItem generatedId)) list
      else list @ [newItem generatedId])"

text \<open>
  \<open>deleteTreeItem\<close> assigns to \<open>item.children\<close> while it filters: besides its result it changes the
  objects of the list it was given.
\<close>

fun prune :: "item_id \<Rightarrow> ParamItem \<Rightarrow> ParamItem" where
  "prune tid (ParamItem i nm ty rq de df ex act ch chp) =
     ParamItem i nm ty rq de df ex act
       (map_option (filter (\<lambda>c. pi_id c \<noteq> tid)) (map_option (map (prune tid)) ch)) chp"

definition deleteTreeItem :: "ParamItem list \<Rightarrow> item_id \<Rightarrow> ParamItem list" where
  "deleteTreeItem list tid = filter (\<lambda>c. pi_id c \<noteq> tid) (map (prune tid) list)"

definition deleteTreeItem_argument :: "ParamItem list \<Rightarrow> item_id \<Rightarrow> ParamItem list" where
  "deleteTreeItem_argument list tid = map (\<lambda>c. if pi_id c = tid then c else prune tid c) list"

section \<open>The parameter table\<close>

definition legal_text :: "string \<Rightarrow> bool" where
  "legal_text s \<longleftrightarrow> s \<noteq> [] \<and> \<not> list_ex is_space s"

text \<open>\<open>name\<close>, \<open>type\<close> and \<open>required\<close> are checked; a boolean is always legal.\<close>

definition item_legal :: "ParamItem \<Rightarrow> bool" where
  "item_legal item \<longleftrightarrow> legal_text (pi_name item) \<and> legal_text (pi_type item)"

definition validateData :: "ParamItem list \<Rightarrow> bool" where
  "validateData data \<longleftrightarrow> list_ex (\<lambda>item. \<not> item_legal item) data"

text \<open>Each handler gives the new rows and the value passed to \<open>setRejectSubmit\<close>.\<close>

definition handleFieldChange :: "ParamItem list \<Rightarrow> item_id \<Rightarrow> field_value \<Rightarrow> ParamItem list \<times> bool" where
  "handleFieldChange value tid fv =
     (let newData = map (\<lambda>item. if pi_id item = tid then set_field fv item else item) value
      in (newData, validateData newData))"

definition handleRemove :: "ParamItem list \<Rightarrow> item_id \<Rightarrow> ParamItem list \<times> bool" where
  "handleRemove value tid = (let newData = filter (\<lambda>item. pi_id item \<noteq> tid) value in (newData, validateData newData))"

definition handleAdd :: "ParamItem list \<Rightarrow> string \<Rightarrow> ParamItem list \<times> bool" where
  "handleAdd value generatedId = (let newData = value @ [newItem generatedId] in (newData, validateData newData))"

section \<open>Saving an API draft\<close>

record form_values =
  fv_name :: string
  fv_method :: HttpMethod
  fv_path :: string
  fv_description :: "string option"
  fv_level :: "ApiLevel option"
  fv_request_params :: "ParamItem list js_obj option"
  fv_response_params :: "ParamItem list js_obj option"

record update_request =
  up_api_draft_id :: int
  up_name :: string
  up_method :: HttpMethod
  up_path :: string
  up_description :: "string option"
  up_level :: ApiLevel
  up_req_params :: "ApiReqParamInput list"
  up_resp_params :: "ApiRespParamInput list"

datatype submit_warning = EmptyRequestName | OptionalPathParam | PathParamNotInPath | EmptyResponseName

definition path_params :: "ApiReqParamInput list \<Rightarrow> ApiReqParamInput list" where
  "path_params req_params = filter (\<lambda>p. ri_location p = ''path'') req_params"

text \<open>The checks of \<open>handleSubmit\<close> in their order, and the payload it builds.\<close>

definition check_submit :: "int \<Rightarrow> form_values \<Rightarrow> submit_warning + update_request" where
  "check_submit apiId values =
     (let req_params = transformReqParamsToApiInput (fv_request_params values) in
      if list_ex (\<lambda>p. ri_name p = []) req_params then Inl EmptyRequestName
      else if list_ex (\<lambda>p. ri_location p = ''path'') req_params \<and>
              list_ex (\<lambda>p. ri_required p = False) (path_params req_params) then Inl OptionalPathParam
      else if list_ex (\<lambda>p. ri_location p = ''path'') req_params \<and>
              \<not> list_all (\<lambda>p. js_includes (fv_path values) (''{'' @ ri_name p @ ''}'')) (path_params req_params)
           then Inl PathParamNotInPath
      else
        let resp_params = transformRespParamsToApiInput (fv_response_params values) in
        if list_ex (\<lambda>p. rs_name p = []) resp_params then Inl EmptyResponseName
        else Inr \<lparr>up_api_draft_id = apiId, up_name = fv_name values, up_method = fv_method values,
                  up_path = fv_path values, up_description = fv_description values,
                  up_level = (case fv_level values of None \<Rightarrow> P2 | Some l \<Rightarrow> l),
                  up_req_params = req_params, up_resp_params = resp_params\<rparr>)"

datatype edit_message = SubmitWarning submit_warning | SaveSuccess string | SaveError "string option"

record edit_state =
  es_editLoading :: bool
  es_isDraft :: bool
  es_rejectSubmit :: bool
  es_messages :: "edit_message list"

text \<open>
  \<open>handleSubmit\<close> with the outcome of \<open>form.validate()\<close> (\<open>None\<close> when it rejects) and of the save call:
  \<open>Inr\<close> the response's message, \<open>Inl\<close> the error's message if the error is an \<open>Error\<close>.
\<close>

definition handleSubmit ::
    "int \<Rightarrow> form_values option \<Rightarrow> (update_request \<Rightarrow> string option + string) \<Rightarrow> edit_state \<Rightarrow> edit_state" where
  "handleSubmit apiId validated save st =
     (if es_rejectSubmit st then st
      else case validated of None \<Rightarrow> st
      | Some values \<Rightarrow>
          (let st1 = st\<lparr>es_editLoading := True\<rparr> in
           case check_submit apiId values of
             Inl w \<Rightarrow> st1\<lparr>es_messages := es_messages st1 @ [SubmitWarning w], es_editLoading := False\<rparr>
           | Inr data \<Rightarrow>
               (let st2 = (case save data of
                     Inr msg \<Rightarrow> st1\<lparr>es_isDraft := False, es_messages := es_messages st1 @ [SaveSuccess msg]\<rparr>
                   | Inl err \<Rightarrow> st1\<lparr>es_messages := es_messages st1 @ [SaveError err]\<rparr>)
                in st2\<lparr>es_editLoading := False\<rparr>)))"

definition edit_tabs :: "string list" where
  "edit_tabs = [''query'', ''path'', ''body'', ''header'', ''cookie'']"

text \<open>\<open>getFirstTabWithValue\<close>: \<open>Inl\<close> is the \<open>TypeError\<close> of reading \<open>length\<close> of a missing location.\<close>

fun first_tab :: "Param list js_obj \<Rightarrow> string list \<Rightarrow> string + string" where
  "first_tab d [] = Inr ''query''"
| "first_tab d (k # ks) =
     (case map_of d k of None \<Rightarrow> Inl k | Some ps \<Rightarrow> if length ps > 0 then Inr k else first_tab d ks)"

definition getFirstTabWithValue :: "ApiDetail \<Rightarrow> string + string" where
  "getFirstTabWithValue api =
     (case request_params_by_location api of None \<Rightarrow> Inr ''query'' | Some d \<Rightarrow> first_tab d edit_tabs)"

section \<open>Facts about the conversion\<close>

lemma req_item_fields [simp]:
  "ri_location (req_item l x) = l" "ri_name (req_item l x) = pi_name x" "ri_required (req_item l x) = pi_required x"
  "ri_type (req_item l x) = pi_type x"
  by (cases x; simp)+

lemma resp_item_fields [simp]: "rs_name (resp_item c x) = pi_name x" "rs_status_code (resp_item c x) = c"
  by (cases x; simp)+

text \<open>The locations of a converted parameter and all parameters below it.\<close>

fun deep_locations :: "ApiReqParamInput \<Rightarrow> string list" where
  "deep_locations (ReqInput nm ty l rq df de ex act ch) =
     l # (case ch of None \<Rightarrow> [] | Some cs \<Rightarrow> concat (map deep_locations cs))"

lemma deep_locations_item: "set (deep_locations (req_item l x)) = {l}"
proof (induction l x rule: req_item.induct)
  case (1 l i nm ty rq de df ex act ch chp)
  have ch: "\<Union> (set ` deep_locations ` req_item l ` set cs) \<subseteq> {l}" if "ch = Some cs" for cs
    using "1.IH"(1) that by force
  have chp: "\<Union> (set ` deep_locations ` req_item l ` set cs) \<subseteq> {l}" if "chp = Some cs" for cs
    using "1.IH"(2) that by force
  show ?case using ch chp by (cases ch; cases chp) (auto simp: or_array_def)
qed

lemma transformReq_mem:
  "p \<in> set (transformReqParamsToApiInput (Some d)) \<longleftrightarrow> (\<exists>(k, items)\<in>set d. \<exists>x\<in>set items. p = req_item k x)"
  by (auto simp: transformReqParamsToApiInput_def processReqItems_def)

lemma filter_processReqItems:
  "filter (\<lambda>p. ri_location p = k) (processReqItems items l) = (if l = k then processReqItems items l else [])"
  by (simp add: processReqItems_def filter_map o_def)

lemma transformReq_filter:
  "distinct_keys d \<Longrightarrow> filter (\<lambda>p. ri_location p = k) (transformReqParamsToApiInput (Some d)) =
     (case map_of d k of None \<Rightarrow> [] | Some items \<Rightarrow> processReqItems items k)"
proof (induction d)
  case (Cons e d)
  obtain l items where e: "e = (l, items)" by (cases e)
  have IH: "filter (\<lambda>p. ri_location p = k) (transformReqParamsToApiInput (Some d)) =
      (case map_of d k of None \<Rightarrow> [] | Some items \<Rightarrow> processReqItems items k)"
    using Cons by (simp add: distinct_keys_def)
  have "map_of d k = None" if "l = k"
    using that Cons.prems by (auto simp: e distinct_keys_def map_of_eq_None_iff)
  then show ?case using IH
    by (auto simp: e transformReqParamsToApiInput_def filter_processReqItems split: option.splits)
qed (simp add: transformReqParamsToApiInput_def)

section \<open>Results\<close>

text \<open>
  The request payload keeps the grouping: selecting the converted parameters of a location gives
  back exactly the converted rows of that tab, in order, and every parameter below them carries the
  same location, at any depth.
\<close>

theorem request_payload_by_location:
  assumes "distinct_keys d"
  shows "filter (\<lambda>p. ri_location p = k) (transformReqParamsToApiInput (Some d)) =
      (case map_of d k of None \<Rightarrow> [] | Some items \<Rightarrow> map (req_item k) items) \<and>
    list_all (\<lambda>p. list_all (\<lambda>l. l = ri_location p) (deep_locations p)) (transformReqParamsToApiInput (Some d))"
proof
  show "filter (\<lambda>p. ri_location p = k) (transformReqParamsToApiInput (Some d)) =
      (case map_of d k of None \<Rightarrow> [] | Some items \<Rightarrow> map (req_item k) items)"
    unfolding transformReq_filter [OF assms] processReqItems_def ..
  show "list_all (\<lambda>p. list_all (\<lambda>l. l = ri_location p) (deep_locations p)) (transformReqParamsToApiInput (Some d))"
    unfolding list_all_iff
  proof
    fix p assume "p \<in> set (transformReqParamsToApiInput (Some d))"
    then obtain l x where p: "p = req_item l x" by (auto simp: transformReq_mem)
    show "\<forall>l\<in>set (deep_locations p). l = ri_location p"
      unfolding p using deep_locations_item [of l x] by simp
  qed
qed

definition demo_row :: "string \<Rightarrow> string \<Rightarrow> ParamItem list option \<Rightarrow> ParamItem" where
  "demo_row nm ty chp = ParamItem (StrId nm) nm ty True None None None None None chp"

theorem request_payload_by_location_witness:
  "filter (\<lambda>p. ri_location p = ''path'') (transformReqParamsToApiInput
      (Some [(''query'', [demo_row ''q'' ''int'' None]), (''path'', [demo_row ''uid'' ''int'' None])])) =
    [req_item ''path'' (demo_row ''uid'' ''int'' None)]"
proof -
  have "distinct_keys [(''query'', [demo_row ''q'' ''int'' None]), (''path'', [demo_row ''uid'' ''int'' None])]"
    by (simp add: distinct_keys_def)
  from request_payload_by_location [OF this, of "''path''"] show ?thesis by simp
qed

lemma check_submit_Inr:
  "(\<exists>u. check_submit apiId values = Inr u) \<longleftrightarrow>
   (let rq = transformReqParamsToApiInput (fv_request_params values) in
     list_all (\<lambda>p. ri_name p \<noteq> []) rq \<and>
     list_all (\<lambda>p. ri_location p = ''path'' \<longrightarrow> ri_required p \<and> js_includes (fv_path values) (''{'' @ ri_name p @ ''}'')) rq \<and>
     list_all (\<lambda>p. rs_name p \<noteq> []) (transformRespParamsToApiInput (fv_response_params values)))"
  unfolding check_submit_def Let_def path_params_def
  by (auto simp: list_ex_iff list_all_iff simp del: append_Cons split: if_splits)

text \<open>
  Saving never leaves the editor busy: whatever the form validation, the checks and the save call
  do, \<open>handleSubmit\<close> ends with \<open>editLoading\<close> as idle as before, shows at most one message, and drops the
  unsaved mark only after a successful save.
\<close>

theorem handleSubmit_settles:
  "let st' = handleSubmit apiId validated save st in
   (es_editLoading st' = (es_editLoading st \<and> (es_rejectSubmit st \<or> validated = None))) \<and>
   (\<exists>ms. es_messages st' = es_messages st @ ms \<and> length ms \<le> 1) \<and>
   (es_isDraft st' = es_isDraft st \<or> (\<exists>m. es_messages st' = es_messages st @ [SaveSuccess m]))"
  by (cases validated)
    (auto simp: handleSubmit_def Let_def split: sum.splits)

text \<open>
  Only the top level of the tables is checked: a nested parameter without a name is accepted and
  sent to the server.
\<close>

theorem nested_empty_name_accepted:
  "\<exists>u p cs. check_submit 1 \<lparr>fv_name = ''a'', fv_method = POST, fv_path = ''/a'', fv_description = None, fv_level = None,
       fv_request_params = Some [(''body'', [demo_row ''o'' ''object'' (Some [newItem ''x''])])],
       fv_response_params = None\<rparr> = Inr u \<and>
     up_req_params u = [p] \<and> ri_children p = Some cs \<and> list_ex (\<lambda>c. ri_name c = []) cs"
  by (simp add: check_submit_def Let_def transformReqParamsToApiInput_def transformRespParamsToApiInput_def
      processReqItems_def demo_row_def newItem_def or_array_def)

text \<open>
  The tables share one reject flag, and the last edited table decides it: after a row of the query
  table got a name with a space (which sets the flag), any legal edit of the body table clears it and
  the illegal name is submitted.
\<close>

theorem reject_flag_last_edit_wins:
  "let query = [demo_row ''q'' ''int'' None];
       body = [demo_row ''b'' ''int'' None];
       (query', flag1) = handleFieldChange query (StrId ''q'') (SetName ''q x'');
       (body', flag2) = handleFieldChange body (StrId ''b'') (SetName ''c'')
   in flag1 \<and> \<not> flag2 \<and> validateData query' \<and>
      (\<exists>u. check_submit 1 \<lparr>fv_name = ''a'', fv_method = POST, fv_path = ''/a'', fv_description = None, fv_level = None,
         fv_request_params = Some [(''query'', query'), (''body'', body')], fv_response_params = None\<rparr> = Inr u)"
  by (simp add: handleFieldChange_def demo_row_def validateData_def item_legal_def legal_text_def is_space_def
      check_submit_def Let_def transformReqParamsToApiInput_def transformRespParamsToApiInput_def processReqItems_def
      path_params_def)

section \<open>Deleting from a tree\<close>

fun tree_ids :: "ParamItem \<Rightarrow> item_id list" where
  "tree_ids (ParamItem i nm ty rq de df ex act ch chp) =
     i # (case ch of None \<Rightarrow> [] | Some cs \<Rightarrow> concat (map tree_ids cs))"

abbreviation forest_ids :: "ParamItem list \<Rightarrow> item_id list" where
  "forest_ids xs \<equiv> concat (map tree_ids xs)"

lemma pi_id_prune [simp]: "pi_id (prune t x) = pi_id x"
  by (cases x) simp

lemma pi_id_in_tree: "pi_id x \<in> set (tree_ids x)"
  by (cases x) simp

lemma prune_ids: "pi_id x \<noteq> t \<Longrightarrow> t \<notin> set (tree_ids (prune t x)) \<and> set (tree_ids (prune t x)) \<subseteq> set (tree_ids x)"
proof (induction t x rule: prune.induct)
  case (1 t i nm ty rq de df ex act ch chp)
  show ?case
  proof (cases ch)
    case (Some cs)
    have "t \<notin> set (tree_ids (prune t c)) \<and> set (tree_ids (prune t c)) \<subseteq> set (tree_ids c)"
      if "c \<in> set cs" "pi_id c \<noteq> t" for c using "1.IH" that Some by auto
    then show ?thesis using "1.prems" Some by fastforce
  qed (use "1.prems" in simp)
qed

lemma prune_absent: "t \<notin> set (tree_ids x) \<Longrightarrow> prune t x = x"
proof (induction t x rule: prune.induct)
  case (1 t i nm ty rq de df ex act ch chp)
  show ?case
  proof (cases ch)
    case (Some cs)
    have "prune t c = c" if "c \<in> set cs" for c using "1.IH" "1.prems" that Some by auto
    moreover have "pi_id c \<noteq> t" if "c \<in> set cs" for c using "1.prems" that Some pi_id_in_tree [of c] by auto
    ultimately have "filter (\<lambda>c. pi_id c \<noteq> t) (map (prune t) cs) = cs"
      by (simp add: map_idI)
    then show ?thesis by (simp add: Some)
  qed simp
qed

text \<open>
  \<open>deleteTreeItem\<close> removes the item with the given id wherever it is in the tree and nothing else
  that it could be confused with: the id is gone, no new id appears, and a tree without the id comes
  back unchanged.
\<close>

theorem deleteTreeItem_removes:
  "t \<notin> set (forest_ids (deleteTreeItem xs t)) \<and> set (forest_ids (deleteTreeItem xs t)) \<subseteq> set (forest_ids xs) \<and>
   (t \<in> set (forest_ids xs) \<or> deleteTreeItem xs t = xs)"
proof (intro conjI)
  show "t \<notin> set (forest_ids (deleteTreeItem xs t))" "set (forest_ids (deleteTreeItem xs t)) \<subseteq> set (forest_ids xs)"
    using prune_ids by (fastforce simp: deleteTreeItem_def)+
  show "t \<in> set (forest_ids xs) \<or> deleteTreeItem xs t = xs"
  proof (cases "t \<in> set (forest_ids xs)")
    case False
    then have "prune t x = x" "pi_id x \<noteq> t" if "x \<in> set xs" for x
      using that prune_absent [of t x] pi_id_in_tree [of x] by auto
    then show ?thesis by (simp add: deleteTreeItem_def map_idI)
  qed simp
qed

end
