(* ===== verification/Fe_Request.thy ===== *)
theory Fe_Request
  imports Http Fe_Params
begin

text \<open>
  The HTTP layer of the front end: \<open>FE-CAM/src/request/index.ts\<close> with its two interceptors, over the
  browser's storages, and the endpoint functions of \<open>FE-CAM/src/services\<close>, which build the requests.

  The base URL comes from the build environment and the server from outside: both are arguments.  A
  rejected promise is \<open>Inl\<close> of the message of its \<open>ApiError\<close>.  Endpoint functions with the name of a
  function of the command-line tool carry the prefix \<open>fe_\<close>.
\<close>

section \<open>Browser state\<close>

text \<open>
  \<open>localStorage\<close> holds the token under \<open>cam_access_token\<close>; \<open>sessionStorage\<close> holds the persisted user
  store under \<open>user-store\<close> (\<open>None\<close> when the entry is absent) and its expiry time in milliseconds under
  \<open>user-store-ttl\<close>.
\<close>

record 's browser =
  b_token :: "string option"
  b_user_store :: "UserProfile option option"
  b_ttl :: "int option"
  b_reloads :: nat
  b_now :: int
  b_server :: 's

definition getAccessToken :: "'s browser \<Rightarrow> string" where
  "getAccessToken b = or_str (b_token b) []"

text \<open>The request interceptor.\<close>

definition fe_attach_token :: "'s browser \<Rightarrow> http_request \<Rightarrow> http_request" where
  "fe_attach_token b config =
     (let token = getAccessToken b in
      if token \<noteq> [] then config\<lparr>hr_auth := Some (''Bearer '' @ token)\<rparr> else config)"

text \<open>The error branch of the response interceptor.\<close>

definition fe_on_error :: "nat option \<Rightarrow> string \<Rightarrow> bool \<Rightarrow> 's browser \<Rightarrow> string \<times> 's browser" where
  "fe_on_error status_code msg network b =
     (let message = (if msg = [] then ''Request error'' else msg) in
      (message,
       if network \<or> status_code = Some 401
       then b\<lparr>b_token := None, b_user_store := None, b_reloads := b_reloads b + 1\<rparr>
       else b))"

definition fe_send :: "string \<Rightarrow> ('s, 'a) endpoint \<Rightarrow> http_request \<Rightarrow> 's browser \<Rightarrow> (string + 'a) \<times> 's browser" where
  "fe_send base srv req b =
     (case srv (b_server b) (fe_attach_token b (req\<lparr>hr_url := base @ hr_url req\<rparr>)) of
        (Success x, s) \<Rightarrow> (Inr x, b\<lparr>b_server := s\<rparr>)
      | (Failure status_code msg network, s) \<Rightarrow>
          (case fe_on_error status_code msg network (b\<lparr>b_server := s\<rparr>) of (m, b') \<Rightarrow> (Inl m, b')))"

text \<open>Messages shown to the user; texts of the user interface are given in English here.\<close>

datatype toast = SuccessToast string | WarningToast string | ErrorToast string

section \<open>\<open>services/user\<close>\<close>

definition fe_UserLogin :: "LoginRequest \<Rightarrow> http_request" where
  "fe_UserLogin d = post_request ''/v1/user/login''
     (JObj [(''username'', JStr (lq_username d)), (''password'', JStr (lq_password d))])"

definition UserRegister :: "RegisterRequest \<Rightarrow> http_request" where
  "UserRegister d = post_request ''/v1/user/register''
     (JObj [(''username'', JStr (rq_username d)), (''password'', JStr (rq_password d)),
            (''nickname'', JStr (rq_nickname d)), (''email'', JStr (rq_email d)), (''role'', JStr (rq_role d))])"

text \<open>\<open>modifyPassword\<close> passes its whole form data on, the confirmation included.\<close>

definition UserModifyPassword :: "ModifyPasswordRequest \<Rightarrow> string \<Rightarrow> http_request" where
  "UserModifyPassword d confirm_new_password = post_request ''/v1/user/modifyPassword''
     (JObj [(''old_password'', JStr (mq_old_password d)), (''new_password'', JStr (mq_new_password d)),
            (''confirm_new_password'', JStr confirm_new_password)])"

definition GetUserById :: "int \<Rightarrow> http_request" where
  "GetUserById uid = get_request ''/v1/user/getUserById'' [(''id'', JInt uid)]"

definition fe_GetMyInfo :: http_request where
  "fe_GetMyInfo = get_request ''/v1/user/getMyInfo'' []"

definition GetUserByUsernameOrNicknameOrEmail :: "string \<Rightarrow> http_request" where
  "GetUserByUsernameOrNicknameOrEmail q = get_request ''/v1/user/getUserByUsernameOrNicknameOrEmail''
     [(''username_or_nickname_or_email'', JStr q)]"

section \<open>\<open>services/service\<close>\<close>

definition page_params :: "int \<Rightarrow> int \<Rightarrow> (string \<times> jval) list" where
  "page_params page_size current_page = [(''page_size'', JInt page_size), (''current_page'', JInt current_page)]"

definition GetMyNewestServices :: "int \<Rightarrow> int \<Rightarrow> http_request" where
  "GetMyNewestServices page_size current_page = get_request ''/v1/service/getHisNewestServicesByOwnerId''
     (page_params page_size current_page @ [(''is_my_services'', JBool True)])"

definition GetMyMaintainedServices :: "int \<Rightarrow> int \<Rightarrow> http_request" where
  "GetMyMaintainedServices page_size current_page = get_request ''/v1/service/getHisMaintainedServicesByUserId''
     (page_params page_size current_page)"

definition GetAllServices :: "int \<Rightarrow> int \<Rightarrow> http_request" where
  "GetAllServices page_size current_page = get_request ''/v1/service/getAllServices'' (page_params page_size current_page)"

definition GetHisNewestServicesByOwnerId :: "int \<Rightarrow> int \<Rightarrow> int \<Rightarrow> http_request" where
  "GetHisNewestServicesByOwnerId owner_id page_size current_page = get_request ''/v1/service/getHisNewestServicesByOwnerId''
     (page_params page_size current_page @ [(''is_my_services'', JBool False), (''owner_id'', JInt owner_id)])"

definition GetServiceById :: "int \<Rightarrow> http_request" where
  "GetServiceById sid = get_request ''/v1/service/getServiceById'' [(''id'', JInt sid)]"

definition fe_GetServiceByUuidAndVersion :: "string \<Rightarrow> string \<Rightarrow> http_request" where
  "fe_GetServiceByUuidAndVersion service_uuid version = get_request ''/v1/service/getServiceByUuidAndVersion''
     [(''service_uuid'', JStr service_uuid), (''version'', JStr version)]"

definition GetAllVersionsByUuid :: "string \<Rightarrow> http_request" where
  "GetAllVersionsByUuid service_uuid = get_request ''/v1/service/getAllVersionsByUuid'' [(''service_uuid'', JStr service_uuid)]"

definition CreateNewService :: "string \<Rightarrow> string \<Rightarrow> http_request" where
  "CreateNewService service_uuid description = post_request ''/v1/service/createNewService''
     (JObj [(''service_uuid'', JStr service_uuid), (''description'', JStr description)])"

definition GetAllDeletedServicesByUserId :: "int \<Rightarrow> int \<Rightarrow> http_request" where
  "GetAllDeletedServicesByUserId page_size current_page = get_request ''/v1/service/getAllDeletedServicesByUserId''
     (page_params page_size current_page)"

definition DeleteServiceById :: "int \<Rightarrow> http_request" where
  "DeleteServiceById sid = post_request ''/v1/service/deleteServiceById'' (JObj [(''id'', JInt sid)])"

definition RestoreServiceById :: "int \<Rightarrow> http_request" where
  "RestoreServiceById sid = post_request ''/v1/service/restoreServiceById'' (JObj [(''id'', JInt sid)])"

definition DeleteIterationById :: "int \<Rightarrow> http_request" where
  "DeleteIterationById service_iteration_id = post_request ''/v1/service/deleteIterationById''
     (JObj [(''service_iteration_id'', JInt service_iteration_id)])"

definition GetIterationById :: "int \<Rightarrow> http_request" where
  "GetIterationById iid = get_request ''/v1/service/getIterationById'' [(''id'', JInt iid)]"

definition StartIteration :: "int \<Rightarrow> http_request" where
  "StartIteration service_id = post_request ''/v1/service/startIteration'' (JObj [(''service_id'', JInt service_id)])"

definition CommitIteration :: "int \<Rightarrow> string \<Rightarrow> http_request" where
  "CommitIteration service_iteration_id new_version = post_request ''/v1/service/commitIteration''
     (JObj [(''service_iteration_id'', JInt service_iteration_id), (''new_version'', JStr new_version)])"

definition UpdateDescription :: "int \<Rightarrow> string \<Rightarrow> http_request" where
  "UpdateDescription service_iteration_id description = post_request ''/v1/service/updateDescription''
     (JObj [(''service_iteration_id'', JInt service_iteration_id), (''description'', JStr description)])"

definition IsServiceMaintainer :: "int \<Rightarrow> int \<Rightarrow> http_request" where
  "IsServiceMaintainer service_id candidate_id = get_request ''/v1/service/isServiceMaintainer''
     [(''service_id'', JInt service_id), (''candidate_id'', JInt candidate_id)]"

definition AddOrRemoveServiceMaintainerById :: "int \<Rightarrow> int \<Rightarrow> http_request" where
  "AddOrRemoveServiceMaintainerById service_id candidate_id = post_request ''/v1/service/addOrRemoveServiceMaintainerById''
     (JObj [(''service_id'', JInt service_id), (''candidate_id'', JInt candidate_id)])"

definition ExportOpenapiByUuidAndVersion :: "string \<Rightarrow> string \<Rightarrow> http_request" where
  "ExportOpenapiByUuidAndVersion service_uuid version = get_request ''/v1/service/exportOpenapiByUuidAndVersion''
     [(''service_uuid'', JStr service_uuid), (''version'', JStr version)]"

section \<open>\<open>services/api\<close>\<close>

definition GetAllCategoriesByServiceId :: "int \<Rightarrow> http_request" where
  "GetAllCategoriesByServiceId service_id = get_request ''/v1/api/getAllCategoriesByServiceId'' [(''service_id'', JInt service_id)]"

definition GetAllApisByServiceId :: "int \<Rightarrow> int \<Rightarrow> http_request" where
  "GetAllApisByServiceId service_id category_id = get_request ''/v1/api/getAllApisByServiceId''
     [(''service_id'', JInt service_id), (''category_id'', JInt category_id)]"

definition fe_GetApiById :: "int \<Rightarrow> bool option \<Rightarrow> http_request" where
  "fe_GetApiById api_id is_latest = get_request ''/v1/api/getApiById''
     ((''api_id'', JInt api_id) # (case is_latest of None \<Rightarrow> [] | Some b \<Rightarrow> [(''is_latest'', JBool b)]))"

definition AddCategoryByServiceId :: "int \<Rightarrow> string \<Rightarrow> string option \<Rightarrow> http_request" where
  "AddCategoryByServiceId service_id category_name description = post_request ''/v1/api/addCategoryByServiceId''
     (JObj [(''service_id'', JInt service_id), (''category_name'', JStr category_name), (''description'', jopt_str description)])"

definition DeleteCategoryById :: "int \<Rightarrow> http_request" where
  "DeleteCategoryById category_id = post_request ''/v1/api/deleteCategoryById'' (JObj [(''category_id'', JInt category_id)])"

definition UpdateCategoryById :: "int \<Rightarrow> string option \<Rightarrow> string option \<Rightarrow> http_request" where
  "UpdateCategoryById category_id category_name description = post_request ''/v1/api/updateCategoryById''
     (JObj [(''category_id'', JInt category_id), (''category_name'', jopt_str category_name), (''description'', jopt_str description)])"

text \<open>A category id that is \<open>NaN\<close> is written as \<open>null\<close>.\<close>

definition UpdateApiCategoryById :: "int \<Rightarrow> int option \<Rightarrow> http_request" where
  "UpdateApiCategoryById api_id category_id = post_request ''/v1/api/updateApiCategoryById''
     (JObj [(''api_id'', JInt api_id), (''category_id'', case category_id of None \<Rightarrow> JNull | Some c \<Rightarrow> JInt c)])"

record AddApiRequest =
  aa_service_iteration_id :: int
  aa_name :: string
  aa_method :: HttpMethod
  aa_path :: string
  aa_description :: string
  aa_level :: ApiLevel
  aa_category_id :: "int option"

definition AddApi :: "AddApiRequest \<Rightarrow> http_request" where
  "AddApi d = post_request ''/v1/api/addApi''
     (JObj ([(''service_iteration_id'', JInt (aa_service_iteration_id d)), (''name'', JStr (aa_name d)),
             (''method'', JStr (method_str (aa_method d))), (''path'', JStr (aa_path d)),
             (''description'', JStr (aa_description d)), (''level'', JStr (level_str (aa_level d)))] @
            (case aa_category_id d of None \<Rightarrow> [] | Some c \<Rightarrow> [(''category_id'', JInt c)])))"

definition draft_body :: "int \<Rightarrow> int \<Rightarrow> jval" where
  "draft_body service_iteration_id api_draft_id =
     JObj [(''service_iteration_id'', JInt service_iteration_id), (''api_draft_id'', JInt api_draft_id)]"

definition CopyApiByApiDraftId :: "int \<Rightarrow> int \<Rightarrow> http_request" where
  "CopyApiByApiDraftId service_iteration_id api_draft_id =
     post_request ''/v1/api/copyApiByApiDraftId'' (draft_body service_iteration_id api_draft_id)"

definition DeleteApiByApiDraftId :: "int \<Rightarrow> int \<Rightarrow> http_request" where
  "DeleteApiByApiDraftId service_iteration_id api_draft_id =
     post_request ''/v1/api/deleteApiByApiDraftId'' (draft_body service_iteration_id api_draft_id)"

text \<open>The converted parameters as JSON; a member that is \<open>undefined\<close> is left out by \<open>JSON.stringify\<close>.\<close>

definition opt_member :: "string \<Rightarrow> ('a \<Rightarrow> jval) \<Rightarrow> 'a option \<Rightarrow> (string \<times> jval) list" where
  "opt_member k f x = (case x of None \<Rightarrow> [] | Some v \<Rightarrow> [(k, f v)])"

fun req_json :: "ApiReqParamInput \<Rightarrow> jval" where
  "req_json (ReqInput nm ty loc rq df de ex act ch) =
     JObj ([(''name'', JStr nm), (''type'', JStr ty), (''location'', JStr loc), (''required'', JBool rq),
            (''default_value'', jopt_str df)] @ opt_member ''description'' JStr de @ opt_member ''example'' JStr ex @
           [(''array_child_type'', jopt_str act)] @
           (case ch of None \<Rightarrow> [] | Some cs \<Rightarrow> [(''children'', JArr (map req_json cs))]))"

fun resp_json :: "ApiRespParamInput \<Rightarrow> jval" where
  "resp_json (RespInput nm ty code rq de ex act ch) =
     JObj ([(''name'', JStr nm), (''type'', JStr ty),
            (''status_code'', case code of None \<Rightarrow> JNull | Some c \<Rightarrow> JInt c), (''required'', JBool rq)] @
           opt_member ''description'' JStr de @ opt_member ''example'' JStr ex @
           [(''array_child_type'', jopt_str act)] @
           (case ch of None \<Rightarrow> [] | Some cs \<Rightarrow> [(''children'', JArr (map resp_json cs))]))"

text \<open>\<open>req_params\<close> and \<open>resp_params\<close> are sent as JSON text inside the JSON body.\<close>

definition UpdateApiByApiDraftId :: "int \<Rightarrow> update_request \<Rightarrow> http_request" where
  "UpdateApiByApiDraftId service_iteration_id d = post_request ''/v1/api/updateApiByApiDraftId''
     (JObj ([(''api_draft_id'', JInt (up_api_draft_id d)), (''name'', JStr (up_name d)),
             (''method'', JStr (method_str (up_method d))), (''path'', JStr (up_path d))] @
            opt_member ''description'' JStr (up_description d) @
            [(''level'', JStr (level_str (up_level d))),
             (''req_params'', JText (JArr (map req_json (up_req_params d)))),
             (''resp_params'', JText (JArr (map resp_json (up_resp_params d)))),
             (''service_iteration_id'', JInt service_iteration_id)]))"

section \<open>The session contract in the browser\<close>

definition store_token :: "string \<Rightarrow> 's browser \<Rightarrow> 's browser" where
  "store_token t b = b\<lparr>b_token := Some t\<rparr>"

definition usable_token :: "'s browser \<Rightarrow> string option" where
  "usable_token b = (let t = getAccessToken b in if t = [] then None else Some t)"

definition drop_session :: "'s browser \<Rightarrow> 's browser" where
  "drop_session b = b\<lparr>b_token := None, b_user_store := None\<rparr>"

interpretation local_storage: session_store store_token usable_token drop_session
  by unfold_locales (auto simp: store_token_def usable_token_def drop_session_def getAccessToken_def Let_def)

lemma attach_is_auth_header: "hr_auth req = None \<Longrightarrow> hr_auth (fe_attach_token b req) = auth_header (usable_token b)"
  by (simp add: fe_attach_token_def usable_token_def auth_header_def Let_def)

lemma builders_carry_no_token:
  "hr_auth (get_request u ps) = None" "hr_auth (post_request u bd) = None"
  by (simp_all add: get_request_def post_request_def)

text \<open>The request only depends on the token through the header; the rest is what the builder made.\<close>

lemma attach_keeps: "hr_url (fe_attach_token b req) = hr_url req" "hr_params (fe_attach_token b req) = hr_params req"
  "hr_data (fe_attach_token b req) = hr_data req" "hr_method (fe_attach_token b req) = hr_method req"
  by (simp_all add: fe_attach_token_def Let_def)

text \<open>What a rejected request leaves behind.\<close>

lemma fe_send_rejected:
  assumes "fe_send base srv req b = (Inl m, b')"
  shows "m \<noteq> []" "b_token b' = b_token b \<or> (b_token b' = None \<and> b_user_store b' = None \<and> b_reloads b' = b_reloads b + 1)"
  using assms by (auto simp: fe_send_def fe_on_error_def Let_def split: prod.splits reply.splits if_splits)

lemma fe_send_ok:
  assumes "fe_send base srv req b = (Inr x, b')"
  shows "b_token b' = b_token b" "b_user_store b' = b_user_store b" "b_ttl b' = b_ttl b" "b_now b' = b_now b"
  using assms by (auto simp: fe_send_def fe_on_error_def Let_def split: prod.splits reply.splits)

end
