(* ===== verification/Cli_Endpoints.thy ===== *)
theory Cli_Endpoints
  imports Token_Manager Fe_Request
begin

text \<open>
  The endpoint functions of \<open>cam-fe-code-generator/src/services/apis\<close> that no command calls yet; the four
  that are called are in the theory of the token manager.  Each sends one request through the
  interceptors.  They carry the prefix \<open>cli_\<close>, since the front end has functions of the same names.
  An optional number that is missing is \<open>undefined\<close>, which the client leaves out of the query.
\<close>

section \<open>\<open>services/apis/user\<close>\<close>

definition cli_UserRegister :: "('s, 'a) endpoint \<Rightarrow> RegisterRequest \<Rightarrow> ('s, 'a) cmd" where
  "cli_UserRegister srv d = send srv (post_request ''/v1/user/register''
     (JObj [(''username'', JStr (rq_username d)), (''password'', JStr (rq_password d)),
            (''nickname'', JStr (rq_nickname d)), (''email'', JStr (rq_email d)), (''role'', JStr (rq_role d))]))"

definition cli_UserModifyPassword :: "('s, 'a) endpoint \<Rightarrow> ModifyPasswordRequest \<Rightarrow> ('s, 'a) cmd" where
  "cli_UserModifyPassword srv d = send srv (post_request ''/v1/user/modifyPassword''
     (JObj [(''old_password'', JStr (mq_old_password d)), (''new_password'', JStr (mq_new_password d))]))"

definition cli_GetUserById :: "('s, 'a) endpoint \<Rightarrow> int \<Rightarrow> ('s, 'a) cmd" where
  "cli_GetUserById srv uid = send srv (get_request ''/v1/user/getUserById'' [(''id'', JInt uid)])"

definition cli_GetUserByUsernameOrNicknameOrEmail :: "('s, 'a) endpoint \<Rightarrow> string \<Rightarrow> ('s, 'a) cmd" where
  "cli_GetUserByUsernameOrNicknameOrEmail srv q =
     send srv (get_request ''/v1/user/getUserByUsernameOrNicknameOrEmail'' [(''username_or_nickname_or_email'', JStr q)])"

section \<open>\<open>services/apis/service\<close>\<close>

definition opt_page :: "int option \<Rightarrow> int option \<Rightarrow> (string \<times> jval) list" where
  "opt_page page_size current_page = [(''page_size'', jopt_int page_size), (''current_page'', jopt_int current_page)]"

definition cli_GetMyNewestServices :: "('s, 'a) endpoint \<Rightarrow> int option \<Rightarrow> int option \<Rightarrow> ('s, 'a) cmd" where
  "cli_GetMyNewestServices srv page_size current_page =
     send srv (get_request ''/v1/service/getHisNewestServicesByOwnerId''
       (opt_page page_size current_page @ [(''is_my_services'', JBool True)]))"

definition cli_GetAllServices :: "('s, 'a) endpoint \<Rightarrow> int option \<Rightarrow> int option \<Rightarrow> ('s, 'a) cmd" where
  "cli_GetAllServices srv page_size current_page =
     send srv (get_request ''/v1/service/getAllServices'' (opt_page page_size current_page))"

definition cli_GetHisNewestServicesByOwnerId :: "('s, 'a) endpoint \<Rightarrow> int \<Rightarrow> int option \<Rightarrow> int option \<Rightarrow> ('s, 'a) cmd" where
  "cli_GetHisNewestServicesByOwnerId srv owner_id page_size current_page =
     send srv (get_request ''/v1/service/getHisNewestServicesByOwnerId''
       (opt_page page_size current_page @ [(''is_my_services'', JBool False), (''owner_id'', JInt owner_id)]))"

definition cli_GetServiceById :: "('s, 'a) endpoint \<Rightarrow> int \<Rightarrow> ('s, 'a) cmd" where
  "cli_GetServiceById srv sid = send srv (get_request ''/v1/service/getServiceById'' [(''id'', JInt sid)])"

definition cli_GetAllVersionsByUuid :: "('s, 'a) endpoint \<Rightarrow> string \<Rightarrow> ('s, 'a) cmd" where
  "cli_GetAllVersionsByUuid srv service_uuid =
     send srv (get_request ''/v1/service/getAllVersionsByUuid'' [(''service_uuid'', JStr service_uuid)])"

definition cli_CreateNewService :: "('s, 'a) endpoint \<Rightarrow> string \<Rightarrow> string \<Rightarrow> ('s, 'a) cmd" where
  "cli_CreateNewService srv service_uuid description =
     send srv (post_request ''/v1/service/createNewService''
       (JObj [(''service_uuid'', JStr service_uuid), (''description'', JStr description)]))"

definition cli_GetAllDeletedServicesByUserId :: "('s, 'a) endpoint \<Rightarrow> int option \<Rightarrow> int option \<Rightarrow> ('s, 'a) cmd" where
  "cli_GetAllDeletedServicesByUserId srv page_size current_page =
     send srv (get_request ''/v1/service/getAllDeletedServicesByUserId'' (opt_page page_size current_page))"

definition cli_DeleteServiceById :: "('s, 'a) endpoint \<Rightarrow> int \<Rightarrow> ('s, 'a) cmd" where
  "cli_DeleteServiceById srv sid = send srv (post_request ''/v1/service/deleteServiceById'' (JObj [(''id'', JInt sid)]))"

definition cli_RestoreServiceById :: "('s, 'a) endpoint \<Rightarrow> int \<Rightarrow> ('s, 'a) cmd" where
  "cli_RestoreServiceById srv sid = send srv (post_request ''/v1/service/restoreServiceById'' (JObj [(''id'', JInt sid)]))"

definition cli_DeleteIterationById :: "('s, 'a) endpoint \<Rightarrow> int \<Rightarrow> ('s, 'a) cmd" where
  "cli_DeleteIterationById srv service_iteration_id =
     send srv (post_request ''/v1/service/deleteIterationById'' (JObj [(''service_iteration_id'', JInt service_iteration_id)]))"

definition cli_GetIterationById :: "('s, 'a) endpoint \<Rightarrow> int \<Rightarrow> ('s, 'a) cmd" where
  "cli_GetIterationById srv iid = send srv (get_request ''/v1/service/getIterationById'' [(''id'', JInt iid)])"

definition cli_StartIteration :: "('s, 'a) endpoint \<Rightarrow> int \<Rightarrow> ('s, 'a) cmd" where
  "cli_StartIteration srv service_id =
     send srv (post_request ''/v1/service/startIteration'' (JObj [(''service_id'', JInt service_id)]))"

definition cli_CommitIteration :: "('s, 'a) endpoint \<Rightarrow> int \<Rightarrow> string \<Rightarrow> ('s, 'a) cmd" where
  "cli_CommitIteration srv service_iteration_id new_version =
     send srv (post_request ''/v1/service/commitIteration''
       (JObj [(''service_iteration_id'', JInt service_iteration_id), (''new_version'', JStr new_version)]))"

definition cli_UpdateDescription :: "('s, 'a) endpoint \<Rightarrow> int \<Rightarrow> string \<Rightarrow> ('s, 'a) cmd" where
  "cli_UpdateDescription srv service_iteration_id description =
     send srv (post_request ''/v1/service/updateDescription''
       (JObj [(''service_iteration_id'', JInt service_iteration_id), (''description'', JStr description)]))"

section \<open>\<open>services/apis/api\<close>\<close>

definition cli_GetAllCategoriesByServiceId :: "('s, 'a) endpoint \<Rightarrow> int \<Rightarrow> ('s, 'a) cmd" where
  "cli_GetAllCategoriesByServiceId srv service_id =
     send srv (get_request ''/v1/api/getAllCategoriesByServiceId'' [(''service_id'', JInt service_id)])"

definition cli_GetAllApisByServiceId :: "('s, 'a) endpoint \<Rightarrow> int \<Rightarrow> int \<Rightarrow> ('s, 'a) cmd" where
  "cli_GetAllApisByServiceId srv service_id category_id =
     send srv (get_request ''/v1/api/getAllApisByServiceId'' [(''service_id'', JInt service_id), (''category_id'', JInt category_id)])"

definition cli_AddCategoryByServiceId :: "('s, 'a) endpoint \<Rightarrow> int \<Rightarrow> string \<Rightarrow> string option \<Rightarrow> ('s, 'a) cmd" where
  "cli_AddCategoryByServiceId srv service_id category_name description =
     send srv (post_request ''/v1/api/addCategoryByServiceId''
       (JObj [(''service_id'', JInt service_id), (''category_name'', JStr category_name), (''description'', jopt_str description)]))"

definition cli_DeleteCategoryById :: "('s, 'a) endpoint \<Rightarrow> int \<Rightarrow> ('s, 'a) cmd" where
  "cli_DeleteCategoryById srv category_id =
     send srv (post_request ''/v1/api/deleteCategoryById'' (JObj [(''category_id'', JInt category_id)]))"

definition cli_UpdateCategoryById :: "('s, 'a) endpoint \<Rightarrow> int \<Rightarrow> string option \<Rightarrow> string option \<Rightarrow> ('s, 'a) cmd" where
  "cli_UpdateCategoryById srv category_id category_name description =
     send srv (post_request ''/v1/api/updateCategoryById''
       (JObj [(''category_id'', JInt category_id), (''category_name'', jopt_str category_name), (''description'', jopt_str description)]))"

definition cli_UpdateApiCategoryById :: "('s, 'a) endpoint \<Rightarrow> int \<Rightarrow> int \<Rightarrow> ('s, 'a) cmd" where
  "cli_UpdateApiCategoryById srv api_id category_id =
     send srv (post_request ''/v1/api/updateApiCategoryById'' (JObj [(''api_id'', JInt api_id), (''category_id'', JInt category_id)]))"

definition cli_AddApi :: "('s, 'a) endpoint \<Rightarrow> AddApiRequest \<Rightarrow> ('s, 'a) cmd" where
  "cli_AddApi srv d = send srv (post_request ''/v1/api/addApi''
     (JObj ([(''service_iteration_id'', JInt (aa_service_iteration_id d)), (''name'', JStr (aa_name d)),
             (''method'', JStr (method_str (aa_method d))), (''path'', JStr (aa_path d)),
             (''description'', JStr (aa_description d)), (''level'', JStr (level_str (aa_level d)))] @
            (case aa_category_id d of None \<Rightarrow> [] | Some c \<Rightarrow> [(''category_id'', JInt c)]))))"

definition cli_DeleteApiByApiDraftId :: "('s, 'a) endpoint \<Rightarrow> int \<Rightarrow> int \<Rightarrow> ('s, 'a) cmd" where
  "cli_DeleteApiByApiDraftId srv service_iteration_id api_draft_id =
     send srv (post_request ''/v1/api/deleteApiByApiDraftId''
       (JObj [(''service_iteration_id'', JInt service_iteration_id), (''api_draft_id'', JInt api_draft_id)]))"

text \<open>The two lists of parameters are replaced by their JSON texts.\<close>

definition cli_UpdateApiByApiDraftId :: "('s, 'a) endpoint \<Rightarrow> int \<Rightarrow> update_request \<Rightarrow> ('s, 'a) cmd" where
  "cli_UpdateApiByApiDraftId srv service_iteration_id d =
     send srv (post_request ''/v1/api/updateApiByApiDraftId''
       (JObj ([(''api_draft_id'', JInt (up_api_draft_id d)), (''name'', JStr (up_name d)),
               (''method'', JStr (method_str (up_method d))), (''path'', JStr (up_path d))] @
              opt_member ''description'' JStr (up_description d) @
              [(''level'', JStr (level_str (up_level d))),
               (''req_params'', JText (JArr (map req_json (up_req_params d)))),
               (''resp_params'', JText (JArr (map resp_json (up_resp_params d)))),
               (''service_iteration_id'', JInt service_iteration_id)])))"

section \<open>Agreement with the front end\<close>

text \<open>
  Both clients speak to the server in the same way: where they have a function of the same name, it
  sends the same request.
\<close>

lemma endpoints_agree:
  "cli_UserRegister srv d = send srv (UserRegister d)"
  "cli_GetUserById srv i = send srv (GetUserById i)"
  "cli_GetUserByUsernameOrNicknameOrEmail srv q = send srv (GetUserByUsernameOrNicknameOrEmail q)"
  "cli_GetMyNewestServices srv (Some ps) (Some cp) = send srv (GetMyNewestServices ps cp)"
  "cli_GetAllServices srv (Some ps) (Some cp) = send srv (GetAllServices ps cp)"
  "cli_GetHisNewestServicesByOwnerId srv i (Some ps) (Some cp) = send srv (GetHisNewestServicesByOwnerId i ps cp)"
  "cli_GetAllDeletedServicesByUserId srv (Some ps) (Some cp) = send srv (GetAllDeletedServicesByUserId ps cp)"
  "cli_CommitIteration srv i v = send srv (CommitIteration i v)"
  "cli_UpdateApiCategoryById srv a c = send srv (UpdateApiCategoryById a (Some c))"
  "cli_AddApi srv ad = send srv (AddApi ad)"
  "cli_UpdateApiByApiDraftId srv i ud = send srv (UpdateApiByApiDraftId i ud)"
  by (simp_all add: cli_UserRegister_def UserRegister_def cli_GetUserById_def GetUserById_def
      cli_GetUserByUsernameOrNicknameOrEmail_def GetUserByUsernameOrNicknameOrEmail_def
      cli_GetMyNewestServices_def GetMyNewestServices_def cli_GetAllServices_def GetAllServices_def
      cli_GetHisNewestServicesByOwnerId_def GetHisNewestServicesByOwnerId_def cli_GetAllDeletedServicesByUserId_def
      GetAllDeletedServicesByUserId_def opt_page_def page_params_def jopt_int_def cli_CommitIteration_def CommitIteration_def
      cli_UpdateApiCategoryById_def UpdateApiCategoryById_def cli_AddApi_def AddApi_def
      cli_UpdateApiByApiDraftId_def UpdateApiByApiDraftId_def)

end
