(* ===== verification/Generated_Client.thy ===== *)
theory Generated_Client
  imports Service_Class
begin

text \<open>
  What a generated service class does at run time: the meaning of the class text in
  \<open>templates/service-class.ts\<close>.  A request object maps field names to values; \<open>None\<close> is \<open>null\<close> or
  \<open>undefined\<close>, and a value is represented by its \<open>String(v)\<close>, which is all the URL substitution reads.
  The string literals of the template are taken as they are printed: paths and field names without
  quotes and back-slashes.
\<close>

section \<open>Model\<close>

type_synonym request_object = "string \<Rightarrow> string option"

datatype base_url = BaseString string | BaseFunction "string \<Rightarrow> string"

record request_config =
  rc_url :: string
  rc_method :: HttpMethod
  rc_data :: "(string \<times> string option) list option"
  rc_params :: "(string \<times> string option) list option"
  rc_headers :: "(string \<times> string option) list option"

definition is_slash :: "char \<Rightarrow> bool" where
  "is_slash c \<longleftrightarrow> c = CHR ''/''"

definition genBaseURL :: "base_url \<Rightarrow> string \<Rightarrow> string" where
  "genBaseURL baseURL path =
     (case baseURL of
        BaseString b \<Rightarrow>
          (let baseUrl = drop_end is_slash (js_trim b);
               apiPath = dropWhile is_slash (js_trim path)
           in baseUrl @ ''/'' @ apiPath)
      | BaseFunction f \<Rightarrow> f path)"

text \<open>The placeholder of a path parameter, as the generator assumes it: \<open>{field}\<close>.\<close>

definition placeholder :: "string \<Rightarrow> string" where
  "placeholder field = ''{'' @ field @ ''}''"

definition replace_field :: "request_object \<Rightarrow> string \<Rightarrow> string \<Rightarrow> string" where
  "replace_field req field url =
     (case req field of None \<Rightarrow> url
      | Some v \<Rightarrow> js_replace url (placeholder field) v)"

definition field_object :: "request_object \<Rightarrow> string list \<Rightarrow> (string \<times> string option) list option" where
  "field_object req flds =
     (if flds = [] then None else Some (foldl (\<lambda>d f. obj_put f (req f) d) [] flds))"

text \<open>One method of the class: what it passes to \<open>this.request\<close>.\<close>

definition call_method :: "base_url \<Rightarrow> ApiOption \<Rightarrow> request_object \<Rightarrow> request_config" where
  "call_method baseURL opt req =
     \<lparr>rc_url = fold (replace_field req) (reqPathFields opt) (genBaseURL baseURL (apiPath opt)),
      rc_method = apiMethod opt,
      rc_data = field_object req (reqBodyFields opt),
      rc_params = field_object req (reqQueryFields opt),
      rc_headers = field_object req (reqHeaderFields opt)\<rparr>"

section \<open>URL templates\<close>

text \<open>A URL as literal text and placeholders, the shape the path-parameter convention assumes.\<close>

datatype piece = Lit string | Hole string

fun render_piece :: "piece \<Rightarrow> string" where
  "render_piece (Lit s) = s"
| "render_piece (Hole f) = placeholder f"

definition render_url :: "piece list \<Rightarrow> string" where
  "render_url ps = concat (map render_piece ps)"

fun fill :: "request_object \<Rightarrow> piece \<Rightarrow> piece" where
  "fill req (Lit s) = Lit s"
| "fill req (Hole f) = (case req f of None \<Rightarrow> Hole f | Some v \<Rightarrow> Lit v)"

fun hole :: "piece \<Rightarrow> string list" where
  "hole (Lit s) = []"
| "hole (Hole f) = [f]"

definition holes :: "piece list \<Rightarrow> string list" where
  "holes ps = concat (map hole ps)"

definition brace_free :: "string \<Rightarrow> bool" where
  "brace_free s \<longleftrightarrow> CHR ''{'' \<notin> set s \<and> CHR ''}'' \<notin> set s"

fun piece_ok :: "piece \<Rightarrow> bool" where
  "piece_ok (Lit s) = brace_free s"
| "piece_ok (Hole f) = brace_free f"

lemma render_url_Cons [simp]: "render_url (p # ps) = render_piece p @ render_url ps"
  by (simp add: render_url_def)

lemma render_url_Nil [simp]: "render_url [] = []"
  by (simp add: render_url_def)

lemma holes_simps [simp]: "holes [] = []" "holes (p # ps) = hole p @ holes ps"
  by (simp_all add: holes_def)

lemma render_url_append [simp]: "render_url (ps @ qs) = render_url ps @ render_url qs"
  by (simp add: render_url_def)

lemma holes_append [simp]: "holes (ps @ qs) = holes ps @ holes qs"
  by (simp add: holes_def)

lemma set_holes: "f \<in> set (holes ps) \<longleftrightarrow> Hole f \<in> set ps"
proof (induction ps)
  case (Cons p ps)
  then show ?case by (cases p) auto
qed simp

lemma find_sub_skip:
  "c \<notin> set l \<Longrightarrow> find_sub (c # p) (l @ s) = map_option (\<lambda>(b, a). (l @ b, a)) (find_sub (c # p) s)"
proof (induction l)
  case Nil
  then show ?case by (cases "find_sub (c # p) s") auto
next
  case (Cons x l)
  then show ?case
    by (simp add: find_sub.simps [of "c # p" "x # l @ s"] option.map_comp o_def split_beta)
qed

lemma delimited_eq:
  assumes "f @ c # z = g @ c # s" "c \<notin> set f" "c \<notin> set g"
  shows "f = g"
proof -
  have take: "takeWhile (\<lambda>x. x \<noteq> c) (h @ c # t) = h" if "c \<notin> set h" for h t
    using that by (induction h) auto
  have "takeWhile (\<lambda>x. x \<noteq> c) (f @ c # z) = takeWhile (\<lambda>x. x \<noteq> c) (g @ c # s)" by (simp only: assms(1))
  then show ?thesis by (simp only: take [OF assms(2)] take [OF assms(3)])
qed

lemma placeholder_prefix:
  assumes "brace_free f" "brace_free g" "prefix (placeholder f) (placeholder g @ s)"
  shows "f = g"
proof -
  from assms(3) obtain z where "f @ CHR ''}'' # z = g @ CHR ''}'' # s"
    by (auto simp: prefix_def placeholder_def)
  then show ?thesis by (rule delimited_eq) (use assms in \<open>auto simp: brace_free_def\<close>)
qed

lemma find_in_lit:
  "brace_free l \<Longrightarrow>
   find_sub (placeholder f) (l @ s) = map_option (\<lambda>(b, a). (l @ b, a)) (find_sub (placeholder f) s)"
  unfolding placeholder_def append_Cons append_Nil by (rule find_sub_skip) (simp add: brace_free_def)

lemma find_in_hole:
  assumes "brace_free f" "brace_free g" "f \<noteq> g"
  shows "find_sub (placeholder f) (placeholder g @ s) =
    map_option (\<lambda>(b, a). (placeholder g @ b, a)) (find_sub (placeholder f) s)"
proof -
  have n: "\<not> prefix (placeholder f) (placeholder g @ s)" using placeholder_prefix assms by blast
  have g: "placeholder g @ s = CHR ''{'' # (g @ ''}'') @ s" by (simp add: placeholder_def)
  have "find_sub (placeholder f) (placeholder g @ s) =
      map_option (\<lambda>(b, a). (CHR ''{'' # b, a)) (find_sub (placeholder f) ((g @ ''}'') @ s))"
    using n unfolding g by (subst find_sub.simps) simp
  also have "find_sub (placeholder f) ((g @ ''}'') @ s) =
      map_option (\<lambda>(b, a). ((g @ ''}'') @ b, a)) (find_sub (placeholder f) s)"
    unfolding placeholder_def append_Cons append_Nil
    by (rule find_sub_skip) (use assms in \<open>simp add: brace_free_def\<close>)
  finally show ?thesis by (cases "find_sub (placeholder f) s") (auto simp: placeholder_def)
qed

lemma find_placeholder:
  assumes "list_all piece_ok ys" "brace_free f" "Hole f \<notin> set ys"
  shows "find_sub (placeholder f) (render_url (ys @ Hole f # zs)) = Some (render_url ys, render_url zs)"
  using assms
proof (induction ys)
  case Nil
  then show ?case by (subst find_sub.simps) simp
next
  case (Cons p ys)
  then show ?case by (cases p) (simp_all add: find_in_lit find_in_hole)
qed

lemma find_no_placeholder:
  assumes "list_all piece_ok ys" "brace_free f" "Hole f \<notin> set ys"
  shows "find_sub (placeholder f) (render_url ys) = None"
  using assms
proof (induction ys)
  case Nil
  then show ?case by (simp add: find_sub.simps placeholder_def)
next
  case (Cons p ys)
  then show ?case by (cases p) (simp_all add: find_in_lit find_in_hole)
qed

section \<open>Path parameters\<close>

definition value_ok :: "string \<Rightarrow> bool" where
  "value_ok v \<longleftrightarrow> brace_free v \<and> CHR ''$'' \<notin> set v"

lemma fill_no_hole: "Hole f \<notin> set ps \<Longrightarrow> map (fill (req |` {f})) ps = ps"
proof (induction ps)
  case (Cons p ps)
  then show ?case by (cases p) (auto simp: restrict_map_def)
qed simp

lemma replace_field_fill:
  assumes "list_all piece_ok ps" "distinct (holes ps)" "brace_free f"
    and "\<And>v. req f = Some v \<Longrightarrow> CHR ''$'' \<notin> set v"
  shows "replace_field req f (render_url ps) = render_url (map (fill (req |` {f})) ps)"
proof (cases "Hole f \<in> set ps")
  case False
  then show ?thesis
    using find_no_placeholder [OF assms(1,3) False]
    by (auto simp: replace_field_def js_replace_def fill_no_hole split: option.splits)
next
  case True
  then obtain ys zs where ps: "ps = ys @ Hole f # zs" "Hole f \<notin> set ys" by (meson split_list_first)
  with assms(2) have zs: "Hole f \<notin> set zs" by (auto simp: set_holes)
  have "find_sub (placeholder f) (render_url ps) = Some (render_url ys, render_url zs)"
    using find_placeholder [of ys f zs] ps assms(1,3) by simp
  with assms(4) ps zs show ?thesis
    by (cases "req f") (auto simp: replace_field_def js_replace_plain fill_no_hole)
qed

lemma fill_fill: "fill (req |` F) (fill (req |` {f}) p) = fill (req |` insert f F) p"
  by (cases p) (auto simp: restrict_map_def split: option.splits)

lemma fill_ok:
  assumes "list_all piece_ok ps" "\<And>v. req f = Some v \<Longrightarrow> brace_free v"
  shows "list_all piece_ok (map (fill (req |` {f})) ps)"
  using assms(1)
proof (induction ps)
  case (Cons p ps)
  then show ?case using assms(2) by (cases p) (auto simp: restrict_map_def split: option.splits)
qed simp

lemma holes_fill: "set (holes (map (fill req) ps)) \<subseteq> set (holes ps)"
proof (induction ps)
  case (Cons p ps)
  then show ?case by (cases p) (auto split: option.splits)
qed simp

lemma holes_fill_distinct: "distinct (holes ps) \<Longrightarrow> distinct (holes (map (fill req) ps))"
proof (induction ps)
  case (Cons p ps)
  then show ?case using holes_fill [of req ps] by (cases p) (auto split: option.splits)
qed simp

lemma fold_replace_fill:
  assumes "list_all piece_ok ps" "distinct (holes ps)" "list_all brace_free fs"
    and "\<forall>f\<in>set fs. \<forall>v. req f = Some v \<longrightarrow> value_ok v"
  shows "fold (replace_field req) fs (render_url ps) = render_url (map (fill (req |` set fs)) ps)"
  using assms
proof (induction fs arbitrary: ps)
  case Nil
  have "map (fill (req |` {})) ps = ps" by (rule map_idI) (case_tac x, auto)
  then show ?case by simp
next
  case (Cons f fs)
  let ?qs = "map (fill (req |` {f})) ps"
  have "replace_field req f (render_url ps) = render_url ?qs"
    using Cons.prems by (intro replace_field_fill) (auto simp: value_ok_def)
  moreover have "fold (replace_field req) fs (render_url ?qs) = render_url (map (fill (req |` set fs)) ?qs)"
    using Cons.prems by (intro Cons.IH fill_ok holes_fill_distinct) (auto simp: value_ok_def)
  ultimately show ?case by (simp add: fill_fill o_def)
qed

text \<open>
  C20: Path parameters are substituted.  When the joined URL is a template of literal text and
  \<open>{field}\<close> placeholders, each placeholder occurring once, and the values contain no brace and no
  dollar sign, the URL a generated method requests is the template with the placeholder of every
  declared path field replaced by its value, in whatever order the fields are declared; placeholders
  of absent values stay.
\<close>

theorem call_method_url:
  assumes "genBaseURL baseURL (apiPath opt) = render_url ps"
    and "list_all piece_ok ps" "distinct (holes ps)" "list_all brace_free (reqPathFields opt)"
    and "\<forall>f\<in>set (reqPathFields opt). \<forall>v. req f = Some v \<longrightarrow> value_ok v"
  shows "rc_url (call_method baseURL opt req) = render_url (map (fill (req |` set (reqPathFields opt))) ps)"
  using fold_replace_fill [OF assms(2-5)] by (simp add: call_method_def assms(1))

definition demo_option :: ApiOption where
  "demo_option = \<lparr>functionName = ''GetOrderGET'', apiMethod = GET, apiPath = ''/users/{uid}/orders/{oid}'',
     apiDescription = [], reqBodyInterfaceName = [], reqQueryInterfaceName = [],
     reqPathInterfaceName = ''GetOrderPathRequest'', reqHeaderInterfaceName = [],
     reqCookieInterfaceName = [], respInterfaceNames = [], reqBodyFields = [], reqQueryFields = [],
     reqPathFields = [''oid'', ''uid''], reqHeaderFields = [], reqCookieFields = []\<rparr>"

definition demo_request :: request_object where
  "demo_request = [''uid'' \<mapsto> ''7'', ''oid'' \<mapsto> ''42'']"

theorem call_method_url_witness:
  "rc_url (call_method (BaseString ''http://h/'') demo_option demo_request) =
     ''http://h/users/7/orders/42''"
proof -
  let ?ps = "[Lit ''http://h/users/'', Hole ''uid'', Lit ''/orders/'', Hole ''oid'']"
  have u: "genBaseURL (BaseString ''http://h/'') (apiPath demo_option) = render_url ?ps"
    by (simp add: genBaseURL_def demo_option_def placeholder_def drop_end_def js_trim_def is_space_def is_slash_def)
  have ok: "list_all piece_ok ?ps" "distinct (holes ?ps)" "list_all brace_free (reqPathFields demo_option)"
    by (simp_all add: brace_free_def demo_option_def)
  have "\<forall>f\<in>set (reqPathFields demo_option). \<forall>v. demo_request f = Some v \<longrightarrow> value_ok v"
    by (simp add: demo_option_def demo_request_def value_ok_def brace_free_def)
  from call_method_url [OF u ok this]
  have "rc_url (call_method (BaseString ''http://h/'') demo_option demo_request) =
      render_url (map (fill (demo_request |` set (reqPathFields demo_option))) ?ps)" .
  also have "\<dots> = ''http://h/users/7/orders/42''" by (simp add: demo_option_def demo_request_def)
  finally show ?thesis .
qed

text \<open>
  The replacement text of \<open>String.prototype.replace\<close> is a pattern, so a path value that contains
  \<open>$&\<close> is not inserted literally: the placeholder itself comes back into the URL.
\<close>

theorem path_value_dollar:
  "replace_field [''id'' \<mapsto> ''a$&b''] ''id'' ''/item/{id}'' = ''/item/a{id}b''"
  by (simp add: replace_field_def js_replace_def placeholder_def find_sub.simps)

text \<open>
  A string base URL and a path are joined by exactly one slash: the part before it does not end
  in a slash and the part after it does not start with one, whatever slashes and white space surround
  the two arguments.
\<close>

theorem genBaseURL_one_slash:
  "\<exists>b p. genBaseURL (BaseString base) path = b @ ''/'' @ p \<and>
     (b = [] \<or> last b \<noteq> CHR ''/'') \<and> (p = [] \<or> hd p \<noteq> CHR ''/'') \<and>
     (\<exists>t. js_trim base = b @ t \<and> list_all is_slash t) \<and>
     (\<exists>t. js_trim path = t @ p \<and> list_all is_slash t)"
proof -
  let ?b = "drop_end is_slash (js_trim base)" and ?p = "dropWhile is_slash (js_trim path)"
  have "?b = [] \<or> last ?b \<noteq> CHR ''/''" using drop_end_last [of is_slash "js_trim base"] by (auto simp: is_slash_def)
  moreover have "?p = [] \<or> hd ?p \<noteq> CHR ''/''"
    using hd_dropWhile [of is_slash "js_trim path"] by (auto simp: is_slash_def)
  moreover have "\<exists>t. js_trim base = ?b @ t \<and> list_all is_slash t"
    using drop_end_split [of "js_trim base" is_slash] by (auto simp: list_all_iff)
  moreover have "\<exists>t. js_trim path = t @ ?p \<and> list_all is_slash t"
    by (rule exI [of _ "takeWhile is_slash (js_trim path)"]) (auto simp: list_all_iff dest: set_takeWhileD)
  moreover have "genBaseURL (BaseString base) path = ?b @ ''/'' @ ?p" by (simp add: genBaseURL_def Let_def)
  ultimately show ?thesis by blast
qed

theorem genBaseURL_one_slash_witness:
  "genBaseURL (BaseString '' http://h//'') ''//users/'' = ''http://h/users/'' \<and>
   (\<exists>b p. ''http://h/users/'' = b @ ''/'' @ p \<and>
     (b = [] \<or> last b \<noteq> CHR ''/'') \<and> (p = [] \<or> hd p \<noteq> CHR ''/'') \<and>
     (\<exists>t. js_trim '' http://h//'' = b @ t \<and> list_all is_slash t) \<and>
     (\<exists>t. js_trim ''//users/'' = t @ p \<and> list_all is_slash t))"
proof -
  have "genBaseURL (BaseString '' http://h//'') ''//users/'' = ''http://h/users/''"
    by (simp add: genBaseURL_def drop_end_def js_trim_def is_space_def is_slash_def)
  then show ?thesis using genBaseURL_one_slash [of "'' http://h//''" "''//users/''"] by (simp only: simp_thms)
qed

end
