(* ===== verification/Fe_User.thy ===== *)
theory Fe_User
  imports Fe_Request
begin

text \<open>
  The user store of the front end, \<open>FE-CAM/src/hooks/useUser.tsx\<close>: signing in and out, registration,
  changing the password, the cached profile and its expiry.

  The store is created with the \<open>persist\<close> middleware of the \<open>zustand\<close> package.  What it writes to
  \<open>sessionStorage\<close> after an update and what it restores from there are the parameters \<open>persist\<close> and
  \<open>hydrate\<close>; \<open>persist_ok\<close> states its documented behaviour.  An asynchronous method runs to its end
  before the next one starts here; \<open>Fe_Session\<close> takes the methods apart where they wait for an answer.
\<close>

section \<open>State\<close>

definition USER_STORE_TTL :: int where
  "USER_STORE_TTL = 60 * 60 * 1000"

definition VALID_ROLES :: "string list" where
  "VALID_ROLES = [''frontend'', ''backend'', ''fullstack'', ''qa'', ''devops'', ''product_manager'',
     ''designer'', ''architect'', ''proj_lead'', ''guest'']"

text \<open>\<open>us_token\<close> is the variable \<open>token\<close> of the closure; \<open>null\<close> and \<open>""\<close> are both falsy.\<close>

record user_state =
  us_user :: "UserProfile option"
  us_loading :: bool
  us_token :: string
  us_toasts :: "toast list"

type_synonym persister = "UserProfile option \<Rightarrow> UserProfile option option \<Rightarrow> UserProfile option option"
type_synonym hydrator = "UserProfile option option \<Rightarrow> UserProfile option"
type_synonym 's page = "'s browser \<times> user_state"

definition persist_ok :: "persister \<Rightarrow> hydrator \<Rightarrow> bool" where
  "persist_ok persist hydrate \<longleftrightarrow> (\<forall>u s. hydrate (persist u s) = u) \<and> hydrate None = None"

text \<open>\<open>set({...})\<close>: update the store, then write the part selected by \<open>partialize\<close>.\<close>

definition zset :: "persister \<Rightarrow> (user_state \<Rightarrow> user_state) \<Rightarrow> 's page \<Rightarrow> 's page" where
  "zset persist f p =
     (case p of (b, u) \<Rightarrow> (b\<lparr>b_user_store := persist (us_user (f u)) (b_user_store b)\<rparr>, f u))"

definition page_toast :: "toast \<Rightarrow> 's page \<Rightarrow> 's page" where
  "page_toast m p = (case p of (b, u) \<Rightarrow> (b, u\<lparr>us_toasts := us_toasts u @ [m]\<rparr>))"

definition on_browser :: "('s browser \<Rightarrow> 's browser) \<Rightarrow> 's page \<Rightarrow> 's page" where
  "on_browser f p = (case p of (b, u) \<Rightarrow> (f b, u))"

text \<open>Creation of the store when the page loads.\<close>

definition init_browser :: "'s browser \<Rightarrow> 's browser" where
  "init_browser b =
     (let b1 = (if \<not> truthy_str (b_token b) then b\<lparr>b_user_store := None\<rparr> else b)
      in case b_ttl b1 of
           Some ttl \<Rightarrow> if ttl < b_now b1 then b1\<lparr>b_user_store := None\<rparr> else b1
         | None \<Rightarrow> b1)"

definition user_init :: "hydrator \<Rightarrow> 's browser \<Rightarrow> 's page" where
  "user_init hydrate b =
     (let b' = init_browser b in
      (b', \<lparr>us_user = hydrate (b_user_store b'), us_loading = False, us_token = or_str (b_token b) [], us_toasts = []\<rparr>))"

section \<open>Methods of the store\<close>

text \<open>The part of \<open>fetchUser\<close> after the answer of \<open>GetMyInfo\<close>.\<close>

definition fetchUser_done :: "persister \<Rightarrow> string + UserResponse \<Rightarrow> 's page \<Rightarrow> 's page" where
  "fetchUser_done persist r p =
     (case r of
        Inl _ \<Rightarrow>
          on_browser (\<lambda>b. b\<lparr>b_token := None\<rparr>) (zset persist (\<lambda>u. u\<lparr>us_loading := False, us_user := None\<rparr>) p)
      | Inr res \<Rightarrow>
          if ur_status res \<noteq> 200 then
            on_browser (\<lambda>b. b\<lparr>b_token := None, b_user_store := None\<rparr>)
              (zset persist (\<lambda>u. u\<lparr>us_loading := False, us_user := None\<rparr>)
                (page_toast (WarningToast (or_str (Some (ur_message res)) ''fetching the user failed'')) p))
          else
            on_browser (\<lambda>b. b\<lparr>b_ttl := Some (b_now b + USER_STORE_TTL)\<rparr>)
              (zset persist (\<lambda>u. u\<lparr>us_user := ur_user res, us_loading := False\<rparr>) p))"

definition fetchUser :: "persister \<Rightarrow> string \<Rightarrow> ('s, UserResponse) endpoint \<Rightarrow> 's page \<Rightarrow> 's page" where
  "fetchUser persist base srv p =
     (if us_token (snd p) = [] then p
      else if us_user (snd p) \<noteq> None \<and> \<not> us_loading (snd p) then p
      else case zset persist (\<lambda>u. u\<lparr>us_loading := True\<rparr>) p of
        (b, u) \<Rightarrow> (case fe_send base srv fe_GetMyInfo b of (r, b') \<Rightarrow> fetchUser_done persist r (b', u)))"

record 'a status_response =
  sr_status :: int
  sr_message :: string
  sr_data :: 'a

definition getUserByUsernameOrNicknameOrEmail ::
    "string \<Rightarrow> ('s, UserProfile list status_response) endpoint \<Rightarrow> string \<Rightarrow> 's page \<Rightarrow> (string + UserProfile list) \<times> 's page" where
  "getUserByUsernameOrNicknameOrEmail base srv q p =
     (case p of (b, u) \<Rightarrow>
       (case fe_send base srv (GetUserByUsernameOrNicknameOrEmail q) b of
          (Inl e, b') \<Rightarrow> (Inl e, (b', u))
        | (Inr res, b') \<Rightarrow>
            (if sr_status res \<noteq> 200 then Inl (or_str (Some (sr_message res)) ''fetching the user failed'') else Inr (sr_data res),
             (b', u))))"

definition fe_login ::
    "persister \<Rightarrow> string \<Rightarrow> ('s, LoginResponse) endpoint \<Rightarrow> ('s, UserResponse) endpoint \<Rightarrow> LoginRequest \<Rightarrow>
     's page \<Rightarrow> (string + LoginResponse) \<times> 's page" where
  "fe_login persist base srvLogin srvInfo formData p =
     (case p of (b, u) \<Rightarrow>
       (case fe_send base srvLogin (fe_UserLogin formData) b of
          (Inl e, b') \<Rightarrow> (Inl e, (b', u))
        | (Inr res, b') \<Rightarrow>
            if lr_status res \<noteq> 200 then (Inl (or_str (Some (lr_message res)) ''login failed''), (b', u))
            else
              (let token = lr_access_token res;
                   p1 = (b'\<lparr>b_token := Some token\<rparr>, u\<lparr>us_token := token\<rparr>)
               in (Inr res, fetchUser persist base srvInfo p1))))"

definition fe_logout :: "persister \<Rightarrow> 's page \<Rightarrow> 's page" where
  "fe_logout persist p =
     (case p of (b, u) \<Rightarrow>
       zset persist (\<lambda>u. u\<lparr>us_user := None\<rparr>) (b\<lparr>b_token := None, b_user_store := None\<rparr>, u\<lparr>us_token := []\<rparr>))"

section \<open>Registration and password\<close>

definition username_ok :: "string \<Rightarrow> bool" where
  "username_ok s \<longleftrightarrow> s \<noteq> [] \<and> list_all (\<lambda>c. is_alnum c \<or> c = CHR ''_'') s"

definition is_alpha :: "char \<Rightarrow> bool" where
  "is_alpha c \<longleftrightarrow> is_lower c \<or> is_upper c"

definition local_char :: "char \<Rightarrow> bool" where
  "local_char c \<longleftrightarrow> is_alnum c \<or> c \<in> set ''._%+-''"

definition domain_char :: "char \<Rightarrow> bool" where
  "domain_char c \<longleftrightarrow> is_alnum c \<or> c \<in> set ''.-''"

text \<open>
  \<open>/^[a-zA-Z0-9._%+-]+@[a-zA-Z0-9.-]+\.[a-zA-Z]{2,}$/\<close>, decided by cutting at the only possible \<open>@\<close>
  and at the last dot.
\<close>

definition email_ok :: "string \<Rightarrow> bool" where
  "email_ok s \<longleftrightarrow>
     (case split_on CHR ''@'' s of
        [l, d] \<Rightarrow> l \<noteq> [] \<and> list_all local_char l \<and>
          (case rev (split_on CHR ''.'' d) of
             tld # rest \<Rightarrow> length tld \<ge> 2 \<and> list_all is_alpha tld \<and>
               join ''.'' (rev rest) \<noteq> [] \<and> list_all domain_char (join ''.'' (rev rest))
           | [] \<Rightarrow> False)
      | _ \<Rightarrow> False)"

datatype register_error = PasswordsDiffer | BadUsername | BadEmail | BadRole

definition check_register :: "RegisterRequest \<Rightarrow> string \<Rightarrow> register_error option" where
  "check_register formData confirmPassword =
     (if rq_password formData \<noteq> confirmPassword then Some PasswordsDiffer
      else if \<not> username_ok (rq_username formData) then Some BadUsername
      else if \<not> email_ok (rq_email formData) then Some BadEmail
      else if rq_role formData \<notin> set VALID_ROLES then Some BadRole
      else None)"

fun register_error_text :: "register_error \<Rightarrow> string" where
  "register_error_text PasswordsDiffer = ''the passwords differ''"
| "register_error_text BadUsername = ''letters, digits and underscores only''"
| "register_error_text BadEmail = ''not an e-mail address''"
| "register_error_text BadRole = ''not a role''"

definition register ::
    "string \<Rightarrow> ('s, BaseResponse) endpoint \<Rightarrow> RegisterRequest \<Rightarrow> string \<Rightarrow> 's page \<Rightarrow> (string + BaseResponse) \<times> 's page" where
  "register base srv formData confirmPassword p =
     (case check_register formData confirmPassword of
        Some e \<Rightarrow> (Inl (register_error_text e), p)
      | None \<Rightarrow>
          (case p of (b, u) \<Rightarrow>
            (case fe_send base srv (UserRegister formData) b of
               (Inl e, b') \<Rightarrow> (Inl e, (b', u))
             | (Inr res, b') \<Rightarrow>
                 (if status res \<noteq> 200 then Inl (or_str (Some (message res)) ''registration failed'') else Inr res, (b', u)))))"

definition modifyPassword ::
    "string \<Rightarrow> ('s, BaseResponse) endpoint \<Rightarrow> ModifyPasswordRequest \<Rightarrow> string \<Rightarrow> 's page \<Rightarrow> (string + BaseResponse) \<times> 's page" where
  "modifyPassword base srv formData confirm_new_password p =
     (if mq_new_password formData \<noteq> confirm_new_password then (Inl ''the new passwords differ'', p)
      else case p of (b, u) \<Rightarrow>
        (case fe_send base srv (UserModifyPassword formData confirm_new_password) b of
           (Inl e, b') \<Rightarrow> (Inl e, (b', u))
         | (Inr res, b') \<Rightarrow>
             (if status res \<noteq> 200 then Inl (or_str (Some (message res)) ''changing the password failed'') else Inr res, (b', u))))"

section \<open>Dialogs\<close>

text \<open>
  The \<open>onOk\<close> functions of the three dialogs.  \<open>validated\<close> is the outcome of \<open>form.validate()\<close>:
  \<open>Inl\<close> when it rejects, with the message if the reason is an \<open>Error\<close>.  The first component of the
  result tells whether the dialog was closed; it stays open when the error is thrown on.
\<close>

definition dialog :: "string \<Rightarrow> string \<Rightarrow> string option + unit \<Rightarrow> ('s page \<Rightarrow> (string + string) \<times> 's page) \<Rightarrow> 's page \<Rightarrow> bool \<times> 's page" where
  "dialog success failure validated act p =
     (case validated of
        Inl None \<Rightarrow> (False, page_toast (ErrorToast failure) p)
      | Inl (Some m) \<Rightarrow> (False, page_toast (ErrorToast m) p)
      | Inr _ \<Rightarrow>
          (case act p of
             (Inl m, p') \<Rightarrow> (False, page_toast (ErrorToast m) p')
           | (Inr m, p') \<Rightarrow> (True, page_toast (SuccessToast (or_str (Some m) success)) p')))"

definition openLoginModal ::
    "persister \<Rightarrow> string \<Rightarrow> ('s, LoginResponse) endpoint \<Rightarrow> ('s, UserResponse) endpoint \<Rightarrow> string option + unit \<Rightarrow>
     LoginRequest \<Rightarrow> 's page \<Rightarrow> bool \<times> 's page" where
  "openLoginModal persist base srvLogin srvInfo validated values =
     dialog ''login.success'' ''login.failure'' validated
       (\<lambda>p. map_prod (map_sum (\<lambda>e. e) lr_message) (\<lambda>p. p) (fe_login persist base srvLogin srvInfo values p))"

definition openRegisterModal ::
    "string \<Rightarrow> ('s, BaseResponse) endpoint \<Rightarrow> string option + unit \<Rightarrow> RegisterRequest \<Rightarrow> string \<Rightarrow> 's page \<Rightarrow> bool \<times> 's page" where
  "openRegisterModal base srv validated values confirmPassword =
     dialog ''register.success'' ''register.failure'' validated
       (\<lambda>p. map_prod (map_sum (\<lambda>e. e) message) (\<lambda>p. p) (register base srv values confirmPassword p))"

definition openModifyPasswordModal ::
    "string \<Rightarrow> ('s, BaseResponse) endpoint \<Rightarrow> string option + unit \<Rightarrow> ModifyPasswordRequest \<Rightarrow> string \<Rightarrow> 's page \<Rightarrow> bool \<times> 's page" where
  "openModifyPasswordModal base srv validated values confirm_new_password =
     dialog ''modifyPassword.success'' ''modifyPassword.failure'' validated
       (\<lambda>p. map_prod (map_sum (\<lambda>e. e) message) (\<lambda>p. p) (modifyPassword base srv values confirm_new_password p))"

section \<open>The checks of the registration form\<close>

lemma local_char_no_at: "list_all local_char l \<Longrightarrow> CHR ''@'' \<notin> set l"
proof
  assume "list_all local_char l" "CHR ''@'' \<in> set l"
  then have "local_char CHR ''@''" by (simp add: list_all_iff)
  moreover have "\<not> local_char CHR ''@''" by code_simp
  ultimately show False by simp
qed

lemma class_no_at: "\<not> domain_char CHR ''@''" "\<not> is_alpha CHR ''@''" "\<not> is_alpha CHR ''.''"
  by code_simp+

lemma domain_split:
  assumes "list_all is_alpha t"
  shows "split_on CHR ''.'' (d @ ''.'' @ t) = split_on CHR ''.'' d @ [t]"
proof -
  have t: "split_on CHR ''.'' t = [t]"
    using assms class_no_at(3) by (intro split_on_free) (auto simp: list_all_iff)
  show ?thesis
  proof (induction d)
    case (Cons c d)
    then show ?case by (cases "split_on CHR ''.'' d") simp_all
  qed (simp add: t)
qed

lemma email_ok_matches:
  assumes "l \<noteq> []" "list_all local_char l" "d \<noteq> []" "list_all domain_char d" "length t \<ge> 2" "list_all is_alpha t"
  shows "email_ok (l @ ''@'' @ d @ ''.'' @ t)"
proof -
  have "CHR ''@'' \<notin> set (d @ ''.'' @ t)" using assms(4,6) class_no_at by (auto simp: list_all_iff)
  then have at: "split_on CHR ''@'' (l @ ''@'' @ d @ ''.'' @ t) = [l, d @ ''.'' @ t]"
    using split_on_append [OF local_char_no_at [OF assms(2)], of "d @ ''.'' @ t"] by (simp add: split_on_free)
  show ?thesis
    unfolding email_ok_def at using domain_split [OF assms(6), of d] assms join_split_on [of "CHR ''.''" d] by simp
qed

lemma email_ok_shape:
  assumes "email_ok s"
  shows "\<exists>l d t. s = l @ ''@'' @ d @ ''.'' @ t \<and> l \<noteq> [] \<and> list_all local_char l \<and> d \<noteq> [] \<and> list_all domain_char d \<and>
    length t \<ge> 2 \<and> list_all is_alpha t"
proof -
  from assms obtain l d where ld: "split_on CHR ''@'' s = [l, d]" "l \<noteq> []" "list_all local_char l"
    and d: "case rev (split_on CHR ''.'' d) of
             tld # rest \<Rightarrow> length tld \<ge> 2 \<and> list_all is_alpha tld \<and>
               join ''.'' (rev rest) \<noteq> [] \<and> list_all domain_char (join ''.'' (rev rest))
           | [] \<Rightarrow> False"
    by (auto simp: email_ok_def split: list.splits)
  from d obtain t rest where r: "rev (split_on CHR ''.'' d) = t # rest"
    and t: "length t \<ge> 2" "list_all is_alpha t" "join ''.'' (rev rest) \<noteq> []" "list_all domain_char (join ''.'' (rev rest))"
    by (auto split: list.splits)
  have "split_on CHR ''.'' d = rev rest @ [t]" using r by (metis rev.simps(2) rev_rev_ident)
  moreover have "rev rest \<noteq> []" using t(3) by auto
  moreover have "join ''.'' (xs @ [t]) = join ''.'' xs @ ''.'' @ t" if "xs \<noteq> []" for xs
    using that by (induction xs rule: list_nonempty_induct) (auto simp: join_Cons)
  ultimately have "d = join ''.'' (rev rest) @ ''.'' @ t" using join_split_on [of "CHR ''.''" d] by metis
  moreover have "s = l @ ''@'' @ d" using join_split_on [of "CHR ''@''" s] by (simp add: ld(1))
  ultimately show ?thesis using ld t by blast
qed

text \<open>
  A registration reaches the server exactly when the passwords agree, the user name consists of
  letters, digits and underscores, the address has the form the pattern describes and the role is one
  of the ten; otherwise the server's state, the storages and the store are left alone.
\<close>

theorem register_checked:
  "(check_register f c = None \<longleftrightarrow>
      rq_password f = c \<and> username_ok (rq_username f) \<and> rq_role f \<in> set VALID_ROLES \<and>
      (\<exists>l d t. rq_email f = l @ ''@'' @ d @ ''.'' @ t \<and> l \<noteq> [] \<and> list_all local_char l \<and> d \<noteq> [] \<and> list_all domain_char d \<and>
         length t \<ge> 2 \<and> list_all is_alpha t)) \<and>
   (check_register f c \<noteq> None \<longrightarrow> snd (register base srv f c p) = p \<and> (\<exists>e. fst (register base srv f c p) = Inl e))"
proof -
  have "email_ok s \<longleftrightarrow> (\<exists>l d t. s = l @ ''@'' @ d @ ''.'' @ t \<and> l \<noteq> [] \<and> list_all local_char l \<and> d \<noteq> [] \<and> list_all domain_char d \<and>
     length t \<ge> 2 \<and> list_all is_alpha t)" for s
    using email_ok_matches email_ok_shape by blast
  then show ?thesis by (auto simp: check_register_def register_def)
qed

definition demo_register :: RegisterRequest where
  "demo_register = \<lparr>rq_username = ''bo'', rq_password = ''p'', rq_nickname = ''b'', rq_email = ''b@x.c'', rq_role = ''qa''\<rparr>"

definition accepting_endpoint :: "(unit, BaseResponse) endpoint" where
  "accepting_endpoint s req = (Success \<lparr>status = 200, message = []\<rparr>, ())"

definition empty_browser :: "unit browser" where
  "empty_browser = \<lparr>b_token = None, b_user_store = None, b_ttl = None, b_reloads = 0, b_now = 5, b_server = ()\<rparr>"

definition blank_user :: user_state where
  "blank_user = \<lparr>us_user = None, us_loading = False, us_token = [], us_toasts = []\<rparr>"

theorem register_checked_witness:
  "snd (register [] accepting_endpoint demo_register ''p'' (empty_browser, blank_user)) = (empty_browser, blank_user)"
proof -
  have "\<not> email_ok ''b@x.c''" by code_simp
  then have "check_register demo_register ''p'' \<noteq> None" by (simp add: check_register_def demo_register_def)
  then show ?thesis using register_checked [of demo_register "''p''" "[]" accepting_endpoint "(empty_browser, blank_user)"] by blast
qed

section \<open>Signing in and out\<close>

lemma zset_simps [simp]:
  "snd (zset ps f p) = f (snd p)" "b_token (fst (zset ps f p)) = b_token (fst p)"
  "b_user_store (fst (zset ps f p)) = ps (us_user (f (snd p))) (b_user_store (fst p))"
  "b_ttl (fst (zset ps f p)) = b_ttl (fst p)" "b_now (fst (zset ps f p)) = b_now (fst p)"
  by (cases p; simp add: zset_def)+

lemma page_simps [simp]:
  "fst (page_toast m p) = fst p" "us_user (snd (page_toast m p)) = us_user (snd p)" "us_token (snd (page_toast m p)) = us_token (snd p)"
  "us_loading (snd (page_toast m p)) = us_loading (snd p)" "fst (on_browser g p) = g (fst p)" "snd (on_browser g p) = snd p"
  by (cases p; simp add: page_toast_def on_browser_def)+

lemma fetchUser_done_facts:
  "\<not> us_loading (snd (fetchUser_done ps r p))"
  "us_token (snd (fetchUser_done ps r p)) = us_token (snd p)"
  "us_user (snd (fetchUser_done ps r p)) =
     (case r of Inr res \<Rightarrow> if ur_status res = 200 then ur_user res else None | Inl _ \<Rightarrow> None)"
  "b_token (fst (fetchUser_done ps r p)) =
     (case r of Inr res \<Rightarrow> if ur_status res = 200 then b_token (fst p) else None | Inl _ \<Rightarrow> None)"
  by (auto simp: fetchUser_done_def split: sum.splits)

text \<open>The server answers \<open>getMyInfo\<close> with status 200 only to a request that carries a token.\<close>

definition server_auth :: "('s, UserResponse) endpoint \<Rightarrow> bool" where
  "server_auth srv \<longleftrightarrow> (\<forall>s req x s'. srv s req = (Success x, s') \<longrightarrow> ur_status x = 200 \<longrightarrow> hr_auth req \<noteq> None)"

lemma authorized_answer:
  assumes "server_auth srv" "fe_send base srv fe_GetMyInfo b = (Inr x, b')" "ur_status x = 200"
  shows "truthy_str (b_token b')"
proof -
  from assms(2) obtain s where "srv (b_server b) (fe_attach_token b (fe_GetMyInfo\<lparr>hr_url := base @ hr_url fe_GetMyInfo\<rparr>)) = (Success x, s)"
    by (auto simp: fe_send_def split: prod.splits reply.splits)
  with assms(1,3) have "hr_auth (fe_attach_token b (fe_GetMyInfo\<lparr>hr_url := base @ hr_url fe_GetMyInfo\<rparr>)) \<noteq> None"
    unfolding server_auth_def by blast
  then have "truthy_str (b_token b)"
    by (cases "b_token b") (auto simp: fe_attach_token_def getAccessToken_def Let_def fe_GetMyInfo_def get_request_def split: if_splits)
  with fe_send_ok(1) [OF assms(2)] show ?thesis by simp
qed

text \<open>A user is shown only while a token is stored, and no request is left running.\<close>

definition session_ok :: "'s page \<Rightarrow> bool" where
  "session_ok p \<longleftrightarrow> (us_user (snd p) \<noteq> None \<longrightarrow> truthy_str (b_token (fst p))) \<and> \<not> us_loading (snd p)"

lemma fetchUser_cases:
  obtains (idle) "fetchUser ps base srv p = p"
  | (asked) b u r b' where "zset ps (\<lambda>u. u\<lparr>us_loading := True\<rparr>) p = (b, u)" "fe_send base srv fe_GetMyInfo b = (r, b')"
      "fetchUser ps base srv p = fetchUser_done ps r (b', u)"
proof (cases "us_token (snd p) = [] \<or> (us_user (snd p) \<noteq> None \<and> \<not> us_loading (snd p))")
  case True
  then show thesis by (intro idle) (auto simp: fetchUser_def)
next
  case False
  obtain b u where z: "zset ps (\<lambda>u. u\<lparr>us_loading := True\<rparr>) p = (b, u)" by fastforce
  obtain r b' where f: "fe_send base srv fe_GetMyInfo b = (r, b')" by fastforce
  from False have "fetchUser ps base srv p = fetchUser_done ps r (b', u)"
    unfolding fetchUser_def z using f by auto
  with z f show thesis by (rule asked)
qed

lemma session_ok_fetch:
  assumes "server_auth srv" "session_ok p" shows "session_ok (fetchUser ps base srv p)"
proof (cases rule: fetchUser_cases [of ps base srv p])
  case (asked b u r b')
  show ?thesis
    unfolding session_ok_def asked(3) fetchUser_done_facts
    using authorized_answer [OF assms(1)] asked(2) by (auto simp: fetchUser_done_facts split: sum.splits if_splits)
qed (simp add: assms(2))

lemma login_cases:
  obtains (refused) e b' where "fe_login ps base sl si f (b, u) = (Inl e, (b', u))"
  | (signed) res b' where "fe_send base sl (fe_UserLogin f) b = (Inr res, b')" "lr_status res = 200"
      "fe_login ps base sl si f (b, u) =
         (Inr res, fetchUser ps base si (b'\<lparr>b_token := Some (lr_access_token res)\<rparr>, u\<lparr>us_token := lr_access_token res\<rparr>))"
proof -
  obtain r b' where f: "fe_send base sl (fe_UserLogin f) b = (r, b')" by fastforce
  show thesis
  proof (cases r)
    case (Inl e)
    with f have "fe_login ps base sl si f (b, u) = (Inl e, (b', u))" by (simp add: fe_login_def)
    then show thesis by (rule refused)
  next
    case (Inr res)
    show thesis
    proof (cases "lr_status res = 200")
      case True
      with f Inr show thesis by (intro signed [of res b']) (simp_all add: fe_login_def Let_def)
    next
      case False
      with f Inr have "fe_login ps base sl si f (b, u) = (Inl (or_str (Some (lr_message res)) ''login failed''), (b', u))"
        by (simp add: fe_login_def)
      then show thesis by (rule refused)
    qed
  qed
qed

lemma session_ok_login:
  assumes "server_auth si" "session_ok p" "us_user (snd p) = None"
  shows "session_ok (snd (fe_login ps base sl si f p))"
proof -
  obtain b u where p: "p = (b, u)" by (cases p)
  show ?thesis
  proof (cases rule: login_cases [of ps base sl si f b u])
    case (signed res b')
    have "session_ok (b'\<lparr>b_token := Some (lr_access_token res)\<rparr>, u\<lparr>us_token := lr_access_token res\<rparr>)"
      using assms(2,3) by (simp add: session_ok_def p)
    from session_ok_fetch [OF assms(1) this] show ?thesis by (simp add: p signed(3))
  qed (use assms in \<open>auto simp: session_ok_def p\<close>)
qed

lemma init_browser_token [simp]: "b_token (init_browser b) = b_token b"
  by (simp add: init_browser_def Let_def split: option.splits)

lemma init_browser_store: "b_user_store (init_browser b) =
    (if truthy_str (b_token b) \<and> (case b_ttl b of None \<Rightarrow> True | Some t \<Rightarrow> t \<ge> b_now b) then b_user_store b else None)"
  by (auto simp: init_browser_def Let_def split: option.splits)

lemma session_ok_init: "persist_ok ps hy \<Longrightarrow> session_ok (user_init hy b)"
  by (auto simp: session_ok_def user_init_def Let_def init_browser_store persist_ok_def)

text \<open>
  One step of a page: a method of the store, a reload, a request that ends the session (the response
  interceptor reloads the page), or time and other requests passing.  The login dialog is offered only
  when no user is shown.
\<close>

inductive user_step ::
    "persister \<Rightarrow> hydrator \<Rightarrow> string \<Rightarrow> ('s, LoginResponse) endpoint \<Rightarrow> ('s, UserResponse) endpoint \<Rightarrow> 's page \<Rightarrow> 's page \<Rightarrow> bool"
  for ps :: persister and hy :: hydrator and base :: string
    and sl :: "('s, LoginResponse) endpoint" and si :: "('s, UserResponse) endpoint" where
  step_fetch: "user_step ps hy base sl si p (fetchUser ps base si p)"
| step_login: "us_user (snd p) = None \<Longrightarrow> user_step ps hy base sl si p (snd (openLoginModal ps base sl si v f p))"
| step_logout: "user_step ps hy base sl si p (fe_logout ps p)"
| step_reload: "user_step ps hy base sl si (b, u) (user_init hy b)"
| step_expired: "network \<or> code = Some 401 \<Longrightarrow> user_step ps hy base sl si (b, u) (user_init hy (snd (fe_on_error code msg network b)))"
| step_other: "t \<ge> b_now b \<Longrightarrow> user_step ps hy base sl si (b, u) (b\<lparr>b_now := t, b_server := s\<rparr>, u)"

inductive user_reachable ::
    "persister \<Rightarrow> hydrator \<Rightarrow> string \<Rightarrow> ('s, LoginResponse) endpoint \<Rightarrow> ('s, UserResponse) endpoint \<Rightarrow> 's page \<Rightarrow> bool"
  for ps :: persister and hy :: hydrator and base :: string
    and sl :: "('s, LoginResponse) endpoint" and si :: "('s, UserResponse) endpoint" where
  reach_load: "user_reachable ps hy base sl si (user_init hy b)"
| reach_step: "user_reachable ps hy base sl si p \<Longrightarrow> user_step ps hy base sl si p p' \<Longrightarrow> user_reachable ps hy base sl si p'"

lemma session_ok_toast: "session_ok (page_toast m p) = session_ok p"
  by (simp add: session_ok_def)

lemma session_ok_dialog:
  "session_ok p \<Longrightarrow> session_ok (snd (act p)) \<Longrightarrow> session_ok (snd (dialog s f v act p))"
  by (auto simp: dialog_def session_ok_toast split: sum.splits option.splits prod.splits)

lemma session_ok_step:
  assumes "user_step ps hy base sl si p p'" "persist_ok ps hy" "server_auth si" "session_ok p"
  shows "session_ok p'"
  using assms(1)
proof cases
  case step_fetch
  then show ?thesis using session_ok_fetch [OF assms(3,4)] by simp
next
  case (step_login v f)
  have "session_ok (snd (fe_login ps base sl si f p))" using session_ok_login [OF assms(3,4) step_login(2)] .
  then show ?thesis unfolding step_login(1) openLoginModal_def
    by (intro session_ok_dialog assms(4)) (cases "fe_login ps base sl si f p", simp)
next
  case step_logout
  with assms(4) show ?thesis by (cases p) (simp add: fe_logout_def session_ok_def)
next
  case (step_other t b u s)
  with assms(4) show ?thesis by (simp add: session_ok_def)
qed (simp_all add: session_ok_init [OF assms(2)])

lemma session_ok_reachable:
  assumes "persist_ok ps hy" "server_auth si" "user_reachable ps hy base sl si p" shows "session_ok p"
  using assms(3) by induction (use assms(1,2) session_ok_init session_ok_step in blast)+

text \<open>A concrete page for the examples: a middleware that stores exactly the user, and a small server.\<close>

definition demo_persist :: persister where
  "demo_persist u s = Some u"

definition demo_hydrate :: hydrator where
  "demo_hydrate s = (case s of None \<Rightarrow> None | Some u \<Rightarrow> u)"

lemma demo_persist_ok: "persist_ok demo_persist demo_hydrate"
  by (simp add: persist_ok_def demo_persist_def demo_hydrate_def)

definition demo_profile :: UserProfile where
  "demo_profile = \<lparr>u_id = 1, u_username = ''bo'', u_nickname = ''b'', u_email = ''b@x.cn'', u_role = ''qa'', u_level = 0, u_created_at = []\<rparr>"

definition demo_login_srv :: "(unit, LoginResponse) endpoint" where
  "demo_login_srv s req = (Success \<lparr>lr_status = 200, lr_message = [], lr_access_token = ''tok''\<rparr>, ())"

definition demo_info_srv :: "(unit, UserResponse) endpoint" where
  "demo_info_srv s req = (if hr_auth req = Some ''Bearer tok''
     then (Success \<lparr>ur_status = 200, ur_message = [], ur_user = Some demo_profile\<rparr>, ())
     else (Failure (Some 401) ''unauthorized'' False, ()))"

lemma demo_server_auth: "server_auth demo_info_srv"
  by (auto simp: server_auth_def demo_info_srv_def split: if_splits)

definition demo_page :: "unit page" where
  "demo_page = snd (openLoginModal demo_persist [] demo_login_srv demo_info_srv (Inr ())
     \<lparr>lq_username = ''bo'', lq_password = ''p''\<rparr> (user_init demo_hydrate empty_browser))"

lemma demo_page_reachable: "user_reachable demo_persist demo_hydrate [] demo_login_srv demo_info_srv demo_page"
proof -
  have "us_user (snd (user_init demo_hydrate empty_browser)) = None" by code_simp
  from user_step.step_login [OF this] reach_load reach_step show ?thesis unfolding demo_page_def by blast
qed

lemma demo_page_shows: "us_user (snd demo_page) = Some demo_profile"
  by code_simp

text \<open>
  After signing out no request carries a token, no user is shown, and reloading the page restores
  nobody.
\<close>

theorem logout_forgets:
  assumes "persist_ok ps hy" and "hr_auth req = None"
  shows "us_user (snd (fe_logout ps p)) = None \<and>
    hr_auth (fe_attach_token (fst (fe_logout ps p)) req) = None \<and>
    us_user (snd (user_init hy (fst (fe_logout ps p)))) = None \<and>
    us_token (snd (user_init hy (fst (fe_logout ps p)))) = []"
proof -
  obtain b u where p: "p = (b, u)" by (cases p)
  have tok: "b_token (fst (fe_logout ps p)) = None" by (simp add: fe_logout_def p)
  then have "usable_token (fst (fe_logout ps p)) = None" by (simp add: usable_token_def getAccessToken_def)
  moreover have "us_user (snd (user_init hy (fst (fe_logout ps p)))) = None"
    using tok assms(1) by (simp add: user_init_def Let_def init_browser_store persist_ok_def)
  ultimately show ?thesis
    using tok by (simp add: attach_is_auth_header [OF assms(2)] auth_header_def user_init_def Let_def) (simp add: fe_logout_def p)
qed

theorem logout_forgets_witness:
  "us_user (snd (user_init demo_hydrate (fst (fe_logout demo_persist demo_page)))) = None"
  using logout_forgets [OF demo_persist_ok, of fe_GetMyInfo demo_page] by (simp add: fe_GetMyInfo_def get_request_def)

text \<open>
  A request answered with 401, or one that did not reach the server, ends the session: the page that
  the interceptor reloads shows no user and sends no token.
\<close>

theorem expired_session_ends:
  assumes "persist_ok ps hy" and "srv (b_server b) (fe_attach_token b (req\<lparr>hr_url := base @ hr_url req\<rparr>)) = (Failure code msg network, s)"
    and "network \<or> code = Some 401"
  shows "\<exists>m b'. fe_send base srv req b = (Inl m, b') \<and> m \<noteq> [] \<and> b_reloads b' = b_reloads b + 1 \<and>
    us_user (snd (user_init hy b')) = None \<and> usable_token (fst (user_init hy b')) = None"
  using assms by (auto simp: fe_send_def fe_on_error_def Let_def user_init_def init_browser_store persist_ok_def
      usable_token_def getAccessToken_def)

theorem expired_session_ends_witness:
  "us_user (snd (user_init demo_hydrate (snd (fe_send [] demo_info_srv fe_GetMyInfo empty_browser)))) = None"
proof -
  have "demo_info_srv (b_server empty_browser) (fe_attach_token empty_browser (fe_GetMyInfo\<lparr>hr_url := [] @ hr_url fe_GetMyInfo\<rparr>)) =
      (Failure (Some 401) ''unauthorized'' False, ())" by code_simp
  then have "\<exists>m b'. fe_send [] demo_info_srv fe_GetMyInfo empty_browser = (Inl m, b') \<and> m \<noteq> [] \<and>
      b_reloads b' = b_reloads empty_browser + 1 \<and> us_user (snd (user_init demo_hydrate b')) = None \<and>
      usable_token (fst (user_init demo_hydrate b')) = None"
    by (rule expired_session_ends [OF demo_persist_ok]) simp
  then show ?thesis by fastforce
qed

end
