(* ===== verification/Fe_Service_List.thy ===== *)
theory Fe_Service_List
  imports Fe_Request
begin

text \<open>
  The service list of the front end: the hook \<open>useService\<close> (\<open>FE-CAM/src/hooks/useService.tsx\<close>) and the view
  that drives it (\<open>components/ServiceManagement/LoggedInView.tsx\<close>): ranges, paging, deleting, restoring
  and creating services.  An asynchronous handler runs to its end before the next one starts.
\<close>

section \<open>State\<close>

datatype ServiceRange = MyServices | MyMaintainedServices | HisServices | AllServices | MyDeletedServices

record Pagination =
  pg_page_size :: int
  pg_current_page :: int
  pg_total :: int

text \<open>What \<open>refetchRef\<close> remembers: which list was asked for, and with which page.\<close>

datatype list_query = ListQuery ServiceRange (lq_owner: int) (lq_page: Pagination)

record list_response = BaseResponse +
  lr_services :: "ServiceItem list"
  lr_total :: int

record list_state =
  ls_serviceList :: "ServiceItem list"
  ls_loading :: bool
  ls_refetch :: "list_query option"
  ls_toasts :: "toast list"

type_synonym 's list_page = "'s browser \<times> list_state"

fun query_request :: "list_query \<Rightarrow> http_request" where
  "query_request (ListQuery MyServices o' p) = GetMyNewestServices (pg_page_size p) (pg_current_page p)"
| "query_request (ListQuery MyMaintainedServices o' p) = GetMyMaintainedServices (pg_page_size p) (pg_current_page p)"
| "query_request (ListQuery HisServices o' p) = GetHisNewestServicesByOwnerId o' (pg_page_size p) (pg_current_page p)"
| "query_request (ListQuery AllServices o' p) = GetAllServices (pg_page_size p) (pg_current_page p)"
| "query_request (ListQuery MyDeletedServices o' p) = GetAllDeletedServicesByUserId (pg_page_size p) (pg_current_page p)"

section \<open>\<open>useService\<close>\<close>

text \<open>The common body of the five fetch functions; \<open>Inl\<close> is the error they throw.\<close>

definition fetch_done :: "string + list_response \<Rightarrow> list_state \<Rightarrow> (string + int) \<times> list_state" where
  "fetch_done r st =
     (case r of
        Inl e \<Rightarrow> (Inl e, st)
      | Inr res \<Rightarrow>
          if status res \<noteq> 200
          then (Inl (or_str (Some (message res)) ''fetching the services failed''), st\<lparr>ls_loading := False, ls_serviceList := []\<rparr>)
          else (Inr (lr_total res), st\<lparr>ls_serviceList := lr_services res, ls_loading := False\<rparr>))"

definition fetch_services :: "string \<Rightarrow> ('s, list_response) endpoint \<Rightarrow> list_query \<Rightarrow> 's list_page \<Rightarrow> (string + int) \<times> 's list_page" where
  "fetch_services base srv q p =
     (case p of (b, st) \<Rightarrow>
       (case fe_send base srv (query_request q) b of
          (r, b') \<Rightarrow> (case fetch_done r (st\<lparr>ls_refetch := Some q, ls_loading := True\<rparr>) of (o', st') \<Rightarrow> (o', (b', st')))))"

definition fetchMyNewestServices where
  "fetchMyNewestServices base srv pagination = fetch_services base srv (ListQuery MyServices 0 pagination)"

definition fetchMyMaintainedServices where
  "fetchMyMaintainedServices base srv pagination = fetch_services base srv (ListQuery MyMaintainedServices 0 pagination)"

definition fetchHisNewestServicesByOwnerId where
  "fetchHisNewestServicesByOwnerId base srv ownerId pagination = fetch_services base srv (ListQuery HisServices ownerId pagination)"

definition fetchMyDeletedServices where
  "fetchMyDeletedServices base srv pagination = fetch_services base srv (ListQuery MyDeletedServices 0 pagination)"

definition fetchAllServices where
  "fetchAllServices base srv pagination = fetch_services base srv (ListQuery AllServices 0 pagination)"

definition refetch :: "string \<Rightarrow> ('s, list_response) endpoint \<Rightarrow> 's list_page \<Rightarrow> (string + int) \<times> 's list_page" where
  "refetch base srv p = (case ls_refetch (snd p) of None \<Rightarrow> (Inr 0, p) | Some q \<Rightarrow> fetch_services base srv q p)"

definition on_list :: "(list_state \<Rightarrow> list_state) \<Rightarrow> 's list_page \<Rightarrow> 's list_page" where
  "on_list f p = (case p of (b, st) \<Rightarrow> (b, f st))"

definition list_toast :: "toast \<Rightarrow> list_state \<Rightarrow> list_state" where
  "list_toast m st = st\<lparr>ls_toasts := ls_toasts st @ [m]\<rparr>"

definition createNewService ::
    "string \<Rightarrow> ('s, BaseResponse) endpoint \<Rightarrow> string \<Rightarrow> string \<Rightarrow> 's list_page \<Rightarrow> (string + BaseResponse) \<times> 's list_page" where
  "createNewService base srv service_uuid description p =
     (case p of (b, st) \<Rightarrow>
       (case fe_send base srv (CreateNewService service_uuid description) b of
          (Inl e, b') \<Rightarrow> (Inl e, (b', st))
        | (Inr res, b') \<Rightarrow>
            (if status res \<noteq> 200 then Inl (or_str (Some (message res)) ''creating the service failed'') else Inr res, (b', st))))"

text \<open>
  \<open>handleDeleteService\<close> never throws: everything after the first \<open>setLoading\<close> is inside \<open>try\<close>, and the
  last statement resets \<open>loading\<close>.
\<close>

definition handleDeleteService ::
    "string \<Rightarrow> ('s, BaseResponse) endpoint \<Rightarrow> ('s, list_response) endpoint \<Rightarrow> int \<Rightarrow> 's list_page \<Rightarrow> 's list_page" where
  "handleDeleteService base srvDel srvList sid p =
     (case p of (b, st0) \<Rightarrow>
       (let st = st0\<lparr>ls_loading := True\<rparr> in
        on_list (\<lambda>st. st\<lparr>ls_loading := False\<rparr>)
          (case fe_send base srvDel (DeleteServiceById sid) b of
             (Inl e, b') \<Rightarrow> (b', list_toast (WarningToast e) st)
           | (Inr res, b') \<Rightarrow>
               if status res \<noteq> 200
               then (b', list_toast (WarningToast (or_str (Some (message res)) ''deleting the service failed'')) (st\<lparr>ls_loading := False\<rparr>))
               else (case refetch base srvList (b', list_toast (SuccessToast ''service deleted'') st) of
                       (Inl e, p') \<Rightarrow> on_list (list_toast (WarningToast e)) p'
                     | (Inr _, p') \<Rightarrow> p'))))"

text \<open>\<open>handleRestoreService\<close> awaits its request outside \<open>try\<close>; \<open>Inl\<close> is the error it throws.\<close>

definition handleRestoreService ::
    "string \<Rightarrow> ('s, BaseResponse) endpoint \<Rightarrow> ('s, list_response) endpoint \<Rightarrow> int \<Rightarrow> 's list_page \<Rightarrow> (string + unit) \<times> 's list_page" where
  "handleRestoreService base srvRes srvList sid p =
     (case p of (b, st0) \<Rightarrow>
       (let st = st0\<lparr>ls_loading := True\<rparr> in
        case fe_send base srvRes (RestoreServiceById sid) b of
          (Inl e, b') \<Rightarrow> (Inl e, (b', st))
        | (Inr res, b') \<Rightarrow>
            if status res \<noteq> 200
            then (Inl (or_str (Some (message res)) ''restoring the service failed''), (b', st\<lparr>ls_loading := False\<rparr>))
            else (Inr (), on_list (\<lambda>st. st\<lparr>ls_loading := False\<rparr>)
                   (case refetch base srvList (b', list_toast (SuccessToast ''service restored'') st) of
                      (Inl e, p') \<Rightarrow> on_list (list_toast (WarningToast e)) p'
                    | (Inr _, p') \<Rightarrow> p'))))"

text \<open>
  The \<open>onOk\<close> of the creation dialog; the first component tells whether the dialog was closed.  A failing
  refetch after the creation is reported but does not reopen it.
\<close>

definition handleCreateService ::
    "string \<Rightarrow> ('s, BaseResponse) endpoint \<Rightarrow> ('s, list_response) endpoint \<Rightarrow> string option + unit \<Rightarrow> string \<Rightarrow> string \<Rightarrow>
     's list_page \<Rightarrow> bool \<times> 's list_page" where
  "handleCreateService base srvNew srvList validated service_uuid description p =
     (case validated of
        Inl None \<Rightarrow> (False, on_list (list_toast (WarningToast ''creating the service failed'')) p)
      | Inl (Some m) \<Rightarrow> (False, on_list (list_toast (WarningToast m)) p)
      | Inr _ \<Rightarrow>
          (case createNewService base srvNew service_uuid description p of
             (Inl e, p') \<Rightarrow> (False, on_list (list_toast (WarningToast e)) p')
           | (Inr res, p') \<Rightarrow>
               (True,
                (case refetch base srvList
                        (on_list (list_toast (SuccessToast (or_str (Some (message res)) ''service created''))) p') of
                   (Inl e, p2) \<Rightarrow> on_list (list_toast (WarningToast e)) p2
                 | (Inr _, p2) \<Rightarrow> p2))))"

definition handleViewService :: "string \<Rightarrow> string" where
  "handleViewService service_uuid = ''/service?uuid='' @ service_uuid"

section \<open>\<open>LoggedInView\<close>\<close>

record view_state =
  vw_range :: ServiceRange
  vw_pagination :: Pagination
  vw_hisId :: int

definition initial_view :: view_state where
  "initial_view = \<lparr>vw_range = MyServices, vw_pagination = \<lparr>pg_page_size = 10, pg_current_page = 1, pg_total = 0\<rparr>, vw_hisId = -1\<rparr>"

text \<open>What the dialog behind the tab of another user's services ends with: the id chosen in it, or cancelling.\<close>

datatype his_dialog = HisOk int | HisCancel

definition handleTabChange :: "ServiceRange \<Rightarrow> his_dialog \<Rightarrow> view_state \<Rightarrow> view_state" where
  "handleTabChange key answer v =
     (let first = (vw_pagination v)\<lparr>pg_current_page := 1\<rparr> in
      if key = HisServices then
        (case answer of
           HisOk selectedId \<Rightarrow>
             if selectedId \<le> 0 then v\<lparr>vw_hisId := selectedId\<rparr>
             else v\<lparr>vw_hisId := selectedId, vw_range := HisServices, vw_pagination := first\<rparr>
         | HisCancel \<Rightarrow> v\<lparr>vw_hisId := -1, vw_range := key, vw_pagination := first\<rparr>)
      else v\<lparr>vw_range := key, vw_pagination := first\<rparr>)"

definition handlePageChange :: "int \<Rightarrow> int option \<Rightarrow> view_state \<Rightarrow> view_state" where
  "handlePageChange pageSize currentPage v =
     v\<lparr>vw_pagination := (vw_pagination v)\<lparr>pg_page_size := pageSize,
        pg_current_page := (case currentPage of None \<Rightarrow> pg_current_page (vw_pagination v)
                            | Some c \<Rightarrow> if c = 0 then pg_current_page (vw_pagination v) else c)\<rparr>\<rparr>"

definition view_query :: "view_state \<Rightarrow> list_query" where
  "view_query v = ListQuery (vw_range v) (if vw_range v = HisServices then vw_hisId v else 0) (vw_pagination v)"

text \<open>The effect that runs after the range, the page size or the page changed.\<close>

definition view_effect :: "string \<Rightarrow> ('s, list_response) endpoint \<Rightarrow> view_state \<times> 's list_page \<Rightarrow> view_state \<times> 's list_page" where
  "view_effect base srv vp =
     (case vp of (v, p) \<Rightarrow>
       (case fetch_services base srv (view_query v) p of
          (Inr n, p') \<Rightarrow> (v\<lparr>vw_pagination := (vw_pagination v)\<lparr>pg_total := n\<rparr>\<rparr>, p')
        | (Inl e, p') \<Rightarrow> (v, on_list (list_toast (WarningToast e)) p')))"

section \<open>Results\<close>

lemma on_list_simps [simp]: "snd (on_list f p) = f (snd p)" "fst (on_list f p) = fst p"
  by (cases p; simp add: on_list_def)+

lemma list_toast_simps [simp]:
  "ls_loading (list_toast m st) = ls_loading st" "ls_serviceList (list_toast m st) = ls_serviceList st"
  "ls_refetch (list_toast m st) = ls_refetch st"
  by (simp_all add: list_toast_def)

lemma fetch_services_answered:
  assumes "fe_send base srv (query_request q) b = (r, b')"
  shows "fetch_services base srv q (b, st) =
    (fst (fetch_done r (st\<lparr>ls_refetch := Some q, ls_loading := True\<rparr>)), (b', snd (fetch_done r (st\<lparr>ls_refetch := Some q, ls_loading := True\<rparr>))))"
  using assms by (simp add: fetch_services_def case_prod_beta)

text \<open>
  Deleting a service never leaves the list loading, whatever the two requests do; when both succeed
  the list is the server's answer to the last query shown, with the same range and page.
\<close>

theorem delete_service_refreshes:
  "\<not> ls_loading (snd (handleDeleteService base sd sl sid p)) \<and>
   (fe_send base sd (DeleteServiceById sid) (fst p) = (Inr res, b1) \<longrightarrow> status res = 200 \<longrightarrow> ls_refetch (snd p) = Some q \<longrightarrow>
    fe_send base sl (query_request q) b1 = (Inr ans, b2) \<longrightarrow> status ans = 200 \<longrightarrow>
      ls_serviceList (snd (handleDeleteService base sd sl sid p)) = lr_services ans \<and>
      ls_refetch (snd (handleDeleteService base sd sl sid p)) = Some q)"
proof -
  obtain b st where p: "p = (b, st)" by (cases p)
  show ?thesis
    by (auto simp: p handleDeleteService_def Let_def refetch_def fetch_services_answered fetch_done_def split: prod.splits)
qed

definition demo_item :: "int \<Rightarrow> ServiceItem" where
  "demo_item i = \<lparr>si_id = i, si_service_uuid = ''a/b/c'', si_version = ''0.0.1'', si_description = None, si_owner_id = 1,
     si_created_at = [], si_is_deleted = False, si_owner = None, si_deleted_at = None\<rparr>"

text \<open>A server whose state is the list of services of one user.\<close>

definition demo_delete :: "(ServiceItem list, BaseResponse) endpoint" where
  "demo_delete s req = (Success \<lparr>status = 200, message = []\<rparr>, filter (\<lambda>x. hr_data req \<noteq> Some (JObj [(''id'', JInt (si_id x))])) s)"

definition demo_list :: "(ServiceItem list, list_response) endpoint" where
  "demo_list s req = (Success \<lparr>status = 200, message = [], lr_services = s, lr_total = int (length s)\<rparr>, s)"

definition demo_list_browser :: "ServiceItem list browser" where
  "demo_list_browser = \<lparr>b_token = Some ''t'', b_user_store = None, b_ttl = None, b_reloads = 0, b_now = 0,
     b_server = [demo_item 1, demo_item 2]\<rparr>"

definition demo_list_state :: list_state where
  "demo_list_state = \<lparr>ls_serviceList = [demo_item 1, demo_item 2], ls_loading = False,
     ls_refetch = Some (view_query initial_view), ls_toasts = []\<rparr>"

theorem delete_service_refreshes_witness:
  "ls_serviceList (snd (handleDeleteService [] demo_delete demo_list 1 (demo_list_browser, demo_list_state))) = [demo_item 2]"
proof -
  let ?b1 = "demo_list_browser\<lparr>b_server := [demo_item 2]\<rparr>" and ?q = "view_query initial_view"
  have "fe_send [] demo_delete (DeleteServiceById 1) (fst (demo_list_browser, demo_list_state)) = (Inr \<lparr>status = 200, message = []\<rparr>, ?b1)"
    by code_simp
  moreover have "ls_refetch (snd (demo_list_browser, demo_list_state)) = Some ?q" by (simp add: demo_list_state_def)
  moreover have "fe_send [] demo_list (query_request ?q) ?b1 =
      (Inr \<lparr>status = 200, message = [], lr_services = [demo_item 2], lr_total = 1\<rparr>, ?b1)" by code_simp
  ultimately show ?thesis
    using delete_service_refreshes [of "[]" demo_delete demo_list 1 "(demo_list_browser, demo_list_state)"
        "\<lparr>status = 200, message = []\<rparr>" ?b1 ?q "\<lparr>status = 200, message = [], lr_services = [demo_item 2], lr_total = 1\<rparr>" ?b1]
    by simp
qed

text \<open>
  A fetch whose request is rejected (a server error, for instance) leaves the list loading: the flag is
  reset only on an answer.  The same holds for restoring a service.
\<close>

lemma rejected_fetch_keeps_loading:
  assumes "fe_send base srv (query_request q) b = (Inl e, b')"
  shows "ls_loading (snd (snd (fetch_services base srv q (b, st)))) \<and> fst (fetch_services base srv q (b, st)) = Inl e"
  by (simp add: fetch_services_answered [OF assms] fetch_done_def)

lemma rejected_restore_keeps_loading:
  assumes "fe_send base sr (RestoreServiceById sid) b = (Inl e, b')"
  shows "ls_loading (snd (snd (handleRestoreService base sr sl sid (b, st))))"
  using assms by (simp add: handleRestoreService_def)

text \<open>Choosing another range starts at its first page; the total shown is the server's.\<close>

lemma tab_change_first_page:
  "key \<noteq> HisServices \<Longrightarrow> view_query (handleTabChange key a v) = ListQuery key 0 ((vw_pagination v)\<lparr>pg_current_page := 1\<rparr>)"
  by (simp add: handleTabChange_def view_query_def Let_def)

end
