(* ===== verification/Fe_Tree.thy ===== *)
theory Fe_Tree
  imports Api_Types "HOL-Library.Multiset"
begin

text \<open>
  The tree of APIs beside the API page: its construction (\<open>treeData\<close> and \<open>iterationTreeData\<close> in
  \<open>FE-CAM/src/hooks/useService.tsx\<close>), and what \<open>components/ApiManagement/ApiList/index.tsx\<close> does with it:
  the preselected entry, selecting an entry, dragging one onto a category, deleting a category.

  The titles of the nodes are kept as the data they display.  The tree widget is a third-party package;
  it passes nodes back with their key and the key of their parent.
\<close>

section \<open>Order of the methods\<close>

text \<open>\<open>a.method.localeCompare(b.method)\<close> orders the five methods alphabetically.\<close>

fun method_rank :: "HttpMethod \<Rightarrow> nat" where
  "method_rank DELETE = 0"
| "method_rank GET = 1"
| "method_rank PATCH = 2"
| "method_rank POST = 3"
| "method_rank PUT = 4"

lemma method_rank_inject [simp]: "method_rank a = method_rank b \<longleftrightarrow> a = b"
  by (cases a; cases b) simp_all

instantiation HttpMethod :: linorder
begin

definition less_eq_HttpMethod :: "HttpMethod \<Rightarrow> HttpMethod \<Rightarrow> bool" where
  "less_eq_HttpMethod a b \<longleftrightarrow> method_rank a \<le> method_rank b"

definition less_HttpMethod :: "HttpMethod \<Rightarrow> HttpMethod \<Rightarrow> bool" where
  "less_HttpMethod a b \<longleftrightarrow> method_rank a < method_rank b"

instance
  by standard (auto simp: less_eq_HttpMethod_def less_HttpMethod_def)

end

section \<open>Keys\<close>

text \<open>
  \<open>Number(s)\<close> on a decimal integer, \<open>None\<close> for \<open>NaN\<close>.  Tree keys are written by \<open>toString\<close>, so the
  fraction, exponent and hexadecimal notations do not occur.
\<close>

definition js_Number :: "string \<Rightarrow> int option" where
  "js_Number s =
     (let t = js_trim s in
      if t = [] then Some 0
      else if all_digits t then Some (int (digits_val t))
      else if prefix ''-'' t \<and> all_digits (tl t) then Some (- int (digits_val (tl t)))
      else if prefix ''+'' t \<and> all_digits (tl t) then Some (int (digits_val (tl t)))
      else None)"

definition CATEGORY_PREFIX :: string where
  "CATEGORY_PREFIX = ''category-''"

definition UNCATEGORIZED_KEY :: string where
  "UNCATEGORIZED_KEY = ''category-null''"

definition category_key :: "int \<Rightarrow> string" where
  "category_key c = CATEGORY_PREFIX @ int_str c"

section \<open>Building the tree\<close>

record tree_leaf =
  tl_key :: string
  tl_method :: HttpMethod
  tl_name :: string
  tl_path :: string

record tree_group =
  tg_key :: string
  tg_title :: string
  tg_popover :: "string option"
  tg_children :: "tree_leaf list"
  tg_selectable :: bool
  tg_draggable :: bool

definition api_node :: "ApiBrief \<Rightarrow> tree_leaf" where
  "api_node api = \<lparr>tl_key = int_str (ab_id api), tl_method = ab_method api, tl_name = ab_name api, tl_path = ab_path api\<rparr>"

definition category_group :: "ApiCategory \<Rightarrow> tree_group" where
  "category_group cat = \<lparr>tg_key = category_key (cat_id cat), tg_title = cat_name cat, tg_popover = cat_description cat,
     tg_children = [], tg_selectable = False, tg_draggable = False\<rparr>"

definition uncategorizedGroup :: tree_group where
  "uncategorizedGroup = \<lparr>tg_key = UNCATEGORIZED_KEY, tg_title = ''uncategorized'', tg_popover = None,
     tg_children = [], tg_selectable = False, tg_draggable = False\<rparr>"

definition categoryMap :: "ApiCategory list \<Rightarrow> (int \<times> tree_group) list" where
  "categoryMap apiCategories = foldl (\<lambda>m cat. map_set (cat_id cat) (category_group cat) m) [] apiCategories"

definition push_node :: "tree_leaf \<Rightarrow> tree_group \<Rightarrow> tree_group" where
  "push_node node g = g\<lparr>tg_children := tg_children g @ [node]\<rparr>"

text \<open>The body of the loop over the APIs; a group object is updated in place inside the map.\<close>

definition place_api :: "(int \<times> tree_group) list \<times> tree_group \<Rightarrow> ApiBrief \<Rightarrow> (int \<times> tree_group) list \<times> tree_group" where
  "place_api st api =
     (case st of (m, uncategorized) \<Rightarrow>
       (case ab_category_id api of
          None \<Rightarrow> (m, push_node (api_node api) uncategorized)
        | Some c \<Rightarrow>
            (case map_of m c of
               Some g \<Rightarrow> (map_set c (push_node (api_node api) g) m, uncategorized)
             | None \<Rightarrow> (m, push_node (api_node api) uncategorized))))"

text \<open>\<open>sort\<close> is stable and sorts the state's array in place: the sorted array is what remains there.\<close>

definition sorted_apis :: "ApiBrief list \<Rightarrow> ApiBrief list" where
  "sorted_apis apis = sort_key ab_method apis"

definition treeData :: "ApiCategory list \<Rightarrow> ApiBrief list \<Rightarrow> tree_group list" where
  "treeData apiCategories apis =
     (case foldl place_api (categoryMap apiCategories, uncategorizedGroup) (sorted_apis apis) of
        (m, uncategorized) \<Rightarrow> map snd m @ [uncategorized])"

text \<open>The same code over the drafts of an iteration (the copies differ in a style property only).\<close>

definition iterationTreeData :: "ApiCategory list \<Rightarrow> ApiBrief list \<Rightarrow> tree_group list" where
  "iterationTreeData apiCategories apiDrafts =
     (case foldl place_api (categoryMap apiCategories, uncategorizedGroup) (sorted_apis apiDrafts) of
        (m, uncategorized) \<Rightarrow> map snd m @ [uncategorized])"

section \<open>Using the tree\<close>

text \<open>The first entry of the first group that has entries, \<open>""\<close> when there is none.\<close>

definition firstOptionKey :: "tree_group list \<Rightarrow> string" where
  "firstOptionKey tree =
     (case filter (\<lambda>g. tg_children g \<noteq> []) tree of [] \<Rightarrow> [] | g # _ \<Rightarrow> tl_key (hd (tg_children g)))"

record selection =
  sel_apiId :: "int option"
  sel_keys :: "string list"

text \<open>The effect that follows a change of the first entry.\<close>

definition select_first :: "tree_group list \<Rightarrow> selection \<Rightarrow> selection" where
  "select_first tree s =
     (let k = firstOptionKey tree in
      if k = [] then s else \<lparr>sel_apiId = js_Number k, sel_keys = [k]\<rparr>)"

text \<open>
  \<open>inIterationWarning\<close> of \<open>FE-CAM/src/utils.tsx\<close>.  During an iteration the dialog of the kind \<open>warning\<close>
  runs the action when its button is pressed (\<open>pressed\<close>), the one of the kind \<open>reject\<close> never does.
\<close>

datatype warning_kind = WarningKind | RejectKind

definition inIterationWarning :: "('s \<Rightarrow> 's) \<Rightarrow> bool \<Rightarrow> warning_kind \<Rightarrow> bool \<Rightarrow> 's \<Rightarrow> 's" where
  "inIterationWarning action inIteration kind pressed s =
     (if \<not> inIteration then action s
      else case kind of
        WarningKind \<Rightarrow> if pressed then action s else s
      | RejectKind \<Rightarrow> s)"

definition select_action :: "string list \<Rightarrow> selection \<Rightarrow> selection" where
  "select_action keys s =
     (case (case keys of [] \<Rightarrow> None | k # _ \<Rightarrow> js_Number k) of
        None \<Rightarrow> s\<lparr>sel_apiId := Some (-1)\<rparr>
      | Some apiId \<Rightarrow> if apiId \<le> 0 then s\<lparr>sel_apiId := Some (-1)\<rparr>
                      else \<lparr>sel_apiId = Some apiId, sel_keys = keys\<rparr>)"

definition handleSelectApi :: "bool \<Rightarrow> bool \<Rightarrow> string list \<Rightarrow> selection \<Rightarrow> selection" where
  "handleSelectApi inIteration pressed keys = inIterationWarning (select_action keys) inIteration WarningKind pressed"

record drag_node =
  dn_key :: string
  dn_parentKey :: "string option"

text \<open>A category id read back from a key of the form \<open>category-...\<close>; \<open>None\<close> is \<open>NaN\<close>.\<close>

definition key_category :: "string \<Rightarrow> int option" where
  "key_category k = (if k = UNCATEGORIZED_KEY then Some (-1) else js_Number (js_replace k CATEGORY_PREFIX []))"

text \<open>\<open>handleDrag\<close>: the arguments of the call of \<open>handleUpdateApiCategory\<close>, if it is reached.\<close>

definition handleDrag :: "bool \<Rightarrow> bool \<Rightarrow> drag_node \<Rightarrow> drag_node \<Rightarrow> (int \<times> int option) option" where
  "handleDrag inIteration isLatest dragNode dropNode =
     (if inIteration then None
      else if \<not> isLatest then None
      else
        (let target =
           (if prefix CATEGORY_PREFIX (dn_key dropNode) then Some (key_category (dn_key dropNode))
            else case dn_parentKey dropNode of
                   None \<Rightarrow> None
                 | Some category \<Rightarrow>
                     if category = [] \<or> \<not> prefix CATEGORY_PREFIX category then None
                     else Some (key_category category))
         in case target of
              None \<Rightarrow> None
            | Some categoryId \<Rightarrow>
                (case js_Number (dn_key dragNode) of
                   None \<Rightarrow> None
                 | Some apiId \<Rightarrow>
                     if apiId = 0 then None
                     else if dn_parentKey dragNode = Some (dn_key dropNode) \<or>
                             dn_parentKey dragNode = dn_parentKey dropNode then None
                     else Some (apiId, categoryId))))"

text \<open>
  The update of the \<open>apis\<close> state after the server accepted the move: \<open>category_id >= 0 ? category_id : null\<close>.
\<close>

definition set_api_category :: "int \<Rightarrow> int option \<Rightarrow> ApiBrief list \<Rightarrow> ApiBrief list" where
  "set_api_category api_id category_id apis =
     map (\<lambda>api. if ab_id api = api_id
       then api\<lparr>ab_category_id := (case category_id of Some c \<Rightarrow> if c \<ge> 0 then Some c else None | None \<Rightarrow> None)\<rparr>
       else api) apis"

text \<open>\<open>renderExtra\<close> offers deletion on empty category nodes only.\<close>

definition category_deletable :: "tree_group \<Rightarrow> bool" where
  "category_deletable g \<longleftrightarrow>
     \<not> tg_draggable g \<and> \<not> tg_selectable g \<and> tg_children g = [] \<and> tg_key g \<noteq> UNCATEGORIZED_KEY"

definition delete_category :: "int \<Rightarrow> ApiCategory list \<Rightarrow> ApiCategory list" where
  "delete_category category_id apiCategories = filter (\<lambda>cat. cat_id cat \<noteq> category_id) apiCategories"

section \<open>What the tree shows\<close>

text \<open>Where an API belongs: its category if the service has it, otherwise the uncategorized group.\<close>

definition group_of :: "ApiCategory list \<Rightarrow> ApiBrief \<Rightarrow> int option" where
  "group_of cats api =
     (case ab_category_id api of None \<Rightarrow> None | Some c \<Rightarrow> if c \<in> cat_id ` set cats then Some c else None)"

definition group_key :: "int option \<Rightarrow> string" where
  "group_key g = (case g of None \<Rightarrow> UNCATEGORIZED_KEY | Some c \<Rightarrow> category_key c)"

definition group_leaves :: "ApiCategory list \<Rightarrow> ApiBrief list \<Rightarrow> int option \<Rightarrow> tree_leaf list" where
  "group_leaves cats apis g = map api_node (filter (\<lambda>a. group_of cats a = g) (sorted_apis apis))"

lemma push_node_fields [simp]: "tg_children (push_node n g) = tg_children g @ [n]"
  by (simp add: push_node_def)

definition add_leaves :: "ApiBrief list \<Rightarrow> (ApiBrief \<Rightarrow> bool) \<Rightarrow> tree_group \<Rightarrow> tree_group" where
  "add_leaves xs P g = g\<lparr>tg_children := tg_children g @ map api_node (filter P xs)\<rparr>"

lemma add_leaves_Nil: "add_leaves [] P g = g"
  by (simp add: add_leaves_def)

lemma add_leaves_Cons: "add_leaves (x # xs) P g = add_leaves xs P (if P x then push_node (api_node x) g else g)"
  by (simp add: add_leaves_def push_node_def)

lemma map_set_present:
  "distinct_keys m \<Longrightarrow> map_of m c = Some g \<Longrightarrow>
   map_set c (h g) m = map (\<lambda>(k, v). (k, if k = c then h v else v)) m"
proof (induction m)
  case (Cons e m)
  obtain a b where e: "e = (a, b)" by (cases e)
  show ?case
  proof (cases "a = c")
    case True
    with Cons.prems have "\<forall>(k, v)\<in>set m. k \<noteq> c" by (auto simp: distinct_keys_def e image_iff)
    then have "map (\<lambda>(k, v). (k, if k = c then h v else v)) m = m" by (intro map_idI) auto
    with True Cons.prems show ?thesis by (simp add: e)
  next
    case False
    with Cons show ?thesis by (simp add: e distinct_keys_def)
  qed
qed simp

lemma place_all:
  "distinct_keys m \<Longrightarrow> foldl place_api (m, u) xs =
     (map (\<lambda>(c, g). (c, add_leaves xs (\<lambda>a. ab_category_id a = Some c) g)) m,
      add_leaves xs (\<lambda>a. case ab_category_id a of None \<Rightarrow> True | Some c \<Rightarrow> map_of m c = None) u)"
proof (induction xs arbitrary: m u)
  case Nil
  then show ?case by (simp add: add_leaves_Nil)
next
  case (Cons x xs)
  show ?case
  proof (cases "\<exists>c g. ab_category_id x = Some c \<and> map_of m c = Some g")
    case True
    then obtain c g where c: "ab_category_id x = Some c" "map_of m c = Some g" by blast
    let ?m = "map (\<lambda>(k, v). (k, if k = c then push_node (api_node x) v else v)) m"
    have keys: "obj_keys ?m = obj_keys m" by (simp add: comp_def case_prod_beta)
    have p: "place_api (m, u) x = (?m, u)"
      using map_set_present [OF Cons.prems c(2), of "push_node (api_node x)"] by (simp add: place_api_def c)
    have none: "map_of ?m k = None \<longleftrightarrow> map_of m k = None" for k
      using arg_cong [OF keys, of set] by (simp only: map_of_eq_None_iff set_map [symmetric])
    have "distinct_keys ?m" using Cons.prems unfolding distinct_keys_def keys .
    from Cons.IH [OF this, of u] show ?thesis
      unfolding foldl_Cons p none add_leaves_Cons using c(2) by (simp add: c(1) comp_def case_prod_beta eq_commute [of c])
  next
    case False
    then have p: "place_api (m, u) x = (m, push_node (api_node x) u)"
      and P: "case ab_category_id x of None \<Rightarrow> True | Some c \<Rightarrow> map_of m c = None"
      by (auto simp: place_api_def split: option.splits)
    have "ab_category_id x \<noteq> Some c" if "(c, g) \<in> set m" for c g
      using False that Cons.prems by (auto simp: distinct_keys_def)
    with Cons.IH [OF Cons.prems, of "push_node (api_node x) u"] P show ?thesis
      unfolding foldl_Cons p add_leaves_Cons by auto
  qed
qed

lemma categoryMap_snoc: "categoryMap (cats @ [c]) = map_set (cat_id c) (category_group c) (categoryMap cats)"
  by (simp add: categoryMap_def)

lemma categoryMap_ok:
  "distinct_keys (categoryMap cats)" "set (obj_keys (categoryMap cats)) = cat_id ` set cats"
  "(c, g) \<in> set (categoryMap cats) \<Longrightarrow> tg_children g = [] \<and> tg_key g = category_key c \<and> \<not> tg_draggable g \<and> \<not> tg_selectable g"
proof -
  show "distinct_keys (categoryMap cats)"
    by (induction cats rule: rev_induct) (auto simp: categoryMap_snoc js_map.invar_put, simp add: categoryMap_def distinct_keys_def)
  show "set (obj_keys (categoryMap cats)) = cat_id ` set cats"
    by (induction cats rule: rev_induct) (auto simp: categoryMap_snoc keys_map_set simp del: set_map, simp_all add: categoryMap_def)
  have step: "(c, g) \<in> set (map_set k v m) \<Longrightarrow> (c, g) = (k, v) \<or> (c, g) \<in> set m" for k :: int and v m
    by (induction k v m rule: map_set.induct) (auto split: if_splits)
  show "(c, g) \<in> set (categoryMap cats) \<Longrightarrow> tg_children g = [] \<and> tg_key g = category_key c \<and> \<not> tg_draggable g \<and> \<not> tg_selectable g"
  proof (induction cats rule: rev_induct)
    case (snoc x cats)
    from step [OF snoc.prems [unfolded categoryMap_snoc]] snoc.IH show ?case by (auto simp: category_group_def)
  qed (simp add: categoryMap_def)
qed

lemma map_of_categoryMap_None: "map_of (categoryMap cats) c = None \<longleftrightarrow> c \<notin> cat_id ` set cats"
  by (metis categoryMap_ok(2) map_of_eq_None_iff set_map)

lemma treeData_by_group:
  "treeData cats apis =
     map (\<lambda>(c, g). g\<lparr>tg_children := group_leaves cats apis (Some c)\<rparr>) (categoryMap cats) @
     [uncategorizedGroup\<lparr>tg_children := group_leaves cats apis None\<rparr>]"
proof -
  have none: "(case ab_category_id a of None \<Rightarrow> True | Some c \<Rightarrow> map_of (categoryMap cats) c = None) \<longleftrightarrow> group_of cats a = None" for a
    by (auto simp: group_of_def map_of_categoryMap_None split: option.splits)
  have some: "ab_category_id a = Some c \<longleftrightarrow> group_of cats a = Some c" if "(c, g) \<in> set (categoryMap cats)" for a c g
  proof -
    from that have "c \<in> cat_id ` set cats" using categoryMap_ok(2) by force
    then show ?thesis by (auto simp: group_of_def split: option.splits)
  qed
  have g: "add_leaves (sorted_apis apis) (\<lambda>a. ab_category_id a = Some c) g = g\<lparr>tg_children := group_leaves cats apis (Some c)\<rparr>"
    if "(c, g) \<in> set (categoryMap cats)" for c g
    using some [OF that] categoryMap_ok(3) [OF that] by (simp add: add_leaves_def group_leaves_def)
  have u: "add_leaves (sorted_apis apis) (\<lambda>a. group_of cats a = None) uncategorizedGroup =
      uncategorizedGroup\<lparr>tg_children := group_leaves cats apis None\<rparr>"
    by (simp add: add_leaves_def group_leaves_def uncategorizedGroup_def)
  show ?thesis
    unfolding treeData_def place_all [OF categoryMap_ok(1)] prod.case none u by (auto simp: g)
qed

lemma concat_filter_mset:
  "distinct ks \<Longrightarrow> \<forall>a\<in>set xs. f a \<in> set ks \<Longrightarrow> mset (concat (map (\<lambda>k. filter (\<lambda>a. f a = k) xs) ks)) = mset xs"
proof (induction ks arbitrary: xs)
  case (Cons k ks)
  let ?ys = "filter (\<lambda>a. f a \<noteq> k) xs"
  have "filter (\<lambda>a. f a = k') xs = filter (\<lambda>a. f a = k') ?ys" if "k' \<in> set ks" for k'
    unfolding filter_filter by (rule filter_cong) (use that Cons.prems(1) in auto)
  then have "map (\<lambda>k'. filter (\<lambda>a. f a = k') xs) ks = map (\<lambda>k'. filter (\<lambda>a. f a = k') ?ys) ks" by simp
  moreover have "mset (concat (map (\<lambda>k'. filter (\<lambda>a. f a = k') ?ys) ks)) = mset ?ys"
    using Cons.prems by (intro Cons.IH) auto
  moreover have "mset xs = mset (filter (\<lambda>a. f a = k) xs) + mset ?ys" by (simp add: mset_filter)
  ultimately show ?case by (simp only: list.map concat.simps mset_append)
qed simp

lemma all_leaves:
  "concat (map tg_children (treeData cats apis)) =
   concat (map (group_leaves cats apis) (map Some (obj_keys (categoryMap cats)) @ [None]))"
  by (simp add: treeData_by_group comp_def case_prod_beta)

lemma treeData_leaves: "mset (concat (map tg_children (treeData cats apis))) = mset (map api_node apis)"
proof -
  let ?ks = "map Some (obj_keys (categoryMap cats)) @ [None]"
  have "distinct ?ks" using categoryMap_ok(1) [of cats] by (auto simp: distinct_keys_def distinct_map inj_on_def)
  moreover have "\<forall>a\<in>set (sorted_apis apis). group_of cats a \<in> set ?ks"
    using categoryMap_ok(2) [of cats] by (auto simp: group_of_def split: option.splits)
  ultimately have "mset (concat (map (\<lambda>k. filter (\<lambda>a. group_of cats a = k) (sorted_apis apis)) ?ks)) = mset (sorted_apis apis)"
    by (rule concat_filter_mset)
  then have "mset (map api_node (concat (map (\<lambda>k. filter (\<lambda>a. group_of cats a = k) (sorted_apis apis)) ?ks))) = mset (map api_node apis)"
    unfolding mset_map by (simp add: sorted_apis_def)
  then show ?thesis unfolding all_leaves by (simp add: map_concat group_leaves_def comp_def)
qed

text \<open>
  C24: The tree shows one group per category, in the order of the categories, and the uncategorized group
  last; every API of the service occurs in it exactly once, in the group of its category (or in the
  last one when it has none or the category is unknown), ordered by method within a group.
\<close>

theorem treeData_complete:
  "treeData cats apis =
     map (\<lambda>(c, g). g\<lparr>tg_children := group_leaves cats apis (Some c)\<rparr>) (categoryMap cats) @
     [uncategorizedGroup\<lparr>tg_children := group_leaves cats apis None\<rparr>] \<and>
   mset (concat (map tg_children (treeData cats apis))) = mset (map api_node apis) \<and>
   list_all (\<lambda>g. sorted (map tl_method (tg_children g))) (treeData cats apis)"
proof (intro conjI)
  have "sorted (map tl_method (group_leaves cats apis g))" for g
    by (simp add: group_leaves_def sorted_apis_def comp_def api_node_def sorted_filter)
  then show "list_all (\<lambda>g. sorted (map tl_method (tg_children g))) (treeData cats apis)"
    unfolding treeData_by_group by (auto simp: list_all_iff)
qed (rule treeData_by_group treeData_leaves)+

section \<open>Keys read back\<close>

lemma js_Number_int_str [simp]: "js_Number (int_str n) = Some n"
proof (cases "n < 0")
  case True
  have "js_trim (int_str n) = int_str n"
    using True nat_str_no_space minus_not_digit(2) by (intro js_trim_plain) (simp add: int_str_def)
  moreover have "\<not> all_digits (int_str n)" using True minus_not_digit(1) by (simp add: int_str_def all_digits_def)
  ultimately show ?thesis using True by (simp add: js_Number_def int_str_def)
next
  case False
  then show ?thesis by (simp add: js_Number_def int_str_def js_trim_plain nat_str_no_space)
qed

interpretation tree_key: codec int_str js_Number "\<lambda>_. True"
  by unfold_locales simp

text \<open>The leaves of the tree have distinct keys exactly when the APIs have distinct identifiers.\<close>

lemma leaf_keys_distinct: "distinct (map (\<lambda>a. tl_key (api_node a)) apis) \<longleftrightarrow> distinct (map ab_id apis)"
  using tree_key.distinct_enc [of "map ab_id apis"] by (simp add: api_node_def list_all_iff comp_def)

lemma int_str_nonempty: "int_str n \<noteq> []"
  by (simp add: int_str_def)

lemma int_str_hd: "hd (int_str n) \<noteq> CHR ''c''" "hd (int_str n) \<noteq> CHR ''n''"
proof -
  have "is_digit (hd (nat_str m))" for m
    using all_digits_nat_str [of m] by (cases "nat_str m") (auto simp: all_digits_def simp del: all_digits_nat_str)
  moreover have "\<not> is_digit CHR ''c''" "\<not> is_digit CHR ''n''" by code_simp+
  ultimately show "hd (int_str n) \<noteq> CHR ''c''" "hd (int_str n) \<noteq> CHR ''n''"
    by (auto simp: int_str_def) metis+
qed

lemma int_str_not_category: "\<not> prefix CATEGORY_PREFIX (int_str n)"
  using int_str_hd(1) [of n] by (auto simp: prefix_def CATEGORY_PREFIX_def)

lemma category_key_cut: "js_replace (CATEGORY_PREFIX @ s) CATEGORY_PREFIX [] = s"
  by (simp add: js_replace_def find_sub.simps [of CATEGORY_PREFIX "CATEGORY_PREFIX @ s"])

lemma category_key_neq: "category_key c \<noteq> UNCATEGORIZED_KEY"
  using int_str_hd(2) [of c] by (auto simp: category_key_def CATEGORY_PREFIX_def UNCATEGORIZED_KEY_def)

lemma key_category_group: "key_category (group_key g) = Some (case g of None \<Rightarrow> -1 | Some c \<Rightarrow> c)"
  using category_key_neq by (auto simp: key_category_def group_key_def category_key_def category_key_cut split: option.splits)

lemma group_key_prefix: "prefix CATEGORY_PREFIX (group_key g)" "group_key g \<noteq> []"
  by (auto simp: group_key_def category_key_def UNCATEGORIZED_KEY_def CATEGORY_PREFIX_def split: option.splits)

lemma group_key_inject [simp]: "group_key g = group_key h \<longleftrightarrow> g = h"
proof
  assume "group_key g = group_key h"
  then have "key_category (group_key g) = key_category (group_key h)" by simp
  then have e: "(case g of None \<Rightarrow> -1 | Some c \<Rightarrow> c) = (case h of None \<Rightarrow> -1 | Some c \<Rightarrow> c)"
    unfolding key_category_group by simp
  show "g = h"
  proof (cases g; cases h)
  qed (use e \<open>group_key g = group_key h\<close> category_key_neq in \<open>auto simp: group_key_def eq_commute [of UNCATEGORIZED_KEY]\<close>)
qed simp

section \<open>Dragging\<close>

text \<open>Where the pointer lets go: on a category, or on an API below one.\<close>

definition drop_on :: "int option \<Rightarrow> int option \<Rightarrow> drag_node" where
  "drop_on g api = (case api of
      None \<Rightarrow> \<lparr>dn_key = group_key g, dn_parentKey = None\<rparr>
    | Some b \<Rightarrow> \<lparr>dn_key = int_str b, dn_parentKey = Some (group_key g)\<rparr>)"

definition drag_from :: "int \<Rightarrow> int option \<Rightarrow> drag_node" where
  "drag_from a g = \<lparr>dn_key = int_str a, dn_parentKey = Some (group_key g)\<rparr>"

lemma drag_call:
  assumes "a \<noteq> 0"
  shows "handleDrag False True (drag_from a g) (drop_on h tgt) =
     (if g = h then None else Some (a, Some (case h of None \<Rightarrow> -1 | Some c \<Rightarrow> c)))"
proof (cases tgt)
  case None
  then show ?thesis using assms
    by (simp add: handleDrag_def drag_from_def drop_on_def group_key_prefix key_category_group)
next
  case (Some b)
  have "group_key g \<noteq> int_str b" using group_key_prefix(1) [of g] int_str_not_category [of b] by metis
  with Some show ?thesis using assms
    by (simp add: handleDrag_def drag_from_def drop_on_def group_key_prefix key_category_group int_str_not_category)
qed

lemma set_api_category_group:
  assumes "\<forall>c\<in>cat_id ` set cats. c \<ge> 0" and "h = None \<or> h \<in> Some ` cat_id ` set cats"
  shows "map (\<lambda>x. (ab_id x, group_of cats x)) (set_api_category a (Some (case h of None \<Rightarrow> -1 | Some c \<Rightarrow> c)) apis) =
     map (\<lambda>x. (ab_id x, if ab_id x = a then h else group_of cats x)) apis"
  using assms by (auto simp: set_api_category_def group_of_def split: option.splits)

text \<open>
  C25: Dragging an API onto a category, or onto an API inside it, asks the server to move that API to
  that category exactly when it is not there already; on success the tree shows the API in the new
  group and every other API where it was.  Nothing can be dragged in an iteration or in an old version.
\<close>

theorem drag_moves_one_api:
  assumes "\<forall>c\<in>cat_id ` set cats. c \<ge> 0" and "h = None \<or> h \<in> Some ` cat_id ` set cats"
    and "a \<noteq> 0" and "g \<noteq> h"
  shows "handleDrag False True (drag_from a g) (drop_on h tgt) = Some (a, Some (case h of None \<Rightarrow> -1 | Some c \<Rightarrow> c)) \<and>
    handleDrag False True (drag_from a h) (drop_on h tgt) = None \<and>
    handleDrag True isLatest (drag_from a g) (drop_on h tgt) = None \<and>
    handleDrag inIteration False (drag_from a g) (drop_on h tgt) = None \<and>
    map (\<lambda>x. (ab_id x, group_of cats x)) (set_api_category a (Some (case h of None \<Rightarrow> -1 | Some c \<Rightarrow> c)) apis) =
      map (\<lambda>x. (ab_id x, if ab_id x = a then h else group_of cats x)) apis"
  using drag_call [OF assms(3), of g h tgt] drag_call [OF assms(3), of h h tgt] assms(4)
    set_api_category_group [OF assms(1,2), of a apis]
  by (auto simp: handleDrag_def)

definition demo_cat :: "int \<Rightarrow> ApiCategory" where
  "demo_cat c = \<lparr>cat_id = c, cat_name = ''cat'', cat_description = None\<rparr>"

definition demo_brief :: "int \<Rightarrow> HttpMethod \<Rightarrow> int option \<Rightarrow> ApiBrief" where
  "demo_brief a m c = \<lparr>ab_id = a, ab_name = ''x'', ab_method = m, ab_path = ''/x'', ab_description = None,
     ab_level = None, ab_is_enabled = None, ab_category_id = c\<rparr>"

theorem drag_moves_one_api_witness:
  "handleDrag False True (drag_from 7 None) (drop_on (Some 2) (Some 9)) = Some (7, Some 2) \<and>
   map (\<lambda>x. (ab_id x, group_of [demo_cat 2] x)) (set_api_category 7 (Some 2) [demo_brief 7 GET None, demo_brief 9 PUT (Some 2)]) =
     [(7, Some 2), (9, Some 2)]"
proof -
  have "\<forall>c\<in>cat_id ` set [demo_cat 2]. c \<ge> 0" "Some 2 = None \<or> Some 2 \<in> Some ` cat_id ` set [demo_cat 2]"
    "(7::int) \<noteq> 0" "None \<noteq> Some (2::int)"
    by (simp_all add: demo_cat_def)
  from drag_moves_one_api [OF this, of "Some 9" True False "[demo_brief 7 GET None, demo_brief 9 PUT (Some 2)]"]
  show ?thesis by (simp add: demo_brief_def group_of_def demo_cat_def)
qed

section \<open>Deleting a category, selecting an API\<close>

text \<open>
  Deleting a category moves exactly its APIs to the uncategorized group; the button that does it is
  offered only for a category whose group shows no API, and then no API moves at all.
\<close>

theorem delete_category_groups:
  "group_of (delete_category c cats) a = (if group_of cats a = Some c then None else group_of cats a) \<and>
   (list_all (\<lambda>g. tg_key g = category_key c \<longrightarrow> category_deletable g) (treeData cats apis) \<longrightarrow>
      a \<in> set apis \<longrightarrow> group_of (delete_category c cats) a = group_of cats a)"
proof -
  have 1: "group_of (delete_category c cats) a = (if group_of cats a = Some c then None else group_of cats a)"
    by (auto simp: group_of_def delete_category_def split: option.splits)
  moreover have "group_of cats a \<noteq> Some c"
    if del: "list_all (\<lambda>g. tg_key g = category_key c \<longrightarrow> category_deletable g) (treeData cats apis)" and a: "a \<in> set apis"
  proof
    assume g: "group_of cats a = Some c"
    then have "c \<in> set (obj_keys (categoryMap cats))"
      unfolding categoryMap_ok(2) by (auto simp: group_of_def split: option.splits if_splits)
    then obtain v where v: "(c, v) \<in> set (categoryMap cats)" by auto
    then have "v\<lparr>tg_children := group_leaves cats apis (Some c)\<rparr> \<in> set (treeData cats apis)"
      unfolding treeData_by_group by force
    moreover have "tg_key v = category_key c" using categoryMap_ok(3) [OF v] by simp
    ultimately have "group_leaves cats apis (Some c) = []"
      using del by (force simp: list_all_iff category_deletable_def)
    with g a show False by (auto simp: group_leaves_def sorted_apis_def filter_empty_conv)
  qed
  ultimately show ?thesis by simp
qed

theorem delete_category_groups_witness:
  "group_of (delete_category 2 [demo_cat 2, demo_cat 5]) (demo_brief 7 GET (Some 5)) = Some 5"
  using delete_category_groups [of 2 "[demo_cat 2, demo_cat 5]" "demo_brief 7 GET (Some 5)" "[]"]
  by (simp add: group_of_def demo_cat_def demo_brief_def)

text \<open>
  The entry selected when a tree appears is its first API: it belongs to the service, its id is what
  the page is told to show, and nothing is preselected exactly when the service has no API.
\<close>

theorem preselected_api:
  "(firstOptionKey (treeData cats apis) = [] \<longleftrightarrow> apis = []) \<and>
   (apis \<noteq> [] \<longrightarrow> (\<exists>a\<in>set apis. select_first (treeData cats apis) s = \<lparr>sel_apiId = Some (ab_id a), sel_keys = [int_str (ab_id a)]\<rparr>))"
proof -
  let ?t = "treeData cats apis"
  have leaves: "mset (concat (map tg_children ?t)) = mset (map api_node apis)" by (rule treeData_leaves)
  show ?thesis
  proof (cases "filter (\<lambda>g. tg_children g \<noteq> []) ?t")
    case Nil
    then have "concat (map tg_children ?t) = []" by (auto simp: filter_empty_conv)
    with leaves have "apis = []" by simp
    with Nil show ?thesis by (simp add: firstOptionKey_def)
  next
    case (Cons g gs)
    then have "g \<in> set (filter (\<lambda>g. tg_children g \<noteq> []) ?t)" by simp
    then have g: "g \<in> set ?t" "tg_children g \<noteq> []" by auto
    then have "hd (tg_children g) \<in> set (concat (map tg_children ?t))" using hd_in_set by fastforce
    with leaves have "hd (tg_children g) \<in> set (map api_node apis)" by (metis mset_eq_setD)
    then obtain a where a: "a \<in> set apis" "hd (tg_children g) = api_node a" by auto
    then have "firstOptionKey ?t = int_str (ab_id a)" using Cons by (simp add: firstOptionKey_def api_node_def)
    with a show ?thesis using int_str_nonempty by (auto simp: select_first_def Let_def)
  qed
qed

theorem preselected_api_witness:
  "\<exists>a\<in>set [demo_brief 7 GET None]. select_first (treeData [] [demo_brief 7 GET None]) \<lparr>sel_apiId = None, sel_keys = []\<rparr> =
     \<lparr>sel_apiId = Some (ab_id a), sel_keys = [int_str (ab_id a)]\<rparr>"
  using preselected_api [of "[]" "[demo_brief 7 GET None]" "\<lparr>sel_apiId = None, sel_keys = []\<rparr>"] by simp

end
