(* ===== verification/Fe_Version.thy ===== *)
theory Fe_Version
  imports Cli_Utils
begin

text \<open>
  \<open>FE-CAM/src/components/ApiManagement/ApiList/CompleteIterationForm.tsx\<close>: the version a finished
  iteration gets.  A version part is a number when it consists of digits; \<open>None\<close> is \<open>NaN\<close>, whose
  comparisons are all false.  Stored versions have the form \<open>x.y.z\<close>, so the other notations \<open>Number\<close>
  accepts (signs, exponents, hexadecimal) do not occur in a part; parts are taken below \<open>2^53\<close>, where
  JavaScript numbers are exact.
\<close>

section \<open>Model\<close>

definition to_number :: "string option \<Rightarrow> nat option" where
  "to_number part = (case part of None \<Rightarrow> None
     | Some s \<Rightarrow> if s = [] then Some 0 else if all_digits s then Some (digits_val s) else None)"

definition num_less :: "nat option \<Rightarrow> nat option \<Rightarrow> bool" where
  "num_less a b = (case (a, b) of (Some x, Some y) \<Rightarrow> x < y | _ \<Rightarrow> False)"

definition num_eq :: "nat option \<Rightarrow> nat option \<Rightarrow> bool" where
  "num_eq a b = (case (a, b) of (Some x, Some y) \<Rightarrow> x = y | _ \<Rightarrow> False)"

definition nth_part :: "string list \<Rightarrow> nat \<Rightarrow> string option" where
  "nth_part parts i = (if i < length parts then Some (parts ! i) else None)"

datatype version_error = BadFormat | LowerThanCurrent

definition validateVersion :: "string \<Rightarrow> string option \<Rightarrow> version_error option" where
  "validateVersion currentVersion value =
     (case value of None \<Rightarrow> None
      | Some v \<Rightarrow>
          if v = [] then None
          else if \<not> version_regex v then Some BadFormat
          else if currentVersion = [] then None
          else
            (let parts = split_on CHR ''.'' v; curr = split_on CHR ''.'' currentVersion;
                 major = to_number (nth_part parts 0); minor = to_number (nth_part parts 1); patch = to_number (nth_part parts 2);
                 currMajor = to_number (nth_part curr 0); currMinor = to_number (nth_part curr 1); currPatch = to_number (nth_part curr 2)
             in if num_less major currMajor \<or> (num_eq major currMajor \<and> num_less minor currMinor) \<or>
                   (num_eq major currMajor \<and> num_eq minor currMinor \<and> num_less patch currPatch)
                then Some LowerThanCurrent else None))"

text \<open>The suggestion; a patch part that is not a number prints as \<open>NaN\<close>.\<close>

definition suggestVersionPlaceholder :: "string \<Rightarrow> string" where
  "suggestVersionPlaceholder currentVersion =
     (if currentVersion = [] then []
      else case split_on CHR ''.'' currentVersion of
             [x, y, z] \<Rightarrow> x @ ''.'' @ y @ ''.'' @
               (case to_number (Some z) of None \<Rightarrow> ''NaN'' | Some n \<Rightarrow> nat_str (n + 1))
           | _ \<Rightarrow> [])"

section \<open>Versions as triples\<close>

definition version_str :: "nat \<times> nat \<times> nat \<Rightarrow> string" where
  "version_str v = (case v of (x, y, z) \<Rightarrow> nat_str x @ ''.'' @ nat_str y @ ''.'' @ nat_str z)"

definition version_le :: "nat \<times> nat \<times> nat \<Rightarrow> nat \<times> nat \<times> nat \<Rightarrow> bool" where
  "version_le v w = (case (v, w) of ((x, y, z), (a, b, c)) \<Rightarrow> x < a \<or> (x = a \<and> (y < b \<or> (y = b \<and> z \<le> c))))"

lemma nat_str_no_dot: "CHR ''.'' \<notin> set (nat_str n)"
  using digits_no_dot [OF all_digits_nat_str] .

lemma split_version: "split_on CHR ''.'' (version_str (x, y, z)) = [nat_str x, nat_str y, nat_str z]"
  by (simp add: version_str_def split_on_append split_on_free nat_str_no_dot)

lemma version_regex_str: "version_regex (version_str v)"
  by (cases v) (simp add: version_regex_def split_version)

lemma version_str_nonempty: "version_str v \<noteq> []"
  by (cases v) (simp add: version_str_def)

lemma to_number_nat [simp]: "to_number (Some (nat_str n)) = Some n"
  by (simp add: to_number_def)

lemma validate_triples:
  "validateVersion (version_str c) (Some (version_str v)) = (if version_le c v then None else Some LowerThanCurrent)"
proof -
  obtain x y z where v: "v = (x, y, z)" by (cases v)
  obtain a b d where c: "c = (a, b, d)" by (cases c)
  show ?thesis
    using version_regex_str [of v] version_str_nonempty
    by (auto simp: validateVersion_def v c split_version nth_part_def num_less_def num_eq_def version_le_def Let_def)
qed

text \<open>
  The suggested version is the current one with the patch number increased by one, and the form
  accepts it.
\<close>

theorem suggested_version_accepted:
  "suggestVersionPlaceholder (version_str (x, y, z)) = version_str (x, y, z + 1) \<and>
   validateVersion (version_str (x, y, z)) (Some (suggestVersionPlaceholder (version_str (x, y, z)))) = None"
proof -
  have s: "suggestVersionPlaceholder (version_str (x, y, z)) = version_str (x, y, z + 1)"
    using version_str_nonempty [of "(x, y, z)"]
    by (simp add: suggestVersionPlaceholder_def split_version) (simp add: version_str_def)
  show ?thesis unfolding s by (simp add: validate_triples version_le_def)
qed

end
