(* ===== verification/Fe_This_Service.thy ===== *)
theory Fe_This_Service
  imports Fe_Request Fe_Tree Fe_Version
begin

text \<open>
  One service on the API page: the hook \<open>useThisService\<close> of \<open>FE-CAM/src/hooks/useService.tsx\<close> together with
  the version selector of \<open>components/ApiManagement/index.tsx\<close>.

  Requests of the hook are not awaited by the page, so several may be under way and their answers may
  come in any order.  The state therefore carries the list of requests under way, each handler is split
  at its \<open>await\<close> into the part before and the part after it, and the page is a step relation.  An
  answer is \<open>Inl\<close> of the message of the rejection or \<open>Inr\<close> of the response.
\<close>

section \<open>State\<close>

record version_entry =
  ve_version :: "string option"
  ve_is_latest :: bool

record versions_response = BaseResponse +
  vr_versions :: "version_entry list"

datatype pending = PVersions | PDetail string

text \<open>\<open>ts_detail\<close> is \<open>None\<close> for the empty object; \<open>ts_reloads\<close> counts calls of \<open>window.location.reload\<close>.\<close>

record service_state =
  ts_loading :: bool
  ts_versions :: "version_entry list"
  ts_currentVersion :: string
  ts_isLatest :: bool
  ts_detail :: "ServiceInfo option"
  ts_apiCategories :: "ApiCategory list"
  ts_apis :: "ApiBrief list"
  ts_inIteration :: bool
  ts_iterationId :: int
  ts_selectedApiId :: int
  ts_toasts :: "toast list"
  ts_home :: bool
  ts_pending :: "pending list"

definition empty_service :: service_state where
  "empty_service = \<lparr>ts_loading = False, ts_versions = [], ts_currentVersion = [], ts_isLatest = True, ts_detail = None,
     ts_apiCategories = [], ts_apis = [], ts_inIteration = False, ts_iterationId = -1, ts_selectedApiId = -1,
     ts_toasts = [], ts_home = False, ts_pending = []\<rparr>"

definition ts_warn :: "string \<Rightarrow> service_state \<Rightarrow> service_state" where
  "ts_warn m st = st\<lparr>ts_toasts := ts_toasts st @ [WarningToast m]\<rparr>"

definition ts_success :: "string \<Rightarrow> service_state \<Rightarrow> service_state" where
  "ts_success m st = st\<lparr>ts_toasts := ts_toasts st @ [SuccessToast m]\<rparr>"

section \<open>Versions and details\<close>

definition fetchServiceDetail :: "string \<Rightarrow> service_state \<Rightarrow> service_state" where
  "fetchServiceDetail version st = st\<lparr>ts_loading := True, ts_pending := ts_pending st @ [PDetail version]\<rparr>"

text \<open>\<open>setCurrentVersion\<close> and the effect on \<open>currentVersion\<close>, which runs only when the value changed.\<close>

definition setCurrentVersion :: "string \<Rightarrow> service_state \<Rightarrow> service_state" where
  "setCurrentVersion v st =
     (if v = ts_currentVersion st then st
      else (let st' = st\<lparr>ts_currentVersion := v\<rparr> in if v = [] then st' else fetchServiceDetail v st'))"

definition fetchAllVersions :: "service_state \<Rightarrow> service_state" where
  "fetchAllVersions st = st\<lparr>ts_loading := True, ts_pending := ts_pending st @ [PVersions]\<rparr>"

text \<open>The versions without a number (an iteration under way) are left out of the selector.\<close>

definition fetchAllVersions_done :: "string + versions_response \<Rightarrow> service_state \<Rightarrow> service_state" where
  "fetchAllVersions_done r st =
     (case r of
        Inl e \<Rightarrow> (ts_warn e st)\<lparr>ts_home := True, ts_loading := False\<rparr>
      | Inr res \<Rightarrow>
          if status res \<noteq> 200
          then (ts_warn (or_str (Some (message res)) ''fetching the versions failed'') (st\<lparr>ts_loading := False, ts_versions := []\<rparr>))
                 \<lparr>ts_home := True, ts_loading := False\<rparr>
          else
            setCurrentVersion (case vr_versions res of [] \<Rightarrow> [] | e # _ \<Rightarrow> or_str (ve_version e) [])
              (st\<lparr>ts_versions := filter (\<lambda>e. truthy_str (ve_version e)) (vr_versions res),
                  ts_isLatest := (case vr_versions res of [] \<Rightarrow> False | e # _ \<Rightarrow> ve_is_latest e),
                  ts_loading := False\<rparr>))"

text \<open>
  The members of the response are recognised with \<open>in\<close>; a member that is absent leaves the state it
  would set as it was.  An old version is an iteration: it has \<open>api_drafts\<close> and no categories.
\<close>

definition show_detail :: "ServiceInfo \<Rightarrow> bool \<Rightarrow> service_state \<Rightarrow> service_state" where
  "show_detail info is_latest st =
     (let st1 = st\<lparr>ts_detail := Some info, ts_isLatest := is_latest\<rparr> in
      case info of
        LatestInfo d \<Rightarrow>
          (let st2 = (case sd_api_categories d of None \<Rightarrow> st1 | Some cs \<Rightarrow> st1\<lparr>ts_apiCategories := cs\<rparr>)
           in case sd_apis d of None \<Rightarrow> st2 | Some as \<Rightarrow> st2\<lparr>ts_apis := as\<rparr>)
      | IterationInfo d \<Rightarrow>
          (case it_api_drafts d of None \<Rightarrow> st1 | Some as \<Rightarrow> st1\<lparr>ts_apis := as\<rparr>))"

definition fetchServiceDetail_done :: "string + GetServiceByUuidAndVersionResponse \<Rightarrow> service_state \<Rightarrow> service_state" where
  "fetchServiceDetail_done r st =
     (case r of
        Inl e \<Rightarrow> (ts_warn e st)\<lparr>ts_loading := False\<rparr>
      | Inr res \<Rightarrow>
          if status res \<noteq> 200
          then (ts_warn (or_str (Some (message res)) ''fetching the service failed'') (st\<lparr>ts_detail := None\<rparr>))\<lparr>ts_loading := False\<rparr>
          else (show_detail (gs_service res) (gs_is_latest res) st)\<lparr>ts_loading := False\<rparr>)"

section \<open>Categories, maintainers, export\<close>

definition service_id :: "service_state \<Rightarrow> int option" where
  "service_id st = map_option (\<lambda>i. case i of LatestInfo d \<Rightarrow> si_id d | IterationInfo d \<Rightarrow> it_id d) (ts_detail st)"

record category_response = BaseResponse +
  cr_category :: ApiCategory

text \<open>
  Each handler with the answer of its request; the first component of \<open>handleAddCategory\<close> tells whether
  the dialog was closed, the one of \<open>handleUpdateApiCategory\<close> whether the error was thrown on.
\<close>

definition handleAddCategory :: "string option + (string + category_response) \<Rightarrow> service_state \<Rightarrow> bool \<times> service_state" where
  "handleAddCategory r st =
     (case r of
        Inl None \<Rightarrow> (False, ts_warn ''adding the category failed'' st)
      | Inl (Some m) \<Rightarrow> (False, ts_warn m st)
      | Inr (Inl e) \<Rightarrow> (False, ts_warn e st)
      | Inr (Inr res) \<Rightarrow>
          if status res \<noteq> 200 then (False, ts_warn (or_str (Some (message res)) ''adding the category failed'') st)
          else (True, (ts_success (or_str (Some (message res)) ''category added'') st)
                        \<lparr>ts_apiCategories := ts_apiCategories st @ [cr_category res]\<rparr>))"

definition handleUpdateApiCategory :: "int \<Rightarrow> int option \<Rightarrow> string + BaseResponse \<Rightarrow> service_state \<Rightarrow> bool \<times> service_state" where
  "handleUpdateApiCategory api_id category_id r st =
     (case r of
        Inl e \<Rightarrow> (True, ts_warn e st)
      | Inr res \<Rightarrow>
          if status res \<noteq> 200 then (True, ts_warn (or_str (Some (message res)) ''updating the category failed'') st)
          else (False, st\<lparr>ts_apis := set_api_category api_id category_id (ts_apis st)\<rparr>))"

definition handleDeleteCategory :: "int \<Rightarrow> string + BaseResponse \<Rightarrow> service_state \<Rightarrow> service_state" where
  "handleDeleteCategory category_id r st =
     (case r of
        Inl e \<Rightarrow> ts_warn e st
      | Inr res \<Rightarrow>
          if status res \<noteq> 200 then ts_warn (or_str (Some (message res)) ''deleting the category failed'') st
          else (ts_success (or_str (Some (message res)) ''category deleted'') st)
                 \<lparr>ts_apiCategories := delete_category category_id (ts_apiCategories st)\<rparr>)"

record maintainer_response = BaseResponse +
  mr_is_current_maintainer :: bool

definition checkIsServiceMaintainer :: "string + maintainer_response \<Rightarrow> service_state \<Rightarrow> bool \<times> service_state" where
  "checkIsServiceMaintainer r st =
     (case r of
        Inl e \<Rightarrow> (False, ts_warn e st)
      | Inr res \<Rightarrow>
          if status res \<noteq> 200 then (False, ts_warn (or_str (Some (message res)) ''checking the maintainer failed'') st)
          else (mr_is_current_maintainer res, st))"

definition handleAddOrRemoveServiceMaintainerById :: "string + maintainer_response \<Rightarrow> service_state \<Rightarrow> bool \<times> service_state" where
  "handleAddOrRemoveServiceMaintainerById r st =
     (case r of
        Inl e \<Rightarrow> (False, ts_warn e st)
      | Inr res \<Rightarrow>
          if status res \<noteq> 200 then (False, ts_warn (or_str (Some (message res)) ''changing the maintainers failed'') st)
          else (mr_is_current_maintainer res, ts_success (or_str (Some (message res)) ''maintainers changed'') st))"

record export_response = BaseResponse +
  er_openapi_object :: jval

definition handleExportOpenAPI :: "string + export_response \<Rightarrow> service_state \<Rightarrow> jval option \<times> service_state" where
  "handleExportOpenAPI r st =
     (case r of
        Inl e \<Rightarrow> (None, ts_warn e st)
      | Inr res \<Rightarrow>
          if status res \<noteq> 200 then (None, ts_warn (or_str (Some (message res)) ''exporting failed'') st)
          else (Some (er_openapi_object res), st))"

section \<open>Iterations\<close>

record start_response = BaseResponse +
  st_service_iteration_id :: int

definition handleStartIteration :: "string + start_response \<Rightarrow> service_state \<Rightarrow> service_state" where
  "handleStartIteration r st =
     (case r of
        Inl e \<Rightarrow> ts_warn e st
      | Inr res \<Rightarrow>
          if status res \<noteq> 200 \<and> status res \<noteq> 201
          then ts_warn (or_str (Some (message res)) ''starting the iteration failed'') st
          else (ts_success (or_str (Some (message res)) ''iteration started'') st)
                 \<lparr>ts_inIteration := True, ts_iterationId := st_service_iteration_id res\<rparr>)"

text \<open>
  The dialog that completes an iteration: the version is checked by the form (\<open>validateVersion\<close>), then
  sent; success closes the dialog and reloads the page.  \<open>reason\<close> is the message of the form's rejection
  if that is an \<open>Error\<close>.
\<close>

datatype complete_result = StaysOpen service_state | ReloadsWith string service_state

definition handleCompleteIteration :: "string option \<Rightarrow> string \<Rightarrow> (string \<Rightarrow> string + BaseResponse) \<Rightarrow> service_state \<Rightarrow> complete_result" where
  "handleCompleteIteration reason new_version commit st =
     (if new_version = [] \<or> validateVersion (ts_currentVersion st) (Some new_version) \<noteq> None
      then StaysOpen (ts_warn (case reason of None \<Rightarrow> ''committing the iteration failed'' | Some m \<Rightarrow> m) st)
      else case commit new_version of
        Inl e \<Rightarrow> StaysOpen (ts_warn e st)
      | Inr res \<Rightarrow>
          if status res \<noteq> 200 then StaysOpen (ts_warn (or_str (Some (message res)) ''committing the iteration failed'') st)
          else ReloadsWith new_version (ts_success (or_str (Some (message res)) ''iteration committed'') st))"

definition exitIteration :: "service_state \<Rightarrow> service_state" where
  "exitIteration st = st\<lparr>ts_inIteration := False, ts_iterationId := -1\<rparr>"

text \<open>The version selector of the page.\<close>

definition page_setCurrentVersion :: "string \<Rightarrow> service_state \<Rightarrow> service_state" where
  "page_setCurrentVersion v st =
     inIterationWarning (\<lambda>st. setCurrentVersion v (st\<lparr>ts_selectedApiId := -1\<rparr>)) (ts_inIteration st) RejectKind False st"

section \<open>The page as a step relation\<close>

text \<open>
  \<open>ans v r\<close> says that the server may answer the request for version \<open>v\<close> with \<open>r\<close>.  With \<open>fifo\<close> the
  requests are answered in the order in which they were sent; without it in any order.
\<close>

type_synonym detail_answer = "string + GetServiceByUuidAndVersionResponse"

inductive page_step :: "bool \<Rightarrow> (string \<Rightarrow> detail_answer \<Rightarrow> bool) \<Rightarrow> service_state \<Rightarrow> service_state \<Rightarrow> bool"
  for fifo :: bool and ans :: "string \<Rightarrow> detail_answer \<Rightarrow> bool" where
  detail_answered: "ts_pending st = xs @ PDetail v # ys \<Longrightarrow> fifo \<longrightarrow> xs = [] \<Longrightarrow> ans v r \<Longrightarrow>
     page_step fifo ans st (fetchServiceDetail_done r (st\<lparr>ts_pending := xs @ ys\<rparr>))"
| versions_answered: "ts_pending st = xs @ PVersions # ys \<Longrightarrow> fifo \<longrightarrow> xs = [] \<Longrightarrow>
     page_step fifo ans st (fetchAllVersions_done vr (st\<lparr>ts_pending := xs @ ys\<rparr>))"
| version_chosen: "e \<in> set (ts_versions st) \<Longrightarrow> page_step fifo ans st (page_setCurrentVersion (or_str (ve_version e) []) st)"
| iteration_started: "ts_detail st \<noteq> None \<Longrightarrow> page_step fifo ans st (handleStartIteration sr st)"
| iteration_left: "page_step fifo ans st (exitIteration st)"
| category_added: "page_step fifo ans st (snd (handleAddCategory cr st))"
| api_moved: "page_step fifo ans st (snd (handleUpdateApiCategory a c br st))"
| category_deleted: "page_step fifo ans st (handleDeleteCategory c br st)"
| api_selected: "page_step fifo ans st (st\<lparr>ts_selectedApiId := a\<rparr>)"

inductive page_reachable :: "bool \<Rightarrow> (string \<Rightarrow> detail_answer \<Rightarrow> bool) \<Rightarrow> service_state \<Rightarrow> bool"
  for fifo :: bool and ans :: "string \<Rightarrow> detail_answer \<Rightarrow> bool" where
  mounted: "page_reachable fifo ans (fetchAllVersions empty_service)"
| stepped: "page_reachable fifo ans st \<Longrightarrow> page_step fifo ans st st' \<Longrightarrow> page_reachable fifo ans st'"

text \<open>What no handler but the ones for versions and details touches.\<close>

definition same_view :: "service_state \<Rightarrow> service_state \<Rightarrow> bool" where
  "same_view st st' \<longleftrightarrow> ts_loading st' = ts_loading st \<and> ts_pending st' = ts_pending st \<and> ts_versions st' = ts_versions st \<and>
     ts_currentVersion st' = ts_currentVersion st \<and> ts_detail st' = ts_detail st \<and> ts_isLatest st' = ts_isLatest st"

lemma same_view_warn [simp]: "same_view st (ts_warn m st)" "same_view st (ts_success m st)"
  by (simp_all add: same_view_def ts_warn_def ts_success_def)

lemma same_view_handlers:
  "same_view st (handleStartIteration sr st)" "same_view st (exitIteration st)" "same_view st (snd (handleAddCategory cr st))"
  "same_view st (snd (handleUpdateApiCategory a c br st))" "same_view st (handleDeleteCategory d br st)"
  "same_view st (st\<lparr>ts_selectedApiId := a\<rparr>)"
  by (auto simp: same_view_def handleStartIteration_def exitIteration_def handleAddCategory_def handleUpdateApiCategory_def
      handleDeleteCategory_def ts_warn_def ts_success_def split: sum.splits option.splits)

lemma iteration_handlers:
  "ts_inIteration (snd (handleAddCategory cr st)) = ts_inIteration st"
  "ts_inIteration (snd (handleUpdateApiCategory a c br st)) = ts_inIteration st"
  "ts_inIteration (handleDeleteCategory d br st) = ts_inIteration st"
  "ts_iterationId (snd (handleAddCategory cr st)) = ts_iterationId st"
  "ts_iterationId (snd (handleUpdateApiCategory a c br st)) = ts_iterationId st"
  "ts_iterationId (handleDeleteCategory d br st) = ts_iterationId st"
  by (auto simp: handleAddCategory_def handleUpdateApiCategory_def handleDeleteCategory_def ts_warn_def ts_success_def
      split: sum.splits option.splits)

text \<open>
  What an answer shows: the details, whether they are of the latest version, and the APIs and categories it has, which
  the user may have edited since.  A rejected request shows nothing.
\<close>

definition answer_lists :: "ServiceInfo \<Rightarrow> ApiBrief list option \<times> ApiCategory list option" where
  "answer_lists info = (case info of LatestInfo d \<Rightarrow> (sd_apis d, sd_api_categories d) | IterationInfo d \<Rightarrow> (it_api_drafts d, None))"

inductive category_edits :: "ApiBrief list \<times> ApiCategory list \<Rightarrow> ApiBrief list \<times> ApiCategory list \<Rightarrow> bool" for x where
  unedited: "category_edits x x"
| added_one: "category_edits x (as, cs) \<Longrightarrow> category_edits x (as, cs @ [c])"
| moved_one: "category_edits x (as, cs) \<Longrightarrow> category_edits x (set_api_category a c as, cs)"
| deleted_one: "category_edits x (as, cs) \<Longrightarrow> category_edits x (as, delete_category k cs)"

definition shows_answer :: "detail_answer \<Rightarrow> service_state \<Rightarrow> bool" where
  "shows_answer r st \<longleftrightarrow>
     (case r of
        Inl _ \<Rightarrow> False
      | Inr res \<Rightarrow>
          if status res = 200
          then ts_detail st = Some (gs_service res) \<and> ts_isLatest st = gs_is_latest res \<and>
            (\<exists>as cs. fst (answer_lists (gs_service res)) \<in> {None, Some as} \<and> snd (answer_lists (gs_service res)) \<in> {None, Some cs} \<and>
               category_edits (as, cs) (ts_apis st, ts_apiCategories st))
          else ts_detail st = None)"

lemma detail_done_facts:
  "\<not> ts_loading (fetchServiceDetail_done r st)" "ts_pending (fetchServiceDetail_done r st) = ts_pending st"
  "ts_versions (fetchServiceDetail_done r st) = ts_versions st" "ts_currentVersion (fetchServiceDetail_done r st) = ts_currentVersion st"
  "ts_inIteration (fetchServiceDetail_done r st) = ts_inIteration st" "ts_iterationId (fetchServiceDetail_done r st) = ts_iterationId st"
  "shows_answer (Inr res) (fetchServiceDetail_done (Inr res) st)"
proof -
  show "shows_answer (Inr res) (fetchServiceDetail_done (Inr res) st)"
    using category_edits.unedited [of "(ts_apis (fetchServiceDetail_done (Inr res) st), ts_apiCategories (fetchServiceDetail_done (Inr res) st))"]
    by (cases "gs_service res")
      (force simp: fetchServiceDetail_done_def ts_warn_def show_detail_def Let_def shows_answer_def answer_lists_def split: option.splits)+
qed (auto simp: fetchServiceDetail_done_def ts_warn_def show_detail_def Let_def split: sum.splits ServiceInfo.splits option.splits)

lemma setCurrentVersion_facts:
  "ts_currentVersion (setCurrentVersion v st) = v" "ts_versions (setCurrentVersion v st) = ts_versions st"
  "ts_detail (setCurrentVersion v st) = ts_detail st" "ts_inIteration (setCurrentVersion v st) = ts_inIteration st"
  "ts_iterationId (setCurrentVersion v st) = ts_iterationId st" "ts_isLatest (setCurrentVersion v st) = ts_isLatest st"
  "ts_pending (setCurrentVersion v st) =
     (if v = ts_currentVersion st \<or> v = [] then ts_pending st else ts_pending st @ [PDetail v])"
  "ts_loading (setCurrentVersion v st) = (if v = ts_currentVersion st \<or> v = [] then ts_loading st else True)"
  by (auto simp: setCurrentVersion_def fetchServiceDetail_def Let_def)

lemma page_setCurrentVersion_eq:
  "page_setCurrentVersion v st = (if ts_inIteration st then st else setCurrentVersion v (st\<lparr>ts_selectedApiId := -1\<rparr>))"
  by (simp add: page_setCurrentVersion_def inIterationWarning_def)

text \<open>Nothing but the answer with the versions comes first.\<close>

definition page_ok :: "service_state \<Rightarrow> bool" where
  "page_ok st \<longleftrightarrow>
     (ts_loading st \<longrightarrow> ts_pending st \<noteq> []) \<and> (\<not> ts_inIteration st \<longrightarrow> ts_iterationId st = -1) \<and>
     (PVersions \<in> set (ts_pending st) \<longrightarrow>
        ts_pending st = [PVersions] \<and> ts_currentVersion st = [] \<and> ts_detail st = None \<and> ts_versions st = [] \<and> \<not> ts_inIteration st)"

lemma page_ok_same_view:
  assumes "same_view st st'" "page_ok st" "\<not> ts_inIteration st' \<longrightarrow> ts_iterationId st' = -1"
    "ts_inIteration st' \<longrightarrow> ts_inIteration st \<or> ts_detail st \<noteq> None"
  shows "page_ok st'"
  using assms unfolding page_ok_def same_view_def by auto

lemma page_ok_same_iteration:
  assumes "same_view st st'" "ts_inIteration st' = ts_inIteration st" "ts_iterationId st' = ts_iterationId st" "page_ok st"
  shows "page_ok st'"
  using page_ok_same_view [OF assms(1,4)] assms by (auto simp: page_ok_def)

lemmas page_ok_category = page_ok_same_iteration [OF same_view_handlers(3)] page_ok_same_iteration [OF same_view_handlers(4)]
  page_ok_same_iteration [OF same_view_handlers(5)] page_ok_same_iteration [OF same_view_handlers(6)]

lemma versions_done_facts:
  "ts_inIteration (fetchAllVersions_done vr st) = ts_inIteration st" "ts_iterationId (fetchAllVersions_done vr st) = ts_iterationId st"
  "ts_pending (fetchAllVersions_done vr st) = ts_pending st \<and> \<not> ts_loading (fetchAllVersions_done vr st) \<and>
     (ts_currentVersion (fetchAllVersions_done vr st) = ts_currentVersion st \<or> ts_currentVersion (fetchAllVersions_done vr st) = []) \<or>
   ts_pending (fetchAllVersions_done vr st) = ts_pending st @ [PDetail (ts_currentVersion (fetchAllVersions_done vr st))]"
  by (auto simp: fetchAllVersions_done_def setCurrentVersion_facts ts_warn_def split: sum.splits)

lemma page_ok_step: "page_step fifo ans st st' \<Longrightarrow> page_ok st \<Longrightarrow> page_ok st'"
proof (induction rule: page_step.induct)
  case (detail_answered st xs v ys r)
  then have "PVersions \<notin> set (ts_pending st)" by (auto simp: page_ok_def append_eq_Cons_conv)
  with detail_answered show ?case by (auto simp: page_ok_def detail_done_facts)
next
  case (versions_answered st xs ys vr)
  then have p: "xs = []" "ys = []" by (auto simp: page_ok_def append_eq_Cons_conv)
  show ?case
    using versions_done_facts(3) [of vr "st\<lparr>ts_pending := xs @ ys\<rparr>"] versions_answered
    by (auto simp: page_ok_def versions_done_facts(1,2) p)
next
  case (version_chosen e st)
  then have "PVersions \<notin> set (ts_pending st)" by (auto simp: page_ok_def)
  with version_chosen show ?case by (auto simp: page_ok_def page_setCurrentVersion_eq setCurrentVersion_facts)
next
  case (iteration_started st sr)
  show ?case
  proof (rule page_ok_same_view [OF same_view_handlers(1) iteration_started(2)])
  qed (use iteration_started in \<open>auto simp: page_ok_def handleStartIteration_def ts_warn_def ts_success_def split: sum.splits\<close>)
next
  case (iteration_left st)
  show ?case by (rule page_ok_same_view [OF same_view_handlers(2) iteration_left]) (auto simp: exitIteration_def)
qed (simp_all add: page_ok_category iteration_handlers)

lemma page_ok_reachable: "page_reachable fifo ans st \<Longrightarrow> page_ok st"
proof (induction rule: page_reachable.induct)
  case mounted
  show ?case by (simp add: page_ok_def fetchAllVersions_def empty_service_def)
qed (rule page_ok_step)

text \<open>
  In whatever order the answers arrive, the hook is not left loading: once every request has been answered its flag is down.
  The page shows its spinner also while it has no service, and so for good after the details were refused.
\<close>

lemma hook_settles:
  assumes "page_reachable fifo ans st" and "ts_pending st = []"
  shows "\<not> ts_loading st"
  using page_ok_reachable [OF assms(1)] assms(2) by (auto simp: page_ok_def)

text \<open>
  During an iteration the version shown cannot be changed, and outside one there is no iteration id.
\<close>

theorem version_fixed_in_iteration:
  assumes "page_reachable fifo ans st" and "page_step fifo ans st st'"
  shows "(ts_inIteration st \<longrightarrow> ts_currentVersion st' = ts_currentVersion st) \<and>
    (\<not> ts_inIteration st' \<longrightarrow> ts_iterationId st' = -1)"
proof
  have ok: "page_ok st" using page_ok_reachable [OF assms(1)] .
  show "\<not> ts_inIteration st' \<longrightarrow> ts_iterationId st' = -1"
    using page_ok_step [OF assms(2) ok] by (simp add: page_ok_def)
  show "ts_inIteration st \<longrightarrow> ts_currentVersion st' = ts_currentVersion st"
    using assms(2)
  proof cases
    case (versions_answered xs ys vr)
    then have "\<not> ts_inIteration st" using ok by (auto simp: page_ok_def)
    then show ?thesis by simp
  qed (use same_view_handlers in \<open>auto simp: same_view_def detail_done_facts page_setCurrentVersion_eq\<close>)
qed

section \<open>Which version the page shows\<close>











text \<open>A rejected request leaves the details of the version before under the selector.\<close>

lemma rejected_shows_old: "ts_detail (fetchServiceDetail_done (Inl e) st) = ts_detail st"
  by (simp add: fetchServiceDetail_done_def ts_warn_def)

text \<open>A service with two versions, and its server.\<close>

definition demo_info :: "int \<Rightarrow> ServiceInfo" where
  "demo_info n = LatestInfo \<lparr>si_id = n, si_service_uuid = ''a/b/c'', si_version = ''v'', si_description = None, si_owner_id = 1,
     si_created_at = [], si_is_deleted = False, si_owner = None, si_deleted_at = None, sd_maintainers = None, sd_apis = None,
     sd_api_categories = None\<rparr>"

definition demo_detail :: "int \<Rightarrow> detail_answer" where
  "demo_detail n = Inr \<lparr>status = 200, message = [], gs_service = demo_info n, gs_is_latest = (n = 2)\<rparr>"

definition demo_answer :: "string \<Rightarrow> detail_answer \<Rightarrow> bool" where
  "demo_answer v r \<longleftrightarrow> (v = ''1.0.1'' \<and> r = demo_detail 2) \<or> (v = ''1.0.0'' \<and> r = demo_detail 1)"

definition demo_versions :: "string + versions_response" where
  "demo_versions = Inr \<lparr>status = 200, message = [],
     vr_versions = [\<lparr>ve_version = Some ''1.0.1'', ve_is_latest = True\<rparr>, \<lparr>ve_version = Some ''1.0.0'', ve_is_latest = False\<rparr>]\<rparr>"

definition demo_loaded :: service_state where
  "demo_loaded = fetchAllVersions_done demo_versions (empty_service\<lparr>ts_loading := True\<rparr>)"

lemma demo_loaded_pending: "ts_pending demo_loaded = [PDetail ''1.0.1'']" "ts_versions demo_loaded =
    [\<lparr>ve_version = Some ''1.0.1'', ve_is_latest = True\<rparr>, \<lparr>ve_version = Some ''1.0.0'', ve_is_latest = False\<rparr>]"
  by code_simp+

lemma demo_loaded_reachable: "page_reachable fifo demo_answer demo_loaded"
proof -
  have "page_step fifo demo_answer (fetchAllVersions empty_service) (fetchAllVersions_done demo_versions ((fetchAllVersions empty_service)\<lparr>ts_pending := [] @ []\<rparr>))"
    by (rule versions_answered) (simp_all add: fetchAllVersions_def empty_service_def)
  moreover have "(fetchAllVersions empty_service)\<lparr>ts_pending := [] @ []\<rparr> = empty_service\<lparr>ts_loading := True\<rparr>"
    by (simp add: fetchAllVersions_def empty_service_def)
  ultimately show ?thesis unfolding demo_loaded_def using mounted stepped by metis
qed

definition demo_shown :: service_state where
  "demo_shown = fetchServiceDetail_done (demo_detail 2) (demo_loaded\<lparr>ts_pending := []\<rparr>)"

lemma demo_shown_reachable: "page_reachable fifo demo_answer demo_shown"
proof -
  have "page_step fifo demo_answer demo_loaded (fetchServiceDetail_done (demo_detail 2) (demo_loaded\<lparr>ts_pending := [] @ []\<rparr>))"
    by (rule detail_answered [where v = "''1.0.1''"]) (simp_all add: demo_loaded_pending demo_answer_def)
  then show ?thesis using stepped [OF demo_loaded_reachable] by (simp add: demo_shown_def)
qed

lemma demo_shown_facts: "ts_pending demo_shown = []" "ts_currentVersion demo_shown = ''1.0.1''" "ts_detail demo_shown = Some (demo_info 2)"
  by code_simp+


definition demo_iteration :: service_state where
  "demo_iteration = handleStartIteration (Inr \<lparr>status = 201, message = [], st_service_iteration_id = 7\<rparr>) demo_shown"

theorem version_fixed_in_iteration_witness:
  "ts_inIteration demo_iteration \<and> ts_currentVersion (page_setCurrentVersion ''1.0.0'' demo_iteration) = ''1.0.1''"
proof -
  have r: "page_reachable True demo_answer demo_iteration"
    unfolding demo_iteration_def by (rule stepped [OF demo_shown_reachable iteration_started]) (simp add: demo_shown_facts)
  have v: "\<lparr>ve_version = Some ''1.0.0'', ve_is_latest = False\<rparr> \<in> set (ts_versions demo_iteration)" by code_simp
  have "ts_inIteration demo_iteration" "ts_currentVersion demo_iteration = ''1.0.1''" by code_simp+
  with version_fixed_in_iteration [OF r version_chosen [OF v]] show ?thesis by simp
qed

text \<open>
  Without that order the page can end up showing an older version than the one selected: the user
  leaves \<open>1.0.1\<close>, whose answer is still to come, for \<open>1.0.0\<close>; the answer for \<open>1.0.0\<close> arrives first and
  is overwritten by the late one, while the selector still says \<open>1.0.0\<close>.
\<close>

theorem stale_detail_shown:
  "\<exists>st. page_reachable False demo_answer st \<and> ts_pending st = [] \<and> ts_currentVersion st = ''1.0.0'' \<and>
     ts_detail st = Some (demo_info 2) \<and> (\<forall>r. demo_answer ''1.0.0'' r \<longrightarrow> \<not> shows_answer r st)"
proof -
  let ?s1 = "page_setCurrentVersion (or_str (ve_version \<lparr>ve_version = Some ''1.0.0'', ve_is_latest = False\<rparr>) []) demo_loaded"
  have 1: "page_reachable False demo_answer ?s1"
    by (rule stepped [OF demo_loaded_reachable version_chosen]) (simp add: demo_loaded_pending)
  have p1: "ts_pending ?s1 = [PDetail ''1.0.1''] @ PDetail ''1.0.0'' # []" by code_simp
  let ?s2 = "fetchServiceDetail_done (demo_detail 1) (?s1\<lparr>ts_pending := [PDetail ''1.0.1''] @ []\<rparr>)"
  have 2: "page_reachable False demo_answer ?s2"
    by (rule stepped [OF 1 detail_answered [OF p1]]) (simp_all add: demo_answer_def)
  have p2: "ts_pending ?s2 = [] @ PDetail ''1.0.1'' # []" by (simp add: detail_done_facts)
  let ?s3 = "fetchServiceDetail_done (demo_detail 2) (?s2\<lparr>ts_pending := [] @ []\<rparr>)"
  have "page_reachable False demo_answer ?s3"
    by (rule stepped [OF 2 detail_answered [OF p2]]) (simp_all add: demo_answer_def)
  moreover have "ts_pending ?s3 = []" by (simp add: detail_done_facts)
  moreover have "ts_currentVersion ?s3 = ''1.0.0''" by code_simp
  moreover have d: "ts_detail ?s3 = Some (demo_info 2)" by code_simp
  moreover have "\<forall>r. demo_answer ''1.0.0'' r \<longrightarrow> \<not> shows_answer r ?s3"
    using d by (simp add: demo_answer_def shows_answer_def demo_detail_def demo_info_def)
  ultimately show ?thesis by blast
qed

theorem stale_detail_shown_witness:
  "\<exists>st. page_reachable False demo_answer st \<and> ts_currentVersion st = ''1.0.0'' \<and> ts_detail st = Some (demo_info 2)"
  using stale_detail_shown by blast

text \<open>
  An iteration is committed only with a version of three numbers that is not below the current one;
  a refused version, or a failing request, leaves the dialog open and the iteration as it was.
\<close>

theorem complete_iteration_checked:
  "(\<exists>s. handleCompleteIteration rs (version_str v) commit (st\<lparr>ts_currentVersion := version_str c\<rparr>) = ReloadsWith (version_str v) s) \<longleftrightarrow>
     version_le c v \<and> (\<exists>res. commit (version_str v) = Inr res \<and> status res = 200)"
  by (auto simp: handleCompleteIteration_def validate_triples version_str_nonempty split: sum.splits)

end
