(* ===== verification/Js_Date.thy ===== *)
theory Js_Date
  imports Prelude
begin

text \<open>
  The part of the JavaScript \<open>Date\<close> object that \<open>FE-CAM/src/utils.tsx\<close> uses: time values in
  milliseconds since 1970-01-01 UTC, the proleptic Gregorian calendar, local time and the range of
  valid time values.  The rules of the time zone are a parameter.  The lemmas show that the year, month
  and day computed from a day number are the ones the day number was made from, and the bounds of
  every component.
\<close>

section \<open>Days and years\<close>

definition msPerDay :: int where
  "msPerDay = 86400000"

definition DayFromYear :: "int \<Rightarrow> int" where
  "DayFromYear y = 365 * (y - 1970) + (y - 1969) div 4 - (y - 1901) div 100 + (y - 1601) div 400"

text \<open>The year of a day: an estimate by the mean length of a year, corrected by at most one.\<close>

definition YearFromDay :: "int \<Rightarrow> int" where
  "YearFromDay d =
     (let y = 1970 + (400 * d) div 146097 in
      if d < DayFromYear y then y - 1 else if DayFromYear (y + 1) \<le> d then y + 1 else y)"

definition leap_year :: "int \<Rightarrow> bool" where
  "leap_year y \<longleftrightarrow> (y mod 4 = 0 \<and> y mod 100 \<noteq> 0) \<or> y mod 400 = 0"

text \<open>The day within the year on which a month (0 to 11, and 12 for the end of the year) starts.\<close>

definition month_start :: "bool \<Rightarrow> int \<Rightarrow> int" where
  "month_start lp m =
     (let k = (if lp then 1 else 0) in
      if m \<le> 0 then 0 else if m = 1 then 31 else if m = 2 then 59 + k else if m = 3 then 90 + k
      else if m = 4 then 120 + k else if m = 5 then 151 + k else if m = 6 then 181 + k
      else if m = 7 then 212 + k else if m = 8 then 243 + k else if m = 9 then 273 + k
      else if m = 10 then 304 + k else if m = 11 then 334 + k else 365 + k)"

definition MonthFromDay :: "int \<Rightarrow> int" where
  "MonthFromDay d =
     (let y = YearFromDay d; n = d - DayFromYear y; s = month_start (leap_year y) in
      if n < s 1 then 0 else if n < s 2 then 1 else if n < s 3 then 2 else if n < s 4 then 3
      else if n < s 5 then 4 else if n < s 6 then 5 else if n < s 7 then 6 else if n < s 8 then 7
      else if n < s 9 then 8 else if n < s 10 then 9 else if n < s 11 then 10 else 11)"

definition DateFromDay :: "int \<Rightarrow> int" where
  "DateFromDay d =
     (let y = YearFromDay d in d - DayFromYear y - month_start (leap_year y) (MonthFromDay d) + 1)"

definition MakeDay :: "int \<Rightarrow> int \<Rightarrow> int \<Rightarrow> int" where
  "MakeDay year month date =
     (let ym = year + month div 12; mn = month mod 12
      in DayFromYear ym + month_start (leap_year ym) mn + date - 1)"

section \<open>Time values\<close>

definition MakeTime :: "int \<Rightarrow> int \<Rightarrow> int \<Rightarrow> int" where
  "MakeTime hour minute sec = hour * 3600000 + minute * 60000 + sec * 1000"

text \<open>A time value outside 100,000,000 days around the epoch is \<open>NaN\<close>.\<close>

definition TimeClip :: "int \<Rightarrow> int option" where
  "TimeClip t = (if \<bar>t\<bar> \<le> 8640000000000000 then Some t else None)"

text \<open>The offset from UTC at a UTC time, and the one used for a local time.\<close>

record time_zone =
  z_utc :: "int \<Rightarrow> int"
  z_local :: "int \<Rightarrow> int"

definition LocalTime :: "time_zone \<Rightarrow> int \<Rightarrow> int" where
  "LocalTime z t = t + z_utc z t"

definition UTC :: "time_zone \<Rightarrow> int \<Rightarrow> int" where
  "UTC z t = t - z_local z t"

text \<open>\<open>new Date(y, m, d, h, mi, s)\<close>: years 0 to 99 are in the twentieth century.\<close>

definition new_Date :: "time_zone \<Rightarrow> int \<Rightarrow> int \<Rightarrow> int \<Rightarrow> int \<Rightarrow> int \<Rightarrow> int \<Rightarrow> int option" where
  "new_Date z year month date hour minute sec =
     (let yr = (if 0 \<le> year \<and> year \<le> 99 then 1900 + year else year)
      in TimeClip (UTC z (MakeDay yr month date * msPerDay + MakeTime hour minute sec)))"

definition getFullYear :: "time_zone \<Rightarrow> int \<Rightarrow> int" where
  "getFullYear z t = YearFromDay (LocalTime z t div msPerDay)"

definition getMonth :: "time_zone \<Rightarrow> int \<Rightarrow> int" where
  "getMonth z t = MonthFromDay (LocalTime z t div msPerDay)"

definition getDate :: "time_zone \<Rightarrow> int \<Rightarrow> int" where
  "getDate z t = DateFromDay (LocalTime z t div msPerDay)"

definition getHours :: "time_zone \<Rightarrow> int \<Rightarrow> int" where
  "getHours z t = (LocalTime z t div 3600000) mod 24"

definition getMinutes :: "time_zone \<Rightarrow> int \<Rightarrow> int" where
  "getMinutes z t = (LocalTime z t div 60000) mod 60"

definition getSeconds :: "time_zone \<Rightarrow> int \<Rightarrow> int" where
  "getSeconds z t = (LocalTime z t div 1000) mod 60"

section \<open>The calendar\<close>

lemma DayFromYear_mean:
  "-506 \<le> 400 * DayFromYear y - 146097 * (y - 1970)" "400 * DayFromYear y - 146097 * (y - 1970) \<le> 589"
proof -
  define a b c where "a = (y - 1969) div 4" and "b = (y - 1901) div 100" and "c = (y - 1601) div 400"
  have "4 * a \<le> y - 1969" "y - 1969 \<le> 4 * a + 3" "100 * b \<le> y - 1901" "y - 1901 \<le> 100 * b + 99"
    "400 * c \<le> y - 1601" "y - 1601 \<le> 400 * c + 399"
    unfolding a_def b_def c_def by linarith+
  then show "-506 \<le> 400 * DayFromYear y - 146097 * (y - 1970)" "400 * DayFromYear y - 146097 * (y - 1970) \<le> 589"
    unfolding DayFromYear_def a_def [symmetric] b_def [symmetric] c_def [symmetric] by (simp_all add: algebra_simps)
qed

lemma div_next:
  fixes n k :: int
  assumes "0 < k"
  shows "(n + 1) div k = n div k + (if k dvd n + 1 then 1 else 0)"
proof (cases "k dvd n + 1")
  case True
  then obtain q where q: "n + 1 = k * q" ..
  then have "n = k * (q - 1) + (k - 1)" by (simp add: algebra_simps)
  then have "n div k = q - 1" using assms by simp
  then show ?thesis using q True assms by simp
next
  case False
  have n: "n = k * (n div k) + n mod k" by simp
  have "0 \<le> n mod k" "n mod k < k" using assms by simp_all
  moreover have "n mod k \<noteq> k - 1"
  proof
    assume "n mod k = k - 1"
    then have "n + 1 = k * (n div k) + k" using n by linarith
    then have "n + 1 = k * (n div k + 1)" by (simp add: distrib_left)
    with False show False by simp
  qed
  ultimately have r: "0 \<le> n mod k + 1" "n mod k + 1 < k" by linarith+
  have "n + 1 = k * (n div k) + (n mod k + 1)" using n by linarith
  then have "(n + 1) div k = n div k" using r by (metis div_mult_self4 div_pos_pos_trivial add.left_neutral add.commute assms less_irrefl)
  then show ?thesis using False by simp
qed

lemma year_length: "DayFromYear (y + 1) = DayFromYear y + (if leap_year y then 366 else 365)"
proof -
  have dv: "k dvd m \<Longrightarrow> k dvd y - m \<longleftrightarrow> k dvd y" for k m :: int
    using dvd_add_left_iff [of k "- m" y] by simp
  have a: "(y + 1 - 1969) div 4 = (y - 1969) div 4 + (if 4 dvd y then 1 else 0)"
    using div_next [of 4 "y - 1969"] dv [of 4 1968] by (simp add: algebra_simps)
  have b: "(y + 1 - 1901) div 100 = (y - 1901) div 100 + (if 100 dvd y then 1 else 0)"
    using div_next [of 100 "y - 1901"] dv [of 100 1900] by (simp add: algebra_simps)
  have c: "(y + 1 - 1601) div 400 = (y - 1601) div 400 + (if 400 dvd y then 1 else 0)"
    using div_next [of 400 "y - 1601"] dv [of 400 1600] by (simp add: algebra_simps)
  have d: "400 dvd y \<Longrightarrow> 100 dvd y" "100 dvd y \<Longrightarrow> 4 dvd y" by (erule dvd_trans [rotated], simp)+
  show ?thesis unfolding DayFromYear_def a b c leap_year_def mod_eq_0_iff_dvd using d by auto
qed

lemma year_step: "DayFromYear y < DayFromYear (y + 1)"
  by (simp add: year_length)

lemma DayFromYear_later: "DayFromYear y < DayFromYear (y + 1 + int n)"
proof (induction n)
  case 0
  show ?case using year_step [of y] by simp
next
  case (Suc n)
  then show ?case using year_step [of "y + 1 + int n"] by (simp add: add.commute add.left_commute)
qed

lemma DayFromYear_strict: "y < z \<Longrightarrow> DayFromYear y < DayFromYear z"
  using DayFromYear_later [of y "nat (z - y - 1)"] by simp

lemma YearFromDay_bounds: "DayFromYear (YearFromDay d) \<le> d" "d < DayFromYear (YearFromDay d + 1)"
proof -
  define k where "k = (400 * d) div 146097"
  have k: "146097 * k \<le> 400 * d" "400 * d < 146097 * k + 146097" unfolding k_def by linarith+
  have lo: "DayFromYear (1970 + k - 1) \<le> d" using DayFromYear_mean(2) [of "1970 + k - 1"] k by (simp add: algebra_simps)
  have hi: "d < DayFromYear (1970 + k + 1 + 1)" using DayFromYear_mean(1) [of "1970 + k + 1 + 1"] k by (simp add: algebra_simps)
  show "DayFromYear (YearFromDay d) \<le> d" "d < DayFromYear (YearFromDay d + 1)"
    using lo hi unfolding YearFromDay_def Let_def k_def [symmetric] by auto
qed

lemma YearFromDay_unique: "DayFromYear y \<le> d \<Longrightarrow> d < DayFromYear (y + 1) \<Longrightarrow> YearFromDay d = y"
  using YearFromDay_bounds [of d] DayFromYear_strict [of y "YearFromDay d"] DayFromYear_strict [of "YearFromDay d" y]
    DayFromYear_strict [of "y + 1" "YearFromDay d"] DayFromYear_strict [of "YearFromDay d + 1" y]
  by (smt (verit))

lemma month_cases:
  fixes m :: int
  assumes "0 \<le> m" "m \<le> 11"
  obtains "m = 0" | "m = 1" | "m = 2" | "m = 3" | "m = 4" | "m = 5" | "m = 6" | "m = 7" | "m = 8" | "m = 9" | "m = 10" | "m = 11"
proof -
  have "m \<in> {0..11}" using assms by simp
  also have "{0..11::int} = {0, 1, 2, 3, 4, 5, 6, 7, 8, 9, 10, 11}" by code_simp
  finally show thesis using that by auto
qed

lemma month_start_12: "month_start lp 12 = (if lp then 366 else 365)"
  by (simp add: month_start_def)

lemma month_start_bounds: "0 \<le> m \<Longrightarrow> m \<le> 11 \<Longrightarrow> 0 \<le> month_start lp m \<and> month_start lp (m + 1) \<le> month_start lp 12 \<and>
    28 \<le> month_start lp (m + 1) - month_start lp m \<and> month_start lp (m + 1) - month_start lp m \<le> 31"
  by (erule (1) month_cases) (simp_all add: month_start_def Let_def)

text \<open>A day of the calendar: the last day of a month is the day before the next month starts.\<close>

definition valid_date :: "int \<Rightarrow> int \<Rightarrow> int \<Rightarrow> bool" where
  "valid_date y m d \<longleftrightarrow> 0 \<le> m \<and> m \<le> 11 \<and> 1 \<le> d \<and> d \<le> month_start (leap_year y) (m + 1) - month_start (leap_year y) m"

lemma MonthFromDay_bounds: "0 \<le> MonthFromDay d" "MonthFromDay d \<le> 11"
  unfolding MonthFromDay_def Let_def by auto

lemma MonthFromDay_start:
  fixes d :: int
  defines "y \<equiv> YearFromDay d"
  shows "month_start (leap_year y) (MonthFromDay d) \<le> d - DayFromYear y"
    and "d - DayFromYear y < month_start (leap_year y) (MonthFromDay d + 1)"
proof -
  have n: "0 \<le> d - DayFromYear y" "d - DayFromYear y < month_start (leap_year y) 12"
    using YearFromDay_bounds [of d] by (auto simp: y_def year_length month_start_12)
  show "month_start (leap_year y) (MonthFromDay d) \<le> d - DayFromYear y"
    "d - DayFromYear y < month_start (leap_year y) (MonthFromDay d + 1)"
    using n unfolding MonthFromDay_def Let_def y_def [symmetric]
    by (cases "leap_year y"; simp add: month_start_def split: if_split)+
qed

lemma month_start_mono: "0 \<le> m \<Longrightarrow> m \<le> k \<Longrightarrow> k \<le> 11 \<Longrightarrow> month_start lp m \<le> month_start lp k"
proof (induction "nat (k - m)" arbitrary: k)
  case (Suc n)
  then have "month_start lp m \<le> month_start lp (k - 1)" by simp
  moreover have "0 < k" using Suc by linarith
  ultimately show ?case using month_start_bounds [of "k - 1" lp] Suc.prems by simp
qed simp

lemma month_unique:
  assumes "0 \<le> m" "m \<le> 11" "month_start lp m \<le> n" "n < month_start lp (m + 1)"
    "0 \<le> k" "k \<le> 11" "month_start lp k \<le> n" "n < month_start lp (k + 1)"
  shows "m = k"
proof (rule ccontr)
  assume "m \<noteq> k"
  then consider "m + 1 \<le> k" | "k + 1 \<le> m" by linarith
  then show False using month_start_mono [of "m + 1" k lp] month_start_mono [of "k + 1" m lp] assms by cases linarith+
qed

lemma valid_from_day: "valid_date (YearFromDay d) (MonthFromDay d) (DateFromDay d)"
  using MonthFromDay_start [of d] MonthFromDay_bounds [of d] by (simp add: valid_date_def DateFromDay_def Let_def)

lemma MakeDay_from_day: "MakeDay (YearFromDay d) (MonthFromDay d) (DateFromDay d) = d"
  using MonthFromDay_bounds [of d] by (simp add: MakeDay_def DateFromDay_def Let_def)

lemma from_MakeDay:
  assumes v: "valid_date y m dt"
  shows "YearFromDay (MakeDay y m dt) = y" "MonthFromDay (MakeDay y m dt) = m" "DateFromDay (MakeDay y m dt) = dt"
proof -
  let ?d = "MakeDay y m dt" and ?s = "month_start (leap_year y)"
  have m: "0 \<le> m" "m \<le> 11" using v by (simp_all add: valid_date_def)
  have d: "?d = DayFromYear y + ?s m + dt - 1" using m by (simp add: MakeDay_def)
  have b: "?s m \<le> ?d - DayFromYear y" "?d - DayFromYear y < ?s (m + 1)" using v d by (simp_all add: valid_date_def)
  have "0 \<le> ?d - DayFromYear y" "?d - DayFromYear y < ?s 12"
    using b month_start_bounds [OF m, of "leap_year y"] by linarith+
  then show y: "YearFromDay ?d = y" by (intro YearFromDay_unique) (auto simp: year_length month_start_12)
  show mo: "MonthFromDay ?d = m"
    using month_unique [OF m b MonthFromDay_bounds [of ?d]] MonthFromDay_start [of ?d] y by auto
  show "DateFromDay ?d = dt" unfolding DateFromDay_def y mo Let_def using d by linarith
qed

lemma getMonth_bounds: "0 \<le> getMonth z t" "getMonth z t \<le> 11"
  by (simp_all add: getMonth_def MonthFromDay_bounds)

lemma getDate_bounds: "1 \<le> getDate z t" "getDate z t \<le> 31"
proof -
  let ?d = "LocalTime z t div msPerDay"
  have v: "valid_date (YearFromDay ?d) (MonthFromDay ?d) (getDate z t)" using valid_from_day [of ?d] by (simp add: getDate_def)
  then show "1 \<le> getDate z t" by (simp add: valid_date_def)
  show "getDate z t \<le> 31"
    using v month_start_bounds [OF MonthFromDay_bounds, of "leap_year (YearFromDay ?d)" ?d] by (auto simp: valid_date_def)
qed

section \<open>Local time and its components\<close>

lemma div_parts: "t = k * q + r \<Longrightarrow> 0 \<le> r \<Longrightarrow> r < k \<Longrightarrow> t div k = q" for t k q r :: int
  by simp

lemma mod_parts: "t = k * q + r \<Longrightarrow> 0 \<le> r \<Longrightarrow> r < k \<Longrightarrow> t mod k = r" for t k q r :: int
  by simp

text \<open>A local time and the components it is made of.\<close>

lemma local_components:
  assumes "valid_date y m dt" "0 \<le> h" "h < 24" "0 \<le> mi" "mi < 60" "0 \<le> s" "s < 60" "0 \<le> ms" "ms < 1000"
    and l: "LocalTime z t = MakeDay y m dt * msPerDay + MakeTime h mi s + ms"
  shows "getFullYear z t = y" "getMonth z t = m" "getDate z t = dt" "getHours z t = h" "getMinutes z t = mi" "getSeconds z t = s"
proof -
  let ?r = "MakeTime h mi s + ms"
  have r: "0 \<le> ?r" "?r < msPerDay" using assms(2-9) by (simp_all add: MakeTime_def msPerDay_def)
  have d: "LocalTime z t div msPerDay = MakeDay y m dt" unfolding l using r by (simp add: add.assoc msPerDay_def)
  show "getFullYear z t = y" "getMonth z t = m" "getDate z t = dt"
    using from_MakeDay [OF assms(1)] by (simp_all add: getFullYear_def getMonth_def getDate_def d)
  let ?D = "MakeDay y m dt"
  have "LocalTime z t = 1000 * (86400 * ?D + 3600 * h + 60 * mi + s) + ms" unfolding l by (simp add: MakeTime_def msPerDay_def)
  then have "LocalTime z t div 1000 = 86400 * ?D + 3600 * h + 60 * mi + s" using assms(8,9) by (rule div_parts)
  then show "getSeconds z t = s"
    using assms(6,7) unfolding getSeconds_def by (intro mod_parts [where q = "1440 * ?D + 60 * h + mi"]) auto
  have "LocalTime z t = 60000 * (1440 * ?D + 60 * h + mi) + (1000 * s + ms)" unfolding l by (simp add: MakeTime_def msPerDay_def)
  then have "LocalTime z t div 60000 = 1440 * ?D + 60 * h + mi" by (rule div_parts) (use assms(6-9) in simp_all)
  then show "getMinutes z t = mi"
    using assms(4,5) unfolding getMinutes_def by (intro mod_parts [where q = "24 * ?D + h"]) auto
  have "LocalTime z t = 3600000 * (24 * ?D + h) + (60000 * mi + 1000 * s + ms)" unfolding l by (simp add: MakeTime_def msPerDay_def)
  then have "LocalTime z t div 3600000 = 24 * ?D + h" by (rule div_parts) (use assms(4-9) in simp_all)
  then show "getHours z t = h"
    using assms(2,3) unfolding getHours_def by (intro mod_parts [where q = ?D]) auto
qed

lemma local_decompose:
  "LocalTime z t = MakeDay (getFullYear z t) (getMonth z t) (getDate z t) * msPerDay +
     MakeTime (getHours z t) (getMinutes z t) (getSeconds z t) + LocalTime z t mod 1000"
proof -
  let ?l = "LocalTime z t"
  have "?l div msPerDay = (?l div 3600000) div 24" by (simp add: msPerDay_def flip: zdiv_zmult2_eq)
  then have h: "?l div 3600000 = 24 * (?l div msPerDay) + getHours z t" by (simp add: getHours_def)
  have "?l div 3600000 = (?l div 60000) div 60" by (simp flip: zdiv_zmult2_eq)
  then have m: "?l div 60000 = 60 * (?l div 3600000) + getMinutes z t" by (simp add: getMinutes_def)
  have "?l div 60000 = (?l div 1000) div 60" by (simp flip: zdiv_zmult2_eq)
  then have s: "?l div 1000 = 60 * (?l div 60000) + getSeconds z t" by (simp add: getSeconds_def)
  have "?l = 1000 * (?l div 1000) + ?l mod 1000" by simp
  then have "?l = (?l div msPerDay) * msPerDay + MakeTime (getHours z t) (getMinutes z t) (getSeconds z t) + ?l mod 1000"
    unfolding s m h by (simp add: MakeTime_def msPerDay_def)
  then show ?thesis by (simp add: getFullYear_def getMonth_def getDate_def MakeDay_from_day)
qed

end
