(* ===== verification/Fe_Format.thy ===== *)
theory Fe_Format
  imports Js_Date Api_Types "HOL-Library.Monad_Syntax"
begin

text \<open>
  \<open>FE-CAM/src/utils.tsx\<close>: dates and times as text, the coloured tags, the avatars and the
  confirmation dialog.

  A JavaScript number that stands for a time is an integer here, \<open>None\<close> for \<open>NaN\<close>; every time value a
  \<open>Date\<close> can hold is below \<open>2^53\<close>, where numbers are exact.  \<open>Date.parse\<close> on a text that is not in
  the format the code itself matches is implementation-defined: it is the parameter \<open>dparse\<close>.
  The translation function of i18next is the parameter \<open>tr\<close>.
\<close>

section \<open>Dates\<close>

definition padStart :: "nat \<Rightarrow> char \<Rightarrow> string \<Rightarrow> string" where
  "padStart len c s = replicate (len - length s) c @ s"

definition pad :: "int \<Rightarrow> string" where
  "pad n = padStart 2 CHR ''0'' (int_str n)"

datatype date_input = NullInput | NumInput "int option" | StrInput string | DateInput "int option"

text \<open>The pattern \<open>/Z$|[+-]\d{2}:?\d{2}$/\<close>, read from the end.\<close>

definition zone_suffix :: "string \<Rightarrow> bool" where
  "zone_suffix s =
     (case rev s of
        d4 # d3 # r \<Rightarrow>
          d4 = CHR ''Z'' \<or>
          (is_digit d4 \<and> is_digit d3 \<and>
           (case (case r of c # r' \<Rightarrow> if c = CHR '':'' then r' else r | [] \<Rightarrow> []) of
              d2 # d1 # sign # _ \<Rightarrow> is_digit d2 \<and> is_digit d1 \<and> (sign = CHR ''+'' \<or> sign = CHR ''-'')
            | _ \<Rightarrow> False))
      | [c] \<Rightarrow> c = CHR ''Z''
      | [] \<Rightarrow> False)"

text \<open>
  The pattern for a local date with an optional time.  Each group of digits is followed by a character
  that is no digit or by the end, so it is the whole run of digits.
\<close>

definition digit_run :: "nat \<Rightarrow> nat \<Rightarrow> string \<Rightarrow> (nat \<times> string) option" where
  "digit_run lo hi s =
     (let ds = takeWhile is_digit s
      in if lo \<le> length ds \<and> length ds \<le> hi then Some (digits_val ds, dropWhile is_digit s) else None)"

fun one_of :: "string \<Rightarrow> string \<Rightarrow> string option" where
  "one_of cs [] = None"
| "one_of cs (c # s) = (if c \<in> set cs then Some s else None)"

definition match_time :: "string \<Rightarrow> (nat \<times> nat \<times> nat) option" where
  "match_time r =
     do { r \<leftarrow> one_of '' T'' r;
          (h, r) \<leftarrow> digit_run 1 2 r;
          r \<leftarrow> one_of '':'' r;
          (mi, r) \<leftarrow> digit_run 1 2 r;
          if r = [] then Some (h, mi, 0)
          else do { r \<leftarrow> one_of '':'' r;
                    (se, r) \<leftarrow> digit_run 1 2 r;
                    if r = [] then Some (h, mi, se) else None } }"

definition match_datetime :: "string \<Rightarrow> ((nat \<times> nat \<times> nat) \<times> (nat \<times> nat \<times> nat)) option" where
  "match_datetime s =
     do { (y, r) \<leftarrow> digit_run 4 4 s;
          r \<leftarrow> one_of ''-'' r;
          (mo, r) \<leftarrow> digit_run 1 2 r;
          r \<leftarrow> one_of ''-'' r;
          (da, r) \<leftarrow> digit_run 1 2 r;
          if r = [] then Some ((y, mo, da), (0, 0, 0))
          else do { t \<leftarrow> match_time r; Some ((y, mo, da), t) } }"

definition slash_to_dash :: "string \<Rightarrow> string" where
  "slash_to_dash s = map (\<lambda>c. if c = CHR ''/'' then CHR ''-'' else c) s"

text \<open>A text without the space that the ISO notation has no place for: only the first one is replaced.\<close>

definition isoLike :: "string \<Rightarrow> string" where
  "isoLike s = (if js_includes s '' '' then js_replace s '' '' ''T'' else s)"

definition parse_text :: "time_zone \<Rightarrow> (string \<Rightarrow> int option) \<Rightarrow> string \<Rightarrow> int option" where
  "parse_text z dparse s =
     (let local = (case match_datetime s of
                     Some ((y, mo, da), (h, mi, se)) \<Rightarrow> new_Date z (int y) (int mo - 1) (int da) (int h) (int mi) (int se)
                   | None \<Rightarrow> dparse s)
      in if zone_suffix s \<or> js_includes s ''T'' then
           (case dparse (isoLike s) of Some d \<Rightarrow> Some d | None \<Rightarrow> local)
         else local)"

definition parseToDate :: "time_zone \<Rightarrow> (string \<Rightarrow> int option) \<Rightarrow> date_input \<Rightarrow> int option" where
  "parseToDate z dparse input =
     (case input of
        NullInput \<Rightarrow> None
      | DateInput d \<Rightarrow> d
      | NumInput n \<Rightarrow> Option.bind n (\<lambda>n. TimeClip (if n < 1000000000000 then n * 1000 else n))
      | StrInput str \<Rightarrow>
          (let s = js_trim str in
           if s = [] then None
           else if all_digits s then TimeClip (if length s \<le> 10 then int (digits_val s) * 1000 else int (digits_val s))
           else parse_text z dparse (slash_to_dash s)))"

datatype granularity = DateOnly | Minute | Second

definition date_text :: "int \<Rightarrow> int \<Rightarrow> int \<Rightarrow> string" where
  "date_text year month day = int_str year @ ''-'' @ pad month @ ''-'' @ pad day"

definition formatDateOrDateTime :: "time_zone \<Rightarrow> (string \<Rightarrow> int option) \<Rightarrow> date_input \<Rightarrow> granularity \<Rightarrow> string" where
  "formatDateOrDateTime z dparse dateOrDateTime g =
     (case parseToDate z dparse dateOrDateTime of
        None \<Rightarrow> []
      | Some date \<Rightarrow>
          (let day = date_text (getFullYear z date) (getMonth z date + 1) (getDate z date);
               hours = pad (getHours z date); minutes = pad (getMinutes z date); seconds = pad (getSeconds z date)
           in case g of
                DateOnly \<Rightarrow> day
              | Minute \<Rightarrow> day @ '' '' @ hours @ '':'' @ minutes
              | Second \<Rightarrow> day @ '' '' @ hours @ '':'' @ minutes @ '':'' @ seconds))"

section \<open>Tags and avatars\<close>

text \<open>A tag: its colour, \<open>None\<close> when the map has no entry for the key, and its text.\<close>

datatype tag = Tag (tag_color: "string option") (tag_text: string)

definition roleColorMap :: "string js_obj" where
  "roleColorMap =
     [(''frontend'', ''arcoblue''), (''backend'', ''cyan''), (''fullstack'', ''magenta''), (''qa'', ''green''),
      (''devops'', ''orange''), (''product_manager'', ''purple''), (''designer'', ''pinkpurple''),
      (''architect'', ''orangered''), (''proj_lead'', ''red''), (''guest'', ''gray'')]"

definition genUserRoleTag :: "(string \<Rightarrow> string) \<Rightarrow> string \<Rightarrow> tag" where
  "genUserRoleTag tr role = Tag (map_of roleColorMap role) (tr (''user.'' @ role))"

fun methodColor :: "HttpMethod \<Rightarrow> string" where
  "methodColor GET = ''arcoblue''"
| "methodColor POST = ''green''"
| "methodColor PUT = ''orangered''"
| "methodColor DELETE = ''red''"
| "methodColor PATCH = ''orange''"

definition genApiMethodTag :: "HttpMethod \<Rightarrow> tag" where
  "genApiMethodTag m = Tag (Some (methodColor m)) (method_str m)"

fun levelColor :: "ApiLevel \<Rightarrow> string" where
  "levelColor P0 = ''red''"
| "levelColor P1 = ''orangered''"
| "levelColor P2 = ''orange''"
| "levelColor P3 = ''arcoblue''"
| "levelColor P4 = ''green''"

text \<open>An API without a level gets a tag without colour and text.\<close>

definition genApiLevelTag :: "ApiLevel option \<Rightarrow> tag" where
  "genApiLevelTag l = (case l of None \<Rightarrow> Tag None [] | Some l \<Rightarrow> Tag (Some (levelColor l)) (level_str l))"

definition codeColorMap :: "(char \<times> string) list" where
  "codeColorMap = [(CHR ''2'', ''green''), (CHR ''4'', ''orangered''), (CHR ''5'', ''red'')]"

definition genStatusCodeTag :: "int \<Rightarrow> tag" where
  "genStatusCodeTag code =
     Tag (Some (case map_of codeColorMap (hd (int_str code)) of Some c \<Rightarrow> c | None \<Rightarrow> ''arcoblue'')) (int_str code)"

text \<open>
  \<open>userAvatar\<close>: one avatar per user with the first letter of a name, the role and the contact line of
  its popover.  An entry that is \<open>null\<close> (\<open>None\<close>) makes \<open>user.id\<close> throw.
\<close>

record avatar =
  av_key :: int
  av_role :: tag
  av_contact :: string
  av_initial :: string

definition first_char :: "string \<Rightarrow> string" where
  "first_char s = take 1 s"

definition contact_line :: "UserProfile \<Rightarrow> string" where
  "contact_line u = u_nickname u @ '' ('' @ u_username u @ '') - '' @ u_email u"

definition one_avatar :: "(string \<Rightarrow> string) \<Rightarrow> UserProfile \<Rightarrow> avatar" where
  "one_avatar tr u =
     \<lparr>av_key = u_id u, av_role = genUserRoleTag tr (u_role u), av_contact = contact_line u,
      av_initial = or_str (Some (first_char (u_nickname u))) (or_str (Some (first_char (u_username u))) ''-'')\<rparr>"

datatype render_error = NullUser

fun userAvatar :: "(string \<Rightarrow> string) \<Rightarrow> UserProfile option list \<Rightarrow> render_error + avatar list" where
  "userAvatar tr [] = Inr []"
| "userAvatar tr (None # us) = Inl NullUser"
| "userAvatar tr (Some u # us) =
     (case userAvatar tr us of Inl e \<Rightarrow> Inl e | Inr as \<Rightarrow> Inr (one_avatar tr u # as))"

section \<open>Confirmation\<close>

text \<open>
  \<open>handleConfirm\<close>: the action runs when the user confirms; an error it throws is swallowed.  Either way
  the dialog closes, and nothing happens when the user cancels.
\<close>

definition handleConfirm :: "bool \<Rightarrow> ('s \<Rightarrow> ('e + unit) \<times> 's) \<Rightarrow> 's \<Rightarrow> 's" where
  "handleConfirm confirmed onOk s = (if confirmed then (case onOk s of (Inl _, s') \<Rightarrow> s' | (Inr _, s') \<Rightarrow> s') else s)"

section \<open>Printed fields\<close>

lemma separators_not_digits [simp]:
  "\<not> is_digit CHR ''-''" "\<not> is_digit CHR ''/''" "\<not> is_digit CHR '' ''" "\<not> is_digit CHR '':''" "\<not> is_digit CHR ''T''" "\<not> is_digit CHR ''Z''"
  by code_simp+

lemma pad_two:
  assumes "0 \<le> n" "n \<le> 99"
  obtains a b where "pad n = [a, b]" "is_digit a" "is_digit b" "digits_val [a, b] = nat n"
proof -
  let ?s = "nat_str (nat n)"
  have p: "pad n = replicate (2 - length ?s) CHR ''0'' @ ?s" using assms by (simp add: pad_def padStart_def int_str_def)
  have l: "length ?s \<le> 2" using length_nat_str_le [of "nat n" 2] assms by simp
  have "length (pad n) = 2" using l p by simp
  then obtain a b where ab: "pad n = [a, b]" by (auto simp: length_Suc_conv numeral_2_eq_2)
  have "is_digit CHR ''0''" by code_simp
  moreover have "list_all is_digit ?s" using all_digits_nat_str [of "nat n"] by (simp add: all_digits_def)
  ultimately have "list_all is_digit (pad n)" unfolding p by (auto simp: list_all_iff)
  moreover have "digits_val (replicate k CHR ''0'' @ t) = digits_val t" for k t
    by (induction k) (simp_all add: digits_val_def)
  then have "digits_val (pad n) = nat n" unfolding p by simp
  ultimately show thesis using that ab by simp
qed

lemma digit_run_pad:
  assumes "0 \<le> n" "n \<le> 99" "r = [] \<or> \<not> is_digit (hd r)"
  shows "digit_run 1 2 (pad n @ r) = Some (nat n, r)"
proof -
  obtain a b where "pad n = [a, b]" "is_digit a" "is_digit b" "digits_val [a, b] = nat n" using assms(1,2) by (rule pad_two)
  then show ?thesis using assms(3) by (cases r) (auto simp: digit_run_def)
qed

lemma digit_run_year:
  assumes "1000 \<le> y" "y \<le> 9999" "r = [] \<or> \<not> is_digit (hd r)"
  shows "digit_run 4 4 (int_str y @ r) = Some (nat y, r)"
proof -
  have y: "int_str y = nat_str (nat y)" using assms by (simp add: int_str_def)
  have "1000 \<le> nat y" "nat y < 10000" using assms(1,2) by linarith+
  then have "length (nat_str (nat y)) = 4"
    using length_nat_str_le [of "nat y" 4] length_nat_str_ge [of 3 "nat y"] by simp
  moreover have d: "list_all is_digit (nat_str (nat y))" using all_digits_nat_str [of "nat y"] by (simp add: all_digits_def)
  have "takeWhile is_digit (nat_str (nat y) @ r) = nat_str (nat y)" "dropWhile is_digit (nat_str (nat y) @ r) = r"
    using d assms(3) by (cases r; simp add: takeWhile_append2 dropWhile_append2 list_all_iff)+
  ultimately show ?thesis by (simp add: digit_run_def y)
qed

text \<open>A date with its time in the notation the program prints.\<close>

definition datetime_text :: "int \<Rightarrow> int \<Rightarrow> int \<Rightarrow> int \<Rightarrow> int \<Rightarrow> int \<Rightarrow> string" where
  "datetime_text y mo d h mi s = date_text y mo d @ '' '' @ pad h @ '':'' @ pad mi @ '':'' @ pad s"

definition datetime_fields :: "int \<Rightarrow> int \<Rightarrow> int \<Rightarrow> int \<Rightarrow> int \<Rightarrow> int \<Rightarrow> bool" where
  "datetime_fields y mo d h mi s \<longleftrightarrow>
     valid_date y (mo - 1) d \<and> 0 \<le> h \<and> h < 24 \<and> 0 \<le> mi \<and> mi < 60 \<and> 0 \<le> s \<and> s < 60"

lemma fields_two_digits:
  assumes "datetime_fields y mo d h mi s"
  shows "0 \<le> mo" "mo \<le> 99" "0 \<le> d" "d \<le> 99" "0 \<le> h" "h \<le> 99" "0 \<le> mi" "mi \<le> 99" "0 \<le> s" "s \<le> 99"
  using assms month_start_bounds [of "mo - 1" "leap_year y"] by (auto simp: datetime_fields_def valid_date_def)

lemma match_printed:
  assumes "datetime_fields y mo d h mi s" "1000 \<le> y" "y \<le> 9999"
  shows "match_datetime (datetime_text y mo d h mi s) = Some ((nat y, nat mo, nat d), (nat h, nat mi, nat s))"
  using fields_two_digits [OF assms(1)] assms(2,3)
  by (simp add: datetime_text_def date_text_def match_datetime_def match_time_def digit_run_year digit_run_pad digit_run_pad [where r = "[]", simplified append_Nil2]
      del: One_nat_def)

definition printed_fields :: "(nat \<times> nat \<times> nat) \<times> (nat \<times> nat \<times> nat) \<Rightarrow> string" where
  "printed_fields x =
     (case x of ((y, mo, d), (h, mi, s)) \<Rightarrow> datetime_text (int y) (int mo) (int d) (int h) (int mi) (int s))"

definition fields_ok :: "(nat \<times> nat \<times> nat) \<times> (nat \<times> nat \<times> nat) \<Rightarrow> bool" where
  "fields_ok x \<longleftrightarrow>
     (case x of ((y, mo, d), (h, mi, s)) \<Rightarrow>
        datetime_fields (int y) (int mo) (int d) (int h) (int mi) (int s) \<and> 1000 \<le> y \<and> y \<le> 9999)"

interpretation local_time: codec printed_fields match_datetime fields_ok
  by unfold_locales (auto simp: printed_fields_def fields_ok_def match_printed)

text \<open>Different local times are printed differently.\<close>

lemma printed_apart:
  "fields_ok x \<Longrightarrow> fields_ok y \<Longrightarrow> printed_fields x = printed_fields y \<longleftrightarrow> x = y"
  by (rule local_time.enc_inject)

text \<open>What the program does with such a text before it matches it.\<close>

lemma digit_plain: "is_digit c \<Longrightarrow> c \<noteq> CHR ''/'' \<and> c \<noteq> CHR ''T'' \<and> c \<noteq> CHR ''Z'' \<and> c \<noteq> CHR '':'' \<and> c \<noteq> CHR ''-''"
  by auto

lemma printed_shape:
  assumes "datetime_fields y mo d h mi s" "1000 \<le> y" "y \<le> 9999"
  defines "t \<equiv> datetime_text y mo d h mi s"
  shows "js_trim t = t" "t \<noteq> []" "\<not> all_digits t" "slash_to_dash t = t" "\<not> zone_suffix t" "\<not> js_includes t ''T''"
proof -
  note b = fields_two_digits [OF assms(1)]
  obtain o1 o2 where mo: "pad mo = [o1, o2]" "is_digit o1" "is_digit o2" using b(1,2) by (rule pad_two)
  obtain d1 d2 where d: "pad d = [d1, d2]" "is_digit d1" "is_digit d2" using b(3,4) by (rule pad_two)
  obtain h1 h2 where h: "pad h = [h1, h2]" "is_digit h1" "is_digit h2" using b(5,6) by (rule pad_two)
  obtain m1 m2 where mi: "pad mi = [m1, m2]" "is_digit m1" "is_digit m2" using b(7,8) by (rule pad_two)
  obtain s1 s2 where s: "pad s = [s1, s2]" "is_digit s1" "is_digit s2" using b(9,10) by (rule pad_two)
  have yd: "list_all is_digit (int_str y)" "int_str y \<noteq> []"
    using all_digits_nat_str [of "nat y"] assms(2) by (simp_all add: all_digits_def int_str_def)
  have t: "t = int_str y @ [CHR ''-'', o1, o2, CHR ''-'', d1, d2, CHR '' '', h1, h2, CHR '':'', m1, m2, CHR '':'', s1, s2]"
    by (simp add: t_def datetime_text_def date_text_def mo d h mi s)
  note dg = yd mo(2,3) d(2,3) h(2,3) mi(2,3) s(2,3)
  show "t \<noteq> []" by (simp add: t)
  show "js_trim t = t" using dg by (intro js_trim_ends) (auto simp: t digit_not_space list_all_iff)
  show "\<not> all_digits t" by (simp add: t all_digits_def)
  have c: "c \<in> set t \<Longrightarrow> is_digit c \<or> c \<in> {CHR ''-'', CHR '' '', CHR '':''}" for c using dg by (auto simp: t list_all_iff)
  have "(if c = CHR ''/'' then CHR ''-'' else c) = c" if "c \<in> set t" for c using c [OF that] by auto
  then show "slash_to_dash t = t" unfolding slash_to_dash_def by (simp add: map_idI)
  show "\<not> js_includes t ''T''" using c [of "CHR ''T''"] by (auto simp: js_includes_iff)
  show "\<not> zone_suffix t" using dg by (auto simp: t zone_suffix_def)
qed

section \<open>The range of the dates\<close>

lemma MakeDay_range:
  assumes "valid_date y m d" "1000 \<le> y" "y \<le> 9999"
  shows "\<bar>MakeDay y m d\<bar> \<le> 3000000"
proof -
  have m: "0 \<le> m" "m \<le> 11" using assms(1) by (simp_all add: valid_date_def)
  have e: "MakeDay y m d = DayFromYear y + month_start (leap_year y) m + d - 1" using m by (simp add: MakeDay_def)
  have r: "0 \<le> month_start (leap_year y) m + d - 1" "month_start (leap_year y) m + d - 1 \<le> 365"
    using assms(1) month_start_bounds [OF m, of "leap_year y"] month_start_12 [of "leap_year y"]
    by (auto simp: valid_date_def split: if_splits)
  show ?thesis using DayFromYear_mean [of y] assms(2,3) r unfolding e by (simp add: algebra_simps abs_le_iff)
qed

text \<open>
  The zone is regular at a local time: the offset used for it is the one in force at the resulting
  moment, and less than a day.  A local time skipped when clocks go forward is not.
\<close>

definition zone_regular :: "time_zone \<Rightarrow> int \<Rightarrow> bool" where
  "zone_regular z l \<longleftrightarrow> z_utc z (UTC z l) = z_local z l \<and> \<bar>z_local z l\<bar> \<le> msPerDay"

lemma regular_LocalTime: "zone_regular z l \<Longrightarrow> LocalTime z (UTC z l) = l"
  by (simp add: zone_regular_def LocalTime_def UTC_def)

lemma parse_printed:
  assumes f: "datetime_fields y mo d h mi s" and y: "1000 \<le> y" "y \<le> 9999"
    and z: "zone_regular z (MakeDay y (mo - 1) d * msPerDay + MakeTime h mi s)"
  shows "parseToDate z dparse (StrInput (datetime_text y mo d h mi s)) =
     Some (UTC z (MakeDay y (mo - 1) d * msPerDay + MakeTime h mi s))"
proof -
  let ?l = "MakeDay y (mo - 1) d * msPerDay + MakeTime h mi s"
  note b = fields_two_digits [OF f] and sh = printed_shape [OF f y]
  have "\<bar>MakeDay y (mo - 1) d\<bar> \<le> 3000000" using f y by (intro MakeDay_range) (simp_all add: datetime_fields_def)
  moreover have "\<bar>MakeTime h mi s\<bar> \<le> msPerDay" using f by (simp add: datetime_fields_def MakeTime_def msPerDay_def)
  moreover have "\<bar>z_local z ?l\<bar> \<le> msPerDay" using z by (simp add: zone_regular_def)
  ultimately have "\<bar>UTC z ?l\<bar> \<le> 8640000000000000" by (simp add: UTC_def msPerDay_def)
  then have "new_Date z y (mo - 1) d h mi s = Some (UTC z ?l)" using y by (simp add: new_Date_def TimeClip_def)
  then show ?thesis using sh b y by (simp add: parseToDate_def parse_text_def match_printed [OF f y])
qed

lemma printed_moment:
  "datetime_fields (getFullYear z t) (getMonth z t + 1) (getDate z t) (getHours z t) (getMinutes z t) (getSeconds z t)"
  using valid_from_day [of "LocalTime z t div msPerDay"]
  by (simp add: datetime_fields_def getFullYear_def getMonth_def getDate_def getHours_def getMinutes_def getSeconds_def)

lemma format_Second:
  "parseToDate z dparse x = Some t \<Longrightarrow> formatDateOrDateTime z dparse x Second =
     datetime_text (getFullYear z t) (getMonth z t + 1) (getDate z t) (getHours z t) (getMinutes z t) (getSeconds z t)"
  by (simp add: formatDateOrDateTime_def datetime_text_def)

lemma format_printed:
  assumes f: "datetime_fields y mo d h mi s" and y: "1000 \<le> y" "y \<le> 9999"
    and z: "zone_regular z (MakeDay y (mo - 1) d * msPerDay + MakeTime h mi s)"
  shows "formatDateOrDateTime z dparse (StrInput (datetime_text y mo d h mi s)) Second = datetime_text y mo d h mi s"
proof -
  let ?l = "MakeDay y (mo - 1) d * msPerDay + MakeTime h mi s"
  have l: "LocalTime z (UTC z ?l) = ?l + 0" using regular_LocalTime [OF z] by simp
  have "valid_date y (mo - 1) d" "0 \<le> h" "h < 24" "0 \<le> mi" "mi < 60" "0 \<le> s" "s < 60" "(0::int) \<le> 0" "(0::int) < 1000"
    using f by (simp_all add: datetime_fields_def)
  note c = local_components [OF this l]
  show ?thesis unfolding format_Second [OF parse_printed [OF f y z]] by (simp add: c)
qed

text \<open>The moment a printed text stands for: the second the printed moment is in.\<close>

lemma reparse_printed:
  assumes p: "parseToDate z dparse x = Some t" and y: "1000 \<le> getFullYear z t" "getFullYear z t \<le> 9999"
    and z: "zone_regular z (LocalTime z t - LocalTime z t mod 1000)"
  shows "parseToDate z dparse (StrInput (formatDateOrDateTime z dparse x Second)) =
      Some (UTC z (LocalTime z t - LocalTime z t mod 1000))"
proof -
  have l: "LocalTime z t - LocalTime z t mod 1000 =
      MakeDay (getFullYear z t) (getMonth z t + 1 - 1) (getDate z t) * msPerDay +
      MakeTime (getHours z t) (getMinutes z t) (getSeconds z t)"
    using local_decompose [of z t] by simp
  show ?thesis using parse_printed [OF printed_moment y z [unfolded l]] l by (simp add: format_Second [OF p])
qed

text \<open>
  C36: Printing a date to the second loses nothing the program shows: a text it printed is read back as
  the same date and time, so that printing it again gives the same text at every granularity.  This
  holds for four-digit years, whatever form the date came in, at every local time the zone does not skip.
\<close>

theorem format_reparse:
  assumes p: "parseToDate z dparse x = Some t" and y: "1000 \<le> getFullYear z t" "getFullYear z t \<le> 9999"
    and z: "zone_regular z (LocalTime z t - LocalTime z t mod 1000)"
  shows "formatDateOrDateTime z dparse (StrInput (formatDateOrDateTime z dparse x Second)) g = formatDateOrDateTime z dparse x g"
proof -
  let ?l = "LocalTime z t - LocalTime z t mod 1000" and ?u = "UTC z (LocalTime z t - LocalTime z t mod 1000)"
  have v: "valid_date (getFullYear z t) (getMonth z t) (getDate z t)" "0 \<le> getHours z t" "getHours z t < 24"
    "0 \<le> getMinutes z t" "getMinutes z t < 60" "0 \<le> getSeconds z t" "getSeconds z t < 60" "(0::int) \<le> 0" "(0::int) < 1000"
    using printed_moment [of z t] by (simp_all add: datetime_fields_def)
  have "LocalTime z ?u = MakeDay (getFullYear z t) (getMonth z t) (getDate z t) * msPerDay +
      MakeTime (getHours z t) (getMinutes z t) (getSeconds z t) + 0"
    using regular_LocalTime [OF z] local_decompose [of z t] by simp
  note c = local_components [OF v this]
  show ?thesis
    unfolding formatDateOrDateTime_def [of z dparse "StrInput _" g] reparse_printed [OF p y z]
    by (simp add: formatDateOrDateTime_def p c)
qed

definition china :: time_zone where
  "china = \<lparr>z_utc = (\<lambda>_. 28800000), z_local = (\<lambda>_. 28800000)\<rparr>"

lemma china_regular: "zone_regular china l"
  by (simp add: zone_regular_def china_def msPerDay_def)

lemma demo_parse: "parseToDate china dparse (StrInput ''2024/2/29 7:05'') = Some 1709161500000"
proof -
  have "js_trim ''2024/2/29 7:05'' = ''2024/2/29 7:05''" by code_simp
  moreover have "\<not> all_digits ''2024/2/29 7:05''" by code_simp
  moreover have "slash_to_dash ''2024/2/29 7:05'' = ''2024-2-29 7:05''" by code_simp
  moreover have "\<not> zone_suffix ''2024-2-29 7:05''" by code_simp
  moreover have "\<not> js_includes ''2024-2-29 7:05'' ''T''" by code_simp
  moreover have "match_datetime ''2024-2-29 7:05'' = Some ((2024, 2, 29), (7, 5, 0))" by code_simp
  moreover have "new_Date china 2024 1 29 7 5 0 = Some 1709161500000" by code_simp
  ultimately show ?thesis by (simp add: parseToDate_def parse_text_def)
qed

theorem format_reparse_witness:
  "formatDateOrDateTime china (\<lambda>_. None)
     (StrInput (formatDateOrDateTime china (\<lambda>_. None) (StrInput ''2024/2/29 7:05'') Second)) Minute =
   formatDateOrDateTime china (\<lambda>_. None) (StrInput ''2024/2/29 7:05'') Minute"
proof (rule format_reparse [OF demo_parse _ _ china_regular])
  have "getFullYear china 1709161500000 = 2024" by code_simp
  then show "1000 \<le> getFullYear china 1709161500000" "getFullYear china 1709161500000 \<le> 9999" by simp_all
qed

text \<open>
  C37: What is shown for a date is empty exactly when it cannot be read; otherwise it is a date of the
  calendar with a time of day, month, day, hour, minute and second each within its range and printed
  with two digits, at every granularity, whatever the input and the time zone.
\<close>

theorem format_bounds:
  "case parseToDate z dparse x of
     None \<Rightarrow> formatDateOrDateTime z dparse x g = []
   | Some t \<Rightarrow>
      (let y = getFullYear z t; mo = getMonth z t + 1; d = getDate z t;
           h = getHours z t; mi = getMinutes z t; s = getSeconds z t in
       valid_date y (mo - 1) d \<and> 1 \<le> mo \<and> mo \<le> 12 \<and> 1 \<le> d \<and> d \<le> 31 \<and>
       0 \<le> h \<and> h < 24 \<and> 0 \<le> mi \<and> mi < 60 \<and> 0 \<le> s \<and> s < 60 \<and>
       map (length \<circ> pad) [mo, d, h, mi, s] = [2, 2, 2, 2, 2] \<and>
       formatDateOrDateTime z dparse x DateOnly = int_str y @ ''-'' @ pad mo @ ''-'' @ pad d \<and>
       formatDateOrDateTime z dparse x Minute =
         formatDateOrDateTime z dparse x DateOnly @ '' '' @ pad h @ '':'' @ pad mi \<and>
       formatDateOrDateTime z dparse x Second = formatDateOrDateTime z dparse x Minute @ '':'' @ pad s)"
proof (cases "parseToDate z dparse x")
  case None
  then show ?thesis by (simp add: formatDateOrDateTime_def)
next
  case (Some t)
  note f = printed_moment [of z t]
  have "length (pad n) = 2" if "0 \<le> n" "n \<le> 99" for n using that by (rule pad_two) simp
  then have "map (length \<circ> pad) [getMonth z t + 1, getDate z t, getHours z t, getMinutes z t, getSeconds z t] = [2, 2, 2, 2, 2]"
    using fields_two_digits [OF f] by simp
  then show ?thesis using f getMonth_bounds [of z t] getDate_bounds [of z t] unfolding Some option.case
    by (simp add: Let_def datetime_fields_def formatDateOrDateTime_def date_text_def Some)
qed

text \<open>
  A number and the text of the same number need not mean the same moment: numbers below \<open>10^12\<close> are
  seconds, texts of more than ten digits are milliseconds.
\<close>

lemma number_text_disagree:
  "parseToDate z dparse (NumInput (Some 10000000000)) = Some 10000000000000"
  "parseToDate z dparse (StrInput ''10000000000'') = Some 10000000000"
proof -
  show "parseToDate z dparse (NumInput (Some 10000000000)) = Some 10000000000000"
    by (simp add: parseToDate_def TimeClip_def)
  have "js_trim ''10000000000'' = ''10000000000''" "all_digits ''10000000000''" by code_simp+
  moreover have "digits_val ''10000000000'' = 10000000000" by (simp add: digits_val_def)
  ultimately show "parseToDate z dparse (StrInput ''10000000000'') = Some 10000000000"
    by (simp add: parseToDate_def TimeClip_def)
qed

section \<open>Avatars\<close>

text \<open>Avatars are drawn for all users in order, unless one of them is missing.\<close>

lemma userAvatar_iff:
  "userAvatar tr us = (if None \<in> set us then Inl NullUser else Inr (map (one_avatar tr \<circ> the) us))"
proof (induction tr us rule: userAvatar.induct)
  case (3 tr u us)
  then show ?case by (auto split: sum.splits)
qed simp_all

end
