(* ===== verification/Fe_Detail.thy ===== *)
theory Fe_Detail
  imports Fe_Format Js_Object "HOL-Library.Multiset"
begin

text \<open>
  The read-only view of an API, \<open>FE-CAM/src/components/ApiManagement/Detail\<close>: the tables of request and
  response parameters with their nested tables, the brief information and the page itself.  A table is
  the list of its rows; labels that the program shows in Chinese are given in English.
\<close>

section \<open>Parameter tables\<close>

definition typeTagColorMap :: "string js_obj" where
  "typeTagColorMap =
     [(''string'', ''blue''), (''boolean'', ''orange''), (''object'', ''magenta''), (''int'', ''arcoblue''),
      (''double'', ''purple''), (''array'', ''cyan''), (''binary'', ''pinkpurple'')]"

definition getParamTypeTag :: "ParamType \<Rightarrow> ParamType option \<Rightarrow> tag" where
  "getParamTypeTag type arrayChildType =
     (if type = ''array'' \<and> truthy_str arrayChildType
      then Tag (map_of typeTagColorMap type) (type @ ''<'' @ or_str arrayChildType [] @ ''>'')
      else Tag (map_of typeTagColorMap type) type)"

definition requiredTag :: "bool \<Rightarrow> tag" where
  "requiredTag v = Tag (Some (if v then ''red'' else ''gray'')) (if v then ''required'' else ''optional'')"

text \<open>The hint over a name that opens a nested table.\<close>

datatype child_hint = ElementChildren | Children

datatype param_row = Row
  (row_name: string)
  (row_hint: "child_hint option")
  (row_type: tag)
  (row_required: tag)
  (row_description: "string option")
  (row_default: "string option")
  (row_example: "string option")
  (row_children: "param_row list")

definition child_hint_of :: "string \<Rightarrow> string option \<Rightarrow> Param list option \<Rightarrow> child_hint option" where
  "child_hint_of ty act ch =
     (case ch of None \<Rightarrow> None
      | Some cs \<Rightarrow> if cs = [] then None
                  else Some (if ty = ''array'' \<and> act = Some ''object'' then ElementChildren else Children))"

text \<open>\<open>requestColumns\<close>: one row; the same columns are used for the nested table.\<close>

fun request_row :: "Param \<Rightarrow> param_row" where
  "request_row (Param i a nm loc sc ty rq df de ex act pp ch) =
     Row nm (child_hint_of ty act ch) (getParamTypeTag ty act) (requiredTag rq) de df ex
       (case ch of None \<Rightarrow> [] | Some cs \<Rightarrow> map request_row cs)"

text \<open>\<open>responseColumns\<close> has no column for the default value.\<close>

fun response_row :: "Param \<Rightarrow> param_row" where
  "response_row (Param i a nm loc sc ty rq df de ex act pp ch) =
     Row nm (child_hint_of ty act ch) (getParamTypeTag ty act) (requiredTag rq) de None ex
       (case ch of None \<Rightarrow> [] | Some cs \<Rightarrow> map response_row cs)"

section \<open>Sections\<close>

definition params_at :: "('k \<times> Param list) list \<Rightarrow> 'k \<Rightarrow> Param list" where
  "params_at d k = (case map_of d k of None \<Rightarrow> [] | Some ps \<Rightarrow> ps)"

definition existLocations :: "Param list js_obj \<Rightarrow> string list" where
  "existLocations d = filter (\<lambda>l. params_at d l \<noteq> []) (obj_keys d)"

definition section_order :: "string list" where
  "section_order = [''query'', ''path'', ''body'', ''header'', ''cookie'']"

definition RequestParams :: "Param list js_obj option \<Rightarrow> (string \<times> param_row list) list" where
  "RequestParams by_location =
     (let d = (case by_location of None \<Rightarrow> [] | Some d \<Rightarrow> d)
      in map (\<lambda>l. (l, map request_row (params_at d l))) (filter (\<lambda>l. l \<in> set (existLocations d)) section_order))"

definition existCodes :: "(nat \<times> Param list) list \<Rightarrow> nat list" where
  "existCodes d = sort (filter (\<lambda>c. params_at d c \<noteq> []) (obj_keys d))"

definition ResponseParams :: "(nat \<times> Param list) list option \<Rightarrow> (tag \<times> param_row list) list" where
  "ResponseParams by_code =
     (let d = (case by_code of None \<Rightarrow> [] | Some d \<Rightarrow> d)
      in map (\<lambda>c. (genStatusCodeTag (int c), map response_row (params_at d c))) (existCodes d))"

section \<open>The page\<close>

record brief_info =
  bi_name :: string
  bi_owner :: "avatar list"
  bi_level :: tag
  bi_created_at :: string
  bi_updated_at :: string
  bi_description :: string

definition date_or_dash :: "time_zone \<Rightarrow> (string \<Rightarrow> int option) \<Rightarrow> string option \<Rightarrow> string" where
  "date_or_dash z dparse d =
     (if truthy_str d then formatDateOrDateTime z dparse (StrInput (or_str d [])) Second else ''-'')"

definition BriefInfo :: "(string \<Rightarrow> string) \<Rightarrow> time_zone \<Rightarrow> (string \<Rightarrow> int option) \<Rightarrow> ApiDetail \<Rightarrow> render_error + brief_info" where
  "BriefInfo tr z dparse api =
     (case userAvatar tr [ad_owner api] of
        Inl e \<Rightarrow> Inl e
      | Inr owner \<Rightarrow>
          Inr \<lparr>bi_name = ab_name api, bi_owner = owner, bi_level = genApiLevelTag (ab_level api),
               bi_created_at = date_or_dash z dparse (ad_created_at api),
               bi_updated_at = date_or_dash z dparse (ad_updated_at api),
               bi_description = or_str (ab_description api) ''-''\<rparr>)"

datatype detail_view =
  Spinner
| BlankPage
| DetailPage tag string brief_info "(string \<times> param_row list) list" "(tag \<times> param_row list) list"

definition Detail ::
    "(string \<Rightarrow> string) \<Rightarrow> time_zone \<Rightarrow> (string \<Rightarrow> int option) \<Rightarrow> bool \<Rightarrow> ApiDetail option \<Rightarrow> render_error + detail_view" where
  "Detail tr z dparse loading apiDetail =
     (if loading then Inr Spinner
      else case apiDetail of
        None \<Rightarrow> Inr BlankPage
      | Some api \<Rightarrow>
          (case BriefInfo tr z dparse api of
             Inl e \<Rightarrow> Inl e
           | Inr brief \<Rightarrow>
               Inr (DetailPage (genApiMethodTag (ab_method api)) (ab_path api) brief
                 (RequestParams (request_params_by_location api)) (ResponseParams (response_params_by_status_code api)))))"

section \<open>Every parameter is shown\<close>

text \<open>The parameters of a tree as the tables should show them: name, type and whether it is required, in order.\<close>

fun tree_entries :: "Param \<Rightarrow> (string \<times> tag \<times> tag) list" where
  "tree_entries (Param i a nm loc sc ty rq df de ex act pp ch) =
     (nm, getParamTypeTag ty act, requiredTag rq) # (case ch of None \<Rightarrow> [] | Some cs \<Rightarrow> concat (map tree_entries cs))"

fun row_entries :: "param_row \<Rightarrow> (string \<times> tag \<times> tag) list" where
  "row_entries (Row nm h ty rq de df ex ch) = (nm, ty, rq) # concat (map row_entries ch)"

lemma request_row_entries: "row_entries (request_row p) = tree_entries p"
proof (induction p rule: tree_entries.induct)
  case (1 i a nm loc sc ty rq df de ex act pp ch)
  then show ?case by (cases ch) (simp_all add: comp_def cong: map_cong)
qed

lemma response_row_entries: "row_entries (response_row p) = tree_entries p"
proof (induction p rule: tree_entries.induct)
  case (1 i a nm loc sc ty rq df de ex act pp ch)
  then show ?case by (cases ch) (simp_all add: comp_def cong: map_cong)
qed

definition section_entries :: "('h \<times> param_row list) list \<Rightarrow> (string \<times> tag \<times> tag) list" where
  "section_entries ss = concat (map (\<lambda>(_, rows). concat (map row_entries rows)) ss)"

lemma exist_location_iff: "l \<in> set (existLocations d) \<longleftrightarrow> params_at d l \<noteq> []"
  using keys_dom [of d] by (auto simp: existLocations_def params_at_def split: option.splits)

lemma concat_filter_skip: "concat (map f (filter P xs)) = concat (map f xs)" if "\<And>x. \<not> P x \<Longrightarrow> f x = []"
  using that by (induction xs) auto

lemma request_entries:
  "section_entries (RequestParams (Some d)) =
     concat (map (\<lambda>l. concat (map tree_entries (params_at d l))) section_order)"
  unfolding section_entries_def RequestParams_def exist_location_iff
  by (simp add: comp_def request_row_entries) (rule concat_filter_skip, simp)

lemma response_entries:
  "section_entries (ResponseParams (Some d)) = concat (map (\<lambda>c. concat (map tree_entries (params_at d c))) (sort (obj_keys d)))"
  unfolding section_entries_def ResponseParams_def existCodes_def
  by (simp add: comp_def response_row_entries filter_sort [symmetric]) (rule concat_filter_skip, simp)

lemma mset_concat_perm: "mset xs = mset ys \<Longrightarrow> mset (concat (map f xs)) = mset (concat (map f ys))"
  by (simp add: mset_concat flip: sum_mset_sum_list mset_map) (simp add: mset_map)

lemma params_at_entries: "distinct_keys d \<Longrightarrow> concat (map (\<lambda>k. f (params_at d k)) (obj_keys d)) = concat (map (\<lambda>(k, ps). f ps) d)"
  by (rule arg_cong [of _ _ concat]) (auto simp: distinct_keys_def params_at_def map_of_eq_Some_iff)

text \<open>
  C38: The detail page shows every parameter of the API exactly once, at every depth, with its name,
  type and whether it is required: those of each of the five locations and those of each status code,
  provided that request parameters have one of the five locations.
\<close>

theorem detail_complete:
  assumes "distinct_keys req" "set (obj_keys req) \<subseteq> set section_order" "distinct_keys resp"
  shows "mset (section_entries (RequestParams (Some req))) = mset (concat (map (\<lambda>(_, ps). concat (map tree_entries ps)) req)) \<and>
    mset (section_entries (ResponseParams (Some resp))) = mset (concat (map (\<lambda>(_, ps). concat (map tree_entries ps)) resp))"
proof
  let ?f = "\<lambda>ps. concat (map tree_entries ps)"
  have e: "concat (map (\<lambda>l. ?f (params_at req l)) section_order) =
      concat (map (\<lambda>l. ?f (params_at req l)) (filter (\<lambda>l. l \<in> set (obj_keys req)) section_order))"
    using keys_dom [of req] by (intro concat_filter_skip [symmetric]) (auto simp: params_at_def split: option.splits)
  have m: "mset (filter (\<lambda>l. l \<in> set (obj_keys req)) section_order) = mset (obj_keys req)"
  proof (rule set_eq_iff_mset_eq_distinct [THEN iffD1])
    show "distinct (filter (\<lambda>l. l \<in> set (obj_keys req)) section_order)"
      by (rule distinct_filter) (simp add: section_order_def)
    show "distinct (obj_keys req)" using assms(1) by (simp add: distinct_keys_def)
    show "set (filter (\<lambda>l. l \<in> set (obj_keys req)) section_order) = set (obj_keys req)" using assms(2) by auto
  qed
  show "mset (section_entries (RequestParams (Some req))) = mset (concat (map (\<lambda>(_, ps). ?f ps) req))"
    unfolding request_entries params_at_entries [OF assms(1), of ?f, symmetric] e by (rule mset_concat_perm [OF m])
  show "mset (section_entries (ResponseParams (Some resp))) = mset (concat (map (\<lambda>(_, ps). ?f ps) resp))"
    unfolding response_entries params_at_entries [OF assms(3), of ?f, symmetric] by (intro mset_concat_perm) simp
qed

definition demo_param :: "string \<Rightarrow> string \<Rightarrow> Param list option \<Rightarrow> Param" where
  "demo_param nm ty ch = Param 1 1 nm None None ty True None None None None None ch"

theorem detail_complete_witness:
  "mset (section_entries (RequestParams (Some [(''body'', [demo_param ''user'' ''object'' (Some [demo_param ''id'' ''int'' None])])]))) =
   mset [(''user'', getParamTypeTag ''object'' None, requiredTag True), (''id'', getParamTypeTag ''int'' None, requiredTag True)]"
  using detail_complete [of "[(''body'', [demo_param ''user'' ''object'' (Some [demo_param ''id'' ''int'' None])])]" "[]"]
  by (simp add: distinct_keys_def section_order_def demo_param_def)

text \<open>The page of an API without its owner cannot be drawn.\<close>

lemma Detail_without_owner: "ad_owner api = None \<Longrightarrow> Detail tr z dparse False (Some api) = Inl NullUser"
  by (simp add: Detail_def BriefInfo_def)

end
