(* ===== verification/Fe_Views.thy ===== *)
theory Fe_Views
  imports Fe_User Fe_Service_List Fe_This_Service Fe_Detail
begin

text \<open>
  The views of the front end that decide something: the table of services
  (\<open>components/ServiceManagement/ServiceList.tsx\<close>), the search for a user (\<open>UserSelect.tsx\<close>), the patterns of
  the forms (\<open>CreateServiceForm.tsx\<close>, \<open>AddApiForm.tsx\<close>, \<open>BriefInfoEdit.tsx\<close>), the routes and their guard
  (\<open>router.tsx\<close>, \<open>App.tsx\<close>, \<open>Layout/Sidebar\<close>) and the values the API page derives
  (\<open>components/ApiManagement/index.tsx\<close>).
\<close>

section \<open>The table of services\<close>

datatype list_column =
  UuidColumn | VersionColumn | OwnerColumn | DescriptionColumn | CreatedAtColumn | DeletedAtColumn | IsDeletedColumn | ActionsColumn

definition list_columns :: "ServiceRange \<Rightarrow> list_column list" where
  "list_columns rng =
     [UuidColumn, VersionColumn, OwnerColumn, DescriptionColumn, CreatedAtColumn] @
     (if rng = MyDeletedServices then [DeletedAtColumn] else []) @
     (if rng = AllServices then [IsDeletedColumn, DeletedAtColumn] else []) @
     [ActionsColumn]"

definition cell_owner :: "UserProfile option \<Rightarrow> ServiceItem \<Rightarrow> UserProfile option" where
  "cell_owner user item =
     (if user \<noteq> None \<and> si_owner_id item = u_id (the user) then user else si_owner item)"

definition owner_cell :: "(string \<Rightarrow> string) \<Rightarrow> UserProfile option \<Rightarrow> ServiceItem \<Rightarrow> render_error + avatar list" where
  "owner_cell tr user item = userAvatar tr [cell_owner user item]"

definition created_cell :: "time_zone \<Rightarrow> (string \<Rightarrow> int option) \<Rightarrow> ServiceItem \<Rightarrow> string" where
  "created_cell z dparse item = formatDateOrDateTime z dparse (StrInput (si_created_at item)) Minute"

definition deleted_cell :: "time_zone \<Rightarrow> (string \<Rightarrow> int option) \<Rightarrow> ServiceItem \<Rightarrow> string" where
  "deleted_cell z dparse item =
     or_str (Some (formatDateOrDateTime z dparse
       (case si_deleted_at item of None \<Rightarrow> NullInput | Some s \<Rightarrow> StrInput s) Minute)) ''-''"

definition is_deleted_cell :: "(string \<Rightarrow> string) \<Rightarrow> ServiceItem \<Rightarrow> tag" where
  "is_deleted_cell tr item =
     Tag (Some (if si_is_deleted item then ''red'' else ''green'')) (tr (if si_is_deleted item then ''common.yes'' else ''common.no''))"

datatype row_action = ViewService string | DeleteService int | RestoreService int

definition row_actions :: "ServiceItem \<Rightarrow> row_action list" where
  "row_actions item =
     (if \<not> si_is_deleted item then [ViewService (si_service_uuid item)] else []) @
     (if \<not> si_is_deleted item then [DeleteService (si_id item)] else [RestoreService (si_id item)])"

text \<open>The actions that change something ask first.\<close>

definition delete_action ::
    "string \<Rightarrow> ('s, BaseResponse) endpoint \<Rightarrow> ('s, list_response) endpoint \<Rightarrow> bool \<Rightarrow> int \<Rightarrow> 's list_page \<Rightarrow> 's list_page" where
  "delete_action base srvDel srvList confirmed sid =
     handleConfirm confirmed (\<lambda>p. (Inr () :: string + unit, handleDeleteService base srvDel srvList sid p))"

definition restore_action ::
    "string \<Rightarrow> ('s, BaseResponse) endpoint \<Rightarrow> ('s, list_response) endpoint \<Rightarrow> bool \<Rightarrow> int \<Rightarrow> 's list_page \<Rightarrow> 's list_page" where
  "restore_action base srvRes srvList confirmed sid = handleConfirm confirmed (handleRestoreService base srvRes srvList sid)"

section \<open>Searching a user\<close>

record select_state =
  sl_fetching :: bool
  sl_options :: "(string \<times> int) list"
  sl_toasts :: "toast list"

definition option_of :: "UserProfile \<Rightarrow> string \<times> int" where
  "option_of u = (contact_line u, u_id u)"

text \<open>The search with the answer of the server, \<open>Inl\<close> the message of an error.\<close>

definition handleSearch :: "(string \<Rightarrow> string + UserProfile list) \<Rightarrow> string \<Rightarrow> select_state \<Rightarrow> select_state" where
  "handleSearch getUsers value st =
     (if length value < 2 then st
      else (let st1 = st\<lparr>sl_fetching := True\<rparr>;
                st2 = (case getUsers value of
                         Inl e \<Rightarrow> st1\<lparr>sl_toasts := sl_toasts st1 @ [ErrorToast e]\<rparr>
                       | Inr users \<Rightarrow> st1\<lparr>sl_options := map option_of users\<rparr>)
            in st2\<lparr>sl_fetching := False\<rparr>))"

text \<open>The choice of an option; its value is a number, \<open>None\<close> for a value that is not.\<close>

definition select_user :: "int option \<Rightarrow> (int \<Rightarrow> 's \<Rightarrow> 's) \<Rightarrow> 's \<times> toast list \<Rightarrow> 's \<times> toast list" where
  "select_user value onSelectId p =
     (case value of Some i \<Rightarrow> (onSelectId i (fst p), snd p)
      | None \<Rightarrow> (fst p, snd p @ [WarningToast ''invalid user id'']))"

section \<open>Rules of the forms\<close>

text \<open>\<open>/^[a-zA-Z0-9_-]+\/[a-zA-Z0-9_-]+\/[a-zA-Z0-9_-]+$/\<close>\<close>

definition uuid_char :: "char \<Rightarrow> bool" where
  "uuid_char c \<longleftrightarrow> is_alnum c \<or> c = CHR ''_'' \<or> c = CHR ''-''"

definition uuid_match :: "string \<Rightarrow> bool" where
  "uuid_match s \<longleftrightarrow>
     (case split_on CHR ''/'' s of
        [a, b, c] \<Rightarrow> a \<noteq> [] \<and> b \<noteq> [] \<and> c \<noteq> [] \<and> list_all uuid_char a \<and> list_all uuid_char b \<and> list_all uuid_char c
      | _ \<Rightarrow> False)"

text \<open>\<open>/^\//\<close>, the rule of the path of an API.\<close>

definition path_match :: "string \<Rightarrow> bool" where
  "path_match s \<longleftrightarrow> prefix ''/'' s"

text \<open>The categories offered for a new API: those of the service, then the uncategorized one.\<close>

definition form_categories :: "ApiCategory list \<Rightarrow> (int \<times> string) list" where
  "form_categories cats = map (\<lambda>c. (cat_id c, cat_name c)) cats @ [(-1, ''uncategorized'')]"

section \<open>Routes\<close>

datatype loader_result = Proceed | Redirect string

definition requireAuthLoader :: "'s browser \<Rightarrow> loader_result \<times> toast list" where
  "requireAuthLoader b =
     (if getAccessToken b = [] then (Redirect ''/'', [WarningToast ''please log in first'']) else (Proceed, []))"

text \<open>The effect of \<open>App\<close>: a page with a token and no user fetches the profile.\<close>

definition app_effect :: "persister \<Rightarrow> string \<Rightarrow> ('s, UserResponse) endpoint \<Rightarrow> 's page \<Rightarrow> 's page" where
  "app_effect persist base srv p =
     (if getAccessToken (fst p) \<noteq> [] \<and> us_user (snd p) = None then fetchUser persist base srv p else p)"

datatype home_view = WelcomeGuest | LoggedInView UserProfile

definition ServiceManagement :: "user_state \<Rightarrow> home_view" where
  "ServiceManagement u = (case us_user u of None \<Rightarrow> WelcomeGuest | Some user \<Rightarrow> LoggedInView user)"

definition displayName :: "UserProfile \<Rightarrow> string" where
  "displayName u = or_str (Some (u_nickname u)) (u_username u)"

definition watermark :: "user_state \<Rightarrow> string" where
  "watermark u = or_str (map_option u_username (us_user u)) ''Guest''"

text \<open>The side bar: the target of a click, \<open>None\<close> for the entry that only shows a warning.\<close>

definition handleMenuClick :: "string \<Rightarrow> string option \<times> toast list" where
  "handleMenuClick key =
     (if key = ''/service'' then (None, [WarningToast ''open a service from the list'']) else (Some key, []))"

text \<open>
  \<open>searchParams.get("uuid")\<close> on the address that \<open>handleViewService\<close> opens: the query is what follows the
  question mark, without a fragment; names and values are separated by \<open>&\<close> and \<open>=\<close>, a plus sign is a
  space and \<open>%XY\<close> a byte.
\<close>

definition hex_value :: "char \<Rightarrow> nat option" where
  "hex_value c =
     (if is_digit c then Some (of_char c - 48)
      else if of_char c \<ge> (97::nat) \<and> of_char c \<le> (102::nat) then Some (of_char c - 87)
      else if of_char c \<ge> (65::nat) \<and> of_char c \<le> (70::nat) then Some (of_char c - 55) else None)"

fun url_decode :: "string \<Rightarrow> string" where
  "url_decode [] = []"
| "url_decode (c # s) =
     (if c = CHR ''+'' then CHR '' '' # url_decode s
      else if c = CHR ''%'' then
        (case s of
           h # l # r \<Rightarrow>
             (case (hex_value h, hex_value l) of
                (Some a, Some b) \<Rightarrow> char_of (16 * a + b) # url_decode r
              | _ \<Rightarrow> c # url_decode s)
         | _ \<Rightarrow> c # url_decode s)
      else c # url_decode s)"

definition query_pairs :: "string \<Rightarrow> (string \<times> string) list" where
  "query_pairs address =
     (let q = drop 1 (dropWhile (\<lambda>c. c \<noteq> CHR ''?'') (takeWhile (\<lambda>c. c \<noteq> CHR ''#'') address))
      in map (\<lambda>part. (url_decode (takeWhile (\<lambda>c. c \<noteq> CHR ''='') part), url_decode (drop 1 (dropWhile (\<lambda>c. c \<noteq> CHR ''='') part))))
           (filter (\<lambda>part. part \<noteq> []) (split_on CHR ''&'' q)))"

definition page_uuid :: "string \<Rightarrow> string" where
  "page_uuid address = or_str (map_of (query_pairs address) ''uuid'') []"

section \<open>What the API page derives\<close>

definition serviceUuid :: "ServiceInfo option \<Rightarrow> string" where
  "serviceUuid detail =
     (case detail of
        None \<Rightarrow> []
      | Some (LatestInfo d) \<Rightarrow> si_service_uuid d
      | Some (IterationInfo d) \<Rightarrow> (case it_service d of None \<Rightarrow> [] | Some s \<Rightarrow> si_service_uuid s))"

definition personInCharge :: "ServiceInfo option \<Rightarrow> UserProfile option" where
  "personInCharge detail =
     (case detail of
        None \<Rightarrow> None
      | Some (LatestInfo d) \<Rightarrow> si_owner d
      | Some (IterationInfo d) \<Rightarrow> Some (it_creator d))"

definition page_maintainers :: "ServiceInfo option \<Rightarrow> UserProfile list" where
  "page_maintainers detail =
     (case detail of
        Some (LatestInfo d) \<Rightarrow> (case sd_maintainers d of None \<Rightarrow> [] | Some ms \<Rightarrow> ms)
      | _ \<Rightarrow> [])"

definition isLoading :: "bool \<Rightarrow> ServiceInfo option \<Rightarrow> tree_group list \<Rightarrow> bool" where
  "isLoading loading detail tree \<longleftrightarrow> loading \<or> serviceUuid detail = [] \<or> tree = []"

text \<open>During an iteration the API shown is a draft.\<close>

definition api_isLatest :: "bool \<Rightarrow> bool \<Rightarrow> bool" where
  "api_isLatest inIteration isLatest = (if inIteration then False else isLatest)"

section \<open>Identifiers of services\<close>

lemma uuid_match_iff:
  "uuid_match s \<longleftrightarrow> (\<exists>a b c. s = a @ ''/'' @ b @ ''/'' @ c \<and> a \<noteq> [] \<and> b \<noteq> [] \<and> c \<noteq> [] \<and>
     list_all uuid_char a \<and> list_all uuid_char b \<and> list_all uuid_char c)"
proof
  assume "uuid_match s"
  then obtain a b c where p: "split_on CHR ''/'' s = [a, b, c]" and
    ok: "a \<noteq> []" "b \<noteq> []" "c \<noteq> []" "list_all uuid_char a" "list_all uuid_char b" "list_all uuid_char c"
    by (auto simp: uuid_match_def split: list.splits)
  have "s = a @ ''/'' @ b @ ''/'' @ c" using join_split_on [of "CHR ''/''" s] p by simp
  then show "\<exists>a b c. s = a @ ''/'' @ b @ ''/'' @ c \<and> a \<noteq> [] \<and> b \<noteq> [] \<and> c \<noteq> [] \<and>
     list_all uuid_char a \<and> list_all uuid_char b \<and> list_all uuid_char c" using ok by blast
next
  assume "\<exists>a b c. s = a @ ''/'' @ b @ ''/'' @ c \<and> a \<noteq> [] \<and> b \<noteq> [] \<and> c \<noteq> [] \<and>
     list_all uuid_char a \<and> list_all uuid_char b \<and> list_all uuid_char c"
  then obtain a b c where s: "s = a @ ''/'' @ b @ ''/'' @ c" and
    ok: "a \<noteq> []" "b \<noteq> []" "c \<noteq> []" "list_all uuid_char a" "list_all uuid_char b" "list_all uuid_char c" by blast
  have "\<not> uuid_char CHR ''/''" by code_simp
  then have "CHR ''/'' \<notin> set x" if "list_all uuid_char x" for x using that by (auto simp: list_all_iff)
  then have "split_on CHR ''/'' s = [a, b, c]" using ok by (simp add: s split_on_append split_on_free)
  then show "uuid_match s" using ok by (simp add: uuid_match_def)
qed

text \<open>The characters of an accepted identifier; none has a meaning in an address or on the command line.\<close>

lemma uuid_match_chars:
  assumes "uuid_match u"
  shows "u \<noteq> []" "c \<in> set u \<Longrightarrow> c \<notin> {CHR ''@'', CHR '':'', CHR ''#'', CHR ''&'', CHR ''+'', CHR ''%'', CHR ''?'', CHR ''=''}"
proof -
  have u: "\<forall>c\<in>set u. uuid_char c \<or> c = CHR ''/''" and n: "u \<noteq> []"
    using assms unfolding uuid_match_iff by (auto simp: list_all_iff)
  show "u \<noteq> []" by (rule n)
  have "\<not> uuid_char CHR ''@''" "\<not> uuid_char CHR '':''" "\<not> uuid_char CHR ''#''" "\<not> uuid_char CHR ''&''" "\<not> uuid_char CHR ''+''"
    "\<not> uuid_char CHR ''%''" "\<not> uuid_char CHR ''?''" "\<not> uuid_char CHR ''=''" by code_simp+
  then show "c \<in> set u \<Longrightarrow> c \<notin> {CHR ''@'', CHR '':'', CHR ''#'', CHR ''&'', CHR ''+'', CHR ''%'', CHR ''?'', CHR ''=''}" using u by auto
qed

lemma url_decode_plain: "CHR ''+'' \<notin> set s \<Longrightarrow> CHR ''%'' \<notin> set s \<Longrightarrow> url_decode s = s"
  by (induction s) auto

lemma page_uuid_opened:
  assumes "uuid_match u"
  shows "page_uuid (handleViewService u) = u"
proof -
  note c = uuid_match_chars(2) [OF assms]
  have n: "CHR ''#'' \<notin> set u" "CHR ''&'' \<notin> set u" "CHR ''+'' \<notin> set u" "CHR ''%'' \<notin> set u" using c by blast+
  have h: "takeWhile (\<lambda>c. c \<noteq> CHR ''#'') (handleViewService u) = ''/service?uuid='' @ u"
    using n(1) by (simp add: handleViewService_def takeWhile_eq_all_conv) (metis)
  have "split_on CHR ''&'' (''uuid='' @ u) = [''uuid='' @ u]" using n(2) by (intro split_on_free) auto
  then have "query_pairs (handleViewService u) = [(''uuid'', u)]"
    using n by (simp add: query_pairs_def h Let_def url_decode_plain)
  then show ?thesis using uuid_match_chars(1) [OF assms] by (simp add: page_uuid_def)
qed

interpretation page_address: codec handleViewService "\<lambda>a. Some (page_uuid a)" uuid_match
  by unfold_locales (simp add: page_uuid_opened)

text \<open>Two services share a page only when they share an identifier.\<close>

lemma pages_apart:
  "uuid_match u \<Longrightarrow> uuid_match v \<Longrightarrow> handleViewService u = handleViewService v \<longleftrightarrow> u = v"
  by (rule page_address.enc_inject)

text \<open>
  Opening a service that can be opened from the table of services leads to its own page: for every
  identifier the creation form accepts, the page reads back from its address exactly the identifier of
  the row, and asks the server for the versions of that service.
\<close>

theorem view_service_roundtrip:
  assumes "ViewService v \<in> set (row_actions item)" "uuid_match (si_service_uuid item)"
  shows "page_uuid (handleViewService v) = si_service_uuid item \<and> \<not> si_is_deleted item \<and>
    GetAllVersionsByUuid (page_uuid (handleViewService v)) = GetAllVersionsByUuid (si_service_uuid item)"
  using assms page_uuid_opened by (auto simp: row_actions_def split: if_splits)

lemma demo_uuid: "uuid_match ''shop/order/v1''"
  by code_simp

definition demo_open_item :: ServiceItem where
  "demo_open_item = \<lparr>si_id = 1, si_service_uuid = ''shop/order/v1'', si_version = ''0.0.1'', si_description = None, si_owner_id = 1,
     si_created_at = [], si_is_deleted = False, si_owner = None, si_deleted_at = None\<rparr>"

theorem view_service_roundtrip_witness:
  "page_uuid (handleViewService ''shop/order/v1'') = ''shop/order/v1''"
  using view_service_roundtrip [of "''shop/order/v1''" demo_open_item] demo_uuid by (simp add: demo_open_item_def row_actions_def)

section \<open>The guard of the service page\<close>

text \<open>
  The service page opens exactly for a page that holds a token: whenever a user is shown the guard
  lets through and nothing is fetched again, and after signing out it sends the visitor back to the
  start page, which greets a guest.
\<close>

theorem service_page_guarded:
  assumes "persist_ok ps hy" "server_auth si" "user_reachable ps hy base sl si (b, u)" "us_user u \<noteq> None"
  shows "requireAuthLoader b = (Proceed, []) \<and> fst (requireAuthLoader (fst (fe_logout ps (b, u)))) = Redirect ''/'' \<and>
    ServiceManagement (snd (fe_logout ps (b, u))) = WelcomeGuest \<and> app_effect ps base si (b, u) = (b, u)"
proof -
  have "getAccessToken b \<noteq> []"
    using session_ok_reachable [OF assms(1-3)] assms(4) by (cases "b_token b") (auto simp: session_ok_def getAccessToken_def)
  moreover have "getAccessToken (fst (fe_logout ps (b, u))) = []" by (simp add: fe_logout_def getAccessToken_def)
  moreover have "us_user (snd (fe_logout ps (b, u))) = None" by (simp add: fe_logout_def)
  ultimately show ?thesis using assms(4) by (auto simp: requireAuthLoader_def ServiceManagement_def app_effect_def)
qed

theorem service_page_guarded_witness:
  "requireAuthLoader (fst demo_page) = (Proceed, []) \<and>
   fst (requireAuthLoader (fst (fe_logout demo_persist demo_page))) = Redirect ''/''"
  using service_page_guarded [OF demo_persist_ok demo_server_auth, of "[]" demo_login_srv "fst demo_page" "snd demo_page"]
    demo_page_reachable demo_page_shows by simp

section \<open>Rows of the table of services\<close>

text \<open>A row whose service belongs to somebody else and carries no owner cannot be drawn.\<close>

lemma owner_cell_throws_iff:
  "owner_cell tr user item = Inl NullUser \<longleftrightarrow> si_owner item = None \<and> map_option u_id user \<noteq> Some (si_owner_id item)"
  by (cases user; cases "si_owner item") (auto simp: owner_cell_def cell_owner_def userAvatar_iff)

text \<open>A service is either deleted or restored, never both, and only one that is not deleted can be opened.\<close>

lemma row_actions_exclusive:
  "DeleteService i \<in> set (row_actions item) \<longleftrightarrow> \<not> si_is_deleted item \<and> i = si_id item"
  "RestoreService i \<in> set (row_actions item) \<longleftrightarrow> si_is_deleted item \<and> i = si_id item"
  "ViewService v \<in> set (row_actions item) \<longleftrightarrow> \<not> si_is_deleted item \<and> v = si_service_uuid item"
  by (auto simp: row_actions_def)

lemma list_columns_distinct: "distinct (list_columns rng) \<and> last (list_columns rng) = ActionsColumn"
  by (simp add: list_columns_def)

text \<open>
  A confirmed restore that the server refuses tells the user nothing: the handler throws and the
  confirmation dialog swallows the error.
\<close>

lemma refused_restore_silent:
  assumes "fe_send base srvRes (RestoreServiceById sid) b = (Inr res, b')" "status res \<noteq> 200"
  shows "ls_toasts (snd (restore_action base srvRes srvList True sid (b, st))) = ls_toasts st"
  using assms by (simp add: restore_action_def handleConfirm_def handleRestoreService_def Let_def)

text \<open>A search of a user never leaves the selection searching, and a short input asks nothing.\<close>

lemma handleSearch_settles:
  "sl_fetching (handleSearch g v st) = (length v < 2 \<and> sl_fetching st)"
  "length v < 2 \<Longrightarrow> handleSearch g v st = st"
  by (auto simp: handleSearch_def Let_def split: sum.split)

end
