(* ===== verification/Fe_Iteration.thy ===== *)
theory Fe_Iteration
  imports Fe_Request Fe_Tree
begin

text \<open>
  Editing an iteration: the hook \<open>useServiceIteration\<close> of \<open>FE-CAM/src/hooks/useService.tsx\<close>, and the hook
  \<open>useApi\<close> of \<open>FE-CAM/src/hooks/useApi.tsx\<close> that loads the API shown.  The handlers await their requests;
  each is modelled as running to its end.
\<close>

section \<open>\<open>useServiceIteration\<close>\<close>

record iteration_response = BaseResponse +
  ir_iteration :: ServiceIterationDetail

record iteration_state =
  is_loading :: bool
  is_detail :: "ServiceIterationDetail option"
  is_apiDrafts :: "ApiBrief list"
  is_toasts :: "toast list"

type_synonym 's iteration_page = "'s browser \<times> iteration_state"

definition is_toast :: "toast \<Rightarrow> iteration_state \<Rightarrow> iteration_state" where
  "is_toast m st = st\<lparr>is_toasts := is_toasts st @ [m]\<rparr>"

definition iteration_answered :: "string + iteration_response \<Rightarrow> iteration_state \<Rightarrow> iteration_state" where
  "iteration_answered r st =
     (case r of
        Inl e \<Rightarrow> (is_toast (WarningToast e) st)\<lparr>is_loading := False\<rparr>
      | Inr res \<Rightarrow>
          if status res \<noteq> 200
          then (is_toast (WarningToast (or_str (Some (message res)) ''fetching the iteration failed'')) (st\<lparr>is_detail := None\<rparr>))
                 \<lparr>is_loading := False\<rparr>
          else (let st1 = st\<lparr>is_detail := Some (ir_iteration res)\<rparr>;
                    st2 = (case it_api_drafts (ir_iteration res) of None \<Rightarrow> st1 | Some ds \<Rightarrow> st1\<lparr>is_apiDrafts := ds\<rparr>)
                in st2\<lparr>is_loading := False\<rparr>))"

definition fetchIterationDetail ::
    "string \<Rightarrow> ('s, iteration_response) endpoint \<Rightarrow> int \<Rightarrow> 's iteration_page \<Rightarrow> 's iteration_page" where
  "fetchIterationDetail base srv iterationId p =
     (if iterationId \<le> 0 then p
      else case p of (b, st) \<Rightarrow>
        (case fe_send base srv (GetIterationById iterationId) b of
           (r, b') \<Rightarrow> (b', iteration_answered r (st\<lparr>is_loading := True\<rparr>))))"

record add_api_values =
  av_name :: string
  av_method :: HttpMethod
  av_path :: string
  av_description :: "string option"
  av_level :: "ApiLevel option"
  av_category_id :: int

definition add_api_data :: "int \<Rightarrow> add_api_values \<Rightarrow> AddApiRequest" where
  "add_api_data iterationId values =
     \<lparr>aa_service_iteration_id = iterationId, aa_name = av_name values, aa_method = av_method values,
      aa_path = av_path values, aa_description = or_str (av_description values) [],
      aa_level = (case av_level values of None \<Rightarrow> P2 | Some l \<Rightarrow> l),
      aa_category_id = (if av_category_id values > 0 then Some (av_category_id values) else None)\<rparr>"

text \<open>
  The common shape of the four changes: send the request, report, then fetch the iteration again.
  \<open>Inl\<close> is the error thrown.
\<close>

definition change_draft ::
    "string \<Rightarrow> ('s, BaseResponse) endpoint \<Rightarrow> ('s, iteration_response) endpoint \<Rightarrow> int \<Rightarrow> http_request \<Rightarrow> string \<Rightarrow>
     string option \<Rightarrow> 's iteration_page \<Rightarrow> (string + BaseResponse) \<times> 's iteration_page" where
  "change_draft base srv srvIt iterationId req failure success p =
     (case p of (b, st) \<Rightarrow>
       (case fe_send base srv req b of
          (Inl e, b') \<Rightarrow> (Inl e, (b', st))
        | (Inr res, b') \<Rightarrow>
            if status res \<noteq> 200 then (Inl (or_str (Some (message res)) failure), (b', st))
            else (Inr res, fetchIterationDetail base srvIt iterationId
                    (b', case success of None \<Rightarrow> st | Some m \<Rightarrow> is_toast (SuccessToast (or_str (Some (message res)) m)) st))))"

definition handleCopyApi where
  "handleCopyApi base srv srvIt iterationId apiDraftId =
     change_draft base srv srvIt iterationId (CopyApiByApiDraftId iterationId apiDraftId) ''copying the API failed'' (Some ''API copied'')"

definition handleDeleteApi where
  "handleDeleteApi base srv srvIt iterationId apiDraftId =
     change_draft base srv srvIt iterationId (DeleteApiByApiDraftId iterationId apiDraftId) ''deleting the API failed'' (Some ''API deleted'')"

definition handleSaveApiDraft where
  "handleSaveApiDraft base srv srvIt iterationId data =
     change_draft base srv srvIt iterationId (UpdateApiByApiDraftId iterationId data) ''saving the API failed'' None"

text \<open>The dialog that adds an API; the first component tells whether it was closed.\<close>

definition handleAddApi ::
    "string \<Rightarrow> ('s, BaseResponse) endpoint \<Rightarrow> ('s, iteration_response) endpoint \<Rightarrow> int \<Rightarrow> string option + unit \<Rightarrow> add_api_values \<Rightarrow>
     's iteration_page \<Rightarrow> bool \<times> 's iteration_page" where
  "handleAddApi base srv srvIt iterationId validated values p =
     (case validated of
        Inl reason \<Rightarrow> (False, (fst p, is_toast (WarningToast (case reason of None \<Rightarrow> ''adding the API failed'' | Some m \<Rightarrow> m)) (snd p)))
      | Inr _ \<Rightarrow>
          (case change_draft base srv srvIt iterationId (AddApi (add_api_data iterationId values)) ''adding the API failed'' (Some ''API added'') p of
             (Inl e, (b', st')) \<Rightarrow> (False, (b', is_toast (WarningToast e) st'))
           | (Inr _, p') \<Rightarrow> (True, p')))"

section \<open>\<open>useApi\<close>\<close>

text \<open>\<open>ah_apiId\<close> is the id for which the effect last ran (\<open>None\<close> before the first run).\<close>

record api_hook =
  ah_apiId :: "int option"
  ah_loading :: bool
  ah_detail :: "ApiDetail option"
  ah_toasts :: "toast list"

definition api_answered :: "string + GetApiByIdResponse \<Rightarrow> api_hook \<Rightarrow> api_hook" where
  "api_answered r st =
     (case r of
        Inl e \<Rightarrow> st\<lparr>ah_detail := None, ah_toasts := ah_toasts st @ [WarningToast e], ah_loading := False\<rparr>
      | Inr res \<Rightarrow>
          if status res \<noteq> 200
          then st\<lparr>ah_detail := None, ah_loading := False,
                  ah_toasts := ah_toasts st @ [WarningToast (or_str (Some (message res)) ''fetching the API failed'')]\<rparr>
          else st\<lparr>ah_detail := ga_api res, ah_loading := False\<rparr>)"

definition fetchApiDetail ::
    "string \<Rightarrow> ('s, GetApiByIdResponse) endpoint \<Rightarrow> int \<Rightarrow> bool \<Rightarrow> 's browser \<times> api_hook \<Rightarrow> 's browser \<times> api_hook" where
  "fetchApiDetail base srv apiId isLatest p =
     (case p of (b, st) \<Rightarrow>
       if apiId \<le> 0 then (b, st\<lparr>ah_detail := None\<rparr>)
       else (case fe_send base srv (fe_GetApiById apiId (Some isLatest)) b of
               (r, b') \<Rightarrow> (b', api_answered r (st\<lparr>ah_loading := True\<rparr>))))"

text \<open>One rendering of the hook: the callback, and with it the effect, depends on \<open>apiId\<close> only.\<close>

definition useApi ::
    "string \<Rightarrow> ('s, GetApiByIdResponse) endpoint \<Rightarrow> int \<Rightarrow> bool \<Rightarrow> 's browser \<times> api_hook \<Rightarrow> 's browser \<times> api_hook" where
  "useApi base srv apiId isLatest p =
     (case p of (b, st) \<Rightarrow>
       if ah_apiId st = Some apiId then (b, st)
       else fetchApiDetail base srv apiId isLatest (b, st\<lparr>ah_apiId := Some apiId\<rparr>))"

section \<open>Results\<close>

lemma iteration_answered_facts:
  "\<not> is_loading (iteration_answered r st)"
  "r = Inr res \<Longrightarrow> status res = 200 \<Longrightarrow> is_detail (iteration_answered r st) = Some (ir_iteration res)"
  "r = Inr res \<Longrightarrow> status res = 200 \<Longrightarrow> it_api_drafts (ir_iteration res) = Some ds \<Longrightarrow> is_apiDrafts (iteration_answered r st) = ds"
  by (auto simp: iteration_answered_def Let_def split: sum.splits option.splits)

lemma is_toast_simps [simp]:
  "is_loading (is_toast m st) = is_loading st" "is_apiDrafts (is_toast m st) = is_apiDrafts st" "is_detail (is_toast m st) = is_detail st"
  by (simp_all add: is_toast_def)

lemma change_draft_refreshed:
  assumes "iterationId > 0" "fe_send base srv req b = (Inr res, b1)" "status res = 200"
    "fe_send base si (GetIterationById iterationId) b1 = (Inr it, b2)" "status it = 200" "it_api_drafts (ir_iteration it) = Some ds"
  shows "\<exists>st'. change_draft base srv si iterationId req f s (b, st) = (Inr res, (b2, st')) \<and>
    is_apiDrafts st' = ds \<and> is_detail st' = Some (ir_iteration it) \<and> \<not> is_loading st'"
  using assms by (auto simp: change_draft_def fetchIterationDetail_def iteration_answered_facts)

lemma change_draft_failed:
  assumes "case fst (fe_send base srv req b) of Inl _ \<Rightarrow> True | Inr res \<Rightarrow> status res \<noteq> 200"
  shows "\<exists>e b'. change_draft base srv si iterationId req f s (b, st) = (Inl e, (b', st))"
  using assms by (auto simp: change_draft_def split: prod.splits sum.splits)

text \<open>
  Saving an edited API sends the draft under the iteration being edited; when the server accepts it
  the drafts shown are the ones it then has, and when it does not, the draft list stays as it was and
  the error reaches the editor.
\<close>

theorem save_draft_refreshes:
  assumes "iterationId > 0"
  shows "(\<forall>res b1 it b2 ds. fe_send base srv (UpdateApiByApiDraftId iterationId data) b = (Inr res, b1) \<longrightarrow> status res = 200 \<longrightarrow>
      fe_send base si (GetIterationById iterationId) b1 = (Inr it, b2) \<longrightarrow> status it = 200 \<longrightarrow>
      it_api_drafts (ir_iteration it) = Some ds \<longrightarrow>
      (\<exists>st'. handleSaveApiDraft base srv si iterationId data (b, st) = (Inr res, (b2, st')) \<and>
        is_apiDrafts st' = ds \<and> is_detail st' = Some (ir_iteration it) \<and> \<not> is_loading st')) \<and>
    ((case fst (fe_send base srv (UpdateApiByApiDraftId iterationId data) b) of Inl _ \<Rightarrow> True | Inr res \<Rightarrow> status res \<noteq> 200) \<longrightarrow>
      (\<exists>e b'. handleSaveApiDraft base srv si iterationId data (b, st) = (Inl e, (b', st))))"
  unfolding handleSaveApiDraft_def
  by (intro conjI allI impI change_draft_failed) (rule change_draft_refreshed [OF assms])

definition demo_update :: update_request where
  "demo_update = \<lparr>up_api_draft_id = 4, up_name = ''x'', up_method = GET, up_path = ''/x'', up_description = None,
     up_level = P2, up_req_params = [], up_resp_params = []\<rparr>"

definition refusing_endpoint :: "(unit, BaseResponse) endpoint" where
  "refusing_endpoint s req = (Success \<lparr>status = -1, message = ''no''\<rparr>, ())"

definition demo_iteration_srv :: "(unit, iteration_response) endpoint" where
  "demo_iteration_srv s req = (Failure None ''down'' False, ())"

definition quiet_browser :: "unit browser" where
  "quiet_browser = \<lparr>b_token = None, b_user_store = None, b_ttl = None, b_reloads = 0, b_now = 0, b_server = ()\<rparr>"

definition quiet_iteration :: iteration_state where
  "quiet_iteration = \<lparr>is_loading = False, is_detail = None, is_apiDrafts = [demo_brief 4 GET None], is_toasts = []\<rparr>"

theorem save_draft_refreshes_witness:
  "\<exists>e b'. handleSaveApiDraft [] refusing_endpoint demo_iteration_srv 3 demo_update (quiet_browser, quiet_iteration) =
     (Inl e, (b', quiet_iteration))"
proof -
  have "case fst (fe_send [] refusing_endpoint (UpdateApiByApiDraftId 3 demo_update) quiet_browser) of
      Inl _ \<Rightarrow> True | Inr res \<Rightarrow> status res \<noteq> 200"
    by (simp add: fe_send_def refusing_endpoint_def)
  then show ?thesis
    using save_draft_refreshes [of 3 "[]" refusing_endpoint demo_update quiet_browser demo_iteration_srv quiet_iteration] by simp
qed

text \<open>
  The detail that was loaded stays when only \<open>isLatest\<close> changes: entering an iteration whose first draft
  has the id of the published API on display shows that API in the editor.
\<close>

lemma useApi_ignores_isLatest:
  "useApi base srv apiId l (useApi base srv apiId l' p) = useApi base srv apiId l' p"
  by (cases p) (auto simp: useApi_def fetchApiDetail_def api_answered_def split: prod.splits sum.splits)

lemma useApi_settles:
  "\<not> ah_loading (snd p) \<Longrightarrow> \<not> ah_loading (snd (useApi base srv apiId l p))"
  by (cases p) (auto simp: useApi_def fetchApiDetail_def api_answered_def split: prod.splits sum.splits)

end
