(* ===== verification/Fe_Forms.thy ===== *)
theory Fe_Forms
  imports Fe_Views Fe_Iteration
begin

text \<open>
  The forms of the front end: signing in, registration, change of the password
  (\<open>components/User/*Form.tsx\<close>), a new service (\<open>ServiceManagement/CreateServiceForm.tsx\<close>), a new category, a
  new API (\<open>ApiManagement/ApiList/Add*Form.tsx\<close>) and the brief information of the editor
  (\<open>ApiManagement/ApiEdit/BriefInfoEdit.tsx\<close>).  A form is the list of its items with their rules and
  controls.  The library that draws the forms and runs the rules is a parameter, \<open>validate\<close>.
\<close>

section \<open>Forms\<close>

datatype form_value = FText string | FNum int

datatype form_rule = Required | Match "string \<Rightarrow> bool"

text \<open>The controls: texts with an optional \<open>maxLength\<close>, choices with the values of their options, and what is only shown.\<close>

datatype form_control = TextInput "nat option" | PasswordInput | TextArea "nat option" | Choice "form_value list" | Shown

record form_item =
  fi_field :: "string option"
  fi_rules :: "form_rule list"
  fi_control :: form_control
  fi_initial :: "form_value option"

type_synonym form_data = "string \<Rightarrow> form_value option"

definition field_item :: "string \<Rightarrow> form_rule list \<Rightarrow> form_control \<Rightarrow> form_item" where
  "field_item f rs c = \<lparr>fi_field = Some f, fi_rules = rs, fi_control = c, fi_initial = None\<rparr>"

text \<open>\<open>/^[^\u4e00-\u9fff]*$/\<close>\<close>

definition no_cjk :: "string \<Rightarrow> bool" where
  "no_cjk s \<longleftrightarrow> list_all (\<lambda>c. \<not> (19968 \<le> (of_char c :: nat) \<and> (of_char c :: nat) \<le> 40959)) s"

section \<open>The forms of the program\<close>

definition LoginForm :: "form_item list" where
  "LoginForm =
     [field_item ''username'' [Required] (TextInput None),
      field_item ''password'' [Required] PasswordInput]"

definition RegisterForm :: "form_item list" where
  "RegisterForm =
     [field_item ''username'' [Required] (TextInput None),
      field_item ''nickname'' [Required] (TextInput None),
      field_item ''email'' [Required] (TextInput None),
      field_item ''role'' [Required] (Choice (map FText
        [''frontend'', ''backend'', ''fullstack'', ''qa'', ''devops'', ''product_manager'', ''designer'', ''architect'',
         ''proj_lead'', ''guest''])),
      field_item ''password'' [Required] PasswordInput,
      field_item ''confirmPassword'' [Required] PasswordInput]"

definition ModifyPasswordForm :: "form_item list" where
  "ModifyPasswordForm =
     [field_item ''old_password'' [Required] PasswordInput,
      field_item ''new_password'' [Required] PasswordInput,
      field_item ''confirm_new_password'' [Required] PasswordInput]"

text \<open>The items of the version and of the owner have no field: they only show a value.\<close>

definition CreateServiceForm :: "form_item list" where
  "CreateServiceForm =
     [field_item ''service_uuid'' [Required, Match uuid_match] (TextInput None),
      \<lparr>fi_field = None, fi_rules = [Required], fi_control = Shown, fi_initial = None\<rparr>,
      \<lparr>fi_field = None, fi_rules = [Required], fi_control = Shown, fi_initial = None\<rparr>,
      field_item ''description'' [Required] (TextArea None)]"

definition AddCategoryForm :: "form_item list" where
  "AddCategoryForm =
     [field_item ''category_name'' [Required] (TextInput None),
      field_item ''description'' [Required] (TextArea None)]"

definition level_options :: "form_value list" where
  "level_options = map FText [''P0'', ''P1'', ''P2'', ''P3'', ''P4'']"

definition method_options :: "form_value list" where
  "method_options = map (\<lambda>m. FText (method_str m)) HTTP_METHODS"

definition AddApiForm :: "ApiCategory list \<Rightarrow> form_item list" where
  "AddApiForm apiCategories =
     [field_item ''name'' [Required, Match no_cjk] (TextInput None),
      (field_item ''method'' [Required] (Choice method_options))\<lparr>fi_initial := Some (FText ''GET'')\<rparr>,
      field_item ''path'' [Required, Match path_match, Match no_cjk] (TextInput None),
      (field_item ''level'' [Required] (Choice level_options))\<lparr>fi_initial := Some (FText ''P2'')\<rparr>,
      (field_item ''category_id'' [Required] (Choice (map (\<lambda>(i, _). FNum i) (form_categories apiCategories))))
        \<lparr>fi_initial := Some (FNum (-1))\<rparr>,
      field_item ''description'' [] (TextArea None)]"

definition BriefInfoEdit :: "form_item list" where
  "BriefInfoEdit =
     [field_item ''name'' [Required, Match no_cjk] (TextInput (Some 50)),
      field_item ''method'' [Required] (Choice method_options),
      field_item ''path'' [Required, Match path_match, Match no_cjk] (TextInput None),
      field_item ''level'' [Required] (Choice level_options),
      field_item ''description'' [] (TextArea (Some 200))]"

text \<open>The hint in the empty field of the path.\<close>

definition path_placeholder :: "string \<Rightarrow> string" where
  "path_placeholder name = ''/api/'' @ name"

text \<open>What a form shows before anything is typed.\<close>

definition initial_values :: "form_item list \<Rightarrow> form_data" where
  "initial_values items f =
     (case List.find (\<lambda>it. fi_field it = Some f) items of None \<Rightarrow> None | Some it \<Rightarrow> fi_initial it)"

section \<open>The form library\<close>

text \<open>
  What is relied on.  A control yields values of its kind: a text no longer than its limit, or the value of one of its options.
\<close>

fun control_yields :: "form_control \<Rightarrow> form_value \<Rightarrow> bool" where
  "control_yields (TextInput n) v = (case v of FText s \<Rightarrow> (case n of None \<Rightarrow> True | Some k \<Rightarrow> length s \<le> k) | FNum _ \<Rightarrow> False)"
| "control_yields PasswordInput v = (case v of FText s \<Rightarrow> True | FNum _ \<Rightarrow> False)"
| "control_yields (TextArea n) v = (case v of FText s \<Rightarrow> (case n of None \<Rightarrow> True | Some k \<Rightarrow> length s \<le> k) | FNum _ \<Rightarrow> False)"
| "control_yields (Choice opts) v = (v \<in> set opts)"
| "control_yields Shown v = False"

definition yields :: "form_control \<Rightarrow> form_value option \<Rightarrow> bool" where
  "yields c v \<longleftrightarrow> (case v of None \<Rightarrow> True | Some x \<Rightarrow> control_yields c x)"

definition typed :: "form_item list \<Rightarrow> form_data \<Rightarrow> bool" where
  "typed items vals \<longleftrightarrow>
     list_all (\<lambda>it. case fi_field it of None \<Rightarrow> True | Some f \<Rightarrow> yields (fi_control it) (vals f)) items"

definition filled :: "form_value option \<Rightarrow> bool" where
  "filled v \<longleftrightarrow> v \<noteq> None \<and> v \<noteq> Some (FText [])"

text \<open>
  A validation that succeeds has found every required field filled and every filled text matching its
  patterns; it does succeed when all of them are filled and match.
\<close>

definition form_library :: "(form_item list \<Rightarrow> form_data \<Rightarrow> bool) \<Rightarrow> bool" where
  "form_library validate \<longleftrightarrow>
     (\<forall>items vals.
        (validate items vals \<longrightarrow>
           (\<forall>it\<in>set items. \<forall>f. fi_field it = Some f \<longrightarrow>
              (Required \<in> set (fi_rules it) \<longrightarrow> filled (vals f)) \<and>
              (\<forall>p s. Match p \<in> set (fi_rules it) \<longrightarrow> vals f = Some (FText s) \<longrightarrow> s \<noteq> [] \<longrightarrow> p s))) \<and>
        ((\<forall>it\<in>set items. \<forall>f. fi_field it = Some f \<longrightarrow>
              (Required \<in> set (fi_rules it) \<longrightarrow> filled (vals f)) \<and>
              (\<forall>p. Match p \<in> set (fi_rules it) \<longrightarrow> (\<exists>s. vals f = Some (FText s) \<and> s \<noteq> [] \<and> p s))) \<longrightarrow>
           validate items vals))"

section \<open>What the dialogs send\<close>

fun text_of :: "form_value option \<Rightarrow> string" where
  "text_of (Some (FText s)) = s"
| "text_of _ = []"

definition login_values :: "form_data \<Rightarrow> LoginRequest" where
  "login_values v = \<lparr>lq_username = text_of (v ''username''), lq_password = text_of (v ''password'')\<rparr>"

definition register_values :: "form_data \<Rightarrow> RegisterRequest \<times> string" where
  "register_values v =
     (\<lparr>rq_username = text_of (v ''username''), rq_password = text_of (v ''password''), rq_nickname = text_of (v ''nickname''),
       rq_email = text_of (v ''email''), rq_role = text_of (v ''role'')\<rparr>, text_of (v ''confirmPassword''))"

definition password_values :: "form_data \<Rightarrow> ModifyPasswordRequest \<times> string" where
  "password_values v =
     (\<lparr>mq_old_password = text_of (v ''old_password''), mq_new_password = text_of (v ''new_password'')\<rparr>,
      text_of (v ''confirm_new_password''))"

text \<open>The method and the level a choice stands for; \<open>None\<close> for a text that is none.\<close>

definition method_of :: "form_value option \<Rightarrow> HttpMethod option" where
  "method_of v = List.find (\<lambda>m. v = Some (FText (method_str m))) HTTP_METHODS"

definition level_of :: "form_value option \<Rightarrow> ApiLevel option" where
  "level_of v = List.find (\<lambda>l. v = Some (FText (level_str l))) [P0, P1, P2, P3, P4]"

definition add_api_form_values :: "form_data \<Rightarrow> add_api_values option" where
  "add_api_form_values v =
     (case (method_of (v ''method''), v ''category_id'') of
        (Some m, Some (FNum c)) \<Rightarrow>
          Some \<lparr>av_name = text_of (v ''name''), av_method = m, av_path = text_of (v ''path''),
            av_description = map_option (\<lambda>d. text_of (Some d)) (v ''description''), av_level = level_of (v ''level''),
            av_category_id = c\<rparr>
      | _ \<Rightarrow> None)"

text \<open>The dialogs with their forms; \<open>reason\<close> is the message of a rejected validation, if it is an \<open>Error\<close>.\<close>

definition validation :: "(form_item list \<Rightarrow> form_data \<Rightarrow> bool) \<Rightarrow> string option \<Rightarrow> form_item list \<Rightarrow> form_data \<Rightarrow> string option + unit" where
  "validation validate reason items v = (if validate items v then Inr () else Inl reason)"

definition submit_login where
  "submit_login validate reason persist base srvLogin srvInfo v =
     openLoginModal persist base srvLogin srvInfo (validation validate reason LoginForm v) (login_values v)"

definition submit_register where
  "submit_register validate reason base srv v =
     (case register_values v of (formData, confirmPassword) \<Rightarrow>
        openRegisterModal base srv (validation validate reason RegisterForm v) formData confirmPassword)"

definition submit_password where
  "submit_password validate reason base srv v =
     (case password_values v of (formData, confirm) \<Rightarrow>
        openModifyPasswordModal base srv (validation validate reason ModifyPasswordForm v) formData confirm)"

definition submit_service where
  "submit_service validate reason base srvNew srvList v =
     handleCreateService base srvNew srvList (validation validate reason CreateServiceForm v)
       (text_of (v ''service_uuid'')) (text_of (v ''description''))"

section \<open>Running the rules\<close>

fun rule_holds :: "form_rule \<Rightarrow> form_value option \<Rightarrow> bool" where
  "rule_holds Required v = filled v"
| "rule_holds (Match p) v = (case v of Some (FText s) \<Rightarrow> p s | _ \<Rightarrow> False)"

definition form_accepts :: "form_item list \<Rightarrow> form_data \<Rightarrow> bool" where
  "form_accepts items vals \<longleftrightarrow>
     list_all (\<lambda>it. case fi_field it of None \<Rightarrow> True | Some f \<Rightarrow> list_all (\<lambda>r. rule_holds r (vals f)) (fi_rules it)) items"

text \<open>Every pattern of the program belongs to a required text.\<close>

definition wf_item :: "form_item \<Rightarrow> bool" where
  "wf_item it \<longleftrightarrow>
     list_all (\<lambda>r. case r of Required \<Rightarrow> True | Match _ \<Rightarrow>
       Required \<in> set (fi_rules it) \<and> (case fi_control it of TextInput _ \<Rightarrow> True | _ \<Rightarrow> False)) (fi_rules it)"

lemma filled_simps [simp]: "\<not> filled None" "filled (Some (FNum n))" "filled (Some (FText s)) \<longleftrightarrow> s \<noteq> []"
  by (simp_all add: filled_def)

lemma forms_wf:
  "list_all wf_item LoginForm" "list_all wf_item RegisterForm" "list_all wf_item ModifyPasswordForm"
  "list_all wf_item CreateServiceForm" "list_all wf_item AddCategoryForm" "list_all wf_item (AddApiForm cats)"
  "list_all wf_item BriefInfoEdit"
  by (simp_all add: wf_item_def field_item_def LoginForm_def RegisterForm_def ModifyPasswordForm_def
      CreateServiceForm_def AddCategoryForm_def AddApiForm_def BriefInfoEdit_def)

lemma pattern_text:
  assumes "wf_item it" "Match p \<in> set (fi_rules it)"
  shows "Required \<in> set (fi_rules it)" "\<exists>n. fi_control it = TextInput n"
  using assms by (auto simp: wf_item_def list_all_iff split: form_control.splits)

lemma typed_text:
  assumes "typed items vals" "it \<in> set items" "fi_field it = Some f" "fi_control it = TextInput n" "filled (vals f)"
  shows "\<exists>s. vals f = Some (FText s) \<and> s \<noteq> []"
proof -
  obtain v where v: "vals f = Some v" using assms(5) by (cases "vals f") simp_all
  moreover have "control_yields (TextInput n) v"
    using assms(1-4) v by (fastforce simp: typed_def yields_def list_all_iff)
  ultimately show ?thesis using assms(5) by (cases v) simp_all
qed

text \<open>On values the controls can yield, the library's verdict is the one of the rules.\<close>

lemma library_verdict:
  assumes lib: "form_library validate" and wf: "list_all wf_item items" and ty: "typed items vals"
  shows "validate items vals = form_accepts items vals"
proof
  assume v: "validate items vals"
  have "rule_holds r (vals f)" if it: "it \<in> set items" "fi_field it = Some f" "r \<in> set (fi_rules it)" for it f r
  proof (cases r)
    case Required
    then show ?thesis using lib v it unfolding form_library_def by auto
  next
    case (Match p)
    have w: "wf_item it" using wf it(1) by (simp add: list_all_iff)
    obtain n where n: "Required \<in> set (fi_rules it)" "fi_control it = TextInput n"
      using pattern_text [OF w] it(3) Match by blast
    then have "filled (vals f)" using lib v it unfolding form_library_def by blast
    then obtain s where s: "vals f = Some (FText s)" "s \<noteq> []" using typed_text [OF ty it(1,2) n(2)] by blast
    then have "p s" using lib v it Match unfolding form_library_def by blast
    then show ?thesis using s Match by simp
  qed
  then show "form_accepts items vals" by (auto simp: form_accepts_def list_all_iff split: option.splits)
next
  assume a: "form_accepts items vals"
  have h: "rule_holds r (vals f)" if "it \<in> set items" "fi_field it = Some f" "r \<in> set (fi_rules it)" for it f r
    using a that by (fastforce simp: form_accepts_def list_all_iff)
  have "(Required \<in> set (fi_rules it) \<longrightarrow> filled (vals f)) \<and>
      (\<forall>p. Match p \<in> set (fi_rules it) \<longrightarrow> (\<exists>s. vals f = Some (FText s) \<and> s \<noteq> [] \<and> p s))"
    if it: "it \<in> set items" "fi_field it = Some f" for it f
  proof (intro conjI allI impI)
    show "filled (vals f)" if "Required \<in> set (fi_rules it)" using h [OF it that] by simp
    fix p assume p: "Match p \<in> set (fi_rules it)"
    have "wf_item it" using wf it(1) by (simp add: list_all_iff)
    then have "filled (vals f)" using h [OF it pattern_text(1)] p by fastforce
    then show "\<exists>s. vals f = Some (FText s) \<and> s \<noteq> [] \<and> p s"
      using h [OF it p] by (auto split: option.splits form_value.splits)
  qed
  then show "validate items vals" using lib unfolding form_library_def by blast
qed

lemmas verdicts = forms_wf [THEN library_verdict [rotated]]

lemmas form_defs = form_accepts_def typed_def field_item_def LoginForm_def RegisterForm_def ModifyPasswordForm_def
  CreateServiceForm_def AddCategoryForm_def AddApiForm_def BriefInfoEdit_def

text \<open>In the model characters are bytes, so the pattern against Chinese characters always holds.\<close>

lemma no_cjk_bytes [simp]: "no_cjk s"
  by (auto simp: no_cjk_def list_all_iff not_le intro: less_trans [OF nat_of_char_less_256])

definition textual :: "form_value option \<Rightarrow> bool" where
  "textual v \<longleftrightarrow> (case v of Some (FNum _) \<Rightarrow> False | _ \<Rightarrow> True)"

lemma yields_textual:
  "yields (TextInput None) v \<longleftrightarrow> textual v"
  "yields PasswordInput v \<longleftrightarrow> textual v"
  "yields (TextArea None) v \<longleftrightarrow> textual v"
  "yields (TextInput (Some n)) v \<longleftrightarrow> textual v \<and> length (text_of v) \<le> n"
  "yields (TextArea (Some n)) v \<longleftrightarrow> textual v \<and> length (text_of v) \<le> n"
  by (cases v; simp add: yields_def textual_def split: form_value.splits; fastforce)+

lemma filled_textual: "textual v \<Longrightarrow> filled v \<longleftrightarrow> text_of v \<noteq> []"
  by (auto simp: textual_def filled_def split: option.splits form_value.splits)

lemma match_textual: "textual v \<Longrightarrow> filled v \<Longrightarrow> rule_holds (Match p) v \<longleftrightarrow> p (text_of v)"
  by (auto simp: textual_def split: option.splits form_value.splits)

section \<open>The user's dialogs\<close>

lemma register_typed:
  assumes "typed RegisterForm v"
  shows "list_all (\<lambda>f. textual (v f)) [''username'', ''nickname'', ''email'', ''password'', ''confirmPassword'']"
    "filled (v ''role'') \<longleftrightarrow> text_of (v ''role'') \<in> set VALID_ROLES"
proof -
  show "list_all (\<lambda>f. textual (v f)) [''username'', ''nickname'', ''email'', ''password'', ''confirmPassword'']"
    using assms by (simp add: typed_def RegisterForm_def field_item_def yields_textual)
  have "case v ''role'' of None \<Rightarrow> True | Some x \<Rightarrow> x \<in> FText ` set VALID_ROLES"
    using assms by (simp add: typed_def RegisterForm_def field_item_def yields_def VALID_ROLES_def split: option.splits)
  then show "filled (v ''role'') \<longleftrightarrow> text_of (v ''role'') \<in> set VALID_ROLES"
    by (cases "v ''role''") (auto simp: VALID_ROLES_def)
qed

lemma register_accepts:
  assumes "typed RegisterForm v"
  shows "form_accepts RegisterForm v \<and> check_register (fst (register_values v)) (snd (register_values v)) = None \<longleftrightarrow>
    filled (v ''nickname'') \<and> filled (v ''role'') \<and> filled (v ''password'') \<and>
    text_of (v ''password'') = text_of (v ''confirmPassword'') \<and>
    username_ok (text_of (v ''username'')) \<and> email_ok (text_of (v ''email''))"
proof -
  note t = register_typed [OF assms]
  have "\<not> email_ok []" by (simp add: email_ok_def)
  then show ?thesis
    using t filled_textual
    by (auto simp: form_accepts_def RegisterForm_def field_item_def check_register_def register_values_def username_ok_def)
qed

text \<open>
  C31: The registration dialog.  A request is sent exactly when the fields of the form are filled, the
  passwords agree, and the user name and the address have the forms the store demands, and it is the one
  with these values; the role chosen in the form is always one the store accepts.  In every other case
  nothing but a message changes and the dialog stays open.
\<close>

theorem register_dialog:
  assumes "form_library validate" "typed RegisterForm v"
  shows "if filled (v ''nickname'') \<and> filled (v ''role'') \<and> filled (v ''password'') \<and>
      text_of (v ''password'') = text_of (v ''confirmPassword'') \<and>
      username_ok (text_of (v ''username'')) \<and> email_ok (text_of (v ''email''))
    then fst (snd (submit_register validate reason base srv v (b, u))) =
      snd (fe_send base srv (UserRegister (fst (register_values v))) b)
    else \<exists>m. submit_register validate reason base srv v (b, u) = (False, page_toast (ErrorToast m) (b, u))"
proof -
  have v: "validate RegisterForm v = form_accepts RegisterForm v" by (rule verdicts(2) [OF assms(2,1)])
  have sent: "fst (snd (submit_register validate reason base srv v (b, u))) =
      snd (fe_send base srv (UserRegister (fst (register_values v))) b)"
    if "form_accepts RegisterForm v" "check_register (fst (register_values v)) (snd (register_values v)) = None"
    using that by (auto simp: submit_register_def validation_def v openRegisterModal_def dialog_def register_def page_toast_def
        split: prod.splits sum.splits)
  have kept: "\<exists>m. submit_register validate reason base srv v (b, u) = (False, page_toast (ErrorToast m) (b, u))"
    if "\<not> (form_accepts RegisterForm v \<and> check_register (fst (register_values v)) (snd (register_values v)) = None)"
    using that by (auto simp: submit_register_def validation_def v openRegisterModal_def dialog_def register_def
        split: prod.splits sum.splits option.splits)
  show ?thesis unfolding register_accepts [OF assms(2), symmetric] using sent kept by auto
qed

text \<open>A library that runs the rules one by one.\<close>

lemma demo_library: "form_library form_accepts"
  unfolding form_library_def
proof (intro allI conjI impI)
  fix items vals
  show "\<forall>it\<in>set items. \<forall>f. fi_field it = Some f \<longrightarrow>
      (Required \<in> set (fi_rules it) \<longrightarrow> filled (vals f)) \<and>
      (\<forall>p s. Match p \<in> set (fi_rules it) \<longrightarrow> vals f = Some (FText s) \<longrightarrow> s \<noteq> [] \<longrightarrow> p s)"
    if "form_accepts items vals"
    using that by (force simp: form_accepts_def list_all_iff split: option.splits)
  show "form_accepts items vals"
    if a: "\<forall>it\<in>set items. \<forall>f. fi_field it = Some f \<longrightarrow>
      (Required \<in> set (fi_rules it) \<longrightarrow> filled (vals f)) \<and>
      (\<forall>p. Match p \<in> set (fi_rules it) \<longrightarrow> (\<exists>s. vals f = Some (FText s) \<and> s \<noteq> [] \<and> p s))"
  proof -
    have "rule_holds r (vals f)" if "it \<in> set items" "fi_field it = Some f" "r \<in> set (fi_rules it)" for it f r
      using a that by (cases r) fastforce+
    then show ?thesis by (auto simp: form_accepts_def list_all_iff split: option.splits)
  qed
qed

definition demo_registration :: form_data where
  "demo_registration = map_of
     [(''username'', FText ''bo''), (''nickname'', FText ''b''), (''email'', FText ''b@x.com''), (''role'', FText ''qa''),
      (''password'', FText ''p''), (''confirmPassword'', FText ''p'')]"

theorem register_dialog_witness:
  "fst (snd (submit_register form_accepts None [] accepting_endpoint demo_registration (empty_browser, blank_user))) =
     snd (fe_send [] accepting_endpoint (UserRegister (fst (register_values demo_registration))) empty_browser)"
proof -
  have t: "typed RegisterForm demo_registration"
    by (simp add: typed_def RegisterForm_def field_item_def demo_registration_def yields_def)
  have "username_ok ''bo''" "email_ok ''b@x.com''" by code_simp+
  then show ?thesis
    using register_dialog [OF demo_library t, of None "[]" accepting_endpoint empty_browser blank_user]
    by (simp add: demo_registration_def)
qed

text \<open>
  The dialogs for signing in and for a new password send nothing while a field is empty, and the latter
  nothing while the new passwords differ.
\<close>

lemma login_dialog_kept:
  assumes "form_library validate" "typed LoginForm v" "\<not> (filled (v ''username'') \<and> filled (v ''password''))"
  shows "\<exists>m. submit_login validate reason ps base sl si v p = (False, page_toast (ErrorToast m) p)"
proof -
  have "\<not> form_accepts LoginForm v" using assms(3) by (auto simp: form_accepts_def LoginForm_def field_item_def)
  then show ?thesis
    by (auto simp: submit_login_def validation_def verdicts(1) [OF assms(2,1)] openLoginModal_def dialog_def split: option.splits)
qed

lemma password_dialog_kept:
  assumes "form_library validate" "typed ModifyPasswordForm v"
    "\<not> (filled (v ''old_password'') \<and> filled (v ''new_password'') \<and> v ''new_password'' = v ''confirm_new_password'')"
  shows "\<exists>m. submit_password validate reason base srv v p = (False, page_toast (ErrorToast m) p)"
proof (cases "form_accepts ModifyPasswordForm v")
  case True
  have "textual (v ''new_password'')" "textual (v ''confirm_new_password'')"
    using assms(2) by (simp_all add: typed_def ModifyPasswordForm_def field_item_def yields_textual)
  then have "text_of (v ''new_password'') \<noteq> text_of (v ''confirm_new_password'')"
    using True assms(3) by (auto simp: form_accepts_def ModifyPasswordForm_def field_item_def textual_def split: option.splits form_value.splits)
  then show ?thesis
    using True by (auto simp: submit_password_def validation_def verdicts(3) [OF assms(2,1)] password_values_def
        openModifyPasswordModal_def dialog_def modifyPassword_def)
next
  case False
  then show ?thesis
    by (auto simp: submit_password_def validation_def verdicts(3) [OF assms(2,1)] password_values_def
        openModifyPasswordModal_def dialog_def split: option.splits)
qed

section \<open>Creating a service\<close>

lemma service_accepts:
  assumes "typed CreateServiceForm v"
  shows "form_accepts CreateServiceForm v \<longleftrightarrow>
    uuid_match (text_of (v ''service_uuid'')) \<and> text_of (v ''description'') \<noteq> []"
proof -
  have t: "textual (v ''service_uuid'')" "textual (v ''description'')"
    using assms by (simp_all add: typed_def CreateServiceForm_def field_item_def yields_textual)
  have "\<not> uuid_match []" by (simp add: uuid_match_def)
  then show ?thesis
    using match_textual [OF t(1), of uuid_match] filled_textual [OF t(1)] filled_textual [OF t(2)]
    by (auto simp: form_accepts_def CreateServiceForm_def field_item_def simp del: rule_holds.simps(2))
qed

lemma create_service_closes:
  "fst (handleCreateService base srvNew srvList vl u d (b, st)) \<longleftrightarrow>
    vl = Inr () \<and> (\<exists>res b'. fe_send base srvNew (CreateNewService u d) b = (Inr res, b') \<and> status res = 200)"
  by (auto simp: handleCreateService_def createNewService_def split: sum.splits prod.splits option.splits if_splits)

text \<open>
  C32: The dialog that creates a service closes exactly when the identifier has the form
  \<open>group/name/part\<close>, there is a description and the server accepts them; a service created this way can
  be opened, since its page reads the same identifier from the address.  With other values the dialog
  stays open and nothing but a message changes.
\<close>

theorem service_dialog:
  assumes "form_library validate" "typed CreateServiceForm v"
  shows "let u = text_of (v ''service_uuid''); d = text_of (v ''description'');
      ok = (uuid_match u \<and> d \<noteq> []);
      out = submit_service validate reason base srvNew srvList v (b, st) in
    (fst out \<longleftrightarrow> ok \<and> (\<exists>res b'. fe_send base srvNew (CreateNewService u d) b = (Inr res, b') \<and> status res = 200)) \<and>
    (fst out \<longrightarrow> page_uuid (handleViewService u) = u) \<and>
    (\<not> ok \<longrightarrow> fst (snd out) = b)"
proof -
  have v: "validation validate reason CreateServiceForm v = Inr () \<longleftrightarrow>
      uuid_match (text_of (v ''service_uuid'')) \<and> text_of (v ''description'') \<noteq> []"
    by (simp add: validation_def verdicts(4) [OF assms(2,1)] service_accepts [OF assms(2)])
  have kept: "fst (snd (submit_service validate reason base srvNew srvList v (b, st))) = b"
    if "validation validate reason CreateServiceForm v \<noteq> Inr ()"
    using that by (auto simp: submit_service_def handleCreateService_def on_list_def split: sum.splits option.splits)
  show ?thesis
    unfolding Let_def submit_service_def create_service_closes v
    using kept page_uuid_opened by (auto simp: v submit_service_def)
qed

definition demo_service_values :: form_data where
  "demo_service_values = map_of [(''service_uuid'', FText ''shop/order/v1''), (''description'', FText ''orders'')]"

definition accepting_services :: "(ServiceItem list, BaseResponse) endpoint" where
  "accepting_services s req = (Success \<lparr>status = 200, message = []\<rparr>, s)"

theorem service_dialog_witness:
  "fst (submit_service form_accepts None [] accepting_services demo_list demo_service_values (demo_list_browser, demo_list_state))"
proof -
  have t: "typed CreateServiceForm demo_service_values"
    by (simp add: typed_def CreateServiceForm_def field_item_def demo_service_values_def yields_def)
  have "\<exists>res b'. fe_send [] accepting_services (CreateNewService ''shop/order/v1'' ''orders'') demo_list_browser = (Inr res, b') \<and> status res = 200"
    by (simp add: fe_send_def accepting_services_def)
  then show ?thesis
    using service_dialog [OF demo_library t, of None "[]" accepting_services demo_list demo_list_browser demo_list_state] demo_uuid
    by (simp add: Let_def demo_service_values_def)
qed

section \<open>New and edited APIs\<close>

lemma method_choice: "x \<in> set method_options \<Longrightarrow> \<exists>m. method_of (Some x) = Some m \<and> x = FText (method_str m)"
  by (auto simp: method_options_def method_of_def HTTP_METHODS_def)

lemma level_choice: "x \<in> set level_options \<Longrightarrow> \<exists>l. level_of (Some x) = Some l \<and> x = FText (level_str l)"
  by (auto simp: level_options_def level_of_def)

lemma choice_filled: "yields (Choice opts) v \<Longrightarrow> FText [] \<notin> set opts \<Longrightarrow> filled v \<longleftrightarrow> v \<noteq> None"
  by (auto simp: yields_def filled_def split: option.splits)

lemma options_not_empty:
  "FText [] \<notin> set method_options" "FText [] \<notin> set level_options" "FText [] \<notin> set (map (\<lambda>(i, _). FNum i) cs)"
  by (auto simp: method_options_def HTTP_METHODS_def level_options_def)

lemmas chosen = options_not_empty [THEN choice_filled [rotated]]

lemma name_rules: "textual n \<Longrightarrow> filled n \<and> rule_holds (Match no_cjk) n \<longleftrightarrow> text_of n \<noteq> []"
  using match_textual [of n no_cjk] filled_textual [of n] by auto

lemma path_rules:
  "textual p \<Longrightarrow> filled p \<and> rule_holds (Match path_match) p \<and> rule_holds (Match no_cjk) p \<longleftrightarrow> path_match (text_of p)"
proof -
  have "\<not> path_match []" by (simp add: path_match_def)
  then show "textual p \<Longrightarrow> ?thesis" using match_textual [of p path_match] match_textual [of p no_cjk] filled_textual [of p] by auto
qed

text \<open>What the two forms of an API accept.\<close>

lemma add_api_accepts:
  assumes "typed (AddApiForm cats) v"
  shows "form_accepts (AddApiForm cats) v \<longleftrightarrow>
    text_of (v ''name'') \<noteq> [] \<and> path_match (text_of (v ''path'')) \<and>
    v ''method'' \<noteq> None \<and> v ''level'' \<noteq> None \<and> v ''category_id'' \<noteq> None"
proof -
  note t = assms [unfolded typed_def AddApiForm_def field_item_def, simplified]
  have "form_accepts (AddApiForm cats) v \<longleftrightarrow>
      (filled (v ''name'') \<and> rule_holds (Match no_cjk) (v ''name'')) \<and>
      (filled (v ''path'') \<and> rule_holds (Match path_match) (v ''path'') \<and> rule_holds (Match no_cjk) (v ''path'')) \<and>
      filled (v ''method'') \<and> filled (v ''level'') \<and> filled (v ''category_id'')"
    by (auto simp: form_accepts_def AddApiForm_def field_item_def simp del: rule_holds.simps(2))
  moreover have "textual (v ''name'')" "textual (v ''path'')" using t by (simp_all add: yields_textual)
  moreover have "filled (v ''method'') \<longleftrightarrow> v ''method'' \<noteq> None" "filled (v ''level'') \<longleftrightarrow> v ''level'' \<noteq> None"
      "filled (v ''category_id'') \<longleftrightarrow> v ''category_id'' \<noteq> None"
    using t chosen by blast+
  ultimately show ?thesis using name_rules path_rules by metis
qed

lemma brief_accepts:
  assumes "typed BriefInfoEdit v"
  shows "form_accepts BriefInfoEdit v \<longleftrightarrow>
    text_of (v ''name'') \<noteq> [] \<and> path_match (text_of (v ''path'')) \<and> v ''method'' \<noteq> None \<and> v ''level'' \<noteq> None"
proof -
  note t = assms [unfolded typed_def BriefInfoEdit_def field_item_def, simplified]
  have "form_accepts BriefInfoEdit v \<longleftrightarrow>
      (filled (v ''name'') \<and> rule_holds (Match no_cjk) (v ''name'')) \<and>
      (filled (v ''path'') \<and> rule_holds (Match path_match) (v ''path'') \<and> rule_holds (Match no_cjk) (v ''path'')) \<and>
      filled (v ''method'') \<and> filled (v ''level'')"
    by (auto simp: form_accepts_def BriefInfoEdit_def field_item_def simp del: rule_holds.simps(2))
  moreover have "textual (v ''name'')" "textual (v ''path'')" using t by (simp_all add: yields_textual)
  moreover have "filled (v ''method'') \<longleftrightarrow> v ''method'' \<noteq> None" "filled (v ''level'') \<longleftrightarrow> v ''level'' \<noteq> None"
    using t chosen by blast+
  ultimately show ?thesis using name_rules path_rules by metis
qed

text \<open>
  What the form for a new API accepts can be sent: its values are a method, a level and a category
  of the service or none, the name is not empty and the path begins with a slash.  Of the six fields only the name and the
  path have to be filled in.
\<close>

theorem add_api_form_sent:
  assumes "form_library validate" "typed (AddApiForm cats) v"
  shows "(validate (AddApiForm cats) v \<longrightarrow>
      (\<exists>values. add_api_form_values v = Some values \<and>
        (let d = add_api_data iterationId values in
          aa_name d \<noteq> [] \<and> prefix ''/'' (aa_path d) \<and> v ''method'' = Some (FText (method_str (aa_method d))) \<and>
          v ''level'' = Some (FText (level_str (aa_level d))) \<and>
          (aa_category_id d = None \<or> (\<exists>c\<in>set cats. aa_category_id d = Some (cat_id c)))))) \<and>
    (v = (initial_values (AddApiForm cats))(''name'' \<mapsto> FText n, ''path'' \<mapsto> FText (''/'' @ r)) \<longrightarrow> n \<noteq> [] \<longrightarrow>
      validate (AddApiForm cats) v)"
proof (intro conjI impI)
  note t = assms(2) [unfolded typed_def AddApiForm_def field_item_def, simplified]
  note a = verdicts(6) [OF assms(2,1), unfolded add_api_accepts [OF assms(2)]]
  assume "validate (AddApiForm cats) v"
  then have ok: "text_of (v ''name'') \<noteq> []" "path_match (text_of (v ''path''))"
    "v ''method'' \<noteq> None" "v ''level'' \<noteq> None" "v ''category_id'' \<noteq> None" using a by auto
  obtain m where m: "v ''method'' = Some (FText (method_str m))" "method_of (v ''method'') = Some m"
    using ok(3) t method_choice by (fastforce simp: yields_def)
  obtain l where l: "v ''level'' = Some (FText (level_str l))" "level_of (v ''level'') = Some l"
    using ok(4) t level_choice by (fastforce simp: yields_def)
  obtain c where c: "v ''category_id'' = Some (FNum c)" "c = -1 \<or> (\<exists>k\<in>set cats. c = cat_id k)"
    using ok(5) t by (fastforce simp: yields_def form_categories_def)
  have "add_api_form_values v = Some \<lparr>av_name = text_of (v ''name''), av_method = m, av_path = text_of (v ''path''),
      av_description = map_option (\<lambda>d. text_of (Some d)) (v ''description''), av_level = Some l, av_category_id = c\<rparr>"
    by (simp only: add_api_form_values_def m(2) l(2) c(1) prod.case option.case form_value.case)
  then show "\<exists>values. add_api_form_values v = Some values \<and>
        (let d = add_api_data iterationId values in
          aa_name d \<noteq> [] \<and> prefix ''/'' (aa_path d) \<and> v ''method'' = Some (FText (method_str (aa_method d))) \<and>
          v ''level'' = Some (FText (level_str (aa_level d))) \<and>
          (aa_category_id d = None \<or> (\<exists>c\<in>set cats. aa_category_id d = Some (cat_id c))))"
    using ok(1,2) c(2) m(1) l(1) by (auto simp: add_api_data_def Let_def path_match_def)
next
  assume "v = (initial_values (AddApiForm cats))(''name'' \<mapsto> FText n, ''path'' \<mapsto> FText (''/'' @ r))" "n \<noteq> []"
  then show "validate (AddApiForm cats) v"
    unfolding verdicts(6) [OF assms(2,1)] add_api_accepts [OF assms(2)]
    by (simp add: initial_values_def AddApiForm_def field_item_def path_match_def)
qed

definition demo_new_api :: form_data where
  "demo_new_api = (initial_values (AddApiForm [demo_cat 4]))(''name'' \<mapsto> FText ''list'', ''path'' \<mapsto> FText (''/'' @ ''list''))"

lemma demo_new_api_typed: "typed (AddApiForm [demo_cat 4]) demo_new_api"
  by (simp add: typed_def AddApiForm_def field_item_def demo_new_api_def yields_def initial_values_def
      method_options_def HTTP_METHODS_def level_options_def form_categories_def)

theorem add_api_form_sent_witness:
  "form_accepts (AddApiForm [demo_cat 4]) demo_new_api \<and> (\<exists>values. add_api_form_values demo_new_api = Some values)"
  using add_api_form_sent [OF demo_library demo_new_api_typed, of 1 "''list''" "''list''"]
  unfolding demo_new_api_def [symmetric] by simp blast

text \<open>
  The form for a new API and the editor agree: values of a new API whose name and description fit
  the editor's limits of 50 and 200 characters are accepted by the editor when the form accepts them, and values the editor accepts are
  accepted by the form once a category is chosen.
\<close>

theorem api_forms_agree:
  assumes "form_library validate" "typed (AddApiForm cats) v"
    "length (text_of (v ''name'')) \<le> 50" "length (text_of (v ''description'')) \<le> 200"
  shows "typed BriefInfoEdit v \<and>
    (validate (AddApiForm cats) v \<longleftrightarrow> validate BriefInfoEdit v \<and> v ''category_id'' \<noteq> None)"
proof -
  have t: "typed BriefInfoEdit v"
    using assms(2-4) by (simp add: typed_def AddApiForm_def BriefInfoEdit_def field_item_def yields_textual)
  show ?thesis
    unfolding verdicts(6) [OF assms(2,1)] verdicts(7) [OF t assms(1)] add_api_accepts [OF assms(2)] brief_accepts [OF t]
    using t by blast
qed

theorem api_forms_agree_witness: "form_accepts BriefInfoEdit demo_new_api"
proof -
  have "length (text_of (demo_new_api ''name'')) \<le> 50" "length (text_of (demo_new_api ''description'')) \<le> 200"
    by (simp_all add: demo_new_api_def initial_values_def AddApiForm_def field_item_def)
  moreover have "form_accepts (AddApiForm [demo_cat 4]) demo_new_api"
    unfolding add_api_accepts [OF demo_new_api_typed]
    by (simp add: demo_new_api_def initial_values_def AddApiForm_def field_item_def path_match_def)
  ultimately show ?thesis using api_forms_agree [OF demo_library demo_new_api_typed] by blast
qed

text \<open>Without the limit they differ: a name of 51 characters can be given to a new API, and the editor would not have let it be typed.\<close>

lemma long_name_created:
  assumes "length n = 51" "v = (initial_values (AddApiForm cats))(''name'' \<mapsto> FText n, ''path'' \<mapsto> FText ''/a'')"
  shows "typed (AddApiForm cats) v \<and> form_accepts (AddApiForm cats) v \<and> \<not> typed BriefInfoEdit v"
proof -
  have t: "typed (AddApiForm cats) v"
    unfolding assms(2) by (simp add: typed_def AddApiForm_def field_item_def yields_def initial_values_def
        method_options_def HTTP_METHODS_def level_options_def form_categories_def)
  moreover have "n \<noteq> []" using assms(1) by auto
  then have "form_accepts (AddApiForm cats) v"
    unfolding add_api_accepts [OF t] unfolding assms(2) by (simp add: initial_values_def AddApiForm_def field_item_def path_match_def)
  moreover have "\<not> typed BriefInfoEdit v"
    using assms(1) unfolding assms(2) by (simp add: typed_def BriefInfoEdit_def field_item_def yields_def)
  ultimately show ?thesis by blast
qed

end
