(* ===== verification/Fe_Header.thy ===== *)
theory Fe_Header
  imports Fe_This_Service "HOL-Library.Multiset"
begin

text \<open>
  The header of the API page, \<open>FE-CAM/src/components/ApiManagement/Header.tsx\<close>: the maintainers of a service,
  the options of the search box and the members grouped by role.  The answers of the server are arguments.
\<close>

section \<open>Model\<close>

record header_state =
  hd_maintainers :: "UserProfile list"
  hd_options :: "UserProfile list"
  hd_switchLoading :: bool

text \<open>
  A search: the users found become the options; every one of them that the server calls a maintainer is
  appended to the list of maintainers.
\<close>

definition getMaintainerOptions :: "(string \<Rightarrow> UserProfile list) \<Rightarrow> (int \<Rightarrow> bool) \<Rightarrow> string \<Rightarrow> header_state \<Rightarrow> header_state" where
  "getMaintainerOptions findUsers isMaintainer inputValue st =
     (if length inputValue < 2 then st\<lparr>hd_options := []\<rparr>
      else (let res = findUsers inputValue;
                st1 = st\<lparr>hd_options := res\<rparr>
            in foldl (\<lambda>st user. if isMaintainer (u_id user)
                 then st\<lparr>hd_maintainers := hd_maintainers st @ [user]\<rparr> else st) st1 res))"

text \<open>The options offered: a \<open>Map\<close> from user ids, the maintainers first.\<close>

definition maintainer_options :: "header_state \<Rightarrow> UserProfile list" where
  "maintainer_options st =
     (let m = foldl (\<lambda>m u. map_set (u_id u) u m) [] (hd_maintainers st)
      in map snd (foldl (\<lambda>m u. if map_of m (u_id u) = None then map_set (u_id u) u m else m) m (hd_options st)))"

definition handleAddOrRemoveServiceMaintainer :: "bool \<Rightarrow> UserProfile \<Rightarrow> header_state \<Rightarrow> header_state" where
  "handleAddOrRemoveServiceMaintainer isCurrentMaintainer maintainer st0 =
     (let st = st0\<lparr>hd_switchLoading := True\<rparr>;
          st1 = (if isCurrentMaintainer then st\<lparr>hd_maintainers := hd_maintainers st @ [maintainer]\<rparr>
                 else st\<lparr>hd_maintainers := filter (\<lambda>i. u_id i \<noteq> u_id maintainer) (hd_maintainers st)\<rparr>)
      in st1\<lparr>hd_switchLoading := False\<rparr>)"

text \<open>The members by role, an object whose keys are roles; roles are not numerals.\<close>

definition serviceMembersByRole :: "UserProfile \<Rightarrow> header_state \<Rightarrow> UserProfile list js_obj" where
  "serviceMembersByRole personInCharge st =
     foldl (\<lambda>acc user.
         let acc1 = (if map_of acc (u_role user) = None then obj_put (u_role user) [] acc else acc)
         in map (\<lambda>(r, us). (r, if r = u_role user then us @ [user] else us)) acc1)
       [] (personInCharge # hd_maintainers st)"

definition isServiceOwnerOrIsL0 :: "UserProfile \<Rightarrow> UserProfile option \<Rightarrow> bool" where
  "isServiceOwnerOrIsL0 personInCharge user \<longleftrightarrow>
     (case user of None \<Rightarrow> False | Some u \<Rightarrow> u_id personInCharge = u_id u \<or> u_level u = 0)"

text \<open>
  The choice of maintainers: the new selection differs from the current one by at most one user.  An id
  that is \<open>0\<close> counts as none.
\<close>

definition truthy_id :: "int option \<Rightarrow> bool" where
  "truthy_id i \<longleftrightarrow> i \<noteq> None \<and> i \<noteq> Some 0"

definition pick_maintainer :: "int list \<Rightarrow> header_state \<Rightarrow> UserProfile option" where
  "pick_maintainer newIds st =
     (let currentIds = map u_id (hd_maintainers st);
          addedId = List.find (\<lambda>i. i \<notin> set currentIds) newIds;
          removedId = List.find (\<lambda>i. i \<notin> set newIds) currentIds
      in if truthy_id addedId then List.find (\<lambda>u. Some (u_id u) = addedId) (hd_options st)
         else if truthy_id removedId then List.find (\<lambda>u. Some (u_id u) = removedId) (hd_maintainers st)
         else None)"

text \<open>The change itself; \<open>answer\<close> is what the server says to the request for a user.\<close>

definition change_maintainers ::
    "(int \<Rightarrow> string + maintainer_response) \<Rightarrow> int list \<Rightarrow> header_state \<times> service_state \<Rightarrow> header_state \<times> service_state" where
  "change_maintainers answer newIds p =
     (case p of (st, ts) \<Rightarrow>
        if hd_switchLoading st then (st, ts)
        else case pick_maintainer newIds st of
          None \<Rightarrow> (st, ts)
        | Some m \<Rightarrow>
            (case handleAddOrRemoveServiceMaintainerById (answer (u_id m)) ts of
               (isCurrentMaintainer, ts') \<Rightarrow> (handleAddOrRemoveServiceMaintainer isCurrentMaintainer m st, ts')))"

text \<open>What of the maintainers is drawn: the avatars, and the box that changes them.\<close>

definition maintainers_shown :: "bool \<Rightarrow> bool \<Rightarrow> header_state \<Rightarrow> bool \<times> bool" where
  "maintainers_shown isOwnerOrL0 isLatest st =
     (let shown = (hd_maintainers st \<noteq> [] \<or> isOwnerOrL0) \<and> isLatest in (shown, shown \<and> isOwnerOrL0))"

text \<open>The download of the OpenAPI document: its file name and content, and the state of the button afterwards.\<close>

definition exportAndDownloadOpenAPI ::
    "string \<Rightarrow> string + export_response \<Rightarrow> service_state \<Rightarrow> (string \<times> jval) option \<times> bool \<times> service_state" where
  "exportAndDownloadOpenAPI uuid answer ts =
     (case handleExportOpenAPI answer ts of
        (Some obj, ts') \<Rightarrow> (Some (uuid @ ''.json'', obj), False, ts')
      | (None, ts') \<Rightarrow> (None, False, ts'))"

section \<open>Members by role\<close>

definition push_member :: "UserProfile list js_obj \<Rightarrow> UserProfile \<Rightarrow> UserProfile list js_obj" where
  "push_member acc user =
     (let acc1 = (if map_of acc (u_role user) = None then obj_put (u_role user) [] acc else acc)
      in map (\<lambda>(r, us). (r, if r = u_role user then us @ [user] else us)) acc1)"

lemma serviceMembersByRole_push: "serviceMembersByRole o' st = foldl push_member [] (o' # hd_maintainers st)"
  by (simp only: serviceMembersByRole_def push_member_def [abs_def])

definition by_role :: "UserProfile list \<Rightarrow> UserProfile list js_obj \<Rightarrow> bool" where
  "by_role us acc \<longleftrightarrow> distinct_keys acc \<and> (\<forall>r. map_of acc r = (let m = filter (\<lambda>u. u_role u = r) us in if m = [] then None else Some m))"

lemma map_of_mapped: "map_of (map (\<lambda>(r, us). (r, f r us)) acc) k = map_option (f k) (map_of acc k)"
  by (induction acc) auto

lemma keys_mapped: "obj_keys (map (\<lambda>(r, us). (r, f r us)) acc) = obj_keys acc"
  by (simp add: comp_def case_prod_beta)

lemma distinct_keys_obj_put: "distinct_keys d \<Longrightarrow> distinct_keys (obj_put k v d)"
  by (simp add: obj_put_def distinct_keys_def distinct_obj_insert keys_map_set del: set_map)

lemma by_role_push: "by_role us acc \<Longrightarrow> by_role (us @ [u]) (push_member acc u)"
proof -
  assume a: "by_role us acc"
  let ?acc1 = "if map_of acc (u_role u) = None then obj_put (u_role u) [] acc else acc"
  have d: "distinct_keys ?acc1"
    using a by (simp add: by_role_def distinct_keys_obj_put)
  have "map_of (push_member acc u) r = (let m = filter (\<lambda>x. u_role x = r) (us @ [u]) in if m = [] then None else Some m)" for r
    using a by (auto simp: push_member_def Let_def map_of_mapped by_role_def split: if_splits)
  moreover have "distinct_keys (push_member acc u)"
    using d unfolding push_member_def Let_def distinct_keys_def keys_mapped .
  ultimately show ?thesis by (simp add: by_role_def)
qed

lemma by_role_all: "by_role us (foldl push_member [] us)"
  by (induction us rule: rev_induct) (simp_all add: by_role_push, simp add: by_role_def distinct_keys_def)

text \<open>
  The popover lists every member of the service, the person in charge included, under the role they
  have and under no other, in the order of the maintainers, with no empty role.
\<close>

theorem members_by_role:
  "distinct_keys (serviceMembersByRole p st) \<and>
   map_of (serviceMembersByRole p st) r =
     (let m = filter (\<lambda>u. u_role u = r) (p # hd_maintainers st) in if m = [] then None else Some m)"
  using by_role_all [of "p # hd_maintainers st"] unfolding serviceMembersByRole_push by_role_def by blast

section \<open>The search box\<close>

lemma getMaintainerOptions_adds:
  "length q \<ge> 2 \<Longrightarrow> hd_maintainers (getMaintainerOptions f c q st) = hd_maintainers st @ filter (\<lambda>u. c (u_id u)) (f q)"
proof -
  have "hd_maintainers (foldl (\<lambda>st user. if c (u_id user) then st\<lparr>hd_maintainers := hd_maintainers st @ [user]\<rparr> else st) s us) =
      hd_maintainers s @ filter (\<lambda>u. c (u_id u)) us" for s :: header_state and us
    by (induction us arbitrary: s) auto
  then show "length q \<ge> 2 \<Longrightarrow> ?thesis" by (simp add: getMaintainerOptions_def Let_def)
qed

text \<open>A maintainer who is found by a search is listed once more after it.\<close>

lemma search_duplicates_maintainer:
  assumes "length q \<ge> 2" "u \<in> set (hd_maintainers st)" "u \<in> set (f q)" "c (u_id u)"
  shows "\<not> distinct (hd_maintainers (getMaintainerOptions f c q st))"
  using assms by (auto simp: getMaintainerOptions_adds)

section \<open>Changing the maintainers\<close>

text \<open>A server that keeps the set of maintainers and toggles the user it is asked to change.\<close>

definition toggling :: "int set \<Rightarrow> (int \<Rightarrow> string + maintainer_response) \<Rightarrow> bool" where
  "toggling S answer \<longleftrightarrow>
     (\<forall>i. \<exists>res. answer i = Inr res \<and> status res = 200 \<and> mr_is_current_maintainer res = (i \<notin> S))"

lemma toggled_at:
  assumes "set (map u_id (hd_maintainers st)) = S" "\<not> hd_switchLoading st" "pick_maintainer newIds st = Some m"
    and "answer (u_id m) = Inr res" "status res = 200" "mr_is_current_maintainer res = (u_id m \<notin> S)"
  shows "set (map u_id (hd_maintainers (fst (change_maintainers answer newIds (st, ts))))) =
      (if u_id m \<in> S then S - {u_id m} else insert (u_id m) S) \<and>
    \<not> hd_switchLoading (fst (change_maintainers answer newIds (st, ts)))"
proof -
  have "fst (change_maintainers answer newIds (st, ts)) = handleAddOrRemoveServiceMaintainer (u_id m \<notin> S) m st"
    using assms(2-) by (simp add: change_maintainers_def handleAddOrRemoveServiceMaintainerById_def)
  then show ?thesis using assms(1) by (auto simp: handleAddOrRemoveServiceMaintainer_def Let_def)
qed

lemma toggled:
  assumes "set (map u_id (hd_maintainers st)) = S" "toggling S answer" "\<not> hd_switchLoading st" "pick_maintainer newIds st = Some m"
  shows "set (map u_id (hd_maintainers (fst (change_maintainers answer newIds (st, ts))))) =
      (if u_id m \<in> S then S - {u_id m} else insert (u_id m) S) \<and>
    \<not> hd_switchLoading (fst (change_maintainers answer newIds (st, ts)))"
  using toggled_at [OF assms(1,3,4)] assms(2) unfolding toggling_def by blast

lemma find_first: "k \<in> set xs \<Longrightarrow> (\<And>x. x \<in> set xs \<Longrightarrow> P x \<Longrightarrow> x = k) \<Longrightarrow> P k \<Longrightarrow> List.find P xs = Some k"
proof (induction xs)
  case (Cons x xs)
  show ?case
  proof (cases "P x")
    case True
    then show ?thesis using Cons.prems(2) [of x] by simp
  next
    case False
    then have "k \<in> set xs" using Cons.prems(1,3) by auto
    then have "List.find P xs = Some k" using Cons.prems(2,3) by (intro Cons.IH) simp_all
    then show ?thesis using False by simp
  qed
qed simp

lemma find_none: "(\<And>x. x \<in> set xs \<Longrightarrow> \<not> P x) \<Longrightarrow> List.find P xs = None"
  by (simp add: find_None_iff)

lemma find_id: "k \<in> set (map u_id us) \<Longrightarrow> \<exists>u. List.find (\<lambda>u. Some (u_id u) = Some k) us = Some u \<and> u_id u = k"
  by (induction us) auto

lemma pick_added:
  assumes "newIds = map u_id (hd_maintainers st) @ [k]" "k \<notin> set (map u_id (hd_maintainers st))" "k \<noteq> 0" "k \<in> set (map u_id (hd_options st))"
  shows "\<exists>m. pick_maintainer newIds st = Some m \<and> u_id m = k"
proof -
  have "List.find (\<lambda>i. i \<notin> set (map u_id (hd_maintainers st))) newIds = Some k"
    by (rule find_first) (use assms(1,2) in auto)
  then show ?thesis using find_id [OF assms(4)] assms(3) by (simp add: pick_maintainer_def Let_def truthy_id_def)
qed

lemma pick_removed:
  assumes "newIds = filter (\<lambda>i. i \<noteq> k) (map u_id (hd_maintainers st))" "k \<in> set (map u_id (hd_maintainers st))" "k \<noteq> 0"
  shows "\<exists>m. pick_maintainer newIds st = Some m \<and> u_id m = k"
proof -
  have "List.find (\<lambda>i. i \<notin> set (map u_id (hd_maintainers st))) newIds = None" using assms(1) by (intro find_none) auto
  moreover have "List.find (\<lambda>i. i \<notin> set newIds) (map u_id (hd_maintainers st)) = Some k"
    by (rule find_first) (use assms(1,2) in auto)
  ultimately show ?thesis using find_id [OF assms(2)] assms(3) by (simp add: pick_maintainer_def Let_def truthy_id_def)
qed

text \<open>
  When the server accepts the changes, selecting a user who was found adds exactly that maintainer
  and deselecting one removes exactly that one, so that the list shown, the selection and the set the
  server keeps agree, and the box can be used again.
\<close>

theorem maintainers_follow_selection:
  assumes "set (map u_id (hd_maintainers st)) = S" "toggling S answer" "\<not> hd_switchLoading st" "k \<noteq> 0"
    "(k \<in> S \<and> newIds = filter (\<lambda>i. i \<noteq> k) (map u_id (hd_maintainers st))) \<or>
     (k \<notin> S \<and> newIds = map u_id (hd_maintainers st) @ [k] \<and> k \<in> set (map u_id (hd_options st)))"
  shows "(let st' = fst (change_maintainers answer newIds (st, ts)) in
    set (map u_id (hd_maintainers st')) = set newIds \<and> set newIds = (if k \<in> S then S - {k} else insert k S) \<and>
    \<not> hd_switchLoading st')"
proof -
  obtain m where m: "pick_maintainer newIds st = Some m" "u_id m = k"
    using assms(1,4,5) pick_added [of newIds st k] pick_removed [of newIds k st] by blast
  have "set newIds = (if k \<in> S then S - {k} else insert k S)" using assms(1,5) by auto
  then show ?thesis using toggled [OF assms(1,2,3) m(1), of ts] m(2) by (simp add: Let_def)
qed

definition demo_user :: "int \<Rightarrow> UserProfile" where
  "demo_user i = \<lparr>u_id = i, u_username = ''u'', u_nickname = ''n'', u_email = ''e'', u_role = ''qa'', u_level = 1, u_created_at = []\<rparr>"

definition demo_header :: header_state where
  "demo_header = \<lparr>hd_maintainers = [demo_user 1, demo_user 2], hd_options = [demo_user 3], hd_switchLoading = False\<rparr>"

definition demo_toggle :: "int \<Rightarrow> string + maintainer_response" where
  "demo_toggle i = Inr \<lparr>status = 200, message = [], mr_is_current_maintainer = (i \<notin> {1, 2})\<rparr>"

theorem maintainers_follow_selection_witness:
  "set (map u_id (hd_maintainers (fst (change_maintainers demo_toggle [1, 2, 3] (demo_header, empty_service))))) = {1, 2, 3}"
proof -
  have 1: "set (map u_id (hd_maintainers demo_header)) = {1, 2}" "toggling {1, 2} demo_toggle" "\<not> hd_switchLoading demo_header" "(3::int) \<noteq> 0"
    by (simp_all add: demo_header_def demo_user_def toggling_def demo_toggle_def)
  have 2: "((3::int) \<in> {1, 2} \<and> [1, 2, 3] = filter (\<lambda>i. i \<noteq> 3) (map u_id (hd_maintainers demo_header))) \<or>
      ((3::int) \<notin> {1, 2} \<and> [1, 2, 3] = map u_id (hd_maintainers demo_header) @ [3] \<and> 3 \<in> set (map u_id (hd_options demo_header)))"
    by (simp add: demo_header_def demo_user_def)
  show ?thesis using maintainers_follow_selection [OF 1 2, of empty_service] by (simp add: Let_def)
qed

text \<open>
  A removal that fails still takes the maintainer off the list: the failure is answered like a user who
  is not a maintainer any more.
\<close>

lemma failed_removal_drops:
  assumes "pick_maintainer newIds st = Some m" "\<not> hd_switchLoading st" "answer (u_id m) = Inl e"
  shows "hd_maintainers (fst (change_maintainers answer newIds (st, ts))) = filter (\<lambda>i. u_id i \<noteq> u_id m) (hd_maintainers st)"
  using assms by (simp add: change_maintainers_def handleAddOrRemoveServiceMaintainerById_def handleAddOrRemoveServiceMaintainer_def Let_def)

end
