(* ===== verification/Fe_Page.thy ===== *)
theory Fe_Page
  imports Fe_Views Fe_Iteration Fe_Header
begin

text \<open>
  The API page as a whole: which parts of it are shown and which operations they offer
  (\<open>components/ApiManagement/index.tsx\<close>, the toolbar of \<open>ApiList/index.tsx\<close>, the frame of \<open>Header.tsx\<close>), the
  editor of a draft while it is saved (\<open>ApiEdit/index.tsx\<close>, \<open>RequestParamsEdit.tsx\<close>), and the frame around
  every page (\<open>components/Layout\<close>, \<open>components/User/Profile.tsx\<close>).
\<close>

section \<open>The parts of the page\<close>

text \<open>The operations a user can start from the page.\<close>

datatype page_op =
  OpCompleteIteration | OpAddApi | OpStartIteration | OpAddCategory | OpDeleteCategory "int option" | OpMoveApi |
  OpSave | OpCopyApi int | OpDeleteApi int | OpSetVersion | OpExitIteration | OpExport | OpMaintainers

text \<open>The buttons above the list of APIs: during an iteration, for the latest version, and otherwise none.\<close>

definition list_toolbar :: "bool \<Rightarrow> bool \<Rightarrow> page_op list" where
  "list_toolbar inIteration isLatest =
     (if inIteration then [OpCompleteIteration, OpAddApi]
      else if isLatest then [OpStartIteration, OpAddCategory] else [])"

text \<open>The button that deletes a category: \<open>Number(key.replace("category-", ""))\<close>, \<open>None\<close> for \<open>NaN\<close>.\<close>

definition delete_button :: "tree_group \<Rightarrow> page_op list" where
  "delete_button g =
     (if category_deletable g then [OpDeleteCategory (js_Number (js_replace (tg_key g) CATEGORY_PREFIX []))] else [])"

definition api_list_ops :: "bool \<Rightarrow> bool \<Rightarrow> tree_group list \<Rightarrow> page_op list" where
  "api_list_ops inIteration isLatest tree =
     (if tree = [] then []
      else list_toolbar inIteration isLatest @ (if \<not> inIteration \<and> isLatest then [OpMoveApi] else []) @ concat (map delete_button tree))"

text \<open>The editor: a blank page without an API; the save button is disabled unless there is something to save.\<close>

definition api_edit_ops :: "edit_state \<Rightarrow> ApiDetail option \<Rightarrow> page_op list" where
  "api_edit_ops es apiDetail =
     (case apiDetail of
        None \<Rightarrow> []
      | Some d \<Rightarrow> (if es_isDraft es \<and> \<not> es_rejectSubmit es then [OpSave] else []) @ [OpCopyApi (ab_id d), OpDeleteApi (ab_id d)])"

definition save_label :: "edit_state \<Rightarrow> string" where
  "save_label es = (if es_isDraft es then ''save the API'' else ''the API is saved'')"

text \<open>The bread crumbs: text, address and whether a click leaves the iteration.\<close>

definition breadcrumb :: "bool \<Rightarrow> string \<Rightarrow> (string \<times> string option \<times> bool) list" where
  "breadcrumb inIteration uuid =
     [(''services'', Some ''/'', False),
      (''service'', if inIteration then Some (''/service?uuid='' @ uuid) else None, inIteration)] @
     (if inIteration then [(''iteration'', None, False)] else [])"

text \<open>
  Who gets the selector of maintainers: \<open>personInCharge.id === user?.id || user?.level === 0\<close>, where the person in charge is
  \<open>{}\<close> when the details name none.
\<close>

definition may_charge :: "UserProfile option \<Rightarrow> UserProfile option \<Rightarrow> bool" where
  "may_charge person user \<longleftrightarrow>
     (case person of Some p \<Rightarrow> isServiceOwnerOrIsL0 p user | None \<Rightarrow> (case user of None \<Rightarrow> True | Some u \<Rightarrow> u_level u = 0))"

definition header_ops :: "bool \<Rightarrow> string \<Rightarrow> bool \<Rightarrow> bool \<Rightarrow> bool \<Rightarrow> page_op list" where
  "header_ops loading uuid inIteration isLatest charge =
     (if loading \<or> uuid = [] then []
      else (if inIteration then [OpExitIteration] else []) @ [OpSetVersion] @ (if charge \<and> isLatest then [OpMaintainers] else []) @ [OpExport])"

text \<open>The texts of the header that depend on the version, and the versions offered.\<close>

definition version_tag :: "bool \<Rightarrow> string \<times> string" where
  "version_tag isLatest = (if isLatest then (''green'', ''latest version'') else (''blue'', ''not the latest version''))"

definition charge_label :: "bool \<Rightarrow> string" where
  "charge_label isLatest = (if isLatest then ''service'' else ''version'') @ '' in charge''"

definition version_options :: "service_state \<Rightarrow> string list" where
  "version_options st = map (\<lambda>e. or_str (ve_version e) []) (ts_versions st)"

text \<open>The pop-up with the members: their number, and one row of avatars per role.\<close>

definition members_popup ::
    "(string \<Rightarrow> string) \<Rightarrow> UserProfile \<Rightarrow> header_state \<Rightarrow> nat \<times> (tag \<times> (render_error + avatar list)) list" where
  "members_popup tr p st =
     (length (concat (map snd (serviceMembersByRole p st))),
      map (\<lambda>(role, users). (genUserRoleTag tr role, userAvatar tr (map Some users))) (serviceMembersByRole p st))"

section \<open>The page\<close>

datatype page_content = EditorContent bool | DetailContent bool

record page_view =
  pv_tree :: "tree_group list"
  pv_content :: page_content
  pv_ops :: "page_op list"

text \<open>
  The test \<open>inIteration && iterationDetail\<close>: the detail is an object from the start, \<open>{}\<close> before it is
  loaded and after a failure, and an object counts as true.
\<close>

definition editing :: "service_state \<Rightarrow> bool" where
  "editing st \<longleftrightarrow> ts_inIteration st"

text \<open>\<open>None\<close> is the page with the spinner only.\<close>

definition ApiManagement :: "UserProfile option \<Rightarrow> service_state \<Rightarrow> iteration_state \<Rightarrow> api_hook \<Rightarrow> edit_state \<Rightarrow> page_view option" where
  "ApiManagement user st it ah es =
     (let ownTree = treeData (ts_apiCategories st) (ts_apis st);
          uuid = serviceUuid (ts_detail st);
          tree = (if editing st then iterationTreeData (ts_apiCategories st) (is_apiDrafts it) else ownTree)
      in if isLoading (ts_loading st) (ts_detail st) ownTree then None
         else Some \<lparr>pv_tree = tree,
           pv_content = (if editing st then EditorContent (is_loading it \<or> ah_loading ah) else DetailContent (ah_loading ah)),
           pv_ops = header_ops (ts_loading st) uuid (ts_inIteration st) (ts_isLatest st) (may_charge (personInCharge (ts_detail st)) user) @ api_list_ops (ts_inIteration st) (ts_isLatest st) tree @
             (if editing st then api_edit_ops es (ah_detail ah) else [])\<rparr>)"

section \<open>The editor while it saves\<close>

text \<open>
  \<open>handleSubmit\<close> in its two halves: up to the call that saves, and from its answer on.
\<close>

definition submit_click :: "int \<Rightarrow> form_values option \<Rightarrow> edit_state \<Rightarrow> edit_state \<times> update_request option" where
  "submit_click apiId validated st =
     (if es_rejectSubmit st then (st, None)
      else case validated of None \<Rightarrow> (st, None)
      | Some values \<Rightarrow>
          (let st1 = st\<lparr>es_editLoading := True\<rparr> in
           case check_submit apiId values of
             Inl w \<Rightarrow> (st1\<lparr>es_messages := es_messages st1 @ [SubmitWarning w], es_editLoading := False\<rparr>, None)
           | Inr data \<Rightarrow> (st1, Some data)))"

definition submit_answer :: "string option + string \<Rightarrow> edit_state \<Rightarrow> edit_state" where
  "submit_answer answer st =
     (case answer of
        Inr msg \<Rightarrow> st\<lparr>es_isDraft := False, es_messages := es_messages st @ [SaveSuccess msg], es_editLoading := False\<rparr>
      | Inl err \<Rightarrow> st\<lparr>es_messages := es_messages st @ [SaveError err], es_editLoading := False\<rparr>)"

lemma handleSubmit_halves:
  "handleSubmit apiId validated save st =
     (case submit_click apiId validated st of (st', None) \<Rightarrow> st' | (st', Some d) \<Rightarrow> submit_answer (save d) st')"
  by (auto simp: handleSubmit_def submit_click_def submit_answer_def Let_def split: option.splits sum.splits)

text \<open>
  The editor: the draft it shows, the values in the form, the values the server has of this draft, the
  flags, and the draft and values being saved.  The effect runs when another API is shown, the component
  stays and so does a save under way; a button that is loading takes no clicks.
\<close>

record editor =
  ed_api :: int
  ed_form :: form_values
  ed_stored :: form_values
  ed_flags :: edit_state
  ed_tab :: string
  ed_saving :: "(int \<times> form_values) option"

definition editor_effect :: "int \<Rightarrow> form_values \<Rightarrow> string \<Rightarrow> editor \<Rightarrow> editor" where
  "editor_effect apiId values tab e =
     e\<lparr>ed_api := apiId, ed_form := values, ed_stored := values, ed_flags := (ed_flags e)\<lparr>es_isDraft := False\<rparr>, ed_tab := tab\<rparr>"

definition onValuesChange :: "form_values \<Rightarrow> editor \<Rightarrow> editor" where
  "onValuesChange values e = e\<lparr>ed_form := values, ed_flags := (ed_flags e)\<lparr>es_isDraft := True\<rparr>\<rparr>"

definition click_save :: "bool \<Rightarrow> editor \<Rightarrow> editor" where
  "click_save valid e =
     (if \<not> es_isDraft (ed_flags e) \<or> es_rejectSubmit (ed_flags e) \<or> es_editLoading (ed_flags e) then e
      else case submit_click (ed_api e) (if valid then Some (ed_form e) else None) (ed_flags e) of
        (fl, None) \<Rightarrow> e\<lparr>ed_flags := fl\<rparr>
      | (fl, Some _) \<Rightarrow> e\<lparr>ed_flags := fl, ed_saving := Some (ed_api e, ed_form e)\<rparr>)"

definition save_answered :: "string option + string \<Rightarrow> editor \<Rightarrow> editor" where
  "save_answered answer e =
     (case ed_saving e of None \<Rightarrow> e
      | Some (i, values) \<Rightarrow>
          e\<lparr>ed_flags := submit_answer answer (ed_flags e), ed_saving := None,
            ed_stored := (case answer of Inr _ \<Rightarrow> if i = ed_api e then values else ed_stored e | Inl _ \<Rightarrow> ed_stored e)\<rparr>)"

text \<open>Which of the tables of request parameters is visible.\<close>

definition visible_request_tables :: "editor \<Rightarrow> string list" where
  "visible_request_tables e = filter (\<lambda>k. ed_tab e = k) edit_tabs"

text \<open>
  Runs of the editor.  With \<open>patient\<close> the user neither types nor goes to another API while a save is under way.
\<close>

inductive editor_step :: "bool \<Rightarrow> editor \<Rightarrow> editor \<Rightarrow> bool" for patient :: bool where
  typed_in: "patient \<longrightarrow> ed_saving e = None \<Longrightarrow> editor_step patient e (onValuesChange values e)"
| save_clicked: "editor_step patient e (click_save valid e)"
| answered: "editor_step patient e (save_answered answer e)"
| table_checked: "editor_step patient e (e\<lparr>ed_flags := (ed_flags e)\<lparr>es_rejectSubmit := reject\<rparr>\<rparr>)"
| tab_chosen: "k \<in> set edit_tabs \<Longrightarrow> editor_step patient e (e\<lparr>ed_tab := k\<rparr>)"
| other_shown: "patient \<longrightarrow> ed_saving e = None \<Longrightarrow> getFirstTabWithValue api = Inr tab \<Longrightarrow>
    editor_step patient e (editor_effect (ab_id api) values tab e)"

definition idle_flags :: edit_state where
  "idle_flags = \<lparr>es_editLoading = False, es_isDraft = False, es_rejectSubmit = False, es_messages = []\<rparr>"

inductive editor_reachable :: "bool \<Rightarrow> ApiDetail \<Rightarrow> form_values \<Rightarrow> editor \<Rightarrow> bool"
  for patient :: bool and api :: ApiDetail and vals :: form_values where
  opened: "getFirstTabWithValue api = Inr tab \<Longrightarrow>
     editor_reachable patient api vals
       (editor_effect (ab_id api) vals tab \<lparr>ed_api = 0, ed_form = vals, ed_stored = vals, ed_flags = idle_flags, ed_tab = ''query'', ed_saving = None\<rparr>)"
| moved: "editor_reachable patient api vals e \<Longrightarrow> editor_step patient e e' \<Longrightarrow> editor_reachable patient api vals e'"

section \<open>What the editor shows\<close>

lemma first_tab_known: "first_tab d ks = Inr k \<Longrightarrow> k = ''query'' \<or> k \<in> set ks"
  by (induction ks) (auto split: option.splits if_splits)

lemma getFirstTab_known: "getFirstTabWithValue api = Inr k \<Longrightarrow> k \<in> set edit_tabs"
  using first_tab_known [of _ edit_tabs k] by (auto simp: getFirstTabWithValue_def edit_tabs_def split: option.splits)

lemma submit_click_cases:
  "submit_click apiId v st = (st', Some d) \<Longrightarrow> st' = st\<lparr>es_editLoading := True\<rparr>"
  "submit_click apiId v st = (st', None) \<Longrightarrow> es_isDraft st' = es_isDraft st \<and> (\<not> es_editLoading st \<longrightarrow> \<not> es_editLoading st')"
  by (auto simp: submit_click_def Let_def split: if_splits option.splits sum.splits)

definition editor_inv :: "editor \<Rightarrow> bool" where
  "editor_inv e \<longleftrightarrow>
     (es_editLoading (ed_flags e) \<longleftrightarrow> ed_saving e \<noteq> None) \<and> ed_tab e \<in> set edit_tabs"

definition clean_inv :: "editor \<Rightarrow> bool" where
  "clean_inv e \<longleftrightarrow>
     (\<not> es_isDraft (ed_flags e) \<longrightarrow> ed_form e = ed_stored e \<and> ed_saving e = None) \<and>
     (\<forall>v. ed_saving e = Some v \<longrightarrow> v = (ed_api e, ed_form e))"

lemma click_save_api [simp]: "ed_api (click_save v e) = ed_api e"
  by (simp add: click_save_def split: prod.split option.split)

lemma editor_step_inv:
  assumes "editor_step patient e e'" "editor_inv e"
  shows "editor_inv e'"
  using assms
proof (cases rule: editor_step.cases)
  case (save_clicked valid)
  show ?thesis
    using assms(2) unfolding save_clicked click_save_def editor_inv_def
    by (auto split: prod.splits option.splits dest: submit_click_cases)
qed (use getFirstTab_known in \<open>auto simp: editor_inv_def onValuesChange_def save_answered_def submit_answer_def editor_effect_def split: option.splits sum.splits\<close>)

lemma editor_step_clean:
  assumes "editor_step True e e'" "clean_inv e"
  shows "clean_inv e'"
  using assms
proof (cases rule: editor_step.cases)
  case (save_clicked valid)
  show ?thesis
    using assms(2) unfolding save_clicked click_save_def clean_inv_def
    by (auto split: prod.splits option.splits dest: submit_click_cases)
qed (auto simp: clean_inv_def onValuesChange_def save_answered_def submit_answer_def editor_effect_def split: option.splits sum.splits)

lemma editor_opened:
  assumes "getFirstTabWithValue api = Inr tab"
  shows "editor_inv (editor_effect i vals tab \<lparr>ed_api = j, ed_form = vals, ed_stored = vals, ed_flags = idle_flags, ed_tab = t, ed_saving = None\<rparr>)"
    "clean_inv (editor_effect i vals tab \<lparr>ed_api = j, ed_form = vals, ed_stored = vals, ed_flags = idle_flags, ed_tab = t, ed_saving = None\<rparr>)"
  using getFirstTab_known [OF assms] by (simp_all add: editor_inv_def clean_inv_def editor_effect_def idle_flags_def)

lemma editor_reachable_inv: "editor_reachable patient api vals e \<Longrightarrow> editor_inv e"
  by (induction rule: editor_reachable.induct) (simp_all add: editor_opened editor_step_inv)

lemma editor_reachable_clean: "editor_reachable True api vals e \<Longrightarrow> clean_inv e"
  by (induction rule: editor_reachable.induct) (simp_all add: editor_opened editor_step_clean)

lemma reach_saved: "editor_reachable p api vals e \<Longrightarrow> editor_reachable p api vals (click_save valid e)"
  by (erule moved) (rule save_clicked)

lemma reach_answered: "editor_reachable p api vals e \<Longrightarrow> editor_reachable p api vals (save_answered a e)"
  by (erule moved) (rule answered)

lemma reach_typed: "editor_reachable p api vals e \<Longrightarrow> p \<longrightarrow> ed_saving e = None \<Longrightarrow> editor_reachable p api vals (onValuesChange v e)"
  by (erule moved) (rule typed_in)

text \<open>
  C27: Whatever is typed, checked, saved and answered and whichever APIs are shown, in any order: exactly one table of request
  parameters is visible, the save button shows that it is busy exactly while a save is under way, and,
  as long as nothing is typed and no other API is shown during a save, the editor says that the API is saved only when the form holds what the server has.
\<close>

theorem editor_tells_truth:
  assumes "editor_reachable patient api vals e"
  shows "visible_request_tables e = [ed_tab e] \<and> (es_editLoading (ed_flags e) \<longleftrightarrow> ed_saving e \<noteq> None) \<and>
    (patient \<longrightarrow> save_label (ed_flags e) = ''the API is saved'' \<longrightarrow> ed_form e = ed_stored e)"
proof -
  have "filter (\<lambda>k. t = k) edit_tabs = [t]" if "t \<in> set edit_tabs" for t
    using that by (auto simp: edit_tabs_def)
  then show ?thesis
    using editor_reachable_inv [OF assms] editor_reachable_clean [of api vals e] assms
    by (auto simp: editor_inv_def clean_inv_def visible_request_tables_def save_label_def split: if_splits)
qed

definition demo_form :: "string \<Rightarrow> form_values" where
  "demo_form n = \<lparr>fv_name = n, fv_method = GET, fv_path = ''/a'', fv_description = None, fv_level = None,
     fv_request_params = None, fv_response_params = None\<rparr>"

definition demo_draft :: ApiDetail where
  "demo_draft = \<lparr>ab_id = 65, ab_name = ''a'', ab_method = GET, ab_path = ''/a'', ab_description = None, ab_level = Some P2,
     ab_is_enabled = Some True, ab_category_id = None, ad_parent = OfIteration 22, ad_owner_id = 2, ad_created_at = None,
     ad_updated_at = None, ad_owner = None, ad_category = None, request_params_by_location = None,
     response_params_by_status_code = None\<rparr>"

definition demo_editor :: editor where
  "demo_editor = save_answered (Inr ''ok'') (click_save True (onValuesChange (demo_form ''b'')
     (editor_effect 65 (demo_form ''a'') ''query''
       \<lparr>ed_api = 0, ed_form = demo_form ''a'', ed_stored = demo_form ''a'', ed_flags = idle_flags, ed_tab = ''query'', ed_saving = None\<rparr>)))"

theorem editor_tells_truth_witness:
  "ed_stored demo_editor = demo_form ''b'' \<and> save_label (ed_flags demo_editor) = ''the API is saved'' \<and> ed_form demo_editor = ed_stored demo_editor"
proof -
  have i: "ab_id demo_draft = 65" by (simp add: demo_draft_def)
  have "getFirstTabWithValue demo_draft = Inr ''query''" by (simp add: getFirstTabWithValue_def demo_draft_def edit_tabs_def)
  then have "editor_reachable True demo_draft (demo_form ''a'') demo_editor"
    unfolding demo_editor_def i [symmetric]
    by (intro reach_saved reach_answered reach_typed opened) (simp_all add: editor_effect_def)
  from editor_tells_truth [OF this] show ?thesis
    by (simp add: demo_editor_def save_answered_def click_save_def onValuesChange_def editor_effect_def idle_flags_def submit_click_def
        check_submit_def demo_form_def transformReqParamsToApiInput_def transformRespParamsToApiInput_def submit_answer_def save_label_def)
qed

text \<open>
  Without that restriction it is not: what is typed while a save is under way is on the screen, not on the server, and the editor
  calls it saved and offers no button to save it.
\<close>

lemma edit_during_save_lost:
  assumes "getFirstTabWithValue api = Inr tab" "check_submit (ab_id api) v1 = Inr d"
  shows "\<exists>e. editor_reachable False api vals e \<and> ed_form e = v2 \<and> ed_stored e = v1 \<and>
    save_label (ed_flags e) = ''the API is saved'' \<and> OpSave \<notin> set (api_edit_ops (ed_flags e) (Some api))"
proof -
  let ?e0 = "editor_effect (ab_id api) vals tab \<lparr>ed_api = 0, ed_form = vals, ed_stored = vals, ed_flags = idle_flags, ed_tab = ''query'', ed_saving = None\<rparr>"
  let ?e1 = "click_save True (onValuesChange v1 ?e0)"
  let ?e2 = "save_answered (Inr []) (onValuesChange v2 ?e1)"
  have "editor_reachable False api vals ?e2"
    by (intro reach_saved reach_answered reach_typed opened assms(1)) simp_all
  moreover have "ed_saving ?e1 = Some (ab_id api, v1)"
    using assms(2) by (simp add: click_save_def onValuesChange_def editor_effect_def idle_flags_def submit_click_def Let_def)
  ultimately show ?thesis
    by (intro exI [of _ ?e2]) (simp add: save_answered_def onValuesChange_def submit_answer_def save_label_def api_edit_ops_def editor_effect_def)
qed

text \<open>
  Nor when another API is shown meanwhile: its unsaved values are called saved once the save of the first one is answered.
\<close>

lemma other_api_marked_saved:
  assumes "getFirstTabWithValue api = Inr tab" "check_submit (ab_id api) v1 = Inr d"
    and "getFirstTabWithValue api' = Inr tab'" "ab_id api' \<noteq> ab_id api"
  shows "\<exists>e. editor_reachable False api vals e \<and> ed_api e = ab_id api' \<and> ed_form e = v2 \<and> ed_stored e = vals' \<and>
    save_label (ed_flags e) = ''the API is saved''"
proof -
  let ?e0 = "editor_effect (ab_id api) vals tab \<lparr>ed_api = 0, ed_form = vals, ed_stored = vals, ed_flags = idle_flags, ed_tab = ''query'', ed_saving = None\<rparr>"
  let ?e1 = "click_save True (onValuesChange v1 ?e0)"
  let ?e2 = "editor_effect (ab_id api') vals' tab' ?e1"
  have "editor_reachable False api vals ?e1" by (intro reach_saved reach_typed opened assms(1)) simp
  moreover have "editor_step False ?e1 ?e2" by (rule other_shown) (simp_all add: assms(3))
  ultimately have "editor_reachable False api vals ?e2" by (rule moved)
  then have "editor_reachable False api vals (save_answered (Inr []) (onValuesChange v2 ?e2))"
    by (intro reach_answered reach_typed) simp_all
  moreover have "ed_saving ?e1 = Some (ab_id api, v1)"
    using assms(2) by (simp add: click_save_def onValuesChange_def editor_effect_def idle_flags_def submit_click_def Let_def)
  ultimately show ?thesis using assms(4)
    by (intro exI [of _ "save_answered (Inr []) (onValuesChange v2 ?e2)"])
      (simp add: save_answered_def onValuesChange_def submit_answer_def save_label_def editor_effect_def)
qed

section \<open>What the page offers\<close>







lemma tree_same: "iterationTreeData cats drafts = treeData cats drafts"
  by (simp add: iterationTreeData_def treeData_def)

text \<open>The groups of a tree and the button each of them has.\<close>

lemma delete_offered:
  "OpDeleteCategory (Some c) \<in> set (concat (map delete_button (treeData cats apis))) \<longleftrightarrow>
     c \<in> cat_id ` set cats \<and> (\<forall>a\<in>set apis. group_of cats a \<noteq> Some c)"
proof -
  let ?g = "\<lambda>k v. v\<lparr>tg_children := group_leaves cats apis (Some k)\<rparr>"
  have leaves: "group_leaves cats apis (Some c) = [] \<longleftrightarrow> (\<forall>a\<in>set apis. group_of cats a \<noteq> Some c)"
    by (auto simp: group_leaves_def sorted_apis_def filter_empty_conv)
  have b: "delete_button (?g k v) = (if group_leaves cats apis (Some k) = [] then [OpDeleteCategory (Some k)] else [])"
    if kv: "(k, v) \<in> set (categoryMap cats)" for k v
    using categoryMap_ok(3) [OF kv] category_key_neq [of k]
    by (simp add: delete_button_def category_deletable_def category_key_def category_key_cut)
  have u: "delete_button (uncategorizedGroup\<lparr>tg_children := xs\<rparr>) = []" for xs
    by (simp add: delete_button_def category_deletable_def uncategorizedGroup_def)
  have "OpDeleteCategory (Some c) \<in> set (concat (map delete_button (treeData cats apis))) \<longleftrightarrow>
      (\<exists>v. (c, v) \<in> set (categoryMap cats)) \<and> group_leaves cats apis (Some c) = []"
    unfolding treeData_by_group using b u by (force split: if_splits)
  also have "(\<exists>v. (c, v) \<in> set (categoryMap cats)) \<longleftrightarrow> c \<in> cat_id ` set cats"
    using categoryMap_ok(2) [of cats] by force
  finally show ?thesis unfolding leaves .
qed

lemma delete_not_elsewhere:
  "OpDeleteCategory c \<notin> set (list_toolbar i l)" "OpDeleteCategory c \<notin> set (header_ops ld u i l h)" "OpDeleteCategory c \<notin> set (api_edit_ops es d)"
  by (auto simp: list_toolbar_def header_ops_def api_edit_ops_def split: option.splits)


lemma page_delete:
  assumes "ApiManagement user st it ah es = Some v"
  shows "OpDeleteCategory (Some c) \<in> set (pv_ops v) \<longleftrightarrow>
    c \<in> cat_id ` set (ts_apiCategories st) \<and>
    (\<forall>a\<in>set (if ts_inIteration st then is_apiDrafts it else ts_apis st). group_of (ts_apiCategories st) a \<noteq> Some c)"
proof -
  let ?as = "if ts_inIteration st then is_apiDrafts it else ts_apis st"
  have "OpDeleteCategory (Some c) \<in> set (pv_ops v) \<longleftrightarrow>
      OpDeleteCategory (Some c) \<in> set (concat (map delete_button (treeData (ts_apiCategories st) ?as)))"
    using assms delete_not_elsewhere
    by (auto simp: ApiManagement_def Let_def editing_def api_list_ops_def tree_same split: if_splits)
  then show ?thesis unfolding delete_offered .
qed




text \<open>
  The list shown is not always that of the published APIs: during an iteration, before the drafts are loaded and after loading
  them failed, every category of the service can be deleted, whatever the published APIs in it; and so can a category
  on the page of an older version that none of its APIs was in.
\<close>

lemma every_category_deletable:
  assumes "ApiManagement user st it ah es = Some v" "ts_inIteration st" "is_apiDrafts it = []" "cat \<in> set (ts_apiCategories st)"
  shows "OpDeleteCategory (Some (cat_id cat)) \<in> set (pv_ops v)"
  unfolding page_delete [OF assms(1)] using assms(2-4) by simp

section \<open>The header of the page\<close>

lemma by_role_entry:
  assumes "by_role us acc" "e \<in> set acc"
  shows "snd e = filter (\<lambda>u. u_role u = fst e) us \<and> snd e \<noteq> []"
proof -
  have "distinct (map fst acc)" using assms(1) by (simp add: by_role_def distinct_keys_def)
  then have "map_of acc (fst e) = Some (snd e)" using map_of_is_SomeI [of acc "fst e" "snd e"] assms(2) by simp
  then show ?thesis using assms(1) by (auto simp: by_role_def Let_def split: if_splits)
qed

lemma by_role_mset:
  assumes "by_role us acc"
  shows "mset (concat (map snd acc)) = mset us"
proof -
  have d: "distinct (map fst acc)" and m: "map_of acc r = (let f = filter (\<lambda>u. u_role u = r) us in if f = [] then None else Some f)" for r
    using assms by (simp_all add: by_role_def distinct_keys_def)
  have "concat (map snd acc) = concat (map (\<lambda>r. filter (\<lambda>u. u_role u = r) us) (map fst acc))"
    using by_role_entry [OF assms] by (simp add: comp_def cong: map_cong)
  moreover have "\<forall>u\<in>set us. u_role u \<in> set (map fst acc)"
  proof
    fix u assume "u \<in> set us"
    then have "map_of acc (u_role u) \<noteq> None" unfolding m by (auto simp: Let_def filter_empty_conv)
    then show "u_role u \<in> set (map fst acc)" by (simp add: map_of_eq_None_iff)
  qed
  ultimately show ?thesis using concat_filter_mset [OF d] by metis
qed

lemma avatars_drawn: "userAvatar tr (map Some us) = Inr (map (one_avatar tr) us)"
  by (induction us) simp_all

text \<open>
  The pop-up of the header counts every member once, the person in charge included, and draws for
  each role an avatar of each of its members; drawing them never fails.
\<close>

theorem members_popup_complete:
  "fst (members_popup tr p st) = Suc (length (hd_maintainers st)) \<and>
   list_all (\<lambda>(_, r). \<exists>as. r = Inr as \<and> as \<noteq> []) (snd (members_popup tr p st)) \<and>
   mset (concat (map (\<lambda>(_, r). case r of Inl _ \<Rightarrow> [] | Inr as \<Rightarrow> as) (snd (members_popup tr p st)))) =
     mset (map (one_avatar tr) (p # hd_maintainers st))"
proof -
  let ?acc = "serviceMembersByRole p st"
  have r: "by_role (p # hd_maintainers st) ?acc" unfolding serviceMembersByRole_push by (rule by_role_all)
  note m = by_role_mset [OF r]
  have "length (concat (map snd ?acc)) = length (p # hd_maintainers st)" using m by (metis size_mset)
  moreover have "snd e \<noteq> []" if "e \<in> set ?acc" for e
    using by_role_entry [OF r that] by blast
  moreover have "concat (map (\<lambda>(_, r). case r of Inl _ \<Rightarrow> [] | Inr as \<Rightarrow> as) (snd (members_popup tr p st))) =
      map (one_avatar tr) (concat (map snd ?acc))"
    by (simp add: members_popup_def avatars_drawn comp_def case_prod_beta map_concat)
  moreover have "mset (map (one_avatar tr) (concat (map snd ?acc))) = mset (map (one_avatar tr) (p # hd_maintainers st))"
    using m by (metis mset_map)
  ultimately show ?thesis
    by (auto simp: members_popup_def avatars_drawn list_all_iff)
qed

section \<open>The frame around the pages\<close>

text \<open>
  \<open>components/Layout/Header\<close> and \<open>components/User/Profile.tsx\<close>: what is shown of the user, and what the clicks
  do.  \<open>nickname[0] || username[0]\<close> is the empty text when both are empty.
\<close>

definition initial_letter :: "UserProfile \<Rightarrow> string" where
  "initial_letter u = or_str (Some (first_char (u_nickname u))) (first_char (u_username u))"

record profile_view =
  pf_initial :: string
  pf_name :: string
  pf_username :: string
  pf_email :: string
  pf_role :: tag

definition Profile :: "(string \<Rightarrow> string) \<Rightarrow> UserProfile \<Rightarrow> profile_view" where
  "Profile tr u = \<lparr>pf_initial = initial_letter u, pf_name = or_str (Some (u_nickname u)) (u_username u), pf_username = u_username u,
     pf_email = u_email u, pf_role = genUserRoleTag tr (u_role u)\<rparr>"

datatype account_view = LoginAvatar | UserAvatar string profile_view

definition account_area :: "(string \<Rightarrow> string) \<Rightarrow> UserProfile option \<Rightarrow> account_view" where
  "account_area tr user = (case user of None \<Rightarrow> LoginAvatar | Some u \<Rightarrow> UserAvatar (initial_letter u) (Profile tr u))"

definition language_label :: "string \<Rightarrow> string" where
  "language_label currentLanguage = (if currentLanguage = ''zh-CN'' then ''Chinese'' else ''English'')"

text \<open>The languages of the menu, and the click on one of them.\<close>

definition language_menu :: "string list" where
  "language_menu = [''zh-CN'', ''en-US'']"

text \<open>The last entry of the profile: sign out, then go to the list of services.\<close>

definition profile_logout :: "persister \<Rightarrow> 's page \<Rightarrow> 's page \<times> string" where
  "profile_logout persist p = (fe_logout persist p, ''/'')"

text \<open>
  C30: Signing out from the profile ends the session everywhere: the page goes to the list of services, which
  greets a guest, the header offers to sign in, the watermark names nobody, the page of a service
  sends a visitor away, and opening the application again restores nobody.
\<close>

theorem logout_everywhere:
  assumes "persist_ok ps hy"
  shows "let (p', address) = profile_logout ps p in
    address = ''/'' \<and> ServiceManagement (snd p') = WelcomeGuest \<and> account_area tr (us_user (snd p')) = LoginAvatar \<and>
    watermark (snd p') = ''Guest'' \<and> fst (requireAuthLoader (fst p')) = Redirect ''/'' \<and>
    app_effect ps base srv p' = p' \<and> us_user (snd (user_init hy (fst p'))) = None"
proof -
  obtain b u where p: "p = (b, u)" by (cases p)
  have t: "b_token (fst (fe_logout ps p)) = None" by (simp add: fe_logout_def p)
  then have g: "getAccessToken (fst (fe_logout ps p)) = []" by (simp add: getAccessToken_def)
  have n: "us_user (snd (fe_logout ps p)) = None" by (simp add: fe_logout_def p)
  have "us_user (snd (user_init hy (fst (fe_logout ps p)))) = None"
    using t assms by (simp add: user_init_def Let_def init_browser_store persist_ok_def)
  then show ?thesis
    by (simp add: profile_logout_def ServiceManagement_def account_area_def watermark_def requireAuthLoader_def app_effect_def g n)
qed

theorem logout_everywhere_witness:
  "fst (requireAuthLoader (fst (fst (profile_logout demo_persist demo_page)))) = Redirect ''/''"
  using logout_everywhere [OF demo_persist_ok, of demo_page "\<lambda>s. s" "[]" demo_info_srv] by (simp add: profile_logout_def Let_def)

end
