(* ===== verification/Js_Numeral.thy ===== *)
theory Js_Numeral
  imports Js_Object Complex_Main "HOL-Library.Product_Lexorder"
begin

text \<open>
  \<open>Number(s)\<close> on every text and \<open>String(n)\<close> on the result, as \<open>ResponseParamsEdit.tsx\<close> uses them on the
  status codes a user types.  A finite number is kept as the decimal it was written as, with trailing
  zeros of the significand removed; this is exact for literals of at most 15 significant digits within
  the range of a double, beyond that JavaScript rounds.
\<close>

section \<open>Numbers\<close>

datatype js_num = NaN | Infty bool | Dec bool nat int

text \<open>\<open>Dec neg m e\<close> is \<open>m * 10^e\<close>, negated if \<open>neg\<close>.\<close>

function strip_zeros :: "nat \<Rightarrow> int \<Rightarrow> nat \<times> int" where
  "strip_zeros m e = (if m = 0 then (0, 0) else if m mod 10 = 0 then strip_zeros (m div 10) (e + 1) else (m, e))"
  by pat_completeness auto
termination by (relation "measure fst") auto

declare strip_zeros.simps [simp del]

definition dec :: "bool \<Rightarrow> nat \<Rightarrow> int \<Rightarrow> js_num" where
  "dec neg m e = (case strip_zeros m e of (m', e') \<Rightarrow> Dec neg m' e')"

definition is_NaN :: "js_num \<Rightarrow> bool" where
  "is_NaN n \<longleftrightarrow> n = NaN"

section \<open>Reading\<close>

fun digits_in :: "nat \<Rightarrow> char \<Rightarrow> nat option" where
  "digits_in base c =
     (let v = (if is_digit c then Some (of_char c - 48)
               else if of_char c \<ge> (97::nat) \<and> of_char c \<le> (102::nat) then Some (of_char c - 87)
               else if of_char c \<ge> (65::nat) \<and> of_char c \<le> (70::nat) then Some (of_char c - 55) else None)
      in case v of Some d \<Rightarrow> if d < base then Some d else None | None \<Rightarrow> None)"

fun radix_val :: "nat \<Rightarrow> string \<Rightarrow> nat \<Rightarrow> nat option" where
  "radix_val base [] acc = Some acc"
| "radix_val base (c # s) acc = (case digits_in base c of None \<Rightarrow> None | Some d \<Rightarrow> radix_val base s (base * acc + d))"

definition radix_literal :: "string \<Rightarrow> nat option" where
  "radix_literal s =
     (let base = (if prefix ''0x'' s \<or> prefix ''0X'' s then Some 16 else if prefix ''0o'' s \<or> prefix ''0O'' s then Some 8
                  else if prefix ''0b'' s \<or> prefix ''0B'' s then Some 2 else None)
      in case base of None \<Rightarrow> None | Some b \<Rightarrow> if drop 2 s = [] then None else radix_val b (drop 2 s) 0)"

definition exponent :: "string \<Rightarrow> int option" where
  "exponent r =
     (case r of
        [] \<Rightarrow> Some 0
      | c # r \<Rightarrow>
          if c = CHR ''e'' \<or> c = CHR ''E'' then
            (let neg = prefix ''-'' r; u = (if neg \<or> prefix ''+'' r then tl r else r)
             in if all_digits u then Some (if neg then - int (digits_val u) else int (digits_val u)) else None)
          else None)"

definition decimal_literal :: "bool \<Rightarrow> string \<Rightarrow> js_num" where
  "decimal_literal neg u =
     (let ip = takeWhile is_digit u; r = dropWhile is_digit u;
          fp = (if prefix ''.'' r then takeWhile is_digit (tl r) else []);
          r' = (if prefix ''.'' r then dropWhile is_digit (tl r) else r)
      in if ip = [] \<and> fp = [] then NaN
         else case exponent r' of None \<Rightarrow> NaN
              | Some e \<Rightarrow> dec neg (digits_val (ip @ fp)) (e - int (length fp)))"

definition to_js_num :: "string \<Rightarrow> js_num" where
  "to_js_num str =
     (let s = js_trim str; neg = prefix ''-'' s; u = (if neg \<or> prefix ''+'' s then tl s else s)
      in if s = [] then dec False 0 0
         else case radix_literal s of
                Some n \<Rightarrow> dec False n 0
              | None \<Rightarrow> if u = ''Infinity'' then Infty neg else decimal_literal neg u)"

section \<open>Printing\<close>

definition zeros :: "nat \<Rightarrow> string" where
  "zeros k = replicate k CHR ''0''"

definition exp_text :: "string \<Rightarrow> int \<Rightarrow> string" where
  "exp_text ds n =
     (case ds of [] \<Rightarrow> [] | c # cs \<Rightarrow> c # (if cs = [] then [] else CHR ''.'' # cs)) @ ''e'' @
     (if n - 1 < 0 then ''-'' else ''+'') @ nat_str (nat \<bar>n - 1\<bar>)"

definition num_text :: "js_num \<Rightarrow> string" where
  "num_text x =
     (case x of
        NaN \<Rightarrow> ''NaN''
      | Infty neg \<Rightarrow> (if neg then ''-'' else []) @ ''Infinity''
      | Dec neg m e \<Rightarrow>
          if m = 0 then ''0''
          else (let ds = nat_str m; k = int (length ds); n = k + e in
            (if neg then ''-'' else []) @
            (if k \<le> n \<and> n \<le> 21 then ds @ zeros (nat (n - k))
             else if 0 < n \<and> n \<le> 21 then take (nat n) ds @ ''.'' @ drop (nat n) ds
             else if -6 < n \<and> n \<le> 0 then ''0.'' @ zeros (nat (- n)) @ ds
             else exp_text ds n)))"

section \<open>Order\<close>

definition dec_val :: "bool \<Rightarrow> nat \<Rightarrow> int \<Rightarrow> rat" where
  "dec_val neg m e = (if neg then -1 else 1) * (if 0 \<le> e then of_nat m * 10 ^ nat e else of_nat m / 10 ^ nat (- e))"

text \<open>Infinite numbers lie outside the finite ones; \<open>NaN\<close> is never compared.\<close>

definition num_rank :: "js_num \<Rightarrow> int \<times> rat" where
  "num_rank x = (case x of NaN \<Rightarrow> (2, 0) | Infty neg \<Rightarrow> (if neg then -1 else 1, 0) | Dec neg m e \<Rightarrow> (0, dec_val neg m e))"

section \<open>Natural numbers read and printed\<close>

lemma nat_str_times_10: "0 < m \<Longrightarrow> nat_str (10 * m) = nat_str m @ ''0''"
  by (simp add: nat_str.simps [of "10 * m"] digit_char_0)

lemma strip_zeros_spec:
  assumes "0 < m"
  shows "\<exists>k. strip_zeros m e = (m div 10 ^ k, e + int k) \<and> 10 ^ k dvd m \<and> 0 < m div 10 ^ k"
  using assms
proof (induction m e rule: strip_zeros.induct)
  case (1 m e)
  show ?case
  proof (cases "m mod 10 = 0")
    case True
    then have "0 < m div 10" using 1(2) by auto
    then have "\<exists>k. strip_zeros (m div 10) (e + 1) = (m div 10 div 10 ^ k, e + 1 + int k) \<and> 10 ^ k dvd m div 10 \<and>
        0 < m div 10 div 10 ^ k" using 1(1) 1(2) True by simp
    then obtain k where k: "strip_zeros (m div 10) (e + 1) = (m div 10 div 10 ^ k, e + 1 + int k)" "10 ^ k dvd m div 10"
      "0 < m div 10 div 10 ^ k" by blast
    have "10 * 10 ^ k dvd m" using k(2) True by (metis dvd_div_iff_mult mod_0_imp_dvd mult.commute zero_neq_numeral)
    then show ?thesis using k True 1(2)
      by (intro exI [of _ "Suc k"]) (simp add: strip_zeros.simps [of m e] div_mult2_eq)
  next
    case False
    then show ?thesis using 1(2) by (intro exI [of _ 0]) (simp add: strip_zeros.simps [of m e])
  qed
qed

lemma nat_str_zeros: "0 < m \<Longrightarrow> nat_str (m * 10 ^ k) = nat_str m @ zeros k"
proof (induction k)
  case (Suc k)
  have "zeros k @ ''0'' = zeros (Suc k)" by (simp add: zeros_def replicate_append_same)
  then show ?case using Suc nat_str_times_10 [of "m * 10 ^ k"] by (simp add: mult.left_commute)
qed (simp add: zeros_def)

lemma dec_nat: "\<exists>m k. dec False n 0 = Dec False m (int k) \<and> n = m * 10 ^ k \<and> (0 < n \<longrightarrow> 0 < m)"
proof (cases "0 < n")
  case True
  then obtain k where "strip_zeros n 0 = (n div 10 ^ k, int k)" "10 ^ k dvd n" "0 < n div 10 ^ k"
    using strip_zeros_spec [of n 0] by auto
  then show ?thesis by (intro exI [of _ "n div 10 ^ k"] exI [of _ k]) (simp add: dec_def)
next
  case False
  then show ?thesis by (intro exI [of _ 0] exI [of _ 0]) (simp add: dec_def strip_zeros.simps)
qed

lemma num_text_dec: "n < 10 ^ 21 \<Longrightarrow> num_text (dec False n 0) = nat_str n"
proof -
  assume b: "n < 10 ^ 21"
  obtain m k where d: "dec False n 0 = Dec False m (int k)" "n = m * 10 ^ k" "0 < n \<longrightarrow> 0 < m" using dec_nat by blast
  show ?thesis
  proof (cases "m = 0")
    case True
    then show ?thesis using d by (simp add: num_text_def nat_str_one digit_char_0)
  next
    case False
    then have s: "nat_str n = nat_str m @ zeros k" using d(2) nat_str_zeros by simp
    have "length (nat_str n) \<le> 21" using b length_nat_str_le [of n 21] by simp
    then have "int (length (nat_str m)) + int k \<le> 21" unfolding s by (simp add: zeros_def)
    then show ?thesis using False d(1) by (simp add: num_text_def s Let_def)
  qed
qed

lemma num_rank_dec: "num_rank (dec False n 0) = (0, of_nat n)"
proof -
  obtain m k where "dec False n 0 = Dec False m (int k)" "n = m * 10 ^ k" using dec_nat by blast
  then show ?thesis by (simp add: num_rank_def dec_val_def)
qed

lemma digits_not_radix: "all_digits s \<Longrightarrow> radix_literal s = None"
proof -
  assume a: "all_digits s"
  have "c \<in> set s \<Longrightarrow> is_digit c" for c using a by (simp add: all_digits_def list_all_iff)
  moreover have "\<not> is_digit CHR ''x''" "\<not> is_digit CHR ''X''" "\<not> is_digit CHR ''o''" "\<not> is_digit CHR ''O''"
    "\<not> is_digit CHR ''b''" "\<not> is_digit CHR ''B''" by code_simp+
  ultimately show ?thesis by (auto simp: radix_literal_def prefix_def)
qed

lemma to_js_num_digits:
  assumes "all_digits s"
  shows "to_js_num s = dec False (digits_val s) 0"
proof -
  have d: "\<forall>c\<in>set s. is_digit c" "s \<noteq> []" using assms by (simp_all add: all_digits_def list_all_iff)
  have t: "js_trim s = s" using d(1) digit_not_space by (intro js_trim_plain) (simp add: list_all_iff)
  have n: "\<not> is_digit CHR ''-''" "\<not> is_digit CHR ''+''" "\<not> is_digit CHR ''I''" by code_simp+
  have p: "\<not> prefix ''-'' s" "\<not> prefix ''+'' s" "s \<noteq> ''Infinity''" using d n by (auto simp: prefix_def)
  have w: "takeWhile is_digit s = s" "dropWhile is_digit s = []" using d(1) by (simp_all add: takeWhile_eq_all_conv)
  show ?thesis
    using d(2) p digits_not_radix [OF assms]
    by (simp add: to_js_num_def t decimal_literal_def w exponent_def)
qed

lemma to_js_num_nat [simp]: "to_js_num (nat_str n) = dec False n 0"
  by (simp add: to_js_num_digits)

lemma dec_not_NaN [simp]: "\<not> is_NaN (dec b n e)"
  by (simp add: is_NaN_def dec_def split: prod.split)

end
