(* ===== verification/Fe_Response_Tabs.thy ===== *)
theory Fe_Response_Tabs
  imports Fe_Params Js_Numeral
begin

text \<open>
  The tabs of response parameters in the API editor,
  \<open>FE-CAM/src/components/ApiManagement/ApiEdit/ResponseParamsEdit.tsx\<close>: one tab per status code, added
  and deleted by the user, over the form field \<open>response_params_by_status_code\<close>.

  The form library is third party: the field is a component of the state, \<open>getFieldValue\<close> and
  \<open>setFieldValue\<close> read and write it, and the component renders again with the value just written.
\<close>

section \<open>Model\<close>

type_synonym response_values = "ParamItem list js_obj"

datatype tabs_warning = EmptyCode | NotANumber | CodeExists

record tabs_state =
  rt_values :: "response_values option"
  rt_activeTab :: string
  rt_newStatusCode :: string
  rt_userEdited :: bool
  rt_warnings :: "tabs_warning list"

text \<open>\<open>form.getFieldValue(...) || {}\<close>\<close>

definition current_values :: "tabs_state \<Rightarrow> response_values" where
  "current_values st = (case rt_values st of None \<Rightarrow> [] | Some d \<Rightarrow> d)"

text \<open>
  A key is shown when the object has an array under the number the key denotes: \<open>Number(status)\<close> is
  turned into a property name again.
\<close>

definition code_shown :: "response_values \<Rightarrow> string \<Rightarrow> bool" where
  "code_shown d code \<longleftrightarrow> map_of d (num_text (to_js_num code)) \<noteq> None"

definition statusCodes :: "response_values \<Rightarrow> string list" where
  "statusCodes d = sort_key (\<lambda>s. num_rank (to_js_num s)) (filter (code_shown d) (obj_keys d))"

definition codes :: "tabs_state \<Rightarrow> string list" where
  "codes st = statusCodes (current_values st)"

definition tabs_init :: "response_values option \<Rightarrow> tabs_state" where
  "tabs_init d =
     (let cs = statusCodes (case d of None \<Rightarrow> [] | Some d \<Rightarrow> d)
      in \<lparr>rt_values = d, rt_activeTab = (case cs of [] \<Rightarrow> [] | c # _ \<Rightarrow> c), rt_newStatusCode = [],
          rt_userEdited = False, rt_warnings = []\<rparr>)"

text \<open>The effect that runs after every rendering.\<close>

definition tabs_effect :: "tabs_state \<Rightarrow> tabs_state" where
  "tabs_effect st =
     (case codes st of
        [] \<Rightarrow>
          if rt_userEdited st then st
          else if obj_keys (current_values st) \<noteq> [] then st
          else st\<lparr>rt_values := Some [(''200'', [])], rt_activeTab := ''200''\<rparr>
      | c # _ \<Rightarrow>
          if rt_activeTab st = [] \<or> rt_activeTab st \<notin> set (codes st) then st\<lparr>rt_activeTab := c\<rparr> else st)"

text \<open>\<open>handleDeleteTab\<close> once the user has confirmed.\<close>

definition handleDeleteTab :: "string \<Rightarrow> tabs_state \<Rightarrow> tabs_state" where
  "handleDeleteTab tab st =
     (let st' = st\<lparr>rt_userEdited := True, rt_values := Some (map_delete tab (current_values st))\<rparr>
      in if rt_activeTab st = tab
         then st'\<lparr>rt_activeTab := (case filter (\<lambda>c. c \<noteq> tab) (codes st) of [] \<Rightarrow> [] | c # _ \<Rightarrow> c)\<rparr>
         else st')"

text \<open>The button of the dialog that adds a status code.\<close>

definition tabs_warn :: "tabs_warning \<Rightarrow> tabs_state \<Rightarrow> tabs_state" where
  "tabs_warn w st = st\<lparr>rt_warnings := rt_warnings st @ [w]\<rparr>"

definition addStatusCode :: "tabs_state \<Rightarrow> tabs_state" where
  "addStatusCode st0 =
     (let st = st0\<lparr>rt_userEdited := True\<rparr>; code = js_trim (rt_newStatusCode st) in
      if code = [] then tabs_warn EmptyCode st
      else if is_NaN (to_js_num code) then tabs_warn NotANumber st
      else if code \<in> set (codes st) then tabs_warn CodeExists st
      else st\<lparr>rt_values := Some (obj_put code [] (current_values st)), rt_activeTab := code\<rparr>)"

text \<open>The rows of the tab a parameter table belongs to.\<close>

definition setRows :: "string \<Rightarrow> ParamItem list \<Rightarrow> tabs_state \<Rightarrow> tabs_state" where
  "setRows code rows st = st\<lparr>rt_values := Some (obj_put code rows (current_values st))\<rparr>"

text \<open>Every way to use the tabs; the effect follows each.  A table is drawn only for the codes shown.\<close>

inductive tabs_step :: "tabs_state \<Rightarrow> tabs_state \<Rightarrow> bool" where
  type_code: "tabs_step st (tabs_effect (st\<lparr>rt_newStatusCode := v\<rparr>))"
| add_code: "tabs_step st (tabs_effect (addStatusCode st))"
| delete_code: "tab \<in> set (codes st) \<Longrightarrow> tabs_step st (tabs_effect (handleDeleteTab tab st))"
| change_tab: "tab \<in> set (codes st) \<Longrightarrow> tabs_step st (tabs_effect (st\<lparr>rt_activeTab := tab\<rparr>))"
| edit_rows: "code \<in> set (codes st) \<Longrightarrow> tabs_step st (tabs_effect (setRows code rows st))"

inductive tabs_reachable :: "response_values option \<Rightarrow> tabs_state \<Rightarrow> bool" for d where
  start: "tabs_reachable d (tabs_effect (tabs_init d))"
| step: "tabs_reachable d st \<Longrightarrow> tabs_step st st' \<Longrightarrow> tabs_reachable d st'"

inductive_cases tabs_stepE: "tabs_step st st'"

text \<open>The tab whose table is displayed: the tables of the other tabs are hidden.\<close>

definition visible_tables :: "tabs_state \<Rightarrow> string list" where
  "visible_tables st = filter (\<lambda>code. rt_activeTab st = code) (codes st)"

lemma current_values_simps [simp]:
  "current_values (st\<lparr>rt_values := Some d\<rparr>) = d"
  "current_values (st\<lparr>rt_activeTab := a\<rparr>) = current_values st"
  "current_values (st\<lparr>rt_newStatusCode := a\<rparr>) = current_values st"
  "current_values (st\<lparr>rt_userEdited := b\<rparr>) = current_values st"
  "current_values (tabs_warn w st) = current_values st"
  by (simp_all add: current_values_def tabs_warn_def)

lemma codes_simps [simp]:
  "codes (st\<lparr>rt_activeTab := a\<rparr>) = codes st"
  "codes (st\<lparr>rt_newStatusCode := a\<rparr>) = codes st"
  "codes (st\<lparr>rt_userEdited := b\<rparr>) = codes st"
  "codes (tabs_warn w st) = codes st"
  by (simp_all add: codes_def)

section \<open>Codes in canonical form\<close>

text \<open>The server's keys, and the codes a user usually types: decimal numbers without leading zeros.\<close>

definition canonical :: "string \<Rightarrow> bool" where
  "canonical k \<longleftrightarrow> (\<exists>n < 1000000000000000. k = nat_str n)"

definition canonical_keys :: "response_values \<Rightarrow> bool" where
  "canonical_keys d \<longleftrightarrow> distinct_keys d \<and> list_all canonical (obj_keys d)"

lemma canonical_text: "canonical k \<Longrightarrow> num_text (to_js_num k) = k"
  by (auto simp: canonical_def num_text_dec)

lemma canonical_rank: "canonical k \<Longrightarrow> num_rank (to_js_num k) = (0, of_nat (digits_val k))"
  by (auto simp: canonical_def num_rank_dec)

lemma canonical_digits: "canonical k \<Longrightarrow> all_digits k \<and> js_trim k = k \<and> k \<noteq> [] \<and> \<not> is_NaN (to_js_num k)"
  by (auto simp: canonical_def intro!: js_trim_plain nat_str_no_space)

lemma canonical_parse: "canonical k \<Longrightarrow> parseInt10 k = Some (int (digits_val k))"
proof -
  assume "canonical k"
  then have d: "\<forall>c\<in>set k. is_digit c" "k \<noteq> []" using canonical_digits by (auto simp: all_digits_def list_all_iff)
  have n: "\<not> is_digit CHR ''-''" "\<not> is_digit CHR ''+''" by code_simp+
  have s: "dropWhile is_space k = k" using d digit_not_space by (cases k) auto
  have p: "\<not> prefix ''-'' k" "\<not> prefix ''+'' k" using d n by (auto simp: prefix_def)
  have w: "takeWhile is_digit k = k" using d(1) by (simp add: takeWhile_eq_all_conv)
  show ?thesis using d(2) by (simp add: parseInt10_def s p w)
qed

text \<open>A canonical code is what is printed for a number, and it is sent as that number.\<close>

interpretation status_code: codec nat_str "\<lambda>s. map_option nat (parseInt10 s)" "\<lambda>n. n < 1000000000000000"
  by unfold_locales (auto simp: canonical_parse canonical_def)

lemma shown_canonical: "canonical_keys d \<Longrightarrow> filter (code_shown d) (obj_keys d) = obj_keys d"
proof -
  assume c: "canonical_keys d"
  have "code_shown d k" if "k \<in> set (obj_keys d)" for k
  proof -
    have "canonical k" using that c by (auto simp: canonical_keys_def list_all_iff)
    moreover have "map_of d k \<noteq> None" using that keys_dom [of d] by blast
    ultimately show ?thesis by (simp add: code_shown_def canonical_text)
  qed
  then show ?thesis by (simp add: filter_id_conv)
qed

text \<open>
  What the object stands for when its keys are canonical: the rows of each status code.
\<close>

definition rows_of :: "response_values \<Rightarrow> nat \<Rightarrow> ParamItem list option" where
  "rows_of d n = map_of d (nat_str n)"

lemma sort_key_order_cong:
  "(\<And>x y. x \<in> set xs \<Longrightarrow> y \<in> set xs \<Longrightarrow> f x \<le> f y \<longleftrightarrow> g x \<le> g y) \<Longrightarrow> sort_key f xs = sort_key g xs"
proof (induction xs)
  case (Cons a xs)
  have "insort_key f a ys = insort_key g a ys" if "set ys \<subseteq> set xs" for ys
    using that Cons.prems by (induction ys) auto
  moreover have "sort_key f xs = sort_key g xs" using Cons by auto
  ultimately show ?case by simp
qed simp

lemma sort_key_map: "sort_key f (map g xs) = map g (sort_key (\<lambda>x. f (g x)) xs)"
proof -
  have "insort_key f (g x) (map g ys) = map g (insort_key (\<lambda>x. f (g x)) x ys)" for x ys by (induction ys) auto
  then show ?thesis by (induction xs) simp_all
qed

lemma canonical_keys_nats:
  assumes "canonical_keys d"
  obtains ns where "obj_keys d = map nat_str ns" "distinct ns" "set ns = dom (rows_of d)"
proof
  let ?ns = "map digits_val (obj_keys d)"
  have k: "nat_str (digits_val k) = k" if "k \<in> set (obj_keys d)" for k
    using that assms by (auto simp: canonical_keys_def canonical_def list_all_iff)
  then show "obj_keys d = map nat_str ?ns" by (simp add: map_idI)
  moreover have "distinct (obj_keys d)" using assms by (simp add: canonical_keys_def distinct_keys_def)
  moreover have "list_all (\<lambda>n. n < 1000000000000000) ?ns"
    using assms by (auto simp: canonical_keys_def canonical_def list_all_iff)
  ultimately show "distinct ?ns" using status_code.distinct_enc [of ?ns] by metis
  have "n \<in> set ?ns \<longleftrightarrow> nat_str n \<in> set (obj_keys d)" for n using k by (force simp: image_iff)
  then have "n \<in> set ?ns \<longleftrightarrow> n \<in> dom (rows_of d)" for n unfolding keys_dom rows_of_def dom_def by simp
  then show "set ?ns = dom (rows_of d)" by blast
qed

text \<open>
  C33: For status codes in canonical form the tabs are an optimised view of the map from codes to rows:
  they are exactly the codes that have rows, each once, in ascending order of the numbers, although the
  code filters and compares texts converted back and forth.
\<close>

theorem statusCodes_ascending:
  assumes "canonical_keys d"
  shows "statusCodes d = map nat_str (sorted_list_of_set (dom (rows_of d)))"
proof -
  obtain ns where ns: "obj_keys d = map nat_str ns" "distinct ns" "set ns = dom (rows_of d)"
    using assms by (rule canonical_keys_nats)
  have r: "num_rank (to_js_num (nat_str n)) = (0, of_nat n)" for n by (simp add: num_rank_dec)
  have "statusCodes d = sort_key (\<lambda>s. num_rank (to_js_num s)) (map nat_str ns)"
    using shown_canonical [OF assms] ns(1) by (simp add: statusCodes_def)
  also have "\<dots> = map nat_str (sort_key (\<lambda>n. (0::int, of_nat n :: rat)) ns)" by (simp only: sort_key_map r)
  also have "sort_key (\<lambda>n. (0::int, of_nat n :: rat)) ns = sort ns" by (rule sort_key_order_cong) simp
  also have "sort ns = sorted_list_of_set (dom (rows_of d))"
    using ns(2,3) by (metis distinct_remdups_id sorted_list_of_set_sort_remdups)
  finally show ?thesis .
qed

definition demo_response_values :: response_values where
  "demo_response_values = [(''200'', []), (''404'', []), (''1000'', [])]"

lemma demo_texts: "nat_str 200 = ''200''" "nat_str 404 = ''404''" "nat_str 500 = ''500''" "nat_str 1000 = ''1000''"
  by (simp_all add: nat_str.simps digit_char_def char_of_def bit_0)

lemma demo_canonical: "canonical ''200''" "canonical ''404''" "canonical ''1000''"
  unfolding canonical_def demo_texts [symmetric] by simp_all

lemma demo_canonical_keys: "canonical_keys demo_response_values"
  by (simp add: canonical_keys_def demo_response_values_def distinct_keys_def demo_canonical)

lemma demo_obj_ok: "obj_ok demo_response_values"
  by (simp add: obj_ok_def distinct_keys_def demo_response_values_def key_order_def is_index_def all_digits_def is_digit_def digits_val_def)

lemma demo_codes: "statusCodes demo_response_values = [''200'', ''404'', ''1000'']"
proof -
  have "num_rank (to_js_num k) = (0, of_nat (digits_val k))" if "k \<in> set (obj_keys demo_response_values)" for k
    using that canonical_rank demo_canonical by (auto simp: demo_response_values_def)
  then show ?thesis
    unfolding statusCodes_def shown_canonical [OF demo_canonical_keys] by (simp add: demo_response_values_def digits_val_def)
qed

theorem statusCodes_ascending_witness:
  "statusCodes demo_response_values = map nat_str (sorted_list_of_set (dom (rows_of demo_response_values))) \<and>
   rows_of demo_response_values 404 = Some []"
  using statusCodes_ascending [OF demo_canonical_keys] by (simp add: rows_of_def demo_response_values_def demo_texts)

section \<open>The selected tab\<close>

lemma codes_default: "codes (st\<lparr>rt_values := Some [(''200'', [])]\<rparr>) = [''200'']"
proof -
  have "''200'' = nat_str 200" by code_simp
  then have "canonical ''200''" unfolding canonical_def by (intro exI [of _ 200]) simp
  then have "code_shown [(''200'', [])] ''200''" by (simp add: code_shown_def canonical_text)
  then show ?thesis by (simp add: codes_def statusCodes_def)
qed

lemma effect_selected: "codes (tabs_effect st) = [] \<or> rt_activeTab (tabs_effect st) \<in> set (codes (tabs_effect st))"
proof (cases "codes st")
  case Nil
  then show ?thesis using codes_default [of st] by (simp add: tabs_effect_def)
next
  case (Cons c cs)
  then show ?thesis by (simp add: tabs_effect_def)
qed

lemma obj_ok_distinct: "obj_ok d \<Longrightarrow> distinct (statusCodes d)"
  by (simp add: obj_ok_def distinct_keys_def statusCodes_def distinct_map_filter)

lemma effect_obj_ok: "obj_ok (current_values st) \<Longrightarrow> obj_ok (current_values (tabs_effect st))"
  by (simp add: tabs_effect_def split: list.split) (simp add: obj_ok_def distinct_keys_def)

lemma operations_obj_ok:
  assumes "obj_ok (current_values st)"
  shows "obj_ok (current_values (addStatusCode st))" "obj_ok (current_values (handleDeleteTab tab st))"
    "obj_ok (current_values (setRows code rows st))"
  using assms by (simp_all add: addStatusCode_def handleDeleteTab_def setRows_def Let_def obj_ok_put obj_ok_delete)

lemma step_obj_ok: "tabs_step st st' \<Longrightarrow> obj_ok (current_values st) \<Longrightarrow> obj_ok (current_values st')"
  by (erule tabs_stepE) (simp_all add: effect_obj_ok operations_obj_ok)

text \<open>
  However the tabs are used, when there are status codes one of them is selected and its table, and
  no other, is displayed.
\<close>

theorem one_table_visible:
  assumes "tabs_reachable (Some d) st" "obj_ok d" "codes st \<noteq> []"
  shows "rt_activeTab st \<in> set (codes st) \<and> visible_tables st = [rt_activeTab st]"
proof -
  have "obj_ok (current_values st) \<and> (codes st = [] \<or> rt_activeTab st \<in> set (codes st))"
    using assms(1)
  proof (induction rule: tabs_reachable.induct)
    case start
    have "obj_ok (current_values (tabs_init (Some d)))" using assms(2) by (simp add: tabs_init_def current_values_def)
    then show ?case using effect_obj_ok effect_selected by blast
  next
    case (step st st')
    from step(2) have "codes st' = [] \<or> rt_activeTab st' \<in> set (codes st')" by (rule tabs_stepE) (auto simp: effect_selected)
    then show ?case using step step_obj_ok by blast
  qed
  then have "distinct (codes st)" "rt_activeTab st \<in> set (codes st)" using assms(3) obj_ok_distinct by (auto simp: codes_def)
  moreover have "distinct xs \<Longrightarrow> a \<in> set xs \<Longrightarrow> filter (\<lambda>x. a = x) xs = [a]" for a :: string and xs
    by (induction xs) (auto simp: filter_empty_conv)
  ultimately show ?thesis by (simp add: visible_tables_def)
qed

theorem one_table_visible_witness:
  "visible_tables (tabs_effect (tabs_init (Some demo_response_values))) = [''200'']"
proof -
  let ?st = "tabs_effect (tabs_init (Some demo_response_values))"
  note cs = demo_codes
  have st: "?st = tabs_init (Some demo_response_values)"
    by (simp add: tabs_effect_def tabs_init_def codes_def current_values_def cs)
  have "codes ?st \<noteq> []" unfolding st by (simp add: tabs_init_def codes_def current_values_def cs)
  then show ?thesis
    using one_table_visible [OF tabs_reachable.start demo_obj_ok] unfolding st by (simp add: tabs_init_def cs)
qed

section \<open>Adding and deleting codes\<close>

lemma codes_canonical:
  "canonical_keys (current_values st) \<Longrightarrow> codes st = map nat_str (sorted_list_of_set (dom (rows_of (current_values st))))"
  unfolding codes_def by (rule statusCodes_ascending)

lemma set_codes_canonical:
  assumes "canonical_keys (current_values st)"
  shows "set (codes st) = set (obj_keys (current_values st))"
proof -
  have "set (codes st) = set (filter (code_shown (current_values st)) (obj_keys (current_values st)))"
    by (simp add: codes_def statusCodes_def)
  then show ?thesis unfolding shown_canonical [OF assms] .
qed

lemma keys_obj_put: "set (obj_keys (obj_put k v d)) = insert k (set (obj_keys d))"
  unfolding keys_dom by simp

lemma canonical_put: "canonical_keys d \<Longrightarrow> obj_ok d \<Longrightarrow> canonical k \<Longrightarrow> canonical_keys (obj_put k v d)"
  using obj_ok_put [of d k v] keys_obj_put [of k v d]
  by (auto simp: canonical_keys_def obj_ok_def list_all_iff simp del: set_map)

lemma canonical_delete: "canonical_keys d \<Longrightarrow> canonical_keys (map_delete k d)"
  by (auto simp: canonical_keys_def distinct_keys_def list_all_iff keys_map_delete)

lemma rows_of_put [simp]: "rows_of (obj_put (nat_str n) r d) = (rows_of d)(n \<mapsto> r)"
  by (auto simp: rows_of_def)

lemma rows_of_delete [simp]: "rows_of (map_delete (nat_str n) d) = (rows_of d)(n := None)"
  by (auto simp: rows_of_def)

lemma effect_stays: "rt_activeTab st \<in> set (codes st) \<Longrightarrow> rt_activeTab st \<noteq> [] \<Longrightarrow> tabs_effect st = st"
  by (cases "codes st") (auto simp: tabs_effect_def)

text \<open>The payload by code: the rows of a tab are sent under the number of the tab, and no others are.\<close>

lemma payload_of_code:
  assumes "distinct (obj_keys d)" "\<forall>k\<in>set (obj_keys d). canonical k"
  shows "filter (\<lambda>p. rs_status_code p = Some (int m)) (transformRespParamsToApiInput (Some d)) =
    (case rows_of d m of None \<Rightarrow> [] | Some items \<Rightarrow> map (resp_item (Some (int m))) items)"
  using assms
proof (induction d)
  case (Cons e d)
  obtain k items where e: "e = (k, items)" by (cases e)
  obtain j where k: "k = nat_str j" using Cons.prems(2) by (auto simp: e canonical_def)
  have j: "parseInt10 k = Some (int j)" using Cons.prems(2) canonical_parse [of k] by (simp add: e k)
  have IH: "filter (\<lambda>p. rs_status_code p = Some (int m)) (transformRespParamsToApiInput (Some d)) =
      (case rows_of d m of None \<Rightarrow> [] | Some items \<Rightarrow> map (resp_item (Some (int m))) items)"
    using Cons by simp
  have "filter (\<lambda>p. rs_status_code p = Some (int m)) (map (resp_item (Some (int j))) items) = (if j = m then map (resp_item (Some (int m))) items else [])"
    by (auto simp: filter_map comp_def)
  moreover have "rows_of d m = None" if "j = m"
    using that Cons.prems(1) by (auto simp: e k rows_of_def map_of_eq_None_iff)
  ultimately show ?case using IH
    by (auto simp: e k j [unfolded k] transformRespParamsToApiInput_def processRespItems_def rows_of_def split: option.splits)
qed (simp add: transformRespParamsToApiInput_def rows_of_def)

text \<open>
  C34: A new status code, typed in canonical form, gets an empty table and its tab is selected; the rows of every other code
  stay.  Whatever rows the table is then filled with, the payload has exactly them under this number and under
  every other number what it had before.  A code that is there already is refused and nothing changes but the warning.
\<close>

theorem add_code:
  assumes "canonical_keys (current_values st)" "obj_ok (current_values st)" "n < 1000000000000000"
    "js_trim (rt_newStatusCode st) = nat_str n"
  shows "case rows_of (current_values st) n of
      Some r \<Rightarrow> addStatusCode st = tabs_warn CodeExists (st\<lparr>rt_userEdited := True\<rparr>)
    | None \<Rightarrow>
        (let st' = tabs_effect (addStatusCode st);
             sent = \<lambda>d m. filter (\<lambda>p. rs_status_code p = Some (int m)) (transformRespParamsToApiInput (Some d)) in
         rows_of (current_values st') = (rows_of (current_values st))(n \<mapsto> []) \<and>
         set (codes st') = insert (nat_str n) (set (codes st)) \<and> rt_activeTab st' = nat_str n \<and>
         (\<forall>rows m. sent (obj_put (nat_str n) rows (current_values st')) m =
            (if m = n then map (resp_item (Some (int n))) rows else sent (current_values st) m)))"
proof (cases "rows_of (current_values st) n")
  case None
  have c: "canonical (nat_str n)" using assms(3) by (auto simp: canonical_def)
  have k: "nat_str n \<in> set (codes st) \<longleftrightarrow> rows_of (current_values st) n \<noteq> None"
    unfolding set_codes_canonical [OF assms(1)] keys_dom rows_of_def by auto
  let ?st = "addStatusCode st"
  have a: "?st = st\<lparr>rt_userEdited := True, rt_values := Some (obj_put (nat_str n) [] (current_values st)), rt_activeTab := nat_str n\<rparr>"
    using None k assms(4) by (simp add: addStatusCode_def Let_def)
  then have v: "current_values ?st = obj_put (nat_str n) [] (current_values st)" by simp
  have can: "canonical_keys (current_values ?st)" "obj_ok (current_values ?st)" unfolding v using assms c by (intro canonical_put obj_ok_put; simp)+
  then have cs: "set (codes ?st) = insert (nat_str n) (set (codes st))"
    using set_codes_canonical [of ?st] set_codes_canonical [OF assms(1)] by (simp only: v keys_obj_put)
  have e: "tabs_effect ?st = ?st" using cs a by (intro effect_stays) simp_all
  have keys: "distinct (obj_keys d)" "\<forall>k\<in>set (obj_keys d). canonical k" if "canonical_keys d" for d
    using that by (auto simp: canonical_keys_def distinct_keys_def list_all_iff)
  have "canonical_keys (obj_put (nat_str n) rows (current_values ?st))" for rows using can c by (intro canonical_put)
  then have "filter (\<lambda>p. rs_status_code p = Some (int m)) (transformRespParamsToApiInput (Some (obj_put (nat_str n) rows (current_values ?st)))) =
      (if m = n then map (resp_item (Some (int n))) rows
       else filter (\<lambda>p. rs_status_code p = Some (int m)) (transformRespParamsToApiInput (Some (current_values st))))" for rows m
    using payload_of_code [OF keys, of "obj_put (nat_str n) rows (current_values ?st)" m] payload_of_code [OF keys [OF assms(1)], of m] v
    by (simp del: set_map)
  then show ?thesis using None cs a v e by simp
next
  case (Some r)
  have "nat_str n \<in> set (codes st)" using Some unfolding set_codes_canonical [OF assms(1)] keys_dom rows_of_def by auto
  then show ?thesis using Some assms(4) by (simp add: addStatusCode_def)
qed

theorem add_code_witness:
  "set (codes (tabs_effect (addStatusCode ((tabs_init (Some demo_response_values))\<lparr>rt_newStatusCode := '' 500 ''\<rparr>)))) =
     insert (nat_str 500) {''200'', ''404'', ''1000''}"
proof -
  let ?st = "(tabs_init (Some demo_response_values))\<lparr>rt_newStatusCode := '' 500 ''\<rparr>"
  note cs = demo_codes
  have v: "current_values ?st = demo_response_values" by (simp add: tabs_init_def current_values_def)
  then have c: "set (codes ?st) = {''200'', ''404'', ''1000''}" by (simp only: codes_def cs) simp
  have t: "js_trim (rt_newStatusCode ?st) = nat_str 500" by (simp add: demo_texts js_trim_def drop_end_def is_space_def)
  have r: "rows_of (current_values ?st) 500 = None" unfolding v by (simp add: rows_of_def demo_response_values_def demo_texts)
  have "canonical_keys (current_values ?st)" "obj_ok (current_values ?st)" "(500::nat) < 1000000000000000"
    unfolding v using demo_canonical_keys demo_obj_ok by simp_all
  from add_code [OF this t] have "set (codes (tabs_effect (addStatusCode ?st))) = insert (nat_str 500) (set (codes ?st))"
    unfolding r option.case Let_def by blast
  then show ?thesis unfolding c .
qed

text \<open>
  Deleting a status code removes its rows and no others; its tab goes, another selected tab stays
  selected, and after the last one is deleted none comes back by itself.
\<close>

theorem delete_code:
  assumes "canonical_keys (current_values st)" "nat_str n \<in> set (codes st)" "rt_activeTab st \<in> set (codes st)"
  shows "(let st' = tabs_effect (handleDeleteTab (nat_str n) st) in
      rows_of (current_values st') = (rows_of (current_values st))(n := None) \<and>
      codes st' = filter (\<lambda>c. c \<noteq> nat_str n) (codes st) \<and>
      rt_activeTab st' = (if rt_activeTab st \<noteq> nat_str n then rt_activeTab st
                          else if codes st' = [] then [] else hd (codes st')))"
proof -
  let ?d = "handleDeleteTab (nat_str n) st" and ?cs = "filter (\<lambda>c. c \<noteq> nat_str n) (codes st)"
  have v: "current_values ?d = map_delete (nat_str n) (current_values st)" by (simp add: handleDeleteTab_def Let_def)
  have "codes ?d = sort_key (\<lambda>s. num_rank (to_js_num s)) (obj_keys (current_values ?d))"
    unfolding codes_def statusCodes_def using canonical_delete [OF assms(1)] by (simp add: v shown_canonical)
  also have "\<dots> = filter (\<lambda>c. c \<noteq> nat_str n) (codes st)"
    unfolding codes_def statusCodes_def shown_canonical [OF assms(1)] v keys_map_delete filter_sort ..
  finally have cs: "codes ?d = ?cs" .
  have ne: "c \<noteq> []" if "c \<in> set (codes st)" for c
    using that by (auto simp: codes_canonical [OF assms(1)])
  have act: "rt_activeTab ?d = (if rt_activeTab st \<noteq> nat_str n then rt_activeTab st else if ?cs = [] then [] else hd ?cs)"
    by (simp add: handleDeleteTab_def Let_def split: list.split)
  have "tabs_effect ?d = ?d"
  proof (cases "?cs = []")
    case True
    then show ?thesis using cs by (simp add: tabs_effect_def) (simp add: handleDeleteTab_def Let_def)
  next
    case False
    then have "rt_activeTab ?d \<in> set ?cs" using assms(3) list.set_sel(1) [OF False] by (auto simp: act)
    then show ?thesis using ne by (intro effect_stays) (auto simp: cs)
  qed
  then show ?thesis using cs act v by (simp add: Let_def)
qed

theorem delete_code_witness:
  "codes (tabs_effect (handleDeleteTab (nat_str 404) (tabs_init (Some demo_response_values)))) = [''200'', ''1000'']"
proof -
  let ?st = "tabs_init (Some demo_response_values)"
  note cs = demo_codes
  have v: "current_values ?st = demo_response_values" by (simp add: tabs_init_def current_values_def)
  then have c: "codes ?st = [''200'', ''404'', ''1000'']" by (simp add: codes_def cs)
  have "canonical_keys (current_values ?st)" unfolding v by (rule demo_canonical_keys)
  moreover have "nat_str 404 \<in> set (codes ?st)" "rt_activeTab ?st \<in> set (codes ?st)"
    by (simp_all add: c demo_texts) (simp add: tabs_init_def cs)
  ultimately show ?thesis using delete_code [of ?st 404] by (simp add: Let_def c demo_texts)
qed

text \<open>
  A code typed in another notation of a number that is not there yet, such as \<open>0404\<close>, is accepted,
  stored and never shown: no tab appears for it.
\<close>

lemma noncanonical_code_hidden:
  assumes "code = js_trim (rt_newStatusCode st)" "code \<noteq> []" "\<not> is_NaN (to_js_num code)" "num_text (to_js_num code) \<noteq> code"
    "num_text (to_js_num code) \<notin> set (obj_keys (current_values st))" "canonical_keys (current_values st)" "obj_ok (current_values st)"
    "code \<notin> set (obj_keys (current_values st))"
  shows "map_of (current_values (addStatusCode st)) code = Some [] \<and> code \<notin> set (codes (addStatusCode st))"
proof -
  let ?d = "current_values st"
  have "code \<notin> set (codes st)" using assms(6,8) set_codes_canonical by blast
  then have v: "current_values (addStatusCode st) = obj_put code [] ?d" using assms(1,2,3) by (simp add: addStatusCode_def Let_def)
  have "map_of ?d (num_text (to_js_num code)) = None" using assms(5) keys_dom [of ?d] by blast
  then have "\<not> code_shown (obj_put code [] ?d) code" using assms(4) by (simp add: code_shown_def)
  then show ?thesis by (simp add: v codes_def statusCodes_def)
qed

text \<open>A fraction is accepted as a status code; its parameters are sent with the integral part.\<close>

lemma fraction_accepted:
  "addStatusCode ((tabs_init None)\<lparr>rt_newStatusCode := ''1.5''\<rparr>) =
     (tabs_init None)\<lparr>rt_newStatusCode := ''1.5'', rt_userEdited := True, rt_values := Some [(''1.5'', [])], rt_activeTab := ''1.5''\<rparr>"
  "statusCodes [(''1.5'', [])] = [''1.5'']"
  "parseInt10 ''1.5'' = Some 1"
  by code_simp+

end
