(* ===== verification/Fe_Param_Table.thy ===== *)
theory Fe_Param_Table
  imports Fe_Params
begin

text \<open>
  The columns of \<open>FE-CAM/src/components/ApiManagement/ApiEdit/ParamTable.tsx\<close>: which editors a row has, what
  each may write, and the nested table of an object's children.  The theory shows that the types of the
  rows stay within the declared ones however the table is used, down to the payload that is sent.
\<close>

section \<open>Columns\<close>

datatype table_type = RequestTable | ResponseTable

text \<open>Which records have a nested table.\<close>

definition showSubParams :: "ParamItem \<Rightarrow> bool" where
  "showSubParams record \<longleftrightarrow>
     pi_type record = ''object'' \<or> (pi_type record = ''array'' \<and> pi_array_child_type record = Some ''object'')"

text \<open>The border of the name cell and of the type cell is drawn as an error.\<close>

definition name_status :: "ParamItem \<Rightarrow> bool" where
  "name_status record \<longleftrightarrow> \<not> legal_text (pi_name record)"

definition type_status :: "ParamItem \<Rightarrow> bool" where
  "type_status record \<longleftrightarrow> pi_type record = []"

definition hasArrayParam :: "ParamItem list \<Rightarrow> bool" where
  "hasArrayParam value = list_ex (\<lambda>item. pi_type item = ''array'') value"

text \<open>
  The editors of a row: inputs for texts, a switch, a choice among \<open>PARAM_TYPES\<close>, a second choice for
  arrays only, and a default value in request tables only.  Children are written by the nested table.
\<close>

fun cell_edit :: "table_type \<Rightarrow> ParamItem \<Rightarrow> field_value \<Rightarrow> bool" where
  "cell_edit t record (SetName v) = True"
| "cell_edit t record (SetType v) = (v \<in> set PARAM_TYPES)"
| "cell_edit t record (SetRequired v) = True"
| "cell_edit t record (SetDescription v) = True"
| "cell_edit t record (SetDefault v) = (t = RequestTable)"
| "cell_edit t record (SetExample v) = True"
| "cell_edit t record (SetArrayChildType v) = (pi_type record = ''array'' \<and> v \<in> set PARAM_TYPES)"
| "cell_edit t record (SetChildren v) = False"
| "cell_edit t record (SetChildrenParams v) = False"

definition child_rows :: "ParamItem \<Rightarrow> ParamItem list" where
  "child_rows record = (case pi_children_params record of None \<Rightarrow> [] | Some cs \<Rightarrow> cs)"

text \<open>
  One use of a table that is not read-only: the new rows and what is passed to \<open>setRejectSubmit\<close>.
  A nested table is given no \<open>setRejectSubmit\<close>; its rows reach the outer table as a change of
  \<open>children_params\<close>.
\<close>

inductive table_step :: "table_type \<Rightarrow> ParamItem list \<Rightarrow> ParamItem list \<Rightarrow> bool \<Rightarrow> bool" for t where
  edit_cell: "record \<in> set value \<Longrightarrow> cell_edit t record fv \<Longrightarrow> handleFieldChange value (pi_id record) fv = (new, reject) \<Longrightarrow>
    table_step t value new reject"
| edit_nested: "record \<in> set value \<Longrightarrow> showSubParams record \<Longrightarrow> table_step t (child_rows record) rows r \<Longrightarrow>
    handleFieldChange value (pi_id record) (SetChildrenParams rows) = (new, reject) \<Longrightarrow> table_step t value new reject"
| remove_row: "record \<in> set value \<Longrightarrow> handleRemove value (pi_id record) = (new, reject) \<Longrightarrow> table_step t value new reject"
| add_row: "handleAdd value generatedId = (new, reject) \<Longrightarrow> table_step t value new reject"

inductive table_session :: "table_type \<Rightarrow> ParamItem list \<Rightarrow> ParamItem list \<Rightarrow> bool" for t where
  session_start: "table_session t value value"
| session_step: "table_session t value rows \<Longrightarrow> table_step t rows new reject \<Longrightarrow> table_session t value new"

section \<open>Types\<close>

text \<open>Every row, at every depth, has a declared type and, if any, a declared element type.\<close>

definition type_ok :: "string \<Rightarrow> string option \<Rightarrow> bool" where
  "type_ok ty act \<longleftrightarrow> ty \<in> set PARAM_TYPES \<and> (case act of None \<Rightarrow> True | Some a \<Rightarrow> a \<in> set PARAM_TYPES)"

fun item_typed :: "ParamItem \<Rightarrow> bool" where
  "item_typed (ParamItem i nm ty rq de df ex act ch chp) \<longleftrightarrow>
     type_ok ty act \<and> (case ch of None \<Rightarrow> True | Some cs \<Rightarrow> list_all item_typed cs) \<and>
     (case chp of None \<Rightarrow> True | Some cs \<Rightarrow> list_all item_typed cs)"

fun req_typed :: "ApiReqParamInput \<Rightarrow> bool" where
  "req_typed (ReqInput nm ty loc rq df de ex act ch) \<longleftrightarrow>
     type_ok ty act \<and> (case ch of None \<Rightarrow> True | Some cs \<Rightarrow> list_all req_typed cs)"

fun resp_typed :: "ApiRespParamInput \<Rightarrow> bool" where
  "resp_typed (RespInput nm ty sc rq de ex act ch) \<longleftrightarrow>
     type_ok ty act \<and> (case ch of None \<Rightarrow> True | Some cs \<Rightarrow> list_all resp_typed cs)"

lemma newItem_typed: "item_typed (newItem g)"
  by (simp add: newItem_def type_ok_def PARAM_TYPES_def)

lemma set_field_typed:
  "cell_edit t r fv \<Longrightarrow> item_typed item \<Longrightarrow> item_typed (set_field fv item)"
  "list_all item_typed rows \<Longrightarrow> item_typed item \<Longrightarrow> item_typed (set_field (SetChildrenParams rows) item)"
  by (cases item; cases fv; simp add: type_ok_def split: option.splits) (cases item; simp)

lemma child_rows_typed: "item_typed r \<Longrightarrow> list_all item_typed (child_rows r)"
  by (cases r) (simp add: child_rows_def split: option.splits)

lemma field_change_typed:
  assumes "\<And>i. item_typed i \<Longrightarrow> item_typed (set_field fv i)" "list_all item_typed vl" "handleFieldChange vl k fv = (new, reject)"
  shows "list_all item_typed new"
proof -
  have "new = map (\<lambda>item. if pi_id item = k then set_field fv item else item) vl"
    using assms(3) by (simp add: handleFieldChange_def Let_def)
  then show ?thesis using assms(1,2) by (auto simp: list_all_iff)
qed

lemma table_step_typed: "table_step t value new reject \<Longrightarrow> list_all item_typed value \<Longrightarrow> list_all item_typed new"
proof (induction rule: table_step.induct)
  case (edit_cell r vl fv new reject)
  show ?case by (rule field_change_typed [OF set_field_typed(1) [OF edit_cell(2)] edit_cell(4) edit_cell(3)])
next
  case (edit_nested r vl rows rj new reject)
  have "item_typed r" using edit_nested.hyps(1) edit_nested.prems unfolding list_all_iff by blast
  then have "list_all item_typed rows" by (intro edit_nested.IH child_rows_typed)
  then show ?case by (rule field_change_typed [OF set_field_typed(2) edit_nested.prems edit_nested.hyps(4)])
next
  case (remove_row r vl new reject)
  then show ?case by (auto simp: handleRemove_def Let_def list_all_iff)
next
  case (add_row vl g new reject)
  then show ?case by (auto simp: handleAdd_def Let_def newItem_typed)
qed

lemma session_typed: "table_session t value new \<Longrightarrow> list_all item_typed value \<Longrightarrow> list_all item_typed new"
  by (induction rule: table_session.induct) (auto dest: table_step_typed)

text \<open>The conversion to the payload keeps the types; an empty element type becomes \<open>null\<close>.\<close>

lemma type_ok_or_null: "type_ok ty act \<Longrightarrow> type_ok ty (or_null act)"
  by (auto simp: type_ok_def or_null_def)

lemma req_item_typed: "item_typed i \<Longrightarrow> req_typed (req_item l i)"
proof (induction i rule: item_typed.induct)
  case (1 i nm ty rq de df ex act ch chp)
  then show ?case
    by (cases ch; cases chp) (auto simp: type_ok_or_null or_array_def list_all_iff)
qed

lemma resp_item_typed: "item_typed i \<Longrightarrow> resp_typed (resp_item c i)"
proof (induction i rule: item_typed.induct)
  case (1 i nm ty rq de df ex act ch chp)
  then show ?case
    by (cases ch; cases chp) (auto simp: type_ok_or_null or_array_def list_all_iff)
qed

text \<open>
  C35: However a parameter table and its nested tables are used, every row keeps a declared type and a
  declared element type at every depth, and so does every parameter of the request or response payload
  made from it.
\<close>

theorem table_types_kept:
  assumes "list_all item_typed value" "table_session t value rows"
  shows "list_all item_typed rows \<and> list_all req_typed (processReqItems rows location) \<and>
    list_all resp_typed (processRespItems rows code)"
  using session_typed [OF assms(2,1)] req_item_typed resp_item_typed
  by (auto simp: processReqItems_def processRespItems_def list_all_iff)

definition demo_rows :: "ParamItem list" where
  "demo_rows = [ParamItem (NumId 1) ''user'' ''object'' True None None None None None None]"

definition demo_rows_nested :: "ParamItem list" where
  "demo_rows_nested = [ParamItem (NumId 1) ''user'' ''object'' True None None None None None (Some [newItem ''a'']) ]"

lemma demo_session: "table_session RequestTable demo_rows demo_rows_nested"
proof -
  have n: "table_step RequestTable (child_rows (hd demo_rows)) [newItem ''a''] True"
    by (rule table_step.add_row [of _ "''a''"])
      (simp add: demo_rows_def child_rows_def handleAdd_def validateData_def item_legal_def newItem_def legal_text_def)
  have h: "handleFieldChange demo_rows (pi_id (hd demo_rows)) (SetChildrenParams [newItem ''a'']) = (demo_rows_nested, False)"
    by (simp add: handleFieldChange_def Let_def demo_rows_def demo_rows_nested_def validateData_def item_legal_def legal_text_def is_space_def)
  have "table_step RequestTable demo_rows demo_rows_nested False"
    by (rule table_step.edit_nested [OF _ _ n h]) (simp_all add: demo_rows_def showSubParams_def)
  then show ?thesis using session_start by (rule session_step [rotated])
qed

theorem table_types_kept_witness:
  "list_all item_typed demo_rows_nested \<and> list_all req_typed (processReqItems demo_rows_nested ''body'')"
proof -
  have "list_all item_typed demo_rows" by (simp add: demo_rows_def type_ok_def PARAM_TYPES_def)
  from table_types_kept [OF this demo_session] show ?thesis by blast
qed

text \<open>
  A row whose type is changed away from \<open>object\<close> loses its nested table but keeps its children, which
  are still sent.
\<close>

lemma children_of_scalar_sent:
  "\<exists>rows. table_session RequestTable demo_rows_nested rows \<and> \<not> showSubParams (hd rows) \<and>
     ri_type (hd (processReqItems rows ''body'')) = ''string'' \<and> ri_children (hd (processReqItems rows ''body'')) \<noteq> None"
proof -
  let ?new = "fst (handleFieldChange demo_rows_nested (NumId 1) (SetType ''string''))"
    and ?r = "snd (handleFieldChange demo_rows_nested (NumId 1) (SetType ''string''))"
  have "table_step RequestTable demo_rows_nested ?new ?r"
    by (rule table_step.edit_cell [of "hd demo_rows_nested" _ _ "SetType ''string''"])
      (simp_all add: demo_rows_nested_def PARAM_TYPES_def)
  then have "table_session RequestTable demo_rows_nested ?new" using session_start by (rule session_step [rotated])
  then show ?thesis
    by (intro exI [of _ ?new])
      (simp add: demo_rows_nested_def handleFieldChange_def Let_def showSubParams_def processReqItems_def or_array_def newItem_def)
qed

end
