(* ===== verification/Fe_Session.thy ===== *)
theory Fe_Session
  imports Fe_Views
begin

text \<open>
  The session of a visitor: the asynchronous methods of \<open>hooks/useUser.tsx\<close> with their requests under way, answered in any
  order, and what a login leaves behind for a reload of the page.
\<close>

section \<open>Requests under way\<close>

text \<open>The part of \<open>fetchUser\<close> before the answer: the request that is sent, if any.\<close>

definition fetch_start :: "persister \<Rightarrow> string \<Rightarrow> 's page \<Rightarrow> http_request option \<times> 's page" where
  "fetch_start persist base p =
     (if us_token (snd p) = [] then (None, p)
      else if us_user (snd p) \<noteq> None \<and> \<not> us_loading (snd p) then (None, p)
      else let p' = zset persist (\<lambda>u. u\<lparr>us_loading := True\<rparr>) p
           in (Some (fe_attach_token (fst p') (fe_GetMyInfo\<lparr>hr_url := base @ hr_url fe_GetMyInfo\<rparr>)), p'))"

text \<open>Without anything in between, the two parts are \<open>fetchUser\<close>.\<close>

lemma fetchUser_parts:
  "fetchUser persist base srv p =
     (case fetch_start persist base p of
        (None, p') \<Rightarrow> p'
      | (Some req, (b, u)) \<Rightarrow>
          (case srv (b_server b) req of
             (Success x, s) \<Rightarrow> fetchUser_done persist (Inr x) (b\<lparr>b_server := s\<rparr>, u)
           | (Failure code msg network, s) \<Rightarrow>
               (case fe_on_error code msg network (b\<lparr>b_server := s\<rparr>) of (m, b') \<Rightarrow> fetchUser_done persist (Inl m) (b', u))))"
  by (auto simp: fetchUser_def fetch_start_def fe_send_def Let_def split: prod.splits reply.splits)

text \<open>
  The page, the profile requests under way as they were sent, the number of logins under way, and whether a login was
  answered, a sign-out made or a profile request sent while another profile request was under way.
\<close>

record 's session =
  ss_page :: "'s page"
  ss_infos :: "http_request list"
  ss_logins :: nat
  ss_overlap :: bool

definition fresh_session :: "'s page \<Rightarrow> 's session" where
  "fresh_session p = \<lparr>ss_page = p, ss_infos = [], ss_logins = 0, ss_overlap = False\<rparr>"

definition overlapping :: "'s session \<Rightarrow> 's session" where
  "overlapping S = S\<lparr>ss_overlap := ss_overlap S \<or> ss_infos S \<noteq> []\<rparr>"

definition begin_fetch :: "persister \<Rightarrow> string \<Rightarrow> 's session \<Rightarrow> 's session" where
  "begin_fetch ps base S =
     (case fetch_start ps base (ss_page S) of
        (None, p) \<Rightarrow> S\<lparr>ss_page := p\<rparr>
      | (Some req, p) \<Rightarrow> (overlapping S)\<lparr>ss_page := p, ss_infos := ss_infos S @ [req]\<rparr>)"

definition answer_info :: "persister \<Rightarrow> nat \<Rightarrow> string + UserResponse \<Rightarrow> 's session \<Rightarrow> 's session" where
  "answer_info ps i r S = S\<lparr>ss_page := fetchUser_done ps r (ss_page S), ss_infos := take i (ss_infos S) @ drop (Suc i) (ss_infos S)\<rparr>"

text \<open>The rest of \<open>login\<close> after an answer with status 200.\<close>

definition answer_login :: "persister \<Rightarrow> string \<Rightarrow> string \<Rightarrow> 's session \<Rightarrow> 's session" where
  "answer_login ps base token S =
     (case ss_page S of (b, u) \<Rightarrow>
       begin_fetch ps base ((overlapping S)\<lparr>ss_page := (b\<lparr>b_token := Some token\<rparr>, u\<lparr>us_token := token\<rparr>), ss_logins := ss_logins S - 1\<rparr>))"

text \<open>
  One step of the page.  \<open>answers req x\<close>: the server may answer the request with \<open>x\<close>; \<open>issues tok\<close>: it may issue the token.
  The response interceptor reloads the page on a network error and on status 401, and the requests under way are lost.
\<close>

inductive session_step ::
    "persister \<Rightarrow> hydrator \<Rightarrow> string \<Rightarrow> (http_request \<Rightarrow> UserResponse \<Rightarrow> bool) \<Rightarrow> (string \<Rightarrow> bool) \<Rightarrow> 's session \<Rightarrow> 's session \<Rightarrow> bool"
  for ps :: persister and hy :: hydrator and base :: string and answers :: "http_request \<Rightarrow> UserResponse \<Rightarrow> bool" and issues :: "string \<Rightarrow> bool"
  where
  fetch: "session_step ps hy base answers issues S (begin_fetch ps base S)"
| info_answered: "i < length (ss_infos S) \<Longrightarrow> answers (ss_infos S ! i) x \<Longrightarrow> session_step ps hy base answers issues S (answer_info ps i (Inr x) S)"
| info_failed: "i < length (ss_infos S) \<Longrightarrow> code \<noteq> Some 401 \<Longrightarrow>
    session_step ps hy base answers issues S (answer_info ps i (Inl (fst (fe_on_error code msg False (fst (ss_page S))))) S)"
| login_sent: "us_user (snd (ss_page S)) = None \<Longrightarrow> session_step ps hy base answers issues S (S\<lparr>ss_logins := ss_logins S + 1\<rparr>)"
| login_answered: "ss_logins S > 0 \<Longrightarrow> issues token \<Longrightarrow> session_step ps hy base answers issues S (answer_login ps base token S)"
| login_refused: "ss_logins S > 0 \<Longrightarrow> session_step ps hy base answers issues S (S\<lparr>ss_page := page_toast m (ss_page S), ss_logins := ss_logins S - 1\<rparr>)"
| logout: "session_step ps hy base answers issues S ((overlapping S)\<lparr>ss_page := fe_logout ps (ss_page S)\<rparr>)"
| reload: "session_step ps hy base answers issues S (fresh_session (user_init hy (fst (ss_page S))))"
| expired: "network \<or> code = Some 401 \<Longrightarrow>
    session_step ps hy base answers issues S (fresh_session (user_init hy (snd (fe_on_error code msg network (fst (ss_page S))))))"
| other: "t \<ge> b_now (fst (ss_page S)) \<Longrightarrow>
    session_step ps hy base answers issues S (S\<lparr>ss_page := on_browser (\<lambda>b. b\<lparr>b_now := t, b_server := s\<rparr>) (ss_page S)\<rparr>)"

inductive session_run ::
    "persister \<Rightarrow> hydrator \<Rightarrow> string \<Rightarrow> (http_request \<Rightarrow> UserResponse \<Rightarrow> bool) \<Rightarrow> (string \<Rightarrow> bool) \<Rightarrow> 's session \<Rightarrow> bool"
  for ps :: persister and hy :: hydrator and base :: string and answers :: "http_request \<Rightarrow> UserResponse \<Rightarrow> bool" and issues :: "string \<Rightarrow> bool"
  where
  load: "session_run ps hy base answers issues (fresh_session (user_init hy b))"
| step: "session_run ps hy base answers issues S \<Longrightarrow> session_step ps hy base answers issues S S' \<Longrightarrow> session_run ps hy base answers issues S'"

text \<open>The server knows who asks only by a token, and a token is not empty.\<close>

definition server_law :: "(http_request \<Rightarrow> UserResponse \<Rightarrow> bool) \<Rightarrow> (string \<Rightarrow> bool) \<Rightarrow> bool" where
  "server_law answers issues \<longleftrightarrow> (\<forall>req x. answers req x \<longrightarrow> ur_status x = 200 \<longrightarrow> hr_auth req \<noteq> None) \<and> \<not> issues []"

section \<open>The invariant\<close>

definition token_stored :: "'s page \<Rightarrow> bool" where
  "token_stored p \<longleftrightarrow> truthy_str (b_token (fst p))"

definition session_inv :: "'s session \<Rightarrow> bool" where
  "session_inv S \<longleftrightarrow>
     (ss_infos S = [] \<longrightarrow> \<not> us_loading (snd (ss_page S))) \<and>
     (\<not> ss_overlap S \<longrightarrow> (us_user (snd (ss_page S)) \<noteq> None \<longrightarrow> token_stored (ss_page S)) \<and> length (ss_infos S) \<le> 1 \<and>
        (\<forall>req\<in>set (ss_infos S). hr_auth req \<noteq> None \<longrightarrow> token_stored (ss_page S)))"

lemma inv_fresh: "persist_ok ps hy \<Longrightarrow> session_inv (fresh_session (user_init hy b))"
  using session_ok_init [of ps hy b] by (simp add: session_inv_def fresh_session_def session_ok_def token_stored_def)

lemma attached_token: "hr_auth (fe_attach_token b (fe_GetMyInfo\<lparr>hr_url := url\<rparr>)) \<noteq> None \<Longrightarrow> truthy_str (b_token b)"
  by (cases "b_token b") (auto simp: fe_attach_token_def getAccessToken_def Let_def fe_GetMyInfo_def get_request_def split: if_splits)

lemma inv_begin:
  assumes "session_inv S"
  shows "session_inv (begin_fetch ps base S)"
proof -
  obtain r p where Pair: "fetch_start ps base (ss_page S) = (r, p)" by (rule prod.exhaust)
  show ?thesis
  proof (cases r)
    case None
    then show ?thesis using assms Pair by (auto simp: begin_fetch_def fetch_start_def Let_def session_inv_def split: if_splits)
  next
    case (Some req)
    then have p: "p = zset ps (\<lambda>u. u\<lparr>us_loading := True\<rparr>) (ss_page S)" "req = fe_attach_token (fst p) (fe_GetMyInfo\<lparr>hr_url := base @ hr_url fe_GetMyInfo\<rparr>)"
      using Pair by (auto simp: fetch_start_def Let_def split: if_splits)
    have "hr_auth req \<noteq> None \<Longrightarrow> token_stored p" using attached_token unfolding p(2) token_stored_def by blast
    then show ?thesis
      using assms Pair Some p(1) by (auto simp: begin_fetch_def overlapping_def session_inv_def token_stored_def)
  qed
qed

lemma inv_answer_info:
  assumes "session_inv S" "i < length (ss_infos S)" "\<And>x. r = Inr x \<Longrightarrow> ur_status x = 200 \<Longrightarrow> hr_auth (ss_infos S ! i) \<noteq> None"
  shows "session_inv (answer_info ps i r S)"
proof -
  have one: "take i (ss_infos S) @ drop (Suc i) (ss_infos S) = []" if "length (ss_infos S) \<le> 1" using that assms(2) by simp
  have "token_stored (fetchUser_done ps r (ss_page S))"
    if "\<not> ss_overlap S" "us_user (snd (fetchUser_done ps r (ss_page S))) \<noteq> None"
    using that assms nth_mem [OF assms(2)]
    by (auto simp: session_inv_def token_stored_def fetchUser_done_facts split: sum.splits if_splits)
  then show ?thesis using assms(1) one by (auto simp: session_inv_def answer_info_def fetchUser_done_facts(1))
qed

lemma inv_answer_login:
  assumes "session_inv S" "token \<noteq> []"
  shows "session_inv (answer_login ps base token S)"
proof -
  obtain b u where p: "ss_page S = (b, u)" by (cases "ss_page S")
  have "session_inv ((overlapping S)\<lparr>ss_page := (b\<lparr>b_token := Some token\<rparr>, u\<lparr>us_token := token\<rparr>), ss_logins := ss_logins S - 1\<rparr>)"
    using assms p by (auto simp: session_inv_def overlapping_def token_stored_def truthy_str_def)
  then show ?thesis using inv_begin by (simp add: answer_login_def p)
qed

lemma inv_step:
  assumes "session_step ps hy base answers issues S S'" "persist_ok ps hy" "server_law answers issues" "session_inv S"
  shows "session_inv S'"
  using assms(1)
proof cases
  case (info_answered i x)
  then show ?thesis using inv_answer_info [OF assms(4) info_answered(2), of "Inr x" ps] assms(3) by (auto simp: server_law_def)
next
  case (info_failed i code msg)
  then show ?thesis using inv_answer_info [OF assms(4) info_failed(2)] by auto
next
  case (login_answered token)
  moreover have "token \<noteq> []" using login_answered assms(3) by (auto simp: server_law_def)
  ultimately show ?thesis using inv_answer_login [OF assms(4)] by simp
next
  case logout
  then show ?thesis using assms(4)
    by (cases "ss_page S") (auto simp: session_inv_def overlapping_def fe_logout_def token_stored_def)
next
  case fetch
  then show ?thesis using inv_begin [OF assms(4)] by simp
next
  case login_sent
  then show ?thesis using assms(4) by (simp add: session_inv_def)
next
  case login_refused
  then show ?thesis using assms(4) by (simp add: session_inv_def token_stored_def)
next
  case other
  then show ?thesis using assms(4) by (simp add: session_inv_def token_stored_def)
qed (use inv_fresh [OF assms(2)] in simp_all)

lemma inv_run: "session_run ps hy base answers issues S \<Longrightarrow> persist_ok ps hy \<Longrightarrow> server_law answers issues \<Longrightarrow> session_inv S"
  by (induction rule: session_run.induct) (auto intro: inv_fresh inv_step)

text \<open>
  C28: In every run of the page, with requests under way and answered in any order, the store is not loading once none of its
  requests is under way; and a user is shown only while a token is stored, unless a login was answered, a sign-out
  made or another profile request sent while a profile request was under way.
\<close>

theorem shown_user_has_token:
  assumes "persist_ok ps hy" "server_law answers issues" "session_run ps hy base answers issues S"
  shows "(ss_infos S = [] \<longrightarrow> \<not> us_loading (snd (ss_page S))) \<and>
    (\<not> ss_overlap S \<and> us_user (snd (ss_page S)) \<noteq> None \<longrightarrow> usable_token (fst (ss_page S)) \<noteq> None)"
  using inv_run [OF assms(3,1,2)]
  by (cases "b_token (fst (ss_page S))") (auto simp: session_inv_def token_stored_def usable_token_def getAccessToken_def Let_def)

text \<open>A server that knows one visitor, and the runs of a page on it.\<close>

definition demo_answers :: "http_request \<Rightarrow> UserResponse \<Rightarrow> bool" where
  "demo_answers req x \<longleftrightarrow> hr_auth req = Some ''Bearer tok'' \<and> x = \<lparr>ur_status = 200, ur_message = [], ur_user = Some demo_profile\<rparr>"

lemma demo_server_law: "server_law demo_answers (\<lambda>tok. tok = ''tok'')"
  by (simp add: server_law_def demo_answers_def)

definition demo_returning :: "unit session" where
  "demo_returning = fresh_session (user_init demo_hydrate (empty_browser\<lparr>b_token := Some ''tok''\<rparr>))"

abbreviation demo_run_session :: "unit session \<Rightarrow> bool" where
  "demo_run_session \<equiv> session_run demo_persist demo_hydrate [] demo_answers (\<lambda>tok. tok = ''tok'')"

definition demo_my_info :: UserResponse where
  "demo_my_info = \<lparr>ur_status = 200, ur_message = [], ur_user = Some demo_profile\<rparr>"

lemma demo_fetching: "demo_run_session (begin_fetch demo_persist [] demo_returning)"
proof -
  have "demo_run_session demo_returning" unfolding demo_returning_def by (rule session_run.load)
  then show ?thesis by (rule session_run.step [OF _ session_step.fetch])
qed

lemma demo_fetching_values:
  "ss_infos (begin_fetch demo_persist [] demo_returning) = [fe_GetMyInfo\<lparr>hr_auth := Some ''Bearer tok''\<rparr>]" "us_user (snd (ss_page (begin_fetch demo_persist [] demo_returning))) = None"
  by code_simp+

theorem shown_user_has_token_witness:
  "let S = answer_info demo_persist 0 (Inr demo_my_info) (begin_fetch demo_persist [] demo_returning) in
    us_user (snd (ss_page S)) = Some demo_profile \<and> usable_token (fst (ss_page S)) \<noteq> None"
proof -
  let ?S = "begin_fetch demo_persist [] demo_returning"
  let ?S' = "answer_info demo_persist 0 (Inr demo_my_info) ?S"
  have "session_step demo_persist demo_hydrate [] demo_answers (\<lambda>tok. tok = ''tok'') ?S ?S'"
    by (rule session_step.info_answered) (simp_all add: demo_fetching_values demo_answers_def demo_my_info_def)
  then have run: "demo_run_session ?S'" by (rule session_run.step [OF demo_fetching])
  have "\<not> ss_overlap ?S'" "us_user (snd (ss_page ?S')) = Some demo_profile" by code_simp+
  then show ?thesis using shown_user_has_token [OF demo_persist_ok demo_server_law run] by (simp add: Let_def)
qed

text \<open>
  Without the condition it fails: a visitor whose profile is being fetched signs in; the first request fails with status 500,
  which removes the new token, and the answer to the second one shows the user.
\<close>

definition demo_overlap :: "unit session" where
  "demo_overlap = answer_info demo_persist 0 (Inr demo_my_info) (answer_info demo_persist 0 (Inl ''Request error'')
     (answer_login demo_persist [] ''tok'' ((begin_fetch demo_persist [] demo_returning)\<lparr>ss_logins := 1\<rparr>)))"

lemma overlap_shows_user_without_token:
  "demo_run_session demo_overlap \<and> us_user (snd (ss_page demo_overlap)) = Some demo_profile \<and> usable_token (fst (ss_page demo_overlap)) = None"
proof -
  let ?S0 = "begin_fetch demo_persist [] demo_returning"
  let ?S1 = "?S0\<lparr>ss_logins := 1\<rparr>"
  let ?S2 = "answer_login demo_persist [] ''tok'' ?S1"
  let ?S3 = "answer_info demo_persist 0 (Inl ''Request error'') ?S2"
  have "demo_run_session (?S0\<lparr>ss_logins := ss_logins ?S0 + 1\<rparr>)"
    by (intro session_run.step [OF demo_fetching] session_step.login_sent demo_fetching_values)
  moreover have "ss_logins ?S0 = 0" by code_simp
  ultimately have 1: "demo_run_session ?S1" by simp
  have 2: "demo_run_session ?S2" by (intro session_run.step [OF 1] session_step.login_answered) simp_all
  have i2: "ss_infos ?S2 = [fe_GetMyInfo\<lparr>hr_auth := Some ''Bearer tok''\<rparr>, fe_GetMyInfo\<lparr>hr_auth := Some ''Bearer tok''\<rparr>]" by code_simp
  have "demo_run_session (answer_info demo_persist 0 (Inl (fst (fe_on_error (Some 500) [] False (fst (ss_page ?S2))))) ?S2)"
    by (intro session_run.step [OF 2] session_step.info_failed) (simp_all add: i2 [unfolded One_nat_def])
  then have 3: "demo_run_session ?S3" by (simp add: fe_on_error_def)
  have i3: "ss_infos ?S3 = [fe_GetMyInfo\<lparr>hr_auth := Some ''Bearer tok''\<rparr>]" unfolding answer_info_def i2 by simp
  have "session_step demo_persist demo_hydrate [] demo_answers (\<lambda>tok. tok = ''tok'') ?S3 demo_overlap"
    unfolding demo_overlap_def using i3 by (intro session_step.info_answered) (simp_all add: demo_answers_def demo_my_info_def)
  then have "demo_run_session demo_overlap" by (rule session_run.step [OF 3])
  moreover have "us_user (snd (ss_page demo_overlap)) = Some demo_profile" "b_token (fst (ss_page demo_overlap)) = None" by code_simp+
  ultimately show ?thesis by (simp add: usable_token_def getAccessToken_def)
qed

section \<open>A login and a reload\<close>

text \<open>
  C29: A successful login of a visitor with an accepted token shows the profile the server returns and makes every later request
  carry the token.  A page loaded again within an hour shows the same user from the start and asks nothing; later it
  starts without a user, and the effect of \<open>App\<close> asks for the profile with the stored token, so that the user the
  server then returns is shown again.
\<close>

theorem login_restores:
  assumes "persist_ok ps hy" and "fe_send base sl (fe_UserLogin f) b = (Inr res, b1)" and "lr_status res = 200"
    and "lr_access_token res = tok" and "tok \<noteq> []" and "us_user u = None"
    and "fe_send base si fe_GetMyInfo (fst (zset ps (\<lambda>u. u\<lparr>us_loading := True\<rparr>) (b1\<lparr>b_token := Some tok\<rparr>, u))) = (Inr info, b2)"
    and "ur_status info = 200" and "ur_user info = Some prof"
  shows "\<exists>b' u'. fe_login ps base sl si f (b, u) = (Inr res, (b', u')) \<and> us_user u' = Some prof \<and> usable_token b' = Some tok \<and>
    (\<forall>t. let p = user_init hy (b'\<lparr>b_now := t\<rparr>) in
       if t \<le> b_now b2 + USER_STORE_TTL then us_user (snd p) = Some prof \<and> app_effect ps base si p = p
       else us_user (snd p) = None \<and>
         (\<exists>p1. fetch_start ps base p = (Some (fe_GetMyInfo\<lparr>hr_url := base @ hr_url fe_GetMyInfo, hr_auth := Some (''Bearer '' @ tok)\<rparr>), p1)) \<and>
         (\<forall>x s. si (b_server b') (fe_GetMyInfo\<lparr>hr_url := base @ hr_url fe_GetMyInfo, hr_auth := Some (''Bearer '' @ tok)\<rparr>) = (Success x, s) \<and>
            ur_status x = 200 \<longrightarrow> us_user (snd (app_effect ps base si p)) = ur_user x \<and> usable_token (fst (app_effect ps base si p)) = Some tok))"
proof -
  let ?p = "(b1\<lparr>b_token := Some tok\<rparr>, u\<lparr>us_token := tok\<rparr>)"
  let ?z = "zset ps (\<lambda>u. u\<lparr>us_loading := True\<rparr>)"
  have z: "fst (?z ?p) = fst (?z (b1\<lparr>b_token := Some tok\<rparr>, u))" by (simp add: zset_def)
  have fu: "fetchUser ps base si ?p = fetchUser_done ps (Inr info) (b2, snd (?z ?p))"
    using assms(5,6,7) unfolding z [symmetric] by (simp add: fetchUser_def case_prod_beta)
  define b' where "b' = fst (fetchUser_done ps (Inr info) (b2, snd (?z ?p)))"
  define u' where "u' = snd (fetchUser_done ps (Inr info) (b2, snd (?z ?p)))"
  have l: "fe_login ps base sl si f (b, u) = (Inr res, (b', u'))"
    using assms(2,3,4) fu by (simp add: fe_login_def Let_def b'_def u'_def)
  have tok: "b_token b' = Some tok"
    using fe_send_ok(1) [OF assms(7)] assms(8) by (simp add: b'_def fetchUser_done_facts)
  have shown: "us_user u' = Some prof" by (simp add: u'_def fetchUser_done_facts assms(8,9))
  have kept: "hy (b_user_store b') = Some prof" "b_ttl b' = Some (b_now b2 + USER_STORE_TTL)"
    using assms(1,8,9) by (simp_all add: b'_def fetchUser_done_def persist_ok_def)
  let ?req = "fe_GetMyInfo\<lparr>hr_url := base @ hr_url fe_GetMyInfo, hr_auth := Some (''Bearer '' @ tok)\<rparr>"
  have "let p = user_init hy (b'\<lparr>b_now := t\<rparr>) in
       if t \<le> b_now b2 + USER_STORE_TTL then us_user (snd p) = Some prof \<and> app_effect ps base si p = p
       else us_user (snd p) = None \<and> (\<exists>p1. fetch_start ps base p = (Some ?req, p1)) \<and>
         (\<forall>x s. si (b_server b') ?req = (Success x, s) \<and> ur_status x = 200 \<longrightarrow>
            us_user (snd (app_effect ps base si p)) = ur_user x \<and> usable_token (fst (app_effect ps base si p)) = Some tok)" for t
  proof -
    define p where "p = user_init hy (b'\<lparr>b_now := t\<rparr>)"
    have u: "us_user (snd p) = (if t \<le> b_now b2 + USER_STORE_TTL then Some prof else None)" "us_token (snd p) = tok" "\<not> us_loading (snd p)"
      using tok kept assms(1,5) by (auto simp: p_def user_init_def Let_def init_browser_store persist_ok_def)
    have b: "b_token (fst p) = Some tok" "b_server (fst p) = b_server b'"
      using tok by (auto simp: p_def user_init_def Let_def init_browser_def split: option.splits)
    have sent: "fetch_start ps base p = (Some ?req, zset ps (\<lambda>u. u\<lparr>us_loading := True\<rparr>) p)" if "us_user (snd p) = None"
      using that u(2) b(1) assms(5)
      by (simp add: fetch_start_def Let_def fe_attach_token_def getAccessToken_def or_str_def truthy_str_def fe_GetMyInfo_def get_request_def)
    have again: "us_user (snd (app_effect ps base si p)) = ur_user x \<and> usable_token (fst (app_effect ps base si p)) = Some tok"
      if "us_user (snd p) = None" "si (b_server b') ?req = (Success x, s)" "ur_status x = 200" for x s
    proof -
      let ?z = "zset ps (\<lambda>u. u\<lparr>us_loading := True\<rparr>) p"
      have z: "b_server (fst ?z) = b_server b'" "b_token (fst ?z) = Some tok" using b by (cases p; simp add: zset_def)+
      have "app_effect ps base si p = fetchUser_done ps (Inr x) ((fst ?z)\<lparr>b_server := s\<rparr>, snd ?z)"
        using that b(1) assms(5) z(1) sent [OF that(1)]
        by (simp add: app_effect_def getAccessToken_def or_str_def truthy_str_def fetchUser_parts case_prod_beta)
      then show ?thesis using that(3) z(2) assms(5) by (simp add: fetchUser_done_facts usable_token_def getAccessToken_def or_str_def truthy_str_def)
    qed
    show ?thesis
    proof (cases "t \<le> b_now b2 + USER_STORE_TTL")
      case True
      then show ?thesis using u(1) unfolding p_def [symmetric] by (simp add: app_effect_def)
    next
      case False
      then have "us_user (snd p) = None" using u(1) by simp
      then show ?thesis using False sent again unfolding p_def [symmetric] by auto
    qed
  qed
  then show ?thesis using l shown tok assms(5) by (intro exI [of _ b'] exI [of _ u']) (simp add: usable_token_def getAccessToken_def or_str_def truthy_str_def)
qed

theorem login_restores_witness:
  "\<exists>b' u'. fe_login demo_persist [] demo_login_srv demo_info_srv \<lparr>lq_username = ''bo'', lq_password = ''p''\<rparr>
       (user_init demo_hydrate empty_browser) =
     (Inr \<lparr>lr_status = 200, lr_message = [], lr_access_token = ''tok''\<rparr>, (b', u')) \<and>
     us_user (snd (user_init demo_hydrate (b'\<lparr>b_now := 3600006\<rparr>))) = None \<and>
     us_user (snd (app_effect demo_persist [] demo_info_srv (user_init demo_hydrate (b'\<lparr>b_now := 3600006\<rparr>)))) = Some demo_profile"
proof -
  let ?res = "\<lparr>lr_status = 200, lr_message = [], lr_access_token = ''tok''\<rparr>"
  let ?b = "fst (user_init demo_hydrate empty_browser)" and ?u = "snd (user_init demo_hydrate empty_browser)"
  let ?f = "\<lparr>lq_username = ''bo'', lq_password = ''p''\<rparr>"
  let ?bz = "fst (zset demo_persist (\<lambda>u. u\<lparr>us_loading := True\<rparr>) (?b\<lparr>b_token := Some ''tok''\<rparr>, ?u))"
  have 1: "fe_send [] demo_login_srv (fe_UserLogin ?f) ?b = (Inr ?res, ?b)" "us_user ?u = None" by code_simp+
  have 2: "fe_send [] demo_info_srv fe_GetMyInfo ?bz = (Inr \<lparr>ur_status = 200, ur_message = [], ur_user = Some demo_profile\<rparr>, ?bz)"
    "b_now ?bz = 5" by code_simp+
  have 3: "demo_info_srv s (fe_GetMyInfo\<lparr>hr_url := [] @ hr_url fe_GetMyInfo, hr_auth := Some (''Bearer '' @ ''tok'')\<rparr>) =
      (Success \<lparr>ur_status = 200, ur_message = [], ur_user = Some demo_profile\<rparr>, ())" for s
    by (simp add: demo_info_srv_def)
  obtain b' u' where l: "fe_login demo_persist [] demo_login_srv demo_info_srv ?f (?b, ?u) = (Inr ?res, (b', u'))"
    and r: "\<And>t. let p = user_init demo_hydrate (b'\<lparr>b_now := t\<rparr>) in
       if t \<le> b_now ?bz + USER_STORE_TTL then us_user (snd p) = Some demo_profile \<and> app_effect demo_persist [] demo_info_srv p = p
       else us_user (snd p) = None \<and>
         (\<exists>p1. fetch_start demo_persist [] p = (Some (fe_GetMyInfo\<lparr>hr_url := [] @ hr_url fe_GetMyInfo, hr_auth := Some (''Bearer '' @ ''tok'')\<rparr>), p1)) \<and>
         (\<forall>x s. demo_info_srv (b_server b') (fe_GetMyInfo\<lparr>hr_url := [] @ hr_url fe_GetMyInfo, hr_auth := Some (''Bearer '' @ ''tok'')\<rparr>) = (Success x, s) \<and>
            ur_status x = 200 \<longrightarrow> us_user (snd (app_effect demo_persist [] demo_info_srv p)) = ur_user x \<and>
              usable_token (fst (app_effect demo_persist [] demo_info_srv p)) = Some ''tok'')"
    using login_restores [OF demo_persist_ok 1(1) _ _ _ 1(2) 2(1)] by auto
  have "us_user (snd (user_init demo_hydrate (b'\<lparr>b_now := 3600006\<rparr>))) = None \<and>
     us_user (snd (app_effect demo_persist [] demo_info_srv (user_init demo_hydrate (b'\<lparr>b_now := 3600006\<rparr>)))) = Some demo_profile"
    using r [of 3600006] 2(2) 3 by (simp add: Let_def USER_STORE_TTL_def)
  then show ?thesis using l by auto
qed

end
