(* ===== verification/Be_Params.thy ===== *)
theory Be_Params
  imports Api_Types "HOL-Library.Multiset"
begin

text \<open>
  The parameters of an API in the back end (\<open>BE-CAM/services/api.py\<close>, \<open>services/utils.py\<close>).  The editor sends a
  tree; the server stores it as rows that refer to the row of their parent
  (\<open>_process_params_recursively\<close>), copies rows (\<open>_copy_params_recursively\<close>, the loops of
  \<open>serviceStartIteration\<close> and \<open>serviceCommitIteration\<close>), and builds the tree again when it is asked for
  (\<open>organizeReqParams\<close>, \<open>organizeRespParams\<close>).

  The database is a parameter only in what SQL leaves open: a query without \<open>ORDER BY\<close> returns the rows in
  any order, so trees are compared up to the order of siblings.
\<close>

section \<open>Tables\<close>

text \<open>A table: its rows, and the next value of the sequence its ids are drawn from.\<close>

record 'r table =
  tb_rows :: "'r list"
  tb_seq :: int

definition insert_row :: "(int \<Rightarrow> 'r) \<Rightarrow> 'r table \<Rightarrow> int \<times> 'r table" where
  "insert_row f t = (tb_seq t, \<lparr>tb_rows = tb_rows t @ [f (tb_seq t)], tb_seq = tb_seq t + 1\<rparr>)"

definition get_row :: "('r \<Rightarrow> int) \<Rightarrow> 'r table \<Rightarrow> int \<Rightarrow> 'r option" where
  "get_row key t i = List.find (\<lambda>r. key r = i) (tb_rows t)"

definition update_row :: "('r \<Rightarrow> int) \<Rightarrow> int \<Rightarrow> ('r \<Rightarrow> 'r) \<Rightarrow> 'r table \<Rightarrow> 'r table" where
  "update_row key i f t = t\<lparr>tb_rows := map (\<lambda>r. if key r = i then f r else r) (tb_rows t)\<rparr>"

definition delete_rows :: "('r \<Rightarrow> bool) \<Rightarrow> 'r table \<Rightarrow> 'r table" where
  "delete_rows P t = t\<lparr>tb_rows := filter (\<lambda>r. \<not> P r) (tb_rows t)\<rparr>"

section \<open>Rows of parameters\<close>

text \<open>
  \<open>RequestParam\<close>, \<open>ResponseParam\<close> and their drafts: the rows of requests have a location, those of responses a
  status code, and the other member is \<open>None\<close>.
\<close>

record be_row =
  pr_id :: int
  pr_api :: int
  pr_name :: string
  pr_location :: "string option"
  pr_status :: "int option"
  pr_type :: string
  pr_required :: bool
  pr_default :: "string option"
  pr_description :: "string option"
  pr_example :: "string option"
  pr_act :: "string option"
  pr_parent :: "int option"

text \<open>A parameter of the payload, with the members the server reads with \<open>get\<close>.\<close>

datatype be_param = BeParam
  (bp_name: string)
  (bp_type: string)
  (bp_location: "string option")
  (bp_status: "int option")
  (bp_required: bool)
  (bp_default: "string option")
  (bp_description: "string option")
  (bp_example: "string option")
  (bp_act: "string option")
  (bp_children: "be_param list option")

text \<open>The conversions to the enumerations, with their fallbacks.\<close>

definition location_enum :: "string \<Rightarrow> string" where
  "location_enum l = (if l \<in> set ParamLocations then l else ''body'')"

definition type_enum :: "string \<Rightarrow> string" where
  "type_enum t = (if t \<in> set ParamTypes then t else ''string'')"

definition child_type_enum :: "string option \<Rightarrow> string option" where
  "child_type_enum a = (case a of None \<Rightarrow> None | Some t \<Rightarrow> if t \<in> set ParamTypes then Some t else None)"

definition param_location :: "string option \<Rightarrow> string option \<Rightarrow> string" where
  "param_location parent_location own =
     (case parent_location of
        Some l \<Rightarrow> if l \<noteq> [] then l else (case own of Some o' \<Rightarrow> o' | None \<Rightarrow> ''body'')
      | None \<Rightarrow> (case own of Some o' \<Rightarrow> o' | None \<Rightarrow> ''body''))"

text \<open>Whether the children of a parameter are stored.\<close>

definition nested :: "string \<Rightarrow> string option \<Rightarrow> bool" where
  "nested ty act \<longleftrightarrow> type_enum ty = ''object'' \<or> (type_enum ty = ''array'' \<and> child_type_enum act = Some ''object'')"

datatype param_kind = RequestKind | ResponseKind

definition param_record :: "param_kind \<Rightarrow> int \<Rightarrow> int option \<Rightarrow> string option \<Rightarrow> be_param \<Rightarrow> int \<Rightarrow> be_row" where
  "param_record kind api parent parent_location p i =
     \<lparr>pr_id = i, pr_api = api, pr_name = bp_name p,
      pr_location = (case kind of RequestKind \<Rightarrow> Some (location_enum (param_location parent_location (bp_location p))) | ResponseKind \<Rightarrow> None),
      pr_status = (case kind of RequestKind \<Rightarrow> None | ResponseKind \<Rightarrow> Some (case bp_status p of Some c \<Rightarrow> c | None \<Rightarrow> 200)),
      pr_type = type_enum (bp_type p), pr_required = bp_required p,
      pr_default = (case kind of RequestKind \<Rightarrow> bp_default p | ResponseKind \<Rightarrow> None),
      pr_description = bp_description p, pr_example = bp_example p, pr_act = child_type_enum (bp_act p), pr_parent = parent\<rparr>"

fun process_params :: "param_kind \<Rightarrow> int \<Rightarrow> int option \<Rightarrow> string option \<Rightarrow> be_param list \<Rightarrow> be_row table \<Rightarrow> be_row table" where
  "process_params kind api parent ploc [] t = t"
| "process_params kind api parent ploc (BeParam nm ty loc st rq df de ex act ch # ps) t =
     (let p = BeParam nm ty loc st rq df de ex act ch;
          (i, t1) = insert_row (param_record kind api parent ploc p) t;
          t2 = (case ch of
                  None \<Rightarrow> t1
                | Some cs \<Rightarrow> if nested ty act then process_params kind api (Some i) (Some (param_location ploc loc)) cs t1 else t1)
      in process_params kind api parent ploc ps t2)"

section \<open>Building the tree\<close>

text \<open>
  \<open>organizeReqParams\<close> and \<open>organizeRespParams\<close>: a row with a parent (an id that is not \<open>0\<close>) is appended to
  the children of that parent if the parent is among the rows, any other row is a root.  The nesting that
  results is unfolded here up to the number of rows, which no chain of distinct rows exceeds.
\<close>

datatype ptree = PNode (pt_row: be_row) (pt_children: "ptree list")

definition is_root :: "be_row \<Rightarrow> bool" where
  "is_root p \<longleftrightarrow> pr_parent p = None \<or> pr_parent p = Some 0"

definition children_of :: "be_row list \<Rightarrow> be_row \<Rightarrow> be_row list" where
  "children_of rows p = filter (\<lambda>c. \<not> is_root c \<and> pr_parent c = Some (pr_id p)) rows"

fun subtree :: "nat \<Rightarrow> be_row list \<Rightarrow> be_row \<Rightarrow> ptree" where
  "subtree 0 rows p = PNode p []"
| "subtree (Suc n) rows p = PNode p (map (subtree n rows) (children_of rows p))"

definition roots_where :: "(be_row \<Rightarrow> bool) \<Rightarrow> be_row list \<Rightarrow> ptree list" where
  "roots_where P rows = map (subtree (length rows) rows) (filter (\<lambda>p. is_root p \<and> P p) rows)"

definition organizeReqParams :: "be_row list \<Rightarrow> ptree list js_obj" where
  "organizeReqParams rows =
     map (\<lambda>l. (l, roots_where (\<lambda>p. pr_location p = Some l) rows)) [''query'', ''path'', ''header'', ''cookie'', ''body'']"

text \<open>The dictionary of responses is filled on demand: its keys are the codes of the roots.\<close>

definition organizeRespParams :: "be_row list \<Rightarrow> (int \<times> ptree list) list" where
  "organizeRespParams rows =
     map (\<lambda>c. (c, roots_where (\<lambda>p. pr_status p = Some c) rows))
       (rev (remdups (rev (List.map_filter pr_status (filter is_root rows)))))"

section \<open>Forests\<close>

text \<open>The rows of a forest, each parent before its children, and its ids.\<close>

fun rows_of_forest :: "ptree list \<Rightarrow> be_row list" where
  "rows_of_forest [] = []"
| "rows_of_forest (PNode r cs # ts) = r # rows_of_forest cs @ rows_of_forest ts"

abbreviation ids_of_forest :: "ptree list \<Rightarrow> int list" where
  "ids_of_forest ts \<equiv> map pr_id (rows_of_forest ts)"

text \<open>Every row refers to the row above it, the roots to \<open>q\<close>; no id is \<open>0\<close>.\<close>

fun linked :: "int option \<Rightarrow> ptree list \<Rightarrow> bool" where
  "linked q [] \<longleftrightarrow> True"
| "linked q (PNode r cs # ts) \<longleftrightarrow> pr_parent r = q \<and> pr_id r \<noteq> 0 \<and> linked (Some (pr_id r)) cs \<and> linked q ts"

fun forest_depth :: "ptree list \<Rightarrow> nat" where
  "forest_depth [] = 0"
| "forest_depth (PNode r cs # ts) = max (Suc (forest_depth cs)) (forest_depth ts)"

lemma forest_depth_le: "forest_depth ts \<le> length (rows_of_forest ts)"
  by (induction ts rule: forest_depth.induct) simp_all

lemma roots_in_rows: "t \<in> set ts \<Longrightarrow> pt_row t \<in> set (rows_of_forest ts)"
  by (induction ts rule: rows_of_forest.induct) auto

text \<open>The trees a set of rows contains: the rows that refer to a row are the roots of its children.\<close>

fun forest_in :: "be_row list \<Rightarrow> ptree list \<Rightarrow> bool" where
  "forest_in R [] \<longleftrightarrow> True"
| "forest_in R (PNode r cs # ts) \<longleftrightarrow>
     mset (children_of R r) = mset (map pt_row cs) \<and> forest_in R cs \<and> forest_in R ts"

lemma filter_parent_forest:
  assumes "linked q ts" "i \<notin> set (ids_of_forest ts)"
  shows "filter (\<lambda>x. pr_parent x = Some i) (rows_of_forest ts) = (if q = Some i then map pt_row ts else [])"
  using assms by (induction q ts rule: linked.induct) auto

lemma parent_linked: "linked q ts \<Longrightarrow> x \<in> set (rows_of_forest ts) \<Longrightarrow> pr_parent x = q \<or> (\<exists>i\<in>set (ids_of_forest ts). pr_parent x = Some i)"
  by (induction q ts rule: linked.induct) auto

lemma forest_in_context:
  assumes "linked q ts" "distinct (ids_of_forest ts)" "\<forall>x\<in>set E. \<forall>i\<in>set (ids_of_forest ts). pr_parent x \<noteq> Some i"
    and "\<forall>i\<in>set (ids_of_forest ts). q \<noteq> Some i" "mset R = mset (rows_of_forest ts) + mset E"
  shows "forest_in R ts"
  using assms
proof (induction ts arbitrary: q E rule: rows_of_forest.induct)
  case (2 r cs ts)
  let ?P = "\<lambda>x. pr_parent x = Some (pr_id r)"
  have nz: "pr_id r \<noteq> 0" and l: "linked (Some (pr_id r)) cs" "linked q ts" using "2.prems"(1) by simp_all
  have d: "pr_id r \<notin> set (ids_of_forest cs)" "pr_id r \<notin> set (ids_of_forest ts)"
    "distinct (ids_of_forest cs)" "distinct (ids_of_forest ts)"
    "set (ids_of_forest cs) \<inter> set (ids_of_forest ts) = {}" using "2.prems"(2) by auto
  have "children_of R r = filter ?P R" unfolding children_of_def by (rule filter_cong) (auto simp: is_root_def nz)
  then have "mset (children_of R r) = filter_mset ?P (mset R)" by simp
  also have "\<dots> = mset (filter ?P (r # rows_of_forest cs)) + mset (filter ?P (rows_of_forest ts)) + mset (filter ?P E)"
    unfolding "2.prems"(5) by simp
  also have "filter ?P (rows_of_forest ts) = []"
    using filter_parent_forest [OF l(2) d(2)] "2.prems"(4) by simp
  also have "filter ?P E = []" using "2.prems"(3) by (simp add: filter_empty_conv)
  also have "filter ?P (r # rows_of_forest cs) = map pt_row cs"
    using filter_parent_forest [OF l(1) d(1)] "2.prems"(1,4) by simp
  finally have 1: "mset (children_of R r) = mset (map pt_row cs)" by simp
  have up: "pr_parent x \<noteq> Some i"
    if "linked p us" "x \<in> set (rows_of_forest us)" "i \<notin> set (ids_of_forest us)" "p \<noteq> Some i" for x i p us
    using parent_linked [OF that(1,2)] that(3,4) by auto
  have q: "pr_parent r \<noteq> Some i" "q \<noteq> Some i" if "i \<in> set (ids_of_forest (PNode r cs # ts))" for i
    using "2.prems"(1,4) that by auto
  have e: "pr_parent x \<noteq> Some i" if "x \<in> set E" "i \<in> set (ids_of_forest (PNode r cs # ts))" for x i
    using "2.prems"(3) that by blast
  have sub: "set (ids_of_forest cs) \<subseteq> set (ids_of_forest (PNode r cs # ts))" "set (ids_of_forest ts) \<subseteq> set (ids_of_forest (PNode r cs # ts))"
    by auto
  have cs: "forest_in R cs"
  proof (rule "2.IH"(1) [of "Some (pr_id r)" "r # rows_of_forest ts @ E"])
    show "\<forall>x\<in>set (r # rows_of_forest ts @ E). \<forall>i\<in>set (ids_of_forest cs). pr_parent x \<noteq> Some i"
    proof (intro ballI)
      fix x i assume x: "x \<in> set (r # rows_of_forest ts @ E)" and i: "i \<in> set (ids_of_forest cs)"
      then have "i \<in> set (ids_of_forest (PNode r cs # ts))" "i \<notin> set (ids_of_forest ts)" using sub d(5) by blast+
      then show "pr_parent x \<noteq> Some i" using x q e up [OF l(2)] by (metis Un_iff set_ConsD set_append)
    qed
    show "\<forall>i\<in>set (ids_of_forest cs). Some (pr_id r) \<noteq> Some i" using d(1) by auto
    show "mset R = mset (rows_of_forest cs) + mset (r # rows_of_forest ts @ E)" using "2.prems"(5) by simp
  qed (use l d in simp_all)
  have ts: "forest_in R ts"
  proof (rule "2.IH"(2) [of q "r # rows_of_forest cs @ E"])
    show "\<forall>x\<in>set (r # rows_of_forest cs @ E). \<forall>i\<in>set (ids_of_forest ts). pr_parent x \<noteq> Some i"
    proof (intro ballI)
      fix x i assume x: "x \<in> set (r # rows_of_forest cs @ E)" and i: "i \<in> set (ids_of_forest ts)"
      then have "i \<in> set (ids_of_forest (PNode r cs # ts))" "i \<notin> set (ids_of_forest cs)" "Some (pr_id r) \<noteq> Some i" using sub d(2,5) by blast+
      then show "pr_parent x \<noteq> Some i" using x q e up [OF l(1)] by (metis Un_iff set_ConsD set_append)
    qed
    show "\<forall>i\<in>set (ids_of_forest ts). q \<noteq> Some i" using q sub by blast
    show "mset R = mset (rows_of_forest ts) + mset (r # rows_of_forest cs @ E)" using "2.prems"(5) by simp
  qed (use l d in simp_all)
  show ?case using 1 cs ts by simp
qed simp

section \<open>Trees up to the order of siblings\<close>

text \<open>What of a row belongs to the design of the API: everything but the ids.\<close>

record param_info =
  in_name :: string
  in_location :: "string option"
  in_status :: "int option"
  in_type :: string
  in_required :: bool
  in_default :: "string option"
  in_description :: "string option"
  in_example :: "string option"
  in_act :: "string option"

definition row_info :: "be_row \<Rightarrow> param_info" where
  "row_info r = \<lparr>in_name = pr_name r, in_location = pr_location r, in_status = pr_status r, in_type = pr_type r,
     in_required = pr_required r, in_default = pr_default r, in_description = pr_description r, in_example = pr_example r,
     in_act = pr_act r\<rparr>"

datatype design = Design (ds_info: param_info) (ds_children: "design multiset")

fun design_tree :: "ptree \<Rightarrow> design" where
  "design_tree (PNode r cs) = Design (row_info r) (mset (map design_tree cs))"

definition design_of :: "ptree list \<Rightarrow> design multiset" where
  "design_of ts = mset (map design_tree ts)"

lemma design_of_simps [simp]:
  "design_of [] = {#}" "design_of (PNode r cs # ts) = add_mset (Design (row_info r) (design_of cs)) (design_of ts)"
  "design_of (ts @ us) = design_of ts + design_of us"
  by (simp_all add: design_of_def)

lemma subtree_design:
  assumes "forest_in R ts" "forest_depth ts \<le> Suc n"
  shows "map (\<lambda>t. design_tree (subtree n R (pt_row t))) ts = map design_tree ts"
  using assms
proof (induction ts arbitrary: n rule: rows_of_forest.induct)
  case (2 r cs ts)
  have "design_tree (subtree n R r) = Design (row_info r) (design_of cs)"
  proof (cases n)
    case 0
    then have "cs = []" using "2.prems"(2) by (cases cs rule: rows_of_forest.cases) auto
    then show ?thesis using 0 by simp
  next
    case (Suc m)
    have "mset (map (\<lambda>p. design_tree (subtree m R p)) (children_of R r)) =
        image_mset (\<lambda>p. design_tree (subtree m R p)) (mset (map pt_row cs))"
      using "2.prems"(1) by (metis forest_in.simps(2) mset_map)
    also have "\<dots> = mset (map (\<lambda>t. design_tree (subtree m R (pt_row t))) cs)" by (simp add: multiset.map_comp comp_def)
    also have "map (\<lambda>t. design_tree (subtree m R (pt_row t))) cs = map design_tree cs" using "2.IH"(1) [of m] "2.prems" Suc by simp
    finally show ?thesis using Suc by (simp add: comp_def design_of_def)
  qed
  then show ?case using "2.IH"(2) [of n] "2.prems" by (simp add: design_of_def)
qed simp

text \<open>
  The contract of the representation: rows hold a forest when it is made of them, linked from no row.  The
  trees built from any arrangement of the rows are then this forest.
\<close>

definition holds :: "ptree list \<Rightarrow> be_row list \<Rightarrow> bool" where
  "holds ts R \<longleftrightarrow> linked None ts \<and> distinct (ids_of_forest ts) \<and> mset R = mset (rows_of_forest ts)"

lemma linked_roots:
  "linked q ts \<Longrightarrow> filter (\<lambda>p. is_root p \<and> P p) (rows_of_forest ts) =
     (if q = None \<or> q = Some 0 then map pt_row (filter (\<lambda>t. P (pt_row t)) ts) else [])"
  by (induction q ts rule: linked.induct) (auto simp: is_root_def)

lemma forest_rebuilt:
  assumes "holds ts R"
  shows "design_of (roots_where P R) = design_of (filter (\<lambda>t. P (pt_row t)) ts)"
proof -
  let ?g = "\<lambda>p. design_tree (subtree (length R) R p)" and ?ts = "filter (\<lambda>t. P (pt_row t)) ts"
  have l: "linked None ts" "distinct (ids_of_forest ts)" "mset R = mset (rows_of_forest ts)" using assms by (simp_all add: holds_def)
  have "forest_in R ts" by (rule forest_in_context [OF l(1,2), of "[]"]) (use l(3) in simp_all)
  moreover have "forest_depth ts \<le> Suc (length R)" using forest_depth_le [of ts] mset_eq_length [OF l(3)] by simp
  ultimately have g: "?g (pt_row t) = design_tree t" if "t \<in> set ts" for t using subtree_design [of R ts "length R"] that by auto
  have "design_of (roots_where P R) = image_mset ?g (mset (filter (\<lambda>p. is_root p \<and> P p) R))"
    by (simp add: design_of_def roots_where_def comp_def)
  also have "mset (filter (\<lambda>p. is_root p \<and> P p) R) = mset (map pt_row ?ts)"
    using linked_roots [OF l(1), of P] l(3) by (metis mset_filter)
  also have "image_mset ?g (mset (map pt_row ?ts)) = mset (map (\<lambda>t. ?g (pt_row t)) ?ts)" by (simp add: multiset.map_comp comp_def)
  also have "map (\<lambda>t. ?g (pt_row t)) ?ts = map design_tree ?ts" using g by simp
  finally show ?thesis by (simp only: design_of_def)
qed

section \<open>Saving a tree and reading it back\<close>

text \<open>The forest that is stored, with the ids it gets.\<close>

fun stored_forest :: "param_kind \<Rightarrow> int \<Rightarrow> int option \<Rightarrow> string option \<Rightarrow> be_param list \<Rightarrow> int \<Rightarrow> ptree list \<times> int" where
  "stored_forest kind api parent ploc [] i = ([], i)"
| "stored_forest kind api parent ploc (BeParam nm ty loc st rq df de ex act ch # ps) i =
     (let (cs, j) = (case ch of
            None \<Rightarrow> ([], i + 1)
          | Some cs \<Rightarrow> if nested ty act then stored_forest kind api (Some i) (Some (param_location ploc loc)) cs (i + 1) else ([], i + 1));
          (ts, k) = stored_forest kind api parent ploc ps j
      in (PNode (param_record kind api parent ploc (BeParam nm ty loc st rq df de ex act ch) i) cs # ts, k))"

lemma process_stored:
  "process_params kind api parent ploc ps t =
     (case stored_forest kind api parent ploc ps (tb_seq t) of (ts, j) \<Rightarrow> \<lparr>tb_rows = tb_rows t @ rows_of_forest ts, tb_seq = j\<rparr>)"
  by (induction kind api parent ploc ps t rule: process_params.induct)
    (auto simp: insert_row_def Let_def split: prod.splits option.splits)

lemma param_record_fields [simp]:
  "pr_id (param_record kind api parent ploc p i) = i" "pr_parent (param_record kind api parent ploc p i) = parent"
  "pr_api (param_record kind api parent ploc p i) = api"
  by (simp_all add: param_record_def)

text \<open>The design that is meant: types and locations with their fallbacks, children where they are stored.\<close>

fun input_design :: "param_kind \<Rightarrow> string option \<Rightarrow> be_param list \<Rightarrow> design multiset" where
  "input_design kind ploc [] = {#}"
| "input_design kind ploc (BeParam nm ty loc st rq df de ex act ch # ps) =
     add_mset (Design (row_info (param_record kind 0 None ploc (BeParam nm ty loc st rq df de ex act ch) 0))
       (case ch of None \<Rightarrow> {#} | Some cs \<Rightarrow> if nested ty act then input_design kind (Some (param_location ploc loc)) cs else {#}))
     (input_design kind ploc ps)"

lemma row_info_record: "row_info (param_record kind api parent ploc p i) = row_info (param_record kind 0 None ploc p 0)"
  by (simp add: row_info_def param_record_def)

definition stored_ok :: "param_kind \<Rightarrow> int \<Rightarrow> int option \<Rightarrow> string option \<Rightarrow> be_param list \<Rightarrow> int \<Rightarrow> ptree list \<Rightarrow> int \<Rightarrow> bool" where
  "stored_ok kind api parent ploc ps i ts j \<longleftrightarrow>
     i \<le> j \<and> distinct (ids_of_forest ts) \<and> (\<forall>x\<in>set (ids_of_forest ts). i \<le> x \<and> x < j) \<and>
     (0 < i \<longrightarrow> linked parent ts) \<and> (\<forall>r\<in>set (rows_of_forest ts). pr_api r = api) \<and> design_of ts = input_design kind ploc ps"

lemma stored_forest_ok: "stored_forest kind api parent ploc ps i = (ts, j) \<Longrightarrow> stored_ok kind api parent ploc ps i ts j"
proof (induction kind api parent ploc ps i arbitrary: ts j rule: stored_forest.induct)
  case (1 kind api parent ploc i)
  then show ?case by (simp add: stored_ok_def)
next
  case (2 kind api parent ploc nm ty loc st rq df de ex act ch ps i)
  let ?down = "\<lambda>cs. stored_forest kind api (Some i) (Some (param_location ploc loc)) cs (i + 1)"
  let ?inner = "case ch of None \<Rightarrow> [] | Some cs \<Rightarrow> if nested ty act then cs else []"
  obtain cs k where c: "(case ch of None \<Rightarrow> ([], i + 1) | Some cs \<Rightarrow> if nested ty act then ?down cs else ([], i + 1)) = (cs, k)"
    by (metis surj_pair)
  obtain us where u: "stored_forest kind api parent ploc ps k = (us, j)"
    "ts = PNode (param_record kind api parent ploc (BeParam nm ty loc st rq df de ex act ch) i) cs # us"
    using "2.prems" c by (auto split: prod.splits)
  have 1: "stored_ok kind api (Some i) (Some (param_location ploc loc)) ?inner (i + 1) cs k"
    using c "2.IH"(1) by (auto simp: stored_ok_def split: option.splits if_splits)
  have 2: "stored_ok kind api parent ploc ps k us j" using "2.IH"(2) [OF _ _ u(1)] c by (metis surj_pair)
  show ?case
    using 1 2 unfolding u(2) stored_ok_def
    by (fastforce simp: row_info_record [of kind api parent] split: option.splits if_splits)
qed

text \<open>
  A saved tree is read back: whatever the order in which the rows are returned, the trees built from
  the rows of the API are the ones that were sent.
\<close>

lemma saved_rows_read:
  assumes "0 < tb_seq t" "\<forall>r\<in>set (tb_rows t). pr_api r \<noteq> api" "t' = process_params kind api None None ps t"
    and "mset R = mset (filter (\<lambda>r. pr_api r = api) (tb_rows t'))"
  shows "\<exists>ts. holds ts R \<and> design_of ts = input_design kind None ps"
proof -
  obtain ts j where f: "stored_forest kind api None None ps (tb_seq t) = (ts, j)" by (metis surj_pair)
  have ok: "stored_ok kind api None None ps (tb_seq t) ts j" by (rule stored_forest_ok [OF f])
  have "filter (\<lambda>r. pr_api r = api) (tb_rows t') = rows_of_forest ts"
    using assms(2) ok by (auto simp: assms(3) process_stored f stored_ok_def filter_empty_conv)
  then show ?thesis using ok assms(1,4) by (intro exI [of _ ts]) (simp add: holds_def stored_ok_def)
qed

section \<open>Copying rows with new ids\<close>

text \<open>
  The loops of \<open>serviceStartIteration\<close> and \<open>serviceCommitIteration\<close>: first every row is copied without its
  parent while a dictionary from old to new ids is filled, then the parents are set through it; \<open>None\<close> is
  the \<open>KeyError\<close> of an id that is not in the dictionary.
\<close>

fun copy_rows :: "int \<Rightarrow> be_row list \<Rightarrow> (int \<rightharpoonup> int) \<Rightarrow> be_row table \<Rightarrow> (int \<rightharpoonup> int) \<times> be_row table" where
  "copy_rows api [] m t = (m, t)"
| "copy_rows api (r # rs) m t =
     (case insert_row (\<lambda>i. r\<lparr>pr_id := i, pr_api := api, pr_parent := None\<rparr>) t of
        (i, t1) \<Rightarrow> copy_rows api rs (m(pr_id r \<mapsto> i)) t1)"

fun link_rows :: "be_row list \<Rightarrow> (int \<rightharpoonup> int) \<Rightarrow> be_row table \<Rightarrow> be_row table option" where
  "link_rows [] m t = Some t"
| "link_rows (r # rs) m t =
     (case pr_parent r of
        None \<Rightarrow> link_rows rs m t
      | Some q \<Rightarrow>
          (case (m (pr_id r), m q) of
             (Some i, Some p) \<Rightarrow> link_rows rs m (update_row pr_id i (\<lambda>x. x\<lparr>pr_parent := Some p\<rparr>) t)
           | _ \<Rightarrow> None))"

definition copy_params :: "int \<Rightarrow> be_row list \<Rightarrow> be_row table \<Rightarrow> be_row table option" where
  "copy_params api rows t = (case copy_rows api rows Map.empty t of (m, t1) \<Rightarrow> link_rows rows m t1)"

lemma copy_rows_spec:
  assumes "copy_rows api L m t = (m', t')" "distinct (map pr_id L)"
  shows "tb_seq t' = tb_seq t + int (length L) \<and> (\<forall>x. x \<notin> pr_id ` set L \<longrightarrow> m' x = m x) \<and>
    (\<forall>x\<in>pr_id ` set L. \<exists>i. m' x = Some i \<and> tb_seq t \<le> i \<and> i < tb_seq t') \<and> inj_on m' (pr_id ` set L) \<and>
    tb_rows t' = tb_rows t @ map (\<lambda>r. r\<lparr>pr_id := the (m' (pr_id r)), pr_api := api, pr_parent := None\<rparr>) L"
  using assms
proof (induction L arbitrary: m t)
  case (Cons r rs)
  let ?m = "m(pr_id r \<mapsto> tb_seq t)" and ?t = "\<lparr>tb_rows = tb_rows t @ [r\<lparr>pr_id := tb_seq t, pr_api := api, pr_parent := None\<rparr>], tb_seq = tb_seq t + 1\<rparr>"
  have c: "copy_rows api rs ?m ?t = (m', t')" using Cons.prems(1) by (simp add: insert_row_def)
  have d: "distinct (map pr_id rs)" "pr_id r \<notin> pr_id ` set rs" using Cons.prems(2) by auto
  note IH = Cons.IH [OF c d(1), simplified]
  have r: "m' (pr_id r) = Some (tb_seq t)" using IH d(2) by simp
  have inj: "inj_on m' (pr_id ` set rs)" and b: "\<forall>y\<in>set rs. \<exists>i. m' (pr_id y) = Some i \<and> tb_seq t + 1 \<le> i \<and> i < tb_seq t'"
    using IH by blast+
  have no: "m' (pr_id y) \<noteq> m' (pr_id r)" if "y \<in> set rs" for y using bspec [OF b that] r by auto
  have "m' (pr_id r) \<notin> m' ` (pr_id ` set rs - {pr_id r})"
  proof
    assume "m' (pr_id r) \<in> m' ` (pr_id ` set rs - {pr_id r})"
    then obtain y where "y \<in> set rs" "m' (pr_id r) = m' (pr_id y)" by blast
    then show False using no [of y] by simp
  qed
  then have "inj_on m' (pr_id ` set (r # rs))" using inj unfolding list.set image_insert inj_on_insert by blast
  moreover have "\<exists>i. m' x = Some i \<and> tb_seq t \<le> i \<and> i < tb_seq t'" if x: "x \<in> pr_id ` set (r # rs)" for x
  proof (cases "x = pr_id r")
    case False
    then obtain y where "y \<in> set rs" "x = pr_id y" using x by auto
    then show ?thesis using bspec [OF b] by force
  qed (use r IH in simp)
  ultimately show ?case using IH r by simp
qed simp

text \<open>The second loop as one change of the rows.\<close>

definition relink :: "(int \<rightharpoonup> int) \<Rightarrow> be_row list \<Rightarrow> be_row \<Rightarrow> be_row" where
  "relink m rs x =
     (case List.find (\<lambda>r. m (pr_id r) = Some (pr_id x) \<and> pr_parent r \<noteq> None) rs of
        None \<Rightarrow> x
      | Some r \<Rightarrow> x\<lparr>pr_parent := map_option (the \<circ> m) (pr_parent r)\<rparr>)"

lemma link_rows_spec:
  assumes "distinct (map pr_id rs)" "inj_on m (pr_id ` set rs)" "\<forall>r\<in>set rs. m (pr_id r) \<noteq> None"
    and "\<forall>r\<in>set rs. \<forall>q. pr_parent r = Some q \<longrightarrow> m q \<noteq> None"
  shows "link_rows rs m t = Some (t\<lparr>tb_rows := map (relink m rs) (tb_rows t)\<rparr>)"
  using assms
proof (induction rs arbitrary: t)
  case (Cons r rs)
  have IH: "link_rows rs m u = Some (u\<lparr>tb_rows := map (relink m rs) (tb_rows u)\<rparr>)" for u
    using Cons.prems by (intro Cons.IH) auto
  show ?case
  proof (cases "pr_parent r")
    case None
    then have "relink m (r # rs) = relink m rs" by (simp add: relink_def fun_eq_iff)
    then show ?thesis using None IH by simp
  next
    case (Some q)
    obtain i p where ip: "m (pr_id r) = Some i" "m q = Some p" using Cons.prems(3,4) Some by auto
    have other: "List.find (\<lambda>s. m (pr_id s) = Some i \<and> pr_parent s \<noteq> None) rs = None"
      unfolding find_None_iff
    proof
      assume "\<exists>s. s \<in> set rs \<and> m (pr_id s) = Some i \<and> pr_parent s \<noteq> None"
      then obtain s where s: "s \<in> set rs" "m (pr_id s) = m (pr_id r)" using ip(1) by auto
      then have "pr_id s = pr_id r" using inj_onD [OF Cons.prems(2) s(2)] by simp
      then show False using imageI [OF s(1), of pr_id] Cons.prems(1) by simp
    qed
    have "relink m rs (if pr_id x = i then x\<lparr>pr_parent := Some p\<rparr> else x) = relink m (r # rs) x" for x
      using other ip Some by (auto simp: relink_def)
    then show ?thesis using Some ip IH by (simp add: update_row_def comp_def)
  qed
qed (simp add: relink_def [abs_def])

text \<open>The copy of a forest: new ids, the same design.\<close>

definition renamed :: "(int \<Rightarrow> int) \<Rightarrow> int \<Rightarrow> be_row \<Rightarrow> be_row" where
  "renamed f api r = r\<lparr>pr_id := f (pr_id r), pr_api := api, pr_parent := map_option f (pr_parent r)\<rparr>"

fun rename_forest :: "(int \<Rightarrow> int) \<Rightarrow> int \<Rightarrow> ptree list \<Rightarrow> ptree list" where
  "rename_forest f api [] = []"
| "rename_forest f api (PNode r cs # ts) = PNode (renamed f api r) (rename_forest f api cs) # rename_forest f api ts"

lemma rename_forest_facts:
  "rows_of_forest (rename_forest f api ts) = map (renamed f api) (rows_of_forest ts)"
  "design_of (rename_forest f api ts) = design_of ts"
  "linked q ts \<Longrightarrow> (\<And>x. x \<in> set (ids_of_forest ts) \<Longrightarrow> f x \<noteq> 0) \<Longrightarrow> linked (map_option f q) (rename_forest f api ts)"
proof -
  show "rows_of_forest (rename_forest f api ts) = map (renamed f api) (rows_of_forest ts)"
    by (induction ts rule: rows_of_forest.induct) simp_all
  show "design_of (rename_forest f api ts) = design_of ts"
    by (induction ts rule: rows_of_forest.induct) (simp_all add: row_info_def renamed_def)
  show "linked q ts \<Longrightarrow> (\<And>x. x \<in> set (ids_of_forest ts) \<Longrightarrow> f x \<noteq> 0) \<Longrightarrow> linked (map_option f q) (rename_forest f api ts)"
  proof (induction q ts rule: linked.induct)
    case (2 q r cs ts)
    then have "linked (map_option f (Some (pr_id r))) (rename_forest f api cs)" "linked (map_option f q) (rename_forest f api ts)"
      by (auto intro!: "2.IH")
    then show ?case using "2.prems" by (auto simp: renamed_def)
  qed simp
qed

lemma copied_holds:
  assumes "holds ts L" "0 < tb_seq t" "\<forall>r\<in>set (tb_rows t). pr_id r < tb_seq t"
  shows "\<exists>t' N us. copy_params api L t = Some t' \<and> tb_rows t' = tb_rows t @ N \<and> tb_seq t' = tb_seq t + int (length L) \<and>
    holds us N \<and> design_of us = design_of ts \<and> (\<forall>r\<in>set N. pr_api r = api \<and> tb_seq t \<le> pr_id r \<and> pr_id r < tb_seq t')"
proof -
  have h: "linked None ts" "distinct (ids_of_forest ts)" "mset L = mset (rows_of_forest ts)" using assms(1) by (simp_all add: holds_def)
  have d: "distinct (map pr_id L)" using h(2,3) by (metis mset_eq_imp_distinct_iff mset_map)
  have ids: "pr_id ` set L = set (ids_of_forest ts)" using h(3) by (metis list.set_map mset_eq_setD)
  obtain m t1 where c: "copy_rows api L Map.empty t = (m, t1)" by (metis surj_pair)
  note sp = copy_rows_spec [OF c d]
  let ?f = "the \<circ> m"
  have m: "\<exists>i. m x = Some i \<and> tb_seq t \<le> i \<and> i < tb_seq t1" if "x \<in> pr_id ` set L" for x using sp that by blast
  have parent: "q \<in> pr_id ` set L" if "r \<in> set L" "pr_parent r = Some q" for r q
    using parent_linked [OF h(1)] that h(3) unfolding ids by (metis mset_eq_setD option.distinct(1) option.inject)
  have l: "link_rows L m t1 = Some (t1\<lparr>tb_rows := map (relink m L) (tb_rows t1)\<rparr>)"
    by (rule link_rows_spec [OF d]) (use sp m parent in \<open>force+\<close>)
  have same: "s = r" if "s \<in> set L" "r \<in> set L" "m (pr_id s) = m (pr_id r)" for s r
    using sp that d by (meson distinct_map imageI inj_onD)
  have old: "relink m L r = r" if "r \<in> set (tb_rows t)" for r
  proof -
    have "m (pr_id s) \<noteq> Some (pr_id r)" if "s \<in> set L" for s using m [OF imageI [OF that]] assms(3) \<open>r \<in> set (tb_rows t)\<close> by fastforce
    then show ?thesis by (auto simp: relink_def find_Some_iff split: option.splits)
  qed
  have new: "relink m L (r\<lparr>pr_id := ?f (pr_id r), pr_api := api, pr_parent := None\<rparr>) = renamed ?f api r" if r: "r \<in> set L" for r
  proof -
    have f: "Some (?f (pr_id r)) = m (pr_id r)" using m [OF imageI [OF r]] by auto
    show ?thesis
    proof (cases "List.find (\<lambda>s. m (pr_id s) = m (pr_id r) \<and> pr_parent s \<noteq> None) L")
      case None
      then have "pr_parent r = None" using r by (auto simp: find_None_iff)
      then show ?thesis using None f by (simp add: relink_def renamed_def)
    next
      case (Some s)
      then have "s = r" using same [OF _ r] by (auto simp: find_Some_iff)
      then show ?thesis using Some f by (simp add: relink_def renamed_def)
    qed
  qed
  let ?N = "map (renamed ?f api) L" and ?t = "t1\<lparr>tb_rows := map (relink m L) (tb_rows t1)\<rparr>"
  have t1: "tb_rows t1 = tb_rows t @ map (\<lambda>r. r\<lparr>pr_id := ?f (pr_id r), pr_api := api, pr_parent := None\<rparr>) L"
    "tb_seq t1 = tb_seq t + int (length L)" "inj_on m (pr_id ` set L)" using sp by simp_all
  have "map (relink m L) (tb_rows t) = tb_rows t" using old by (simp add: map_idI)
  moreover have "map (\<lambda>r. relink m L (r\<lparr>pr_id := ?f (pr_id r), pr_api := api, pr_parent := None\<rparr>)) L = ?N"
    using new by (intro map_cong refl)
  ultimately have rows: "tb_rows ?t = tb_rows t @ ?N" by (simp add: t1(1) comp_def)
  have inj: "inj_on ?f (pr_id ` set L)"
  proof (rule inj_onI)
    fix x y assume x: "x \<in> pr_id ` set L" and y: "y \<in> pr_id ` set L" and e: "?f x = ?f y"
    have "m x = m y" using m [OF x] m [OF y] e by auto
    then show "x = y" using inj_onD [OF t1(3) _ x y] by blast
  qed
  have "holds (rename_forest ?f api ts) ?N"
    unfolding holds_def rename_forest_facts(1)
  proof (intro conjI)
    have "?f x \<noteq> 0" if "x \<in> set (ids_of_forest ts)" for x using m [of x] that assms(2) unfolding ids by auto
    then show "linked None (rename_forest ?f api ts)" using rename_forest_facts(3) [OF h(1), of ?f api] by simp
    have e: "map pr_id (map (renamed ?f api) (rows_of_forest ts)) = map ?f (ids_of_forest ts)" by (simp add: renamed_def)
    show "distinct (map pr_id (map (renamed ?f api) (rows_of_forest ts)))"
      unfolding e distinct_map using inj h(2) unfolding ids distinct_map by blast
    show "mset ?N = mset (map (renamed ?f api) (rows_of_forest ts))" using h(3) by simp
  qed
  moreover have "\<forall>r\<in>set ?N. pr_api r = api \<and> tb_seq t \<le> pr_id r \<and> pr_id r < tb_seq ?t"
    using m by (fastforce simp: renamed_def)
  moreover have "copy_params api L t = Some ?t" using c l by (simp add: copy_params_def)
  moreover have "tb_seq ?t = tb_seq t + int (length L)" using t1(2) by simp
  ultimately show ?thesis using rows rename_forest_facts(2) by blast
qed

end
