(* ===== verification/Be_Store.thy ===== *)
theory Be_Store
  imports Be_Params
begin

text \<open>
  The tables of APIs and their parameters.  \<open>database/models.py\<close> declares them twice, for published APIs (\<open>Api\<close>,
  \<open>RequestParam\<close>, \<open>ResponseParam\<close>) and for drafts (\<open>ApiDraft\<close>, \<open>RequestParamDraft\<close>, \<open>ResponseParamDraft\<close>); both are a
  \<open>side\<close> here.  The operations that add, copy, rewrite and delete APIs are given with their effect on the contents of a
  side, that is on the designs of its APIs.
\<close>

section \<open>Rows of APIs\<close>

text \<open>\<open>apr_parent\<close> is \<open>service_id\<close> of an \<open>Api\<close> and \<open>service_iteration_id\<close> of an \<open>ApiDraft\<close>.\<close>

record api_row =
  apr_id :: int
  apr_parent :: int
  apr_owner_id :: int
  apr_category_id :: "int option"
  apr_name :: string
  apr_method :: HttpMethod
  apr_path :: string
  apr_description :: "string option"
  apr_level :: ApiLevel
  apr_is_enabled :: bool

record side =
  sd_api :: "api_row table"
  sd_req :: "be_row table"
  sd_resp :: "be_row table"

text \<open>
  What the source leaves to its environment: the order in which the rows of a relation are returned, whether a
  value that is not declared in an enumeration is refused by a query or matches no row, whether a mail server is
  configured, the clock in seconds, and the packages \<open>bcrypt\<close> and \<open>jose\<close>.
\<close>

record server_env =
  params_in_order :: "be_row list \<Rightarrow> be_row list"
  apis_in_order :: "api_row list \<Rightarrow> api_row list"
  native_enums :: bool
  smtp_configured :: bool
  clock :: nat
  hashpw :: "string \<Rightarrow> string"
  checkpw :: "string \<Rightarrow> string \<Rightarrow> bool"
  jwt_encode :: "int \<Rightarrow> string \<Rightarrow> nat \<Rightarrow> string"
  jwt_decode :: "nat \<Rightarrow> string \<Rightarrow> int option"

definition any_order :: "server_env \<Rightarrow> bool" where
  "any_order D \<longleftrightarrow> (\<forall>xs. mset (params_in_order D xs) = mset xs) \<and> (\<forall>xs. mset (apis_in_order D xs) = mset xs)"

lemma any_orderD:
  assumes "any_order D"
  shows "mset (params_in_order D xs) = mset xs" "mset (apis_in_order D ys) = mset ys"
    "set (apis_in_order D ys) = set ys"
  using assms by (auto simp: any_order_def dest: mset_eq_setD)

text \<open>The relations \<open>api.request_params\<close>, \<open>api.response_params\<close>, \<open>service.apis\<close>, \<open>iteration.api_drafts\<close>.\<close>

definition rows_for :: "int \<Rightarrow> be_row table \<Rightarrow> be_row list" where
  "rows_for a t = filter (\<lambda>r. pr_api r = a) (tb_rows t)"

definition apis_for :: "int \<Rightarrow> side \<Rightarrow> api_row list" where
  "apis_for p sd = filter (\<lambda>a. apr_parent a = p) (tb_rows (sd_api sd))"

text \<open>The constraint \<open>uq_api_method_name\<close>, \<open>uq_api_method_name_draft\<close>: the only one that \<open>__table_args__\<close> keeps.\<close>

definition conflict :: "side \<Rightarrow> int \<Rightarrow> HttpMethod \<Rightarrow> string \<Rightarrow> bool" where
  "conflict sd p m n \<longleftrightarrow> (\<exists>a\<in>set (apis_for p sd). apr_method a = m \<and> apr_name a = n)"

section \<open>Operations on a side\<close>

text \<open>\<open>Api(...)\<close> or \<open>ApiDraft(...)\<close> added and flushed; \<open>None\<close> is the \<open>IntegrityError\<close> of the constraint.\<close>

definition insert_api :: "(int \<Rightarrow> api_row) \<Rightarrow> side \<Rightarrow> (int \<times> side) option" where
  "insert_api f sd =
     (case insert_row f (sd_api sd) of
        (i, t) \<Rightarrow> if conflict sd (apr_parent (f i)) (apr_method (f i)) (apr_name (f i)) then None else Some (i, sd\<lparr>sd_api := t\<rparr>))"

text \<open>
  The body of the loops of \<open>serviceStartIteration\<close> and \<open>serviceCommitIteration\<close>: one API with its rows is
  copied from one side to the other, under the iteration or service \<open>p\<close>.
\<close>

definition copy_api :: "server_env \<Rightarrow> side \<Rightarrow> int \<Rightarrow> api_row \<Rightarrow> side \<Rightarrow> side option" where
  "copy_api D src p a sd =
     (case insert_api (\<lambda>i. a\<lparr>apr_id := i, apr_parent := p\<rparr>) sd of
        None \<Rightarrow> None
      | Some (i, sd1) \<Rightarrow>
          (case copy_params i (params_in_order D (rows_for (apr_id a) (sd_req src))) (sd_req sd1) of
             None \<Rightarrow> None
           | Some rq \<Rightarrow>
               (case copy_params i (params_in_order D (rows_for (apr_id a) (sd_resp src))) (sd_resp sd1) of
                  None \<Rightarrow> None
                | Some rs \<Rightarrow> Some (sd1\<lparr>sd_req := rq, sd_resp := rs\<rparr>))))"

fun copy_apis :: "server_env \<Rightarrow> side \<Rightarrow> int \<Rightarrow> api_row list \<Rightarrow> side \<Rightarrow> side option" where
  "copy_apis D src p [] sd = Some sd"
| "copy_apis D src p (a # as) sd = (case copy_api D src p a sd of None \<Rightarrow> None | Some sd1 \<Rightarrow> copy_apis D src p as sd1)"

text \<open>\<open>_copy_params_recursively\<close>: the objects and their \<open>child_params\<close> are a tree.\<close>

fun copy_params_recursively :: "int \<Rightarrow> int option \<Rightarrow> ptree list \<Rightarrow> be_row table \<Rightarrow> be_row table" where
  "copy_params_recursively api q [] t = t"
| "copy_params_recursively api q (PNode r cs # ts) t =
     (case insert_row (\<lambda>i. r\<lparr>pr_id := i, pr_api := api, pr_parent := q\<rparr>) t of
        (i, t1) \<Rightarrow> copy_params_recursively api q ts (copy_params_recursively api (Some i) cs t1))"

text \<open>The roots of an API with \<open>child_params\<close>, a relation over the whole table.\<close>

definition param_objects :: "server_env \<Rightarrow> int \<Rightarrow> be_row table \<Rightarrow> ptree list" where
  "param_objects D a t =
     (let rows = params_in_order D (tb_rows t)
      in map (subtree (length rows) rows) (filter (\<lambda>p. pr_parent p = None) (params_in_order D (rows_for a t))))"

text \<open>The rows of an API are deleted.\<close>

definition clear_params :: "int \<Rightarrow> be_row table \<Rightarrow> be_row table" where
  "clear_params a t = delete_rows (\<lambda>r. pr_api r = a) t"

text \<open>All APIs under \<open>p\<close> are deleted, and by \<open>ON DELETE CASCADE\<close> their rows.\<close>

definition delete_apis :: "int \<Rightarrow> side \<Rightarrow> side" where
  "delete_apis p sd =
     (let gone = (\<lambda>r. \<exists>a\<in>set (apis_for p sd). pr_api r = apr_id a)
      in \<lparr>sd_api = delete_rows (\<lambda>a. apr_parent a = p) (sd_api sd), sd_req = delete_rows gone (sd_req sd), sd_resp = delete_rows gone (sd_resp sd)\<rparr>)"

text \<open>
  The end of \<open>apiUpdateApiByApiDraftId\<close>: the row is changed, its parameters are deleted and made anew.  The constraint
  is checked against the other rows.
\<close>

definition clash :: "int \<Rightarrow> api_row table \<Rightarrow> bool" where
  "clash i t \<longleftrightarrow> (\<exists>a\<in>set (tb_rows t). \<exists>b\<in>set (tb_rows t). apr_id a = i \<and> apr_id b \<noteq> i \<and> apr_parent a = apr_parent b \<and>
     apr_method a = apr_method b \<and> apr_name a = apr_name b)"

definition rewrite_api :: "int \<Rightarrow> (api_row \<Rightarrow> api_row) \<Rightarrow> be_param list \<Rightarrow> be_param list \<Rightarrow> side \<Rightarrow> side option" where
  "rewrite_api i f rq rs sd =
     (let t = update_row apr_id i f (sd_api sd)
      in if clash i t then None
         else Some \<lparr>sd_api = t, sd_req = process_params RequestKind i None None rq (clear_params i (sd_req sd)),
                sd_resp = process_params ResponseKind i None None rs (clear_params i (sd_resp sd))\<rparr>)"

text \<open>The end of \<open>apiDeleteApiByApiDraftId\<close>.\<close>

definition delete_api :: "int \<Rightarrow> side \<Rightarrow> side" where
  "delete_api i sd =
     \<lparr>sd_api = delete_rows (\<lambda>a. apr_id a = i) (sd_api sd), sd_req = clear_params i (sd_req sd), sd_resp = clear_params i (sd_resp sd)\<rparr>"

text \<open>A change of the category of some rows.\<close>

definition set_category :: "(api_row \<Rightarrow> bool) \<Rightarrow> int option \<Rightarrow> side \<Rightarrow> side" where
  "set_category P c sd =
     sd\<lparr>sd_api := (sd_api sd)\<lparr>tb_rows := map (\<lambda>a. if P a then a\<lparr>apr_category_id := c\<rparr> else a) (tb_rows (sd_api sd))\<rparr>\<rparr>"

section \<open>Well-formed tables\<close>

definition table_ok :: "('r \<Rightarrow> int) \<Rightarrow> 'r table \<Rightarrow> bool" where
  "table_ok key t \<longleftrightarrow> 0 < tb_seq t \<and> distinct (map key (tb_rows t)) \<and> (\<forall>r\<in>set (tb_rows t). 0 < key r \<and> key r < tb_seq t)"

lemma table_ok_insert: "table_ok key t \<Longrightarrow> key (f (tb_seq t)) = tb_seq t \<Longrightarrow> table_ok key (snd (insert_row f t))"
  by (fastforce simp: table_ok_def insert_row_def)

lemma table_ok_filter: "table_ok key t \<Longrightarrow> table_ok key (t\<lparr>tb_rows := filter P (tb_rows t)\<rparr>)"
  by (auto simp: table_ok_def distinct_map_filter)

lemma table_ok_map: "table_ok key t \<Longrightarrow> (\<And>r. key (f r) = key r) \<Longrightarrow> table_ok key (t\<lparr>tb_rows := map f (tb_rows t)\<rparr>)"
  by (auto simp: table_ok_def comp_def)

lemma update_row_map: "(\<And>r. k (f r) = k r) \<Longrightarrow> map k (tb_rows (update_row key i f t)) = map k (tb_rows t)"
  by (simp add: update_row_def)

lemma update_row_set:
  "(\<And>r. k (f r) = k r) \<Longrightarrow> k ` set (tb_rows (update_row key i f t)) = k ` set (tb_rows t)"
  using update_row_map [of k f key i t] by (metis list.set_map)

lemma update_row_ball: "(\<And>r. P r \<Longrightarrow> P (f r)) \<Longrightarrow> \<forall>r\<in>set (tb_rows t). P r \<Longrightarrow> \<forall>r\<in>set (tb_rows (update_row key i f t)). P r"
  by (auto simp: update_row_def)

lemma table_ok_update: "table_ok key t \<Longrightarrow> (\<And>r. key (f r) = key r) \<Longrightarrow> table_ok key (update_row key i f t)"
  using table_ok_map [of key t "\<lambda>r. if key r = i then f r else r"] by (simp add: update_row_def)

lemma table_ok_delete: "table_ok key t \<Longrightarrow> table_ok key (delete_rows P t)"
  using table_ok_filter [of key t] by (simp add: delete_rows_def)

lemma get_row_update:
  "(\<And>r. key (f r) = key r) \<Longrightarrow> get_row key (update_row key i f t) j = map_option (\<lambda>r. if j = i then f r else r) (get_row key t j)"
proof -
  assume "\<And>r. key (f r) = key r"
  then have "List.find (\<lambda>r. key r = j) (map (\<lambda>r. if key r = i then f r else r) xs) =
      map_option (\<lambda>r. if j = i then f r else r) (List.find (\<lambda>r. key r = j) xs)" for xs by (induction xs) auto
  then show ?thesis by (simp add: get_row_def update_row_def)
qed

lemma get_row_SomeD: "get_row key t i = Some r \<Longrightarrow> r \<in> set (tb_rows t) \<and> key r = i"
  by (auto simp: get_row_def find_Some_iff)

lemma get_row_None: "get_row key t i = None \<longleftrightarrow> i \<notin> key ` set (tb_rows t)"
  by (auto simp: get_row_def find_None_iff)

lemma distinct_keyD: "distinct (map key xs) \<Longrightarrow> r \<in> set xs \<Longrightarrow> s \<in> set xs \<Longrightarrow> key r = key s \<Longrightarrow> r = s"
  by (auto simp: distinct_map inj_on_def)

lemma get_row_Some: "table_ok key t \<Longrightarrow> r \<in> set (tb_rows t) \<Longrightarrow> get_row key t (key r) = Some r"
  by (cases "get_row key t (key r)") (auto simp: get_row_None table_ok_def dest: get_row_SomeD distinct_keyD)

text \<open>A table of parameters: its rows belong to the APIs \<open>A\<close>, and the rows of each API are a forest.\<close>

definition params_ok :: "int set \<Rightarrow> be_row table \<Rightarrow> bool" where
  "params_ok A t \<longleftrightarrow> table_ok pr_id t \<and> (\<forall>r\<in>set (tb_rows t). pr_api r \<in> A) \<and> (\<forall>a. \<exists>ts. holds ts (rows_for a t))"

text \<open>The design that the rows of an API hold.\<close>

definition design_in :: "be_row table \<Rightarrow> int \<Rightarrow> design multiset" where
  "design_in t a = design_of (roots_where (\<lambda>_. True) (rows_for a t))"

lemma holds_design: "holds ts R \<Longrightarrow> design_of (roots_where (\<lambda>_. True) R) = design_of ts"
  using forest_rebuilt [of ts R "\<lambda>_. True"] by simp

lemma ds_info_tree: "ds_info (design_tree t) = row_info (pt_row t)"
  by (cases t) simp

lemma design_of_filter: "design_of (filter (\<lambda>t. Q (row_info (pt_row t))) ts) = filter_mset (\<lambda>d. Q (ds_info d)) (design_of ts)"
  by (induction ts) (simp_all add: design_of_def ds_info_tree)

lemma linked_nonzero: "linked q ts \<Longrightarrow> 0 \<notin> set (ids_of_forest ts)"
  by (induction q ts rule: linked.induct) auto

text \<open>What a reader gets of the rows of an API, in whatever order they come.\<close>

lemma rows_read:
  assumes "params_ok A t" "mset R = mset (rows_for a t)" "\<And>p. P p = Q (row_info p)"
  shows "design_of (roots_where P R) = filter_mset (\<lambda>d. Q (ds_info d)) (design_in t a)"
proof -
  obtain ts where ts: "holds ts (rows_for a t)" using assms(1) by (auto simp: params_ok_def)
  then have "holds ts R" using assms(2) by (simp add: holds_def)
  moreover have "design_in t a = design_of ts" using ts by (simp add: design_in_def holds_design)
  ultimately show ?thesis using forest_rebuilt [of ts R P] by (simp add: assms(3) design_of_filter)
qed

text \<open>New rows that hold a forest, for one API.\<close>

definition grown :: "be_row table \<Rightarrow> int \<Rightarrow> design multiset \<Rightarrow> be_row table \<Rightarrow> bool" where
  "grown t a X t' \<longleftrightarrow> tb_seq t \<le> tb_seq t' \<and>
     (\<exists>N us. tb_rows t' = tb_rows t @ N \<and> holds us N \<and> design_of us = X \<and>
        (\<forall>r\<in>set N. pr_api r = a \<and> tb_seq t \<le> pr_id r \<and> pr_id r < tb_seq t'))"

lemma holds_distinct: "holds us N \<Longrightarrow> distinct (map pr_id N)"
  unfolding holds_def by (metis mset_eq_imp_distinct_iff mset_map)

lemma grown_ok:
  assumes "params_ok A t" "rows_for a t = []" "grown t a X t'"
  shows "params_ok (insert a A) t'" "design_in t' a = X" "b \<noteq> a \<Longrightarrow> rows_for b t' = rows_for b t"
proof -
  obtain N us where g: "tb_rows t' = tb_rows t @ N" "holds us N" "design_of us = X" "tb_seq t \<le> tb_seq t'"
    "\<forall>r\<in>set N. pr_api r = a \<and> tb_seq t \<le> pr_id r \<and> pr_id r < tb_seq t'" using assms(3) unfolding grown_def by blast
  have a: "rows_for a t' = N" using g(1,5) assms(2) by (simp add: rows_for_def)
  have b: "rows_for b t' = rows_for b t" if "b \<noteq> a" for b using g(1,5) that by (auto simp: rows_for_def filter_empty_conv)
  show "b \<noteq> a \<Longrightarrow> rows_for b t' = rows_for b t" by (rule b)
  show "design_in t' a = X" using g(2,3) a by (simp add: design_in_def holds_design)
  have h: "\<exists>ts. holds ts (rows_for c t')" for c
    using a b [of c] g(2) assms(1) unfolding params_ok_def by (cases "c = a") auto
  have ok: "table_ok pr_id t" "\<forall>r\<in>set (tb_rows t). pr_api r \<in> A" using assms(1) by (auto simp: params_ok_def)
  have "table_ok pr_id t'"
    using ok(1) g(1,4,5) holds_distinct [OF g(2)] unfolding table_ok_def by fastforce
  then show "params_ok (insert a A) t'" using ok(2) g(1,5) h unfolding params_ok_def by auto
qed


text \<open>The three ways in which rows come into being.\<close>

lemma grown_refl: "grown t a {#} t"
  by (auto simp: grown_def holds_def intro!: exI [of _ "[]"])

lemma process_grown:
  assumes "0 < tb_seq t"
  shows "grown t a (input_design kind None ps) (process_params kind a None None ps t)"
proof -
  obtain ts j where f: "stored_forest kind a None None ps (tb_seq t) = (ts, j)" by (metis surj_pair)
  have ok: "stored_ok kind a None None ps (tb_seq t) ts j" by (rule stored_forest_ok [OF f])
  then have "holds ts (rows_of_forest ts)" using assms by (simp add: holds_def stored_ok_def)
  then show ?thesis using ok unfolding grown_def process_stored f stored_ok_def by auto
qed

lemma copy_grown:
  assumes "params_ok A src" "mset L = mset (rows_for a src)" "params_ok B t"
  shows "\<exists>t'. copy_params i L t = Some t' \<and> grown t i (design_in src a) t'"
proof -
  obtain ts where ts: "holds ts (rows_for a src)" using assms(1) by (auto simp: params_ok_def)
  then have "holds ts L" using assms(2) by (simp add: holds_def)
  moreover have "0 < tb_seq t" "\<forall>r\<in>set (tb_rows t). pr_id r < tb_seq t" using assms(3) by (auto simp: params_ok_def table_ok_def)
  ultimately obtain t' N us where "copy_params i L t = Some t'" "tb_rows t' = tb_rows t @ N" "tb_seq t' = tb_seq t + int (length L)"
    "holds us N" "design_of us = design_of ts" "\<forall>r\<in>set N. pr_api r = i \<and> tb_seq t \<le> pr_id r \<and> pr_id r < tb_seq t'"
    using copied_holds [of ts L t i] by blast
  moreover have "design_in src a = design_of ts" using ts by (simp add: design_in_def holds_design)
  ultimately show ?thesis by (auto simp: grown_def)
qed

lemma copied_recursively:
  assumes "0 < tb_seq t"
  shows "\<exists>us. tb_rows (copy_params_recursively a q ts t) = tb_rows t @ rows_of_forest us \<and> linked q us \<and> distinct (ids_of_forest us) \<and>
    tb_seq t \<le> tb_seq (copy_params_recursively a q ts t) \<and> design_of us = design_of ts \<and>
    (\<forall>r\<in>set (rows_of_forest us). pr_api r = a \<and> tb_seq t \<le> pr_id r \<and> pr_id r < tb_seq (copy_params_recursively a q ts t))"
  using assms
proof (induction a q ts t rule: copy_params_recursively.induct)
  case (2 a q r cs ts t)
  let ?r = "r\<lparr>pr_id := tb_seq t, pr_api := a, pr_parent := q\<rparr>"
  let ?t1 = "\<lparr>tb_rows = tb_rows t @ [?r], tb_seq = tb_seq t + 1\<rparr>"
  let ?t2 = "copy_params_recursively a (Some (tb_seq t)) cs ?t1"
  have i: "insert_row (\<lambda>i. r\<lparr>pr_id := i, pr_api := a, pr_parent := q\<rparr>) t = (tb_seq t, ?t1)" by (simp add: insert_row_def)
  obtain us where us: "tb_rows ?t2 = tb_rows ?t1 @ rows_of_forest us" "linked (Some (tb_seq t)) us" "distinct (ids_of_forest us)"
    "tb_seq ?t1 \<le> tb_seq ?t2" "design_of us = design_of cs"
    "\<forall>r\<in>set (rows_of_forest us). pr_api r = a \<and> tb_seq ?t1 \<le> pr_id r \<and> pr_id r < tb_seq ?t2"
    using "2.IH"(1) [OF i [symmetric]] "2.prems" by auto
  obtain vs where vs: "tb_rows (copy_params_recursively a q ts ?t2) = tb_rows ?t2 @ rows_of_forest vs" "linked q vs" "distinct (ids_of_forest vs)"
    "tb_seq ?t2 \<le> tb_seq (copy_params_recursively a q ts ?t2)" "design_of vs = design_of ts"
    "\<forall>r\<in>set (rows_of_forest vs). pr_api r = a \<and> tb_seq ?t2 \<le> pr_id r \<and> pr_id r < tb_seq (copy_params_recursively a q ts ?t2)"
    using "2.IH"(2) [OF i [symmetric]] "2.prems" us(4) by auto
  have d: "distinct (ids_of_forest (PNode ?r us # vs))" using us(3,6) vs(3,6) us(4) by fastforce
  have b: "\<forall>x\<in>set (rows_of_forest (PNode ?r us # vs)). pr_api x = a \<and> tb_seq t \<le> pr_id x \<and> pr_id x < tb_seq (copy_params_recursively a q ts ?t2)"
    using us(4,6) vs(4,6) by fastforce
  have "row_info ?r = row_info r" by (simp add: row_info_def)
  then show ?case
    using us vs d b "2.prems" unfolding copy_params_recursively.simps i
    by (intro exI [of _ "PNode ?r us # vs"]) auto
qed (auto intro!: exI [of _ "[]"])

lemma recursive_grown:
  assumes "0 < tb_seq t"
  shows "grown t a (design_of ts) (copy_params_recursively a None ts t)"
  using copied_recursively [OF assms, of a None ts] unfolding grown_def holds_def by blast

text \<open>The objects loaded for an API are its design.\<close>

lemma objects_design:
  assumes "params_ok A t" "any_order D"
  shows "design_of (param_objects D a t) = design_in t a"
proof -
  let ?R = "params_in_order D (tb_rows t)" and ?E = "filter (\<lambda>r. pr_api r \<noteq> a) (tb_rows t)"
  have tok: "table_ok pr_id t" using assms(1) by (simp add: params_ok_def)
  obtain ts where ts: "holds ts (rows_for a t)" using assms(1) by (auto simp: params_ok_def)
  then have l: "linked None ts" "distinct (ids_of_forest ts)" "mset (rows_for a t) = mset (rows_of_forest ts)" by (simp_all add: holds_def)
  have R: "mset ?R = mset (rows_of_forest ts) + mset ?E"
    unfolding any_orderD(1) [OF assms(2)] l(3) [symmetric] rows_for_def by (simp flip: multiset_partition)
  have sub: "set (rows_of_forest ts) \<subseteq> set (tb_rows t)" "\<forall>r\<in>set (rows_of_forest ts). pr_api r = a"
    using mset_eq_setD [OF l(3)] by (auto simp: rows_for_def)
  have E: "pr_parent x \<noteq> Some i" if x: "x \<in> set ?E" and i: "i \<in> set (ids_of_forest ts)" for x i
  proof
    assume p: "pr_parent x = Some i"
    obtain us where us: "holds us (rows_for (pr_api x) t)" using assms(1) by (auto simp: params_ok_def)
    have "x \<in> set (rows_of_forest us)" using us x mset_eq_setD [of "rows_for (pr_api x) t"] by (auto simp: holds_def rows_for_def)
    then obtain y where y: "y \<in> set (rows_of_forest us)" "pr_id y = i" using us p parent_linked [of None us x] by (auto simp: holds_def)
    then have "y \<in> set (tb_rows t)" "pr_api y = pr_api x" using us mset_eq_setD [of "rows_for (pr_api x) t"] by (auto simp: holds_def rows_for_def)
    moreover obtain z where "z \<in> set (tb_rows t)" "pr_api z = a" "pr_id z = i" using i sub by auto
    ultimately show False using distinct_keyD [of pr_id "tb_rows t" y z] tok y(2) x by (auto simp: table_ok_def)
  qed
  have fin: "forest_in ?R ts" by (rule forest_in_context [OF l(1,2) _ _ R]) (use E in auto)
  have depth: "forest_depth ts \<le> Suc (length ?R)" using forest_depth_le [of ts] arg_cong [OF R, of size] by simp
  have g: "design_tree (subtree (length ?R) ?R (pt_row u)) = design_tree u" if "u \<in> set ts" for u
    using subtree_design [OF fin depth] that by auto
  have roots: "mset (filter (\<lambda>p. pr_parent p = None) (params_in_order D (rows_for a t))) = mset (map pt_row ts)"
  proof -
    have "filter (\<lambda>p. pr_parent p = None) (rows_of_forest ts) = filter (\<lambda>p. is_root p \<and> True) (rows_of_forest ts)"
      using parent_linked [OF l(1)] linked_nonzero [OF l(1)] by (intro filter_cong) (fastforce simp: is_root_def)+
    also have "\<dots> = map pt_row ts" using linked_roots [OF l(1), of "\<lambda>_. True"] by simp
    finally show ?thesis using any_orderD(1) [OF assms(2)] l(3) by (metis mset_filter)
  qed
  have "design_of (param_objects D a t) = image_mset (\<lambda>p. design_tree (subtree (length ?R) ?R p)) (mset (map pt_row ts))"
    unfolding roots [symmetric] by (simp add: design_of_def param_objects_def Let_def comp_def)
  also have "\<dots> = mset (map (\<lambda>u. design_tree (subtree (length ?R) ?R (pt_row u))) ts)" by (simp add: multiset.map_comp comp_def)
  also have "map (\<lambda>u. design_tree (subtree (length ?R) ?R (pt_row u))) ts = map design_tree ts" using g by simp
  also have "mset (map design_tree ts) = design_of ts" by (simp add: design_of_def)
  finally show ?thesis using ts by (simp add: design_in_def holds_design)
qed


section \<open>Contents\<close>

text \<open>
  An API as its users know it: what the row says apart from the ids, and the two designs.  The contents of a service or
  an iteration are a multiset of them; they are the abstract state that the operations are described by.
\<close>

record api_content =
  ac_api :: api_row
  ac_req :: "design multiset"
  ac_resp :: "design multiset"

definition api_info :: "api_row \<Rightarrow> api_row" where
  "api_info a = a\<lparr>apr_id := 0, apr_parent := 0\<rparr>"

definition api_content_of :: "side \<Rightarrow> api_row \<Rightarrow> api_content" where
  "api_content_of sd a = \<lparr>ac_api = api_info a, ac_req = design_in (sd_req sd) (apr_id a), ac_resp = design_in (sd_resp sd) (apr_id a)\<rparr>"

definition contents :: "side \<Rightarrow> int \<Rightarrow> api_content multiset" where
  "contents sd p = image_mset (api_content_of sd) (mset (apis_for p sd))"

definition api_key :: "api_row \<Rightarrow> int \<times> HttpMethod \<times> string" where
  "api_key a = (apr_parent a, apr_method a, apr_name a)"

abbreviation api_ids :: "side \<Rightarrow> int set" where
  "api_ids sd \<equiv> apr_id ` set (tb_rows (sd_api sd))"

definition side_ok :: "side \<Rightarrow> bool" where
  "side_ok sd \<longleftrightarrow> table_ok apr_id (sd_api sd) \<and> distinct (map api_key (tb_rows (sd_api sd))) \<and>
     params_ok (api_ids sd) (sd_req sd) \<and> params_ok (api_ids sd) (sd_resp sd)"

lemma conflict_key: "conflict sd p m n \<longleftrightarrow> (p, m, n) \<in> api_key ` set (tb_rows (sd_api sd))"
  by (auto simp: conflict_def apis_for_def api_key_def)

lemma no_rows: "params_ok A t \<Longrightarrow> a \<notin> A \<Longrightarrow> rows_for a t = []"
  by (auto simp: params_ok_def rows_for_def filter_empty_conv)

lemma design_in_cong: "rows_for a t = rows_for a t' \<Longrightarrow> design_in t a = design_in t' a"
  by (simp add: design_in_def)

lemma contents_cong:
  assumes "apis_for p sd' = apis_for p sd"
    and "\<And>a. a \<in> set (apis_for p sd) \<Longrightarrow> rows_for (apr_id a) (sd_req sd') = rows_for (apr_id a) (sd_req sd) \<and>
       rows_for (apr_id a) (sd_resp sd') = rows_for (apr_id a) (sd_resp sd)"
  shows "contents sd' p = contents sd p"
  unfolding contents_def assms(1) using assms(2) by (intro image_mset_cong) (auto simp: api_content_of_def design_in_def)

text \<open>A new API, with the rows that were made for it.\<close>

lemma added_api:
  assumes "side_ok sd" "apr_id a = tb_seq (sd_api sd)" "\<not> conflict sd (apr_parent a) (apr_method a) (apr_name a)"
    and "sd_api sd' = \<lparr>tb_rows = tb_rows (sd_api sd) @ [a], tb_seq = tb_seq (sd_api sd) + 1\<rparr>"
    and "grown (sd_req sd) (apr_id a) X (sd_req sd')" "grown (sd_resp sd) (apr_id a) Y (sd_resp sd')"
  shows "side_ok sd' \<and> contents sd' (apr_parent a) = add_mset \<lparr>ac_api = api_info a, ac_req = X, ac_resp = Y\<rparr> (contents sd (apr_parent a)) \<and>
    (\<forall>p. p \<noteq> apr_parent a \<longrightarrow> contents sd' p = contents sd p)"
proof -
  have ok: "table_ok apr_id (sd_api sd)" "distinct (map api_key (tb_rows (sd_api sd)))"
    "params_ok (api_ids sd) (sd_req sd)" "params_ok (api_ids sd) (sd_resp sd)" using assms(1) by (simp_all add: side_ok_def)
  have new: "apr_id a \<notin> api_ids sd" using ok(1) assms(2) by (fastforce simp: table_ok_def)
  note rq = grown_ok [OF ok(3) no_rows [OF ok(3) new] assms(5)]
  note rs = grown_ok [OF ok(4) no_rows [OF ok(4) new] assms(6)]
  have ids: "api_ids sd' = insert (apr_id a) (api_ids sd)" using assms(4) by simp
  have "table_ok apr_id (sd_api sd')" using table_ok_insert [OF ok(1), of "\<lambda>_. a"] assms(2,4) by (simp add: insert_row_def)
  then have sok: "side_ok sd'"
    using ok(2) rq(1) rs(1) assms(3,4) unfolding side_ok_def ids conflict_key by (simp add: api_key_def)
  have same: "image_mset (api_content_of sd') (mset xs) = image_mset (api_content_of sd) (mset xs)" if "set xs \<subseteq> set (tb_rows (sd_api sd))" for xs
  proof (rule image_mset_cong)
    fix b assume "b \<in># mset xs"
    then have "apr_id b \<noteq> apr_id a" using that new by (metis imageI set_mset_mset subsetD)
    then show "api_content_of sd' b = api_content_of sd b" using rq(3) rs(3) by (simp add: api_content_of_def design_in_def)
  qed
  have "apis_for p sd' = apis_for p sd @ (if p = apr_parent a then [a] else [])" for p using assms(4) by (simp add: apis_for_def)
  moreover have "set (apis_for p sd) \<subseteq> set (tb_rows (sd_api sd))" for p by (auto simp: apis_for_def)
  moreover have "api_content_of sd' a = \<lparr>ac_api = api_info a, ac_req = X, ac_resp = Y\<rparr>" using rq(2) rs(2) by (simp add: api_content_of_def)
  ultimately show ?thesis using sok same by (simp add: contents_def)
qed

text \<open>The copy of an API from one side to the other.\<close>

lemma api_info_moved: "api_info (a\<lparr>apr_id := i, apr_parent := p\<rparr>) = api_info a"
  by (simp add: api_info_def)

lemma copy_api_spec:
  assumes "side_ok src" "side_ok sd" "any_order D" "\<not> conflict sd p (apr_method a) (apr_name a)"
  shows "\<exists>sd'. copy_api D src p a sd = Some sd' \<and> side_ok sd' \<and> contents sd' p = add_mset (api_content_of src a) (contents sd p) \<and>
    (\<forall>q. q \<noteq> p \<longrightarrow> contents sd' q = contents sd q) \<and>
    tb_rows (sd_api sd') = tb_rows (sd_api sd) @ [a\<lparr>apr_id := tb_seq (sd_api sd), apr_parent := p\<rparr>]"
proof -
  let ?a = "a\<lparr>apr_id := tb_seq (sd_api sd), apr_parent := p\<rparr>" and ?i = "tb_seq (sd_api sd)"
  let ?t = "\<lparr>tb_rows = tb_rows (sd_api sd) @ [?a], tb_seq = tb_seq (sd_api sd) + 1\<rparr>"
  have ok: "params_ok (api_ids src) (sd_req src)" "params_ok (api_ids src) (sd_resp src)"
    "params_ok (api_ids sd) (sd_req sd)" "params_ok (api_ids sd) (sd_resp sd)" using assms(1,2) by (simp_all add: side_ok_def)
  obtain rq where rq: "copy_params ?i (params_in_order D (rows_for (apr_id a) (sd_req src))) (sd_req sd) = Some rq"
    "grown (sd_req sd) ?i (design_in (sd_req src) (apr_id a)) rq"
    using copy_grown [OF ok(1) any_orderD(1) [OF assms(3)] ok(3)] by blast
  obtain rs where rs: "copy_params ?i (params_in_order D (rows_for (apr_id a) (sd_resp src))) (sd_resp sd) = Some rs"
    "grown (sd_resp sd) ?i (design_in (sd_resp src) (apr_id a)) rs"
    using copy_grown [OF ok(2) any_orderD(1) [OF assms(3)] ok(4)] by blast
  let ?sd = "sd\<lparr>sd_api := ?t, sd_req := rq, sd_resp := rs\<rparr>"
  have 1: "copy_api D src p a sd = Some ?sd"
    using assms(4) rq(1) rs(1) by (simp add: copy_api_def insert_api_def insert_row_def)
  show ?thesis
    using added_api [OF assms(2), of ?a ?sd] assms(4) rq(2) rs(2) unfolding 1 by (simp add: api_content_of_def api_info_moved)
qed

lemma copy_apis_spec:
  assumes "side_ok src" "side_ok sd" "any_order D" "distinct (map (\<lambda>a. (apr_method a, apr_name a)) as)"
    and "\<forall>a\<in>set as. \<not> conflict sd p (apr_method a) (apr_name a)"
  shows "\<exists>sd' N. copy_apis D src p as sd = Some sd' \<and> side_ok sd' \<and>
    contents sd' p = image_mset (api_content_of src) (mset as) + contents sd p \<and> (\<forall>q. q \<noteq> p \<longrightarrow> contents sd' q = contents sd q) \<and>
    tb_rows (sd_api sd') = tb_rows (sd_api sd) @ N \<and> (\<forall>b\<in>set N. apr_parent b = p \<and> (\<exists>a\<in>set as. api_info b = api_info a))"
  using assms
proof (induction as arbitrary: sd)
  case (Cons a as)
  obtain sd1 where 1: "copy_api D src p a sd = Some sd1" "side_ok sd1" "contents sd1 p = add_mset (api_content_of src a) (contents sd p)"
    "\<forall>q. q \<noteq> p \<longrightarrow> contents sd1 q = contents sd q"
    "tb_rows (sd_api sd1) = tb_rows (sd_api sd) @ [a\<lparr>apr_id := tb_seq (sd_api sd), apr_parent := p\<rparr>]"
    using copy_api_spec [OF Cons.prems(1-3), of p a] Cons.prems(5) by auto
  have "\<forall>b\<in>set as. \<not> conflict sd1 p (apr_method b) (apr_name b)"
    using Cons.prems(4,5) by (auto simp: conflict_key 1(5) api_key_def image_iff)
  then obtain sd' N where 2: "copy_apis D src p as sd1 = Some sd'" "side_ok sd'"
    "contents sd' p = image_mset (api_content_of src) (mset as) + contents sd1 p" "\<forall>q. q \<noteq> p \<longrightarrow> contents sd' q = contents sd1 q"
    "tb_rows (sd_api sd') = tb_rows (sd_api sd1) @ N" "\<forall>b\<in>set N. apr_parent b = p \<and> (\<exists>a\<in>set as. api_info b = api_info a)"
    using Cons.IH [OF Cons.prems(1) 1(2) Cons.prems(3)] Cons.prems(4) by auto
  show ?case
    using 1 2 by (intro exI [of _ sd'] exI [of _ "a\<lparr>apr_id := tb_seq (sd_api sd), apr_parent := p\<rparr> # N"]) (auto simp: api_info_moved)
qed (auto intro!: exI [of _ "[]"])


text \<open>Rows are deleted by their API.\<close>

lemma rows_for_deleted: "rows_for a (delete_rows (\<lambda>r. pr_api r \<in> G) t) = (if a \<in> G then [] else rows_for a t)"
  by (induction "tb_rows t") (auto simp: rows_for_def delete_rows_def filter_empty_conv intro!: filter_cong)

lemma params_deleted:
  assumes "params_ok A t"
  shows "params_ok (A - G) (delete_rows (\<lambda>r. pr_api r \<in> G) t)"
proof -
  have "\<exists>ts. holds ts (rows_for a (delete_rows (\<lambda>r. pr_api r \<in> G) t))" for a
    using assms by (cases "a \<in> G") (auto simp: rows_for_deleted params_ok_def holds_def intro: exI [of _ "[]"])
  then show ?thesis using assms table_ok_filter [of pr_id t] by (auto simp: params_ok_def delete_rows_def)
qed

text \<open>APIs are deleted with their rows.\<close>

lemma deleted_side:
  assumes "side_ok sd"
    and "sd' = \<lparr>sd_api = delete_rows (\<lambda>a. apr_id a \<in> G) (sd_api sd), sd_req = delete_rows (\<lambda>r. pr_api r \<in> G) (sd_req sd),
           sd_resp = delete_rows (\<lambda>r. pr_api r \<in> G) (sd_resp sd)\<rparr>"
  shows "side_ok sd'" "contents sd' p = image_mset (api_content_of sd) (mset (filter (\<lambda>a. apr_id a \<notin> G) (apis_for p sd)))"
proof -
  have ids: "api_ids sd' = api_ids sd - G" by (auto simp: assms(2) delete_rows_def)
  have "distinct (map api_key (filter (\<lambda>a. apr_id a \<notin> G) (tb_rows (sd_api sd))))" using assms(1) by (simp add: side_ok_def distinct_map_filter)
  then show "side_ok sd'"
    using assms(1) table_ok_filter [of apr_id "sd_api sd"] params_deleted unfolding side_ok_def ids
    by (simp add: assms(2) delete_rows_def)
  have "apis_for p sd' = filter (\<lambda>a. apr_id a \<notin> G) (apis_for p sd)"
    by (auto simp: assms(2) apis_for_def delete_rows_def intro!: filter_cong)
  then show "contents sd' p = image_mset (api_content_of sd) (mset (filter (\<lambda>a. apr_id a \<notin> G) (apis_for p sd)))"
    unfolding contents_def by (auto intro!: image_mset_cong simp: api_content_of_def design_in_def assms(2) rows_for_deleted)
qed

lemma remove_one_filter:
  assumes "distinct (map f xs)" "x \<in> set xs"
  shows "mset (filter (\<lambda>y. f y \<noteq> f x) xs) = mset xs - {#x#}"
  using assms
proof (induction xs)
  case (Cons y xs)
  show ?case
  proof (cases "y = x")
    case True
    then have "filter (\<lambda>z. f z \<noteq> f x) xs = xs" using Cons.prems(1) by (auto simp: filter_id_conv image_iff)
    then show ?thesis using True by simp
  next
    case False
    then show ?thesis using Cons by auto
  qed
qed simp

lemma apis_for_distinct: "side_ok sd \<Longrightarrow> distinct (map apr_id (apis_for p sd))"
  by (simp add: side_ok_def table_ok_def apis_for_def distinct_map_filter)

lemma delete_api_spec:
  assumes "side_ok sd" "a \<in> set (tb_rows (sd_api sd))"
  shows "side_ok (delete_api (apr_id a) sd)"
    "contents (delete_api (apr_id a) sd) p = (if p = apr_parent a then contents sd p - {#api_content_of sd a#} else contents sd p)"
proof -
  have e: "delete_api (apr_id a) sd = \<lparr>sd_api = delete_rows (\<lambda>b. apr_id b \<in> {apr_id a}) (sd_api sd),
      sd_req = delete_rows (\<lambda>r. pr_api r \<in> {apr_id a}) (sd_req sd), sd_resp = delete_rows (\<lambda>r. pr_api r \<in> {apr_id a}) (sd_resp sd)\<rparr>"
    by (simp add: delete_api_def clear_params_def)
  show "side_ok (delete_api (apr_id a) sd)" by (rule deleted_side(1) [OF assms(1) e])
  have *: "contents (delete_api (apr_id a) sd) p = image_mset (api_content_of sd) (mset (filter (\<lambda>b. apr_id b \<noteq> apr_id a) (apis_for p sd)))"
    using deleted_side(2) [OF assms(1) e, of p] by simp
  show "contents (delete_api (apr_id a) sd) p = (if p = apr_parent a then contents sd p - {#api_content_of sd a#} else contents sd p)"
  proof (cases "p = apr_parent a")
    case True
    then have "a \<in> set (apis_for p sd)" using assms(2) by (simp add: apis_for_def)
    then show ?thesis
      unfolding * remove_one_filter [OF apis_for_distinct [OF assms(1)] \<open>a \<in> set (apis_for p sd)\<close>]
      using True by (simp add: contents_def image_mset_Diff)
  next
    case False
    have "apr_id b \<noteq> apr_id a" if "b \<in> set (apis_for p sd)" for b
      using that False assms distinct_keyD [of apr_id "tb_rows (sd_api sd)" b a] by (auto simp: apis_for_def side_ok_def table_ok_def)
    then have "filter (\<lambda>b. apr_id b \<noteq> apr_id a) (apis_for p sd) = apis_for p sd" by (simp add: filter_id_conv)
    then show ?thesis unfolding * using False by (simp add: contents_def)
  qed
qed

lemma delete_apis_spec:
  assumes "side_ok sd"
  shows "side_ok (delete_apis p sd)" "contents (delete_apis p sd) q = (if q = p then {#} else contents sd q)"
    "tb_rows (sd_api (delete_apis p sd)) = filter (\<lambda>a. apr_parent a \<noteq> p) (tb_rows (sd_api sd))"
proof -
  let ?G = "apr_id ` set (apis_for p sd)"
  have k: "apr_id b \<in> ?G \<longleftrightarrow> apr_parent b = p" if "b \<in> set (tb_rows (sd_api sd))" for b
    using that assms distinct_keyD [of apr_id "tb_rows (sd_api sd)" b] by (auto simp: apis_for_def side_ok_def table_ok_def)
  have e: "delete_apis p sd = \<lparr>sd_api = delete_rows (\<lambda>a. apr_id a \<in> ?G) (sd_api sd), sd_req = delete_rows (\<lambda>r. pr_api r \<in> ?G) (sd_req sd),
      sd_resp = delete_rows (\<lambda>r. pr_api r \<in> ?G) (sd_resp sd)\<rparr>"
  proof -
    have "filter (\<lambda>r. apr_parent r \<noteq> p) (tb_rows (sd_api sd)) = filter (\<lambda>r. apr_id r \<notin> ?G) (tb_rows (sd_api sd))"
      using k by (intro filter_cong) auto
    then show ?thesis by (simp add: delete_apis_def delete_rows_def Let_def image_iff)
  qed
  show "side_ok (delete_apis p sd)" by (rule deleted_side(1) [OF assms e])
  show "tb_rows (sd_api (delete_apis p sd)) = filter (\<lambda>a. apr_parent a \<noteq> p) (tb_rows (sd_api sd))"
    by (simp add: delete_apis_def delete_rows_def Let_def)
  have "filter (\<lambda>a. apr_id a \<notin> ?G) (apis_for q sd) = (if q = p then [] else apis_for q sd)"
    using k by (auto simp: apis_for_def filter_empty_conv intro!: filter_cong)
  then show "contents (delete_apis p sd) q = (if q = p then {#} else contents sd q)"
    using deleted_side(2) [OF assms e, of q] by (simp add: contents_def)
qed


text \<open>The row of an API is changed, and its rows are made anew.\<close>

lemma mset_update:
  assumes "distinct (map f xs)" "x \<in> set xs"
  shows "mset (map (\<lambda>y. if f y = f x then g y else y) xs) = add_mset (g x) (mset xs - {#x#})"
proof -
  have "mset (map (\<lambda>y. if f y = f x then g y else y) xs) =
      image_mset (\<lambda>y. if f y = f x then g y else y) (add_mset x (mset xs - {#x#}))" using assms(2) by simp
  also have "\<dots> = add_mset (g x) (image_mset (\<lambda>y. if f y = f x then g y else y) (mset (filter (\<lambda>y. f y \<noteq> f x) xs)))"
    unfolding remove_one_filter [OF assms] by simp
  also have "image_mset (\<lambda>y. if f y = f x then g y else y) (mset (filter (\<lambda>y. f y \<noteq> f x) xs)) = image_mset (\<lambda>y. y) (mset (filter (\<lambda>y. f y \<noteq> f x) xs))"
    by (rule image_mset_cong) auto
  finally show ?thesis using remove_one_filter [OF assms] by simp
qed

lemma distinct_update:
  assumes "distinct (map k xs)" "distinct (map h xs)" "x \<in> set xs" "\<forall>y\<in>set xs. k y \<noteq> k x \<longrightarrow> h y \<noteq> h (g x)"
  shows "distinct (map h (map (\<lambda>y. if k y = k x then g y else y) xs))"
proof -
  have "inj_on (\<lambda>y. h (if k y = k x then g y else y)) (set xs)"
  proof (rule inj_onI)
    fix y z assume yz: "y \<in> set xs" "z \<in> set xs" "h (if k y = k x then g y else y) = h (if k z = k x then g z else z)"
    have "y = x" if "k y = k x" "y \<in> set xs" for y using distinct_keyD [OF assms(1) that(2) assms(3) that(1)] .
    then show "y = z" using yz assms(3,4) distinct_keyD [OF assms(2) yz(1,2)] by (metis (full_types))
  qed
  then show ?thesis using assms(1) by (simp add: distinct_map comp_def)
qed

lemma remade:
  assumes "params_ok A t" "i \<in> A"
  shows "params_ok A (process_params kind i None None ps (clear_params i t))"
    "design_in (process_params kind i None None ps (clear_params i t)) i = input_design kind None ps"
    "b \<noteq> i \<Longrightarrow> rows_for b (process_params kind i None None ps (clear_params i t)) = rows_for b t"
proof -
  have c: "params_ok (A - {i}) (clear_params i t)" "rows_for i (clear_params i t) = []" "b \<noteq> i \<Longrightarrow> rows_for b (clear_params i t) = rows_for b t" for b
    using params_deleted [OF assms(1), of "{i}"] rows_for_deleted [of _ "{i}" t] by (simp_all add: clear_params_def)
  have "0 < tb_seq (clear_params i t)" using c(1) by (simp add: params_ok_def table_ok_def)
  note g = grown_ok [OF c(1,2) process_grown [OF this, of i kind ps]]
  show "params_ok A (process_params kind i None None ps (clear_params i t))" using g(1) assms(2) by (simp add: insert_absorb)
  show "design_in (process_params kind i None None ps (clear_params i t)) i = input_design kind None ps" by (rule g(2))
  show "b \<noteq> i \<Longrightarrow> rows_for b (process_params kind i None None ps (clear_params i t)) = rows_for b t" using g(3) c(3) by simp
qed

lemma rewrite_api_spec:
  assumes "side_ok sd" "a \<in> set (tb_rows (sd_api sd))" "\<And>b. apr_id (f b) = apr_id b \<and> apr_parent (f b) = apr_parent b"
    and "rewrite_api (apr_id a) f rq rs sd = Some sd'"
  shows "side_ok sd' \<and> contents sd' (apr_parent a) =
      add_mset \<lparr>ac_api = api_info (f a), ac_req = input_design RequestKind None rq, ac_resp = input_design ResponseKind None rs\<rparr>
        (contents sd (apr_parent a) - {#api_content_of sd a#}) \<and>
    (\<forall>p. p \<noteq> apr_parent a \<longrightarrow> contents sd' p = contents sd p)"
proof -
  let ?i = "apr_id a" and ?u = "\<lambda>b. if apr_id b = apr_id a then f b else b"
  have ok: "table_ok apr_id (sd_api sd)" "distinct (map api_key (tb_rows (sd_api sd)))"
    "params_ok (api_ids sd) (sd_req sd)" "params_ok (api_ids sd) (sd_resp sd)" using assms(1) by (simp_all add: side_ok_def)
  have sd': "tb_rows (sd_api sd') = map ?u (tb_rows (sd_api sd))" "tb_seq (sd_api sd') = tb_seq (sd_api sd)"
    "sd_req sd' = process_params RequestKind ?i None None rq (clear_params ?i (sd_req sd))"
    "sd_resp sd' = process_params ResponseKind ?i None None rs (clear_params ?i (sd_resp sd))" "\<not> clash ?i (sd_api sd')"
    using assms(4) by (auto simp: rewrite_api_def Let_def update_row_def split: if_splits)
  have free: "api_key b \<noteq> api_key (f a)" if "b \<in> set (tb_rows (sd_api sd))" "apr_id b \<noteq> ?i" for b
  proof
    assume "api_key b = api_key (f a)"
    moreover have "f a \<in> set (tb_rows (sd_api sd'))" "b \<in> set (tb_rows (sd_api sd'))"
      unfolding sd'(1) set_map using assms(2) that by (auto intro!: image_eqI [of _ ?u])
    ultimately show False using sd'(5) that(2) assms(3) [of a] unfolding clash_def api_key_def by (metis prod.inject)
  qed
  have d: "distinct (map apr_id (tb_rows (sd_api sd)))" using ok(1) by (simp add: table_ok_def)
  have "map apr_id (tb_rows (sd_api sd')) = map apr_id (tb_rows (sd_api sd))" unfolding sd'(1) using assms(3) by simp
  then have ids: "api_ids sd' = api_ids sd" by (metis list.set_map)
  have keys: "distinct (map api_key (tb_rows (sd_api sd')))"
    unfolding sd'(1) by (rule distinct_update [OF d ok(2) assms(2)]) (use free in blast)
  have i: "?i \<in> api_ids sd" using assms(2) by simp
  note rqs = remade [OF ok(3) i, where kind = RequestKind and ps = rq, folded sd'(3)] and rss = remade [OF ok(4) i, where kind = ResponseKind and ps = rs, folded sd'(4)]
  have t: "table_ok apr_id (sd_api sd')" using ok(1) assms(3) unfolding table_ok_def sd' by (auto simp: comp_def if_distrib cong: if_cong)
  then have sok: "side_ok sd'" using keys rqs(1) rss(1) unfolding side_ok_def ids by simp
  have cont: "api_content_of sd' b = api_content_of sd b" if "apr_id b \<noteq> ?i" for b
    using that rqs(3) rss(3) by (simp add: api_content_of_def design_in_def)
  have conta: "api_content_of sd' (f a) = \<lparr>ac_api = api_info (f a), ac_req = input_design RequestKind None rq, ac_resp = input_design ResponseKind None rs\<rparr>"
    using rqs(2) rss(2) assms(3) by (simp add: api_content_of_def)
  have ap: "apis_for p sd' = map ?u (apis_for p sd)" for p
    unfolding apis_for_def sd'(1) filter_map using assms(3) by (auto simp: comp_def intro!: filter_cong)
  have ina: "a \<in> set (apis_for (apr_parent a) sd)" using assms(2) by (simp add: apis_for_def)
  have same: "image_mset (api_content_of sd') M = image_mset (api_content_of sd) M" if "\<forall>b\<in>#M. apr_id b \<noteq> ?i" for M
    using that cont by (intro image_mset_cong) auto
  have other: "apr_id b \<noteq> ?i" if "b \<in> set (apis_for p sd)" "p \<noteq> apr_parent a" for b p
    using that assms(2) distinct_keyD [OF d, of b a] by (auto simp: apis_for_def)
  have rest: "\<forall>b\<in>#mset (apis_for (apr_parent a) sd) - {#a#}. apr_id b \<noteq> ?i"
    unfolding remove_one_filter [OF apis_for_distinct [OF assms(1)] ina, symmetric] by simp
  have "contents sd' (apr_parent a) = add_mset (api_content_of sd' (f a)) (image_mset (api_content_of sd) (mset (apis_for (apr_parent a) sd) - {#a#}))"
    unfolding contents_def ap mset_update [OF apis_for_distinct [OF assms(1)] ina] using same [OF rest] by simp
  moreover have "contents sd' p = contents sd p" if "p \<noteq> apr_parent a" for p
  proof -
    have "map ?u (apis_for p sd) = apis_for p sd" using other [OF _ that] by (simp add: map_idI)
    then show ?thesis using same other [OF _ that] by (simp add: contents_def ap)
  qed
  ultimately show ?thesis using sok conta ina by (simp add: contents_def image_mset_Diff)
qed

lemma set_category_spec:
  assumes "side_ok sd"
  shows "side_ok (set_category P c sd)"
    "image_mset (\<lambda>x. x\<lparr>ac_api := (ac_api x)\<lparr>apr_category_id := k\<rparr>\<rparr>) (contents (set_category P c sd) p) =
     image_mset (\<lambda>x. x\<lparr>ac_api := (ac_api x)\<lparr>apr_category_id := k\<rparr>\<rparr>) (contents sd p)"
proof -
  let ?u = "\<lambda>a. if P a then a\<lparr>apr_category_id := c\<rparr> else a" and ?sd = "set_category P c sd"
  have u: "apr_id (?u a) = apr_id a" "apr_parent (?u a) = apr_parent a" "api_key (?u a) = api_key a" for a by (simp_all add: api_key_def)
  have r: "tb_rows (sd_api ?sd) = map ?u (tb_rows (sd_api sd))" "sd_req ?sd = sd_req sd" "sd_resp ?sd = sd_resp sd"
    by (simp_all add: set_category_def)
  have "map apr_id (tb_rows (sd_api ?sd)) = map apr_id (tb_rows (sd_api sd))" unfolding r(1) by (simp add: u(1))
  then have "api_ids ?sd = api_ids sd" by (metis list.set_map)
  moreover have "table_ok apr_id (sd_api ?sd)"
    using assms table_ok_map [of apr_id "sd_api sd" ?u] u(1) by (simp add: side_ok_def set_category_def)
  moreover have "map api_key (tb_rows (sd_api ?sd)) = map api_key (tb_rows (sd_api sd))" unfolding r(1) by (simp add: u(3))
  ultimately show "side_ok ?sd" using assms unfolding side_ok_def r(2,3) by simp
  have "apis_for p ?sd = map ?u (apis_for p sd)" unfolding apis_for_def r(1) filter_map using u(2) by (simp add: comp_def)
  then show "image_mset (\<lambda>x. x\<lparr>ac_api := (ac_api x)\<lparr>apr_category_id := k\<rparr>\<rparr>) (contents ?sd p) =
      image_mset (\<lambda>x. x\<lparr>ac_api := (ac_api x)\<lparr>apr_category_id := k\<rparr>\<rparr>) (contents sd p)"
    by (auto simp: contents_def multiset.map_comp comp_def api_content_of_def r api_info_def intro!: image_mset_cong)
qed

end
