(* ===== verification/Be_Database.thy ===== *)
theory Be_Database
  imports Be_Store
begin

text \<open>
  The tables of \<open>BE-CAM/database/models.py\<close>, the answers of the handlers and the tests of permission they share
  (\<open>services/utils.py\<close>).

  A handler runs in one session: what it changes is kept by \<open>db.commit()\<close> and lost when an exception leaves the handler,
  which the router answers with status 500.  A handler is a function to its answer and the database after it.  Times of
  creation and change are set by the database and not modelled, nor is the length of a column.  Foreign keys hold in
  every database that the handlers reach (\<open>db_ok\<close> in \<open>Be_Invariant\<close>), a relation to a missing row is an exception here.
\<close>

section \<open>Rows\<close>

record user_row =
  usr_id :: int
  usr_username :: string
  usr_password :: string
  usr_nickname :: "string option"
  usr_email :: "string option"
  usr_role :: string
  usr_level :: int

text \<open>\<open>srv_maintainers\<close> are the users linked by \<open>user_service_link\<close>.\<close>

record service_row =
  srv_id :: int
  srv_owner_id :: int
  srv_maintainers :: "int list"
  srv_service_uuid :: string
  srv_version :: string
  srv_description :: "string option"
  srv_is_deleted :: bool
  srv_deleted_at :: "nat option"

record iteration_row =
  itr_id :: int
  itr_service_id :: int
  itr_creator_id :: int
  itr_version :: "string option"
  itr_description :: "string option"
  itr_is_committed :: bool

record category_row =
  ctr_id :: int
  ctr_service_id :: int
  ctr_name :: string
  ctr_description :: "string option"

record database =
  db_users :: "user_row table"
  db_services :: "service_row table"
  db_iterations :: "iteration_row table"
  db_categories :: "category_row table"
  db_published :: side
  db_drafts :: side

section \<open>Answers\<close>

text \<open>
  A dictionary with status, message and perhaps a payload; a dictionary in which they are wrapped; an exception.
\<close>

datatype 'a be_reply = Reply (rp_status: int) (rp_message: string) (rp_body: "'a option") | Wrapped int string | Raised

abbreviation accepted :: "'a be_reply \<Rightarrow> bool" where
  "accepted r \<equiv> \<exists>m b. r = Reply 200 m b"

abbreviation user_of :: "database \<Rightarrow> int \<Rightarrow> user_row option" where
  "user_of db uid \<equiv> get_row usr_id (db_users db) uid"

abbreviation service_of :: "database \<Rightarrow> int \<Rightarrow> service_row option" where
  "service_of db i \<equiv> get_row srv_id (db_services db) i"

abbreviation iteration_of :: "database \<Rightarrow> int \<Rightarrow> iteration_row option" where
  "iteration_of db i \<equiv> get_row itr_id (db_iterations db) i"

abbreviation category_of :: "database \<Rightarrow> int \<Rightarrow> category_row option" where
  "category_of db i \<equiv> get_row ctr_id (db_categories db) i"

section \<open>Permissions\<close>

text \<open>
  \<open>own or user.level.value == 0\<close>, evaluated from the left: the level of a user who does not exist is an
  \<open>AttributeError\<close>.
\<close>

datatype verdict = Allowed | Denied | Crash

definition permitted :: "bool \<Rightarrow> user_row option \<Rightarrow> verdict" where
  "permitted own u = (if own then Allowed else (case u of None \<Rightarrow> Crash | Some u \<Rightarrow> if usr_level u = 0 then Allowed else Denied))"

text \<open>\<open>user in service.maintainers\<close>.\<close>

definition maintains :: "database \<Rightarrow> int \<Rightarrow> service_row \<Rightarrow> bool" where
  "maintains db uid s \<longleftrightarrow> user_of db uid \<noteq> None \<and> uid \<in> set (srv_maintainers s)"

definition as_owner :: "database \<Rightarrow> int \<Rightarrow> service_row \<Rightarrow> verdict" where
  "as_owner db uid s = permitted (srv_owner_id s = uid) (user_of db uid)"

definition as_member :: "database \<Rightarrow> int \<Rightarrow> service_row \<Rightarrow> verdict" where
  "as_member db uid s = permitted (srv_owner_id s = uid \<or> maintains db uid s) (user_of db uid)"

definition as_creator :: "database \<Rightarrow> int \<Rightarrow> iteration_row \<Rightarrow> service_row \<Rightarrow> verdict" where
  "as_creator db uid it s = permitted (srv_owner_id s = uid \<or> itr_creator_id it = uid) (user_of db uid)"

text \<open>The answer of a handler after a test of permission.\<close>

definition guarded :: "verdict \<Rightarrow> int \<Rightarrow> string \<Rightarrow> 'd \<Rightarrow> 'a be_reply \<times> 'd \<Rightarrow> 'a be_reply \<times> 'd" where
  "guarded v st msg db k = (case v of Crash \<Rightarrow> (Raised, db) | Denied \<Rightarrow> (Reply st msg None, db) | Allowed \<Rightarrow> k)"

datatype iteration_check = CheckOk iteration_row service_row | CheckError int string | CheckRaised

definition checkServiceIterationPermission :: "database \<Rightarrow> int \<Rightarrow> int \<Rightarrow> iteration_check" where
  "checkServiceIterationPermission db i uid =
     (case iteration_of db i of
        None \<Rightarrow> CheckError (-10) ''Service iteration not found or committed''
      | Some it \<Rightarrow>
          if itr_is_committed it then CheckError (-10) ''Service iteration not found or committed''
          else if itr_is_committed it then CheckError (-20) ''Service iteration has been committed''
          else (case service_of db (itr_service_id it) of
                  None \<Rightarrow> CheckRaised
                | Some s \<Rightarrow>
                    (case as_creator db uid it s of
                       Crash \<Rightarrow> CheckRaised
                     | Denied \<Rightarrow> CheckError (-30) ''You are neither the owner of this service, nor the creator of this service iteration''
                     | Allowed \<Rightarrow> CheckOk it s)))"

text \<open>\<open>if not check_res["is_ok"]: return check_res["error"]\<close>.\<close>

definition checked :: "iteration_check \<Rightarrow> 'd \<Rightarrow> (iteration_row \<Rightarrow> service_row \<Rightarrow> 'a be_reply \<times> 'd) \<Rightarrow> 'a be_reply \<times> 'd" where
  "checked c db k =
     (case c of CheckOk it s \<Rightarrow> k it s | CheckError st msg \<Rightarrow> (Reply st msg None, db) | CheckRaised \<Rightarrow> (Raised, db))"

text \<open>Who may act on a service, and on an iteration: what the tests amount to.\<close>

definition is_admin :: "database \<Rightarrow> int \<Rightarrow> bool" where
  "is_admin db uid \<longleftrightarrow> (\<exists>u. user_of db uid = Some u \<and> usr_level u = 0)"

lemma permitted_iff: "permitted own (user_of db uid) = Allowed \<longleftrightarrow> own \<or> is_admin db uid"
  by (auto simp: permitted_def is_admin_def split: option.splits)

lemma check_ok_iff:
  "checkServiceIterationPermission db i uid = CheckOk it s \<longleftrightarrow>
     iteration_of db i = Some it \<and> \<not> itr_is_committed it \<and> service_of db (itr_service_id it) = Some s \<and>
     (srv_owner_id s = uid \<or> itr_creator_id it = uid \<or> is_admin db uid)"
  using permitted_iff [of "srv_owner_id s = uid \<or> itr_creator_id it = uid" db uid]
  by (auto simp: checkServiceIterationPermission_def as_creator_def split: option.splits verdict.splits)

lemma guarded_change: "guarded v st msg db k = (r, db') \<Longrightarrow> db' \<noteq> db \<or> accepted r \<Longrightarrow> st \<noteq> 200 \<Longrightarrow> v = Allowed \<and> k = (r, db')"
  by (auto simp: guarded_def split: verdict.splits)

end
