(* ===== verification/Be_Service.thy ===== *)
theory Be_Service
  imports Be_Database
begin

text \<open>
  The handlers of \<open>BE-CAM/services/service.py\<close>: services, their maintainers, and the life of an iteration from
  \<open>serviceStartIteration\<close>, which copies the published APIs into drafts, to \<open>serviceCommitIteration\<close>, which replaces
  the published APIs by the drafts.
\<close>

section \<open>Services\<close>

text \<open>An owner that does not exist violates a foreign key.\<close>

definition serviceCreateNewService :: "string \<Rightarrow> int \<Rightarrow> string \<Rightarrow> database \<Rightarrow> service_row be_reply \<times> database" where
  "serviceCreateNewService uuid owner desc db =
     (if \<exists>s\<in>set (tb_rows (db_services db)). srv_service_uuid s = uuid then (Reply (-1) ''Service UUID already exists'' None, db)
      else if user_of db owner = None then (Raised, db)
      else
        (let f = \<lambda>i. \<lparr>srv_id = i, srv_owner_id = owner, srv_maintainers = [], srv_service_uuid = uuid, srv_version = ''0.0.1'',
                      srv_description = Some desc, srv_is_deleted = False, srv_deleted_at = None\<rparr>;
             (i, t) = insert_row f (db_services db)
         in (Reply 200 ''Create service success'' (Some (f i)), db\<lparr>db_services := t\<rparr>)))"

text \<open>The lists of services: newest first, a page of them, and how many there are.\<close>

definition newest_first :: "(service_row \<Rightarrow> bool) \<Rightarrow> database \<Rightarrow> service_row list" where
  "newest_first P db = rev (sort_key srv_id (filter P (tb_rows (db_services db))))"

definition page_of :: "nat \<Rightarrow> nat \<Rightarrow> 'r list \<Rightarrow> 'r list" where
  "page_of page_size current_page xs = take page_size (drop ((current_page - 1) * page_size) xs)"

definition serviceGetAllServices :: "int \<Rightarrow> nat \<Rightarrow> nat \<Rightarrow> database \<Rightarrow> (service_row list \<times> nat) be_reply" where
  "serviceGetAllServices uid page_size current_page db =
     fst (guarded (permitted False (user_of db uid)) (-1) ''You don't have permission to view all services'' ()
       (Reply 200 ''Get services success'' (Some (page_of page_size current_page (newest_first (\<lambda>_. True) db), length (tb_rows (db_services db)))), ()))"

definition serviceGetHisNewestServicesByOwnerId :: "int \<Rightarrow> int \<Rightarrow> nat \<Rightarrow> nat \<Rightarrow> database \<Rightarrow> (service_row list \<times> nat) be_reply" where
  "serviceGetHisNewestServicesByOwnerId owner my_id page_size current_page db =
     (let P = \<lambda>s. \<not> srv_is_deleted s \<and> srv_owner_id s = owner
      in case user_of db my_id of
           None \<Rightarrow> Raised
         | Some u \<Rightarrow>
             if usr_level u \<noteq> 0 \<and> owner \<noteq> my_id then Reply (-1) ''You are not the owner of these services'' None
             else Reply 200 ''Get services success'' (Some (page_of page_size current_page (newest_first P db), length (newest_first P db))))"

definition serviceGetHisMaintainedServicesByUserId :: "int \<Rightarrow> int \<Rightarrow> nat \<Rightarrow> nat \<Rightarrow> database \<Rightarrow> (service_row list \<times> nat) be_reply" where
  "serviceGetHisMaintainedServicesByUserId uid my_id page_size current_page db =
     (let P = \<lambda>s. \<not> srv_is_deleted s \<and> uid \<in> set (srv_maintainers s)
      in case user_of db my_id of
           None \<Rightarrow> Raised
         | Some u \<Rightarrow>
             if usr_level u \<noteq> 0 \<and> uid \<noteq> my_id
             then Reply (-1) ''You don't have authorization to view other users' maintained services'' None
             else Reply 200 ''Get services success'' (Some (page_of page_size current_page (newest_first P db), length (newest_first P db))))"

text \<open>The services a user has deleted, the one deleted last first.\<close>

definition serviceGetAllDeletedServicesByUserId :: "int \<Rightarrow> nat \<Rightarrow> nat \<Rightarrow> database \<Rightarrow> (service_row list \<times> nat) be_reply" where
  "serviceGetAllDeletedServicesByUserId uid page_size current_page db =
     (let xs = rev (sort_key (\<lambda>s. case srv_deleted_at s of None \<Rightarrow> 0 | Some t \<Rightarrow> t)
                (filter (\<lambda>s. srv_is_deleted s \<and> srv_owner_id s = uid) (tb_rows (db_services db))))
      in Reply 200 ''Get deleted services success'' (Some (page_of page_size current_page xs, length xs)))"

definition serviceGetServiceById :: "int \<Rightarrow> int \<Rightarrow> database \<Rightarrow> (service_row \<times> api_row list) be_reply" where
  "serviceGetServiceById i uid db =
     (case service_of db i of
        None \<Rightarrow> Reply (-1) ''Service not found'' None
      | Some s \<Rightarrow>
          fst (guarded (as_owner db uid s) (-2) ''You are not the owner of this service'' ()
            (Reply 200 ''Get service success'' (Some (s, apis_for i (db_published db))), ())))"

text \<open>Deletion is a mark, which can be taken back.\<close>

definition serviceDeleteServiceById :: "server_env \<Rightarrow> int \<Rightarrow> int \<Rightarrow> database \<Rightarrow> unit be_reply \<times> database" where
  "serviceDeleteServiceById D i uid db =
     (case service_of db i of
        None \<Rightarrow> (Reply (-1) ''Service not found'' None, db)
      | Some s \<Rightarrow>
          guarded (as_owner db uid s) (-2) ''You are not the owner of this service'' db
            (Reply 200 ''Delete service success'' None,
             db\<lparr>db_services := update_row srv_id i (\<lambda>s. s\<lparr>srv_is_deleted := True, srv_deleted_at := Some (clock D)\<rparr>) (db_services db)\<rparr>))"

definition serviceRestoreServiceById :: "int \<Rightarrow> int \<Rightarrow> database \<Rightarrow> unit be_reply \<times> database" where
  "serviceRestoreServiceById i uid db =
     (case service_of db i of
        None \<Rightarrow> (Reply (-1) ''Service not found'' None, db)
      | Some s \<Rightarrow>
          guarded (as_owner db uid s) (-2) ''You are not the owner of this service'' db
            (if \<not> srv_is_deleted s then (Reply (-3) ''Service is not deleted'' None, db)
             else (Reply 200 ''Restore service success'' None,
                db\<lparr>db_services := update_row srv_id i (\<lambda>s. s\<lparr>srv_is_deleted := False, srv_deleted_at := None\<rparr>) (db_services db)\<rparr>)))"

section \<open>Maintainers\<close>

definition serviceIsMaintainer :: "int \<Rightarrow> int \<Rightarrow> int \<Rightarrow> database \<Rightarrow> bool be_reply" where
  "serviceIsMaintainer i uid candidate db =
     (case service_of db i of
        None \<Rightarrow> Reply (-1) ''Service not found'' None
      | Some s \<Rightarrow>
          fst (guarded (as_owner db uid s) (-2) ''You are not the owner of this service'' ()
            (Reply 200 ''Check service maintainer success'' (Some (maintains db candidate s)), ())))"

definition serviceAddOrRemoveServiceMaintainerById :: "int \<Rightarrow> int \<Rightarrow> int \<Rightarrow> database \<Rightarrow> bool be_reply \<times> database" where
  "serviceAddOrRemoveServiceMaintainerById i uid candidate db =
     (case service_of db i of
        None \<Rightarrow> (Reply (-1) ''Service not found'' None, db)
      | Some s \<Rightarrow>
          guarded (as_owner db uid s) (-2) ''You are not the owner of this service'' db
            (if srv_owner_id s = candidate then (Reply (-4) ''Service owner cannot be added as a maintainer'' None, db)
             else if user_of db candidate = None then (Reply (-3) ''Candidate not found'' None, db)
             else
               (let was = candidate \<in> set (srv_maintainers s);
                    ms = (if was then remove1 candidate (srv_maintainers s) else srv_maintainers s @ [candidate])
                in (Reply 200 (if was then ''Remove service maintainer success'' else ''Add service maintainer success'') (Some (candidate \<in> set ms)),
                    db\<lparr>db_services := update_row srv_id i (\<lambda>s. s\<lparr>srv_maintainers := ms\<rparr>) (db_services db)\<rparr>))))"

section \<open>Iterations\<close>

text \<open>The relation \<open>api_drafts\<close> is not cascaded: the drafts of a deleted iteration would lose a column that must not be null.\<close>

definition serviceDeleteIterationById :: "int \<Rightarrow> int \<Rightarrow> database \<Rightarrow> unit be_reply \<times> database" where
  "serviceDeleteIterationById i uid db =
     (case iteration_of db i of
        None \<Rightarrow> (Reply (-1) ''No service iteration found'' None, db)
      | Some it \<Rightarrow>
          (case service_of db (itr_service_id it) of
             None \<Rightarrow> (Raised, db)
           | Some s \<Rightarrow>
               guarded (as_creator db uid it s) (-2) ''You are neither the owner of this service, nor the creator of this service iteration'' db
                 (if apis_for i (db_drafts db) \<noteq> [] then (Raised, db)
                  else (Reply 200 ''Delete service iteration success'' None,
                    db\<lparr>db_iterations := delete_rows (\<lambda>it. itr_id it = i) (db_iterations db)\<rparr>))))"

definition serviceGetServiceIterationById :: "int \<Rightarrow> int \<Rightarrow> database \<Rightarrow> (iteration_row \<times> api_row list) be_reply" where
  "serviceGetServiceIterationById i uid db =
     (case iteration_of db i of
        None \<Rightarrow> Reply (-1) ''Service iteration not found'' None
      | Some it \<Rightarrow>
          (case service_of db (itr_service_id it) of
             None \<Rightarrow> Raised
           | Some s \<Rightarrow>
               fst (guarded (as_creator db uid it s) (-2) ''You are neither the owner of this service, nor the creator of this service iteration'' ()
                 (if itr_is_committed it then (Reply (-3) ''Service iteration has been committed'' None, ())
                  else (Reply 200 ''Get service iteration success'' (Some (it, apis_for i (db_drafts db))), ())))))"

definition serviceStartIteration :: "server_env \<Rightarrow> int \<Rightarrow> int \<Rightarrow> database \<Rightarrow> int be_reply \<times> database" where
  "serviceStartIteration D i uid db =
     (case service_of db i of
        None \<Rightarrow> (Reply (-1) ''Service not found'' None, db)
      | Some s \<Rightarrow>
          guarded (as_member db uid s) (-2) ''You are neither the owner nor the maintainer of this service'' db
            (case List.find (\<lambda>it. itr_service_id it = i \<and> \<not> itr_is_committed it \<and> itr_creator_id it = uid) (tb_rows (db_iterations db)) of
               Some it \<Rightarrow> (Reply 201 ''You have an uncommitted service iteration in progress'' (Some (itr_id it)), db)
             | None \<Rightarrow>
                 (let (n, its) = insert_row (\<lambda>n. \<lparr>itr_id = n, itr_service_id = i, itr_creator_id = uid, itr_version = None,
                                               itr_description = None, itr_is_committed = False\<rparr>) (db_iterations db)
                  in case copy_apis D (db_published db) n (apis_in_order D (apis_for i (db_published db))) (db_drafts db) of
                       None \<Rightarrow> (Raised, db)
                     | Some dr \<Rightarrow> (Reply 200 ''Start service iteration success'' (Some n), db\<lparr>db_iterations := its, db_drafts := dr\<rparr>))))"

text \<open>
  \<open>serviceCommitIteration\<close>.  A failed test of permission is returned with its wrapping.  The mail is sent after the
  commit: its text names the user, and an owner without an address makes the join of the recipients an exception when
  a mail server is configured.
\<close>

definition serviceCommitIteration :: "server_env \<Rightarrow> int \<Rightarrow> string \<Rightarrow> int \<Rightarrow> database \<Rightarrow> (int \<times> int \<times> string) be_reply \<times> database" where
  "serviceCommitIteration D i new_version uid db =
     (case checkServiceIterationPermission db i uid of
        CheckError st msg \<Rightarrow> (Wrapped st msg, db)
      | CheckRaised \<Rightarrow> (Raised, db)
      | CheckOk it s \<Rightarrow>
          if new_version = srv_version s then (Reply (-1) ''New version is the same as current version'' None, db)
          else
            (case copy_apis D (db_drafts db) (srv_id s) (apis_in_order D (apis_for i (db_drafts db))) (delete_apis (srv_id s) (db_published db)) of
               None \<Rightarrow> (Raised, db)
             | Some pb \<Rightarrow>
                 (let db' = db\<lparr>db_services := update_row srv_id (srv_id s)
                                  (\<lambda>s. s\<lparr>srv_description := itr_description it, srv_version := new_version\<rparr>) (db_services db),
                              db_iterations := update_row itr_id i
                                  (\<lambda>it. it\<lparr>itr_version := Some new_version, itr_is_committed := True\<rparr>) (db_iterations db),
                              db_published := pb\<rparr>
                  in case user_of db (srv_owner_id s) of
                       None \<Rightarrow> (Raised, db')
                     | Some owner \<Rightarrow>
                         if user_of db uid = None \<or> (smtp_configured D \<and> usr_email owner = None) then (Raised, db')
                         else (Reply 200 ''Commit service iteration success'' (Some (srv_id s, i, new_version)), db'))))"

definition serviceUpdateDescription :: "int \<Rightarrow> string \<Rightarrow> int \<Rightarrow> database \<Rightarrow> unit be_reply \<times> database" where
  "serviceUpdateDescription i desc uid db =
     checked (checkServiceIterationPermission db i uid) db
       (\<lambda>it s. (Reply 200 ''Update service description success'' None,
          db\<lparr>db_iterations := update_row itr_id i (\<lambda>it. it\<lparr>itr_description := Some desc\<rparr>) (db_iterations db)\<rparr>))"

text \<open>The version that is asked for: the latest one, or an iteration that carries its number.\<close>

datatype version_found = LatestFound service_row | IterationFound service_row iteration_row

text \<open>The identifier as it was decoded from the query and stripped; the version is found among the iterations of the service.\<close>

definition find_version :: "string \<Rightarrow> string \<Rightarrow> database \<Rightarrow> (int \<times> string) + version_found" where
  "find_version uuid version db =
     (case List.find (\<lambda>s. srv_service_uuid s = uuid \<and> \<not> srv_is_deleted s) (tb_rows (db_services db)) of
        None \<Rightarrow> Inl (-1, ''Service not found'')
      | Some s \<Rightarrow>
          if srv_version s = version \<or> version = ''latest'' then Inr (LatestFound s)
          else (case List.find (\<lambda>it. itr_service_id it = srv_id s \<and> itr_version it = Some version) (tb_rows (db_iterations db)) of
                  None \<Rightarrow> Inl (-2, ''Service version not found'')
                | Some it \<Rightarrow> Inr (IterationFound s it)))"

definition serviceGetServiceByUuidAndVersion :: "string \<Rightarrow> string \<Rightarrow> int \<Rightarrow> database \<Rightarrow> (version_found \<times> api_row list) be_reply" where
  "serviceGetServiceByUuidAndVersion uuid version uid db =
     (case find_version uuid version db of
        Inl (st, msg) \<Rightarrow> Reply st msg None
      | Inr (LatestFound s) \<Rightarrow>
          fst (guarded (as_member db uid s) (-3) ''You are neither the owner nor the maintainer of this service'' ()
            (Reply 200 ''Get service success'' (Some (LatestFound s, apis_for (srv_id s) (db_published db))), ()))
      | Inr (IterationFound s it) \<Rightarrow>
          (case as_member db uid s of
             Crash \<Rightarrow> Raised
           | Denied \<Rightarrow>
               if itr_creator_id it \<noteq> uid then Reply (-4) ''You are not the creator of this service iteration'' None
               else Reply 200 ''Get service success'' (Some (IterationFound s it, apis_for (itr_id it) (db_drafts db)))
           | Allowed \<Rightarrow> Reply 200 ''Get service success'' (Some (IterationFound s it, apis_for (itr_id it) (db_drafts db)))))"

text \<open>All versions: the current one, then those of the iterations, newest first; an open iteration has none.\<close>

definition serviceGetAllVersionsByUuid :: "string \<Rightarrow> int \<Rightarrow> database \<Rightarrow> (string option \<times> bool) list be_reply" where
  "serviceGetAllVersionsByUuid uuid uid db =
     (case List.find (\<lambda>s. srv_service_uuid s = uuid \<and> \<not> srv_is_deleted s) (tb_rows (db_services db)) of
        None \<Rightarrow> Reply (-1) ''Service not found'' None
      | Some s \<Rightarrow>
          fst (guarded (as_member db uid s) (-2) ''You are neither the owner nor the maintainer of this service'' ()
            (Reply 200 ''Get service versions success''
               (Some ((Some (srv_version s), True) #
                  map (\<lambda>it. (itr_version it, False))
                    (filter (\<lambda>it. itr_version it \<noteq> Some (srv_version s))
                      (rev (sort_key itr_id (filter (\<lambda>it. itr_service_id it = srv_id s) (tb_rows (db_iterations db)))))))), ())))"

end
