(* ===== verification/Be_Api.thy ===== *)
theory Be_Api
  imports Be_Service
begin

text \<open>
  The handlers of \<open>BE-CAM/services/api.py\<close>: categories, and the APIs of an open iteration.
\<close>

section \<open>Categories\<close>

definition apiGetAllCategoriesByServiceId :: "int \<Rightarrow> int \<Rightarrow> database \<Rightarrow> category_row list be_reply" where
  "apiGetAllCategoriesByServiceId i uid db =
     (case service_of db i of
        None \<Rightarrow> Reply (-1) ''Service not found'' None
      | Some s \<Rightarrow>
          fst (guarded (as_owner db uid s) (-2) ''You are not the owner of this service'' ()
            (Reply 200 ''Get all categories success''
               (Some (sort_key ctr_id (filter (\<lambda>c. ctr_service_id c = i) (tb_rows (db_categories db))))), ())))"

text \<open>\<open>Api.is_deleted\<close> does not exist: past the test of permission the handler ends with an \<open>AttributeError\<close>.\<close>

definition apiGetAllApisByServiceId :: "int \<Rightarrow> int \<Rightarrow> int option \<Rightarrow> database \<Rightarrow> api_row list be_reply" where
  "apiGetAllApisByServiceId i uid category db =
     (case service_of db i of
        None \<Rightarrow> Reply (-1) ''Service not found'' None
      | Some s \<Rightarrow> fst (guarded (as_owner db uid s) (-2) ''You are not the owner of this service'' () (Raised, ())))"

definition category_named :: "database \<Rightarrow> int \<Rightarrow> string option \<Rightarrow> bool" where
  "category_named db i name \<longleftrightarrow> (\<exists>c\<in>set (tb_rows (db_categories db)). ctr_service_id c = i \<and> Some (ctr_name c) = name)"

definition apiAddCategoryByServiceId :: "int \<Rightarrow> int \<Rightarrow> string \<Rightarrow> string option \<Rightarrow> database \<Rightarrow> category_row be_reply \<times> database" where
  "apiAddCategoryByServiceId i uid name desc db =
     (case service_of db i of
        None \<Rightarrow> (Reply (-1) ''Service not found'' None, db)
      | Some s \<Rightarrow>
          guarded (as_member db uid s) (-2) ''You are neither the owner nor the maintainer of this service'' db
            (if category_named db i (Some name) then (Reply (-3) ''Category name already exists'' None, db)
             else
               (let f = \<lambda>n. \<lparr>ctr_id = n, ctr_service_id = i, ctr_name = name, ctr_description = desc\<rparr>;
                    (n, t) = insert_row f (db_categories db)
                in (Reply 200 ''Add category success'' (Some (f n)), db\<lparr>db_categories := t\<rparr>))))"

text \<open>Deleting a category takes it away from the APIs and drafts that refer to it.\<close>

definition apiDeleteCategoryById :: "int \<Rightarrow> int \<Rightarrow> database \<Rightarrow> unit be_reply \<times> database" where
  "apiDeleteCategoryById c uid db =
     (case category_of db c of
        None \<Rightarrow> (Reply (-1) ''Category not found'' None, db)
      | Some ct \<Rightarrow>
          if user_of db uid = None then (Reply (-2) ''User not found'' None, db)
          else
            (case service_of db (ctr_service_id ct) of
               None \<Rightarrow> (Raised, db)
             | Some s \<Rightarrow>
                 guarded (as_member db uid s) (-3) ''You are neither the owner nor the maintainer of this service'' db
                   (Reply 200 ''Delete category success'' None,
                    db\<lparr>db_categories := delete_rows (\<lambda>x. ctr_id x = c) (db_categories db),
                       db_published := set_category (\<lambda>a. apr_category_id a = Some c) None (db_published db),
                       db_drafts := set_category (\<lambda>a. apr_category_id a = Some c) None (db_drafts db)\<rparr>)))"

text \<open>
  The name is assigned also when only a description is given: a name of \<open>None\<close> violates the column.
\<close>

definition rename_category :: "category_row \<Rightarrow> string option \<Rightarrow> string option \<Rightarrow> database \<Rightarrow> category_row be_reply \<times> database" where
  "rename_category ct name desc db =
     (if name = None \<and> desc = None then (Reply (-4) ''Category name or description is required'' None, db)
      else if name = Some (ctr_name ct) \<and> desc = ctr_description ct
      then (Reply (-5) ''Category name or description not changed'' None, db)
      else if category_named db (ctr_service_id ct) name then (Reply (-6) ''Category name already exists'' None, db)
      else
        (case name of
           None \<Rightarrow> (Raised, db)
         | Some n \<Rightarrow>
             (Reply 200 ''Update category success'' (Some (ct\<lparr>ctr_name := n, ctr_description := desc\<rparr>)),
              db\<lparr>db_categories := update_row ctr_id (ctr_id ct) (\<lambda>x. x\<lparr>ctr_name := n, ctr_description := desc\<rparr>) (db_categories db)\<rparr>)))"

definition apiUpdateCategoryById :: "int \<Rightarrow> int \<Rightarrow> string option \<Rightarrow> string option \<Rightarrow> database \<Rightarrow> category_row be_reply \<times> database" where
  "apiUpdateCategoryById c uid name desc db =
     (case category_of db c of
        None \<Rightarrow> (Reply (-1) ''Category not found'' None, db)
      | Some ct \<Rightarrow>
          if user_of db uid = None then (Reply (-2) ''User not found'' None, db)
          else
            (case service_of db (ctr_service_id ct) of
               None \<Rightarrow> (Raised, db)
             | Some s \<Rightarrow> guarded (as_owner db uid s) (-3) ''You are not the owner of this service'' db (rename_category ct name desc db)))"

abbreviation published_api :: "database \<Rightarrow> int \<Rightarrow> api_row option" where
  "published_api db i \<equiv> get_row apr_id (sd_api (db_published db)) i"

abbreviation draft_api :: "database \<Rightarrow> int \<Rightarrow> api_row option" where
  "draft_api db i \<equiv> get_row apr_id (sd_api (db_drafts db)) i"

definition recategorize :: "api_row \<Rightarrow> int \<Rightarrow> database \<Rightarrow> unit be_reply \<times> database" where
  "recategorize a c db =
     (if apr_category_id a = Some c then (Reply (-4) ''Api category not changed'' None, db)
      else if c = -1
      then (Reply 200 ''Update api category success'' None,
            db\<lparr>db_published := set_category (\<lambda>x. apr_id x = apr_id a) None (db_published db)\<rparr>)
      else
        (case category_of db c of
           None \<Rightarrow> (Reply (-5) ''Category not found'' None, db)
         | Some ct \<Rightarrow>
             if ctr_service_id ct \<noteq> apr_parent a then (Reply (-6) ''Category not belongs to this service'' None, db)
             else (Reply 200 ''Update api category success'' None,
                   db\<lparr>db_published := set_category (\<lambda>x. apr_id x = apr_id a) (Some c) (db_published db)\<rparr>)))"

definition apiUpdateApiCategory :: "int \<Rightarrow> int \<Rightarrow> int \<Rightarrow> database \<Rightarrow> unit be_reply \<times> database" where
  "apiUpdateApiCategory i c uid db =
     (case published_api db i of
        None \<Rightarrow> (Reply (-1) ''Api not found'' None, db)
      | Some a \<Rightarrow>
          if user_of db uid = None then (Reply (-2) ''User not found'' None, db)
          else
            (case service_of db (apr_parent a) of
               None \<Rightarrow> (Raised, db)
             | Some s \<Rightarrow>
                 guarded (as_member db uid s) (-3) ''You are neither the owner nor the maintainer of this service'' db (recategorize a c db)))"

section \<open>Reading an API\<close>

record api_answer =
  aa_api :: api_row
  aa_request_params_by_location :: "ptree list js_obj"
  aa_response_params_by_status_code :: "(int \<times> ptree list) list"

definition api_answer_of :: "server_env \<Rightarrow> side \<Rightarrow> api_row \<Rightarrow> api_answer" where
  "api_answer_of D sd a =
     \<lparr>aa_api = a, aa_request_params_by_location = organizeReqParams (params_in_order D (rows_for (apr_id a) (sd_req sd))),
      aa_response_params_by_status_code = organizeRespParams (params_in_order D (rows_for (apr_id a) (sd_resp sd)))\<rparr>"

definition apiGetApiById :: "server_env \<Rightarrow> int \<Rightarrow> int \<Rightarrow> bool \<Rightarrow> database \<Rightarrow> api_answer be_reply" where
  "apiGetApiById D i uid is_latest db =
     (case (if is_latest then published_api db i else draft_api db i) of
        None \<Rightarrow> Reply (-1) ''Api not found'' None
      | Some a \<Rightarrow>
          (case user_of db uid of
             None \<Rightarrow> Reply (-2) ''User not found'' None
           | Some u \<Rightarrow>
               if is_latest then
                 (case service_of db (apr_parent a) of
                    None \<Rightarrow> Raised
                  | Some s \<Rightarrow>
                      if usr_level u \<noteq> 0 \<and> srv_owner_id s \<noteq> uid \<and> \<not> maintains db uid s
                      then Reply (-3) ''You are neither the owner nor the maintainer of this service'' None
                      else Reply 200 ''Get api success'' (Some (api_answer_of D (db_published db) a)))
               else
                 (case iteration_of db (apr_parent a) of
                    None \<Rightarrow> Raised
                  | Some it \<Rightarrow>
                      (case service_of db (itr_service_id it) of
                         None \<Rightarrow> Raised
                       | Some s \<Rightarrow>
                           if usr_level u \<noteq> 0 \<and> itr_creator_id it \<noteq> uid \<and> \<not> maintains db uid s \<and> srv_owner_id s \<noteq> uid
                           then Reply (-4) ''You are neither the owner nor the maintainer of this service, nor the creator of this service iteration'' None
                           else Reply 200 ''Get api success'' (Some (api_answer_of D (db_drafts db) a))))))"

section \<open>The APIs of an iteration\<close>

text \<open>\<open>HttpMethod(method)\<close> and \<open>ApiLevel(level)\<close> with their fallbacks.\<close>

definition method_enum :: "string \<Rightarrow> HttpMethod" where
  "method_enum m = (case List.find (\<lambda>x. method_str x = m) [GET, POST, PUT, DELETE, PATCH] of Some x \<Rightarrow> x | None \<Rightarrow> GET)"

definition level_enum :: "string \<Rightarrow> ApiLevel" where
  "level_enum l = (case List.find (\<lambda>x. level_str x = l) [P0, P1, P2, P3, P4] of Some x \<Rightarrow> x | None \<Rightarrow> P2)"

text \<open>The query for an API with this method and either this path or this name.\<close>

definition taken :: "side \<Rightarrow> int \<Rightarrow> string \<Rightarrow> string \<Rightarrow> string \<Rightarrow> bool" where
  "taken sd p method path name \<longleftrightarrow>
     (\<exists>a\<in>set (apis_for p sd). method_str (apr_method a) = method \<and> (apr_path a = path \<or> apr_name a = name))"

definition new_draft :: "int \<Rightarrow> int \<Rightarrow> string \<Rightarrow> string \<Rightarrow> string \<Rightarrow> string \<Rightarrow> string \<Rightarrow> int option \<Rightarrow> int \<Rightarrow> api_row" where
  "new_draft i uid name method path desc level category n =
     \<lparr>apr_id = n, apr_parent = i, apr_owner_id = uid, apr_category_id = category, apr_name = name, apr_method = method_enum method,
      apr_path = path, apr_description = Some desc, apr_level = level_enum level, apr_is_enabled = True\<rparr>"

definition add_draft :: "(int \<Rightarrow> api_row) \<Rightarrow> database \<Rightarrow> api_row be_reply \<times> database" where
  "add_draft f db =
     (case insert_api f (db_drafts db) of
        None \<Rightarrow> (Raised, db)
      | Some (n, dr) \<Rightarrow> (Reply 200 ''Add api success'' (Some (f n)), db\<lparr>db_drafts := dr\<rparr>))"

definition apiAddApi :: "server_env \<Rightarrow> int \<Rightarrow> int \<Rightarrow> string \<Rightarrow> string \<Rightarrow> string \<Rightarrow> string \<Rightarrow> string \<Rightarrow> int option \<Rightarrow> database \<Rightarrow>
    api_row be_reply \<times> database" where
  "apiAddApi D i uid name method path desc level category db =
     checked (checkServiceIterationPermission db i uid) db (\<lambda>it s.
       if native_enums D \<and> method \<notin> method_str ` {GET, POST, PUT, DELETE, PATCH} then (Raised, db)
       else if taken (db_published db) (itr_service_id it) method path name \<or> taken (db_drafts db) i method path name
       then (Reply (-1) ''Api method and name/path already exists in this service'' None, db)
       else
         (case category of
            None \<Rightarrow> add_draft (new_draft i uid name method path desc level category) db
          | Some c \<Rightarrow>
              (case category_of db c of
                 None \<Rightarrow> (Reply (-2) ''Category not found'' None, db)
               | Some ct \<Rightarrow>
                   if ctr_service_id ct \<noteq> itr_service_id it then (Reply (-3) ''Category not belongs to this service'' None, db)
                   else add_draft (new_draft i uid name method path desc level category) db)))"

text \<open>The draft that is named, which has to belong to the iteration.\<close>

definition draft_in :: "int \<Rightarrow> int \<Rightarrow> database \<Rightarrow> (api_row \<Rightarrow> 'a be_reply \<times> database) \<Rightarrow> 'a be_reply \<times> database" where
  "draft_in i d db k =
     (case draft_api db d of
        None \<Rightarrow> (Reply (-1) ''Api draft not found'' None, db)
      | Some a \<Rightarrow> if apr_parent a \<noteq> i then (Reply (-2) ''Api draft not belongs to this service iteration'' None, db) else k a)"

text \<open>\<open>f"{name}-copy-{timestamp}"\<close>, with the time in seconds.\<close>

definition copy_suffix :: "server_env \<Rightarrow> string" where
  "copy_suffix D = ''-copy-'' @ nat_str (clock D)"

definition copied_row :: "server_env \<Rightarrow> int \<Rightarrow> api_row \<Rightarrow> int \<Rightarrow> api_row" where
  "copied_row D uid a n = a\<lparr>apr_id := n, apr_owner_id := uid, apr_name := apr_name a @ copy_suffix D, apr_path := apr_path a @ copy_suffix D\<rparr>"

definition apiCopyApiByApiDraftId :: "server_env \<Rightarrow> int \<Rightarrow> int \<Rightarrow> int \<Rightarrow> database \<Rightarrow> unit be_reply \<times> database" where
  "apiCopyApiByApiDraftId D i d uid db =
     checked (checkServiceIterationPermission db i uid) db (\<lambda>it s. draft_in i d db (\<lambda>a.
       case insert_api (copied_row D uid a) (db_drafts db) of
         None \<Rightarrow> (Raised, db)
       | Some (n, dr) \<Rightarrow>
           (Reply 200 ''Copy api success'' None,
            db\<lparr>db_drafts := dr\<lparr>sd_req := copy_params_recursively n None (param_objects D d (sd_req dr)) (sd_req dr),
                               sd_resp := copy_params_recursively n None (param_objects D d (sd_resp dr)) (sd_resp dr)\<rparr>\<rparr>)))"

definition apiDeleteApiByApiDraftId :: "int \<Rightarrow> int \<Rightarrow> int \<Rightarrow> database \<Rightarrow> unit be_reply \<times> database" where
  "apiDeleteApiByApiDraftId i d uid db =
     checked (checkServiceIterationPermission db i uid) db (\<lambda>it s. draft_in i d db (\<lambda>a.
       (Reply 200 ''Delete api success'' None, db\<lparr>db_drafts := delete_api d (db_drafts db)\<rparr>)))"

definition updated_row :: "string \<Rightarrow> string \<Rightarrow> string \<Rightarrow> string option \<Rightarrow> string \<Rightarrow> api_row \<Rightarrow> api_row" where
  "updated_row name method path desc level a =
     a\<lparr>apr_name := name, apr_method := method_enum method, apr_path := path, apr_description := desc, apr_level := level_enum level\<rparr>"

definition apiUpdateApiByApiDraftId :: "int \<Rightarrow> int \<Rightarrow> int \<Rightarrow> string \<Rightarrow> string \<Rightarrow> string \<Rightarrow> string option \<Rightarrow> string \<Rightarrow>
    be_param list \<Rightarrow> be_param list \<Rightarrow> database \<Rightarrow> unit be_reply \<times> database" where
  "apiUpdateApiByApiDraftId i d uid name method path desc level req_params resp_params db =
     checked (checkServiceIterationPermission db i uid) db (\<lambda>it s. draft_in i d db (\<lambda>a.
       case rewrite_api d (updated_row name method path desc level) req_params resp_params (db_drafts db) of
         None \<Rightarrow> (Raised, db)
       | Some dr \<Rightarrow> (Reply 200 ''Update api success'' None, db\<lparr>db_drafts := dr\<rparr>)))"

end
