(* ===== verification/Be_User.thy ===== *)
theory Be_User
  imports Be_Database
begin

text \<open>
  The accounts: \<open>BE-CAM/services/user.py\<close> and \<open>authentication.py\<close>.  Hashing and tokens are those of the environment;
  what is used of them is that a password checks against its own hash (\<open>bcrypt_law\<close>), and that a token is decoded
  to the user it was made for until it expires (\<open>jwt_law\<close>).
\<close>

definition bcrypt_law :: "server_env \<Rightarrow> bool" where
  "bcrypt_law D \<longleftrightarrow> (\<forall>p. checkpw D p (hashpw D p))"

definition jwt_law :: "server_env \<Rightarrow> bool" where
  "jwt_law D \<longleftrightarrow> (\<forall>i name e now. now \<le> e \<longrightarrow> jwt_decode D now (jwt_encode D i name e) = Some i)"

section \<open>Handlers\<close>

definition userGetUserById :: "int \<Rightarrow> database \<Rightarrow> user_row be_reply" where
  "userGetUserById i db =
     (case user_of db i of None \<Rightarrow> Reply (-1) ''User not found'' None | Some u \<Rightarrow> Reply 200 ''Get user success'' (Some u))"

text \<open>\<open>createAccessToken\<close>: valid for 24 hours.\<close>

definition createAccessToken :: "server_env \<Rightarrow> user_row \<Rightarrow> string" where
  "createAccessToken D u = jwt_encode D (usr_id u) (usr_username u) (clock D + 24 * 60 * 60)"

text \<open>The row that the query for a name or an address returns first; more than one row can match.\<close>

definition login_matches :: "string \<Rightarrow> user_row \<Rightarrow> bool" where
  "login_matches name u \<longleftrightarrow> usr_username u = name \<or> usr_email u = Some name"

definition userLogin :: "server_env \<Rightarrow> string \<Rightarrow> string \<Rightarrow> database \<Rightarrow> string be_reply" where
  "userLogin D name password db =
     (case List.find (login_matches name) (tb_rows (db_users db)) of
        None \<Rightarrow> Reply (-1) ''User not found'' None
      | Some u \<Rightarrow>
          if \<not> checkpw D password (usr_password u) then Reply (-2) ''Wrong password'' None
          else Reply 200 ''Login success'' (Some (createAccessToken D u)))"

definition UserRoles :: "string list" where
  "UserRoles = [''frontend'', ''backend'', ''fullstack'', ''qa'', ''devops'', ''product_manager'', ''designer'', ''architect'',
     ''proj_lead'', ''guest'']"

definition userRegister :: "server_env \<Rightarrow> string \<Rightarrow> string \<Rightarrow> string \<Rightarrow> string \<Rightarrow> string \<Rightarrow> database \<Rightarrow> unit be_reply \<times> database" where
  "userRegister D name password nickname email role db =
     (if \<exists>u\<in>set (tb_rows (db_users db)). usr_username u = name \<or> usr_email u = Some email
      then (Reply (-1) ''Username or email already registered'' None, db)
      else
        (Reply 200 ''Register success'' None,
         db\<lparr>db_users := snd (insert_row (\<lambda>i. \<lparr>usr_id = i, usr_username = name, usr_password = hashpw D password, usr_nickname = Some nickname,
             usr_email = Some email, usr_role = (if role \<in> set UserRoles then role else ''guest''), usr_level = 4\<rparr>) (db_users db))\<rparr>))"

definition userModifyPassword :: "server_env \<Rightarrow> int \<Rightarrow> string \<Rightarrow> string \<Rightarrow> database \<Rightarrow> unit be_reply \<times> database" where
  "userModifyPassword D i old new db =
     (case user_of db i of
        None \<Rightarrow> (Reply (-1) ''User not found'' None, db)
      | Some u \<Rightarrow>
          if \<not> checkpw D old (usr_password u) then (Reply (-2) ''Wrong old password'' None, db)
          else if old = new then (Reply (-3) ''New password cannot be the same as old password'' None, db)
          else (Reply 200 ''Modify password success'' None,
            db\<lparr>db_users := update_row usr_id i (\<lambda>u. u\<lparr>usr_password := hashpw D new\<rparr>) (db_users db)\<rparr>))"

text \<open>
  \<open>AuthHandler.authenticate\<close>: the user of the token, unless the path asks for a higher level.  The token of a user who
  does not exist is an exception (a \<open>KeyError\<close>).
\<close>

definition API_PERMISSION_MAP :: "(string \<times> int) list" where
  "API_PERMISSION_MAP = [(''/v1/user/getUserById'', 0)]"

datatype identity = Identity user_row | NoIdentity | AuthRaised

definition authenticate :: "server_env \<Rightarrow> string \<Rightarrow> string option \<Rightarrow> database \<Rightarrow> identity" where
  "authenticate D path token db =
     (case jwt_decode D (clock D) (case token of None \<Rightarrow> [] | Some t \<Rightarrow> t) of
        None \<Rightarrow> NoIdentity
      | Some i \<Rightarrow>
          (case userGetUserById i db of
             Reply _ _ (Some u) \<Rightarrow>
               (case map_of API_PERMISSION_MAP path of
                  Some l \<Rightarrow> if usr_level u > l then NoIdentity else Identity u
                | None \<Rightarrow> Identity u)
           | _ \<Rightarrow> AuthRaised))"

section \<open>Accounts\<close>

definition users_ok :: "user_row table \<Rightarrow> bool" where
  "users_ok t \<longleftrightarrow> table_ok usr_id t \<and> distinct (map usr_username (tb_rows t)) \<and>
     distinct (List.map_filter usr_email (tb_rows t)) \<and> (\<forall>u\<in>set (tb_rows t). usr_role u \<in> set UserRoles)"

lemma map_filter_append [simp]: "List.map_filter f (xs @ ys) = List.map_filter f xs @ List.map_filter f ys"
  by (induction xs) (auto simp: List.map_filter_simps split: option.splits)

lemma register_change:
  assumes "users_ok (db_users db)" "userRegister D name password nickname email role db = (r, db')"
  shows "users_ok (db_users db')"
proof (cases "\<exists>u\<in>set (tb_rows (db_users db)). usr_username u = name \<or> usr_email u = Some email")
  case True
  then show ?thesis using assms by (simp add: userRegister_def)
next
  case False
  let ?f = "\<lambda>i. \<lparr>usr_id = i, usr_username = name, usr_password = hashpw D password, usr_nickname = Some nickname,
     usr_email = Some email, usr_role = (if role \<in> set UserRoles then role else ''guest''), usr_level = 4\<rparr>"
  have db': "db_users db' = snd (insert_row ?f (db_users db))" using assms(2) False by (auto simp: userRegister_def)
  have "table_ok usr_id (db_users db')" unfolding db' using assms(1) by (intro table_ok_insert) (auto simp: users_ok_def)
  then show ?thesis
    using assms(1) False unfolding users_ok_def
    by (auto simp: db' insert_row_def List.map_filter_simps set_map_filter UserRoles_def)
qed

lemma users_ok_update:
  assumes "users_ok t" "\<And>u. usr_id (f u) = usr_id u" "\<And>u. usr_username (f u) = usr_username u" "\<And>u. usr_email (f u) = usr_email u" "\<And>u. usr_role (f u) = usr_role u"
  shows "users_ok (update_row usr_id i f t)"
proof -
  have "List.map_filter usr_email (map (\<lambda>u. if usr_id u = i then f u else u) xs) = List.map_filter usr_email xs" for xs
    by (induction xs) (auto simp: List.map_filter_simps assms(4) split: option.splits)
  then have "List.map_filter usr_email (tb_rows (update_row usr_id i f t)) = List.map_filter usr_email (tb_rows t)" by (simp add: update_row_def)
  moreover have "map usr_username (tb_rows (update_row usr_id i f t)) = map usr_username (tb_rows t)" by (rule update_row_map) (rule assms(3))
  moreover have "table_ok usr_id (update_row usr_id i f t)" by (rule table_ok_update) (use assms(1,2) in \<open>simp_all add: users_ok_def\<close>)
  moreover have "\<forall>u\<in>set (tb_rows (update_row usr_id i f t)). usr_role u \<in> set UserRoles"
    by (rule update_row_ball) (use assms(1,5) in \<open>simp_all add: users_ok_def\<close>)
  ultimately show ?thesis using assms(1) by (simp add: users_ok_def)
qed

lemma modify_change:
  assumes "users_ok (db_users db)" "userModifyPassword D i old new db = (r, db')"
  shows "users_ok (db_users db')"
proof -
  have "db' = db \<or> db_users db' = update_row usr_id i (\<lambda>u. u\<lparr>usr_password := hashpw D new\<rparr>) (db_users db)"
    using assms(2) by (auto simp: userModifyPassword_def split: option.splits if_splits)
  moreover have "users_ok (update_row usr_id i (\<lambda>u. u\<lparr>usr_password := hashpw D new\<rparr>) (db_users db))"
    by (rule users_ok_update [OF assms(1)]) simp_all
  ultimately show ?thesis using assms(1) by metis
qed

lemma find_append_None: "List.find P xs = None \<Longrightarrow> List.find P (xs @ ys) = List.find P ys"
  by (induction xs) (auto split: if_splits)

text \<open>
  A registration that is accepted can be used: the new user signs in with user name or address, if no other account is
  found under it, and the token is accepted for a day on every path that is open to users of the lowest level.
\<close>

lemma registered_signs_in:
  assumes "users_ok (db_users db)" "bcrypt_law D" "jwt_law D" "userRegister D name password nickname email role db = (Reply 200 m b, db')"
    and "login = name \<or> login = email" "\<forall>u\<in>set (tb_rows (db_users db)). \<not> login_matches login u"
    and "now \<le> at + 24 * 60 * 60" "map_of API_PERMISSION_MAP path = None"
  shows "\<exists>token u. userLogin (D\<lparr>clock := at\<rparr>) login password db' = Reply 200 ''Login success'' (Some token) \<and>
    authenticate (D\<lparr>clock := now\<rparr>) path (Some token) db' = Identity u \<and> usr_username u = name \<and> usr_level u = 4"
proof -
  let ?u = "\<lparr>usr_id = tb_seq (db_users db), usr_username = name, usr_password = hashpw D password, usr_nickname = Some nickname,
     usr_email = Some email, usr_role = (if role \<in> set UserRoles then role else ''guest''), usr_level = 4\<rparr>"
  have db': "tb_rows (db_users db') = tb_rows (db_users db) @ [?u]"
    using assms(4) by (auto simp: userRegister_def insert_row_def split: if_splits)
  have ok: "users_ok (db_users db')" by (rule register_change [OF assms(1,4)])
  have "List.find (login_matches login) (tb_rows (db_users db)) = None" using assms(6) by (simp add: find_None_iff)
  then have f: "List.find (login_matches login) (tb_rows (db_users db')) = Some ?u"
    using assms(5) by (auto simp: db' find_append_None login_matches_def)
  have g: "user_of db' (tb_seq (db_users db)) = Some ?u"
    using get_row_Some [of usr_id "db_users db'" ?u] ok by (simp add: users_ok_def db')
  have j: "jwt_decode D now (jwt_encode D (tb_seq (db_users db)) name (at + 24 * 60 * 60)) = Some (tb_seq (db_users db))"
    using assms(3,7) by (simp add: jwt_law_def)
  show ?thesis
    using assms(2,8) j g unfolding userLogin_def f
    by (simp add: bcrypt_law_def authenticate_def userGetUserById_def createAccessToken_def)
qed

end
