(* ===== verification/Be_Run.thy ===== *)
theory Be_Run
  imports Be_Api Be_User
begin

text \<open>
  Runs of the back end: any sequence of requests by any users, each handled in a session of its own.  The handlers that
  change the database are related to a step relation with one rule per kind of change (\<open>effect\<close>); the invariant of the
  database, who may change what, and the fate of committed iterations are proved over its rules.
\<close>

section \<open>Requests\<close>

datatype event =
  Register string string string string string
| ModifyPassword string string
| CreateService string string
| DeleteService int
| RestoreService int
| ToggleMaintainer int int
| DeleteIteration int
| StartIteration int
| CommitIteration int string
| UpdateDescription int string
| AddCategory int string "string option"
| DeleteCategory int
| UpdateCategory int "string option" "string option"
| UpdateApiCategory int int
| AddApi int string string string string string "int option"
| CopyApi int int
| DeleteApi int int
| UpdateApi int int string string string "string option" string "be_param list" "be_param list"

text \<open>The database after a request of the user \<open>uid\<close>.\<close>

fun handle :: "server_env \<Rightarrow> int \<Rightarrow> event \<Rightarrow> database \<Rightarrow> database" where
  "handle D uid (Register name password nickname email role) db = snd (userRegister D name password nickname email role db)"
| "handle D uid (ModifyPassword old new) db = snd (userModifyPassword D uid old new db)"
| "handle D uid (CreateService uuid desc) db = snd (serviceCreateNewService uuid uid desc db)"
| "handle D uid (DeleteService i) db = snd (serviceDeleteServiceById D i uid db)"
| "handle D uid (RestoreService i) db = snd (serviceRestoreServiceById i uid db)"
| "handle D uid (ToggleMaintainer i c) db = snd (serviceAddOrRemoveServiceMaintainerById i uid c db)"
| "handle D uid (DeleteIteration i) db = snd (serviceDeleteIterationById i uid db)"
| "handle D uid (StartIteration i) db = snd (serviceStartIteration D i uid db)"
| "handle D uid (CommitIteration i v) db = snd (serviceCommitIteration D i v uid db)"
| "handle D uid (UpdateDescription i desc) db = snd (serviceUpdateDescription i desc uid db)"
| "handle D uid (AddCategory i name desc) db = snd (apiAddCategoryByServiceId i uid name desc db)"
| "handle D uid (DeleteCategory c) db = snd (apiDeleteCategoryById c uid db)"
| "handle D uid (UpdateCategory c name desc) db = snd (apiUpdateCategoryById c uid name desc db)"
| "handle D uid (UpdateApiCategory i c) db = snd (apiUpdateApiCategory i c uid db)"
| "handle D uid (AddApi i name method path desc level c) db = snd (apiAddApi D i uid name method path desc level c db)"
| "handle D uid (CopyApi i d) db = snd (apiCopyApiByApiDraftId D i d uid db)"
| "handle D uid (DeleteApi i d) db = snd (apiDeleteApiByApiDraftId i d uid db)"
| "handle D uid (UpdateApi i d name method path desc level rq rs) db = snd (apiUpdateApiByApiDraftId i d uid name method path desc level rq rs db)"

section \<open>Changes\<close>

text \<open>Who may act: the owner of a service, its members, and those who may work on an iteration.\<close>

definition owns :: "database \<Rightarrow> int \<Rightarrow> service_row \<Rightarrow> bool" where
  "owns db uid s \<longleftrightarrow> srv_owner_id s = uid \<or> is_admin db uid"

definition joins :: "database \<Rightarrow> int \<Rightarrow> service_row \<Rightarrow> bool" where
  "joins db uid s \<longleftrightarrow> srv_owner_id s = uid \<or> maintains db uid s \<or> is_admin db uid"

definition iterates :: "database \<Rightarrow> int \<Rightarrow> iteration_row \<Rightarrow> service_row \<Rightarrow> bool" where
  "iterates db uid it s \<longleftrightarrow> srv_owner_id s = uid \<or> itr_creator_id it = uid \<or> is_admin db uid"

inductive effect :: "server_env \<Rightarrow> int \<Rightarrow> database \<Rightarrow> database \<Rightarrow> bool" for D uid db where
  registered: "userRegister D name password nickname email role db = (r, db') \<Longrightarrow> effect D uid db db'"
| password_changed: "userModifyPassword D uid old new db = (r, db') \<Longrightarrow> effect D uid db db'"
| created: "\<lbrakk>\<forall>s\<in>set (tb_rows (db_services db)). srv_service_uuid s \<noteq> uuid; user_of db uid \<noteq> None\<rbrakk> \<Longrightarrow>
    effect D uid db (db\<lparr>db_services := snd (insert_row (\<lambda>i. \<lparr>srv_id = i, srv_owner_id = uid, srv_maintainers = [], srv_service_uuid = uuid,
      srv_version = ''0.0.1'', srv_description = Some desc, srv_is_deleted = False, srv_deleted_at = None\<rparr>) (db_services db))\<rparr>)"
| marked: "\<lbrakk>service_of db i = Some s; owns db uid s; b \<longrightarrow> t \<noteq> None\<rbrakk> \<Longrightarrow>
    effect D uid db (db\<lparr>db_services := update_row srv_id i (\<lambda>s. s\<lparr>srv_is_deleted := b, srv_deleted_at := t\<rparr>) (db_services db)\<rparr>)"
| toggled: "\<lbrakk>service_of db i = Some s; owns db uid s; srv_owner_id s \<noteq> c; user_of db c \<noteq> None;
      ms = (if c \<in> set (srv_maintainers s) then remove1 c (srv_maintainers s) else srv_maintainers s @ [c])\<rbrakk> \<Longrightarrow>
    effect D uid db (db\<lparr>db_services := update_row srv_id i (\<lambda>s. s\<lparr>srv_maintainers := ms\<rparr>) (db_services db)\<rparr>)"
| iteration_deleted: "\<lbrakk>iteration_of db i = Some it; service_of db (itr_service_id it) = Some s; iterates db uid it s; apis_for i (db_drafts db) = []\<rbrakk> \<Longrightarrow>
    effect D uid db (db\<lparr>db_iterations := delete_rows (\<lambda>it. itr_id it = i) (db_iterations db)\<rparr>)"
| started: "\<lbrakk>service_of db i = Some s; joins db uid s;
      \<forall>it\<in>set (tb_rows (db_iterations db)). \<not> (itr_service_id it = i \<and> \<not> itr_is_committed it \<and> itr_creator_id it = uid);
      copy_apis D (db_published db) (tb_seq (db_iterations db)) (apis_in_order D (apis_for i (db_published db))) (db_drafts db) = Some dr\<rbrakk> \<Longrightarrow>
    effect D uid db (db\<lparr>db_iterations := snd (insert_row (\<lambda>n. \<lparr>itr_id = n, itr_service_id = i, itr_creator_id = uid, itr_version = None,
      itr_description = None, itr_is_committed = False\<rparr>) (db_iterations db)), db_drafts := dr\<rparr>)"
| committed: "\<lbrakk>iteration_of db i = Some it; \<not> itr_is_committed it; service_of db (itr_service_id it) = Some s; iterates db uid it s;
      copy_apis D (db_drafts db) (srv_id s) (apis_in_order D (apis_for i (db_drafts db))) (delete_apis (srv_id s) (db_published db)) = Some pb\<rbrakk> \<Longrightarrow>
    effect D uid db (db\<lparr>db_services := update_row srv_id (srv_id s) (\<lambda>s. s\<lparr>srv_description := itr_description it, srv_version := v\<rparr>) (db_services db),
      db_iterations := update_row itr_id i (\<lambda>it. it\<lparr>itr_version := Some v, itr_is_committed := True\<rparr>) (db_iterations db),
      db_published := pb\<rparr>)"
| described: "\<lbrakk>iteration_of db i = Some it; \<not> itr_is_committed it; service_of db (itr_service_id it) = Some s; iterates db uid it s\<rbrakk> \<Longrightarrow>
    effect D uid db (db\<lparr>db_iterations := update_row itr_id i (\<lambda>it. it\<lparr>itr_description := desc\<rparr>) (db_iterations db)\<rparr>)"
| category_added: "\<lbrakk>service_of db i = Some s; joins db uid s; \<not> category_named db i (Some name)\<rbrakk> \<Longrightarrow>
    effect D uid db (db\<lparr>db_categories := snd (insert_row (\<lambda>n. \<lparr>ctr_id = n, ctr_service_id = i, ctr_name = name, ctr_description = desc\<rparr>) (db_categories db))\<rparr>)"
| category_deleted: "\<lbrakk>category_of db c = Some ct; service_of db (ctr_service_id ct) = Some s; joins db uid s\<rbrakk> \<Longrightarrow>
    effect D uid db (db\<lparr>db_categories := delete_rows (\<lambda>x. ctr_id x = c) (db_categories db),
      db_published := set_category (\<lambda>a. apr_category_id a = Some c) None (db_published db),
      db_drafts := set_category (\<lambda>a. apr_category_id a = Some c) None (db_drafts db)\<rparr>)"
| category_changed: "\<lbrakk>category_of db c = Some ct; service_of db (ctr_service_id ct) = Some s; owns db uid s; \<not> category_named db (ctr_service_id ct) (Some n)\<rbrakk> \<Longrightarrow>
    effect D uid db (db\<lparr>db_categories := update_row ctr_id (ctr_id ct) (\<lambda>x. x\<lparr>ctr_name := n, ctr_description := desc\<rparr>) (db_categories db)\<rparr>)"
| moved: "\<lbrakk>published_api db i = Some a; service_of db (apr_parent a) = Some s; joins db uid s;
      \<forall>k. c = Some k \<longrightarrow> (\<exists>ct. category_of db k = Some ct \<and> ctr_service_id ct = apr_parent a)\<rbrakk> \<Longrightarrow>
    effect D uid db (db\<lparr>db_published := set_category (\<lambda>x. apr_id x = apr_id a) c (db_published db)\<rparr>)"
| added: "\<lbrakk>iteration_of db i = Some it; \<not> itr_is_committed it; service_of db (itr_service_id it) = Some s; iterates db uid it s;
      \<forall>n. apr_parent (f n) = i \<and> apr_id (f n) = n \<and> apr_owner_id (f n) = uid \<and> apr_category_id (f n) = c;
      \<forall>k. c = Some k \<longrightarrow> (\<exists>ct. category_of db k = Some ct \<and> ctr_service_id ct = itr_service_id it);
      insert_api f (db_drafts db) = Some (n, dr)\<rbrakk> \<Longrightarrow>
    effect D uid db (db\<lparr>db_drafts := dr\<rparr>)"
| copied: "\<lbrakk>iteration_of db i = Some it; \<not> itr_is_committed it; service_of db (itr_service_id it) = Some s; iterates db uid it s;
      draft_api db d = Some a; apr_parent a = i; insert_api (copied_row D uid a) (db_drafts db) = Some (n, dr)\<rbrakk> \<Longrightarrow>
    effect D uid db (db\<lparr>db_drafts := dr\<lparr>sd_req := copy_params_recursively n None (param_objects D d (sd_req dr)) (sd_req dr),
      sd_resp := copy_params_recursively n None (param_objects D d (sd_resp dr)) (sd_resp dr)\<rparr>\<rparr>)"
| deleted: "\<lbrakk>iteration_of db i = Some it; \<not> itr_is_committed it; service_of db (itr_service_id it) = Some s; iterates db uid it s;
      draft_api db d = Some a; apr_parent a = i\<rbrakk> \<Longrightarrow>
    effect D uid db (db\<lparr>db_drafts := delete_api d (db_drafts db)\<rparr>)"
| rewritten: "\<lbrakk>iteration_of db i = Some it; \<not> itr_is_committed it; service_of db (itr_service_id it) = Some s; iterates db uid it s;
      draft_api db d = Some a; apr_parent a = i;
      rewrite_api d (updated_row name method path desc level) rq rs (db_drafts db) = Some dr\<rbrakk> \<Longrightarrow>
    effect D uid db (db\<lparr>db_drafts := dr\<rparr>)"

text \<open>The tests of permission in terms of the roles.\<close>

lemma guarded_owner: "snd (guarded (as_owner db uid s) st msg db k) \<noteq> db \<Longrightarrow> owns db uid s \<and> snd (guarded (as_owner db uid s) st msg db k) = snd k \<and> snd k \<noteq> db"
  using permitted_iff [of "srv_owner_id s = uid" db uid]
  by (auto simp: guarded_def as_owner_def owns_def split: verdict.splits)

lemma guarded_member: "snd (guarded (as_member db uid s) st msg db k) \<noteq> db \<Longrightarrow> joins db uid s \<and> snd (guarded (as_member db uid s) st msg db k) = snd k \<and> snd k \<noteq> db"
  using permitted_iff [of "srv_owner_id s = uid \<or> maintains db uid s" db uid]
  by (auto simp: guarded_def as_member_def joins_def split: verdict.splits)

lemma guarded_creator: "snd (guarded (as_creator db uid it s) st msg db k) \<noteq> db \<Longrightarrow> iterates db uid it s \<and> snd (guarded (as_creator db uid it s) st msg db k) = snd k \<and> snd k \<noteq> db"
  using permitted_iff [of "srv_owner_id s = uid \<or> itr_creator_id it = uid" db uid]
  by (auto simp: guarded_def as_creator_def iterates_def split: verdict.splits)

lemma checked_change:
  assumes "snd (checked (checkServiceIterationPermission db i uid) db k) \<noteq> db"
  shows "\<exists>it s. iteration_of db i = Some it \<and> \<not> itr_is_committed it \<and> service_of db (itr_service_id it) = Some s \<and> iterates db uid it s \<and>
    snd (checked (checkServiceIterationPermission db i uid) db k) = snd (k it s) \<and> snd (k it s) \<noteq> db"
  using assms check_ok_iff [of db i uid]
  by (cases "checkServiceIterationPermission db i uid") (auto simp: checked_def iterates_def)

lemma draft_in_change:
  "snd (draft_in i d db k) \<noteq> db \<Longrightarrow> \<exists>a. draft_api db d = Some a \<and> apr_parent a = i \<and> snd (draft_in i d db k) = snd (k a) \<and> snd (k a) \<noteq> db"
  by (auto simp: draft_in_def split: option.splits if_splits)


text \<open>Every handler leaves the database alone or makes one of the changes.\<close>

lemma service_effects:
  "snd (serviceCreateNewService uuid uid desc db) \<noteq> db \<Longrightarrow> effect D uid db (snd (serviceCreateNewService uuid uid desc db))"
  "snd (serviceDeleteServiceById D i uid db) \<noteq> db \<Longrightarrow> effect D uid db (snd (serviceDeleteServiceById D i uid db))"
  "snd (serviceRestoreServiceById i uid db) \<noteq> db \<Longrightarrow> effect D uid db (snd (serviceRestoreServiceById i uid db))"
  "snd (serviceAddOrRemoveServiceMaintainerById i uid c db) \<noteq> db \<Longrightarrow> effect D uid db (snd (serviceAddOrRemoveServiceMaintainerById i uid c db))"
proof -
  show "snd (serviceCreateNewService uuid uid desc db) \<noteq> db \<Longrightarrow> effect D uid db (snd (serviceCreateNewService uuid uid desc db))"
    using effect.created [of db uuid uid D desc]
    by (auto simp: serviceCreateNewService_def Let_def insert_row_def split: if_splits)
  show "snd (serviceDeleteServiceById D i uid db) \<noteq> db \<Longrightarrow> effect D uid db (snd (serviceDeleteServiceById D i uid db))"
    by (cases "service_of db i") (auto simp: serviceDeleteServiceById_def dest!: guarded_owner intro!: effect.marked)
  show "snd (serviceRestoreServiceById i uid db) \<noteq> db \<Longrightarrow> effect D uid db (snd (serviceRestoreServiceById i uid db))"
    by (cases "service_of db i") (auto simp: serviceRestoreServiceById_def dest!: guarded_owner intro!: effect.marked split: if_splits)
  show "snd (serviceAddOrRemoveServiceMaintainerById i uid c db) \<noteq> db \<Longrightarrow> effect D uid db (snd (serviceAddOrRemoveServiceMaintainerById i uid c db))"
    by (cases "service_of db i")
      (auto simp: serviceAddOrRemoveServiceMaintainerById_def Let_def dest!: guarded_owner intro!: effect.toggled split: if_splits)
qed

lemma start_effect: "snd (serviceStartIteration D i uid db) \<noteq> db \<Longrightarrow> effect D uid db (snd (serviceStartIteration D i uid db))"
proof (cases "service_of db i")
  case (Some s)
  let ?k = "case List.find (\<lambda>it. itr_service_id it = i \<and> \<not> itr_is_committed it \<and> itr_creator_id it = uid) (tb_rows (db_iterations db)) of
      Some it \<Rightarrow> (Reply 201 ''You have an uncommitted service iteration in progress'' (Some (itr_id it)), db)
    | None \<Rightarrow> (let (n, its) = insert_row (\<lambda>n. \<lparr>itr_id = n, itr_service_id = i, itr_creator_id = uid, itr_version = None,
                itr_description = None, itr_is_committed = False\<rparr>) (db_iterations db)
        in case copy_apis D (db_published db) n (apis_in_order D (apis_for i (db_published db))) (db_drafts db) of
             None \<Rightarrow> (Raised, db)
           | Some dr \<Rightarrow> (Reply 200 ''Start service iteration success'' (Some n), db\<lparr>db_iterations := its, db_drafts := dr\<rparr>))"
  assume c: "snd (serviceStartIteration D i uid db) \<noteq> db"
  have e: "serviceStartIteration D i uid db = guarded (as_member db uid s) (-2) ''You are neither the owner nor the maintainer of this service'' db ?k"
    using Some by (simp add: serviceStartIteration_def)
  have g: "joins db uid s" "snd (serviceStartIteration D i uid db) = snd ?k" using guarded_member c unfolding e by blast+
  obtain dr where k: "List.find (\<lambda>it. itr_service_id it = i \<and> \<not> itr_is_committed it \<and> itr_creator_id it = uid) (tb_rows (db_iterations db)) = None"
    "copy_apis D (db_published db) (tb_seq (db_iterations db)) (apis_in_order D (apis_for i (db_published db))) (db_drafts db) = Some dr"
    using c unfolding g(2) by (auto simp: insert_row_def split: option.splits)
  have o: "\<forall>it\<in>set (tb_rows (db_iterations db)). \<not> (itr_service_id it = i \<and> \<not> itr_is_committed it \<and> itr_creator_id it = uid)"
    using k(1) by (auto simp: find_None_iff)
  show ?thesis unfolding g(2) k(1) using effect.started [OF Some g(1) o k(2)] by (simp add: insert_row_def k(2))
qed (simp add: serviceStartIteration_def)

lemma commit_effect: "snd (serviceCommitIteration D i v uid db) \<noteq> db \<Longrightarrow> effect D uid db (snd (serviceCommitIteration D i v uid db))"
proof (cases "checkServiceIterationPermission db i uid")
  case (CheckOk it s)
  assume c: "snd (serviceCommitIteration D i v uid db) \<noteq> db"
  then obtain pb where pb: "v \<noteq> srv_version s"
    "copy_apis D (db_drafts db) (srv_id s) (apis_in_order D (apis_for i (db_drafts db))) (delete_apis (srv_id s) (db_published db)) = Some pb"
    using CheckOk by (auto simp: serviceCommitIteration_def split: if_splits option.splits)
  have "iteration_of db i = Some it" "\<not> itr_is_committed it" "service_of db (itr_service_id it) = Some s" "iterates db uid it s"
    using CheckOk by (simp_all add: check_ok_iff iterates_def)
  then show ?thesis
    using effect.committed [OF _ _ _ _ pb(2), of it uid v] CheckOk pb
    by (simp add: serviceCommitIteration_def Let_def split: option.splits)
qed (auto simp: serviceCommitIteration_def)

lemma iteration_effects:
  "snd (serviceDeleteIterationById i uid db) \<noteq> db \<Longrightarrow> effect D uid db (snd (serviceDeleteIterationById i uid db))"
  "snd (serviceUpdateDescription i desc uid db) \<noteq> db \<Longrightarrow> effect D uid db (snd (serviceUpdateDescription i desc uid db))"
proof -
  show "snd (serviceDeleteIterationById i uid db) \<noteq> db \<Longrightarrow> effect D uid db (snd (serviceDeleteIterationById i uid db))"
    by (auto simp: serviceDeleteIterationById_def dest!: guarded_creator intro: effect.iteration_deleted split: option.splits if_splits)
  show "snd (serviceUpdateDescription i desc uid db) \<noteq> db \<Longrightarrow> effect D uid db (snd (serviceUpdateDescription i desc uid db))"
    unfolding serviceUpdateDescription_def by (frule checked_change) (auto intro: effect.described)
qed

lemma rename_category_change:
  "snd (rename_category ct name desc db) \<noteq> db \<Longrightarrow> \<exists>n. \<not> category_named db (ctr_service_id ct) (Some n) \<and> snd (rename_category ct name desc db) =
     db\<lparr>db_categories := update_row ctr_id (ctr_id ct) (\<lambda>x. x\<lparr>ctr_name := n, ctr_description := desc\<rparr>) (db_categories db)\<rparr>"
  by (cases name) (auto simp: rename_category_def split: if_splits)

lemma recategorize_change:
  "snd (recategorize a c db) \<noteq> db \<Longrightarrow> \<exists>c'. (\<forall>k. c' = Some k \<longrightarrow> (\<exists>ct. category_of db k = Some ct \<and> ctr_service_id ct = apr_parent a)) \<and>
     snd (recategorize a c db) = db\<lparr>db_published := set_category (\<lambda>x. apr_id x = apr_id a) c' (db_published db)\<rparr>"
  by (auto simp: recategorize_def split: option.splits if_splits)

lemma category_effects:
  "snd (apiAddCategoryByServiceId i uid name desc db) \<noteq> db \<Longrightarrow> effect D uid db (snd (apiAddCategoryByServiceId i uid name desc db))"
  "snd (apiDeleteCategoryById c uid db) \<noteq> db \<Longrightarrow> effect D uid db (snd (apiDeleteCategoryById c uid db))"
  "snd (apiUpdateCategoryById c uid nm desc db) \<noteq> db \<Longrightarrow> effect D uid db (snd (apiUpdateCategoryById c uid nm desc db))"
  "snd (apiUpdateApiCategory i c uid db) \<noteq> db \<Longrightarrow> effect D uid db (snd (apiUpdateApiCategory i c uid db))"
proof -
  show "snd (apiAddCategoryByServiceId i uid name desc db) \<noteq> db \<Longrightarrow> effect D uid db (snd (apiAddCategoryByServiceId i uid name desc db))"
    using effect.category_added [of db i _ uid name D desc]
    by (auto simp: apiAddCategoryByServiceId_def Let_def insert_row_def dest!: guarded_member split: option.splits if_splits)
  show "snd (apiDeleteCategoryById c uid db) \<noteq> db \<Longrightarrow> effect D uid db (snd (apiDeleteCategoryById c uid db))"
    by (auto simp: apiDeleteCategoryById_def dest!: guarded_member intro: effect.category_deleted split: option.splits if_splits)
  show "snd (apiUpdateCategoryById c uid nm desc db) \<noteq> db \<Longrightarrow> effect D uid db (snd (apiUpdateCategoryById c uid nm desc db))"
    using rename_category_change
    by (fastforce simp: apiUpdateCategoryById_def dest!: guarded_owner intro: effect.category_changed split: option.splits if_splits)
  show "snd (apiUpdateApiCategory i c uid db) \<noteq> db \<Longrightarrow> effect D uid db (snd (apiUpdateApiCategory i c uid db))"
    using recategorize_change
    by (fastforce simp: apiUpdateApiCategory_def dest!: guarded_member intro: effect.moved split: option.splits if_splits)
qed

lemma draft_effects:
  "snd (apiCopyApiByApiDraftId D i d uid db) \<noteq> db \<Longrightarrow> effect D uid db (snd (apiCopyApiByApiDraftId D i d uid db))"
  "snd (apiDeleteApiByApiDraftId i d uid db) \<noteq> db \<Longrightarrow> effect D uid db (snd (apiDeleteApiByApiDraftId i d uid db))"
  "snd (apiUpdateApiByApiDraftId i d uid name method path desc level rq rs db) \<noteq> db \<Longrightarrow>
     effect D uid db (snd (apiUpdateApiByApiDraftId i d uid name method path desc level rq rs db))"
proof -
  show "snd (apiCopyApiByApiDraftId D i d uid db) \<noteq> db \<Longrightarrow> effect D uid db (snd (apiCopyApiByApiDraftId D i d uid db))"
    unfolding apiCopyApiByApiDraftId_def
    by (auto dest!: checked_change draft_in_change intro: effect.copied split: option.splits prod.splits)
  show "snd (apiDeleteApiByApiDraftId i d uid db) \<noteq> db \<Longrightarrow> effect D uid db (snd (apiDeleteApiByApiDraftId i d uid db))"
    unfolding apiDeleteApiByApiDraftId_def by (auto dest!: checked_change draft_in_change intro: effect.deleted)
  show "snd (apiUpdateApiByApiDraftId i d uid name method path desc level rq rs db) \<noteq> db \<Longrightarrow>
      effect D uid db (snd (apiUpdateApiByApiDraftId i d uid name method path desc level rq rs db))"
    unfolding apiUpdateApiByApiDraftId_def by (auto dest!: checked_change draft_in_change intro: effect.rewritten split: option.splits)
qed

lemma add_draft_change: "snd (add_draft f db) \<noteq> db \<Longrightarrow> \<exists>n dr. insert_api f (db_drafts db) = Some (n, dr) \<and> snd (add_draft f db) = db\<lparr>db_drafts := dr\<rparr>"
  by (auto simp: add_draft_def split: option.splits)

lemma add_effect:
  assumes "snd (apiAddApi D i uid name method path desc level c db) \<noteq> db"
  shows "effect D uid db (snd (apiAddApi D i uid name method path desc level c db))"
proof -
  let ?f = "new_draft i uid name method path desc level c"
  obtain it s where r: "iteration_of db i = Some it" "\<not> itr_is_committed it" "service_of db (itr_service_id it) = Some s" "iterates db uid it s"
    and c: "\<forall>k. c = Some k \<longrightarrow> (\<exists>ct. category_of db k = Some ct \<and> ctr_service_id ct = itr_service_id it)"
      "snd (apiAddApi D i uid name method path desc level c db) = snd (add_draft ?f db)"
    using checked_change [OF assms [unfolded apiAddApi_def]] unfolding apiAddApi_def
    by (elim exE conjE) (simp split: if_splits option.splits)
  obtain n dr where n: "insert_api ?f (db_drafts db) = Some (n, dr)" "snd (add_draft ?f db) = db\<lparr>db_drafts := dr\<rparr>"
    using add_draft_change assms unfolding c(2) by blast
  show ?thesis unfolding c(2) n(2) by (rule effect.added [OF r _ c(1) n(1)]) (simp add: new_draft_def)
qed

lemma handle_effect: "handle D uid e db \<noteq> db \<Longrightarrow> effect D uid db (handle D uid e db)"
proof (cases e)
  case (Register name password nickname email role)
  then show ?thesis using effect.registered [of D name password nickname email role db] by (metis handle.simps(1) prod.collapse)
next
  case (ModifyPassword old new)
  then show ?thesis using effect.password_changed [of D uid old new db] by (metis handle.simps(2) prod.collapse)
qed (auto intro: service_effects start_effect commit_effect iteration_effects category_effects draft_effects add_effect)

end
