(* ===== verification/Be_Invariant.thy ===== *)
theory Be_Invariant
  imports Be_Run
begin

text \<open>
  The invariant of the database (\<open>db_ok\<close>): keys are unique, every reference leads to a row, the category of an API belongs
  to its service, the rows of every API are a forest, nobody has two open iterations of one service, and an iteration
  has a version exactly when it is committed.  Every change keeps it, so it holds in every run from an empty database.
\<close>

section \<open>The invariant\<close>

abbreviation user_ids :: "database \<Rightarrow> int set" where
  "user_ids db \<equiv> usr_id ` set (tb_rows (db_users db))"

abbreviation service_ids :: "database \<Rightarrow> int set" where
  "service_ids db \<equiv> srv_id ` set (tb_rows (db_services db))"

text \<open>The categories with the services they belong to.\<close>

definition category_homes :: "category_row table \<Rightarrow> (int \<times> int) set" where
  "category_homes t = (\<lambda>c. (ctr_id c, ctr_service_id c)) ` set (tb_rows t)"

definition services_ok :: "int set \<Rightarrow> service_row table \<Rightarrow> bool" where
  "services_ok U t \<longleftrightarrow> table_ok srv_id t \<and> distinct (map srv_service_uuid (tb_rows t)) \<and>
     (\<forall>s\<in>set (tb_rows t). srv_owner_id s \<in> U \<and> set (srv_maintainers s) \<subseteq> U \<and> distinct (srv_maintainers s) \<and> srv_owner_id s \<notin> set (srv_maintainers s))"

definition iteration_key :: "iteration_row \<Rightarrow> int \<times> int" where
  "iteration_key it = (itr_service_id it, itr_creator_id it)"

definition iterations_ok :: "int set \<Rightarrow> int set \<Rightarrow> iteration_row table \<Rightarrow> bool" where
  "iterations_ok S U t \<longleftrightarrow> table_ok itr_id t \<and> distinct (map iteration_key (filter (\<lambda>it. \<not> itr_is_committed it) (tb_rows t))) \<and>
     (\<forall>it\<in>set (tb_rows t). itr_service_id it \<in> S \<and> itr_creator_id it \<in> U \<and> (itr_is_committed it \<longleftrightarrow> itr_version it \<noteq> None))"

definition categories_ok :: "int set \<Rightarrow> category_row table \<Rightarrow> bool" where
  "categories_ok S t \<longleftrightarrow> table_ok ctr_id t \<and> distinct (map (\<lambda>c. (ctr_service_id c, ctr_name c)) (tb_rows t)) \<and>
     (\<forall>c\<in>set (tb_rows t). ctr_service_id c \<in> S)"

text \<open>References of the APIs of one side; \<open>home\<close> maps the service or iteration they are under to the service.\<close>

definition refs_ok :: "(int \<rightharpoonup> int) \<Rightarrow> (int \<times> int) set \<Rightarrow> int set \<Rightarrow> side \<Rightarrow> bool" where
  "refs_ok home K U sd \<longleftrightarrow> (\<forall>a\<in>set (tb_rows (sd_api sd)). apr_owner_id a \<in> U \<and>
     (\<exists>s. home (apr_parent a) = Some s \<and> (\<forall>c. apr_category_id a = Some c \<longrightarrow> (c, s) \<in> K)))"

definition published_home :: "int set \<Rightarrow> int \<rightharpoonup> int" where
  "published_home S p = (if p \<in> S then Some p else None)"

definition draft_home :: "iteration_row table \<Rightarrow> int \<rightharpoonup> int" where
  "draft_home t p = map_option itr_service_id (get_row itr_id t p)"

definition db_ok :: "database \<Rightarrow> bool" where
  "db_ok db \<longleftrightarrow> users_ok (db_users db) \<and> services_ok (user_ids db) (db_services db) \<and>
     iterations_ok (service_ids db) (user_ids db) (db_iterations db) \<and> categories_ok (service_ids db) (db_categories db) \<and>
     side_ok (db_published db) \<and> side_ok (db_drafts db) \<and>
     refs_ok (published_home (service_ids db)) (category_homes (db_categories db)) (user_ids db) (db_published db) \<and>
     refs_ok (draft_home (db_iterations db)) (category_homes (db_categories db)) (user_ids db) (db_drafts db)"

lemma db_okD:
  assumes "db_ok db"
  shows "users_ok (db_users db)" "services_ok (user_ids db) (db_services db)"
    "iterations_ok (service_ids db) (user_ids db) (db_iterations db)" "categories_ok (service_ids db) (db_categories db)"
    "side_ok (db_published db)" "side_ok (db_drafts db)"
    "refs_ok (published_home (service_ids db)) (category_homes (db_categories db)) (user_ids db) (db_published db)"
    "refs_ok (draft_home (db_iterations db)) (category_homes (db_categories db)) (user_ids db) (db_drafts db)"
  using assms by (simp_all add: db_ok_def)

section \<open>Monotonicity\<close>

lemma services_ok_mono: "services_ok U t \<Longrightarrow> U \<subseteq> U' \<Longrightarrow> services_ok U' t"
  by (auto simp: services_ok_def)

lemma iterations_ok_mono: "iterations_ok S U t \<Longrightarrow> S \<subseteq> S' \<Longrightarrow> U \<subseteq> U' \<Longrightarrow> iterations_ok S' U' t"
  by (auto simp: iterations_ok_def)

lemma categories_ok_mono: "categories_ok S t \<Longrightarrow> S \<subseteq> S' \<Longrightarrow> categories_ok S' t"
  by (auto simp: categories_ok_def)

lemma refs_ok_mono:
  assumes "refs_ok home K U sd" "home \<subseteq>\<^sub>m home'" "K \<subseteq> K'" "U \<subseteq> U'"
  shows "refs_ok home' K' U' sd"
  unfolding refs_ok_def
proof
  fix a assume "a \<in> set (tb_rows (sd_api sd))"
  then obtain s where "apr_owner_id a \<in> U" "home (apr_parent a) = Some s" "\<forall>c. apr_category_id a = Some c \<longrightarrow> (c, s) \<in> K"
    using assms(1) by (auto simp: refs_ok_def)
  moreover have "home' (apr_parent a) = Some s" using assms(2) calculation(2) by (auto simp: map_le_def dom_def)
  ultimately show "apr_owner_id a \<in> U' \<and> (\<exists>s. home' (apr_parent a) = Some s \<and> (\<forall>c. apr_category_id a = Some c \<longrightarrow> (c, s) \<in> K'))"
    using assms(3,4) by auto
qed

lemma published_home_mono: "S \<subseteq> S' \<Longrightarrow> published_home S \<subseteq>\<^sub>m published_home S'"
  by (auto simp: published_home_def map_le_def dom_def split: if_splits)

lemma draft_home_insert:
  assumes "table_ok itr_id t" "itr_id (f (tb_seq t)) = tb_seq t"
  shows "draft_home t \<subseteq>\<^sub>m draft_home (snd (insert_row f t))" "draft_home t (tb_seq t) = None"
    "draft_home (snd (insert_row f t)) (tb_seq t) = Some (itr_service_id (f (tb_seq t)))"
proof -
  have new: "tb_seq t \<notin> itr_id ` set (tb_rows t)" using assms(1) by (auto simp: table_ok_def)
  have t: "table_ok itr_id (snd (insert_row f t))" using table_ok_insert [OF assms(1), of f] assms(2) by simp
  have up: "get_row itr_id (snd (insert_row f t)) p = Some it" if "get_row itr_id t p = Some it" for p it
    using get_row_SomeD [OF that] get_row_Some [OF t, of it] by (auto simp: insert_row_def)
  then show "draft_home t \<subseteq>\<^sub>m draft_home (snd (insert_row f t))" by (fastforce simp: map_le_def dom_def draft_home_def)
  show "draft_home t (tb_seq t) = None" using new get_row_None [of itr_id t] by (simp add: draft_home_def)
  show "draft_home (snd (insert_row f t)) (tb_seq t) = Some (itr_service_id (f (tb_seq t)))"
    using get_row_Some [OF t, of "f (tb_seq t)"] assms(2) by (simp add: draft_home_def insert_row_def)
qed

lemma draft_home_update: "(\<And>it. itr_id (f it) = itr_id it \<and> itr_service_id (f it) = itr_service_id it) \<Longrightarrow> draft_home (update_row itr_id i f t) = draft_home t"
  by (rule ext) (auto simp: draft_home_def get_row_update option.map_comp comp_def intro!: option.map_cong0)

section \<open>Copies between the sides\<close>

lemma keys_in_order:
  assumes "side_ok sd" "any_order D"
  shows "distinct (map (\<lambda>a. (apr_method a, apr_name a)) (apis_in_order D (apis_for p sd)))"
proof -
  have "inj_on api_key (set (apis_for p sd))" using assms(1) by (auto simp: side_ok_def apis_for_def distinct_map intro: inj_on_subset)
  then have "inj_on (\<lambda>a. (apr_method a, apr_name a)) (set (apis_for p sd))" by (auto simp: inj_on_def api_key_def apis_for_def)
  moreover have "distinct (apis_for p sd)" using apis_for_distinct [OF assms(1)] by (simp add: distinct_map)
  then have "distinct (apis_in_order D (apis_for p sd))" using any_orderD(2) [OF assms(2)] by (metis mset_eq_imp_distinct_iff)
  ultimately show ?thesis using any_orderD(3) [OF assms(2)] by (simp add: distinct_map)
qed

lemma copied_side:
  assumes "side_ok src" "side_ok sd" "any_order D" "apis_for p sd = []"
  shows "\<exists>sd' N. copy_apis D src p (apis_in_order D (apis_for q src)) sd = Some sd' \<and> side_ok sd' \<and> contents sd' p = contents src q \<and>
    (\<forall>r. r \<noteq> p \<longrightarrow> contents sd' r = contents sd r) \<and> tb_rows (sd_api sd') = tb_rows (sd_api sd) @ N \<and>
    (\<forall>b\<in>set N. apr_parent b = p \<and> (\<exists>a\<in>set (apis_for q src). api_info b = api_info a))"
proof -
  have "\<forall>a\<in>set (apis_in_order D (apis_for q src)). \<not> conflict sd p (apr_method a) (apr_name a)" by (simp add: conflict_def assms(4))
  then obtain sd' N where c: "copy_apis D src p (apis_in_order D (apis_for q src)) sd = Some sd'" "side_ok sd'"
    "contents sd' p = image_mset (api_content_of src) (mset (apis_in_order D (apis_for q src))) + contents sd p"
    "\<forall>r. r \<noteq> p \<longrightarrow> contents sd' r = contents sd r" "tb_rows (sd_api sd') = tb_rows (sd_api sd) @ N"
    "\<forall>b\<in>set N. apr_parent b = p \<and> (\<exists>a\<in>set (apis_in_order D (apis_for q src)). api_info b = api_info a)"
    using copy_apis_spec [OF assms(1-3) keys_in_order [OF assms(1,3)], of q p] by blast
  have "contents sd p = {#}" by (simp add: contents_def assms(4))
  then have "contents sd' p = contents src q" using c(3) any_orderD(2) [OF assms(3)] by (simp add: contents_def)
  then show ?thesis using c any_orderD(3) [OF assms(3)] by (intro exI [of _ sd'] exI [of _ N]) auto
qed

lemma api_info_refs: "api_info b = api_info a \<Longrightarrow> apr_owner_id b = apr_owner_id a \<and> apr_category_id b = apr_category_id a"
  by (cases a; cases b) (auto simp: api_info_def)

lemma refs_ok_copied:
  assumes "refs_ok home K U src" "refs_ok home' K U sd" "tb_rows (sd_api sd') = tb_rows (sd_api sd) @ N"
    and "\<forall>b\<in>set N. apr_parent b = p \<and> (\<exists>a\<in>set (apis_for q src). api_info b = api_info a)" "home q = Some s" "home' p = Some s"
  shows "refs_ok home' K U sd'"
  unfolding refs_ok_def
proof
  fix b assume "b \<in> set (tb_rows (sd_api sd'))"
  then consider "b \<in> set (tb_rows (sd_api sd))" | a where "apr_parent b = p" "a \<in> set (apis_for q src)" "api_info b = api_info a"
    using assms(3,4) by auto
  then show "apr_owner_id b \<in> U \<and> (\<exists>s. home' (apr_parent b) = Some s \<and> (\<forall>c. apr_category_id b = Some c \<longrightarrow> (c, s) \<in> K))"
  proof cases
    case 2
    have "apr_owner_id a \<in> U \<and> (\<forall>c. apr_category_id a = Some c \<longrightarrow> (c, s) \<in> K)"
      using assms(1,5) 2(2) by (fastforce simp: refs_ok_def apis_for_def)
    then show ?thesis using 2 assms(6) api_info_refs [OF 2(3)] by simp
  qed (use assms(2) in \<open>auto simp: refs_ok_def\<close>)
qed


section \<open>Changes keep the invariant\<close>

lemma find_filter: "(\<And>x. P x \<Longrightarrow> Q x) \<Longrightarrow> List.find P (filter Q xs) = List.find P xs"
  by (induction xs) auto

text \<open>Changes of a row of the services that keep its key, owner and identifier.\<close>

lemma services_ok_update:
  assumes "services_ok U t" "\<And>s. srv_id (f s) = srv_id s \<and> srv_service_uuid (f s) = srv_service_uuid s \<and> srv_owner_id (f s) = srv_owner_id s"
    and "\<And>s. s \<in> set (tb_rows t) \<Longrightarrow> srv_id s = i \<Longrightarrow> set (srv_maintainers (f s)) \<subseteq> U \<and> distinct (srv_maintainers (f s)) \<and> srv_owner_id s \<notin> set (srv_maintainers (f s))"
  shows "services_ok U (update_row srv_id i f t)" "srv_id ` set (tb_rows (update_row srv_id i f t)) = srv_id ` set (tb_rows t)"
proof -
  have "map srv_service_uuid (tb_rows (update_row srv_id i f t)) = map srv_service_uuid (tb_rows t)" using assms(2) by (simp add: update_row_map)
  moreover have "table_ok srv_id (update_row srv_id i f t)" using assms(1,2) by (simp add: table_ok_update services_ok_def)
  moreover have "\<forall>s\<in>set (tb_rows (update_row srv_id i f t)). srv_owner_id s \<in> U \<and> set (srv_maintainers s) \<subseteq> U \<and>
      distinct (srv_maintainers s) \<and> srv_owner_id s \<notin> set (srv_maintainers s)"
    using assms by (auto simp: update_row_def services_ok_def)
  ultimately show "services_ok U (update_row srv_id i f t)" using assms(1) unfolding services_ok_def by simp
  show "srv_id ` set (tb_rows (update_row srv_id i f t)) = srv_id ` set (tb_rows t)" using assms(2) by (simp add: update_row_set)
qed

lemma db_ok_service_update:
  assumes "db_ok db" "\<And>s. srv_id (f s) = srv_id s \<and> srv_service_uuid (f s) = srv_service_uuid s \<and> srv_owner_id (f s) = srv_owner_id s"
    and "\<And>s. s \<in> set (tb_rows (db_services db)) \<Longrightarrow> srv_id s = i \<Longrightarrow>
      set (srv_maintainers (f s)) \<subseteq> user_ids db \<and> distinct (srv_maintainers (f s)) \<and> srv_owner_id s \<notin> set (srv_maintainers (f s))"
  shows "db_ok (db\<lparr>db_services := update_row srv_id i f (db_services db)\<rparr>)"
  using services_ok_update [OF db_okD(2) [OF assms(1)] assms(2,3)] assms(1) by (simp add: db_ok_def)

lemma row_of_service:
  assumes "db_ok db" "service_of db i = Some s" "s' \<in> set (tb_rows (db_services db))" "srv_id s' = i"
  shows "s' = s"
  using assms get_row_SomeD [OF assms(2)] distinct_keyD [of srv_id "tb_rows (db_services db)" s' s]
  by (auto simp: db_ok_def services_ok_def table_ok_def)

lemma user_of_ids: "user_of db u \<noteq> None \<longleftrightarrow> u \<in> user_ids db"
  by (simp add: get_row_None)

lemma keeps_toggled:
  assumes "db_ok db" "service_of db i = Some s" "srv_owner_id s \<noteq> c" "user_of db c \<noteq> None"
    and "ms = (if c \<in> set (srv_maintainers s) then remove1 c (srv_maintainers s) else srv_maintainers s @ [c])"
  shows "db_ok (db\<lparr>db_services := update_row srv_id i (\<lambda>s. s\<lparr>srv_maintainers := ms\<rparr>) (db_services db)\<rparr>)"
proof (rule db_ok_service_update [OF assms(1)])
  have "set (srv_maintainers s) \<subseteq> user_ids db" "distinct (srv_maintainers s)" "srv_owner_id s \<notin> set (srv_maintainers s)"
    using get_row_SomeD [OF assms(2)] db_okD(2) [OF assms(1)] by (auto simp: services_ok_def)
  then have m: "set ms \<subseteq> user_ids db" "distinct ms" "srv_owner_id s \<notin> set ms"
    using assms(3,5) assms(4) [unfolded user_of_ids] by (auto simp: set_remove1_eq)
  show "set (srv_maintainers (s'\<lparr>srv_maintainers := ms\<rparr>)) \<subseteq> user_ids db \<and> distinct (srv_maintainers (s'\<lparr>srv_maintainers := ms\<rparr>)) \<and>
      srv_owner_id s' \<notin> set (srv_maintainers (s'\<lparr>srv_maintainers := ms\<rparr>))"
    if "s' \<in> set (tb_rows (db_services db))" "srv_id s' = i" for s' using row_of_service [OF assms(1,2) that] m by simp
qed simp

lemma keeps_created:
  assumes "db_ok db" "\<forall>s\<in>set (tb_rows (db_services db)). srv_service_uuid s \<noteq> uuid" "user_of db uid \<noteq> None"
  shows "db_ok (db\<lparr>db_services := snd (insert_row (\<lambda>i. \<lparr>srv_id = i, srv_owner_id = uid, srv_maintainers = [], srv_service_uuid = uuid,
      srv_version = ''0.0.1'', srv_description = Some desc, srv_is_deleted = False, srv_deleted_at = None\<rparr>) (db_services db))\<rparr>)" (is "db_ok ?db")
proof -
  have s: "service_ids db \<subseteq> service_ids ?db" by (auto simp: insert_row_def)
  have "table_ok srv_id (db_services ?db)" using db_okD(2) [OF assms(1)] by (simp add: services_ok_def table_ok_insert)
  then have "services_ok (user_ids ?db) (db_services ?db)"
    using db_okD(2) [OF assms(1)] assms(2,3) unfolding user_of_ids services_ok_def by (auto simp: insert_row_def)
  moreover have "iterations_ok (service_ids ?db) (user_ids ?db) (db_iterations ?db)" "categories_ok (service_ids ?db) (db_categories ?db)"
    using iterations_ok_mono [OF db_okD(3) [OF assms(1)] s] categories_ok_mono [OF db_okD(4) [OF assms(1)] s] by simp_all
  moreover have "refs_ok (published_home (service_ids ?db)) (category_homes (db_categories db)) (user_ids ?db) (db_published db)"
    using refs_ok_mono [OF db_okD(7) [OF assms(1)] published_home_mono [OF s]] by simp
  ultimately show ?thesis using assms(1) unfolding db_ok_def by simp
qed

lemma keeps_users:
  assumes "db_ok db" "users_ok (db_users db')" "user_ids db \<subseteq> user_ids db'" "db' = db\<lparr>db_users := db_users db'\<rparr>"
  shows "db_ok db'"
proof -
  have f: "db_services db' = db_services db" "db_iterations db' = db_iterations db" "db_categories db' = db_categories db"
    "db_published db' = db_published db" "db_drafts db' = db_drafts db" by (subst assms(4), simp)+
  show ?thesis
    using db_okD [OF assms(1)] assms(2) services_ok_mono [OF db_okD(2) [OF assms(1)] assms(3)]
      iterations_ok_mono [OF db_okD(3) [OF assms(1)] subset_refl assms(3)]
      refs_ok_mono [OF db_okD(7) [OF assms(1)] map_le_refl subset_refl assms(3)]
      refs_ok_mono [OF db_okD(8) [OF assms(1)] map_le_refl subset_refl assms(3)]
    unfolding db_ok_def f by blast
qed

text \<open>Changes of the iterations.\<close>

lemma iterations_ok_update:
  assumes "iterations_ok S U t" "\<And>it. itr_id (f it) = itr_id it \<and> iteration_key (f it) = iteration_key it"
    and "\<And>it. it \<in> set (tb_rows t) \<Longrightarrow> itr_is_committed it \<Longrightarrow> itr_is_committed (f it)"
    and "\<And>it. it \<in> set (tb_rows t) \<Longrightarrow> itr_is_committed (f it) \<longleftrightarrow> itr_version (f it) \<noteq> None"
  shows "iterations_ok S U (update_row itr_id i f t)"
proof -
  let ?g = "\<lambda>it. if itr_id it = i then f it else it"
  have k: "inj_on iteration_key (set (filter (\<lambda>it. \<not> itr_is_committed it) (tb_rows t)))" and d: "distinct (tb_rows t)"
    using assms(1) by (auto simp: iterations_ok_def distinct_map table_ok_def)
  have "inj_on iteration_key {it \<in> set (tb_rows t). \<not> itr_is_committed (?g it)}"
    by (rule inj_on_subset [OF k]) (use assms(3) in auto)
  moreover have "iteration_key (?g it) = iteration_key it" for it using assms(2) by simp
  ultimately have "inj_on (\<lambda>it. iteration_key (?g it)) (set (filter (\<lambda>it. \<not> itr_is_committed (?g it)) (tb_rows t)))" by simp
  then have "distinct (map iteration_key (filter (\<lambda>it. \<not> itr_is_committed it) (tb_rows (update_row itr_id i f t))))"
    using d by (simp add: update_row_def filter_map distinct_map comp_def)
  moreover have "table_ok itr_id (update_row itr_id i f t)" using assms(1,2) by (simp add: table_ok_update iterations_ok_def)
  moreover have "itr_service_id (f it) = itr_service_id it" "itr_creator_id (f it) = itr_creator_id it" for it
    using assms(2) [of it] by (auto simp: iteration_key_def)
  ultimately show ?thesis using assms(1,4) unfolding iterations_ok_def by (auto simp: update_row_def)
qed

lemma keeps_described:
  assumes "db_ok db"
  shows "db_ok (db\<lparr>db_iterations := update_row itr_id i (\<lambda>it. it\<lparr>itr_description := desc\<rparr>) (db_iterations db)\<rparr>)"
  using assms iterations_ok_update [OF db_okD(3) [OF assms], of "\<lambda>it. it\<lparr>itr_description := desc\<rparr>" i] db_okD(3) [OF assms]
    draft_home_update [of "\<lambda>it. it\<lparr>itr_description := desc\<rparr>"]
  by (auto simp: db_ok_def iteration_key_def iterations_ok_def)

lemma keeps_iteration_deleted:
  assumes "db_ok db" "apis_for i (db_drafts db) = []"
  shows "db_ok (db\<lparr>db_iterations := delete_rows (\<lambda>it. itr_id it = i) (db_iterations db)\<rparr>)" (is "db_ok ?db")
proof -
  have "table_ok itr_id (db_iterations ?db)" using db_okD(3) [OF assms(1)] by (simp add: iterations_ok_def table_ok_delete)
  moreover have e: "filter (\<lambda>it. \<not> itr_is_committed it) (tb_rows (db_iterations ?db)) =
      filter (\<lambda>it. itr_id it \<noteq> i) (filter (\<lambda>it. \<not> itr_is_committed it) (tb_rows (db_iterations db)))"
    by (auto simp: delete_rows_def intro!: filter_cong)
  have "distinct (map iteration_key (filter (\<lambda>it. \<not> itr_is_committed it) (tb_rows (db_iterations ?db))))"
    unfolding e by (rule distinct_map_filter) (use db_okD(3) [OF assms(1)] in \<open>simp add: iterations_ok_def\<close>)
  ultimately have "iterations_ok (service_ids ?db) (user_ids ?db) (db_iterations ?db)"
    using db_okD(3) [OF assms(1)] by (auto simp: iterations_ok_def delete_rows_def)
  moreover have "refs_ok (draft_home (db_iterations ?db)) (category_homes (db_categories ?db)) (user_ids ?db) (db_drafts ?db)"
    unfolding refs_ok_def
  proof
    fix a assume "a \<in> set (tb_rows (sd_api (db_drafts ?db)))"
    then have a: "a \<in> set (tb_rows (sd_api (db_drafts db)))" "apr_parent a \<noteq> i" using assms(2) by (auto simp: apis_for_def filter_empty_conv)
    have "get_row itr_id (db_iterations ?db) (apr_parent a) = get_row itr_id (db_iterations db) (apr_parent a)"
      using a(2) by (auto simp: get_row_def delete_rows_def intro!: find_filter)
    then show "apr_owner_id a \<in> user_ids ?db \<and> (\<exists>s. draft_home (db_iterations ?db) (apr_parent a) = Some s \<and>
        (\<forall>c. apr_category_id a = Some c \<longrightarrow> (c, s) \<in> category_homes (db_categories ?db)))"
      using db_okD(8) [OF assms(1)] a(1) by (simp add: refs_ok_def draft_home_def)
  qed
  ultimately show ?thesis using assms(1) unfolding db_ok_def by simp
qed


text \<open>The start and the end of an iteration.\<close>

lemma no_drafts_yet:
  assumes "db_ok db"
  shows "apis_for (tb_seq (db_iterations db)) (db_drafts db) = []"
proof -
  have "draft_home (db_iterations db) (tb_seq (db_iterations db)) = None"
    using db_okD(3) [OF assms] by (auto simp: draft_home_def get_row_None iterations_ok_def table_ok_def)
  then show ?thesis using db_okD(8) [OF assms] by (force simp: refs_ok_def apis_for_def filter_empty_conv)
qed

lemma service_known: "service_of db i = Some s \<Longrightarrow> srv_id s = i \<and> i \<in> service_ids db"
  using get_row_SomeD [of srv_id "db_services db" i s] by auto

lemma member_known: "db_ok db \<Longrightarrow> service_of db i = Some s \<Longrightarrow> joins db uid s \<Longrightarrow> uid \<in> user_ids db"
  using get_row_SomeD [of srv_id "db_services db" i s] user_of_ids [of db uid]
  by (auto simp: joins_def maintains_def is_admin_def db_ok_def services_ok_def)

lemma keeps_started:
  assumes "db_ok db" "any_order D" "service_of db i = Some s" "joins db uid s"
    and "\<forall>it\<in>set (tb_rows (db_iterations db)). \<not> (itr_service_id it = i \<and> \<not> itr_is_committed it \<and> itr_creator_id it = uid)"
    and "copy_apis D (db_published db) (tb_seq (db_iterations db)) (apis_in_order D (apis_for i (db_published db))) (db_drafts db) = Some dr"
  shows "db_ok (db\<lparr>db_iterations := snd (insert_row (\<lambda>n. \<lparr>itr_id = n, itr_service_id = i, itr_creator_id = uid, itr_version = None,
      itr_description = None, itr_is_committed = False\<rparr>) (db_iterations db)), db_drafts := dr\<rparr>)" (is "db_ok (db\<lparr>db_iterations := ?its, db_drafts := dr\<rparr>)")
proof -
  have t: "table_ok itr_id (db_iterations db)" using db_okD(3) [OF assms(1)] by (simp add: iterations_ok_def)
  note home = draft_home_insert [OF t, where f = "\<lambda>n. \<lparr>itr_id = n, itr_service_id = i, itr_creator_id = uid, itr_version = None,
      itr_description = None, itr_is_committed = False\<rparr>", simplified]
  obtain N where n: "side_ok dr" "tb_rows (sd_api dr) = tb_rows (sd_api (db_drafts db)) @ N"
    "\<forall>b\<in>set N. apr_parent b = tb_seq (db_iterations db) \<and> (\<exists>a\<in>set (apis_for i (db_published db)). api_info b = api_info a)"
    using copied_side [OF db_okD(5,6) [OF assms(1)] assms(2) no_drafts_yet [OF assms(1)], of i] assms(6) by auto
  have "refs_ok (draft_home ?its) (category_homes (db_categories db)) (user_ids db) dr"
    by (rule refs_ok_copied [OF db_okD(7) [OF assms(1)] refs_ok_mono [OF db_okD(8) [OF assms(1)] home(1) subset_refl subset_refl] n(2,3) _ home(3)])
      (use service_known [OF assms(3)] in \<open>simp add: published_home_def\<close>)
  moreover have "iterations_ok (service_ids db) (user_ids db) ?its"
    using db_okD(3) [OF assms(1)] table_ok_insert [OF t, of "\<lambda>n. \<lparr>itr_id = n, itr_service_id = i, itr_creator_id = uid, itr_version = None,
      itr_description = None, itr_is_committed = False\<rparr>"] service_known [OF assms(3)] member_known [OF assms(1,3,4)] assms(5)
    by (auto simp: iterations_ok_def insert_row_def iteration_key_def)
  ultimately show ?thesis using assms(1) n(1) by (simp add: db_ok_def)
qed

lemma keeps_committed:
  assumes "db_ok db" "any_order D" "iteration_of db i = Some it" "service_of db (itr_service_id it) = Some s"
    and "copy_apis D (db_drafts db) (srv_id s) (apis_in_order D (apis_for i (db_drafts db))) (delete_apis (srv_id s) (db_published db)) = Some pb"
  shows "db_ok (db\<lparr>db_services := update_row srv_id (srv_id s) (\<lambda>s. s\<lparr>srv_description := itr_description it, srv_version := v\<rparr>) (db_services db),
      db_iterations := update_row itr_id i (\<lambda>it. it\<lparr>itr_version := Some v, itr_is_committed := True\<rparr>) (db_iterations db), db_published := pb\<rparr>)"
proof -
  let ?f = "\<lambda>s. s\<lparr>srv_description := itr_description it, srv_version := v\<rparr>" and ?g = "\<lambda>it. it\<lparr>itr_version := Some v, itr_is_committed := True\<rparr>"
  let ?del = "delete_apis (srv_id s) (db_published db)"
  have s: "srv_id s = itr_service_id it" "srv_id s \<in> service_ids db" using service_known [OF assms(4)] by auto
  have empty: "apis_for (srv_id s) ?del = []" using delete_apis_spec(3) [OF db_okD(5) [OF assms(1)]] by (simp add: apis_for_def filter_empty_conv)
  have del: "refs_ok (published_home (service_ids db)) (category_homes (db_categories db)) (user_ids db) ?del"
    using db_okD(7) [OF assms(1)] delete_apis_spec(3) [OF db_okD(5) [OF assms(1)]] by (auto simp: refs_ok_def)
  obtain N where n: "side_ok pb" "tb_rows (sd_api pb) = tb_rows (sd_api ?del) @ N"
    "\<forall>b\<in>set N. apr_parent b = srv_id s \<and> (\<exists>a\<in>set (apis_for i (db_drafts db)). api_info b = api_info a)"
    using copied_side [OF db_okD(6) [OF assms(1)] delete_apis_spec(1) [OF db_okD(5) [OF assms(1)]] assms(2) empty, of i] assms(5) by auto
  have "refs_ok (published_home (service_ids db)) (category_homes (db_categories db)) (user_ids db) pb"
    by (rule refs_ok_copied [OF db_okD(8) [OF assms(1)] del n(2,3), of "srv_id s"]) (use s assms(3) in \<open>simp_all add: published_home_def draft_home_def\<close>)
  moreover have "iterations_ok (service_ids db) (user_ids db) (update_row itr_id i ?g (db_iterations db))"
    by (rule iterations_ok_update [OF db_okD(3) [OF assms(1)]]) (simp_all add: iteration_key_def)
  moreover have "services_ok (user_ids db) (update_row srv_id (srv_id s) ?f (db_services db))"
    by (rule services_ok_update(1) [OF db_okD(2) [OF assms(1)]]) (use db_okD(2) [OF assms(1)] in \<open>auto simp: services_ok_def\<close>)
  moreover have "srv_id ` set (tb_rows (update_row srv_id (srv_id s) ?f (db_services db))) = service_ids db" by (simp add: update_row_set)
  moreover have "draft_home (update_row itr_id i ?g (db_iterations db)) = draft_home (db_iterations db)" by (rule draft_home_update) simp
  ultimately show ?thesis using assms(1) n(1) by (simp add: db_ok_def)
qed

text \<open>Categories.\<close>

lemma refs_ok_set_category:
  assumes "refs_ok home K U sd" "\<And>a c'. P a \<Longrightarrow> a \<in> set (tb_rows (sd_api sd)) \<Longrightarrow> c = Some c' \<Longrightarrow> \<exists>s. home (apr_parent a) = Some s \<and> (c', s) \<in> K"
  shows "refs_ok home K U (set_category P c sd)"
  using assms by (fastforce simp: refs_ok_def set_category_def)

lemma keeps_category_added:
  assumes "db_ok db" "service_of db i = Some s" "\<not> category_named db i (Some name)"
  shows "db_ok (db\<lparr>db_categories := snd (insert_row (\<lambda>n. \<lparr>ctr_id = n, ctr_service_id = i, ctr_name = name, ctr_description = desc\<rparr>) (db_categories db))\<rparr>)"
    (is "db_ok ?db")
proof -
  have "table_ok ctr_id (db_categories ?db)" using db_okD(4) [OF assms(1)] by (simp add: categories_ok_def table_ok_insert)
  then have "categories_ok (service_ids ?db) (db_categories ?db)"
    using db_okD(4) [OF assms(1)] assms(3) service_known [OF assms(2)]
    by (auto simp: categories_ok_def insert_row_def category_named_def)
  moreover have "category_homes (db_categories db) \<subseteq> category_homes (db_categories ?db)" by (auto simp: category_homes_def insert_row_def)
  then have "refs_ok (published_home (service_ids db)) (category_homes (db_categories ?db)) (user_ids db) (db_published db)"
    "refs_ok (draft_home (db_iterations db)) (category_homes (db_categories ?db)) (user_ids db) (db_drafts db)"
    using refs_ok_mono [OF db_okD(7) [OF assms(1)] map_le_refl] refs_ok_mono [OF db_okD(8) [OF assms(1)] map_le_refl] by auto
  ultimately show ?thesis using assms(1) by (simp add: db_ok_def)
qed

lemma keeps_category_changed:
  assumes "db_ok db" "category_of db c = Some ct" "\<not> category_named db (ctr_service_id ct) (Some n)"
  shows "db_ok (db\<lparr>db_categories := update_row ctr_id (ctr_id ct) (\<lambda>x. x\<lparr>ctr_name := n, ctr_description := desc\<rparr>) (db_categories db)\<rparr>)"
proof -
  let ?f = "\<lambda>x. x\<lparr>ctr_name := n, ctr_description := desc\<rparr>" and ?t = "db_categories db"
  have ok: "table_ok ctr_id ?t" "distinct (map (\<lambda>c. (ctr_service_id c, ctr_name c)) (tb_rows ?t))" using db_okD(4) [OF assms(1)] by (auto simp: categories_ok_def)
  have "distinct (map (\<lambda>c. (ctr_service_id c, ctr_name c)) (tb_rows (update_row ctr_id (ctr_id ct) ?f ?t)))"
    unfolding update_row_def using distinct_update [OF _ ok(2), of ctr_id ct ?f] ok(1) get_row_SomeD [OF assms(2)] assms(3)
    by (auto simp: table_ok_def category_named_def)
  moreover have "category_homes (update_row ctr_id (ctr_id ct) ?f ?t) = category_homes ?t" by (simp add: category_homes_def update_row_set)
  moreover have "\<forall>c\<in>set (tb_rows (update_row ctr_id (ctr_id ct) ?f ?t)). ctr_service_id c \<in> service_ids db"
    using db_okD(4) [OF assms(1)] by (intro update_row_ball) (auto simp: categories_ok_def)
  ultimately show ?thesis using assms(1) table_ok_update [OF ok(1), of ?f] by (simp add: db_ok_def categories_ok_def)
qed

lemma keeps_category_deleted:
  assumes "db_ok db"
  shows "db_ok (db\<lparr>db_categories := delete_rows (\<lambda>x. ctr_id x = c) (db_categories db),
      db_published := set_category (\<lambda>a. apr_category_id a = Some c) None (db_published db),
      db_drafts := set_category (\<lambda>a. apr_category_id a = Some c) None (db_drafts db)\<rparr>)"
proof -
  let ?t = "delete_rows (\<lambda>x. ctr_id x = c) (db_categories db)"
  have "categories_ok (service_ids db) ?t"
    using db_okD(4) [OF assms] table_ok_delete [of ctr_id "db_categories db"] by (auto simp: categories_ok_def delete_rows_def distinct_map_filter)
  moreover have "refs_ok home (category_homes ?t) U (set_category (\<lambda>a. apr_category_id a = Some c) None sd)"
    if "refs_ok home (category_homes (db_categories db)) U sd" for home U sd
  proof -
    have k: "(k, s) \<in> category_homes ?t" if "(k, s) \<in> category_homes (db_categories db)" "k \<noteq> c" for k s
      using that by (auto simp: category_homes_def delete_rows_def)
    show ?thesis using that unfolding refs_ok_def set_category_def by (fastforce intro: k)
  qed
  ultimately show ?thesis using assms set_category_spec(1) by (simp add: db_ok_def)
qed

lemma keeps_moved:
  assumes "db_ok db" "published_api db i = Some a" "\<forall>k. c = Some k \<longrightarrow> (\<exists>ct. category_of db k = Some ct \<and> ctr_service_id ct = apr_parent a)"
  shows "db_ok (db\<lparr>db_published := set_category (\<lambda>x. apr_id x = apr_id a) c (db_published db)\<rparr>)"
proof -
  have "refs_ok (published_home (service_ids db)) (category_homes (db_categories db)) (user_ids db) (set_category (\<lambda>x. apr_id x = apr_id a) c (db_published db))"
  proof (rule refs_ok_set_category [OF db_okD(7) [OF assms(1)]])
    fix b c' assume b: "apr_id b = apr_id a" "b \<in> set (tb_rows (sd_api (db_published db)))" "c = Some c'"
    then have "b = a" using get_row_SomeD [OF assms(2)] db_okD(5) [OF assms(1)] distinct_keyD [of apr_id "tb_rows (sd_api (db_published db))" b a]
      by (simp add: side_ok_def table_ok_def)
    then have "published_home (service_ids db) (apr_parent b) = Some (apr_parent a)"
      using db_okD(7) [OF assms(1)] b(2) by (fastforce simp: refs_ok_def published_home_def split: if_splits)
    moreover obtain ct where "category_of db c' = Some ct" "ctr_service_id ct = apr_parent a" using assms(3) b(3) by auto
    then have "(c', apr_parent a) \<in> category_homes (db_categories db)" using get_row_SomeD by (fastforce simp: category_homes_def)
    ultimately show "\<exists>s. published_home (service_ids db) (apr_parent b) = Some s \<and> (c', s) \<in> category_homes (db_categories db)" by blast
  qed
  then show ?thesis using assms(1) set_category_spec(1) [OF db_okD(5) [OF assms(1)]] by (simp add: db_ok_def)
qed


text \<open>The drafts of an iteration.\<close>

lemma db_ok_drafts:
  assumes "db_ok db" "side_ok dr" "refs_ok (draft_home (db_iterations db)) (category_homes (db_categories db)) (user_ids db) dr"
  shows "db_ok (db\<lparr>db_drafts := dr\<rparr>)"
  using assms by (simp add: db_ok_def)

lemma insert_apiD:
  assumes "insert_api f sd = Some (n, sd')"
  shows "n = tb_seq (sd_api sd)" "\<not> conflict sd (apr_parent (f n)) (apr_method (f n)) (apr_name (f n))"
    "sd' = sd\<lparr>sd_api := \<lparr>tb_rows = tb_rows (sd_api sd) @ [f n], tb_seq = tb_seq (sd_api sd) + 1\<rparr>\<rparr>"
  using assms by (auto simp: insert_api_def insert_row_def split: if_splits)

lemma creator_known:
  assumes "db_ok db" "iteration_of db i = Some it" "service_of db (itr_service_id it) = Some s" "iterates db uid it s"
  shows "uid \<in> user_ids db"
  using assms get_row_SomeD [OF assms(2)] get_row_SomeD [OF assms(3)] user_of_ids [of db uid]
  by (auto simp: iterates_def is_admin_def db_ok_def services_ok_def iterations_ok_def)

lemma keeps_added:
  assumes "db_ok db" "iteration_of db i = Some it" "uid \<in> user_ids db" "insert_api f (db_drafts db) = Some (n, dr)"
    and "\<forall>n. apr_parent (f n) = i \<and> apr_id (f n) = n \<and> apr_owner_id (f n) = uid \<and> apr_category_id (f n) = c"
    and "\<forall>k. c = Some k \<longrightarrow> (\<exists>ct. category_of db k = Some ct \<and> ctr_service_id ct = itr_service_id it)"
  shows "db_ok (db\<lparr>db_drafts := dr\<rparr>)"
    "contents dr i = add_mset \<lparr>ac_api = api_info (f n), ac_req = {#}, ac_resp = {#}\<rparr> (contents (db_drafts db) i)"
    "j \<noteq> i \<Longrightarrow> contents dr j = contents (db_drafts db) j"
proof -
  note n = insert_apiD [OF assms(4)]
  have "sd_req dr = sd_req (db_drafts db)" "sd_resp dr = sd_resp (db_drafts db)" "sd_api dr = \<lparr>tb_rows = tb_rows (sd_api (db_drafts db)) @ [f n], tb_seq = tb_seq (sd_api (db_drafts db)) + 1\<rparr>"
    by (simp_all add: n(3))
  then have a: "side_ok dr \<and> contents dr (apr_parent (f n)) = add_mset \<lparr>ac_api = api_info (f n), ac_req = {#}, ac_resp = {#}\<rparr> (contents (db_drafts db) (apr_parent (f n))) \<and>
      (\<forall>p. p \<noteq> apr_parent (f n) \<longrightarrow> contents dr p = contents (db_drafts db) p)"
    by (intro added_api [OF db_okD(6) [OF assms(1)] _ n(2)]) (use assms(5) n(1) grown_refl in simp_all)
  show "contents dr i = add_mset \<lparr>ac_api = api_info (f n), ac_req = {#}, ac_resp = {#}\<rparr> (contents (db_drafts db) i)"
    "j \<noteq> i \<Longrightarrow> contents dr j = contents (db_drafts db) j" using a assms(5) by auto
  have "(k, itr_service_id it) \<in> category_homes (db_categories db)" if "c = Some k" for k
    using assms(6) that get_row_SomeD by (fastforce simp: category_homes_def)
  then have "refs_ok (draft_home (db_iterations db)) (category_homes (db_categories db)) (user_ids db) dr"
    using db_okD(8) [OF assms(1)] assms(2,3,5) by (auto simp: refs_ok_def n(3) draft_home_def)
  then show "db_ok (db\<lparr>db_drafts := dr\<rparr>)" using db_ok_drafts [OF assms(1)] a by blast
qed

text \<open>The copy of a draft has its design.\<close>

definition copied_content :: "server_env \<Rightarrow> int \<Rightarrow> api_content \<Rightarrow> api_content" where
  "copied_content D uid x = x\<lparr>ac_api := copied_row D uid (ac_api x) 0\<rparr>"

lemma keeps_copied:
  assumes "db_ok db" "any_order D" "uid \<in> user_ids db" "draft_api db d = Some a" "insert_api (copied_row D uid a) (db_drafts db) = Some (n, dr)"
    and "dr' = dr\<lparr>sd_req := copy_params_recursively n None (param_objects D d (sd_req dr)) (sd_req dr),
      sd_resp := copy_params_recursively n None (param_objects D d (sd_resp dr)) (sd_resp dr)\<rparr>"
  shows "db_ok (db\<lparr>db_drafts := dr'\<rparr>)"
    "contents dr' (apr_parent a) = add_mset (copied_content D uid (api_content_of (db_drafts db) a)) (contents (db_drafts db) (apr_parent a))"
    "j \<noteq> apr_parent a \<Longrightarrow> contents dr' j = contents (db_drafts db) j"
proof -
  let ?a = "copied_row D uid a n" and ?sd = "db_drafts db"
  note n = insert_apiD [OF assms(5)]
  have a: "a \<in> set (tb_rows (sd_api ?sd))" "apr_id a = d" using get_row_SomeD [OF assms(4)] by auto
  have f: "apr_id ?a = n" "apr_parent ?a = apr_parent a" "apr_owner_id ?a = uid" "apr_category_id ?a = apr_category_id a" by (simp_all add: copied_row_def)
  have ok: "params_ok (api_ids ?sd) (sd_req ?sd)" "params_ok (api_ids ?sd) (sd_resp ?sd)" using db_okD(6) [OF assms(1)] by (simp_all add: side_ok_def)
  have g: "grown t n (design_in t d) (copy_params_recursively n None (param_objects D d t) t)" if "params_ok (api_ids ?sd) t" for t
    using recursive_grown [of t n "param_objects D d t"] objects_design [OF that assms(2), of d] that by (simp add: params_ok_def table_ok_def)
  have "sd_api dr' = \<lparr>tb_rows = tb_rows (sd_api ?sd) @ [?a], tb_seq = tb_seq (sd_api ?sd) + 1\<rparr>"
    "grown (sd_req ?sd) (apr_id ?a) (design_in (sd_req ?sd) d) (sd_req dr')" "grown (sd_resp ?sd) (apr_id ?a) (design_in (sd_resp ?sd) d) (sd_resp dr')"
    using g [OF ok(1)] g [OF ok(2)] f(1) by (simp_all add: assms(6) n(3))
  note new = this
  have "apr_id ?a = tb_seq (sd_api ?sd)" using f(1) n(1) by simp
  then have b: "side_ok dr'" "contents dr' (apr_parent a) = add_mset \<lparr>ac_api = api_info ?a, ac_req = design_in (sd_req ?sd) d, ac_resp = design_in (sd_resp ?sd) d\<rparr>
      (contents ?sd (apr_parent a))" "\<forall>p. p \<noteq> apr_parent a \<longrightarrow> contents dr' p = contents ?sd p"
    using added_api [OF db_okD(6) [OF assms(1)] _ n(2) new] f(2) by auto
  have "api_info ?a = copied_row D uid (api_info a) 0" by (simp add: api_info_def copied_row_def)
  then show "contents dr' (apr_parent a) = add_mset (copied_content D uid (api_content_of ?sd a)) (contents ?sd (apr_parent a))"
    using b(2) a(2) by (simp add: api_content_of_def copied_content_def)
  show "j \<noteq> apr_parent a \<Longrightarrow> contents dr' j = contents ?sd j" using b(3) by simp
  have "refs_ok (draft_home (db_iterations db)) (category_homes (db_categories db)) (user_ids db) dr'"
    using db_okD(8) [OF assms(1)] a(1) f(2-4) assms(3) new(1) by (auto simp: refs_ok_def)
  then show "db_ok (db\<lparr>db_drafts := dr'\<rparr>)" using db_ok_drafts [OF assms(1) b(1)] by blast
qed

lemma keeps_deleted:
  assumes "db_ok db" "draft_api db d = Some a"
  shows "db_ok (db\<lparr>db_drafts := delete_api d (db_drafts db)\<rparr>)"
    "contents (delete_api d (db_drafts db)) j = (if j = apr_parent a then contents (db_drafts db) j - {#api_content_of (db_drafts db) a#} else contents (db_drafts db) j)"
proof -
  have a: "a \<in> set (tb_rows (sd_api (db_drafts db)))" "apr_id a = d" using get_row_SomeD [OF assms(2)] by auto
  note d = delete_api_spec [OF db_okD(6) [OF assms(1)] a(1), unfolded a(2)]
  have "refs_ok (draft_home (db_iterations db)) (category_homes (db_categories db)) (user_ids db) (delete_api d (db_drafts db))"
    using db_okD(8) [OF assms(1)] by (auto simp: refs_ok_def delete_api_def delete_rows_def)
  then show "db_ok (db\<lparr>db_drafts := delete_api d (db_drafts db)\<rparr>)" using db_ok_drafts [OF assms(1) d(1)] by blast
  show "contents (delete_api d (db_drafts db)) j = (if j = apr_parent a then contents (db_drafts db) j - {#api_content_of (db_drafts db) a#} else contents (db_drafts db) j)"
    by (rule d(2))
qed

lemma keeps_rewritten:
  assumes "db_ok db" "draft_api db d = Some a" "rewrite_api d (updated_row name method path desc level) rq rs (db_drafts db) = Some dr"
  shows "db_ok (db\<lparr>db_drafts := dr\<rparr>)"
    "contents dr (apr_parent a) = add_mset \<lparr>ac_api = updated_row name method path desc level (api_info a),
        ac_req = input_design RequestKind None rq, ac_resp = input_design ResponseKind None rs\<rparr>
      (contents (db_drafts db) (apr_parent a) - {#api_content_of (db_drafts db) a#})"
    "j \<noteq> apr_parent a \<Longrightarrow> contents dr j = contents (db_drafts db) j"
proof -
  let ?f = "updated_row name method path desc level"
  have a: "a \<in> set (tb_rows (sd_api (db_drafts db)))" "apr_id a = d" using get_row_SomeD [OF assms(2)] by auto
  have r: "side_ok dr \<and> contents dr (apr_parent a) = add_mset \<lparr>ac_api = api_info (?f a), ac_req = input_design RequestKind None rq, ac_resp = input_design ResponseKind None rs\<rparr>
      (contents (db_drafts db) (apr_parent a) - {#api_content_of (db_drafts db) a#}) \<and> (\<forall>p. p \<noteq> apr_parent a \<longrightarrow> contents dr p = contents (db_drafts db) p)"
    by (rule rewrite_api_spec [OF db_okD(6) [OF assms(1)] a(1) _ assms(3) [folded a(2)]]) (simp add: updated_row_def)
  have "api_info (?f a) = ?f (api_info a)" by (simp add: api_info_def updated_row_def)
  then show "contents dr (apr_parent a) = add_mset \<lparr>ac_api = ?f (api_info a), ac_req = input_design RequestKind None rq, ac_resp = input_design ResponseKind None rs\<rparr>
      (contents (db_drafts db) (apr_parent a) - {#api_content_of (db_drafts db) a#})" "j \<noteq> apr_parent a \<Longrightarrow> contents dr j = contents (db_drafts db) j"
    using r by auto
  have "tb_rows (sd_api dr) = map (\<lambda>b. if apr_id b = d then ?f b else b) (tb_rows (sd_api (db_drafts db)))"
    using assms(3) by (auto simp: rewrite_api_def Let_def update_row_def split: if_splits)
  then have "refs_ok (draft_home (db_iterations db)) (category_homes (db_categories db)) (user_ids db) dr"
    using db_okD(8) [OF assms(1)] by (auto simp: refs_ok_def updated_row_def)
  then show "db_ok (db\<lparr>db_drafts := dr\<rparr>)" using db_ok_drafts [OF assms(1)] r by blast
qed

lemma effect_keeps:
  assumes "effect D uid db db'" "db_ok db" "any_order D"
  shows "db_ok db'"
  using assms
proof (cases rule: effect.cases)
  case (registered name password nickname email role r)
  have "db' = db\<lparr>db_users := db_users db'\<rparr>" "user_ids db \<subseteq> user_ids db'"
    using registered by (auto simp: userRegister_def insert_row_def split: if_splits)
  then show ?thesis using keeps_users [OF assms(2) register_change [OF db_okD(1) [OF assms(2)] registered]] by blast
next
  case (password_changed old new r)
  have "db' = db\<lparr>db_users := db_users db'\<rparr>" "user_ids db \<subseteq> user_ids db'"
    using password_changed by (auto simp: userModifyPassword_def update_row_set split: option.splits if_splits)
  then show ?thesis using keeps_users [OF assms(2) modify_change [OF db_okD(1) [OF assms(2)] password_changed]] by blast
next
  case (marked i s b t)
  show ?thesis unfolding marked(1) by (rule db_ok_service_update [OF assms(2)]) (use db_okD(2) [OF assms(2)] in \<open>auto simp: services_ok_def\<close>)
next
  case (added i it s f c n dr)
  show ?thesis unfolding added(1) by (rule keeps_added(1) [OF assms(2) added(2) creator_known [OF assms(2) added(2,4,5)] added(8,6,7)])
next
  case (copied i it s d a n dr)
  show ?thesis unfolding copied(1) by (rule keeps_copied(1) [OF assms(2,3) creator_known [OF assms(2) copied(2,4,5)] copied(6,8) refl])
qed (auto intro: keeps_created keeps_toggled keeps_iteration_deleted keeps_started keeps_committed keeps_described keeps_category_added
    keeps_category_deleted keeps_category_changed keeps_moved keeps_deleted(1) keeps_rewritten(1) assms)

end
