(* ===== verification/Be_Server.thy ===== *)
theory Be_Server
  imports Be_Invariant
begin

text \<open>
  What the back end promises: its runs keep the invariant, what starting and committing an iteration does to contents, only authorized users change a service, and what was committed stays.
\<close>

section \<open>Runs\<close>

definition empty_table :: "'r table" where
  "empty_table = \<lparr>tb_rows = [], tb_seq = 1\<rparr>"

definition empty_side :: side where
  "empty_side = \<lparr>sd_api = empty_table, sd_req = empty_table, sd_resp = empty_table\<rparr>"

definition empty_database :: database where
  "empty_database = \<lparr>db_users = empty_table, db_services = empty_table, db_iterations = empty_table, db_categories = empty_table,
     db_published = empty_side, db_drafts = empty_side\<rparr>"

text \<open>Every account is registered with level 4; an administrator is made by changing the row in the database.\<close>

definition set_level :: "int \<Rightarrow> int \<Rightarrow> database \<Rightarrow> database" where
  "set_level i l db = db\<lparr>db_users := update_row usr_id i (\<lambda>u. u\<lparr>usr_level := l\<rparr>) (db_users db)\<rparr>"

inductive served :: "database \<Rightarrow> bool" where
  empty: "served empty_database"
| request: "served db \<Longrightarrow> any_order D \<Longrightarrow> served (handle D uid e db)"
| level: "served db \<Longrightarrow> served (set_level i l db)"

lemma empty_ok: "db_ok empty_database"
  by (auto simp: db_ok_def empty_database_def empty_side_def empty_table_def users_ok_def services_ok_def iterations_ok_def categories_ok_def
      side_ok_def refs_ok_def params_ok_def table_ok_def rows_for_def holds_def List.map_filter_simps intro: exI [of _ "[]"])

lemma handle_keeps: "db_ok db \<Longrightarrow> any_order D \<Longrightarrow> db_ok (handle D uid e db)"
  using handle_effect [of D uid e db] effect_keeps [of D uid db "handle D uid e db"] by metis

lemma level_keeps: "db_ok db \<Longrightarrow> db_ok (set_level i l db)"
  by (rule keeps_users) (auto simp: set_level_def update_row_set intro: users_ok_update db_okD(1))

lemma run_keeps_database: "served db \<Longrightarrow> db_ok db"
  by (induction rule: served.induct) (auto intro: empty_ok handle_keeps level_keeps)

section \<open>Contents\<close>

definition without_category :: "api_content \<Rightarrow> api_content" where
  "without_category x = x\<lparr>ac_api := (ac_api x)\<lparr>apr_category_id := None\<rparr>\<rparr>"

lemma draft_content: "draft_api db d = Some a \<Longrightarrow> api_content_of (db_drafts db) a \<in># contents (db_drafts db) (apr_parent a)"
  using get_row_SomeD [of apr_id "sd_api (db_drafts db)" d a] by (auto simp: contents_def apis_for_def)

lemma started_contents:
  assumes "db_ok db" "any_order D"
    and "copy_apis D (db_published db) (tb_seq (db_iterations db)) (apis_in_order D (apis_for i (db_published db))) (db_drafts db) = Some dr"
  shows "contents dr = (contents (db_drafts db))(tb_seq (db_iterations db) := contents (db_published db) i)"
    "contents (db_drafts db) (tb_seq (db_iterations db)) = {#}"
  using copied_side [OF db_okD(5,6) [OF assms(1)] assms(2) no_drafts_yet [OF assms(1)], of i] assms(3) no_drafts_yet [OF assms(1)]
  by (auto simp: fun_eq_iff contents_def [of "db_drafts db" "tb_seq (db_iterations db)"])

lemma committed_contents:
  assumes "db_ok db" "any_order D"
    and "copy_apis D (db_drafts db) s (apis_in_order D (apis_for i (db_drafts db))) (delete_apis s (db_published db)) = Some pb"
  shows "contents pb = (contents (db_published db))(s := contents (db_drafts db) i)"
proof -
  have "apis_for s (delete_apis s (db_published db)) = []"
    using delete_apis_spec(3) [OF db_okD(5) [OF assms(1)]] by (simp add: apis_for_def filter_empty_conv)
  then show ?thesis
    using copied_side [OF db_okD(6) [OF assms(1)] delete_apis_spec(1) [OF db_okD(5) [OF assms(1)]] assms(2), of s s i] assms(3)
      delete_apis_spec(2) [OF db_okD(5) [OF assms(1)]]
    by (auto simp: fun_eq_iff)
qed

lemma categorized: "side_ok sd \<Longrightarrow> image_mset without_category (contents (set_category P c sd) p) = image_mset without_category (contents sd p)"
  using set_category_spec(2) [where k = None] unfolding without_category_def by blast

section \<open>Who changes a service\<close>

text \<open>What belongs to a service: its row, its iterations, its categories, its contents, and those of its iterations.\<close>

definition service_view :: "database \<Rightarrow> int \<Rightarrow>
    service_row option \<times> iteration_row list \<times> category_row list \<times> api_content multiset \<times> api_content multiset list" where
  "service_view db s =
     (service_of db s, filter (\<lambda>it. itr_service_id it = s) (tb_rows (db_iterations db)),
      filter (\<lambda>c. ctr_service_id c = s) (tb_rows (db_categories db)), contents (db_published db) s,
      map (\<lambda>it. contents (db_drafts db) (itr_id it)) (filter (\<lambda>it. itr_service_id it = s) (tb_rows (db_iterations db))))"

definition authorized :: "database \<Rightarrow> int \<Rightarrow> int \<Rightarrow> bool" where
  "authorized db uid s \<longleftrightarrow>
     (\<exists>r. service_of db s = Some r \<and> (joins db uid r \<or> (\<exists>it\<in>set (tb_rows (db_iterations db)). itr_service_id it = s \<and> itr_creator_id it = uid)))"

lemma authorizedI:
  "service_of db s = Some r \<Longrightarrow> owns db uid r \<Longrightarrow> authorized db uid s"
  "service_of db s = Some r \<Longrightarrow> joins db uid r \<Longrightarrow> authorized db uid s"
  "iteration_of db i = Some it \<Longrightarrow> service_of db (itr_service_id it) = Some r \<Longrightarrow> iterates db uid it r \<Longrightarrow> authorized db uid (itr_service_id it)"
  using get_row_SomeD [of itr_id "db_iterations db" i it] by (auto simp: authorized_def owns_def joins_def iterates_def)

lemma filter_update:
  "(\<And>x. x \<in> set xs \<Longrightarrow> Q x \<Longrightarrow> \<not> P x \<and> \<not> P (f x)) \<Longrightarrow> filter P (map (\<lambda>x. if Q x then f x else x) xs) = filter P xs"
  by (induction xs) auto

lemma iteration_unique:
  assumes "db_ok db" "iteration_of db i = Some it" "it' \<in> set (tb_rows (db_iterations db))" "itr_id it' = i"
  shows "it' = it"
  using assms get_row_SomeD [OF assms(2)] distinct_keyD [of itr_id "tb_rows (db_iterations db)" it' it]
  by (auto simp: db_ok_def iterations_ok_def table_ok_def)

lemma category_unique:
  assumes "db_ok db" "category_of db i = Some ct" "ct' \<in> set (tb_rows (db_categories db))" "ctr_id ct' = i"
  shows "ct' = ct"
  using assms get_row_SomeD [OF assms(2)] distinct_keyD [of ctr_id "tb_rows (db_categories db)" ct' ct]
  by (auto simp: db_ok_def categories_ok_def table_ok_def)

lemma uncategorized:
  assumes "\<And>a. a \<in> set (apis_for p sd) \<Longrightarrow> \<not> P a"
  shows "contents (set_category P c sd) p = contents sd p"
proof -
  have "filter (\<lambda>a. apr_parent a = p) (map (\<lambda>a. if P a then a\<lparr>apr_category_id := c\<rparr> else a) (tb_rows (sd_api sd))) = filter (\<lambda>a. apr_parent a = p) (tb_rows (sd_api sd))"
    by (rule filter_update) (use assms in \<open>auto simp: apis_for_def\<close>)
  then show ?thesis by (intro contents_cong) (simp_all add: apis_for_def set_category_def)
qed

text \<open>A category is used by the APIs of its own service only.\<close>

lemma category_users:
  assumes "db_ok db" "category_of db c = Some ct"
  shows "a \<in> set (apis_for p (db_published db)) \<Longrightarrow> apr_category_id a = Some c \<Longrightarrow> p = ctr_service_id ct"
    "a \<in> set (apis_for (itr_id it) (db_drafts db)) \<Longrightarrow> it \<in> set (tb_rows (db_iterations db)) \<Longrightarrow> apr_category_id a = Some c \<Longrightarrow> itr_service_id it = ctr_service_id ct"
proof -
  have home: "s = ctr_service_id ct" if "(c, s) \<in> category_homes (db_categories db)" for s
    using that category_unique [OF assms] by (auto simp: category_homes_def)
  show "a \<in> set (apis_for p (db_published db)) \<Longrightarrow> apr_category_id a = Some c \<Longrightarrow> p = ctr_service_id ct"
    using db_okD(7) [OF assms(1)] home by (fastforce simp: refs_ok_def apis_for_def published_home_def split: if_splits)
  assume "a \<in> set (apis_for (itr_id it) (db_drafts db))" "it \<in> set (tb_rows (db_iterations db))" "apr_category_id a = Some c"
  moreover have "iteration_of db (itr_id it) = Some it"
    using get_row_Some calculation(2) db_okD(3) [OF assms(1)] by (metis iterations_ok_def)
  ultimately show "itr_service_id it = ctr_service_id ct"
    using db_okD(8) [OF assms(1)] home by (fastforce simp: refs_ok_def apis_for_def draft_home_def)
qed

lemma view_drafts:
  assumes "db_ok db" "iteration_of db i = Some it" "itr_service_id it \<noteq> s" "\<And>j. j \<noteq> i \<Longrightarrow> contents dr j = contents (db_drafts db) j"
  shows "service_view (db\<lparr>db_drafts := dr\<rparr>) s = service_view db s"
proof -
  have "itr_id it' \<noteq> i" if "it' \<in> set (filter (\<lambda>it. itr_service_id it = s) (tb_rows (db_iterations db)))" for it'
    using that iteration_unique [OF assms(1,2)] assms(3) by auto
  then show ?thesis using assms(4) by (simp add: service_view_def)
qed

text \<open>A change of one service leaves the others as they are.\<close>

lemma view_service:
  assumes "i \<noteq> s" "\<And>r. srv_id (f r) = srv_id r"
  shows "service_view (db\<lparr>db_services := update_row srv_id i f (db_services db)\<rparr>) s = service_view db s"
  using assms by (simp add: service_view_def get_row_update option.map_ident)

lemma view_created:
  assumes "db_ok db" "service_of db s \<noteq> None" "\<And>i. srv_id (f i) = i"
  shows "service_view (db\<lparr>db_services := snd (insert_row f (db_services db))\<rparr>) s = service_view db s"
proof -
  obtain r where r: "service_of db s = Some r" using assms(2) by blast
  have "table_ok srv_id (snd (insert_row f (db_services db)))" using db_okD(2) [OF assms(1)] assms(3) by (simp add: services_ok_def table_ok_insert)
  then have "get_row srv_id (snd (insert_row f (db_services db))) s = Some r"
    using get_row_SomeD [OF r] get_row_Some [of srv_id _ r] by (auto simp: insert_row_def)
  then show ?thesis using r by (simp add: service_view_def)
qed

lemma view_iterations:
  assumes "filter (\<lambda>it. itr_service_id it = s) (tb_rows its) = filter (\<lambda>it. itr_service_id it = s) (tb_rows (db_iterations db))"
  shows "service_view (db\<lparr>db_iterations := its\<rparr>) s = service_view db s"
  using assms by (simp add: service_view_def)

lemma other_iterations:
  assumes "db_ok db" "iteration_of db i = Some it" "itr_service_id it \<noteq> s" "\<And>x. itr_service_id (f x) = itr_service_id x"
  shows "filter (\<lambda>it. itr_service_id it = s) (tb_rows (update_row itr_id i f (db_iterations db))) = filter (\<lambda>it. itr_service_id it = s) (tb_rows (db_iterations db))"
    "filter (\<lambda>it. itr_service_id it = s) (tb_rows (delete_rows (\<lambda>it. itr_id it = i) (db_iterations db))) = filter (\<lambda>it. itr_service_id it = s) (tb_rows (db_iterations db))"
  using assms(3,4) iteration_unique [OF assms(1,2)] by (auto simp: update_row_def delete_rows_def intro!: filter_update filter_cong)

lemma view_started:
  assumes "db_ok db" "any_order D" "i \<noteq> s" "\<And>n. itr_service_id (f n) = i"
    and "copy_apis D (db_published db) (tb_seq (db_iterations db)) (apis_in_order D (apis_for i (db_published db))) (db_drafts db) = Some dr"
  shows "service_view (db\<lparr>db_iterations := snd (insert_row f (db_iterations db)), db_drafts := dr\<rparr>) s = service_view db s"
proof -
  have "itr_id it \<noteq> tb_seq (db_iterations db)" if "it \<in> set (tb_rows (db_iterations db))" for it
    using that db_okD(3) [OF assms(1)] by (auto simp: iterations_ok_def table_ok_def)
  then show ?thesis using assms(3,4) started_contents(1) [OF assms(1,2,5)] by (simp add: service_view_def insert_row_def)
qed

lemma view_committed:
  assumes "db_ok db" "any_order D" "iteration_of db i = Some it" "service_of db (itr_service_id it) = Some r" "itr_service_id it \<noteq> s"
    and "copy_apis D (db_drafts db) (srv_id r) (apis_in_order D (apis_for i (db_drafts db))) (delete_apis (srv_id r) (db_published db)) = Some pb"
    and "\<And>x. itr_service_id (g x) = itr_service_id x" "\<And>x. srv_id (f x) = srv_id x"
  shows "service_view (db\<lparr>db_services := update_row srv_id (srv_id r) f (db_services db), db_iterations := update_row itr_id i g (db_iterations db), db_published := pb\<rparr>) s =
    service_view db s"
  using assms(5,8) service_known [OF assms(4)] other_iterations(1) [OF assms(1,3,5,7)] committed_contents [OF assms(1,2,6)]
  by (auto simp: service_view_def get_row_update option.map_ident)

lemma view_category_deleted:
  assumes "db_ok db" "category_of db c = Some ct" "ctr_service_id ct \<noteq> s"
  shows "service_view (db\<lparr>db_categories := delete_rows (\<lambda>x. ctr_id x = c) (db_categories db),
      db_published := set_category (\<lambda>a. apr_category_id a = Some c) None (db_published db),
      db_drafts := set_category (\<lambda>a. apr_category_id a = Some c) None (db_drafts db)\<rparr>) s = service_view db s"
proof -
  have "filter (\<lambda>c. ctr_service_id c = s) (tb_rows (delete_rows (\<lambda>x. ctr_id x = c) (db_categories db))) = filter (\<lambda>c. ctr_service_id c = s) (tb_rows (db_categories db))"
    using assms(3) category_unique [OF assms(1,2)] by (auto simp: delete_rows_def intro!: filter_cong)
  moreover have "contents (set_category (\<lambda>a. apr_category_id a = Some c) None (db_published db)) s = contents (db_published db) s"
    using assms(3) category_users(1) [OF assms(1,2)] by (auto intro!: uncategorized)
  moreover have "contents (set_category (\<lambda>a. apr_category_id a = Some c) None (db_drafts db)) (itr_id it) = contents (db_drafts db) (itr_id it)"
    if "it \<in> set (tb_rows (db_iterations db))" "itr_service_id it = s" for it
    using assms(3) that category_users(2) [OF assms(1,2)] by (auto intro!: uncategorized)
  ultimately show ?thesis by (simp add: service_view_def)
qed

lemma view_category_changed:
  assumes "db_ok db" "category_of db c = Some ct" "ctr_service_id ct \<noteq> s" "\<And>x. ctr_service_id (f x) = ctr_service_id x"
  shows "service_view (db\<lparr>db_categories := update_row ctr_id (ctr_id ct) f (db_categories db)\<rparr>) s = service_view db s"
proof -
  have "filter (\<lambda>c. ctr_service_id c = s) (tb_rows (update_row ctr_id (ctr_id ct) f (db_categories db))) = filter (\<lambda>c. ctr_service_id c = s) (tb_rows (db_categories db))"
    using assms(3,4) category_unique [OF assms(1,2)] get_row_SomeD [OF assms(2)] by (auto simp: update_row_def intro!: filter_update)
  then show ?thesis by (simp add: service_view_def)
qed

lemma view_moved:
  assumes "db_ok db" "published_api db i = Some a" "apr_parent a \<noteq> s"
  shows "service_view (db\<lparr>db_published := set_category (\<lambda>x. apr_id x = apr_id a) c (db_published db)\<rparr>) s = service_view db s"
proof -
  have "b \<in> set (apis_for s (db_published db)) \<Longrightarrow> apr_id b \<noteq> apr_id a" for b
    using assms(3) get_row_SomeD [OF assms(2)] db_okD(5) [OF assms(1)] distinct_keyD [of apr_id "tb_rows (sd_api (db_published db))" b a]
    by (auto simp: apis_for_def side_ok_def table_ok_def)
  then show ?thesis by (simp add: service_view_def uncategorized)
qed

text \<open>Every change is made by a user who is authorized for the one service it is about.\<close>

lemma effect_authorized:
  assumes "effect D uid db db'" "db_ok db" "any_order D" "service_of db s \<noteq> None"
  shows "service_view db' s = service_view db s \<or> authorized db uid s"
  using assms(1)
proof (cases rule: effect.cases)
  case (registered name password nickname email role r)
  then show ?thesis by (auto simp: userRegister_def service_view_def split: if_splits)
next
  case (password_changed old new r)
  then show ?thesis by (auto simp: userModifyPassword_def service_view_def split: if_splits option.splits)
next
  case (created uuid desc)
  then show ?thesis using view_created [OF assms(2,4)] by simp
next
  case (marked i r b t)
  then show ?thesis using authorizedI(1) view_service [of i s] by (cases "i = s") auto
next
  case (toggled i r c ms)
  then show ?thesis using authorizedI(1) view_service [of i s] by (cases "i = s") auto
next
  case (iteration_deleted i it r)
  then show ?thesis using authorizedI(3) view_iterations other_iterations(2) [OF assms(2) iteration_deleted(2), of s "\<lambda>x. x"]
    by (cases "itr_service_id it = s") auto
next
  case (started i r dr)
  then show ?thesis using authorizedI(2) view_started [OF assms(2,3) _ _ started(5)] by (cases "i = s") auto
next
  case (committed i it r pb v)
  then show ?thesis using authorizedI(3) view_committed [OF assms(2,3) committed(2,4) _ committed(6)] by (cases "itr_service_id it = s") auto
next
  case (described i it r desc)
  then show ?thesis
    using authorizedI(3) view_iterations other_iterations(1) [OF assms(2) described(2), of s "\<lambda>it. it\<lparr>itr_description := desc\<rparr>"]
    by (cases "itr_service_id it = s") auto
next
  case (category_added i r name desc)
  then show ?thesis using authorizedI(2) by (cases "i = s") (auto simp: service_view_def insert_row_def)
next
  case (category_deleted c ct r)
  then show ?thesis using authorizedI(2) view_category_deleted [OF assms(2) category_deleted(2)] by (cases "ctr_service_id ct = s") auto
next
  case (category_changed c ct r n desc)
  then show ?thesis using authorizedI(1) view_category_changed [OF assms(2) category_changed(2)] by (cases "ctr_service_id ct = s") auto
next
  case (moved i a r c)
  then show ?thesis using authorizedI(2) view_moved [OF assms(2) moved(2)] by (cases "apr_parent a = s") auto
next
  case (added i it r f c n dr)
  then show ?thesis
    using view_drafts [OF assms(2) added(2), of s dr] keeps_added(3) [OF assms(2) added(2) creator_known [OF assms(2) added(2,4,5)] added(8,6,7)]
      authorizedI(3) [OF added(2,4,5)] by (cases "itr_service_id it = s") auto
next
  case (copied i it r d a n dr)
  then show ?thesis
    using view_drafts [OF assms(2) copied(2), of s] keeps_copied(3) [OF assms(2,3) creator_known [OF assms(2) copied(2,4,5)] copied(6,8) refl]
      authorizedI(3) [OF copied(2,4,5)] by (cases "itr_service_id it = s") auto
next
  case (deleted i it r d a)
  then show ?thesis
    using view_drafts [OF assms(2) deleted(2), of s] keeps_deleted(2) [OF assms(2) deleted(6)]
      authorizedI(3) [OF deleted(2,4,5)] by (cases "itr_service_id it = s") auto
next
  case (rewritten i it r d a name me path desc level rq rs dr)
  then show ?thesis
    using view_drafts [OF assms(2) rewritten(2), of s dr] keeps_rewritten(3) [OF assms(2) rewritten(6,8)]
      authorizedI(3) [OF rewritten(2,4,5)] by (cases "itr_service_id it = s") auto
qed


section \<open>What was committed stays\<close>

text \<open>
  A committed iteration keeps its row and, up to categories, its contents; it can only be deleted when it has no APIs.
\<close>

definition kept :: "database \<Rightarrow> database \<Rightarrow> int \<Rightarrow> bool" where
  "kept db db' i \<longleftrightarrow>
     (iteration_of db' i = iteration_of db i \<and>
      image_mset without_category (contents (db_drafts db') i) = image_mset without_category (contents (db_drafts db) i)) \<or>
     (iteration_of db' i = None \<and> contents (db_drafts db) i = {#})"

lemma kept_drafts:
  assumes "iteration_of db j = Some it'" "\<not> itr_is_committed it'" "iteration_of db i = Some it" "itr_is_committed it"
    and "\<And>k. k \<noteq> j \<Longrightarrow> contents dr k = contents (db_drafts db) k"
  shows "kept db (db\<lparr>db_drafts := dr\<rparr>) i"
proof -
  have "i \<noteq> j" using assms(1-4) by auto
  then show ?thesis by (simp add: kept_def assms(5))
qed

lemma effect_kept:
  assumes "effect D uid db db'" "db_ok db" "any_order D" "iteration_of db i = Some it" "itr_is_committed it"
  shows "kept db db' i"
  using assms(1)
proof (cases rule: effect.cases)
  case (registered name password nickname email role r)
  then show ?thesis by (auto simp: userRegister_def kept_def split: if_splits)
next
  case (password_changed old new r)
  then show ?thesis by (auto simp: userModifyPassword_def kept_def split: if_splits option.splits)
next
  case (iteration_deleted j jt r)
  then show ?thesis
    by (cases "j = i") (auto simp: kept_def get_row_def delete_rows_def find_None_iff contents_def intro: find_filter)
next
  case (started j r dr)
  let ?f = "\<lambda>n. \<lparr>itr_id = n, itr_service_id = j, itr_creator_id = uid, itr_version = None, itr_description = None, itr_is_committed = False\<rparr>"
  have "i < tb_seq (db_iterations db)" using get_row_SomeD [OF assms(4)] db_okD(3) [OF assms(2)] by (auto simp: iterations_ok_def table_ok_def)
  moreover have "table_ok itr_id (snd (insert_row ?f (db_iterations db)))" using db_okD(3) [OF assms(2)] by (simp add: iterations_ok_def table_ok_insert)
  then have "iteration_of db' i = Some it" using get_row_SomeD [OF assms(4)] get_row_Some [of itr_id _ it] by (auto simp: started(1) insert_row_def)
  ultimately show ?thesis using started_contents(1) [OF assms(2,3) started(5)] assms(4) by (auto simp: kept_def started(1))
next
  case (committed j jt r pb v)
  then show ?thesis using assms(4,5) by (auto simp: kept_def get_row_update)
next
  case (described j jt r desc)
  then show ?thesis using assms(4,5) by (auto simp: kept_def get_row_update)
next
  case (category_deleted c ct r)
  then show ?thesis using categorized [OF db_okD(6) [OF assms(2)]] by (simp add: kept_def)
next
  case (added j jt r f c n dr)
  then show ?thesis
    using kept_drafts [OF added(2,3) assms(4,5)] keeps_added(3) [OF assms(2) added(2) creator_known [OF assms(2) added(2,4,5)] added(8,6,7)] by simp
next
  case (copied j jt r d a n dr)
  then show ?thesis
    using kept_drafts [OF copied(2,3) assms(4,5)] keeps_copied(3) [OF assms(2,3) creator_known [OF assms(2) copied(2,4,5)] copied(6,8) refl] by simp
next
  case (deleted j jt r d a)
  then show ?thesis using kept_drafts [OF deleted(2,3) assms(4,5)] keeps_deleted(2) [OF assms(2) deleted(6)] by simp
next
  case (rewritten j jt r d a name me path desc level rq rs dr)
  then show ?thesis using kept_drafts [OF rewritten(2,3) assms(4,5)] keeps_rewritten(3) [OF assms(2) rewritten(6,8)] by simp
qed (simp_all add: kept_def)


text \<open>The number of an iteration that was deleted is not used again.\<close>

lemma effect_gone:
  assumes "effect D uid db db'" "iteration_of db i = None" "i < tb_seq (db_iterations db)"
  shows "iteration_of db' i = None \<and> i < tb_seq (db_iterations db')"
  using assms(1)
proof (cases rule: effect.cases)
  case (registered name password nickname email role r)
  then show ?thesis using assms(2,3) by (auto simp: userRegister_def split: if_splits)
next
  case (password_changed old new r)
  then show ?thesis using assms(2,3) by (auto simp: userModifyPassword_def split: if_splits option.splits)
next
  case (started j r dr)
  then show ?thesis using assms(2,3) by (auto simp: get_row_None insert_row_def)
next
  case (iteration_deleted j jt r)
  then show ?thesis using assms(2,3) by (auto simp: get_row_None delete_rows_def)
next
  case (committed j jt r pb v)
  then show ?thesis using assms(2,3) by (auto simp: get_row_update) (simp add: update_row_def)
next
  case (described j jt r desc)
  then show ?thesis using assms(2,3) by (auto simp: get_row_update) (simp add: update_row_def)
qed (use assms(2,3) in simp_all)

lemma effect_seq: "effect D uid db db' \<Longrightarrow> tb_seq (db_iterations db) \<le> tb_seq (db_iterations db')"
  by (erule effect.cases)
    (auto simp: userRegister_def userModifyPassword_def insert_row_def delete_rows_def update_row_def split: if_splits option.splits)

inductive continues :: "database \<Rightarrow> database \<Rightarrow> bool" for db where
  now: "continues db db"
| later: "continues db db' \<Longrightarrow> any_order D \<Longrightarrow> continues db (handle D uid e db')"
| relevelled: "continues db db' \<Longrightarrow> continues db (set_level i l db')"

lemma kept_trans:
  assumes "kept db db' i" "iteration_of db' i \<noteq> None" "kept db' db'' i"
  shows "kept db db'' i"
  using assms by (auto simp: kept_def)

lemma continues_kept:
  assumes "continues db db'" "db_ok db" "iteration_of db i = Some it" "itr_is_committed it"
  shows "db_ok db' \<and> i < tb_seq (db_iterations db') \<and> kept db db' i"
  using assms(1)
proof induction
  case now
  then show ?case
    using assms(2) get_row_SomeD [OF assms(3)] db_okD(3) [OF assms(2)] by (auto simp: kept_def iterations_ok_def table_ok_def)
next
  case (later db' D uid e)
  let ?db = "handle D uid e db'"
  have ok: "db_ok ?db" using handle_keeps later by blast
  have "effect D uid db' ?db \<or> ?db = db'" using handle_effect by blast
  then consider "?db = db'" | it' where "effect D uid db' ?db" "iteration_of db' i = Some it'" | "effect D uid db' ?db" "iteration_of db' i = None" by blast
  then show ?case
  proof cases
    case 1
    then show ?thesis using later by simp
  next
    case (2 it')
    then have "itr_is_committed it'" using later assms(3,4) by (auto simp: kept_def)
    then have "kept db' ?db i" using effect_kept [OF 2(1) _ later(2) 2(2)] later by blast
    moreover have "i < tb_seq (db_iterations ?db)"
      using effect_seq [OF 2(1)] later by linarith
    ultimately show ?thesis using kept_trans [of db db' i ?db] later 2(2) ok by simp
  next
    case 3
    then show ?thesis using effect_gone [OF 3] later ok assms(3) by (auto simp: kept_def)
  qed
next
  case (relevelled db' j l)
  then show ?case using level_keeps [of db' j l] by (simp add: kept_def set_level_def)
qed

end
