(* ===== verification/Be_Promises.thy ===== *)
theory Be_Promises
  imports Be_Server
begin

text \<open>
  The promises of the back end as theorems about its handlers, with witnesses: runs, authority, history, saving and
  reading an API, and an iteration from start to commit.
\<close>

section \<open>An environment and a run\<close>

definition demo_server :: server_env where
  "demo_server = \<lparr>params_in_order = (\<lambda>xs. xs), apis_in_order = rev, native_enums = True, smtp_configured = False, clock = 100,
     hashpw = (\<lambda>p. p), checkpw = (=), jwt_encode = (\<lambda>i n e. n), jwt_decode = (\<lambda>now t. None)\<rparr>"

lemma demo_order: "any_order demo_server"
  by (simp add: any_order_def demo_server_def)

definition demo_events :: "event list" where
  "demo_events = [Register ''ann'' ''pw'' ''Ann'' ''a@b'' ''qa'', CreateService ''x/y'' ''demo'', StartIteration 1,
     AddApi 1 ''list'' ''GET'' ''/l'' ''d'' ''P1'' None]"

definition demo_run :: database where
  "demo_run = fold (handle demo_server 1) demo_events empty_database"

lemma demo_served: "served demo_run"
proof -
  have "served (fold (handle demo_server 1) es db)" if "served db" for es db
    using that by (induction es arbitrary: db) (auto intro: served.request demo_order)
  then show ?thesis by (simp add: demo_run_def served.empty)
qed

lemma demo_run_values:
  "iteration_of demo_run 1 = Some \<lparr>itr_id = 1, itr_service_id = 1, itr_creator_id = 1, itr_version = None, itr_description = None, itr_is_committed = False\<rparr>"
  "service_of demo_run 1 \<noteq> None" "map_option apr_parent (draft_api demo_run 1) = Some 1"
  by code_simp+


section \<open>Runs\<close>

text \<open>
  C5: In every run of the back end, whatever requests are made by whom and in whatever order the database returns rows, the
  database stays well-formed: keys are unique, every reference leads to a row, an API has a category of its own service,
  the parameters of every API are a forest, maintainers are users other than the owner, nobody has two open iterations
  of one service, and an iteration has a version exactly when it is committed.
\<close>

theorem runs_stay_ok:
  assumes "served db"
  shows "db_ok db"
  using assms by (rule run_keeps_database)

theorem runs_stay_ok_witness: "db_ok demo_run"
  by (rule runs_stay_ok [OF demo_served])

text \<open>
  C8: Only those who are authorized change a service: if a request changes its row, an iteration, a category, the published
  contents or those of one of its iterations, the user is the owner, a maintainer, an administrator or the creator
  of one of its iterations.
\<close>

theorem changes_authorized:
  assumes "served db" "any_order D" "service_of db s \<noteq> None" "service_view (handle D uid e db) s \<noteq> service_view db s"
  shows "authorized db uid s"
proof -
  have "handle D uid e db \<noteq> db" using assms(4) by auto
  then show ?thesis using effect_authorized [OF handle_effect run_keeps_database [OF assms(1)] assms(2,3)] assms(4) by blast
qed

theorem changes_authorized_witness: "authorized demo_run 1 1"
proof (rule changes_authorized [OF demo_served demo_order demo_run_values(2)])
  show "service_view (handle demo_server 1 (DeleteService 1) demo_run) 1 \<noteq> service_view demo_run 1"
  proof -
    have "map_option srv_is_deleted (service_of (handle demo_server 1 (DeleteService 1) demo_run) 1) \<noteq> map_option srv_is_deleted (service_of demo_run 1)"
      by code_simp
    then show ?thesis by (auto simp: service_view_def)
  qed
qed

text \<open>
  C7: What was committed stays: whatever is requested later, a committed iteration keeps its version, its description and,
  up to categories, its APIs with their parameters; only one without APIs can be deleted.
\<close>

theorem committed_stays:
  assumes "served db" "iteration_of db i = Some it" "itr_is_committed it" "continues db db'"
  shows "iteration_of db' i = Some it \<and> image_mset without_category (contents (db_drafts db') i) = image_mset without_category (contents (db_drafts db) i) \<or>
    iteration_of db' i = None \<and> contents (db_drafts db) i = {#}"
  using continues_kept [OF assms(4) run_keeps_database [OF assms(1)] assms(2,3)] assms(2) by (auto simp: kept_def)

definition demo_committed :: database where
  "demo_committed = handle demo_server 1 (CommitIteration 1 ''1.0.0'') demo_run"

theorem committed_stays_witness:
  "iteration_of (handle demo_server 1 (DeleteIteration 1) demo_committed) 1 = iteration_of demo_committed 1"
proof -
  let ?db = "handle demo_server 1 (DeleteIteration 1) demo_committed"
  obtain it where it: "iteration_of demo_committed 1 = Some it" "itr_is_committed it"
  proof -
    have "map_option itr_is_committed (iteration_of demo_committed 1) = Some True" by code_simp
    then show ?thesis using that by auto
  qed
  have "served demo_committed" unfolding demo_committed_def by (rule served.request [OF demo_served demo_order])
  moreover have "continues demo_committed ?db" by (rule continues.later [OF continues.now demo_order])
  ultimately have "iteration_of ?db 1 = Some it \<and> image_mset without_category (contents (db_drafts ?db) 1) = image_mset without_category (contents (db_drafts demo_committed) 1) \<or>
      iteration_of ?db 1 = None \<and> contents (db_drafts demo_committed) 1 = {#}"
    using committed_stays [OF _ it] by blast
  moreover have "iteration_of ?db 1 \<noteq> None" by code_simp
  ultimately show ?thesis using it(1) by auto
qed

section \<open>Saving and reading\<close>

lemma check_error: "checkServiceIterationPermission db i uid = CheckError st msg \<Longrightarrow> st \<in> {-10, -20, -30}"
  by (auto simp: checkServiceIterationPermission_def split: option.splits if_splits verdict.splits)

lemma sum_by_key:
  assumes "distinct ks" "\<forall>d\<in>#M. \<exists>k\<in>set ks. f d = Some k"
  shows "sum_list (map (\<lambda>k. filter_mset (\<lambda>d. f d = Some k) M) ks) = M"
  using assms
proof (induction ks arbitrary: M)
  case (Cons k ks)
  let ?N = "filter_mset (\<lambda>d. f d \<noteq> Some k) M"
  have "sum_list (map (\<lambda>k'. filter_mset (\<lambda>d. f d = Some k') ?N) ks) = ?N" by (rule Cons.IH) (use Cons.prems in auto)
  moreover have "filter_mset (\<lambda>d. f d = Some k') ?N = filter_mset (\<lambda>d. f d = Some k') M" if "k' \<in> set ks" for k'
    using that Cons.prems(1) by (auto simp: filter_filter_mset intro!: filter_mset_cong)
  ultimately have "sum_list (map (\<lambda>k'. filter_mset (\<lambda>d. f d = Some k') M) ks) = ?N" by (simp cong: map_cong)
  then show ?case using multiset_partition [of M "\<lambda>d. f d = Some k"] by simp
qed simp

text \<open>The answer for an API, part by part.\<close>

lemma request_answer:
  assumes "params_ok A t" "any_order D" "(l, ts) \<in> set (organizeReqParams (params_in_order D (rows_for a t)))"
  shows "design_of ts = filter_mset (\<lambda>d. in_location (ds_info d) = Some l) (design_in t a)"
  using assms(3) rows_read [OF assms(1) any_orderD(1) [OF assms(2)], where Q = "\<lambda>i. in_location i = Some l"]
  by (auto simp: organizeReqParams_def row_info_def)

lemma response_answer:
  assumes "params_ok A t" "any_order D" "(c, ts) \<in> set (organizeRespParams (params_in_order D (rows_for a t)))"
  shows "design_of ts = filter_mset (\<lambda>d. in_status (ds_info d) = Some c) (design_in t a)"
  using assms(3) rows_read [OF assms(1) any_orderD(1) [OF assms(2)], where Q = "\<lambda>i. in_status i = Some c"]
  by (auto simp: organizeRespParams_def row_info_def)


lemma roots_design: "x \<in># design_of (roots_where P R) \<Longrightarrow> \<exists>p\<in>set R. is_root p \<and> P p \<and> ds_info x = row_info p"
proof -
  assume "x \<in># design_of (roots_where P R)"
  then obtain p where "p \<in> set R" "is_root p" "P p" "x = design_tree (subtree (length R) R p)" by (auto simp: design_of_def roots_where_def)
  moreover have "pt_row (subtree n R p) = p" for n by (cases n) auto
  ultimately show ?thesis using ds_info_tree by metis
qed

definition status_keys :: "be_row list \<Rightarrow> int list" where
  "status_keys R = rev (remdups (rev (List.map_filter pr_status (filter is_root R))))"

lemma set_status_keys: "set (status_keys R) = {c. \<exists>p\<in>set R. is_root p \<and> pr_status p = Some c}"
  by (auto simp: status_keys_def set_map_filter)

text \<open>All the answers together are the design, each under its own key.\<close>

lemma request_complete:
  assumes "params_ok A t" "any_order D" "\<forall>x\<in>#design_in t a. \<exists>l\<in>set ParamLocations. in_location (ds_info x) = Some l"
  shows "sum_list (map (\<lambda>(l, ts). design_of ts) (organizeReqParams (params_in_order D (rows_for a t)))) = design_in t a"
proof -
  let ?R = "params_in_order D (rows_for a t)"
  have e: "map (\<lambda>(l, ts). design_of ts) (organizeReqParams ?R) = map (\<lambda>l. design_of (roots_where (\<lambda>p. pr_location p = Some l) ?R)) ParamLocations"
    by (simp add: organizeReqParams_def ParamLocations_def)
  have "design_of (roots_where (\<lambda>p. pr_location p = Some l) ?R) = filter_mset (\<lambda>x. in_location (ds_info x) = Some l) (design_in t a)" for l
    by (rule rows_read [OF assms(1) any_orderD(1) [OF assms(2)]]) (simp add: row_info_def)
  then show ?thesis unfolding e by simp (rule sum_by_key [OF _ assms(3)], simp add: ParamLocations_def)
qed

lemma response_complete:
  assumes "params_ok A t" "any_order D" "\<forall>x\<in>#design_in t a. in_status (ds_info x) \<noteq> None"
  shows "sum_list (map (\<lambda>(c, ts). design_of ts) (organizeRespParams (params_in_order D (rows_for a t)))) = design_in t a"
proof -
  let ?R = "params_in_order D (rows_for a t)"
  have r: "design_of (roots_where P ?R) = filter_mset (\<lambda>x. Q (ds_info x)) (design_in t a)" if "\<And>p. P p = Q (row_info p)" for P Q
    using rows_read [OF assms(1) any_orderD(1) [OF assms(2)], where P = P and Q = Q] that by blast
  have e: "map (\<lambda>(c, ts). design_of ts) (organizeRespParams ?R) = map (\<lambda>c. filter_mset (\<lambda>x. in_status (ds_info x) = Some c) (design_in t a)) (status_keys ?R)"
    using r [where Q = "\<lambda>i. in_status i = Some _"] by (simp add: organizeRespParams_def status_keys_def row_info_def)
  have "\<exists>c\<in>set (status_keys ?R). in_status (ds_info x) = Some c" if x: "x \<in># design_in t a" for x
  proof -
    have "x \<in># design_of (roots_where (\<lambda>_. True) ?R)" using r [of "\<lambda>_. True" "\<lambda>_. True"] x by simp
    then obtain p where "p \<in> set ?R" "is_root p" "ds_info x = row_info p" using roots_design by blast
    moreover obtain c where "in_status (ds_info x) = Some c" using assms(3) x by auto
    ultimately show ?thesis unfolding set_status_keys by (auto simp: row_info_def)
  qed
  then show ?thesis unfolding e by (intro sum_by_key) (auto simp: status_keys_def)
qed

lemma input_locations: "x \<in># input_design RequestKind ploc ps \<Longrightarrow> \<exists>l\<in>set ParamLocations. in_location (ds_info x) = Some l"
proof (induction RequestKind ploc ps rule: input_design.induct)
  case (2 ploc nm ty loc st rq df de ex act ch ps)
  have "location_enum l \<in> set ParamLocations" for l by (simp add: location_enum_def ParamLocations_def)
  then show ?case using 2 by (auto simp: row_info_def param_record_def)
qed simp

lemma input_statuses: "x \<in># input_design ResponseKind ploc ps \<Longrightarrow> in_status (ds_info x) \<noteq> None"
  by (induction ResponseKind ploc ps rule: input_design.induct) (auto simp: row_info_def param_record_def)

text \<open>The answer for an API that holds given designs.\<close>

definition shows_design :: "api_answer \<Rightarrow> design multiset \<Rightarrow> design multiset \<Rightarrow> bool" where
  "shows_design ans X Y \<longleftrightarrow>
     sum_list (map (\<lambda>(l, ts). design_of ts) (aa_request_params_by_location ans)) = X \<and>
     sum_list (map (\<lambda>(c, ts). design_of ts) (aa_response_params_by_status_code ans)) = Y \<and>
     map fst (aa_request_params_by_location ans) = [''query'', ''path'', ''header'', ''cookie'', ''body''] \<and>
     (\<forall>(l, ts)\<in>set (aa_request_params_by_location ans). design_of ts = filter_mset (\<lambda>x. in_location (ds_info x) = Some l) X) \<and>
     (\<forall>(c, ts)\<in>set (aa_response_params_by_status_code ans). design_of ts = filter_mset (\<lambda>x. in_status (ds_info x) = Some c) Y)"

lemma answer_shows:
  assumes "side_ok sd" "any_order D" "\<forall>x\<in>#design_in (sd_req sd) (apr_id a). \<exists>l\<in>set ParamLocations. in_location (ds_info x) = Some l"
    and "\<forall>x\<in>#design_in (sd_resp sd) (apr_id a). in_status (ds_info x) \<noteq> None"
  shows "shows_design (api_answer_of D sd a) (design_in (sd_req sd) (apr_id a)) (design_in (sd_resp sd) (apr_id a))"
proof -
  have ok: "params_ok (api_ids sd) (sd_req sd)" "params_ok (api_ids sd) (sd_resp sd)" using assms(1) by (simp_all add: side_ok_def)
  have "map fst (organizeReqParams R) = [''query'', ''path'', ''header'', ''cookie'', ''body'']" for R by (simp add: organizeReqParams_def)
  then show ?thesis
    using request_complete [OF ok(1) assms(2,3)] response_complete [OF ok(2) assms(2,4)]
      request_answer [OF ok(1) assms(2)] response_answer [OF ok(2) assms(2)]
    unfolding shows_design_def api_answer_of_def by fastforce
qed


lemma updated_answer:
  assumes "db_ok db" "any_order D" "apiUpdateApiByApiDraftId i d uid name method path desc level rq rs db = (Reply 200 m b, db')"
  shows "\<exists>a ans. draft_api db d = Some a \<and> apr_parent a = i \<and> apiGetApiById D d uid False db' = Reply 200 ''Get api success'' (Some ans) \<and>
    aa_api ans = updated_row name method path desc level a \<and>
    shows_design ans (input_design RequestKind None rq) (input_design ResponseKind None rs)"
proof -
  let ?f = "updated_row name method path desc level"
  obtain it s a dr where c: "checkServiceIterationPermission db i uid = CheckOk it s" "draft_api db d = Some a" "apr_parent a = i"
    and r: "rewrite_api d ?f rq rs (db_drafts db) = Some dr" and db': "db' = db\<lparr>db_drafts := dr\<rparr>"
    using assms(3)
    by (auto simp: apiUpdateApiByApiDraftId_def checked_def draft_in_def dest: check_error split: iteration_check.splits option.splits if_splits)
  have it: "iteration_of db i = Some it" "service_of db (itr_service_id it) = Some s" "iterates db uid it s"
    using c(1) by (auto simp: check_ok_iff iterates_def)
  obtain u where u: "user_of db uid = Some u" using creator_known [OF assms(1) it] user_of_ids [of db uid] by auto
  have dr: "sd_api dr = update_row apr_id d ?f (sd_api (db_drafts db))" "sd_req dr = process_params RequestKind d None None rq (clear_params d (sd_req (db_drafts db)))"
    "sd_resp dr = process_params ResponseKind d None None rs (clear_params d (sd_resp (db_drafts db)))"
    using r by (auto simp: rewrite_api_def Let_def split: if_splits)
  have a': "draft_api db' d = Some (?f a)" using c(2) by (simp add: db' dr(1) get_row_update updated_row_def)
  have id: "apr_id (?f a) = d" "d \<in> api_ids (db_drafts db)" using get_row_SomeD [OF c(2)] by (auto simp: updated_row_def)
  have "params_ok (api_ids (db_drafts db)) (sd_req (db_drafts db))" "params_ok (api_ids (db_drafts db)) (sd_resp (db_drafts db))"
    using db_okD(6) [OF assms(1)] by (simp_all add: side_ok_def)
  then have des: "design_in (sd_req dr) d = input_design RequestKind None rq" "design_in (sd_resp dr) d = input_design ResponseKind None rs"
    using remade(2) [OF _ id(2)] unfolding dr by blast+
  have "side_ok dr" using db_okD(6) [OF keeps_rewritten(1) [OF assms(1) c(2) r]] by simp
  then have "shows_design (api_answer_of D dr (?f a)) (input_design RequestKind None rq) (input_design ResponseKind None rs)"
    using answer_shows [of dr D "?f a"] assms(2) input_locations input_statuses unfolding id(1) des by blast
  moreover have "apiGetApiById D d uid False db' = Reply 200 ''Get api success'' (Some (api_answer_of D dr (?f a)))"
    using a' u it c(3) by (auto simp: apiGetApiById_def db' iterates_def is_admin_def updated_row_def)
  moreover have "aa_api (api_answer_of D dr (?f a)) = ?f a" by (simp add: api_answer_of_def)
  ultimately show ?thesis using c by blast
qed

text \<open>
  C10: What is saved is read: after an accepted update of a draft, its reader gets the name, method, path, description
  and level that were sent, and, in whatever order the database returns rows, exactly the trees of parameters that
  were sent, at every depth and each under its location or status code, up to the order of siblings.
\<close>

theorem saved_then_read:
  assumes "served db" "any_order D" "apiUpdateApiByApiDraftId i d uid name method path desc level rq rs db = (Reply 200 m b, db')"
  shows "\<exists>ans. apiGetApiById D d uid False db' = Reply 200 ''Get api success'' (Some ans) \<and>
    apr_name (aa_api ans) = name \<and> apr_method (aa_api ans) = method_enum method \<and> apr_path (aa_api ans) = path \<and>
    apr_description (aa_api ans) = desc \<and> apr_level (aa_api ans) = level_enum level \<and>
    shows_design ans (input_design RequestKind None rq) (input_design ResponseKind None rs)"
  using updated_answer [OF run_keeps_database [OF assms(1)] assms(2,3)] by (auto simp: updated_row_def)


definition demo_tree :: "be_param list" where
  "demo_tree = [BeParam ''user'' ''object'' (Some ''body'') None True None None None None
       (Some [BeParam ''id'' ''int'' None None True None None None None None, BeParam ''tags'' ''array'' None None False None None None (Some ''string'') None]),
     BeParam ''q'' ''string'' (Some ''query'') None False (Some ''x'') None None None None]"

definition demo_saved :: "unit be_reply \<times> database" where
  "demo_saved = apiUpdateApiByApiDraftId 1 1 1 ''find'' ''POST'' ''/f'' (Some ''d'') ''P0'' demo_tree [] demo_run"

theorem saved_then_read_witness:
  "\<exists>ans. apiGetApiById demo_server 1 1 False (snd demo_saved) = Reply 200 ''Get api success'' (Some ans) \<and> apr_name (aa_api ans) = ''find'' \<and>
    shows_design ans (input_design RequestKind None demo_tree) {#}"
proof -
  have "fst demo_saved = Reply 200 ''Update api success'' None" by code_simp
  then have "demo_saved = (Reply 200 ''Update api success'' None, snd demo_saved)" by (simp add: prod_eq_iff)
  then show ?thesis using saved_then_read [OF demo_served demo_order] unfolding demo_saved_def [symmetric] by (fastforce simp: demo_saved_def)
qed

section \<open>From start to commit\<close>

lemma start_result:
  assumes "serviceStartIteration D i uid db = (Reply 200 m b, db')"
  shows "\<exists>s dr. service_of db i = Some s \<and> joins db uid s \<and> b = Some (tb_seq (db_iterations db)) \<and>
    copy_apis D (db_published db) (tb_seq (db_iterations db)) (apis_in_order D (apis_for i (db_published db))) (db_drafts db) = Some dr \<and>
    db' = db\<lparr>db_iterations := snd (insert_row (\<lambda>n. \<lparr>itr_id = n, itr_service_id = i, itr_creator_id = uid, itr_version = None,
      itr_description = None, itr_is_committed = False\<rparr>) (db_iterations db)), db_drafts := dr\<rparr>"
  using assms permitted_iff [of "srv_owner_id _ = uid \<or> maintains db uid _" db uid]
  by (auto simp: serviceStartIteration_def guarded_def as_member_def joins_def insert_row_def split: option.splits verdict.splits)

text \<open>
  C11: An iteration that is committed as it was started publishes the APIs it started from, for every service at once: the
  commit is accepted or fails only in sending the mail, and every API has the same row up to ids and the same
  parameters.  The description of the service is lost, because it is replaced by that of the iteration, which starts
  without one.
\<close>

theorem start_commit_same:
  assumes "served db" "any_order D" "any_order E" "serviceStartIteration D i uid db = (Reply 200 m (Some n), db1)"
    and "service_of db i = Some s" "v \<noteq> srv_version s" "serviceCommitIteration E n v uid db1 = (r, db2)"
  shows "contents (db_published db2) = contents (db_published db) \<and>
    service_of db2 i = Some (s\<lparr>srv_version := v, srv_description := None\<rparr>) \<and>
    (r = Reply 200 ''Commit service iteration success'' (Some (i, n, v)) \<or> r = Raised \<and> smtp_configured E)"
proof -
  let ?f = "\<lambda>n. \<lparr>itr_id = n, itr_service_id = i, itr_creator_id = uid, itr_version = None, itr_description = None, itr_is_committed = False\<rparr>"
  have ok: "db_ok db" by (rule run_keeps_database [OF assms(1)])
  obtain dr where st: "joins db uid s" "n = tb_seq (db_iterations db)"
    and c: "copy_apis D (db_published db) n (apis_in_order D (apis_for i (db_published db))) (db_drafts db) = Some dr"
    and db1: "db1 = db\<lparr>db_iterations := snd (insert_row ?f (db_iterations db)), db_drafts := dr\<rparr>"
    using start_result [OF assms(4)] assms(5) by auto
  have "handle D uid (StartIteration i) db = db1" using assms(4) by simp
  then have ok1: "db_ok db1" using handle_keeps [OF ok assms(2)] by metis
  have it: "iteration_of db1 n = Some (?f n)"
    using get_row_Some [of itr_id "db_iterations db1" "?f n"] db_okD(3) [OF ok1] by (simp add: db1 iterations_ok_def insert_row_def st(2))
  have s1: "service_of db1 i = Some s" "srv_id s = i" using assms(5) service_known [OF assms(5)] by (auto simp: db1)
  have chk: "checkServiceIterationPermission db1 n uid = CheckOk (?f n) s" using it s1 by (simp add: check_ok_iff)
  have empty: "apis_for i (delete_apis i (db_published db1)) = []"
    using delete_apis_spec(3) [OF db_okD(5) [OF ok1]] by (simp add: apis_for_def filter_empty_conv)
  obtain pb where pb: "copy_apis E (db_drafts db1) i (apis_in_order E (apis_for n (db_drafts db1))) (delete_apis i (db_published db1)) = Some pb"
    using copied_side [OF db_okD(6) [OF ok1] delete_apis_spec(1) [OF db_okD(5) [OF ok1]] assms(3) empty, of n] by blast
  have "contents pb = (contents (db_published db1))(i := contents (db_drafts db1) n)" by (rule committed_contents [OF ok1 assms(3) pb])
  moreover have "contents (db_drafts db1) n = contents (db_published db) i"
    using started_contents(1) [OF ok assms(2) c [unfolded st(2)]] by (simp add: db1 st(2))
  ultimately have same: "contents pb = contents (db_published db)" by (simp add: db1 fun_upd_idem)
  obtain u where u: "user_of db1 (srv_owner_id s) = Some u"
    using db_okD(2) [OF ok1] get_row_SomeD [OF s1(1)] user_of_ids [of db1] by (fastforce simp: services_ok_def)
  have "user_of db1 uid \<noteq> None"
    using db_okD(3) [OF ok1] get_row_SomeD [OF it] user_of_ids [of db1] by (fastforce simp: iterations_ok_def)
  then show ?thesis
    using assms(6,7) chk pb u s1 same by (auto simp: serviceCommitIteration_def Let_def get_row_update split: if_splits)
qed


lemma demo_committed_served: "served demo_committed"
  unfolding demo_committed_def by (rule served.request [OF demo_served demo_order])

theorem start_commit_same_witness:
  "contents (db_published (snd (serviceCommitIteration demo_server 2 ''2.0.0'' 1 (snd (serviceStartIteration demo_server 1 1 demo_committed))))) =
   contents (db_published demo_committed)"
proof -
  let ?st = "serviceStartIteration demo_server 1 1 demo_committed"
  let ?cm = "serviceCommitIteration demo_server 2 ''2.0.0'' 1 (snd ?st)"
  have "fst ?st = Reply 200 ''Start service iteration success'' (Some 2)" by code_simp
  then have 1: "?st = (Reply 200 ''Start service iteration success'' (Some 2), snd ?st)" by (simp add: prod_eq_iff)
  obtain s where s: "service_of demo_committed 1 = Some s" "srv_version s = ''1.0.0''"
  proof -
    have "map_option srv_version (service_of demo_committed 1) = Some ''1.0.0''" by code_simp
    then show ?thesis using that by auto
  qed
  have 2: "?cm = (fst ?cm, snd ?cm)" by simp
  show ?thesis using start_commit_same [OF demo_committed_served demo_order demo_order 1 s(1) _ 2] s(2) by simp
qed

end
