(* ===== verification/Be_Front.thy ===== *)
theory Be_Front
  imports Be_Promises Fe_Response_Tabs Fe_Header Generator
begin

text \<open>
  The programs together: a draft saved in the editor is read back as it was edited, the maintainers the page shows are
  those the server keeps, and the code generator accepts every API the server delivers.
\<close>

section \<open>From the editor to the server and back\<close>

text \<open>The payload as the router decodes it from JSON.\<close>

fun be_of_req :: "ApiReqParamInput \<Rightarrow> be_param" where
  "be_of_req (ReqInput nm ty l rq df de ex act ch) = BeParam nm ty (Some l) None rq df de ex act (map_option (map be_of_req) ch)"

fun be_of_resp :: "ApiRespParamInput \<Rightarrow> be_param" where
  "be_of_resp (RespInput nm ty st rq de ex act ch) = BeParam nm ty None st rq None de ex act (map_option (map be_of_resp) ch)"

text \<open>A status code that is no number is sent as \<open>null\<close>; the column does not take it.\<close>

fun null_status :: "ApiRespParamInput \<Rightarrow> bool" where
  "null_status (RespInput nm ty st rq de ex act ch) \<longleftrightarrow>
     st = None \<or> (nested ty act \<and> (case ch of None \<Rightarrow> False | Some cs \<Rightarrow> list_ex null_status cs))"

text \<open>
  The route \<open>/v1/api/updateApiByApiDraftId\<close>.  The editor leaves out a description that was not entered, and
  \<open>data["description"]\<close> is then a \<open>KeyError\<close>.
\<close>

definition updateApiByApiDraftId :: "int \<Rightarrow> int \<Rightarrow> update_request \<Rightarrow> database \<Rightarrow> unit be_reply \<times> database" where
  "updateApiByApiDraftId i uid u db =
     (case up_description u of
        None \<Rightarrow> (Raised, db)
      | Some description \<Rightarrow>
          (case apiUpdateApiByApiDraftId i (up_api_draft_id u) uid (up_name u) (method_str (up_method u)) (up_path u) (Some description)
             (level_str (up_level u)) (map be_of_req (up_req_params u)) (map be_of_resp (up_resp_params u)) db of
             (r, db') \<Rightarrow> if (case r of Reply st _ _ \<Rightarrow> st = 200 | _ \<Rightarrow> False) \<and> list_ex null_status (up_resp_params u) then (Raised, db) else (r, db')))"

lemma route_accepted:
  "updateApiByApiDraftId i uid u db = (Reply 200 m b, db') \<Longrightarrow>
   apiUpdateApiByApiDraftId i (up_api_draft_id u) uid (up_name u) (method_str (up_method u)) (up_path u) (up_description u)
     (level_str (up_level u)) (map be_of_req (up_req_params u)) (map be_of_resp (up_resp_params u)) db = (Reply 200 m b, db')"
  by (auto simp: updateApiByApiDraftId_def split: option.splits prod.splits if_splits)

text \<open>What a row of the editor stands for.\<close>

fun item_design :: "string option \<Rightarrow> int option \<Rightarrow> ParamItem \<Rightarrow> design" where
  "item_design l c (ParamItem i nm ty rq de df ex act ch chp) =
     Design \<lparr>in_name = nm, in_location = l, in_status = c, in_type = type_enum ty, in_required = rq,
        in_default = (if l = None then None else or_null df), in_description = de, in_example = ex, in_act = child_type_enum act\<rparr>
       (if ty = ''object'' \<or> (ty = ''array'' \<and> act = Some ''object'')
        then (case ch of Some cs \<Rightarrow> mset (map (item_design l c) cs) | None \<Rightarrow> (case chp of Some cs \<Rightarrow> mset (map (item_design l c) cs) | None \<Rightarrow> {#}))
        else {#})"

lemma nested_iff: "nested ty act \<longleftrightarrow> ty = ''object'' \<or> (ty = ''array'' \<and> act = Some ''object'')"
  by (auto simp: nested_def type_enum_def child_type_enum_def ParamTypes_def split: option.splits if_splits)

declare item_design.simps [simp del]

lemma item_design_nested [simp]:
  "item_design l c (ParamItem i nm ty rq de df ex act ch chp) =
     Design \<lparr>in_name = nm, in_location = l, in_status = c, in_type = type_enum ty, in_required = rq,
        in_default = (if l = None then None else or_null df), in_description = de, in_example = ex, in_act = child_type_enum act\<rparr>
       (if nested ty act
        then (case ch of Some cs \<Rightarrow> mset (map (item_design l c) cs) | None \<Rightarrow> (case chp of Some cs \<Rightarrow> mset (map (item_design l c) cs) | None \<Rightarrow> {#}))
        else {#})"
  by (simp only: item_design.simps nested_iff)

lemma or_null_act: "child_type_enum (or_null act) = child_type_enum act" "nested ty (or_null act) = nested ty act"
proof -
  show "child_type_enum (or_null act) = child_type_enum act"
    by (cases act) (auto simp: child_type_enum_def or_null_def truthy_str_def ParamTypes_def)
  then show "nested ty (or_null act) = nested ty act" by (simp add: nested_def)
qed

lemma input_design_Cons: "input_design kind p (x # xs) = input_design kind p [x] + input_design kind p xs"
  by (cases x) simp

lemma input_design_map:
  assumes "\<And>x. x \<in> set xs \<Longrightarrow> input_design kind p [f x] = {#g x#}"
  shows "input_design kind p (map f xs) = mset (map g xs)"
  using assms
proof (induction xs)
  case (Cons x xs)
  then show ?case using input_design_Cons [of kind p "f x" "map f xs"] by simp
qed simp

lemma input_design_append: "input_design kind p (xs @ ys) = input_design kind p xs + input_design kind p ys"
proof (induction xs)
  case (Cons x xs)
  then show ?case using input_design_Cons [of kind p x "xs @ ys"] input_design_Cons [of kind p x xs] by simp
qed simp

lemma req_item_design:
  assumes "l \<in> set ParamLocations" "p = None \<or> p = Some l"
  shows "input_design RequestKind p [be_of_req (req_item l x)] = {#item_design (Some l) None x#}"
  using assms(2)
proof (induction x arbitrary: p)
  case (ParamItem i nm ty rq de df ex act ch chp)
  have l: "l \<noteq> []" "location_enum l = l" using assms(1) by (auto simp: ParamLocations_def location_enum_def)
  then have pl: "param_location p (Some l) = l" using ParamItem.prems by (auto simp: param_location_def)
  have "input_design RequestKind (Some l) (map (\<lambda>x. be_of_req (req_item l x)) cs) = mset (map (item_design (Some l) None) cs)"
    if "or_array ch chp = Some cs" for cs
    by (rule input_design_map) (use ParamItem.IH that in \<open>auto simp: or_array_def split: option.splits\<close>)
  then show ?case
    using l pl or_null_act(1) [of act] or_null_act(2) [of ty act]
    by (cases ch; cases chp) (auto simp: or_array_def row_info_def param_record_def comp_def)
qed

lemma resp_item_design:
  "input_design ResponseKind p [be_of_resp (resp_item (Some c) x)] = {#item_design None (Some c) x#}"
proof (induction x arbitrary: p)
  case (ParamItem i nm ty rq de df ex act ch chp)
  have "input_design ResponseKind q (map (\<lambda>x. be_of_resp (resp_item (Some c) x)) cs) = mset (map (item_design None (Some c)) cs)"
    if "or_array ch chp = Some cs" for cs q
    by (rule input_design_map) (use ParamItem.IH that in \<open>auto simp: or_array_def split: option.splits\<close>)
  then show ?case
    using or_null_act(1) [of act] or_null_act(2) [of ty act]
    by (cases ch; cases chp) (auto simp: or_array_def row_info_def param_record_def comp_def)
qed

text \<open>The payload of a form is what its rows stand for, and a location or status code selects the rows of its tab.\<close>

lemma item_design_keys: "in_location (ds_info (item_design l c x)) = l" "in_status (ds_info (item_design l c x)) = c"
  by (cases x; simp)+

lemma request_payload_design:
  assumes "set (map fst d) \<subseteq> set ParamLocations"
  shows "input_design RequestKind None (map be_of_req (transformReqParamsToApiInput (Some d))) =
    sum_list (map (\<lambda>(l, items). mset (map (item_design (Some l) None) items)) d)"
  using assms
proof (induction d)
  case (Cons kv d)
  have "input_design RequestKind None (map (\<lambda>x. be_of_req (req_item (fst kv) x)) (snd kv)) = mset (map (item_design (Some (fst kv)) None) (snd kv))"
    by (rule input_design_map) (use Cons.prems req_item_design in auto)
  then show ?case using Cons
    by (cases kv) (simp add: transformReqParamsToApiInput_def processReqItems_def input_design_append comp_def)
qed (simp add: transformReqParamsToApiInput_def)

lemma response_payload_design:
  assumes "\<forall>k\<in>set (map fst d). canonical k"
  shows "input_design ResponseKind None (map be_of_resp (transformRespParamsToApiInput (Some d))) =
    sum_list (map (\<lambda>(k, items). mset (map (item_design None (Some (int (digits_val k)))) items)) d)"
  using assms
proof (induction d)
  case (Cons kv d)
  have "parseInt10 (fst kv) = Some (int (digits_val (fst kv)))" using Cons.prems canonical_parse by auto
  moreover have "input_design ResponseKind None (map (\<lambda>x. be_of_resp (resp_item (Some c) x)) (snd kv)) = mset (map (item_design None (Some c)) (snd kv))" for c
    by (rule input_design_map) (rule resp_item_design)
  ultimately show ?case using Cons
    by (cases kv) (simp add: transformRespParamsToApiInput_def processRespItems_def input_design_append comp_def)
qed (simp add: transformRespParamsToApiInput_def)

lemma sum_of_key:
  assumes "distinct (map fst d)" "\<And>k items. \<forall>x\<in>#g k items. f x = h k" "inj_on h (insert k0 (set (map fst d)))"
  shows "filter_mset (\<lambda>x. f x = h k0) (sum_list (map (\<lambda>(k, items). g k items) d)) = (case map_of d k0 of None \<Rightarrow> {#} | Some items \<Rightarrow> g k0 items)"
  using assms(1,3)
proof (induction d)
  case (Cons kv d)
  obtain k items where kv: "kv = (k, items)" by force
  have "filter_mset (\<lambda>x. f x = h k0) (g k items) = (if k = k0 then g k items else {#})"
  proof (cases "k = k0")
    case True
    have "filter_mset (\<lambda>x. f x = h k0) (g k items) = filter_mset (\<lambda>x. True) (g k items)" by (rule filter_mset_cong) (use True assms(2) in auto)
    then show ?thesis using True by simp
  next
    case False
    then have "h k \<noteq> h k0" using Cons.prems(2) kv by (auto simp: inj_on_def)
    then have "\<forall>x\<in>#g k items. f x \<noteq> h k0" using assms(2) by auto
    then show ?thesis using False by simp
  qed
  moreover have "filter_mset (\<lambda>x. f x = h k0) (sum_list (map (\<lambda>(k, items). g k items) d)) = (case map_of d k0 of None \<Rightarrow> {#} | Some items \<Rightarrow> g k0 items)"
    by (rule Cons.IH) (use Cons.prems in \<open>auto intro: inj_on_subset\<close>)
  moreover have "map_of d k = None" using Cons.prems(1) kv by (simp add: map_of_eq_None_iff)
  ultimately show ?case by (auto simp: kv)
qed simp


lemma in_sum_list: "x \<in># sum_list Ms \<Longrightarrow> \<exists>M\<in>set Ms. x \<in># M"
  by (induction Ms) auto

lemma canonical_inj: "canonical k \<Longrightarrow> canonical k' \<Longrightarrow> digits_val k = digits_val k' \<Longrightarrow> k = k'"
  by (auto simp: canonical_def)

lemma method_enum_str [simp]: "method_enum (method_str m) = m"
  by (cases m) (simp_all add: method_enum_def)

lemma level_enum_str [simp]: "level_enum (level_str l) = l"
  by (cases l) (simp_all add: level_enum_def)

lemma answered_request:
  assumes "shows_design ans (input_design RequestKind None (map be_of_req (transformReqParamsToApiInput (Some rq)))) Y"
    and "distinct (map fst rq)" "set (map fst rq) \<subseteq> set ParamLocations" "(l, ts) \<in> set (aa_request_params_by_location ans)"
  shows "design_of ts = (case map_of rq l of None \<Rightarrow> {#} | Some items \<Rightarrow> mset (map (item_design (Some l) None) items))"
proof -
  have "design_of ts = filter_mset (\<lambda>x. in_location (ds_info x) = Some l) (sum_list (map (\<lambda>(l, items). mset (map (item_design (Some l) None) items)) rq))"
    using assms(1,4) unfolding shows_design_def request_payload_design [OF assms(3)] by auto
  also have "\<dots> = (case map_of rq l of None \<Rightarrow> {#} | Some items \<Rightarrow> mset (map (item_design (Some l) None) items))"
    by (rule sum_of_key [OF assms(2)]) (auto simp: item_design_keys)
  finally show ?thesis .
qed

lemma answered_response:
  assumes "shows_design ans X (input_design ResponseKind None (map be_of_resp (transformRespParamsToApiInput (Some rs))))"
    and "distinct (map fst rs)" "\<forall>k\<in>set (map fst rs). canonical k" "map_of rs k = Some items" "items \<noteq> []"
  shows "\<exists>ts. (int (digits_val k), ts) \<in> set (aa_response_params_by_status_code ans) \<and>
    design_of ts = mset (map (item_design None (Some (int (digits_val k)))) items)"
proof -
  let ?Y = "sum_list (map (\<lambda>(k, items). mset (map (item_design None (Some (int (digits_val k)))) items)) rs)" and ?c = "int (digits_val k)"
  have "k \<in> set (map fst rs)" using assms(4) by (metis domI dom_map_of_conv_image_fst list.set_map)
  then have i: "inj_on (\<lambda>k. Some (int (digits_val k))) (insert k (set (map fst rs)))"
    unfolding inj_on_def using assms(3) canonical_inj by (simp add: insert_absorb)
  have f: "filter_mset (\<lambda>x. in_status (ds_info x) = Some ?c) ?Y = (case map_of rs k of None \<Rightarrow> {#} | Some items \<Rightarrow> mset (map (item_design None (Some ?c)) items))"
    by (rule sum_of_key [OF assms(2) _ i, where f = "\<lambda>x. in_status (ds_info x)"]) (auto simp: item_design_keys)
  note a = assms(1) [unfolded shows_design_def response_payload_design [OF assms(3)]]
  obtain x where x: "x \<in> set items" using assms(5) by (cases items) auto
  have "item_design None (Some ?c) x \<in># filter_mset (\<lambda>x. in_status (ds_info x) = Some ?c) ?Y" unfolding f assms(4) using x by simp
  then have "item_design None (Some ?c) x \<in># sum_list (map (\<lambda>(c, ts). design_of ts) (aa_response_params_by_status_code ans))" using a by simp
  then obtain c ts where ts: "(c, ts) \<in> set (aa_response_params_by_status_code ans)" "item_design None (Some ?c) x \<in># design_of ts"
    using in_sum_list by fastforce
  then have "design_of ts = filter_mset (\<lambda>x. in_status (ds_info x) = Some c) ?Y" using a by auto
  then have "c = ?c" using ts(2) item_design_keys(2) [of None "Some ?c" x] by auto
  then show ?thesis using ts(1) \<open>design_of ts = _\<close> f assms(4) by auto
qed

lemma edited_answer:
  assumes "db_ok db" "any_order D" "check_submit d values = Inr u" "updateApiByApiDraftId i uid u db = (Reply 200 m b, db')"
    and "fv_request_params values = Some rq" "fv_response_params values = Some rs"
  shows "\<exists>ans. apiGetApiById D d uid False db' = Reply 200 ''Get api success'' (Some ans) \<and>
    apr_name (aa_api ans) = fv_name values \<and> apr_method (aa_api ans) = fv_method values \<and> apr_path (aa_api ans) = fv_path values \<and>
    shows_design ans (input_design RequestKind None (map be_of_req (transformReqParamsToApiInput (Some rq))))
      (input_design ResponseKind None (map be_of_resp (transformRespParamsToApiInput (Some rs))))"
proof -
  have u: "up_api_draft_id u = d" "up_name u = fv_name values" "up_method u = fv_method values" "up_path u = fv_path values"
    "up_req_params u = transformReqParamsToApiInput (Some rq)" "up_resp_params u = transformRespParamsToApiInput (Some rs)"
    using assms(3,5,6) by (auto simp: check_submit_def Let_def split: if_splits)
  then show ?thesis
    using updated_answer [OF assms(1,2) route_accepted [OF assms(4)]] unfolding u by (auto simp: updated_row_def)
qed

text \<open>
  C9: A draft that the editor submits and the server accepts is read back as it was edited: name, method and path are those
  of the form, the answer has all five locations and under each of them exactly the rows of that tab with everything
  nested in them, and under every status code with rows exactly the rows of its tab, for any order in which the database
  returns rows and for codes in canonical form.
\<close>

theorem edited_then_read:
  assumes "served db" "any_order D" "check_submit d values = Inr u" "updateApiByApiDraftId i uid u db = (Reply 200 m b, db')"
    and "fv_request_params values = Some rq" "distinct (map fst rq)" "set (map fst rq) \<subseteq> set ParamLocations"
    and "fv_response_params values = Some rs" "distinct (map fst rs)" "\<forall>k\<in>set (map fst rs). canonical k"
  shows "\<exists>ans. apiGetApiById D d uid False db' = Reply 200 ''Get api success'' (Some ans) \<and>
    apr_name (aa_api ans) = fv_name values \<and> apr_method (aa_api ans) = fv_method values \<and> apr_path (aa_api ans) = fv_path values \<and>
    map fst (aa_request_params_by_location ans) = [''query'', ''path'', ''header'', ''cookie'', ''body''] \<and>
    (\<forall>(l, ts)\<in>set (aa_request_params_by_location ans).
       design_of ts = (case map_of rq l of None \<Rightarrow> {#} | Some items \<Rightarrow> mset (map (item_design (Some l) None) items))) \<and>
    (\<forall>k items. map_of rs k = Some items \<and> items \<noteq> [] \<longrightarrow>
       (\<exists>ts. (int (digits_val k), ts) \<in> set (aa_response_params_by_status_code ans) \<and>
          design_of ts = mset (map (item_design None (Some (int (digits_val k)))) items)))"
proof -
  obtain ans where ans: "apiGetApiById D d uid False db' = Reply 200 ''Get api success'' (Some ans)"
    "apr_name (aa_api ans) = fv_name values" "apr_method (aa_api ans) = fv_method values" "apr_path (aa_api ans) = fv_path values"
    "shows_design ans (input_design RequestKind None (map be_of_req (transformReqParamsToApiInput (Some rq))))
       (input_design ResponseKind None (map be_of_resp (transformRespParamsToApiInput (Some rs))))"
    using edited_answer [OF run_keeps_database [OF assms(1)] assms(2-5,8)] by blast
  have "map fst (aa_request_params_by_location ans) = [''query'', ''path'', ''header'', ''cookie'', ''body'']"
    using ans(5) by (simp add: shows_design_def)
  then show ?thesis using ans answered_request [OF ans(5) assms(6,7)] answered_response [OF ans(5) assms(9,10)] by (intro exI [of _ ans]) auto
qed

definition demo_edited :: form_values where
  "demo_edited = \<lparr>fv_name = ''find'', fv_method = POST, fv_path = ''/f/{id}'', fv_description = Some ''finds'', fv_level = None,
     fv_request_params = Some [(''path'', [demo_row ''id'' ''int'' None]), (''body'', [demo_row ''o'' ''object'' (Some [demo_row ''x'' ''string'' None])])],
     fv_response_params = Some [(''200'', [demo_row ''ok'' ''boolean'' None])]\<rparr>"

definition demo_submission :: update_request where
  "demo_submission = (case check_submit 1 demo_edited of Inr u \<Rightarrow> u | Inl w \<Rightarrow> undefined)"

lemma demo_submitted: "check_submit 1 demo_edited = Inr demo_submission"
proof -
  have "\<not> isl (check_submit 1 demo_edited)" by code_simp
  then show ?thesis by (cases "check_submit 1 demo_edited") (auto simp: demo_submission_def)
qed

lemma demo_accepted:
  "updateApiByApiDraftId 1 1 demo_submission demo_run = (Reply 200 ''Update api success'' None, snd (updateApiByApiDraftId 1 1 demo_submission demo_run))"
proof -
  have "fst (updateApiByApiDraftId 1 1 demo_submission demo_run) = Reply 200 ''Update api success'' None" by code_simp
  then show ?thesis by (simp add: prod_eq_iff)
qed

theorem edited_then_read_witness:
  "\<exists>ans. apiGetApiById demo_server 1 1 False (snd (updateApiByApiDraftId 1 1 demo_submission demo_run)) = Reply 200 ''Get api success'' (Some ans) \<and>
    apr_name (aa_api ans) = ''find'' \<and>
    (\<forall>(l, ts)\<in>set (aa_request_params_by_location ans). l = ''path'' \<longrightarrow> design_of ts = {#item_design (Some ''path'') None (demo_row ''id'' ''int'' None)#})"
proof -
  have "canonical ''200''" unfolding canonical_def using demo_texts(1) by (intro exI [of _ 200]) simp
  then show ?thesis
    using edited_then_read [OF demo_served demo_order demo_submitted demo_accepted]
    by (fastforce simp: demo_edited_def ParamLocations_def)
qed

section \<open>Maintainers\<close>

text \<open>The route \<open>/v1/service/addOrRemoveServiceMaintainerById\<close> as the page sees it; an exception is answered with status 500.\<close>

definition addOrRemoveServiceMaintainerById :: "database \<Rightarrow> int \<Rightarrow> int \<Rightarrow> int \<Rightarrow> string + maintainer_response" where
  "addOrRemoveServiceMaintainerById db s uid candidate =
     (case fst (serviceAddOrRemoveServiceMaintainerById s uid candidate db) of
        Reply st msg b \<Rightarrow> Inr \<lparr>status = st, message = msg, mr_is_current_maintainer = (b = Some True)\<rparr>
      | _ \<Rightarrow> Inl ''Request failed with status code 500'')"

lemma toggle_answer:
  assumes "db_ok db" "service_of db s = Some r" "owns db uid r" "k \<in> user_ids db" "k \<noteq> srv_owner_id r"
  shows "\<exists>res. addOrRemoveServiceMaintainerById db s uid k = Inr res \<and> status res = 200 \<and> mr_is_current_maintainer res = (k \<notin> set (srv_maintainers r))"
    "\<exists>r'. service_of (snd (serviceAddOrRemoveServiceMaintainerById s uid k db)) s = Some r' \<and>
      set (srv_maintainers r') = (if k \<in> set (srv_maintainers r) then set (srv_maintainers r) - {k} else insert k (set (srv_maintainers r)))"
proof -
  have k: "user_of db k \<noteq> None" using assms(4) user_of_ids by blast
  have d: "distinct (srv_maintainers r)" using get_row_SomeD [OF assms(2)] db_okD(2) [OF assms(1)] by (auto simp: services_ok_def)
  have "as_owner db uid r = Allowed" using assms(3) permitted_iff [of "srv_owner_id r = uid" db uid] by (auto simp: as_owner_def owns_def)
  then have e: "serviceAddOrRemoveServiceMaintainerById s uid k db =
     (let was = k \<in> set (srv_maintainers r); ms = (if was then remove1 k (srv_maintainers r) else srv_maintainers r @ [k])
      in (Reply 200 (if was then ''Remove service maintainer success'' else ''Add service maintainer success'') (Some (k \<in> set ms)),
          db\<lparr>db_services := update_row srv_id s (\<lambda>s. s\<lparr>srv_maintainers := ms\<rparr>) (db_services db)\<rparr>))"
    using assms(2,5) k by (auto simp: serviceAddOrRemoveServiceMaintainerById_def guarded_def)
  show "\<exists>res. addOrRemoveServiceMaintainerById db s uid k = Inr res \<and> status res = 200 \<and> mr_is_current_maintainer res = (k \<notin> set (srv_maintainers r))"
    using d by (simp add: addOrRemoveServiceMaintainerById_def e Let_def)
  show "\<exists>r'. service_of (snd (serviceAddOrRemoveServiceMaintainerById s uid k db)) s = Some r' \<and>
      set (srv_maintainers r') = (if k \<in> set (srv_maintainers r) then set (srv_maintainers r) - {k} else insert k (set (srv_maintainers r)))"
    using d assms(2) by (simp add: e Let_def get_row_update)
qed

text \<open>
  C12: The maintainers on the page are those the server keeps: when the owner or an administrator selects or deselects a user
  other than the owner, the page shows afterwards exactly the users that are selected, and these are the maintainers
  in the database.
\<close>

theorem maintainers_agree:
  assumes "served db" "service_of db s = Some r" "owns db uid r" "k \<in> user_ids db" "k \<noteq> srv_owner_id r"
    and "set (map u_id (hd_maintainers st)) = set (srv_maintainers r)" "\<not> hd_switchLoading st"
    and "(k \<in> set (srv_maintainers r) \<and> newIds = filter (\<lambda>i. i \<noteq> k) (map u_id (hd_maintainers st))) \<or>
      (k \<notin> set (srv_maintainers r) \<and> newIds = map u_id (hd_maintainers st) @ [k] \<and> k \<in> set (map u_id (hd_options st)))"
  shows "\<exists>r'. service_of (snd (serviceAddOrRemoveServiceMaintainerById s uid k db)) s = Some r' \<and>
    (let st' = fst (change_maintainers (addOrRemoveServiceMaintainerById db s uid) newIds (st, ts)) in
      set (map u_id (hd_maintainers st')) = set (srv_maintainers r') \<and> set newIds = set (srv_maintainers r') \<and> \<not> hd_switchLoading st')"
proof -
  have ok: "db_ok db" by (rule run_keeps_database [OF assms(1)])
  have "k \<noteq> 0" using assms(4) db_okD(1) [OF ok] by (auto simp: users_ok_def table_ok_def)
  then obtain m where m: "pick_maintainer newIds st = Some m" "u_id m = k"
    using assms(6,8) pick_added [of newIds st k] pick_removed [of newIds k st] by blast
  obtain res where res: "addOrRemoveServiceMaintainerById db s uid k = Inr res" "status res = 200" "mr_is_current_maintainer res = (k \<notin> set (srv_maintainers r))"
    using toggle_answer(1) [OF ok assms(2-5)] by blast
  have "set newIds = (if k \<in> set (srv_maintainers r) then set (srv_maintainers r) - {k} else insert k (set (srv_maintainers r)))"
    using assms(6,8) by auto
  then show ?thesis
    using toggle_answer(2) [OF ok assms(2-5)] toggled_at [OF assms(6,7) m(1), of "addOrRemoveServiceMaintainerById db s uid" res ts] res m(2)
    by (auto simp: Let_def)
qed

definition demo_two :: database where
  "demo_two = handle demo_server 2 (Register ''bob'' ''pw'' ''Bob'' ''b@b'' ''qa'') demo_run"

theorem maintainers_agree_witness:
  "set (map u_id (hd_maintainers (fst (change_maintainers (addOrRemoveServiceMaintainerById demo_two 1 1) [2]
      (\<lparr>hd_maintainers = [], hd_options = [demo_user 2], hd_switchLoading = False\<rparr>, empty_service))))) = {2}"
proof -
  let ?st = "\<lparr>hd_maintainers = [], hd_options = [demo_user 2], hd_switchLoading = False\<rparr>"
  have s: "served demo_two" unfolding demo_two_def by (rule served.request [OF demo_served demo_order])
  have "map_option (\<lambda>r. (srv_owner_id r, srv_maintainers r)) (service_of demo_two 1) = Some (1, [])" by code_simp
  then obtain r where r: "service_of demo_two 1 = Some r" "srv_owner_id r = 1" "srv_maintainers r = []" by auto
  have k: "(2::int) \<in> user_ids demo_two" by code_simp
  have "\<exists>r'. service_of (snd (serviceAddOrRemoveServiceMaintainerById 1 1 2 demo_two)) 1 = Some r' \<and>
      (let st' = fst (change_maintainers (addOrRemoveServiceMaintainerById demo_two 1 1) [2] (?st, empty_service)) in
        set (map u_id (hd_maintainers st')) = set (srv_maintainers r') \<and> set [2] = set (srv_maintainers r') \<and> \<not> hd_switchLoading st')"
    by (rule maintainers_agree [OF s r(1) _ k]) (use r in \<open>simp_all add: owns_def demo_user_def\<close>)
  then show ?thesis by (auto simp: Let_def)
qed

section \<open>The code generator\<close>

text \<open>The JSON of a parameter and of an API, with the members the programs read.\<close>

fun param_json :: "ptree \<Rightarrow> Param" where
  "param_json (PNode r cs) = Param (pr_id r) (pr_api r) (pr_name r) (pr_location r) (map_option nat (pr_status r)) (pr_type r) (pr_required r)
     (pr_default r) (pr_description r) (pr_example r) (pr_act r) (pr_parent r) (if cs = [] then None else Some (map param_json cs))"

definition api_detail_of :: "(int \<Rightarrow> ApiParent) \<Rightarrow> api_answer \<Rightarrow> ApiDetail" where
  "api_detail_of parent ans =
     \<lparr>ab_id = apr_id (aa_api ans), ab_name = apr_name (aa_api ans), ab_method = apr_method (aa_api ans), ab_path = apr_path (aa_api ans),
      ab_description = apr_description (aa_api ans), ab_level = Some (apr_level (aa_api ans)), ab_is_enabled = Some (apr_is_enabled (aa_api ans)),
      ab_category_id = apr_category_id (aa_api ans), ad_parent = parent (apr_parent (aa_api ans)), ad_owner_id = apr_owner_id (aa_api ans),
      ad_created_at = None, ad_updated_at = None, ad_owner = None, ad_category = None,
      request_params_by_location = Some (map (\<lambda>(l, ts). (l, map param_json ts)) (aa_request_params_by_location ans)),
      response_params_by_status_code = Some (map (\<lambda>(c, ts). (nat c, map param_json ts)) (aa_response_params_by_status_code ans))\<rparr>"


lemma param_names: "mset (map p_name (map param_json ts)) = image_mset (\<lambda>x. in_name (ds_info x)) (design_of ts)"
proof -
  have "p_name (param_json t) = in_name (ds_info (design_tree t))" for t by (cases t) (simp add: row_info_def)
  then show ?thesis by (simp add: design_of_def multiset.map_comp comp_def)
qed

lemma detail_code:
  assumes "map fst (aa_request_params_by_location ans) = [''query'', ''path'', ''header'', ''cookie'', ''body'']"
  shows "\<exists>ns opt. generateTSCode (api_detail_of parent ans) = Inr (ns, opt)"
proof -
  let ?d = "map (\<lambda>(l, ts). (l, map param_json ts)) (aa_request_params_by_location ans)"
  have "map fst ?d = map fst (aa_request_params_by_location ans)" by (simp add: case_prod_unfold comp_def)
  then have "set (map fst ?d) = set ParamLocations" unfolding assms by (auto simp: ParamLocations_def)
  then have "fst ` set ?d = set ParamLocations" by (metis list.set_map)
  then have "\<forall>l\<in>set ParamLocations. map_of ?d l \<noteq> None" by (metis map_of_eq_None_iff)
  then show ?thesis using generateTSCode_succeeds_iff [of "api_detail_of parent ans"] by (auto simp: api_detail_of_def)
qed

lemma fields_design:
  assumes "map fst (aa_request_params_by_location ans) = [''query'', ''path'', ''header'', ''cookie'', ''body'']"
    and "location_fields (request_params_by_location (api_detail_of parent ans)) l = Inr fs"
    and "\<forall>(l, ts)\<in>set (aa_request_params_by_location ans). design_of ts = X l"
  shows "mset fs = image_mset (\<lambda>x. in_name (ds_info x)) (X l)"
proof -
  let ?d = "map (\<lambda>(l, ts). (l, map param_json ts)) (aa_request_params_by_location ans)"
  obtain ps where "map_of ?d l = Some ps" "fs = map p_name ps"
    using assms(2) by (auto simp: location_fields_def api_detail_of_def split: option.splits)
  then obtain ts where "(l, ts) \<in> set (aa_request_params_by_location ans)" "fs = map p_name (map param_json ts)"
    using map_of_SomeD [of ?d l ps] by auto
  then show ?thesis using assms(3) param_names [of ts] by auto
qed

definition tab_names :: "ParamItem list js_obj \<Rightarrow> string \<Rightarrow> string multiset" where
  "tab_names rq l = (case map_of rq l of None \<Rightarrow> {#} | Some items \<Rightarrow> mset (map pi_name items))"

lemma tab_design:
  "image_mset (\<lambda>x. in_name (ds_info x)) (case map_of rq l of None \<Rightarrow> {#} | Some items \<Rightarrow> mset (map (item_design (Some l) None) items)) = tab_names rq l"
proof -
  have "in_name (ds_info (item_design c l x)) = pi_name x" for c l x by (cases x) simp
  then show ?thesis by (simp add: tab_names_def multiset.map_comp comp_def split: option.splits)
qed


lemma edited_code:
  assumes "db_ok db" "any_order D" "check_submit d values = Inr u" "updateApiByApiDraftId i uid u db = (Reply 200 m b, db')"
    and "fv_request_params values = Some rq" "distinct (map fst rq)" "set (map fst rq) \<subseteq> set ParamLocations" "fv_response_params values = Some rs"
  shows "\<exists>ans ns opt. apiGetApiById D d uid False db' = Reply 200 ''Get api success'' (Some ans) \<and>
    generateTSCode (api_detail_of OfIteration ans) = Inr (ns, opt) \<and> apiPath opt = fv_path values \<and> apiMethod opt = fv_method values \<and>
    mset (reqPathFields opt) = tab_names rq ''path'' \<and> mset (reqQueryFields opt) = tab_names rq ''query'' \<and>
    mset (reqHeaderFields opt) = tab_names rq ''header'' \<and> mset (reqCookieFields opt) = tab_names rq ''cookie'' \<and>
    mset (reqBodyFields opt) = tab_names rq ''body''"
proof -
  obtain ans where ans: "apiGetApiById D d uid False db' = Reply 200 ''Get api success'' (Some ans)"
    "apr_method (aa_api ans) = fv_method values" "apr_path (aa_api ans) = fv_path values"
    "shows_design ans (input_design RequestKind None (map be_of_req (transformReqParamsToApiInput (Some rq))))
       (input_design ResponseKind None (map be_of_resp (transformRespParamsToApiInput (Some rs))))"
    using edited_answer [OF assms(1-5,8)] by blast
  have five: "map fst (aa_request_params_by_location ans) = [''query'', ''path'', ''header'', ''cookie'', ''body'']" using ans(4) by (simp add: shows_design_def)
  obtain ns opt where g: "generateTSCode (api_detail_of OfIteration ans) = Inr (ns, opt)" using detail_code [OF five] by blast
  let ?X = "\<lambda>l. case map_of rq l of None \<Rightarrow> {#} | Some items \<Rightarrow> mset (map (item_design (Some l) None) items)"
  have "mset fs = tab_names rq l" if "location_fields (request_params_by_location (api_detail_of OfIteration ans)) l = Inr fs" for l fs
    using fields_design [OF five that, of ?X] answered_request [OF ans(4) assms(6,7)] unfolding tab_design by blast
  then have "mset (reqPathFields opt) = tab_names rq ''path''" "mset (reqQueryFields opt) = tab_names rq ''query''" "mset (reqHeaderFields opt) = tab_names rq ''header''"
    "mset (reqCookieFields opt) = tab_names rq ''cookie''" "mset (reqBodyFields opt) = tab_names rq ''body''"
    using generateTSCode_option(10-14) [OF g] by blast+
  moreover have "apiPath opt = fv_path values" "apiMethod opt = fv_method values"
    using generateTSCode_option(8,9) [OF g] ans(2,3) by (simp_all add: api_detail_of_def)
  ultimately show ?thesis using ans(1) g by blast
qed

text \<open>
  C2: From the editor to the generated client: a draft that the editor submits and the server accepts can be turned into
  code; the generated method has the path and method of the form, and takes exactly the names in the tabs for path,
  query, header, cookie and body.
\<close>

theorem edited_to_code:
  assumes "served db" "any_order D" "check_submit d values = Inr u" "updateApiByApiDraftId i uid u db = (Reply 200 m b, db')"
    and "fv_request_params values = Some rq" "distinct (map fst rq)" "set (map fst rq) \<subseteq> set ParamLocations" "fv_response_params values = Some rs"
  shows "\<exists>ans ns opt. apiGetApiById D d uid False db' = Reply 200 ''Get api success'' (Some ans) \<and>
    generateTSCode (api_detail_of OfIteration ans) = Inr (ns, opt) \<and> apiPath opt = fv_path values \<and> apiMethod opt = fv_method values \<and>
    mset (reqPathFields opt) = tab_names rq ''path'' \<and> mset (reqQueryFields opt) = tab_names rq ''query'' \<and>
    mset (reqHeaderFields opt) = tab_names rq ''header'' \<and> mset (reqCookieFields opt) = tab_names rq ''cookie'' \<and>
    mset (reqBodyFields opt) = tab_names rq ''body''"
  by (rule edited_code [OF run_keeps_database [OF assms(1)] assms(2-8)])

theorem edited_to_code_witness:
  "\<exists>ans ns opt. apiGetApiById demo_server 1 1 False (snd (updateApiByApiDraftId 1 1 demo_submission demo_run)) = Reply 200 ''Get api success'' (Some ans) \<and>
    generateTSCode (api_detail_of OfIteration ans) = Inr (ns, opt) \<and> apiPath opt = ''/f/{id}'' \<and> mset (reqPathFields opt) = {#''id''#}"
proof -
  have "tab_names (the (fv_request_params demo_edited)) ''path'' = {#''id''#}" by (simp add: tab_names_def demo_edited_def demo_row_def)
  then show ?thesis
    using edited_to_code [OF demo_served demo_order demo_submitted demo_accepted] by (fastforce simp: demo_edited_def ParamLocations_def)
qed

end
