(* ===== verification/Be_Refine.thy ===== *)
theory Be_Refine
  imports Be_Promises
begin

text \<open>
  The contract of the back end: the contents of services and iterations as an abstract state, with one step for each kind of
  request that says what the request is for.  Every accepted request is the step of its kind, and no other request changes
  anything.
\<close>

section \<open>The abstract state\<close>

text \<open>The contents of every service and of every iteration, and the service that an iteration is for.\<close>

record abstract =
  pub :: "int \<Rightarrow> api_content multiset"
  drf :: "int \<Rightarrow> api_content multiset"
  home :: "int \<Rightarrow> int option"

definition abstraction :: "database \<Rightarrow> abstract" where
  "abstraction db = \<lparr>pub = contents (db_published db), drf = contents (db_drafts db), home = (\<lambda>i. map_option itr_service_id (iteration_of db i))\<rparr>"

text \<open>The API that a request names: where it is and what it holds.\<close>

definition named :: "side \<Rightarrow> int \<Rightarrow> (int \<times> api_content) option" where
  "named sd d = map_option (\<lambda>a. (apr_parent a, api_content_of sd a)) (get_row apr_id (sd_api sd) d)"

definition with_category :: "int option \<Rightarrow> api_content \<Rightarrow> api_content" where
  "with_category c x = x\<lparr>ac_api := (ac_api x)\<lparr>apr_category_id := c\<rparr>\<rparr>"

definition drop_category :: "int \<Rightarrow> api_content \<Rightarrow> api_content" where
  "drop_category c x = (if apr_category_id (ac_api x) = Some c then with_category None x else x)"

section \<open>The steps\<close>

text \<open>
  The step of an accepted request of the user \<open>uid\<close>: the drafts and the published APIs are named by \<open>dn\<close> and \<open>pn\<close>.
\<close>

inductive abstract_step ::
    "server_env \<Rightarrow> int \<Rightarrow> (int \<Rightarrow> (int \<times> api_content) option) \<Rightarrow> (int \<Rightarrow> (int \<times> api_content) option) \<Rightarrow> abstract \<Rightarrow> event \<Rightarrow> abstract \<Rightarrow> bool"
  for D uid dn pn a where
  start: "home a n = None \<Longrightarrow> drf a n = {#} \<Longrightarrow>
    abstract_step D uid dn pn a (StartIteration s) (a\<lparr>drf := (drf a)(n := pub a s), home := (home a)(n \<mapsto> s)\<rparr>)"
| commit: "home a i = Some s \<Longrightarrow> abstract_step D uid dn pn a (CommitIteration i v) (a\<lparr>pub := (pub a)(s := drf a i)\<rparr>)"
| discard: "home a i \<noteq> None \<Longrightarrow> drf a i = {#} \<Longrightarrow> abstract_step D uid dn pn a (DeleteIteration i) (a\<lparr>home := (home a)(i := None)\<rparr>)"
| add: "home a i \<noteq> None \<Longrightarrow> x = \<lparr>ac_api = api_info (new_draft i uid name verb url desc level c 0), ac_req = {#}, ac_resp = {#}\<rparr> \<Longrightarrow>
    abstract_step D uid dn pn a (AddApi i name verb url desc level c) (a\<lparr>drf := (drf a)(i := add_mset x (drf a i))\<rparr>)"
| copy: "dn d = Some (i, x) \<Longrightarrow> x \<in># drf a i \<Longrightarrow>
    abstract_step D uid dn pn a (CopyApi i d) (a\<lparr>drf := (drf a)(i := add_mset (copied_content D uid x) (drf a i))\<rparr>)"
| delete: "dn d = Some (i, x) \<Longrightarrow> x \<in># drf a i \<Longrightarrow>
    abstract_step D uid dn pn a (DeleteApi i d) (a\<lparr>drf := (drf a)(i := drf a i - {#x#})\<rparr>)"
| rewrite: "dn d = Some (i, x) \<Longrightarrow> x \<in># drf a i \<Longrightarrow>
    y = \<lparr>ac_api = updated_row name verb url desc level (ac_api x), ac_req = input_design RequestKind None rq, ac_resp = input_design ResponseKind None rs\<rparr> \<Longrightarrow>
    abstract_step D uid dn pn a (UpdateApi i d name verb url desc level rq rs) (a\<lparr>drf := (drf a)(i := add_mset y (drf a i - {#x#}))\<rparr>)"
| move: "pn k = Some (s, x) \<Longrightarrow> x \<in># pub a s \<Longrightarrow> y = with_category (if c = -1 then None else Some c) x \<Longrightarrow>
    abstract_step D uid dn pn a (UpdateApiCategory k c) (a\<lparr>pub := (pub a)(s := add_mset y (pub a s - {#x#}))\<rparr>)"
| uncategorize: "abstract_step D uid dn pn a (DeleteCategory c)
    (a\<lparr>pub := \<lambda>s. image_mset (drop_category c) (pub a s), drf := \<lambda>i. image_mset (drop_category c) (drf a i)\<rparr>)"
| register: "abstract_step D uid dn pn a (Register name password nickname email role) a"
| modify_password: "abstract_step D uid dn pn a (ModifyPassword old new) a"
| create_service: "abstract_step D uid dn pn a (CreateService uuid desc) a"
| delete_service: "abstract_step D uid dn pn a (DeleteService s) a"
| restore_service: "abstract_step D uid dn pn a (RestoreService s) a"
| toggle: "abstract_step D uid dn pn a (ToggleMaintainer s k) a"
| describe: "abstract_step D uid dn pn a (UpdateDescription i desc) a"
| add_category: "abstract_step D uid dn pn a (AddCategory s cname cdesc) a"
| update_category: "abstract_step D uid dn pn a (UpdateCategory c cname' cdesc) a"

text \<open>The status that a request is answered with; an exception has none.\<close>

definition status_of :: "'a be_reply \<Rightarrow> int option" where
  "status_of r = (case r of Reply st _ _ \<Rightarrow> Some st | Wrapped st _ \<Rightarrow> None | Raised \<Rightarrow> None)"

fun answered :: "server_env \<Rightarrow> int \<Rightarrow> event \<Rightarrow> database \<Rightarrow> int option" where
  "answered D uid (Register name password nickname email role) db = status_of (fst (userRegister D name password nickname email role db))"
| "answered D uid (ModifyPassword old new) db = status_of (fst (userModifyPassword D uid old new db))"
| "answered D uid (CreateService uuid desc) db = status_of (fst (serviceCreateNewService uuid uid desc db))"
| "answered D uid (DeleteService i) db = status_of (fst (serviceDeleteServiceById D i uid db))"
| "answered D uid (RestoreService i) db = status_of (fst (serviceRestoreServiceById i uid db))"
| "answered D uid (ToggleMaintainer i c) db = status_of (fst (serviceAddOrRemoveServiceMaintainerById i uid c db))"
| "answered D uid (DeleteIteration i) db = status_of (fst (serviceDeleteIterationById i uid db))"
| "answered D uid (StartIteration i) db = status_of (fst (serviceStartIteration D i uid db))"
| "answered D uid (CommitIteration i v) db = status_of (fst (serviceCommitIteration D i v uid db))"
| "answered D uid (UpdateDescription i desc) db = status_of (fst (serviceUpdateDescription i desc uid db))"
| "answered D uid (AddCategory i name desc) db = status_of (fst (apiAddCategoryByServiceId i uid name desc db))"
| "answered D uid (DeleteCategory c) db = status_of (fst (apiDeleteCategoryById c uid db))"
| "answered D uid (UpdateCategory c name desc) db = status_of (fst (apiUpdateCategoryById c uid name desc db))"
| "answered D uid (UpdateApiCategory i c) db = status_of (fst (apiUpdateApiCategory i c uid db))"
| "answered D uid (AddApi i name verb url desc level c) db = status_of (fst (apiAddApi D i uid name verb url desc level c db))"
| "answered D uid (CopyApi i d) db = status_of (fst (apiCopyApiByApiDraftId D i d uid db))"
| "answered D uid (DeleteApi i d) db = status_of (fst (apiDeleteApiByApiDraftId i d uid db))"
| "answered D uid (UpdateApi i d name verb url desc level rq rs) db = status_of (fst (apiUpdateApiByApiDraftId i d uid name verb url desc level rq rs db))"

abbreviation request_step :: "server_env \<Rightarrow> int \<Rightarrow> database \<Rightarrow> event \<Rightarrow> database \<Rightarrow> bool" where
  "request_step D uid db e db' \<equiv> abstract_step D uid (named (db_drafts db)) (named (db_published db)) (abstraction db) e (abstraction db')"

text \<open>What is proved of the answer and the database that a handler returns.\<close>

definition refines :: "server_env \<Rightarrow> int \<Rightarrow> event \<Rightarrow> database \<Rightarrow> 'a be_reply \<times> database \<Rightarrow> bool" where
  "refines D uid e db x \<longleftrightarrow> (if status_of (fst x) = Some 200 then request_step D uid db e (snd x) else snd x = db)"

lemma refines_refused: "st \<noteq> 200 \<Longrightarrow> refines D uid e db (Reply st m b, db)" "refines D uid e db (Raised, db)"
  by (simp_all add: refines_def status_of_def)

lemma refines_guarded: "(v = Allowed \<Longrightarrow> refines D uid e db k) \<Longrightarrow> st \<noteq> 200 \<Longrightarrow> refines D uid e db (guarded v st msg db k)"
  by (cases v) (simp_all add: guarded_def refines_refused)

lemma refines_checked:
  "(\<And>it s. iteration_of db i = Some it \<Longrightarrow> service_of db (itr_service_id it) = Some s \<Longrightarrow> iterates db uid it s \<Longrightarrow> refines D uid e db (k it s)) \<Longrightarrow>
   refines D uid e db (checked (checkServiceIterationPermission db i uid) db k)"
  using check_ok_iff [of db i uid] check_error [of db i uid]
  by (cases "checkServiceIterationPermission db i uid") (auto simp: checked_def iterates_def intro!: refines_refused)

lemma refines_draft:
  "(\<And>a. draft_api db d = Some a \<Longrightarrow> apr_parent a = i \<Longrightarrow> refines D uid e db (k a)) \<Longrightarrow> refines D uid e db (draft_in i d db k)"
  by (auto simp: draft_in_def intro: refines_refused split: option.split)

lemma refines_accepted: "request_step D uid db e db' \<Longrightarrow> refines D uid e db (Reply 200 m b, db')"
  by (simp add: refines_def status_of_def)

lemmas refining = refines_refused refines_guarded refines_checked refines_draft refines_accepted

lemma same_contents:
  "db_published db' = db_published db \<Longrightarrow> db_drafts db' = db_drafts db \<Longrightarrow> (\<And>i. map_option itr_service_id (iteration_of db' i) = map_option itr_service_id (iteration_of db i)) \<Longrightarrow>
   abstraction db' = abstraction db"
  by (simp add: abstraction_def)

lemma abstraction_simps [simp]:
  "pub (abstraction db) = contents (db_published db)" "drf (abstraction db) = contents (db_drafts db)"
  "home (abstraction db) = (\<lambda>i. map_option itr_service_id (iteration_of db i))"
  by (simp_all add: abstraction_def)


section \<open>Requests that change no contents\<close>

text \<open>Whatever they answer, services, accounts and descriptions are not contents.\<close>

lemma quiet_requests:
  "abstraction (snd (userRegister D name password nickname email role db)) = abstraction db"
  "abstraction (snd (userModifyPassword D uid old new db)) = abstraction db"
  "abstraction (snd (serviceCreateNewService uuid uid sdesc db)) = abstraction db"
  "abstraction (snd (serviceDeleteServiceById D i uid db)) = abstraction db"
  "abstraction (snd (serviceRestoreServiceById i uid db)) = abstraction db"
  "abstraction (snd (serviceAddOrRemoveServiceMaintainerById i uid k db)) = abstraction db"
  "abstraction (snd (apiAddCategoryByServiceId i uid cname cdesc db)) = abstraction db"
  by (auto simp: userRegister_def userModifyPassword_def serviceCreateNewService_def serviceDeleteServiceById_def serviceRestoreServiceById_def
      serviceAddOrRemoveServiceMaintainerById_def apiAddCategoryByServiceId_def guarded_def Let_def
      intro!: same_contents split: option.splits if_splits prod.splits verdict.splits)

lemma quiet_update: "abstraction (snd (apiUpdateCategoryById c uid cname cdesc db)) = abstraction db"
  by (auto simp: apiUpdateCategoryById_def rename_category_def guarded_def intro!: same_contents split: option.splits if_splits verdict.splits)

lemma home_update:
  assumes "\<And>it. itr_id (f it) = itr_id it" "\<And>it. itr_service_id (f it) = itr_service_id it"
  shows "map_option itr_service_id (get_row itr_id (update_row itr_id i f t) j) = map_option itr_service_id (get_row itr_id t j)"
  using assms by (cases "get_row itr_id t j") (simp_all add: get_row_update)

lemma quiet_description: "abstraction (snd (serviceUpdateDescription i desc uid db)) = abstraction db"
  by (auto simp: serviceUpdateDescription_def checked_def home_update intro!: same_contents split: iteration_check.splits)

section \<open>Iterations\<close>

lemma find_append: "List.find P (xs @ ys) = (case List.find P xs of None \<Rightarrow> List.find P ys | Some x \<Rightarrow> Some x)"
  by (induction xs) auto

lemma start_refines:
  assumes "db_ok db" "any_order D"
  shows "refines D uid (StartIteration i) db (serviceStartIteration D i uid db)"
proof -
  have "request_step D uid db (StartIteration i) db'" if h: "serviceStartIteration D i uid db = (Reply 200 m b, db')" for m b db'
  proof -
    let ?f = "\<lambda>n. \<lparr>itr_id = n, itr_service_id = i, itr_creator_id = uid, itr_version = None, itr_description = None, itr_is_committed = False\<rparr>"
    let ?n = "tb_seq (db_iterations db)"
    obtain dr where c: "copy_apis D (db_published db) ?n (apis_in_order D (apis_for i (db_published db))) (db_drafts db) = Some dr"
      and db': "db' = db\<lparr>db_iterations := snd (insert_row ?f (db_iterations db)), db_drafts := dr\<rparr>"
      using start_result [OF h] by blast
    note st = started_contents [OF assms c]
    have t: "table_ok itr_id (db_iterations db)" using db_okD(3) [OF assms(1)] by (simp add: iterations_ok_def)
    then have n: "iteration_of db ?n = None" by (auto simp: get_row_None table_ok_def)
    have "iteration_of db' = (iteration_of db)(?n \<mapsto> ?f ?n)"
      using n unfolding db' by (auto simp: fun_eq_iff insert_row_def get_row_def find_append split: option.splits)
    then have "abstraction db' = (abstraction db)\<lparr>drf := (drf (abstraction db))(?n := pub (abstraction db) i), home := (home (abstraction db))(?n \<mapsto> i)\<rparr>"
      using st(1) unfolding db' by (simp add: abstraction_def fun_eq_iff)
    then show ?thesis using abstract_step.start [of "abstraction db" ?n D uid _ _ i] n st(2) by simp
  qed
  then show ?thesis
    by (cases "serviceStartIteration D i uid db"; cases "fst (serviceStartIteration D i uid db)")
       (auto simp: refines_def status_of_def serviceStartIteration_def guarded_def Let_def split: option.splits verdict.splits prod.splits)
qed


lemma commit_refines:
  assumes "db_ok db" "any_order D"
  shows "refines D uid (CommitIteration i v) db (serviceCommitIteration D i v uid db) \<or>
    smtp_configured D \<and> fst (serviceCommitIteration D i v uid db) = Raised \<and>
    request_step D uid db (CommitIteration i v) (snd (serviceCommitIteration D i v uid db))"
proof (cases "checkServiceIterationPermission db i uid")
  case (CheckOk it s)
  let ?x = "serviceCommitIteration D i v uid db"
  have it: "iteration_of db i = Some it" "service_of db (itr_service_id it) = Some s" "iterates db uid it s"
    using CheckOk by (auto simp: check_ok_iff iterates_def)
  have s: "srv_id s = itr_service_id it" using get_row_SomeD [OF it(2)] by simp
  show ?thesis
  proof (cases "v = srv_version s")
    case True
    then show ?thesis using CheckOk by (simp add: serviceCommitIteration_def refines_refused)
  next
    case False
    show ?thesis
    proof (cases "copy_apis D (db_drafts db) (srv_id s) (apis_in_order D (apis_for i (db_drafts db))) (delete_apis (srv_id s) (db_published db))")
      case None
      then show ?thesis using CheckOk False by (simp add: serviceCommitIteration_def refines_refused)
    next
      case (Some pb)
      let ?db = "db\<lparr>db_services := update_row srv_id (srv_id s) (\<lambda>s. s\<lparr>srv_description := itr_description it, srv_version := v\<rparr>) (db_services db),
          db_iterations := update_row itr_id i (\<lambda>it. it\<lparr>itr_version := Some v, itr_is_committed := True\<rparr>) (db_iterations db), db_published := pb\<rparr>"
      have "abstraction ?db = (abstraction db)\<lparr>pub := (pub (abstraction db))(srv_id s := drf (abstraction db) i)\<rparr>"
        using committed_contents [OF assms Some] by (simp add: abstraction_def home_update)
      then have step: "request_step D uid db (CommitIteration i v) ?db"
        using abstract_step.commit [of "abstraction db" i "srv_id s" D uid _ _ v] it(1) s by simp
      obtain u where u: "user_of db (srv_owner_id s) = Some u"
        using db_okD(2) [OF assms(1)] get_row_SomeD [OF it(2)] user_of_ids [of db] by (fastforce simp: services_ok_def)
      have "user_of db uid \<noteq> None" using creator_known [OF assms(1) it] user_of_ids by blast
      then show ?thesis
        using CheckOk False Some u step by (auto simp: serviceCommitIteration_def Let_def refines_accepted)
    qed
  qed
qed (simp_all add: serviceCommitIteration_def refines_def status_of_def)

lemma discard_refines: "refines D uid (DeleteIteration i) db (serviceDeleteIterationById i uid db)"
proof (cases "iteration_of db i")
  case (Some it)
  have h: "iteration_of (db\<lparr>db_iterations := delete_rows (\<lambda>it. itr_id it = i) (db_iterations db)\<rparr>) = (iteration_of db)(i := None)"
  proof
    fix j
    show "iteration_of (db\<lparr>db_iterations := delete_rows (\<lambda>it. itr_id it = i) (db_iterations db)\<rparr>) j = ((iteration_of db)(i := None)) j"
      by (cases "j = i") (auto simp: get_row_def delete_rows_def find_None_iff intro: find_filter)
  qed
  have "request_step D uid db (DeleteIteration i) (db\<lparr>db_iterations := delete_rows (\<lambda>it. itr_id it = i) (db_iterations db)\<rparr>)"
    if "apis_for i (db_drafts db) = []"
  proof -
    have "abstraction (db\<lparr>db_iterations := delete_rows (\<lambda>it. itr_id it = i) (db_iterations db)\<rparr>) =
        (abstraction db)\<lparr>home := (home (abstraction db))(i := None)\<rparr>"
      unfolding abstraction_def h by (auto simp: fun_eq_iff)
    then show ?thesis using abstract_step.discard [of "abstraction db" i D uid] Some that by (simp add: contents_def)
  qed
  then show ?thesis
    using Some by (auto simp: serviceDeleteIterationById_def intro!: refining split: option.split)
qed (simp add: serviceDeleteIterationById_def refines_refused)

section \<open>The APIs of an iteration\<close>

lemma only_drafts:
  assumes "contents dr i = X" "\<And>j. j \<noteq> i \<Longrightarrow> contents dr j = contents (db_drafts db) j"
  shows "abstraction (db\<lparr>db_drafts := dr\<rparr>) = (abstraction db)\<lparr>drf := (drf (abstraction db))(i := X)\<rparr>"
  using assms by (auto simp: abstraction_def)

lemma draft_named:
  assumes "draft_api db d = Some a"
  shows "named (db_drafts db) d = Some (apr_parent a, api_content_of (db_drafts db) a)"
    "api_content_of (db_drafts db) a \<in># drf (abstraction db) (apr_parent a)"
  using assms draft_content [OF assms] by (simp_all add: named_def)

lemma add_refines:
  assumes "db_ok db"
  shows "refines D uid (AddApi i name verb url desc level c) db (apiAddApi D i uid name verb url desc level c db)"
proof -
  let ?f = "new_draft i uid name verb url desc level c" and ?e = "AddApi i name verb url desc level c"
  have "refines D uid ?e db (add_draft ?f db)"
    if it: "iteration_of db i = Some it" "service_of db (itr_service_id it) = Some s" "iterates db uid it s"
      and c: "\<forall>k. c = Some k \<longrightarrow> (\<exists>ct. category_of db k = Some ct \<and> ctr_service_id ct = itr_service_id it)" for it s
  proof (cases "insert_api ?f (db_drafts db)")
    case (Some r)
    obtain n dr where r: "r = (n, dr)" by (cases r)
    note k = keeps_added(2,3) [OF assms it(1) creator_known [OF assms it] Some [unfolded r] _ c]
    have "api_info (?f n) = api_info (?f 0)" by (simp add: api_info_def new_draft_def)
    then have "abstraction (db\<lparr>db_drafts := dr\<rparr>) =
        (abstraction db)\<lparr>drf := (drf (abstraction db))(i := add_mset \<lparr>ac_api = api_info (?f 0), ac_req = {#}, ac_resp = {#}\<rparr> (drf (abstraction db) i))\<rparr>"
      using k by (intro only_drafts) (auto simp: new_draft_def)
    then show ?thesis
      using abstract_step.add [of "abstraction db" i _ uid name verb url desc level c D] it(1)
      by (simp add: add_draft_def Some r refines_accepted)
  qed (simp add: add_draft_def refines_refused)
  then show ?thesis
    unfolding apiAddApi_def by (intro refines_checked) (auto intro!: refines_refused split: option.split)
qed

lemma copy_refines:
  assumes "db_ok db" "any_order D"
  shows "refines D uid (CopyApi i d) db (apiCopyApiByApiDraftId D i d uid db)"
  unfolding apiCopyApiByApiDraftId_def
proof (intro refines_checked refines_draft)
  fix it s a
  assume it: "iteration_of db i = Some it" "service_of db (itr_service_id it) = Some s" "iterates db uid it s"
    and a: "draft_api db d = Some a" "apr_parent a = i"
  note k = keeps_copied(2,3) [OF assms creator_known [OF assms(1) it] a(1) _ refl]
  show "refines D uid (CopyApi i d) db (case insert_api (copied_row D uid a) (db_drafts db) of None \<Rightarrow> (Raised, db)
      | Some (n, dr) \<Rightarrow> (Reply 200 ''Copy api success'' None,
            db\<lparr>db_drafts := dr\<lparr>sd_req := copy_params_recursively n None (param_objects D d (sd_req dr)) (sd_req dr),
                               sd_resp := copy_params_recursively n None (param_objects D d (sd_resp dr)) (sd_resp dr)\<rparr>\<rparr>))"
    using only_drafts [OF k] abstract_step.copy [of "named (db_drafts db)", OF draft_named [OF a(1)]] a(2)
    by (auto intro!: refines_refused refines_accepted split: option.split)
qed

lemma delete_refines:
  assumes "db_ok db"
  shows "refines D uid (DeleteApi i d) db (apiDeleteApiByApiDraftId i d uid db)"
  unfolding apiDeleteApiByApiDraftId_def
proof (intro refines_checked refines_draft refines_accepted)
  fix a assume a: "draft_api db d = Some a" "apr_parent a = i"
  have "abstraction (db\<lparr>db_drafts := delete_api d (db_drafts db)\<rparr>) =
      (abstraction db)\<lparr>drf := (drf (abstraction db))(i := drf (abstraction db) i - {#api_content_of (db_drafts db) a#})\<rparr>"
    using keeps_deleted(2) [OF assms a(1)] a(2) by (intro only_drafts) auto
  then show "request_step D uid db (DeleteApi i d) (db\<lparr>db_drafts := delete_api d (db_drafts db)\<rparr>)"
    using abstract_step.delete [of "named (db_drafts db)", OF draft_named [OF a(1)]] a(2) by auto
qed

lemma rewrite_refines:
  assumes "db_ok db"
  shows "refines D uid (UpdateApi i d name verb url desc level rq rs) db (apiUpdateApiByApiDraftId i d uid name verb url desc level rq rs db)"
  unfolding apiUpdateApiByApiDraftId_def
proof (intro refines_checked refines_draft)
  fix a assume a: "draft_api db d = Some a" "apr_parent a = i"
  let ?y = "\<lparr>ac_api = updated_row name verb url desc level (ac_api (api_content_of (db_drafts db) a)),
    ac_req = input_design RequestKind None rq, ac_resp = input_design ResponseKind None rs\<rparr>"
  have "abstraction (db\<lparr>db_drafts := dr\<rparr>) =
      (abstraction db)\<lparr>drf := (drf (abstraction db))(i := add_mset ?y (drf (abstraction db) i - {#api_content_of (db_drafts db) a#}))\<rparr>"
    if "rewrite_api d (updated_row name verb url desc level) rq rs (db_drafts db) = Some dr" for dr
    using keeps_rewritten(2,3) [OF assms a(1) that] a(2) by (intro only_drafts) (auto simp: api_content_of_def)
  then show "refines D uid (UpdateApi i d name verb url desc level rq rs) db
      (case rewrite_api d (updated_row name verb url desc level) rq rs (db_drafts db) of None \<Rightarrow> (Raised, db)
       | Some dr \<Rightarrow> (Reply 200 ''Update api success'' None, db\<lparr>db_drafts := dr\<rparr>))"
    using abstract_step.rewrite [of "named (db_drafts db)", OF draft_named [OF a(1)] refl] a(2)
    by (auto intro!: refines_refused refines_accepted split: option.split)
qed


section \<open>Categories\<close>

lemma recategorized:
  "contents (set_category P c sd) p = image_mset (\<lambda>a. if P a then with_category c (api_content_of sd a) else api_content_of sd a) (mset (apis_for p sd))"
proof -
  let ?u = "\<lambda>a. if P a then a\<lparr>apr_category_id := c\<rparr> else a"
  have "apis_for p (set_category P c sd) = map ?u (apis_for p sd)"
    by (simp add: apis_for_def set_category_def filter_map comp_def if_distrib [of apr_parent])
  then show ?thesis
    by (auto simp: contents_def multiset.map_comp comp_def api_content_of_def set_category_def api_info_def with_category_def intro!: image_mset_cong)
qed

lemma uncategorized_contents: "contents (set_category (\<lambda>a. apr_category_id a = Some c) None sd) p = image_mset (drop_category c) (contents sd p)"
  unfolding recategorized
  by (auto simp: contents_def multiset.map_comp comp_def drop_category_def api_content_of_def api_info_def intro!: image_mset_cong)

lemma category_refines: "refines D uid (DeleteCategory c) db (apiDeleteCategoryById c uid db)"
proof -
  have "abstraction (db\<lparr>db_categories := t, db_published := set_category (\<lambda>a. apr_category_id a = Some c) None (db_published db),
      db_drafts := set_category (\<lambda>a. apr_category_id a = Some c) None (db_drafts db)\<rparr>) =
    (abstraction db)\<lparr>pub := \<lambda>s. image_mset (drop_category c) (pub (abstraction db) s), drf := \<lambda>i. image_mset (drop_category c) (drf (abstraction db) i)\<rparr>" for t
    by (simp add: abstraction_def uncategorized_contents fun_eq_iff)
  then show ?thesis
    using abstract_step.uncategorize [of D uid "named (db_drafts db)" _ "abstraction db" c]
    by (auto simp: apiDeleteCategoryById_def intro!: refining split: option.split)
qed

lemma moved_contents:
  assumes "side_ok sd" "get_row apr_id (sd_api sd) k = Some a"
  shows "contents (set_category (\<lambda>x. apr_id x = apr_id a) c sd) =
    (contents sd)(apr_parent a := add_mset (with_category c (api_content_of sd a)) (contents sd (apr_parent a) - {#api_content_of sd a#}))"
proof
  fix p
  let ?g = "\<lambda>x. if apr_id x = apr_id a then with_category c (api_content_of sd x) else api_content_of sd x"
  have a: "a \<in> set (tb_rows (sd_api sd))" using get_row_SomeD [OF assms(2)] by simp
  have other: "apr_id x = apr_id a \<Longrightarrow> x = a" if "x \<in> set (apis_for p sd)" for x
    using that a assms(1) distinct_keyD [of apr_id "tb_rows (sd_api sd)" x a] by (auto simp: apis_for_def side_ok_def table_ok_def)
  show "contents (set_category (\<lambda>x. apr_id x = apr_id a) c sd) p =
    ((contents sd)(apr_parent a := add_mset (with_category c (api_content_of sd a)) (contents sd (apr_parent a) - {#api_content_of sd a#}))) p"
  proof (cases "p = apr_parent a")
    case False
    have "?g x = api_content_of sd x" if "x \<in># mset (apis_for p sd)" for x
      using that False other [of x] by (auto simp: apis_for_def)
    then have "image_mset ?g (mset (apis_for p sd)) = contents sd p" unfolding contents_def by (rule image_mset_cong)
    then show ?thesis unfolding recategorized using False by simp
  next
    case True
    then obtain xs ys where l: "apis_for p sd = xs @ a # ys" using a split_list [of a "apis_for p sd"] by (auto simp: apis_for_def)
    have "distinct (apis_for p sd)" using apis_for_distinct [OF assms(1)] by (auto simp: distinct_map)
    then have "?g x = api_content_of sd x" if "x \<in># mset (xs @ ys)" for x
      using that other [of x] unfolding l by auto
    then have g: "image_mset ?g (mset (xs @ ys)) = image_mset (api_content_of sd) (mset (xs @ ys))" by (rule image_mset_cong)
    have M: "mset (apis_for p sd) = add_mset a (mset (xs @ ys))" using l by simp
    then show ?thesis unfolding recategorized using True g by (simp only: M contents_def image_mset_add_mset) simp
  qed
qed

lemma move_refines:
  assumes "db_ok db"
  shows "refines D uid (UpdateApiCategory k c) db (apiUpdateApiCategory k c uid db)"
proof -
  have "refines D uid (UpdateApiCategory k c) db (recategorize a c db)" if a: "published_api db k = Some a" for a
  proof -
    let ?c = "if c = -1 then None else Some c"
    have "abstraction (db\<lparr>db_published := set_category (\<lambda>x. apr_id x = apr_id a) ?c (db_published db)\<rparr>) =
      (abstraction db)\<lparr>pub := (pub (abstraction db))(apr_parent a := add_mset (with_category ?c (api_content_of (db_published db) a))
        (pub (abstraction db) (apr_parent a) - {#api_content_of (db_published db) a#}))\<rparr>"
      using moved_contents [OF db_okD(5) [OF assms] a] by (simp add: abstraction_def)
    moreover have "named (db_published db) k = Some (apr_parent a, api_content_of (db_published db) a)" using a by (simp add: named_def)
    moreover have "api_content_of (db_published db) a \<in># pub (abstraction db) (apr_parent a)"
      using get_row_SomeD [OF a] by (auto simp: contents_def apis_for_def)
    ultimately have "request_step D uid db (UpdateApiCategory k c) (db\<lparr>db_published := set_category (\<lambda>x. apr_id x = apr_id a) ?c (db_published db)\<rparr>)"
      using abstract_step.move [of "named (db_published db)" k _ _ "abstraction db" _ c D uid] by simp
    then show ?thesis
      by (auto simp: recategorize_def intro!: refines_refused refines_accepted split: option.split)
  qed
  then show ?thesis by (auto simp: apiUpdateApiCategory_def intro!: refining split: option.split)
qed

section \<open>Every request\<close>

text \<open>
  C6: Every accepted request is the step of its kind: starting copies the contents of the service into an iteration that is
  new, committing replaces the contents of its service by those of the iteration, adding, copying, deleting and rewriting change
  the one API that is named and no other, moving an API or deleting a category changes categories only, and the
  remaining requests no contents at all.  A request that is not accepted changes no contents, except that a commit whose
  mail cannot be sent has been made.
\<close>

theorem requests_refine:
  assumes "served db" "any_order D"
  shows "if answered D uid e db = Some 200 then request_step D uid db e (handle D uid e db)
    else abstraction (handle D uid e db) = abstraction db \<or>
      (\<exists>i v. e = CommitIteration i v) \<and> smtp_configured D \<and> answered D uid e db = None \<and> request_step D uid db e (handle D uid e db)"
proof -
  have ok: "db_ok db" by (rule run_keeps_database [OF assms(1)])
  note quiet = quiet_requests quiet_update quiet_description
  show ?thesis
  proof (cases e)
    case (CommitIteration i v)
    then show ?thesis using commit_refines [OF ok assms(2), of uid i v] by (auto simp: refines_def status_of_def split: if_splits)
  next
    case (StartIteration i)
    then show ?thesis using start_refines [OF ok assms(2), of uid i] by (auto simp: refines_def)
  next
    case (CopyApi i d)
    then show ?thesis using copy_refines [OF ok assms(2), of uid i d] by (auto simp: refines_def)
  next
    case (DeleteIteration i)
    then show ?thesis using discard_refines [of D uid i db] by (auto simp: refines_def)
  next
    case (DeleteCategory c)
    then show ?thesis using category_refines [of D uid c db] by (auto simp: refines_def)
  next
    case (UpdateApiCategory k c)
    then show ?thesis using move_refines [OF ok, of D uid k c] by (auto simp: refines_def)
  next
    case (AddApi i name verb url desc level c)
    then show ?thesis using add_refines [OF ok, of D uid i name verb url desc level c] by (auto simp: refines_def)
  next
    case (DeleteApi i d)
    then show ?thesis using delete_refines [OF ok, of D uid i d] by (auto simp: refines_def)
  next
    case (UpdateApi i d name verb url desc level rq rs)
    then show ?thesis using rewrite_refines [OF ok, of D uid i d name verb url desc level rq rs] by (auto simp: refines_def)
  qed (simp_all add: quiet abstract_step.intros(10-))
qed

theorem requests_refine_witness:
  "pub (abstraction (handle demo_server 1 (CommitIteration 1 ''1.0.0'') demo_run)) 1 = drf (abstraction demo_run) 1"
proof -
  have "answered demo_server 1 (CommitIteration 1 ''1.0.0'') demo_run = Some 200" by code_simp
  then have "request_step demo_server 1 demo_run (CommitIteration 1 ''1.0.0'') (handle demo_server 1 (CommitIteration 1 ''1.0.0'') demo_run)"
    using requests_refine [OF demo_served demo_order, of 1 "CommitIteration 1 ''1.0.0''"] by simp
  then show ?thesis using demo_run_values(1) by (cases rule: abstract_step.cases) simp_all
qed

end
