(* ===== verification/Ts_Interfaces.thy ===== *)
theory Ts_Interfaces
  imports Http
begin

text \<open>
  The interfaces that both TypeScript packages declare for the bodies of requests and answers
  (\<open>services/*/types.ts\<close>), as types of JSON values.  The programs cast an answer to its interface without
  looking at it; whether the values of the server have the declared types is a property of the server.

  An optional member may be missing or \<open>null\<close>: the programs test such members for truth, which does not
  tell the two apart.  A value may have more members than its interface.
\<close>

section \<open>Types of JSON values\<close>

text \<open>
  \<open>TTree fs k\<close> is an interface with the members \<open>fs\<close> and an optional member \<open>k\<close>, an array of values of the
  interface itself.  A member is its name, whether it is optional, and its type.
\<close>

datatype ts_type =
  TString | TNumber | TBoolean | TAny
| TNull ts_type
| TLiteral "string list"
| TArray ts_type
| TRecord ts_type
| TInterface "(string \<times> bool \<times> ts_type) list"
| TTree "(string \<times> bool \<times> ts_type) list" string
| TUnion ts_type ts_type

type_synonym members = "(string \<times> bool \<times> ts_type) list"

text \<open>\<open>has_members P fs ms\<close>: the members \<open>ms\<close> are those of the interface, where \<open>P\<close> is the test of a type.\<close>

definition has_member :: "(ts_type \<Rightarrow> jval \<Rightarrow> bool) \<Rightarrow> (string \<times> jval) list \<Rightarrow> string \<times> bool \<times> ts_type \<Rightarrow> bool" where
  "has_member P ms f =
     (case f of (k, opt, t) \<Rightarrow>
        (case map_of ms k of
           None \<Rightarrow> opt
         | Some v \<Rightarrow> (opt \<and> (v = JNull \<or> v = JUndefined)) \<or> P t v))"

lemma has_member_cong [fundef_cong]:
  assumes "ms = ms'" "f = f'" "\<And>v. v \<in> snd ` set ms' \<Longrightarrow> P (snd (snd f')) v = Q (snd (snd f')) v"
  shows "has_member P ms f = has_member Q ms' f'"
proof (cases "map_of ms' (fst f')")
  case (Some v)
  then have "v \<in> snd ` set ms'" by (metis map_of_SomeD imageI snd_conv)
  then show ?thesis using assms Some by (simp add: has_member_def case_prod_unfold)
qed (simp add: assms has_member_def case_prod_unfold)

lemma size_pair: "(k, v) \<in> set ms \<Longrightarrow> size v < Suc (size_list (size_prod (\<lambda>x. 0) size) ms)"
  by (induction ms) auto

lemma size_member: "v \<in> snd ` set ms \<Longrightarrow> size v < Suc (size_list (size_prod (\<lambda>x. 0) size) ms)"
  using size_pair by force

lemma size_field: "f \<in> set fs \<Longrightarrow> size (snd (snd f)) < Suc (size_list (size_prod (\<lambda>x. 0) (size_prod (\<lambda>x. 0) size)) fs)"
  by (induction fs) auto

lemma size_element: "v \<in> set vs \<Longrightarrow> size v < Suc (size_list size vs)"
  by (induction vs) auto

lemma size_both:
  "f \<in> set fs \<Longrightarrow> v \<in> snd ` set ms \<Longrightarrow>
   size (snd (snd f)) + size v < Suc (Suc (size_list (size_prod (\<lambda>x. 0) (size_prod (\<lambda>x. 0) size)) fs + size_list (size_prod (\<lambda>x. 0) size) ms))"
  using size_field [of f fs] size_member [of v ms] by linarith

text \<open>A value with the members \<open>k\<close> that are arrays of trees again: the values below it.\<close>

definition branches :: "string \<Rightarrow> (string \<times> jval) list \<Rightarrow> jval list option" where
  "branches k ms =
     (case map_of ms k of None \<Rightarrow> Some [] | Some JNull \<Rightarrow> Some [] | Some (JArr vs) \<Rightarrow> Some vs | Some _ \<Rightarrow> None)"

lemma size_branch:
  assumes "branches k ms = Some vs" "v \<in> set vs"
  shows "size v < Suc (size_list (size_prod (\<lambda>x. 0) size) ms)"
proof -
  have m: "map_of ms k = Some (JArr vs)"
    using assms by (auto simp: branches_def split: option.splits jval.splits)
  have "size (JArr vs) < Suc (size_list (size_prod (\<lambda>x. 0) size) ms)" by (rule size_pair [OF map_of_SomeD [OF m]])
  moreover have "size v < size (JArr vs)" using size_element [OF assms(2)] by simp
  ultimately show ?thesis by simp
qed

function conforms :: "ts_type \<Rightarrow> jval \<Rightarrow> bool" where
  "conforms TString v = (case v of JStr _ \<Rightarrow> True | JText _ \<Rightarrow> True | _ \<Rightarrow> False)"
| "conforms TNumber v = (case v of JInt _ \<Rightarrow> True | _ \<Rightarrow> False)"
| "conforms TBoolean v = (case v of JBool _ \<Rightarrow> True | _ \<Rightarrow> False)"
| "conforms TAny v = True"
| "conforms (TNull t) v = (v = JNull \<or> conforms t v)"
| "conforms (TLiteral ls) v = (case v of JStr s \<Rightarrow> s \<in> set ls | _ \<Rightarrow> False)"
| "conforms (TArray t) v = (case v of JArr vs \<Rightarrow> list_all (conforms t) vs | _ \<Rightarrow> False)"
| "conforms (TRecord t) v = (case v of JObj ms \<Rightarrow> list_all (conforms t) (map snd ms) | _ \<Rightarrow> False)"
| "conforms (TInterface fs) v = (case v of JObj ms \<Rightarrow> list_all (has_member conforms ms) fs | _ \<Rightarrow> False)"
| "conforms (TTree fs k) v =
     (case v of
        JObj ms \<Rightarrow> list_all (has_member conforms ms) fs \<and> (case branches k ms of None \<Rightarrow> False | Some vs \<Rightarrow> list_all (conforms (TTree fs k)) vs)
      | _ \<Rightarrow> False)"
| "conforms (TUnion t u) v = (conforms t v \<or> conforms u v)"
  by pat_completeness auto

termination
  by (relation "measure (\<lambda>(t, v). size t + size v)")
    (auto simp: size_both size_element size_branch size_member less_SucI)

text \<open>An interface is looked into only when it is asked for.\<close>

declare conforms.simps(9) [simp del]

lemma conformsI: "list_all (has_member conforms ms) fs \<Longrightarrow> conforms (TInterface fs) (JObj ms)"
  by (simp add: conforms.simps(9))

lemma conformsD: "conforms (TInterface fs) (JObj ms) \<Longrightarrow> list_all (has_member conforms ms) fs"
  by (simp add: conforms.simps(9))

lemma has_member_simps [simp]:
  "has_member P ms (k, opt, t) \<longleftrightarrow> (case map_of ms k of None \<Rightarrow> opt | Some v \<Rightarrow> (opt \<and> (v = JNull \<or> v = JUndefined)) \<or> P t v)"
  by (simp add: has_member_def)

end
