(* ===== verification/Services_Types.thy ===== *)
theory Services_Types
  imports Ts_Interfaces
begin

text \<open>
  The interfaces of \<open>services/user\<close>, \<open>services/service\<close> and \<open>services/api\<close> as they are declared in \<open>FE-CAM/src\<close>;
  the command-line tool has copies of the same files.  An interface that is extended, and one that is not a tree, is
  the list of its members.  The interfaces of \<open>api/types.ts\<close> that another module also declares have the prefix \<open>api_\<close>.
\<close>

named_theorems ts "definitions of interfaces"

text \<open>The closed unions of \<open>services/api/types.ts\<close>.\<close>

definition HttpMethod_ts :: ts_type where [ts]:
  "HttpMethod_ts = TLiteral [''GET'', ''POST'', ''PUT'', ''DELETE'', ''PATCH'']"

definition ApiLevel_ts :: ts_type where [ts]:
  "ApiLevel_ts = TLiteral [''P0'', ''P1'', ''P2'', ''P3'', ''P4'']"

definition ParamLocation_ts :: ts_type where [ts]:
  "ParamLocation_ts = TLiteral [''query'', ''path'', ''header'', ''cookie'', ''body'']"

definition ParamType_ts :: ts_type where [ts]:
  "ParamType_ts = TLiteral [''string'', ''int'', ''double'', ''boolean'', ''array'', ''object'', ''binary'']"

section \<open>\<open>services/user/types.ts\<close>\<close>

definition LoginRequest_ts :: members where [ts]:
  "LoginRequest_ts =
    [(''username'', False, TString), (''password'', False, TString)]"

definition LoginResponse_ts :: members where [ts]:
  "LoginResponse_ts =
    [(''status'', False, TNumber), (''message'', False, TString), (''access_token'', False, TString)]"

definition RegisterRequest_ts :: members where [ts]:
  "RegisterRequest_ts =
    [(''username'', False, TString), (''password'', False, TString), (''nickname'', False, TString),
     (''email'', False, TString), (''role'', False, TString)]"

definition RegisterResponse_ts :: members where [ts]:
  "RegisterResponse_ts =
    [(''status'', False, TNumber), (''message'', False, TString)]"

definition ModifyPasswordRequest_ts :: members where [ts]:
  "ModifyPasswordRequest_ts =
    [(''old_password'', False, TString), (''new_password'', False, TString)]"

definition ModifyPasswordResponse_ts :: members where [ts]:
  "ModifyPasswordResponse_ts =
    [(''status'', False, TNumber), (''message'', False, TString)]"

definition UserProfile_ts :: members where [ts]:
  "UserProfile_ts =
    [(''id'', False, TNumber), (''username'', False, TString), (''nickname'', False, TString), (''email'', False, TString),
     (''role'', False, TString), (''level'', False, TNumber), (''created_at'', False, TString)]"

definition UserResponse_ts :: members where [ts]:
  "UserResponse_ts =
    [(''status'', False, TNumber), (''message'', False, TString), (''user'', False, TInterface UserProfile_ts)]"

definition GetUserByUsernameOrNicknameOrEmailResponse_ts :: members where [ts]:
  "GetUserByUsernameOrNicknameOrEmailResponse_ts =
    [(''status'', False, TNumber), (''message'', False, TString), (''users'', False, TArray (TInterface UserProfile_ts))]"

section \<open>\<open>services/service/types.ts\<close>\<close>

definition BaseResponse_ts :: members where [ts]:
  "BaseResponse_ts =
    [(''status'', False, TNumber), (''message'', False, TString)]"

definition ServiceItem_ts :: members where [ts]:
  "ServiceItem_ts =
    [(''id'', False, TNumber), (''service_uuid'', False, TString), (''version'', False, TString),
     (''description'', True, TNull TString), (''owner_id'', False, TNumber), (''created_at'', False, TString),
     (''is_deleted'', False, TBoolean), (''owner'', True, TNull (TInterface UserProfile_ts))]"

definition DeletedServiceItem_ts :: members where [ts]:
  "DeletedServiceItem_ts = ServiceItem_ts @
    [(''deleted_at'', False, TString)]"

definition AllServiceItem_ts :: members where [ts]:
  "AllServiceItem_ts = DeletedServiceItem_ts"

definition ApiBrief_ts :: members where [ts]:
  "ApiBrief_ts =
    [(''id'', False, TNumber), (''name'', False, TString), (''method'', False, HttpMethod_ts), (''path'', False, TString),
     (''description'', True, TNull TString), (''level'', True, TString), (''is_enabled'', True, TBoolean),
     (''category_id'', True, TNull TNumber)]"

definition ApiCategory_ts :: members where [ts]:
  "ApiCategory_ts =
    [(''id'', False, TNumber), (''name'', False, TString), (''description'', True, TNull TString)]"

definition ServiceIteration_ts :: members where [ts]:
  "ServiceIteration_ts =
    [(''id'', False, TNumber), (''service_id'', False, TNumber), (''creator_id'', True, TNull TNumber),
     (''version'', True, TNull TString), (''description'', True, TNull TString), (''is_committed'', False, TBoolean),
     (''created_at'', True, TString)]"

definition ServiceDetail_ts :: members where [ts]:
  "ServiceDetail_ts = ServiceItem_ts @
    [(''owner_id'', False, TNumber), (''owner'', True, TNull (TInterface UserProfile_ts)),
     (''maintainers'', True, TArray (TInterface UserProfile_ts)), (''apis'', True, TArray (TInterface ApiBrief_ts)),
     (''api_categories'', True, TArray (TInterface ApiCategory_ts)),
     (''iterations'', True, TArray (TInterface ServiceIteration_ts)), (''created_at'', False, TString),
     (''updated_at'', True, TString), (''is_deleted'', False, TBoolean), (''deleted_at'', True, TString)]"

definition ServiceIterationDetail_ts :: members where [ts]:
  "ServiceIterationDetail_ts = ServiceIteration_ts @
    [(''service'', True, TInterface ServiceItem_ts), (''creator'', False, TInterface UserProfile_ts),
     (''api_drafts'', True, TArray (TInterface ApiBrief_ts))]"

definition ServiceListResponse_ts :: members where [ts]:
  "ServiceListResponse_ts = BaseResponse_ts @
    [(''services'', False, TArray (TInterface ServiceItem_ts)), (''total'', False, TNumber)]"

definition GetServiceByIdResponse_ts :: members where [ts]:
  "GetServiceByIdResponse_ts = BaseResponse_ts @
    [(''service'', False, TInterface ServiceDetail_ts)]"

definition GetServiceByUuidAndVersionResponse_ts :: members where [ts]:
  "GetServiceByUuidAndVersionResponse_ts = BaseResponse_ts @
    [(''service'', False, TUnion (TInterface ServiceDetail_ts) (TInterface ServiceIterationDetail_ts)),
     (''is_latest'', False, TBoolean)]"

definition GetAllVersionsByUuidResponse_ts :: members where [ts]:
  "GetAllVersionsByUuidResponse_ts = BaseResponse_ts @
    [(''versions'', False, TArray (TInterface [(''version'', False, TString), (''is_latest'', False, TBoolean)]))]"

definition CreateNewServiceRequest_ts :: members where [ts]:
  "CreateNewServiceRequest_ts =
    [(''service_uuid'', False, TString), (''description'', False, TString)]"

definition CreateNewServiceResponse_ts :: members where [ts]:
  "CreateNewServiceResponse_ts = BaseResponse_ts @
    [(''service'', False, TInterface ServiceDetail_ts)]"

definition GetAllDeletedServicesByUserIdResponse_ts :: members where [ts]:
  "GetAllDeletedServicesByUserIdResponse_ts = BaseResponse_ts @
    [(''deleted_services'', False, TArray (TInterface DeletedServiceItem_ts)), (''total'', False, TNumber)]"

definition GetAllServicesResponse_ts :: members where [ts]:
  "GetAllServicesResponse_ts = BaseResponse_ts @
    [(''services'', False, TArray (TInterface AllServiceItem_ts)), (''total'', False, TNumber)]"

definition DeleteServiceByIdRequest_ts :: members where [ts]:
  "DeleteServiceByIdRequest_ts =
    [(''id'', False, TNumber)]"

definition DeleteServiceByIdResponse_ts :: members where [ts]:
  "DeleteServiceByIdResponse_ts = BaseResponse_ts"

definition RestoreServiceByIdRequest_ts :: members where [ts]:
  "RestoreServiceByIdRequest_ts =
    [(''id'', False, TNumber)]"

definition RestoreServiceByIdResponse_ts :: members where [ts]:
  "RestoreServiceByIdResponse_ts = BaseResponse_ts"

definition DeleteIterationByIdRequest_ts :: members where [ts]:
  "DeleteIterationByIdRequest_ts =
    [(''service_iteration_id'', False, TNumber)]"

definition DeleteIterationByIdResponse_ts :: members where [ts]:
  "DeleteIterationByIdResponse_ts = BaseResponse_ts"

definition GetIterationByIdResponse_ts :: members where [ts]:
  "GetIterationByIdResponse_ts = BaseResponse_ts @
    [(''iteration'', False, TInterface ServiceIterationDetail_ts)]"

definition StartIterationRequest_ts :: members where [ts]:
  "StartIterationRequest_ts =
    [(''service_id'', False, TNumber)]"

definition StartIterationResponse_ts :: members where [ts]:
  "StartIterationResponse_ts = BaseResponse_ts @
    [(''service_iteration_id'', False, TNumber)]"

definition CommitIterationRequest_ts :: members where [ts]:
  "CommitIterationRequest_ts =
    [(''service_iteration_id'', False, TNumber), (''new_version'', False, TString)]"

definition CommitIterationResponse_ts :: members where [ts]:
  "CommitIterationResponse_ts = BaseResponse_ts @
    [(''service_id'', False, TNumber), (''service_iteration_id'', False, TNumber), (''version'', False, TString)]"

definition UpdateDescriptionRequest_ts :: members where [ts]:
  "UpdateDescriptionRequest_ts =
    [(''service_iteration_id'', False, TNumber), (''description'', False, TString)]"

definition UpdateDescriptionResponse_ts :: members where [ts]:
  "UpdateDescriptionResponse_ts = BaseResponse_ts"

definition IsServiceMaintainerRequest_ts :: members where [ts]:
  "IsServiceMaintainerRequest_ts =
    [(''service_id'', False, TNumber), (''candidate_id'', False, TNumber)]"

definition IsServiceMaintainerResponse_ts :: members where [ts]:
  "IsServiceMaintainerResponse_ts = BaseResponse_ts @
    [(''is_current_maintainer'', False, TBoolean)]"

definition AddOrRemoveServiceMaintainerByIdRequest_ts :: members where [ts]:
  "AddOrRemoveServiceMaintainerByIdRequest_ts =
    [(''service_id'', False, TNumber), (''candidate_id'', False, TNumber)]"

definition AddOrRemoveServiceMaintainerByIdResponse_ts :: members where [ts]:
  "AddOrRemoveServiceMaintainerByIdResponse_ts = BaseResponse_ts @
    [(''is_current_maintainer'', False, TBoolean)]"

definition ExportOpenapiByUuidAndVersionResponse_ts :: members where [ts]:
  "ExportOpenapiByUuidAndVersionResponse_ts = BaseResponse_ts @
    [(''openapi_object'', False, TRecord TAny), (''is_latest'', False, TBoolean)]"

section \<open>\<open>services/api/types.ts\<close>\<close>

definition api_BaseResponse_ts :: members where [ts]:
  "api_BaseResponse_ts =
    [(''status'', False, TNumber), (''message'', False, TString)]"

definition api_ServiceItem_ts :: members where [ts]:
  "api_ServiceItem_ts =
    [(''id'', False, TNumber), (''service_uuid'', False, TString), (''version'', False, TString),
     (''description'', True, TNull TString)]"

definition api_ApiCategory_ts :: members where [ts]:
  "api_ApiCategory_ts =
    [(''id'', False, TNumber), (''name'', False, TString), (''description'', True, TNull TString)]"

definition api_ApiBrief_ts :: members where [ts]:
  "api_ApiBrief_ts =
    [(''id'', False, TNumber), (''name'', False, TString), (''method'', False, HttpMethod_ts), (''path'', False, TString),
     (''description'', True, TNull TString), (''level'', True, ApiLevel_ts), (''is_enabled'', True, TBoolean),
     (''category_id'', True, TNull TNumber)]"

definition RequestParam_ts :: ts_type where [ts]:
  "RequestParam_ts = TTree
    [(''id'', False, TNumber), (''api_id'', False, TNumber), (''name'', False, TString),
     (''location'', False, ParamLocation_ts), (''type'', False, ParamType_ts), (''required'', False, TBoolean),
     (''default_value'', True, TNull TString), (''description'', True, TNull TString), (''example'', True, TNull TString),
     (''array_child_type'', True, TNull ParamType_ts), (''parent_param_id'', True, TNull TNumber)]
    ''children_params''"

definition ResponseParam_ts :: ts_type where [ts]:
  "ResponseParam_ts = TTree
    [(''id'', False, TNumber), (''api_id'', False, TNumber), (''status_code'', False, TNumber), (''name'', False, TString),
     (''type'', False, ParamType_ts), (''required'', False, TBoolean), (''description'', True, TNull TString),
     (''example'', True, TNull TString), (''array_child_type'', True, TNull ParamType_ts),
     (''parent_param_id'', True, TNull TNumber)]
    ''children_params''"

definition ApiDetail_ts :: members where [ts]:
  "ApiDetail_ts = api_ApiBrief_ts @
    [(''service_id'', False, TNumber), (''owner_id'', False, TNumber), (''created_at'', True, TString),
     (''updated_at'', True, TString), (''owner'', True, TNull (TInterface UserProfile_ts)),
     (''category'', True, TNull (TInterface api_ApiCategory_ts)),
     (''service'', True, TNull (TInterface api_ServiceItem_ts)), (''request_params'', True, TArray RequestParam_ts),
     (''response_params'', True, TArray ResponseParam_ts),
     (''request_params_by_location'', True, TInterface (map (\<lambda>l. (l, False, TArray RequestParam_ts)) ParamLocations)),
     (''response_params_by_status_code'', True, TRecord (TArray ResponseParam_ts))]"

definition RequestParamDraft_ts :: ts_type where [ts]:
  "RequestParamDraft_ts = TTree
    [(''id'', False, TNumber), (''api_draft_id'', False, TNumber), (''name'', False, TString),
     (''location'', False, TUnion ParamLocation_ts TString), (''type'', False, ParamType_ts),
     (''required'', False, TBoolean), (''default_value'', True, TNull TString), (''description'', True, TNull TString),
     (''example'', True, TNull TString), (''array_child_type'', True, TNull ParamType_ts),
     (''parent_param_id'', True, TNull TNumber)]
    ''children_params''"

definition ResponseParamDraft_ts :: ts_type where [ts]:
  "ResponseParamDraft_ts = TTree
    [(''id'', False, TNumber), (''api_draft_id'', False, TNumber), (''status_code'', False, TNumber),
     (''name'', False, TString), (''type'', False, ParamType_ts), (''required'', False, TBoolean),
     (''description'', True, TNull TString), (''example'', True, TNull TString),
     (''array_child_type'', True, TNull ParamType_ts), (''parent_param_id'', True, TNull TNumber)]
    ''children_params''"

definition ApiDraftItem_ts :: members where [ts]:
  "ApiDraftItem_ts =
    [(''id'', False, TNumber), (''service_iteration_id'', False, TNumber), (''owner_id'', False, TNumber),
     (''category_id'', True, TNull TNumber), (''name'', False, TString), (''method'', False, HttpMethod_ts),
     (''path'', False, TString), (''description'', True, TNull TString), (''level'', True, ApiLevel_ts),
     (''is_enabled'', True, TBoolean), (''created_at'', True, TString), (''updated_at'', True, TString),
     (''owner'', True, TNull (TInterface UserProfile_ts)), (''category'', True, TNull (TInterface api_ApiCategory_ts))]"

definition ApiDraftDetail_ts :: members where [ts]:
  "ApiDraftDetail_ts = ApiDraftItem_ts @
    [(''request_params'', True, TArray RequestParamDraft_ts), (''response_params'', True, TArray ResponseParamDraft_ts),
     (''request_params_by_location'', True, TInterface (map (\<lambda>l. (l, False, TArray RequestParamDraft_ts)) ParamLocations)),
     (''response_params_by_status_code'', True, TRecord (TArray ResponseParamDraft_ts))]"

definition GetAllCategoriesByServiceIdRequest_ts :: members where [ts]:
  "GetAllCategoriesByServiceIdRequest_ts =
    [(''service_id'', False, TNumber)]"

definition GetAllCategoriesByServiceIdResponse_ts :: members where [ts]:
  "GetAllCategoriesByServiceIdResponse_ts = api_BaseResponse_ts @
    [(''categories'', False, TArray (TInterface api_ApiCategory_ts))]"

definition GetAllApisByServiceIdRequest_ts :: members where [ts]:
  "GetAllApisByServiceIdRequest_ts =
    [(''service_id'', False, TNumber), (''category_id'', False, TNumber)]"

definition GetAllApisByServiceIdResponse_ts :: members where [ts]:
  "GetAllApisByServiceIdResponse_ts = api_BaseResponse_ts @
    [(''apis'', False, TArray (TInterface api_ApiBrief_ts))]"

definition GetApiByIdRequest_ts :: members where [ts]:
  "GetApiByIdRequest_ts =
    [(''api_id'', False, TNumber), (''is_latest'', True, TBoolean)]"

definition GetApiByIdResponse_ts :: members where [ts]:
  "GetApiByIdResponse_ts = api_BaseResponse_ts @
    [(''api'', False, TUnion (TInterface ApiDetail_ts) (TInterface ApiDraftDetail_ts))]"

definition AddCategoryByServiceIdRequest_ts :: members where [ts]:
  "AddCategoryByServiceIdRequest_ts =
    [(''service_id'', False, TNumber), (''category_name'', False, TString), (''description'', False, TNull TString)]"

definition AddCategoryByServiceIdResponse_ts :: members where [ts]:
  "AddCategoryByServiceIdResponse_ts = api_BaseResponse_ts @
    [(''category'', False, TInterface api_ApiCategory_ts)]"

definition DeleteCategoryByIdRequest_ts :: members where [ts]:
  "DeleteCategoryByIdRequest_ts =
    [(''category_id'', False, TNumber)]"

definition DeleteCategoryByIdResponse_ts :: members where [ts]:
  "DeleteCategoryByIdResponse_ts = api_BaseResponse_ts"

definition UpdateCategoryByIdRequest_ts :: members where [ts]:
  "UpdateCategoryByIdRequest_ts =
    [(''category_id'', False, TNumber), (''category_name'', False, TNull TString), (''description'', False, TNull TString)]"

definition UpdateCategoryByIdResponse_ts :: members where [ts]:
  "UpdateCategoryByIdResponse_ts = api_BaseResponse_ts @
    [(''category'', False, TInterface api_ApiCategory_ts)]"

definition UpdateApiCategoryByIdRequest_ts :: members where [ts]:
  "UpdateApiCategoryByIdRequest_ts =
    [(''api_id'', False, TNumber), (''category_id'', False, TNumber)]"

definition UpdateApiCategoryByIdResponse_ts :: members where [ts]:
  "UpdateApiCategoryByIdResponse_ts = api_BaseResponse_ts"

definition AddApiRequest_ts :: members where [ts]:
  "AddApiRequest_ts =
    [(''service_iteration_id'', False, TNumber), (''name'', False, TString), (''method'', False, HttpMethod_ts),
     (''path'', False, TString), (''description'', False, TString), (''level'', False, ApiLevel_ts),
     (''category_id'', True, TNull TNumber)]"

definition AddApiResponse_ts :: members where [ts]:
  "AddApiResponse_ts = api_BaseResponse_ts @
    [(''api'', False, TInterface ApiDraftItem_ts)]"

definition DeleteApiByApiDraftIdRequest_ts :: members where [ts]:
  "DeleteApiByApiDraftIdRequest_ts =
    [(''service_iteration_id'', False, TNumber), (''api_draft_id'', False, TNumber)]"

definition DeleteApiByApiDraftIdResponse_ts :: members where [ts]:
  "DeleteApiByApiDraftIdResponse_ts = api_BaseResponse_ts"

definition ApiReqParamInput_ts :: ts_type where [ts]:
  "ApiReqParamInput_ts = TTree
    [(''name'', False, TString), (''type'', False, ParamType_ts), (''location'', True, ParamLocation_ts),
     (''required'', True, TBoolean), (''default_value'', True, TNull TString), (''description'', True, TNull TString),
     (''example'', True, TNull TString), (''array_child_type'', True, TNull ParamType_ts)]
    ''children''"

definition ApiRespParamInput_ts :: ts_type where [ts]:
  "ApiRespParamInput_ts = TTree
    [(''status_code'', True, TNumber), (''name'', False, TString), (''type'', False, ParamType_ts),
     (''required'', True, TBoolean), (''description'', True, TNull TString), (''example'', True, TNull TString),
     (''array_child_type'', True, TNull ParamType_ts)]
    ''children''"

definition UpdateApiByApiDraftIdRequest_ts :: members where [ts]:
  "UpdateApiByApiDraftIdRequest_ts =
    [(''service_iteration_id'', False, TNumber), (''api_draft_id'', False, TNumber), (''name'', False, TString),
     (''method'', False, HttpMethod_ts), (''path'', False, TString), (''description'', False, TString),
     (''level'', False, ApiLevel_ts), (''req_params'', False, TArray ApiReqParamInput_ts),
     (''resp_params'', False, TArray ApiRespParamInput_ts)]"

definition UpdateApiByApiDraftIdResponse_ts :: members where [ts]:
  "UpdateApiByApiDraftIdResponse_ts = api_BaseResponse_ts"

end
