(* ===== verification/Be_Json.thy ===== *)
theory Be_Json
  imports Be_Front Services_Types
begin

text \<open>
  The answers of the back end as JSON: \<open>SerializableMixin.toJson\<close> of \<open>database/models.py\<close> for every table, and the members
  the handlers add.  A member of an enumeration is written as its value.

  Times of creation and change are set by the database: their texts, and that of the time of a deletion, are parameters, and so
  are the order in which the database sorts users and the JSON of a number with a fraction.
\<close>

section \<open>Rows\<close>

record row_texts =
  stamp :: "string \<Rightarrow> int \<Rightarrow> string"
  iso :: "nat \<Rightarrow> string"
  users_in_order :: "user_row list \<Rightarrow> user_row list"
  float_of :: "string \<Rightarrow> jval option"

definition null_or :: "('a \<Rightarrow> jval) \<Rightarrow> 'a option \<Rightarrow> jval" where
  "null_or f x = (case x of None \<Rightarrow> JNull | Some v \<Rightarrow> f v)"

lemma null_or_simps [simp]: "null_or f None = JNull" "null_or f (Some v) = f v"
  by (simp_all add: null_or_def)

text \<open>The columns; the password is excluded.\<close>

definition user_json :: "row_texts \<Rightarrow> user_row \<Rightarrow> jval" where
  "user_json T u = JObj
     [(''id'', JInt (usr_id u)), (''username'', JStr (usr_username u)), (''nickname'', null_or JStr (usr_nickname u)),
      (''email'', null_or JStr (usr_email u)), (''role'', JStr (usr_role u)), (''level'', JInt (usr_level u)),
      (''created_at'', JStr (stamp T ''user.created_at'' (usr_id u)))]"

definition service_columns :: "row_texts \<Rightarrow> service_row \<Rightarrow> (string \<times> jval) list" where
  "service_columns T s =
     [(''id'', JInt (srv_id s)), (''owner_id'', JInt (srv_owner_id s)), (''service_uuid'', JStr (srv_service_uuid s)),
      (''version'', JStr (srv_version s)), (''description'', null_or JStr (srv_description s)),
      (''created_at'', JStr (stamp T ''service.created_at'' (srv_id s))), (''updated_at'', JStr (stamp T ''service.updated_at'' (srv_id s))),
      (''is_deleted'', JBool (srv_is_deleted s)), (''deleted_at'', null_or (\<lambda>t. JStr (iso T t)) (srv_deleted_at s))]"

definition iteration_columns :: "row_texts \<Rightarrow> iteration_row \<Rightarrow> (string \<times> jval) list" where
  "iteration_columns T it =
     [(''id'', JInt (itr_id it)), (''service_id'', JInt (itr_service_id it)), (''creator_id'', JInt (itr_creator_id it)),
      (''version'', null_or JStr (itr_version it)), (''description'', null_or JStr (itr_description it)),
      (''created_at'', JStr (stamp T ''service_iteration.created_at'' (itr_id it))), (''is_committed'', JBool (itr_is_committed it))]"

definition category_json :: "category_row \<Rightarrow> jval" where
  "category_json c = JObj
     [(''id'', JInt (ctr_id c)), (''service_id'', JInt (ctr_service_id c)), (''name'', JStr (ctr_name c)),
      (''description'', null_or JStr (ctr_description c))]"

text \<open>An \<open>Api\<close> refers to its service, an \<open>ApiDraft\<close> to its iteration.\<close>

definition api_columns :: "row_texts \<Rightarrow> bool \<Rightarrow> api_row \<Rightarrow> (string \<times> jval) list" where
  "api_columns T draft a =
     (let table = (if draft then ''api_draft'' else ''api'')
      in [(''id'', JInt (apr_id a)), (if draft then ''service_iteration_id'' else ''service_id'', JInt (apr_parent a)),
          (''owner_id'', JInt (apr_owner_id a)), (''category_id'', null_or JInt (apr_category_id a)), (''name'', JStr (apr_name a)),
          (''method'', JStr (method_str (apr_method a))), (''path'', JStr (apr_path a)), (''description'', null_or JStr (apr_description a)),
          (''level'', JStr (level_str (apr_level a))), (''is_enabled'', JBool (apr_is_enabled a)),
          (''created_at'', JStr (stamp T (table @ ''.created_at'') (apr_id a))), (''updated_at'', JStr (stamp T (table @ ''.updated_at'') (apr_id a)))])"

definition param_columns :: "row_texts \<Rightarrow> bool \<Rightarrow> be_row \<Rightarrow> (string \<times> jval) list" where
  "param_columns T draft r =
     [(''id'', JInt (pr_id r)), (if draft then ''api_draft_id'' else ''api_id'', JInt (pr_api r)), (''name'', JStr (pr_name r))] @
     (case pr_location r of None \<Rightarrow> [] | Some l \<Rightarrow> [(''location'', JStr l), (''default_value'', null_or JStr (pr_default r))]) @
     (case pr_status r of None \<Rightarrow> [] | Some c \<Rightarrow> [(''status_code'', JInt c)]) @
     [(''type'', JStr (pr_type r)), (''required'', JBool (pr_required r)), (''description'', null_or JStr (pr_description r)),
      (''example'', null_or JStr (pr_example r)), (''array_child_type'', null_or JStr (pr_act r)),
      (''parent_param_id'', null_or JInt (pr_parent r)), (''updated_at'', JStr (stamp T ''param.updated_at'' (pr_id r)))]"

text \<open>A parameter has \<open>children_params\<close> only when it has a child.\<close>

fun ptree_json :: "row_texts \<Rightarrow> bool \<Rightarrow> ptree \<Rightarrow> jval" where
  "ptree_json T draft (PNode r cs) =
     JObj (param_columns T draft r @ (if cs = [] then [] else [(''children_params'', JArr (map (ptree_json T draft) cs))]))"

section \<open>Rows with their relations\<close>

definition user_of_json :: "row_texts \<Rightarrow> database \<Rightarrow> int \<Rightarrow> jval" where
  "user_of_json T db i = null_or (user_json T) (user_of db i)"

text \<open>\<open>toJson(include=[...])\<close> of a list of services, with the owner or without, with the time of deletion or without.\<close>

definition service_item :: "row_texts \<Rightarrow> database \<Rightarrow> string list \<Rightarrow> service_row \<Rightarrow> jval" where
  "service_item T db include s = JObj
     (filter (\<lambda>(k, v). k \<in> set include) (service_columns T s) @
      (if ''owner'' \<in> set include then [(''owner'', user_of_json T db (srv_owner_id s))] else []))"

text \<open>\<open>toJson(include_relations=True)\<close>: the relations with their own columns.\<close>

definition service_detail :: "row_texts \<Rightarrow> database \<Rightarrow> service_row \<Rightarrow> jval" where
  "service_detail T db s = JObj (service_columns T s @
     [(''owner'', user_of_json T db (srv_owner_id s)),
      (''maintainers'', JArr (map (user_of_json T db) (srv_maintainers s))),
      (''iterations'', JArr (map (\<lambda>it. JObj (iteration_columns T it)) (filter (\<lambda>it. itr_service_id it = srv_id s) (tb_rows (db_iterations db))))),
      (''api_categories'', JArr (map category_json (filter (\<lambda>c. ctr_service_id c = srv_id s) (tb_rows (db_categories db))))),
      (''apis'', JArr (map (\<lambda>a. JObj (api_columns T False a)) (apis_for (srv_id s) (db_published db))))])"

definition iteration_detail :: "row_texts \<Rightarrow> database \<Rightarrow> iteration_row \<Rightarrow> jval" where
  "iteration_detail T db it = JObj (iteration_columns T it @
     [(''service'', null_or (\<lambda>s. JObj (service_columns T s)) (service_of db (itr_service_id it))),
      (''creator'', user_of_json T db (itr_creator_id it)),
      (''api_drafts'', JArr (map (\<lambda>a. JObj (api_columns T True a)) (apis_for (itr_id it) (db_drafts db))))])"

text \<open>The answer of \<open>apiGetApiById\<close>: the columns, the owner, and the parameters; the key of a status code is its text.\<close>

definition api_json :: "row_texts \<Rightarrow> database \<Rightarrow> bool \<Rightarrow> api_answer \<Rightarrow> jval" where
  "api_json T db draft ans = JObj (api_columns T draft (aa_api ans) @
     [(''owner'', user_of_json T db (apr_owner_id (aa_api ans))),
      (''request_params_by_location'', JObj (map (\<lambda>(l, ts). (l, JArr (map (ptree_json T draft) ts))) (aa_request_params_by_location ans))),
      (''response_params_by_status_code'', JObj (map (\<lambda>(c, ts). (int_str c, JArr (map (ptree_json T draft) ts))) (aa_response_params_by_status_code ans)))])"

section \<open>Answers\<close>

text \<open>
  What a client receives: a JSON value with status 200 of HTTP, an error with its status, or nothing that is modelled
  (a member of a body has another type than its interface declares, which no client sends).
\<close>

datatype http_answer = Answer jval | HttpError nat string | Unmodelled

definition raised :: http_answer where
  "raised = HttpError 500 ''error msg''"

definition status_message :: "int \<Rightarrow> string \<Rightarrow> (string \<times> jval) list" where
  "status_message st m = [(''status'', JInt st), (''message'', JStr m)]"

text \<open>The dictionary of a handler, with the members \<open>f\<close> gives for its payload.\<close>

definition answer :: "('a \<Rightarrow> (string \<times> jval) list) \<Rightarrow> 'a be_reply \<Rightarrow> http_answer" where
  "answer f r =
     (case r of
        Reply st m b \<Rightarrow> Answer (JObj (status_message st m @ (case b of None \<Rightarrow> [] | Some x \<Rightarrow> f x)))
      | Wrapped st m \<Rightarrow> Answer (JObj [(''is_ok'', JBool False), (''error'', JObj (status_message st m))])
      | Raised \<Rightarrow> raised)"

end
