(* ===== verification/Be_Wire.thy ===== *)
theory Be_Wire
  imports Be_Json Fe_Views
begin

text \<open>
  How the routes of \<open>BE-CAM/subRouters/v1\<close> read a request and write an answer.  A missing query parameter is answered with
  status 400, and an exception with 500.
\<close>

section \<open>Reading a request\<close>

text \<open>A query parameter as text; a parameter that is \<open>null\<close> or \<open>undefined\<close> is not sent.\<close>

definition query_text :: "jval \<Rightarrow> string option" where
  "query_text v =
     (case v of JStr s \<Rightarrow> Some s | JInt n \<Rightarrow> Some (int_str n) | JBool b \<Rightarrow> Some (if b then ''true'' else ''false'') | _ \<Rightarrow> None)"

definition query_param :: "http_request \<Rightarrow> string \<Rightarrow> string option" where
  "query_param req k = (case map_of (hr_params req) k of None \<Rightarrow> None | Some v \<Rightarrow> query_text v)"

text \<open>\<open>if not x: return Response(status_code=400, ...)\<close>.\<close>

definition required :: "'d \<Rightarrow> http_request \<Rightarrow> string \<Rightarrow> string \<Rightarrow> (string \<Rightarrow> http_answer \<times> 'd) \<Rightarrow> http_answer \<times> 'd" where
  "required db req k msg f =
     (case query_param req k of None \<Rightarrow> (HttpError 400 msg, db) | Some s \<Rightarrow> if s = [] then (HttpError 400 msg, db) else f s)"

text \<open>Python's \<open>int(s)\<close>: white space around, a sign, digits, between which single underscores may stand.\<close>

definition py_int :: "string \<Rightarrow> int option" where
  "py_int s =
     (let t = js_trim s; u = (if prefix ''-'' t \<or> prefix ''+'' t then tl t else t); ds = split_on CHR ''_'' u
      in if list_all (\<lambda>d. d \<noteq> [] \<and> all_digits d) ds
         then Some (if prefix ''-'' t then - int (digits_val (concat ds)) else int (digits_val (concat ds))) else None)"

definition int_text :: "'d \<Rightarrow> string \<Rightarrow> (int \<Rightarrow> http_answer \<times> 'd) \<Rightarrow> http_answer \<times> 'd" where
  "int_text db s f = (case py_int s of None \<Rightarrow> (raised, db) | Some n \<Rightarrow> f n)"

text \<open>\<open>request.json()[k]\<close>; a member that is \<open>undefined\<close> is not sent.\<close>

definition member :: "(string \<times> jval) list \<Rightarrow> string \<Rightarrow> jval option" where
  "member ms k = (case map_of ms k of Some JUndefined \<Rightarrow> None | v \<Rightarrow> v)"

definition body_member :: "'d \<Rightarrow> http_request \<Rightarrow> string \<Rightarrow> (jval \<Rightarrow> http_answer \<times> 'd) \<Rightarrow> http_answer \<times> 'd" where
  "body_member db req k f =
     (case hr_data req of
        Some (JObj ms) \<Rightarrow> (case member ms k of None \<Rightarrow> (raised, db) | Some v \<Rightarrow> f v)
      | _ \<Rightarrow> (raised, db))"

definition text_member :: "'d \<Rightarrow> http_request \<Rightarrow> string \<Rightarrow> (string \<Rightarrow> http_answer \<times> 'd) \<Rightarrow> http_answer \<times> 'd" where
  "text_member db req k f = body_member db req k (\<lambda>v. case v of JStr s \<Rightarrow> f s | _ \<Rightarrow> (Unmodelled, db))"

definition opt_text_member :: "'d \<Rightarrow> http_request \<Rightarrow> string \<Rightarrow> (string option \<Rightarrow> http_answer \<times> 'd) \<Rightarrow> http_answer \<times> 'd" where
  "opt_text_member db req k f = body_member db req k (\<lambda>v. case v of JStr s \<Rightarrow> f (Some s) | JNull \<Rightarrow> f None | _ \<Rightarrow> (Unmodelled, db))"

text \<open>A number that is passed on, and one that is converted with \<open>int(...)\<close>, which fails for \<open>None\<close>.\<close>

definition num_member :: "'d \<Rightarrow> http_request \<Rightarrow> string \<Rightarrow> (int \<Rightarrow> http_answer \<times> 'd) \<Rightarrow> http_answer \<times> 'd" where
  "num_member db req k f = body_member db req k (\<lambda>v. case v of JInt n \<Rightarrow> f n | _ \<Rightarrow> (Unmodelled, db))"

definition int_member :: "'d \<Rightarrow> http_request \<Rightarrow> string \<Rightarrow> (int \<Rightarrow> http_answer \<times> 'd) \<Rightarrow> http_answer \<times> 'd" where
  "int_member db req k f =
     body_member db req k (\<lambda>v. case v of JInt n \<Rightarrow> f n | JStr s \<Rightarrow> int_text db s f | JNull \<Rightarrow> (raised, db) | _ \<Rightarrow> (Unmodelled, db))"

text \<open>\<open>request.query_params.get(k, d)\<close>, and \<open>int(x) if x else d\<close>.\<close>

definition default_param :: "http_request \<Rightarrow> string \<Rightarrow> string \<Rightarrow> string" where
  "default_param req k d = (case query_param req k of None \<Rightarrow> d | Some s \<Rightarrow> s)"

definition page_param :: "'d \<Rightarrow> http_request \<Rightarrow> string \<Rightarrow> int \<Rightarrow> (int \<Rightarrow> http_answer \<times> 'd) \<Rightarrow> http_answer \<times> 'd" where
  "page_param db req k d f =
     (case query_param req k of None \<Rightarrow> f d | Some s \<Rightarrow> if s = [] then f d else int_text db s f)"

text \<open>A page with a negative limit or offset is refused by the database when the handler comes to the query.\<close>

definition paged :: "int \<Rightarrow> int \<Rightarrow> (nat \<Rightarrow> nat \<Rightarrow> 'a be_reply) \<Rightarrow> 'a be_reply" where
  "paged page_size current_page f =
     (case f (nat page_size) (nat current_page) of
        Reply st m (Some x) \<Rightarrow> if page_size < 0 \<or> (current_page - 1) * page_size < 0 then Raised else Reply st m (Some x)
      | r \<Rightarrow> r)"

section \<open>Answers\<close>

definition bare :: "unit \<Rightarrow> (string \<times> jval) list" where
  "bare x = []"

definition one :: "string \<Rightarrow> ('a \<Rightarrow> jval) \<Rightarrow> 'a \<Rightarrow> (string \<times> jval) list" where
  "one k f x = [(k, f x)]"

definition services_list :: "row_texts \<Rightarrow> database \<Rightarrow> string \<Rightarrow> string list \<Rightarrow> service_row list \<times> nat \<Rightarrow> (string \<times> jval) list" where
  "services_list T db k include x = [(k, JArr (map (service_item T db include) (fst x))), (''total'', JInt (int (snd x)))]"

definition item_columns :: "string list" where
  "item_columns = [''id'', ''service_uuid'', ''version'', ''description'', ''owner_id'', ''created_at'', ''is_deleted'']"

definition version_json :: "row_texts \<Rightarrow> database \<Rightarrow> version_found \<times> api_row list \<Rightarrow> (string \<times> jval) list" where
  "version_json T db x =
     (case fst x of
        LatestFound s \<Rightarrow> [(''service'', service_detail T db s), (''is_latest'', JBool True)]
      | IterationFound s it \<Rightarrow> [(''service'', iteration_detail T db it), (''is_latest'', JBool False)])"

definition versions_json :: "(string option \<times> bool) list \<Rightarrow> (string \<times> jval) list" where
  "versions_json vs =
     [(''versions'', JArr (map (\<lambda>(v, l). JObj [(''version'', null_or JStr v), (''is_latest'', JBool l)]) vs))]"

text \<open>A handler that only reads.\<close>

definition reads :: "'d \<Rightarrow> ('a \<Rightarrow> (string \<times> jval) list) \<Rightarrow> 'a be_reply \<Rightarrow> http_answer \<times> 'd" where
  "reads db f r = (answer f r, db)"

definition writes :: "('a \<Rightarrow> (string \<times> jval) list) \<Rightarrow> 'a be_reply \<times> 'd \<Rightarrow> http_answer \<times> 'd" where
  "writes f x = (answer f (fst x), snd x)"

text \<open>\<open>unquote(service_uuid).strip()\<close>; \<open>+\<close> stands for itself.\<close>

fun unquote :: "string \<Rightarrow> string" where
  "unquote [] = []"
| "unquote (c # s) =
     (if c = CHR ''%''
      then (case s of
              x # y # r \<Rightarrow> (case (hex_value x, hex_value y) of (Some a, Some b) \<Rightarrow> char_of (16 * a + b) # unquote r | _ \<Rightarrow> c # unquote s)
            | _ \<Rightarrow> c # unquote s)
      else c # unquote s)"

definition uuid_param :: "string \<Rightarrow> string" where
  "uuid_param s = js_trim (unquote s)"

end
