(* ===== verification/Be_Openapi.thy ===== *)
theory Be_Openapi
  imports Be_Wire
begin

text \<open>
  The export of a version as an OpenAPI document: \<open>openapiTemplate\<close> of \<open>BE-CAM/services/utils.py\<close> and
  \<open>serviceExportOpenapiByUuidAndVersion\<close>.  The document is a JSON value; \<open>None\<close> is the \<open>ValueError\<close> of a default value
  that is no number.  The JSON of \<open>float(s)\<close> is a parameter: JSON values here have no fractions.
\<close>

section \<open>Names of components\<close>

definition lower_char :: "char \<Rightarrow> char" where
  "lower_char c = (if is_upper c then char_of (of_char c + 32 :: nat) else c)"

text \<open>A space is inserted before every capital letter but the first character; what is not alphanumeric becomes a space.\<close>

definition spaced :: "string \<Rightarrow> string" where
  "spaced s = (case s of [] \<Rightarrow> [] | c # cs \<Rightarrow> c # concat (map (\<lambda>x. if is_upper x then [CHR '' '', x] else [x]) cs))"

definition py_capitalize :: "string \<Rightarrow> string" where
  "py_capitalize w = (case w of [] \<Rightarrow> [] | c # cs \<Rightarrow> upper_char c # map lower_char cs)"

definition to_component_name :: "string \<Rightarrow> string" where
  "to_component_name name =
     concat (map py_capitalize (split_on CHR '' '' (map (\<lambda>c. if is_alnum c then c else CHR '' '') (spaced name))))"

section \<open>Schemas\<close>

definition get_type_schema :: "string option \<Rightarrow> (string \<times> jval) list" where
  "get_type_schema t =
     (case map_of
        [(''string'', [(''type'', JStr ''string'')]),
         (''int'', [(''type'', JStr ''integer''), (''format'', JStr ''int64'')]),
         (''double'', [(''type'', JStr ''number''), (''format'', JStr ''double'')]),
         (''boolean'', [(''type'', JStr ''boolean'')]),
         (''binary'', [(''type'', JStr ''string''), (''format'', JStr ''binary'')]),
         (''object'', [(''type'', JStr ''object'')]),
         (''array'', [(''type'', JStr ''array'')])] (case t of None \<Rightarrow> [] | Some t \<Rightarrow> t) of
        Some s \<Rightarrow> s
      | None \<Rightarrow> [(''type'', JStr ''string'')])"

definition default_json :: "(string \<Rightarrow> jval option) \<Rightarrow> string \<Rightarrow> string \<Rightarrow> jval option" where
  "default_json py_float ty d =
     (if d = ''null'' \<or> d = ''undefined'' then Some JNull
      else if ty = ''string'' then Some (JStr d)
      else if ty = ''int'' then map_option JInt (py_int d)
      else if ty = ''double'' then py_float d
      else if ty = ''boolean'' then Some (JBool True)
      else Some (JStr d))"

text \<open>The end of \<open>_build_param_schema\<close>: example and default value, when they are not empty.\<close>

definition with_default :: "(string \<Rightarrow> jval option) \<Rightarrow> be_row \<Rightarrow> (string \<times> jval) list \<Rightarrow> jval option" where
  "with_default py_float r schema =
     (let s = schema @ (case pr_example r of None \<Rightarrow> [] | Some e \<Rightarrow> if e = [] then [] else [(''example'', JStr e)])
      in case pr_default r of
           None \<Rightarrow> Some (JObj s)
         | Some d \<Rightarrow>
             if d = [] then Some (JObj s)
             else map_option (\<lambda>v. JObj (s @ [(''default'', v)])) (default_json py_float (pr_type r) d))"

text \<open>The names that are required, and the members \<open>properties\<close>, \<open>additionalProperties\<close> and \<open>required\<close> of an object.\<close>

definition required_names :: "ptree list \<Rightarrow> jval list" where
  "required_names ts = map (\<lambda>t. JStr (pr_name (pt_row t))) (filter (\<lambda>t. pr_required (pt_row t)) ts)"

definition object_members :: "(string \<times> jval) list \<Rightarrow> ptree list \<Rightarrow> (string \<times> jval) list" where
  "object_members properties ts =
     (if properties = [] then [] else [(''properties'', JObj properties), (''additionalProperties'', JBool False)]) @
     (if required_names ts = [] then [] else [(''required'', JArr (required_names ts))])"

fun build_param_schema :: "(string \<Rightarrow> jval option) \<Rightarrow> ptree \<Rightarrow> jval option"
  and build_properties :: "(string \<Rightarrow> jval option) \<Rightarrow> (string \<times> jval) list \<Rightarrow> ptree list \<Rightarrow> (string \<times> jval) list option" where
  "build_param_schema py_float (PNode r cs) =
     (if pr_type r = ''object''
      then (case build_properties py_float [] cs of
              None \<Rightarrow> None
            | Some ps \<Rightarrow> with_default py_float r (get_type_schema (Some (pr_type r)) @ object_members ps cs))
      else if pr_type r = ''array''
      then (if pr_act r = Some ''object''
            then (case build_properties py_float [] cs of
                    None \<Rightarrow> None
                  | Some ps \<Rightarrow> with_default py_float r (get_type_schema (Some (pr_type r)) @
                      [(''items'', JObj ((''type'', JStr ''object'') # object_members ps cs))]))
            else with_default py_float r (get_type_schema (Some (pr_type r)) @ [(''items'', JObj (get_type_schema (pr_act r)))]))
      else with_default py_float r (get_type_schema (Some (pr_type r))))"
| "build_properties py_float ps [] = Some ps"
| "build_properties py_float ps (t # ts) =
     (case build_param_schema py_float t of
        None \<Rightarrow> None
      | Some s \<Rightarrow> build_properties py_float (map_set (pr_name (pt_row t)) s ps) ts)"

text \<open>\<open>_build_root_schema\<close> with a name: the schema is registered and a reference to it returned.\<close>

definition build_root_schema :: "(string \<Rightarrow> jval option) \<Rightarrow> ptree list \<Rightarrow> jval option" where
  "build_root_schema py_float ts =
     (case build_properties py_float [] ts of
        None \<Rightarrow> None
      | Some ps \<Rightarrow> Some (JObj ([(''type'', JStr ''object''), (''properties'', JObj ps)] @
          (if required_names ts = [] then [] else [(''required'', JArr (required_names ts))]) @
          [(''additionalProperties'', JBool False)])))"

definition ref_path :: "string \<Rightarrow> string" where
  "ref_path name = ''#/components/schemas/'' @ name"

definition schema_ref :: "string \<Rightarrow> jval" where
  "schema_ref name = JObj [(''$ref'', JStr (ref_path name))]"

definition json_content :: "jval \<Rightarrow> string \<times> jval" where
  "json_content schema = (''content'', JObj [(''application/json'', JObj [(''schema'', schema)])])"


section \<open>The document\<close>

text \<open>The document while the APIs are gone through: \<open>paths\<close> and \<open>components_schemas\<close>.\<close>

record openapi =
  oa_paths :: "(string \<times> (string \<times> jval) list) list"
  oa_schemas :: "(string \<times> jval) list"

fun map_all :: "('a \<Rightarrow> 'b option) \<Rightarrow> 'a list \<Rightarrow> 'b list option" where
  "map_all f [] = Some []"
| "map_all f (x # xs) = (case f x of None \<Rightarrow> None | Some y \<Rightarrow> map_option ((#) y) (map_all f xs))"

definition parameter_json :: "(string \<Rightarrow> jval option) \<Rightarrow> string \<Rightarrow> ptree \<Rightarrow> jval option" where
  "parameter_json py_float loc t =
     map_option (\<lambda>schema. JObj ([(''name'', JStr (pr_name (pt_row t))), (''in'', JStr loc), (''required'', JBool (pr_required (pt_row t))), (''schema'', schema)] @
       (case pr_description (pt_row t) of None \<Rightarrow> [] | Some d \<Rightarrow> if d = [] then [] else [(''description'', JStr d)])))
       (build_param_schema py_float t)"

definition trees_at :: "string \<Rightarrow> ptree list js_obj \<Rightarrow> ptree list" where
  "trees_at l d = (case map_of d l of None \<Rightarrow> [] | Some ts \<Rightarrow> ts)"

definition api_parameters :: "(string \<Rightarrow> jval option) \<Rightarrow> ptree list js_obj \<Rightarrow> jval list option" where
  "api_parameters py_float d =
     map_all (\<lambda>(l, t). parameter_json py_float l t)
       (concat (map (\<lambda>l. map (Pair l) (trees_at l d)) [''query'', ''path'', ''header'', ''cookie'']))"

definition api_request_body :: "(string \<Rightarrow> jval option) \<Rightarrow> string \<Rightarrow> ptree list \<Rightarrow> (string \<times> jval) list \<Rightarrow>
    ((string \<times> jval) list \<times> (string \<times> jval) list) option" where
  "api_request_body py_float component body schemas =
     (if body = [] then Some ([], schemas)
      else
        (let name = component @ ''Request''
         in map_option (\<lambda>s. ([(''requestBody'', JObj [(''required'', JBool True), json_content (schema_ref name)])], map_set name s schemas))
              (build_root_schema py_float body)))"

fun api_responses :: "(string \<Rightarrow> jval option) \<Rightarrow> string \<Rightarrow> (int \<times> ptree list) list \<Rightarrow> (string \<times> jval) list \<Rightarrow>
    ((string \<times> jval) list \<times> (string \<times> jval) list) option" where
  "api_responses py_float component [] schemas = Some ([], schemas)"
| "api_responses py_float component ((c, ts) # rest) schemas =
     (let name = component @ ''Response'' @ (if int_str c = ''200'' then [] else int_str c)
      in case build_root_schema py_float ts of
           None \<Rightarrow> None
         | Some s \<Rightarrow>
             map_option (\<lambda>(rs, schemas'). ((int_str c, JObj [(''description'', JStr (''Response for '' @ int_str c)), json_content (schema_ref name)]) # rs, schemas'))
               (api_responses py_float component rest (map_set name s schemas)))"

definition operation :: "api_row \<Rightarrow> jval list \<Rightarrow> (string \<times> jval) list \<Rightarrow> (string \<times> jval) list \<Rightarrow> jval" where
  "operation a parameters responses request_body = JObj
     ([(''description'', null_or JStr (apr_description a)), (''operationId'', JStr (apr_name a)), (''parameters'', JArr parameters),
       (''responses'', JObj responses), (''deprecated'', JBool (\<not> apr_is_enabled a))] @ request_body)"

definition path_item :: "openapi \<Rightarrow> string \<Rightarrow> (string \<times> jval) list" where
  "path_item oa path = (case map_of (oa_paths oa) path of None \<Rightarrow> [] | Some d \<Rightarrow> d)"

definition method_key :: "HttpMethod \<Rightarrow> string" where
  "method_key m = map lower_char (method_str m)"

text \<open>One round of the loop over the APIs.\<close>

definition add_api :: "(string \<Rightarrow> jval option) \<Rightarrow> api_answer \<Rightarrow> openapi \<Rightarrow> openapi option" where
  "add_api py_float ans oa =
     (let a = aa_api ans; d = aa_request_params_by_location ans; component = to_component_name (apr_name a)
      in case api_parameters py_float d of
           None \<Rightarrow> None
         | Some ps \<Rightarrow>
             (case api_request_body py_float component (trees_at ''body'' d) (oa_schemas oa) of
                None \<Rightarrow> None
              | Some (rb, schemas) \<Rightarrow>
                  (case api_responses py_float component (aa_response_params_by_status_code ans) schemas of
                     None \<Rightarrow> None
                   | Some (rs, schemas') \<Rightarrow>
                       Some \<lparr>oa_paths = map_set (apr_path a) (map_set (method_key (apr_method a)) (operation a ps rs rb) (path_item oa (apr_path a))) (oa_paths oa),
                             oa_schemas = schemas'\<rparr>)))"

fun add_all :: "(string \<Rightarrow> jval option) \<Rightarrow> api_answer list \<Rightarrow> openapi \<Rightarrow> openapi option" where
  "add_all py_float [] oa = Some oa"
| "add_all py_float (x # xs) oa = (case add_api py_float x oa of None \<Rightarrow> None | Some oa' \<Rightarrow> add_all py_float xs oa')"

definition no_apis :: openapi where
  "no_apis = \<lparr>oa_paths = [], oa_schemas = []\<rparr>"

text \<open>\<open>service.description or (service.service.description if not is_latest else "")\<close>.\<close>

definition document_description :: "version_found \<Rightarrow> jval" where
  "document_description v =
     (case v of
        LatestFound s \<Rightarrow> (case srv_description s of Some d \<Rightarrow> JStr d | None \<Rightarrow> JStr [])
      | IterationFound s it \<Rightarrow>
          (case itr_description it of Some d \<Rightarrow> if d = [] then null_or JStr (srv_description s) else JStr d | None \<Rightarrow> null_or JStr (srv_description s)))"

definition document_json :: "version_found \<Rightarrow> user_row \<Rightarrow> openapi \<Rightarrow> jval" where
  "document_json v contact oa = JObj
     [(''openapi'', JStr ''3.1.0''),
      (''info'', JObj
        [(''title'', JStr (srv_service_uuid (case v of LatestFound s \<Rightarrow> s | IterationFound s it \<Rightarrow> s))),
         (''description'', document_description v),
         (''contact'', JObj [(''name'', JStr (usr_username contact)), (''email'', null_or JStr (usr_email contact))]),
         (''version'', case v of LatestFound s \<Rightarrow> JStr (srv_version s) | IterationFound s it \<Rightarrow> null_or JStr (itr_version it))]),
      (''paths'', JObj (map (\<lambda>(p, d). (p, JObj d)) (oa_paths oa))),
      (''components'', JObj [(''schemas'', JObj (oa_schemas oa))])]"

text \<open>The APIs of the version, with their parameters, in the order in which the relation returns them.\<close>

definition exported_apis :: "server_env \<Rightarrow> version_found \<Rightarrow> database \<Rightarrow> api_answer list" where
  "exported_apis D v db =
     (case v of
        LatestFound s \<Rightarrow> map (api_answer_of D (db_published db)) (apis_in_order D (apis_for (srv_id s) (db_published db)))
      | IterationFound s it \<Rightarrow> map (api_answer_of D (db_drafts db)) (apis_in_order D (apis_for (itr_id it) (db_drafts db))))"

definition openapiTemplate :: "server_env \<Rightarrow> (string \<Rightarrow> jval option) \<Rightarrow> version_found \<Rightarrow> database \<Rightarrow> jval option" where
  "openapiTemplate D py_float v db =
     (case user_of db (case v of LatestFound s \<Rightarrow> srv_owner_id s | IterationFound s it \<Rightarrow> itr_creator_id it) of
        None \<Rightarrow> None
      | Some contact \<Rightarrow> map_option (document_json v contact) (add_all py_float (exported_apis D v db) no_apis))"

text \<open>The handler: who may see the version may export it.\<close>

definition serviceExportOpenapiByUuidAndVersion :: "server_env \<Rightarrow> (string \<Rightarrow> jval option) \<Rightarrow> string \<Rightarrow> string \<Rightarrow> int \<Rightarrow> database \<Rightarrow>
    (jval \<times> bool) be_reply" where
  "serviceExportOpenapiByUuidAndVersion D py_float uuid version uid db =
     (case serviceGetServiceByUuidAndVersion uuid version uid db of
        Reply st m None \<Rightarrow> Reply st m None
      | Reply st m (Some (v, apis)) \<Rightarrow>
          (case openapiTemplate D py_float v db of
             None \<Rightarrow> Raised
           | Some doc \<Rightarrow> Reply 200 ''Get service success'' (Some (doc, case v of LatestFound s \<Rightarrow> True | IterationFound s it \<Rightarrow> False)))
      | Wrapped st m \<Rightarrow> Wrapped st m
      | Raised \<Rightarrow> Raised)"

end
