(* ===== verification/Be_Routes.thy ===== *)
theory Be_Routes
  imports Be_Openapi
begin

text \<open>
  The routes of \<open>BE-CAM/subRouters/v1\<close>: what each reads from a request, the handler it calls, and its answer.  The
  dispatcher and the test of the token are those of the router of \<open>robyn\<close>: an unknown route is answered with 404, a
  request without a valid token with 401.
\<close>

type_synonym route_handler = "row_texts \<Rightarrow> server_env \<Rightarrow> int \<Rightarrow> http_request \<Rightarrow> database \<Rightarrow> http_answer \<times> database"

section \<open>\<open>user.py\<close>\<close>

definition route_getUserById :: route_handler where
  "route_getUserById T D uid req db =
     required db req ''id'' ''id is required'' (\<lambda>s. int_text db s (\<lambda>i. reads db (one ''user'' (user_json T)) (userGetUserById i db)))"

definition route_getMyInfo :: route_handler where
  "route_getMyInfo T D uid req db = reads db (one ''user'' (user_json T)) (userGetUserById uid db)"

text \<open>\<open>ILIKE\<close> with a pattern: \<open>%\<close> stands for any text, \<open>_\<close> for any character, and a backslash for the character after it.\<close>

fun sql_like :: "string \<Rightarrow> string \<Rightarrow> bool" where
  "sql_like [] s \<longleftrightarrow> s = []"
| "sql_like (p # ps) [] \<longleftrightarrow> p = CHR ''%'' \<and> sql_like ps []"
| "sql_like (p # ps) (c # s) \<longleftrightarrow>
     (if p = CHR ''%'' then sql_like ps (c # s) \<or> sql_like (p # ps) s
      else if p = CHR ''_'' then sql_like ps s
      else if p = CHR 0x5C then (case ps of [] \<Rightarrow> False | q # qs \<Rightarrow> q = c \<and> sql_like qs s)
      else p = c \<and> sql_like ps s)"

definition ilike :: "string \<Rightarrow> string option \<Rightarrow> bool" where
  "ilike pattern v = (case v of None \<Rightarrow> False | Some s \<Rightarrow> sql_like (map lower_char pattern) (map lower_char s))"

definition userGetUserByUsernameOrNicknameOrEmail :: "row_texts \<Rightarrow> string \<Rightarrow> database \<Rightarrow> user_row list be_reply" where
  "userGetUserByUsernameOrNicknameOrEmail T q db =
     (let pattern = ''%'' @ js_trim (unquote q) @ ''%''
      in Reply 200 ''Get users success''
           (Some (users_in_order T (filter (\<lambda>u. ilike pattern (Some (usr_username u)) \<or> ilike pattern (usr_nickname u) \<or> ilike pattern (usr_email u))
             (tb_rows (db_users db))))))"

definition route_getUserByUsernameOrNicknameOrEmail :: route_handler where
  "route_getUserByUsernameOrNicknameOrEmail T D uid req db =
     required db req ''username_or_nickname_or_email'' ''username_or_nickname_or_email is required''
       (\<lambda>q. reads db (one ''users'' (\<lambda>us. JArr (map (user_json T) us))) (userGetUserByUsernameOrNicknameOrEmail T q db))"

definition route_login :: route_handler where
  "route_login T D uid req db =
     text_member db req ''username'' (\<lambda>u. text_member db req ''password'' (\<lambda>p. reads db (one ''access_token'' JStr) (userLogin D u p db)))"

definition route_register :: route_handler where
  "route_register T D uid req db =
     text_member db req ''username'' (\<lambda>u. text_member db req ''password'' (\<lambda>p. text_member db req ''nickname'' (\<lambda>n.
     text_member db req ''email'' (\<lambda>e. text_member db req ''role'' (\<lambda>r. writes bare (userRegister D u p n e r db))))))"

definition route_modifyPassword :: route_handler where
  "route_modifyPassword T D uid req db =
     text_member db req ''old_password'' (\<lambda>old. text_member db req ''new_password'' (\<lambda>new. writes bare (userModifyPassword D uid old new db)))"

section \<open>\<open>service.py\<close>\<close>

definition route_getServiceById :: route_handler where
  "route_getServiceById T D uid req db =
     required db req ''id'' ''id is required'' (\<lambda>s. int_text db s (\<lambda>i.
       reads db (one ''service'' (\<lambda>x. service_detail T db (fst x))) (serviceGetServiceById i uid db)))"

text \<open>The numbers of a page, \<open>10\<close> and \<open>1\<close> when they are not given.\<close>

definition paging :: "'d \<Rightarrow> http_request \<Rightarrow> (int \<Rightarrow> int \<Rightarrow> http_answer \<times> 'd) \<Rightarrow> http_answer \<times> 'd" where
  "paging db req f = page_param db req ''page_size'' 10 (\<lambda>n. page_param db req ''current_page'' 1 (f n))"

definition route_getAllServices :: route_handler where
  "route_getAllServices T D uid req db =
     paging db req (\<lambda>n p. reads db (services_list T db ''services'' (''owner'' # ''deleted_at'' # item_columns)) (paged n p (\<lambda>n p. serviceGetAllServices uid n p db)))"

definition route_getHisNewestServicesByOwnerId :: route_handler where
  "route_getHisNewestServicesByOwnerId T D uid req db =
     (let mine = map lower_char (default_param req ''is_my_services'' ''true'');
          page = \<lambda>owner. paging db req (\<lambda>n p. reads db
            (services_list T db ''services'' (if owner = uid then item_columns else ''owner'' # item_columns))
            (paged n p (\<lambda>n p. serviceGetHisNewestServicesByOwnerId owner uid n p db)))
      in if mine = ''true'' then page uid
         else if mine = ''false''
         then required db req ''owner_id'' ''owner_id is required when is_my_services is false'' (\<lambda>s. int_text db s page)
         else (Unmodelled, db))"

definition route_getHisMaintainedServicesByUserId :: route_handler where
  "route_getHisMaintainedServicesByUserId T D uid req db =
     int_text db (default_param req ''user_id'' (int_str uid)) (\<lambda>i. paging db req (\<lambda>n p.
       reads db (services_list T db ''services'' (''owner'' # item_columns)) (paged n p (\<lambda>n p. serviceGetHisMaintainedServicesByUserId i uid n p db))))"

definition uuid_version :: "'d \<Rightarrow> http_request \<Rightarrow> (string \<Rightarrow> string \<Rightarrow> http_answer \<times> 'd) \<Rightarrow> http_answer \<times> 'd" where
  "uuid_version db req f =
     required db req ''service_uuid'' ''service_uuid and version are required'' (\<lambda>u.
     required db req ''version'' ''service_uuid and version are required'' (\<lambda>v. f (uuid_param u) v))"

definition route_getServiceByUuidAndVersion :: route_handler where
  "route_getServiceByUuidAndVersion T D uid req db =
     uuid_version db req (\<lambda>u v. reads db (version_json T db) (serviceGetServiceByUuidAndVersion u v uid db))"

definition route_getAllVersionsByUuid :: route_handler where
  "route_getAllVersionsByUuid T D uid req db =
     required db req ''service_uuid'' ''service_uuid is required'' (\<lambda>u. reads db versions_json (serviceGetAllVersionsByUuid (uuid_param u) uid db))"

definition route_createNewService :: route_handler where
  "route_createNewService T D uid req db =
     text_member db req ''service_uuid'' (\<lambda>u. text_member db req ''description'' (\<lambda>d.
       let (r, db') = serviceCreateNewService u uid d db in (answer (one ''service'' (service_detail T db')) r, db')))"

definition route_getAllDeletedServicesByUserId :: route_handler where
  "route_getAllDeletedServicesByUserId T D uid req db =
     paging db req (\<lambda>n p. reads db (services_list T db ''deleted_services'' (''deleted_at'' # item_columns)) (paged n p (\<lambda>n p. serviceGetAllDeletedServicesByUserId uid n p db)))"

definition route_isServiceMaintainer :: route_handler where
  "route_isServiceMaintainer T D uid req db =
     required db req ''service_id'' ''service_id and candidate_id are required'' (\<lambda>s.
     required db req ''candidate_id'' ''service_id and candidate_id are required'' (\<lambda>c.
       int_text db s (\<lambda>s. int_text db c (\<lambda>c. reads db (one ''is_current_maintainer'' JBool) (serviceIsMaintainer s uid c db)))))"

definition route_addOrRemoveServiceMaintainerById :: route_handler where
  "route_addOrRemoveServiceMaintainerById T D uid req db =
     int_member db req ''service_id'' (\<lambda>s. int_member db req ''candidate_id'' (\<lambda>c.
       writes (one ''is_current_maintainer'' JBool) (serviceAddOrRemoveServiceMaintainerById s uid c db)))"

definition route_deleteServiceById :: route_handler where
  "route_deleteServiceById T D uid req db = num_member db req ''id'' (\<lambda>i. writes bare (serviceDeleteServiceById D i uid db))"

definition route_restoreServiceById :: route_handler where
  "route_restoreServiceById T D uid req db = num_member db req ''id'' (\<lambda>i. writes bare (serviceRestoreServiceById i uid db))"

definition route_deleteIterationById :: route_handler where
  "route_deleteIterationById T D uid req db = num_member db req ''service_iteration_id'' (\<lambda>i. writes bare (serviceDeleteIterationById i uid db))"

definition route_getIterationById :: route_handler where
  "route_getIterationById T D uid req db =
     required db req ''id'' ''id is required'' (\<lambda>s. int_text db s (\<lambda>i.
       reads db (one ''iteration'' (\<lambda>x. iteration_detail T db (fst x))) (serviceGetServiceIterationById i uid db)))"

definition route_startIteration :: route_handler where
  "route_startIteration T D uid req db = num_member db req ''service_id'' (\<lambda>i. writes (one ''service_iteration_id'' JInt) (serviceStartIteration D i uid db))"

definition route_commitIteration :: route_handler where
  "route_commitIteration T D uid req db =
     num_member db req ''service_iteration_id'' (\<lambda>i. text_member db req ''new_version'' (\<lambda>v.
       writes (\<lambda>(s, it, v). [(''service_id'', JInt s), (''service_iteration_id'', JInt it), (''version'', JStr v)]) (serviceCommitIteration D i v uid db)))"

definition route_updateDescription :: route_handler where
  "route_updateDescription T D uid req db =
     num_member db req ''service_iteration_id'' (\<lambda>i. text_member db req ''description'' (\<lambda>d. writes bare (serviceUpdateDescription i d uid db)))"

definition route_exportOpenapiByUuidAndVersion :: route_handler where
  "route_exportOpenapiByUuidAndVersion T D uid req db =
     uuid_version db req (\<lambda>u v. reads db (\<lambda>x. [(''openapi_object'', fst x), (''is_latest'', JBool (snd x))])
       (serviceExportOpenapiByUuidAndVersion D (float_of T) u v uid db))"


section \<open>\<open>api.py\<close>\<close>

definition route_getAllCategoriesByServiceId :: route_handler where
  "route_getAllCategoriesByServiceId T D uid req db =
     required db req ''service_id'' ''service_id is required'' (\<lambda>s. int_text db s (\<lambda>i.
       reads db (one ''categories'' (\<lambda>cs. JArr (map category_json cs))) (apiGetAllCategoriesByServiceId i uid db)))"

definition route_getAllApisByServiceId :: route_handler where
  "route_getAllApisByServiceId T D uid req db =
     required db req ''service_id'' ''service_id and category_id are required'' (\<lambda>s.
     required db req ''category_id'' ''service_id and category_id are required'' (\<lambda>c.
       int_text db s (\<lambda>i. int_text db c (\<lambda>c.
         reads db (one ''apis'' (\<lambda>as. JArr (map (\<lambda>a. JObj (api_columns T False a)) as))) (apiGetAllApisByServiceId i uid (Some c) db)))))"

text \<open>\<open>string2Bool\<close>.\<close>

definition string2Bool :: "string \<Rightarrow> bool" where
  "string2Bool s \<longleftrightarrow> map lower_char s = ''true''"

definition route_getApiById :: route_handler where
  "route_getApiById T D uid req db =
     required db req ''api_id'' ''api_id is required'' (\<lambda>s.
       let latest = string2Bool (default_param req ''is_latest'' ''true'')
       in int_text db s (\<lambda>i. reads db (one ''api'' (api_json T db (\<not> latest))) (apiGetApiById D i uid latest db)))"

definition route_addCategoryByServiceId :: route_handler where
  "route_addCategoryByServiceId T D uid req db =
     int_member db req ''service_id'' (\<lambda>i. text_member db req ''category_name'' (\<lambda>n. opt_text_member db req ''description'' (\<lambda>d.
       writes (one ''category'' category_json) (apiAddCategoryByServiceId i uid n d db))))"

definition route_deleteCategoryById :: route_handler where
  "route_deleteCategoryById T D uid req db = num_member db req ''category_id'' (\<lambda>c. writes bare (apiDeleteCategoryById c uid db))"

definition route_updateCategoryById :: route_handler where
  "route_updateCategoryById T D uid req db =
     int_member db req ''category_id'' (\<lambda>c. opt_text_member db req ''category_name'' (\<lambda>n. opt_text_member db req ''description'' (\<lambda>d.
       writes (one ''category'' category_json) (apiUpdateCategoryById c uid n d db))))"

definition route_updateApiCategoryById :: route_handler where
  "route_updateApiCategoryById T D uid req db =
     int_member db req ''api_id'' (\<lambda>i. int_member db req ''category_id'' (\<lambda>c. writes bare (apiUpdateApiCategory i c uid db)))"

text \<open>\<open>int(category_id) if category_id else None\<close>: neither a missing member, nor \<open>null\<close>, nor \<open>0\<close> is a category.\<close>

definition category_member :: "'d \<Rightarrow> http_request \<Rightarrow> (int option \<Rightarrow> http_answer \<times> 'd) \<Rightarrow> http_answer \<times> 'd" where
  "category_member db req f =
     (case hr_data req of
        Some (JObj ms) \<Rightarrow>
          (case member ms ''category_id'' of
             None \<Rightarrow> f None
           | Some JNull \<Rightarrow> f None
           | Some (JInt n) \<Rightarrow> f (if n = 0 then None else Some n)
           | _ \<Rightarrow> (Unmodelled, db))
      | _ \<Rightarrow> (raised, db))"

definition route_addApi :: route_handler where
  "route_addApi T D uid req db =
     int_member db req ''service_iteration_id'' (\<lambda>i. text_member db req ''name'' (\<lambda>n. text_member db req ''method'' (\<lambda>m.
     text_member db req ''path'' (\<lambda>p. text_member db req ''description'' (\<lambda>d. text_member db req ''level'' (\<lambda>l. category_member db req (\<lambda>c.
       writes (one ''api'' (\<lambda>a. JObj (api_columns T True a))) (apiAddApi D i uid n m p d l c db))))))))"

definition draft_member :: "'d \<Rightarrow> http_request \<Rightarrow> (int \<Rightarrow> int \<Rightarrow> http_answer \<times> 'd) \<Rightarrow> http_answer \<times> 'd" where
  "draft_member db req f = int_member db req ''service_iteration_id'' (\<lambda>i. int_member db req ''api_draft_id'' (f i))"

definition route_copyApiByApiDraftId :: route_handler where
  "route_copyApiByApiDraftId T D uid req db = draft_member db req (\<lambda>i d. writes bare (apiCopyApiByApiDraftId D i d uid db))"

definition route_deleteApiByApiDraftId :: route_handler where
  "route_deleteApiByApiDraftId T D uid req db = draft_member db req (\<lambda>i d. writes bare (apiDeleteApiByApiDraftId i d uid db))"

section \<open>The parameters of an API\<close>

text \<open>
  The members of a parameter that \<open>_process_params_recursively\<close> reads: a text, \<open>null\<close> or nothing; anything else, which no
  client sends, is not modelled.
\<close>

definition member_text :: "(string \<times> jval) list \<Rightarrow> string \<Rightarrow> string option option" where
  "member_text ms k = (case member ms k of None \<Rightarrow> Some None | Some JNull \<Rightarrow> Some None | Some (JStr s) \<Rightarrow> Some (Some s) | _ \<Rightarrow> None)"

definition children_at :: "(string \<times> jval) list \<Rightarrow> jval list option option" where
  "children_at ms =
     (case member ms ''children'' of None \<Rightarrow> Some None | Some JNull \<Rightarrow> Some None | Some (JArr vs) \<Rightarrow> Some (Some vs) | _ \<Rightarrow> None)"

definition location_at :: "param_kind \<Rightarrow> (string \<times> jval) list \<Rightarrow> string option option" where
  "location_at kind ms =
     (case kind of
        ResponseKind \<Rightarrow> Some None
      | RequestKind \<Rightarrow> (case member ms ''location'' of None \<Rightarrow> Some None | Some (JStr l) \<Rightarrow> Some (Some l) | _ \<Rightarrow> None))"

text \<open>Without a status code it is 200, and with \<open>null\<close> the row cannot be stored.\<close>

definition status_at :: "param_kind \<Rightarrow> (string \<times> jval) list \<Rightarrow> int option option" where
  "status_at kind ms =
     (case kind of
        RequestKind \<Rightarrow> Some None
      | ResponseKind \<Rightarrow>
          (case member ms ''status_code'' of None \<Rightarrow> Some (Some 200) | Some JNull \<Rightarrow> Some None | Some (JInt c) \<Rightarrow> Some (Some c) | _ \<Rightarrow> None))"

definition default_at :: "param_kind \<Rightarrow> (string \<times> jval) list \<Rightarrow> string option option" where
  "default_at kind ms = (case kind of ResponseKind \<Rightarrow> Some None | RequestKind \<Rightarrow> member_text ms ''default_value'')"

definition required_at :: "(string \<times> jval) list \<Rightarrow> bool option" where
  "required_at ms = (case member ms ''required'' of None \<Rightarrow> Some False | Some (JBool b) \<Rightarrow> Some b | _ \<Rightarrow> None)"

definition param_members :: "param_kind \<Rightarrow> (string \<times> jval) list \<Rightarrow> be_param list option \<Rightarrow> be_param option" where
  "param_members kind ms cs =
     (case (member ms ''name'', member ms ''type'', location_at kind ms, status_at kind ms, required_at ms) of
        (Some (JStr nm), Some (JStr ty), Some l, Some st, Some rq) \<Rightarrow>
          (case (default_at kind ms, member_text ms ''description'', member_text ms ''example'', member_text ms ''array_child_type'') of
             (Some df, Some de, Some ex, Some act) \<Rightarrow> Some (BeParam nm ty l st rq df de ex act cs)
           | _ \<Rightarrow> None)
      | _ \<Rightarrow> None)"

lemma map_all_cong [fundef_cong]: "xs = ys \<Longrightarrow> (\<And>y. y \<in> set ys \<Longrightarrow> f y = g y) \<Longrightarrow> map_all f xs = map_all g ys"
  by (induction xs arbitrary: ys) (auto split: option.splits)

lemma size_child_members:
  assumes "children_at ms = Some (Some vs)" "v \<in> set vs"
  shows "size v < Suc (size_list (size_prod (\<lambda>x. 0) size) ms)"
proof -
  have "map_of ms ''children'' = Some (JArr vs)"
    using assms(1) by (auto simp: children_at_def member_def split: option.splits jval.splits)
  then have "size (JArr vs) < Suc (size_list (size_prod (\<lambda>x. 0) size) ms)" by (intro size_pair [OF map_of_SomeD])
  moreover have "size v < size (JArr vs)" using size_element [OF assms(2)] by simp
  ultimately show ?thesis by simp
qed

function param_of_json :: "param_kind \<Rightarrow> jval \<Rightarrow> be_param option" where
  "param_of_json kind v =
     (case v of
        JObj ms \<Rightarrow>
          (case children_at ms of
             None \<Rightarrow> None
           | Some None \<Rightarrow> param_members kind ms None
           | Some (Some vs) \<Rightarrow>
               (case map_all (param_of_json kind) vs of None \<Rightarrow> None | Some cs \<Rightarrow> param_members kind ms (Some cs)))
      | _ \<Rightarrow> None)"
  by pat_completeness auto

termination
  by (relation "measure (\<lambda>(kind, v). size v)") (auto dest: size_child_members)

declare param_of_json.simps [simp del]

text \<open>\<open>json.loads(data[k])\<close>.\<close>

definition params_member :: "'d \<Rightarrow> param_kind \<Rightarrow> http_request \<Rightarrow> string \<Rightarrow> (be_param list \<Rightarrow> http_answer \<times> 'd) \<Rightarrow> http_answer \<times> 'd" where
  "params_member db kind req k f =
     body_member db req k (\<lambda>v. case v of
       JText (JArr vs) \<Rightarrow> (case map_all (param_of_json kind) vs of None \<Rightarrow> (Unmodelled, db) | Some ps \<Rightarrow> f ps)
     | _ \<Rightarrow> (Unmodelled, db))"

fun null_code :: "be_param \<Rightarrow> bool" where
  "null_code (BeParam nm ty l st rq df de ex act ch) \<longleftrightarrow>
     st = None \<or> (nested ty act \<and> (case ch of None \<Rightarrow> False | Some cs \<Rightarrow> list_ex null_code cs))"

definition route_updateApiByApiDraftId :: route_handler where
  "route_updateApiByApiDraftId T D uid req db =
     int_member db req ''service_iteration_id'' (\<lambda>i. int_member db req ''api_draft_id'' (\<lambda>d. text_member db req ''name'' (\<lambda>n.
     text_member db req ''method'' (\<lambda>m. text_member db req ''path'' (\<lambda>p. opt_text_member db req ''description'' (\<lambda>de.
     text_member db req ''level'' (\<lambda>l. params_member db RequestKind req ''req_params'' (\<lambda>rq. params_member db ResponseKind req ''resp_params'' (\<lambda>rs.
       case apiUpdateApiByApiDraftId i d uid n m p de l rq rs db of
         (r, db') \<Rightarrow>
           if (case r of Reply st _ _ \<Rightarrow> st = 200 | _ \<Rightarrow> False) \<and> list_ex null_code rs then (raised, db) else (answer bare r, db'))))))))))"

end
