(* ===== verification/Be_Serve.thy ===== *)
theory Be_Serve
  imports Be_Routes
begin

text \<open>
  The server as a whole: \<open>app.py\<close> with its three routers, and the agreement of its routes with the requests of the front
  end (\<open>FE-CAM/src/services\<close>).
\<close>

section \<open>The table of routes\<close>

text \<open>Path, method, whether a token is needed (\<open>auth_required\<close>), what is done, and the interface the front end declares for the answer.\<close>

type_synonym route = "string \<times> HttpMethod \<times> bool \<times> route_handler \<times> members"

definition userRouterV1 :: "route list" where
  "userRouterV1 =
    [(''/v1/user/getUserById'', GET, True, route_getUserById, UserResponse_ts),
     (''/v1/user/getMyInfo'', GET, True, route_getMyInfo, UserResponse_ts),
     (''/v1/user/getUserByUsernameOrNicknameOrEmail'', GET, True, route_getUserByUsernameOrNicknameOrEmail, GetUserByUsernameOrNicknameOrEmailResponse_ts),
     (''/v1/user/login'', POST, False, route_login, LoginResponse_ts),
     (''/v1/user/register'', POST, False, route_register, RegisterResponse_ts),
     (''/v1/user/modifyPassword'', POST, True, route_modifyPassword, ModifyPasswordResponse_ts)]"

definition serviceRouterV1 :: "route list" where
  "serviceRouterV1 =
    [(''/v1/service/getServiceById'', GET, True, route_getServiceById, GetServiceByIdResponse_ts),
     (''/v1/service/getAllServices'', GET, True, route_getAllServices, GetAllServicesResponse_ts),
     (''/v1/service/getHisNewestServicesByOwnerId'', GET, True, route_getHisNewestServicesByOwnerId, ServiceListResponse_ts),
     (''/v1/service/getHisMaintainedServicesByUserId'', GET, True, route_getHisMaintainedServicesByUserId, ServiceListResponse_ts),
     (''/v1/service/getServiceByUuidAndVersion'', GET, True, route_getServiceByUuidAndVersion, GetServiceByUuidAndVersionResponse_ts),
     (''/v1/service/getAllVersionsByUuid'', GET, True, route_getAllVersionsByUuid, GetAllVersionsByUuidResponse_ts),
     (''/v1/service/createNewService'', POST, True, route_createNewService, CreateNewServiceResponse_ts),
     (''/v1/service/getAllDeletedServicesByUserId'', GET, True, route_getAllDeletedServicesByUserId, GetAllDeletedServicesByUserIdResponse_ts),
     (''/v1/service/isServiceMaintainer'', GET, True, route_isServiceMaintainer, IsServiceMaintainerResponse_ts),
     (''/v1/service/addOrRemoveServiceMaintainerById'', POST, True, route_addOrRemoveServiceMaintainerById, AddOrRemoveServiceMaintainerByIdResponse_ts),
     (''/v1/service/deleteServiceById'', POST, True, route_deleteServiceById, DeleteServiceByIdResponse_ts),
     (''/v1/service/restoreServiceById'', POST, True, route_restoreServiceById, RestoreServiceByIdResponse_ts),
     (''/v1/service/deleteIterationById'', POST, True, route_deleteIterationById, DeleteIterationByIdResponse_ts),
     (''/v1/service/getIterationById'', GET, True, route_getIterationById, GetIterationByIdResponse_ts),
     (''/v1/service/startIteration'', POST, True, route_startIteration, StartIterationResponse_ts),
     (''/v1/service/commitIteration'', POST, True, route_commitIteration, CommitIterationResponse_ts),
     (''/v1/service/updateDescription'', POST, True, route_updateDescription, UpdateDescriptionResponse_ts),
     (''/v1/service/exportOpenapiByUuidAndVersion'', GET, True, route_exportOpenapiByUuidAndVersion, ExportOpenapiByUuidAndVersionResponse_ts)]"

definition apiRouterV1 :: "route list" where
  "apiRouterV1 =
    [(''/v1/api/getAllCategoriesByServiceId'', GET, True, route_getAllCategoriesByServiceId, GetAllCategoriesByServiceIdResponse_ts),
     (''/v1/api/getAllApisByServiceId'', GET, True, route_getAllApisByServiceId, GetAllApisByServiceIdResponse_ts),
     (''/v1/api/getApiById'', GET, True, route_getApiById, GetApiByIdResponse_ts),
     (''/v1/api/addCategoryByServiceId'', POST, True, route_addCategoryByServiceId, AddCategoryByServiceIdResponse_ts),
     (''/v1/api/deleteCategoryById'', POST, True, route_deleteCategoryById, DeleteCategoryByIdResponse_ts),
     (''/v1/api/updateCategoryById'', POST, True, route_updateCategoryById, UpdateCategoryByIdResponse_ts),
     (''/v1/api/updateApiCategoryById'', POST, True, route_updateApiCategoryById, UpdateApiCategoryByIdResponse_ts),
     (''/v1/api/addApi'', POST, True, route_addApi, AddApiResponse_ts),
     (''/v1/api/copyApiByApiDraftId'', POST, True, route_copyApiByApiDraftId, AddApiResponse_ts),
     (''/v1/api/deleteApiByApiDraftId'', POST, True, route_deleteApiByApiDraftId, DeleteApiByApiDraftIdResponse_ts),
     (''/v1/api/updateApiByApiDraftId'', POST, True, route_updateApiByApiDraftId, UpdateApiByApiDraftIdResponse_ts)]"

definition routes :: "route list" where
  "routes = userRouterV1 @ serviceRouterV1 @ apiRouterV1"

definition find_route :: "string \<Rightarrow> HttpMethod \<Rightarrow> route option" where
  "find_route path m = List.find (\<lambda>(p, m', rest). p = path \<and> m' = m) routes"

text \<open>The header \<open>Authorization: Bearer token\<close>.\<close>

definition bearer_token :: "http_request \<Rightarrow> string option" where
  "bearer_token req =
     (case hr_auth req of None \<Rightarrow> None | Some a \<Rightarrow> if prefix ''Bearer '' a then Some (drop 7 a) else None)"

text \<open>A request is sent to \<open>base @ path\<close>.\<close>

definition request_path :: "string \<Rightarrow> http_request \<Rightarrow> string option" where
  "request_path base req = (if prefix base (hr_url req) then Some (drop (length base) (hr_url req)) else None)"

definition serve :: "string \<Rightarrow> row_texts \<Rightarrow> server_env \<Rightarrow> http_request \<Rightarrow> database \<Rightarrow> http_answer \<times> database" where
  "serve base T D req db =
     (case Option.bind (request_path base req) (\<lambda>p. find_route p (hr_method req)) of
        None \<Rightarrow> (HttpError 404 ''Not found'', db)
      | Some (p, m, needs_token, handler, t) \<Rightarrow>
          if \<not> needs_token then handler T D 0 req db
          else
            (case authenticate D p (bearer_token req) db of
               NoIdentity \<Rightarrow> (HttpError 401 ''Unauthorized'', db)
             | AuthRaised \<Rightarrow> (raised, db)
             | Identity u \<Rightarrow> handler T D (usr_id u) req db))"


section \<open>Reaching a handler\<close>

text \<open>The request of a client that is signed in as \<open>uid\<close> with the token \<open>t\<close>.\<close>

definition sent :: "string \<Rightarrow> string \<Rightarrow> http_request \<Rightarrow> http_request" where
  "sent base t req = req\<lparr>hr_url := base @ hr_url req, hr_auth := Some (''Bearer '' @ t)\<rparr>"

definition fetch :: "string \<Rightarrow> row_texts \<Rightarrow> server_env \<Rightarrow> string \<Rightarrow> database \<Rightarrow> http_request \<Rightarrow> http_answer \<times> database" where
  "fetch base T D t db req = serve base T D (sent base t req) db"

definition signed_in :: "server_env \<Rightarrow> string \<Rightarrow> int \<Rightarrow> database \<Rightarrow> bool" where
  "signed_in D t uid db \<longleftrightarrow> jwt_decode D (clock D) t = Some uid \<and> user_of db uid \<noteq> None"

text \<open>The client sends it this way when the token is stored.\<close>

lemma sent_by_browser: "b_token b = Some t \<Longrightarrow> t \<noteq> [] \<Longrightarrow> fe_attach_token b (req\<lparr>hr_url := base @ hr_url req\<rparr>) = sent base t req"
  by (simp add: fe_attach_token_def getAccessToken_def or_str_def sent_def)

lemma signed_in_authenticates:
  assumes "signed_in D t uid db" "map_of API_PERMISSION_MAP p = None"
  shows "\<exists>u. authenticate D p (Some t) db = Identity u \<and> usr_id u = uid"
proof -
  obtain u where u: "user_of db uid = Some u" using assms(1) by (auto simp: signed_in_def)
  have "usr_id u = uid" using u by (auto simp: get_row_def find_Some_iff)
  then show ?thesis using assms u by (simp add: signed_in_def authenticate_def userGetUserById_def)
qed

lemma serve_token:
  assumes "signed_in D t uid db" "find_route (hr_url req) (hr_method req) = Some (p, m, True, h, ty)" "map_of API_PERMISSION_MAP p = None"
  shows "serve base T D (sent base t req) db = h T D uid (sent base t req) db"
proof -
  obtain u where u: "authenticate D p (Some t) db = Identity u" "usr_id u = uid" using signed_in_authenticates [OF assms(1,3)] by blast
  have "request_path base (sent base t req) = Some (hr_url req)" by (simp add: request_path_def sent_def)
  moreover have "bearer_token (sent base t req) = Some t" by (simp add: bearer_token_def sent_def)
  moreover have "hr_method (sent base t req) = hr_method req" by (simp add: sent_def)
  ultimately show ?thesis using assms(2) u by (simp add: serve_def)
qed

lemma sent_simps [simp]: "hr_params (sent base t req) = hr_params req" "hr_data (sent base t req) = hr_data req"
  by (simp_all add: sent_def)

lemma request_simps [simp]:
  "hr_url (get_request u ps) = u" "hr_method (get_request u ps) = GET" "hr_params (get_request u ps) = ps"
  "hr_url (post_request u b) = u" "hr_method (post_request u b) = POST" "hr_data (post_request u b) = Some b" "hr_params (post_request u b) = []"
  by (simp_all add: get_request_def post_request_def)

text \<open>Numbers in the text of a URL.\<close>

lemma int_str_not_Nil [simp]: "int_str n \<noteq> []"
  by (simp add: int_str_def)

lemma digit_not: "all_digits s \<Longrightarrow> \<not> is_digit c \<Longrightarrow> c \<notin> set s"
  by (auto simp: all_digits_def list_all_iff)

lemma py_int_str [simp]: "py_int (int_str n) = Some n"
proof -
  have d: "all_digits (nat_str k)" "nat_str k \<noteq> []" for k by simp_all
  have us: "split_on CHR ''_'' (nat_str k) = [nat_str k]" for k
    by (rule split_on_free) (rule digit_not [OF d(1)], simp add: is_digit_def)
  have np: "\<not> prefix ''-'' (nat_str k)" "\<not> prefix ''+'' (nat_str k)" for k
  proof -
    have "CHR ''-'' \<notin> set (nat_str k)" "CHR ''+'' \<notin> set (nat_str k)"
      by (rule digit_not [OF d(1)], simp add: is_digit_def)+
    then show "\<not> prefix ''-'' (nat_str k)" "\<not> prefix ''+'' (nat_str k)" by (auto simp: prefix_def)
  qed
  have sp: "list_all (\<lambda>c. \<not> is_space c) (int_str n)"
  proof -
    have "is_digit c \<Longrightarrow> \<not> is_space c" for c by (auto simp: is_digit_def is_space_def)
    then have "list_all (\<lambda>c. \<not> is_space c) (nat_str k)" for k using d(1) [of k] by (auto simp: all_digits_def list_all_iff)
    then show ?thesis by (auto simp: int_str_def is_space_def)
  qed
  show ?thesis unfolding py_int_def js_trim_plain [OF sp] Let_def
    using np us by (cases "n < 0") (simp_all add: int_str_def)
qed

end
