(* ===== verification/Be_Agree.thy ===== *)
theory Be_Agree
  imports Be_Serve
begin

text \<open>
  The requests of the front end and the routes of the back end agree: every function of \<open>FE-CAM/src/services\<close> reaches the
  handler it is meant for, with the values it was given.
\<close>

lemmas router = find_route_def routes_def userRouterV1_def serviceRouterV1_def apiRouterV1_def

lemmas reading = required_def query_param_def query_text_def int_text_def page_param_def default_param_def paging_def uuid_version_def

lemmas body = text_member_def opt_text_member_def num_member_def int_member_def body_member_def draft_member_def member_def

lemma find_user_routes:
  "find_route ''/v1/user/getUserById'' GET = Some (''/v1/user/getUserById'', GET, True, route_getUserById, UserResponse_ts)"
  "find_route ''/v1/user/getMyInfo'' GET = Some (''/v1/user/getMyInfo'', GET, True, route_getMyInfo, UserResponse_ts)"
  "find_route ''/v1/user/getUserByUsernameOrNicknameOrEmail'' GET = Some (''/v1/user/getUserByUsernameOrNicknameOrEmail'', GET, True, route_getUserByUsernameOrNicknameOrEmail, GetUserByUsernameOrNicknameOrEmailResponse_ts)"
  "find_route ''/v1/user/login'' POST = Some (''/v1/user/login'', POST, False, route_login, LoginResponse_ts)"
  "find_route ''/v1/user/register'' POST = Some (''/v1/user/register'', POST, False, route_register, RegisterResponse_ts)"
  "find_route ''/v1/user/modifyPassword'' POST = Some (''/v1/user/modifyPassword'', POST, True, route_modifyPassword, ModifyPasswordResponse_ts)"
  by (simp_all add: router)

lemma find_service_routes:
  "find_route ''/v1/service/getServiceById'' GET = Some (''/v1/service/getServiceById'', GET, True, route_getServiceById, GetServiceByIdResponse_ts)"
  "find_route ''/v1/service/getAllServices'' GET = Some (''/v1/service/getAllServices'', GET, True, route_getAllServices, GetAllServicesResponse_ts)"
  "find_route ''/v1/service/getHisNewestServicesByOwnerId'' GET = Some (''/v1/service/getHisNewestServicesByOwnerId'', GET, True, route_getHisNewestServicesByOwnerId, ServiceListResponse_ts)"
  "find_route ''/v1/service/getHisMaintainedServicesByUserId'' GET = Some (''/v1/service/getHisMaintainedServicesByUserId'', GET, True, route_getHisMaintainedServicesByUserId, ServiceListResponse_ts)"
  "find_route ''/v1/service/getServiceByUuidAndVersion'' GET = Some (''/v1/service/getServiceByUuidAndVersion'', GET, True, route_getServiceByUuidAndVersion, GetServiceByUuidAndVersionResponse_ts)"
  "find_route ''/v1/service/getAllVersionsByUuid'' GET = Some (''/v1/service/getAllVersionsByUuid'', GET, True, route_getAllVersionsByUuid, GetAllVersionsByUuidResponse_ts)"
  "find_route ''/v1/service/createNewService'' POST = Some (''/v1/service/createNewService'', POST, True, route_createNewService, CreateNewServiceResponse_ts)"
  "find_route ''/v1/service/getAllDeletedServicesByUserId'' GET = Some (''/v1/service/getAllDeletedServicesByUserId'', GET, True, route_getAllDeletedServicesByUserId, GetAllDeletedServicesByUserIdResponse_ts)"
  "find_route ''/v1/service/isServiceMaintainer'' GET = Some (''/v1/service/isServiceMaintainer'', GET, True, route_isServiceMaintainer, IsServiceMaintainerResponse_ts)"
  "find_route ''/v1/service/addOrRemoveServiceMaintainerById'' POST = Some (''/v1/service/addOrRemoveServiceMaintainerById'', POST, True, route_addOrRemoveServiceMaintainerById, AddOrRemoveServiceMaintainerByIdResponse_ts)"
  "find_route ''/v1/service/deleteServiceById'' POST = Some (''/v1/service/deleteServiceById'', POST, True, route_deleteServiceById, DeleteServiceByIdResponse_ts)"
  "find_route ''/v1/service/restoreServiceById'' POST = Some (''/v1/service/restoreServiceById'', POST, True, route_restoreServiceById, RestoreServiceByIdResponse_ts)"
  "find_route ''/v1/service/deleteIterationById'' POST = Some (''/v1/service/deleteIterationById'', POST, True, route_deleteIterationById, DeleteIterationByIdResponse_ts)"
  "find_route ''/v1/service/getIterationById'' GET = Some (''/v1/service/getIterationById'', GET, True, route_getIterationById, GetIterationByIdResponse_ts)"
  "find_route ''/v1/service/startIteration'' POST = Some (''/v1/service/startIteration'', POST, True, route_startIteration, StartIterationResponse_ts)"
  "find_route ''/v1/service/commitIteration'' POST = Some (''/v1/service/commitIteration'', POST, True, route_commitIteration, CommitIterationResponse_ts)"
  "find_route ''/v1/service/updateDescription'' POST = Some (''/v1/service/updateDescription'', POST, True, route_updateDescription, UpdateDescriptionResponse_ts)"
  "find_route ''/v1/service/exportOpenapiByUuidAndVersion'' GET = Some (''/v1/service/exportOpenapiByUuidAndVersion'', GET, True, route_exportOpenapiByUuidAndVersion, ExportOpenapiByUuidAndVersionResponse_ts)"
  by (simp_all add: router)

lemma find_api_routes:
  "find_route ''/v1/api/getAllCategoriesByServiceId'' GET = Some (''/v1/api/getAllCategoriesByServiceId'', GET, True, route_getAllCategoriesByServiceId, GetAllCategoriesByServiceIdResponse_ts)"
  "find_route ''/v1/api/getAllApisByServiceId'' GET = Some (''/v1/api/getAllApisByServiceId'', GET, True, route_getAllApisByServiceId, GetAllApisByServiceIdResponse_ts)"
  "find_route ''/v1/api/getApiById'' GET = Some (''/v1/api/getApiById'', GET, True, route_getApiById, GetApiByIdResponse_ts)"
  "find_route ''/v1/api/addCategoryByServiceId'' POST = Some (''/v1/api/addCategoryByServiceId'', POST, True, route_addCategoryByServiceId, AddCategoryByServiceIdResponse_ts)"
  "find_route ''/v1/api/deleteCategoryById'' POST = Some (''/v1/api/deleteCategoryById'', POST, True, route_deleteCategoryById, DeleteCategoryByIdResponse_ts)"
  "find_route ''/v1/api/updateCategoryById'' POST = Some (''/v1/api/updateCategoryById'', POST, True, route_updateCategoryById, UpdateCategoryByIdResponse_ts)"
  "find_route ''/v1/api/updateApiCategoryById'' POST = Some (''/v1/api/updateApiCategoryById'', POST, True, route_updateApiCategoryById, UpdateApiCategoryByIdResponse_ts)"
  "find_route ''/v1/api/addApi'' POST = Some (''/v1/api/addApi'', POST, True, route_addApi, AddApiResponse_ts)"
  "find_route ''/v1/api/copyApiByApiDraftId'' POST = Some (''/v1/api/copyApiByApiDraftId'', POST, True, route_copyApiByApiDraftId, AddApiResponse_ts)"
  "find_route ''/v1/api/deleteApiByApiDraftId'' POST = Some (''/v1/api/deleteApiByApiDraftId'', POST, True, route_deleteApiByApiDraftId, DeleteApiByApiDraftIdResponse_ts)"
  "find_route ''/v1/api/updateApiByApiDraftId'' POST = Some (''/v1/api/updateApiByApiDraftId'', POST, True, route_updateApiByApiDraftId, UpdateApiByApiDraftIdResponse_ts)"
  by (simp_all add: router)

lemmas find_routes = find_user_routes find_service_routes find_api_routes

lemma open_paths:
  "map_of API_PERMISSION_MAP p = None \<longleftrightarrow> p \<noteq> ''/v1/user/getUserById''"
  by (simp add: API_PERMISSION_MAP_def)

text \<open>The dispatcher for a request that needs no more than a token.\<close>

lemma fetch_cases:
  assumes "signed_in D t uid db" "hr_url req \<noteq> ''/v1/user/getUserById''"
  shows "fetch base T D t db req =
    (case find_route (hr_url req) (hr_method req) of
       None \<Rightarrow> (HttpError 404 ''Not found'', db)
     | Some (p, m, tok, h, ty) \<Rightarrow> h T D (if tok then uid else 0) (sent base t req) db)"
proof (cases "find_route (hr_url req) (hr_method req)")
  case None
  have "request_path base (sent base t req) = Some (hr_url req)" by (simp add: request_path_def sent_def)
  moreover have "hr_method (sent base t req) = hr_method req" by (simp add: sent_def)
  ultimately show ?thesis using None by (simp add: fetch_def serve_def)
next
  case (Some r)
  obtain p m tok h ty where r: "r = (p, m, tok, h, ty)" by (metis prod_cases5)
  have p: "p = hr_url req" using Some r by (auto simp: find_route_def find_Some_iff)
  have q: "request_path base (sent base t req) = Some (hr_url req)" "hr_method (sent base t req) = hr_method req"
    by (simp_all add: request_path_def sent_def)
  show ?thesis
  proof (cases tok)
    case True
    then show ?thesis
      using serve_token [OF assms(1), of req p m h ty base T] Some r p assms(2) by (simp add: fetch_def open_paths)
  next
    case False
    then show ?thesis using Some r q by (simp add: fetch_def serve_def)
  qed
qed

lemma lower_letters:
  "lower_char CHR ''t'' = CHR ''t''" "lower_char CHR ''r'' = CHR ''r''" "lower_char CHR ''u'' = CHR ''u''" "lower_char CHR ''e'' = CHR ''e''"
  "lower_char CHR ''f'' = CHR ''f''" "lower_char CHR ''a'' = CHR ''a''" "lower_char CHR ''l'' = CHR ''l''" "lower_char CHR ''s'' = CHR ''s''"
  by code_simp+

lemmas service_builders = GetMyNewestServices_def GetMyMaintainedServices_def GetAllServices_def GetHisNewestServicesByOwnerId_def GetServiceById_def fe_GetServiceByUuidAndVersion_def GetAllVersionsByUuid_def CreateNewService_def GetAllDeletedServicesByUserId_def DeleteServiceById_def RestoreServiceById_def DeleteIterationById_def GetIterationById_def StartIteration_def CommitIteration_def UpdateDescription_def IsServiceMaintainer_def AddOrRemoveServiceMaintainerById_def ExportOpenapiByUuidAndVersion_def page_params_def

lemmas service_handlers = route_getServiceById_def route_getAllServices_def route_getHisNewestServicesByOwnerId_def route_getHisMaintainedServicesByUserId_def route_getServiceByUuidAndVersion_def route_getAllVersionsByUuid_def route_createNewService_def route_getAllDeletedServicesByUserId_def route_isServiceMaintainer_def route_addOrRemoveServiceMaintainerById_def route_deleteServiceById_def route_restoreServiceById_def route_deleteIterationById_def route_getIterationById_def route_startIteration_def route_commitIteration_def route_updateDescription_def route_exportOpenapiByUuidAndVersion_def

text \<open>
  The requests about services reach their handlers: for a user who is signed in, each request function of
  \<open>services/service\<close> is answered with what the handler says about exactly the values it was given, and only the
  functions that change something change the database.
\<close>

theorem service_requests_served:
  assumes "signed_in D t uid db" "u \<noteq> []" "v \<noteq> []"
  shows
    "fetch base T D t db (GetMyNewestServices n p) = reads db (services_list T db ''services'' item_columns) (paged n p (\<lambda>n p. serviceGetHisNewestServicesByOwnerId uid uid n p db)) \<and>
     fetch base T D t db (GetMyMaintainedServices n p) = reads db (services_list T db ''services'' (''owner'' # item_columns)) (paged n p (\<lambda>n p. serviceGetHisMaintainedServicesByUserId uid uid n p db)) \<and>
     fetch base T D t db (GetAllServices n p) = reads db (services_list T db ''services'' (''owner'' # ''deleted_at'' # item_columns)) (paged n p (\<lambda>n p. serviceGetAllServices uid n p db)) \<and>
     fetch base T D t db (GetHisNewestServicesByOwnerId i n p) = reads db (services_list T db ''services'' (if i = uid then item_columns else ''owner'' # item_columns)) (paged n p (\<lambda>n p. serviceGetHisNewestServicesByOwnerId i uid n p db)) \<and>
     fetch base T D t db (GetServiceById i) = reads db (one ''service'' (\<lambda>x. service_detail T db (fst x))) (serviceGetServiceById i uid db) \<and>
     fetch base T D t db (fe_GetServiceByUuidAndVersion u v) = reads db (version_json T db) (serviceGetServiceByUuidAndVersion (uuid_param u) v uid db) \<and>
     fetch base T D t db (GetAllVersionsByUuid u) = reads db versions_json (serviceGetAllVersionsByUuid (uuid_param u) uid db) \<and>
     fetch base T D t db (CreateNewService u d) = (let (r, db') = serviceCreateNewService u uid d db in (answer (one ''service'' (service_detail T db')) r, db')) \<and>
     fetch base T D t db (GetAllDeletedServicesByUserId n p) = reads db (services_list T db ''deleted_services'' (''deleted_at'' # item_columns)) (paged n p (\<lambda>n p. serviceGetAllDeletedServicesByUserId uid n p db)) \<and>
     fetch base T D t db (DeleteServiceById i) = writes bare (serviceDeleteServiceById D i uid db) \<and>
     fetch base T D t db (RestoreServiceById i) = writes bare (serviceRestoreServiceById i uid db) \<and>
     fetch base T D t db (DeleteIterationById i) = writes bare (serviceDeleteIterationById i uid db) \<and>
     fetch base T D t db (GetIterationById i) = reads db (one ''iteration'' (\<lambda>x. iteration_detail T db (fst x))) (serviceGetServiceIterationById i uid db) \<and>
     fetch base T D t db (StartIteration i) = writes (one ''service_iteration_id'' JInt) (serviceStartIteration D i uid db) \<and>
     fetch base T D t db (CommitIteration i v) = writes (\<lambda>(s, it, v). [(''service_id'', JInt s), (''service_iteration_id'', JInt it), (''version'', JStr v)]) (serviceCommitIteration D i v uid db) \<and>
     fetch base T D t db (UpdateDescription i d) = writes bare (serviceUpdateDescription i d uid db) \<and>
     fetch base T D t db (IsServiceMaintainer i c) = reads db (one ''is_current_maintainer'' JBool) (serviceIsMaintainer i uid c db) \<and>
     fetch base T D t db (AddOrRemoveServiceMaintainerById i c) = writes (one ''is_current_maintainer'' JBool) (serviceAddOrRemoveServiceMaintainerById i uid c db) \<and>
     fetch base T D t db (ExportOpenapiByUuidAndVersion u v) = reads db (\<lambda>x. [(''openapi_object'', fst x), (''is_latest'', JBool (snd x))])
       (serviceExportOpenapiByUuidAndVersion D (float_of T) (uuid_param u) v uid db)"
  by (intro conjI; simp add: fetch_cases [OF assms(1)] assms(2,3) service_builders service_handlers find_service_routes reading body lower_letters string2Bool_def Let_def)

lemmas user_handlers = route_getUserById_def route_getMyInfo_def route_getUserByUsernameOrNicknameOrEmail_def route_login_def route_register_def route_modifyPassword_def

lemmas api_handlers = route_getAllCategoriesByServiceId_def route_getAllApisByServiceId_def route_getApiById_def route_addCategoryByServiceId_def route_deleteCategoryById_def route_updateCategoryById_def route_updateApiCategoryById_def route_addApi_def route_copyApiByApiDraftId_def route_deleteApiByApiDraftId_def route_updateApiByApiDraftId_def

section \<open>Users\<close>

text \<open>Two requests need no token, and one needs a user of level \<open>0\<close>.\<close>

theorem user_requests_served:
  assumes "signed_in D t uid db" "q \<noteq> []"
  shows
    "fetch base T D t db fe_GetMyInfo = reads db (one ''user'' (user_json T)) (userGetUserById uid db) \<and>
     fetch base T D t db (GetUserByUsernameOrNicknameOrEmail q) = reads db (one ''users'' (\<lambda>us. JArr (map (user_json T) us))) (userGetUserByUsernameOrNicknameOrEmail T q db) \<and>
     fetch base T D t db (UserModifyPassword m c) = writes bare (userModifyPassword D uid (mq_old_password m) (mq_new_password m) db) \<and>
     fetch base T D t' db (fe_UserLogin l) = reads db (one ''access_token'' JStr) (userLogin D (lq_username l) (lq_password l) db) \<and>
     fetch base T D t' db (UserRegister r) = writes bare (userRegister D (rq_username r) (rq_password r) (rq_nickname r) (rq_email r) (rq_role r) db) \<and>
     fetch base T D t db (GetUserById i) =
       (case user_of db uid of
          None \<Rightarrow> (raised, db)
        | Some u \<Rightarrow> if usr_level u > 0 then (HttpError 401 ''Unauthorized'', db) else reads db (one ''user'' (user_json T)) (userGetUserById i db))"
proof -
  have o: "request_path base (sent base t' req) = Some (hr_url req)" "hr_method (sent base t' req) = hr_method req" for t' req
    by (simp_all add: request_path_def sent_def)
  have l: "fetch base T D t' db (fe_UserLogin l) = reads db (one ''access_token'' JStr) (userLogin D (lq_username l) (lq_password l) db)"
    by (simp add: fetch_def serve_def o fe_UserLogin_def find_user_routes user_handlers body)
  have r: "fetch base T D t' db (UserRegister r) = writes bare (userRegister D (rq_username r) (rq_password r) (rq_nickname r) (rq_email r) (rq_role r) db)"
    by (simp add: fetch_def serve_def o UserRegister_def find_user_routes user_handlers body)
  obtain u where u: "user_of db uid = Some u" "usr_id u = uid" using assms(1) by (auto simp: signed_in_def get_row_def find_Some_iff)
  have b: "bearer_token (sent base t req) = Some t" for req by (simp add: bearer_token_def sent_def)
  have "authenticate D ''/v1/user/getUserById'' (Some t) db = (if usr_level u > 0 then NoIdentity else Identity u)"
    using assms(1) u by (simp add: authenticate_def signed_in_def userGetUserById_def API_PERMISSION_MAP_def)
  then have g: "fetch base T D t db (GetUserById i) =
       (if usr_level u > 0 then (HttpError 401 ''Unauthorized'', db) else reads db (one ''user'' (user_json T)) (userGetUserById i db))"
    using u by (simp add: fetch_def serve_def o b GetUserById_def find_user_routes user_handlers reading)
  show ?thesis unfolding l r g u(1)
    by (intro conjI; simp add: fetch_cases [OF assms(1)] assms(2) fe_GetMyInfo_def GetUserByUsernameOrNicknameOrEmail_def UserModifyPassword_def
        user_handlers find_user_routes reading body)
qed

section \<open>APIs\<close>

lemma map_all_map: "(\<And>x. x \<in> set xs \<Longrightarrow> f (g x) = Some (h x)) \<Longrightarrow> map_all f (map g xs) = Some (map h xs)"
  by (induction xs) auto

lemma params_decoded:
  "param_of_json RequestKind (req_json p) = Some (be_of_req p)"
  "param_of_json ResponseKind (resp_json q) = Some (be_of_resp q)"
proof -
  note members = param_of_json.simps children_at_def param_members_def member_def location_at_def status_at_def required_at_def
    default_at_def member_text_def opt_member_def jopt_str_def
  show "param_of_json RequestKind (req_json p) = Some (be_of_req p)"
  proof (induction p)
    case (ReqInput nm ty loc rq df de ex act ch)
    have c: "map_all (param_of_json RequestKind) (map req_json cs) = Some (map be_of_req cs)" if "ch = Some cs" for cs
      by (rule map_all_map) (use ReqInput that in auto)
    show ?case by (cases ch; cases de; cases ex; cases df; cases act) (simp_all add: members c)
  qed
  show "param_of_json ResponseKind (resp_json q) = Some (be_of_resp q)"
  proof (induction q)
    case (RespInput nm ty code rq de ex act ch)
    have c: "map_all (param_of_json ResponseKind) (map resp_json cs) = Some (map be_of_resp cs)" if "ch = Some cs" for cs
      by (rule map_all_map) (use RespInput that in auto)
    show ?case by (cases ch; cases de; cases ex; cases code; cases act) (simp_all add: members c)
  qed
qed

lemma null_code_status: "null_code (be_of_resp q) \<longleftrightarrow> null_status q"
proof (induction q)
  case (RespInput nm ty code rq de ex act ch)
  then show ?case by (cases ch) (auto simp: list_ex_iff)
qed

lemma decoded_lists:
  "map_all (param_of_json RequestKind) (map req_json ps) = Some (map be_of_req ps)"
  "map_all (param_of_json ResponseKind) (map resp_json qs) = Some (map be_of_resp qs)"
  "list_ex null_code (map be_of_resp qs) = list_ex null_status qs"
  by (simp_all add: map_all_map params_decoded null_code_status list_ex_iff)

lemma update_served:
  assumes "signed_in D t uid db"
  shows "fetch base T D t db (UpdateApiByApiDraftId i u) = writes bare (updateApiByApiDraftId i uid u db)"
proof (cases "up_description u")
  case None
  then show ?thesis
    by (simp add: fetch_cases [OF assms] UpdateApiByApiDraftId_def api_handlers find_api_routes body opt_member_def updateApiByApiDraftId_def writes_def answer_def)
next
  case (Some de)
  obtain r db' where h: "apiUpdateApiByApiDraftId i (up_api_draft_id u) uid (up_name u) (method_str (up_method u)) (up_path u) (Some de)
      (level_str (up_level u)) (map be_of_req (up_req_params u)) (map be_of_resp (up_resp_params u)) db = (r, db')"
    by (metis surj_pair)
  have f: "fetch base T D t db (UpdateApiByApiDraftId i u) =
      (if (case r of Reply st m b \<Rightarrow> st = 200 | _ \<Rightarrow> False) \<and> list_ex null_status (up_resp_params u) then (raised, db) else (answer bare r, db'))"
    using Some by (simp add: fetch_cases [OF assms] UpdateApiByApiDraftId_def api_handlers find_api_routes body opt_member_def params_member_def decoded_lists h)
  have r: "answer bare Raised = raised" by (simp add: answer_def)
  show ?thesis unfolding f using Some r by (simp add: updateApiByApiDraftId_def h writes_def split: if_split)
qed

text \<open>
  The requests about APIs reach their handlers, with the values they were given: parameters that the editor sends as
  JSON arrive as the parameters they are.
\<close>

theorem api_requests_served:
  assumes "signed_in D t uid db"
  shows
    "fetch base T D t db (GetAllCategoriesByServiceId i) = reads db (one ''categories'' (\<lambda>cs. JArr (map category_json cs))) (apiGetAllCategoriesByServiceId i uid db) \<and>
     fetch base T D t db (GetAllApisByServiceId i k) = reads db (one ''apis'' (\<lambda>as. JArr (map (\<lambda>a. JObj (api_columns T False a)) as))) (apiGetAllApisByServiceId i uid (Some k) db) \<and>
     fetch base T D t db (fe_GetApiById i l) = reads db (one ''api'' (api_json T db (l = Some False))) (apiGetApiById D i uid (l \<noteq> Some False) db) \<and>
     fetch base T D t db (AddCategoryByServiceId i n de) = writes (one ''category'' category_json) (apiAddCategoryByServiceId i uid n de db) \<and>
     fetch base T D t db (DeleteCategoryById c) = writes bare (apiDeleteCategoryById c uid db) \<and>
     fetch base T D t db (UpdateCategoryById c nm de) = writes (one ''category'' category_json) (apiUpdateCategoryById c uid nm de db) \<and>
     fetch base T D t db (UpdateApiCategoryById i (Some c)) = writes bare (apiUpdateApiCategory i c uid db) \<and>
     fetch base T D t db (UpdateApiCategoryById i None) = (raised, db) \<and>
     fetch base T D t db (AddApi d) = writes (one ''api'' (\<lambda>a. JObj (api_columns T True a)))
       (apiAddApi D (aa_service_iteration_id d) uid (aa_name d) (method_str (aa_method d)) (aa_path d) (aa_description d) (level_str (aa_level d))
         (if aa_category_id d = Some 0 then None else aa_category_id d) db) \<and>
     fetch base T D t db (CopyApiByApiDraftId i k) = writes bare (apiCopyApiByApiDraftId D i k uid db) \<and>
     fetch base T D t db (DeleteApiByApiDraftId i k) = writes bare (apiDeleteApiByApiDraftId i k uid db) \<and>
     fetch base T D t db (UpdateApiByApiDraftId i u) = writes bare (updateApiByApiDraftId i uid u db)"
proof -
  have a: "fetch base T D t db (fe_GetApiById i l) = reads db (one ''api'' (api_json T db (l = Some False))) (apiGetApiById D i uid (l \<noteq> Some False) db)"
    by (cases l rule: option.exhaust [case_product bool.exhaust [of "the l"]])
      (simp_all add: fetch_cases [OF assms] fe_GetApiById_def api_handlers find_api_routes reading lower_letters string2Bool_def)
  have c: "fetch base T D t db (AddApi d) = writes (one ''api'' (\<lambda>a. JObj (api_columns T True a)))
       (apiAddApi D (aa_service_iteration_id d) uid (aa_name d) (method_str (aa_method d)) (aa_path d) (aa_description d) (level_str (aa_level d))
         (if aa_category_id d = Some 0 then None else aa_category_id d) db)"
    by (cases "aa_category_id d") (simp_all add: fetch_cases [OF assms] AddApi_def api_handlers find_api_routes body category_member_def)
  have o: "fetch base T D t db (AddCategoryByServiceId i n de) = writes (one ''category'' category_json) (apiAddCategoryByServiceId i uid n de db)"
    "fetch base T D t db (UpdateCategoryById c nm de) = writes (one ''category'' category_json) (apiUpdateCategoryById c uid nm de db)"
    by (cases de; cases nm; simp add: fetch_cases [OF assms] AddCategoryByServiceId_def UpdateCategoryById_def jopt_str_def api_handlers find_api_routes body)+
  show ?thesis unfolding a c o update_served [OF assms]
    by (intro conjI; simp add: fetch_cases [OF assms] GetAllCategoriesByServiceId_def GetAllApisByServiceId_def DeleteCategoryById_def
        UpdateApiCategoryById_def CopyApiByApiDraftId_def DeleteApiByApiDraftId_def draft_body_def api_handlers find_api_routes reading body)
qed

section \<open>Types of requests\<close>

definition query_of :: "http_request \<Rightarrow> jval" where
  "query_of req = JObj (hr_params req)"

definition body_of :: "http_request \<Rightarrow> jval" where
  "body_of req = (case hr_data req of None \<Rightarrow> JNull | Some v \<Rightarrow> v)"

lemma enum_texts: "method_str m \<in> {''GET'', ''POST'', ''PUT'', ''DELETE'', ''PATCH''}" "level_str l \<in> {''P0'', ''P1'', ''P2'', ''P3'', ''P4''}"
  by (cases m; simp) (cases l; simp)

text \<open>
  What the front end sends has the types it declares for requests; the lists of parameters of an API are not among
  them, they are sent as text.
\<close>

theorem requests_typed:
  "conforms (TInterface LoginRequest_ts) (body_of (fe_UserLogin l)) \<and>
   conforms (TInterface RegisterRequest_ts) (body_of (UserRegister r)) \<and>
   conforms (TInterface ModifyPasswordRequest_ts) (body_of (UserModifyPassword m c)) \<and>
   conforms (TInterface CreateNewServiceRequest_ts) (body_of (CreateNewService u d)) \<and>
   conforms (TInterface DeleteServiceByIdRequest_ts) (body_of (DeleteServiceById i)) \<and>
   conforms (TInterface RestoreServiceByIdRequest_ts) (body_of (RestoreServiceById i)) \<and>
   conforms (TInterface DeleteIterationByIdRequest_ts) (body_of (DeleteIterationById i)) \<and>
   conforms (TInterface StartIterationRequest_ts) (body_of (StartIteration i)) \<and>
   conforms (TInterface CommitIterationRequest_ts) (body_of (CommitIteration i v)) \<and>
   conforms (TInterface UpdateDescriptionRequest_ts) (body_of (UpdateDescription i d)) \<and>
   conforms (TInterface IsServiceMaintainerRequest_ts) (query_of (IsServiceMaintainer i k)) \<and>
   conforms (TInterface AddOrRemoveServiceMaintainerByIdRequest_ts) (body_of (AddOrRemoveServiceMaintainerById i k)) \<and>
   conforms (TInterface GetAllCategoriesByServiceIdRequest_ts) (query_of (GetAllCategoriesByServiceId i)) \<and>
   conforms (TInterface GetAllApisByServiceIdRequest_ts) (query_of (GetAllApisByServiceId i k)) \<and>
   conforms (TInterface GetApiByIdRequest_ts) (query_of (fe_GetApiById i b)) \<and>
   conforms (TInterface AddCategoryByServiceIdRequest_ts) (body_of (AddCategoryByServiceId i n de)) \<and>
   conforms (TInterface DeleteCategoryByIdRequest_ts) (body_of (DeleteCategoryById i)) \<and>
   conforms (TInterface UpdateCategoryByIdRequest_ts) (body_of (UpdateCategoryById i nm de)) \<and>
   conforms (TInterface UpdateApiCategoryByIdRequest_ts) (body_of (UpdateApiCategoryById i (Some k))) \<and>
   conforms (TInterface AddApiRequest_ts) (body_of (AddApi a)) \<and>
   conforms (TInterface DeleteApiByApiDraftIdRequest_ts) (body_of (DeleteApiByApiDraftId i k)) \<and>
   conforms (TInterface DeleteApiByApiDraftIdRequest_ts) (body_of (CopyApiByApiDraftId i k))"
proof -
  have g: "conforms (TInterface GetApiByIdRequest_ts) (query_of (fe_GetApiById i b))"
    unfolding query_of_def by (cases b) (auto intro!: conformsI simp: fe_GetApiById_def GetApiByIdRequest_ts_def)
  have t: "conforms (TNull TString) (jopt_str x)" for x by (cases x) (simp_all add: jopt_str_def)
  have a: "conforms (TInterface AddApiRequest_ts) (body_of (AddApi a))"
    using enum_texts(1) [of "aa_method a"] enum_texts(2) [of "aa_level a"] unfolding body_of_def
    by (cases "aa_category_id a") (auto intro!: conformsI simp: AddApi_def AddApiRequest_ts_def HttpMethod_ts_def ApiLevel_ts_def)
  show ?thesis
    by (intro conjI g a;
        simp add: body_of_def query_of_def service_builders fe_UserLogin_def UserRegister_def UserModifyPassword_def GetAllCategoriesByServiceId_def
          GetAllApisByServiceId_def AddCategoryByServiceId_def DeleteCategoryById_def UpdateCategoryById_def UpdateApiCategoryById_def
          DeleteApiByApiDraftId_def CopyApiByApiDraftId_def draft_body_def;
        rule conformsI; simp add: ts t del: conforms.simps(5))
qed

section \<open>A server\<close>

definition demo_http :: server_env where
  "demo_http = demo_server\<lparr>jwt_decode := (\<lambda>now t. if t = ''t'' then Some 1 else None)\<rparr>"

definition demo_platform :: row_texts where
  "demo_platform = \<lparr>stamp = (\<lambda>k i. ''2025-01-01''), iso = (\<lambda>t. ''2025-01-02''), users_in_order = (\<lambda>us. us), float_of = (\<lambda>s. None)\<rparr>"

lemma demo_http_order: "any_order demo_http"
  by (simp add: any_order_def demo_http_def demo_server_def)

lemma demo_signed_in: "signed_in demo_http ''t'' 1 demo_run"
proof -
  have "user_of demo_run 1 \<noteq> None" by code_simp
  then show ?thesis by (simp add: signed_in_def demo_http_def)
qed

theorem service_requests_served_witness:
  "fetch ''/cam'' demo_platform demo_http ''t'' demo_run (DeleteServiceById 1) = writes bare (serviceDeleteServiceById demo_http 1 1 demo_run)"
  using service_requests_served [OF demo_signed_in, of "''x/y''" "''latest''" "''/cam''" demo_platform] by simp

theorem user_requests_served_witness:
  "fetch ''/cam'' demo_platform demo_http ''t'' demo_run fe_GetMyInfo = reads demo_run (one ''user'' (user_json demo_platform)) (userGetUserById 1 demo_run)"
  using user_requests_served [OF demo_signed_in, of "''ann''" "''/cam''" demo_platform] by simp

theorem api_requests_served_witness:
  "fetch ''/cam'' demo_platform demo_http ''t'' demo_run (UpdateApiByApiDraftId 1 demo_submission) = writes bare (updateApiByApiDraftId 1 1 demo_submission demo_run)"
  using api_requests_served [OF demo_signed_in, of "''/cam''" demo_platform] by blast

end
