(* ===== verification/Be_Http.thy ===== *)
theory Be_Http
  imports Be_Agree
begin

text \<open>
  Every request over HTTP is an event of a run (\<open>Be_Run\<close>), so what holds in all runs holds of the server; without a valid
  token only an account can be registered.
\<close>

section \<open>What holds of all routes\<close>

text \<open>
  The routes are built from the same functions that read a request.  A property of answers that errors have holds of a
  route when it holds of what the route does after reading.
\<close>

locale route_property =
  fixes Q :: "http_answer \<times> 'd \<Rightarrow> bool" and db :: 'd
  assumes error: "Q (HttpError n s, db)" and unmodelled: "Q (Unmodelled, db)"
begin

lemma raised: "Q (raised, db)"
  by (simp add: raised_def error)

lemma required: "(\<And>s. Q (f s)) \<Longrightarrow> Q (required db req k msg f)"
  by (simp add: required_def error split: option.split)

lemma int_text: "(\<And>i. Q (f i)) \<Longrightarrow> Q (int_text db s f)"
  by (simp add: int_text_def raised split: option.split)

lemma body_member: "(\<And>v. Q (f v)) \<Longrightarrow> Q (body_member db req k f)"
  by (simp add: body_member_def raised split: option.split jval.split)

lemma text_member: "(\<And>s. Q (f s)) \<Longrightarrow> Q (text_member db req k f)"
  unfolding text_member_def by (rule body_member) (simp add: unmodelled split: jval.split)

lemma opt_text_member: "(\<And>s. Q (f s)) \<Longrightarrow> Q (opt_text_member db req k f)"
  unfolding opt_text_member_def by (rule body_member) (simp add: unmodelled split: jval.split)

lemma num_member: "(\<And>i. Q (f i)) \<Longrightarrow> Q (num_member db req k f)"
  unfolding num_member_def by (rule body_member) (simp add: unmodelled split: jval.split)

lemma int_member: "(\<And>i. Q (f i)) \<Longrightarrow> Q (int_member db req k f)"
  unfolding int_member_def by (rule body_member) (simp add: unmodelled raised int_text split: jval.split)

lemma page_param: "(\<And>i. Q (f i)) \<Longrightarrow> Q (page_param db req k d f)"
  by (simp add: page_param_def int_text split: option.split)

lemma paging: "(\<And>n p. Q (f n p)) \<Longrightarrow> Q (paging db req f)"
  by (simp add: paging_def page_param)

lemma uuid_version: "(\<And>u v. Q (f u v)) \<Longrightarrow> Q (uuid_version db req f)"
  by (simp add: uuid_version_def required)

lemma draft_member: "(\<And>i d. Q (f i d)) \<Longrightarrow> Q (draft_member db req f)"
  by (simp add: draft_member_def int_member)

lemma category_member: "(\<And>c. Q (f c)) \<Longrightarrow> Q (category_member db req f)"
  by (simp add: category_member_def raised unmodelled split: option.split jval.split)

lemma params_member: "(\<And>ps. Q (f ps)) \<Longrightarrow> Q (params_member db kind req k f)"
  unfolding params_member_def by (rule body_member) (simp add: unmodelled split: jval.split option.split)

lemmas rules = required int_text text_member opt_text_member num_member int_member paging uuid_version draft_member category_member params_member

end

section \<open>Requests and events\<close>

text \<open>The database is left alone, or changed as by an event; without a token the event is a registration.\<close>

definition acts :: "server_env \<Rightarrow> bool \<Rightarrow> int \<Rightarrow> database \<Rightarrow> http_answer \<times> database \<Rightarrow> bool" where
  "acts D token uid db x \<longleftrightarrow> snd x = db \<or> (\<exists>e. snd x = handle D uid e db \<and> (token \<or> (\<exists>n p nn em r. e = Register n p nn em r)))"

interpretation acting: route_property "acts D token uid db" db for D token uid db
  by unfold_locales (simp_all add: acts_def)

lemma acts_reads: "acts D token uid db (reads db f r)"
  by (simp add: acts_def reads_def)

lemma acts_writes:
  "snd x = handle D uid e db \<Longrightarrow> token \<or> (\<exists>n p nn em r. e = Register n p nn em r) \<Longrightarrow> acts D token uid db (writes f x)"
  by (auto simp: acts_def writes_def)

lemma acts_event: "snd x = handle D uid e db \<Longrightarrow> acts D True uid db (a, snd x)"
  by (auto simp: acts_def)

lemmas acting_rules = acting.rules acting.error acting.unmodelled acting.raised acts_reads

definition route_acts :: "route \<Rightarrow> bool" where
  "route_acts r \<longleftrightarrow> (case r of (p, m, token, h, ty) \<Rightarrow> \<forall>T D uid req db. acts D token uid db (h T D uid req db))"

lemma register_acts: "acts D token uid db (route_register T D uid req db)"
  unfolding route_register_def by (intro acting_rules acts_writes [where e = "Register _ _ _ _ _"]) auto

lemma user_routes_act: "list_all route_acts userRouterV1"
proof -
  have "acts D True uid db (route_modifyPassword T D uid req db)" for T D uid req db
    unfolding route_modifyPassword_def by (intro acting_rules acts_writes [where e = "ModifyPassword _ _"]) auto
  then show ?thesis
    by (simp add: userRouterV1_def route_acts_def register_acts) (simp add: user_handlers acting_rules)
qed

lemma service_writes_act:
  "acts D True uid db (route_addOrRemoveServiceMaintainerById T D uid req db)"
  "acts D True uid db (route_deleteServiceById T D uid req db)"
  "acts D True uid db (route_restoreServiceById T D uid req db)"
  "acts D True uid db (route_deleteIterationById T D uid req db)"
  "acts D True uid db (route_startIteration T D uid req db)"
  "acts D True uid db (route_commitIteration T D uid req db)"
  "acts D True uid db (route_updateDescription T D uid req db)"
proof -
  show "acts D True uid db (route_addOrRemoveServiceMaintainerById T D uid req db)"
    unfolding route_addOrRemoveServiceMaintainerById_def by (intro acting_rules acts_writes [where e = "ToggleMaintainer _ _"]) auto
  show "acts D True uid db (route_deleteServiceById T D uid req db)"
    unfolding route_deleteServiceById_def by (intro acting_rules acts_writes [where e = "Be_Run.DeleteService _"]) auto
  show "acts D True uid db (route_restoreServiceById T D uid req db)"
    unfolding route_restoreServiceById_def by (intro acting_rules acts_writes [where e = "Be_Run.RestoreService _"]) auto
  show "acts D True uid db (route_deleteIterationById T D uid req db)"
    unfolding route_deleteIterationById_def by (intro acting_rules acts_writes [where e = "Be_Run.DeleteIteration _"]) auto
  show "acts D True uid db (route_startIteration T D uid req db)"
    unfolding route_startIteration_def by (intro acting_rules acts_writes [where e = "Be_Run.StartIteration _"]) auto
  show "acts D True uid db (route_commitIteration T D uid req db)"
    unfolding route_commitIteration_def by (intro acting_rules acts_writes [where e = "Be_Run.CommitIteration _ _"]) auto
  show "acts D True uid db (route_updateDescription T D uid req db)"
    unfolding route_updateDescription_def by (intro acting_rules acts_writes [where e = "Be_Run.UpdateDescription _ _"]) auto
qed

lemma api_writes_act:
  "acts D True uid db (route_addCategoryByServiceId T D uid req db)"
  "acts D True uid db (route_deleteCategoryById T D uid req db)"
  "acts D True uid db (route_updateCategoryById T D uid req db)"
  "acts D True uid db (route_updateApiCategoryById T D uid req db)"
  "acts D True uid db (route_addApi T D uid req db)"
  "acts D True uid db (route_copyApiByApiDraftId T D uid req db)"
  "acts D True uid db (route_deleteApiByApiDraftId T D uid req db)"
proof -
  show "acts D True uid db (route_addCategoryByServiceId T D uid req db)"
    unfolding route_addCategoryByServiceId_def by (intro acting_rules acts_writes [where e = "AddCategory _ _ _"]) auto
  show "acts D True uid db (route_deleteCategoryById T D uid req db)"
    unfolding route_deleteCategoryById_def by (intro acting_rules acts_writes [where e = "DeleteCategory _"]) auto
  show "acts D True uid db (route_updateCategoryById T D uid req db)"
    unfolding route_updateCategoryById_def by (intro acting_rules acts_writes [where e = "UpdateCategory _ _ _"]) auto
  show "acts D True uid db (route_updateApiCategoryById T D uid req db)"
    unfolding route_updateApiCategoryById_def by (intro acting_rules acts_writes [where e = "UpdateApiCategory _ _"]) auto
  show "acts D True uid db (route_addApi T D uid req db)"
    unfolding route_addApi_def by (intro acting_rules acts_writes [where e = "Be_Run.AddApi _ _ _ _ _ _ _"]) auto
  show "acts D True uid db (route_copyApiByApiDraftId T D uid req db)"
    unfolding route_copyApiByApiDraftId_def by (intro acting_rules acts_writes [where e = "CopyApi _ _"]) auto
  show "acts D True uid db (route_deleteApiByApiDraftId T D uid req db)"
    unfolding route_deleteApiByApiDraftId_def by (intro acting_rules acts_writes [where e = "DeleteApi _ _"]) auto
qed

lemma create_acts: "acts D True uid db (route_createNewService T D uid req db)"
  unfolding route_createNewService_def
proof (intro acting_rules, unfold case_prod_unfold Let_def)
  show "acts D True uid db (answer (one ''service'' (service_detail T (snd (serviceCreateNewService u uid d db)))) (fst (serviceCreateNewService u uid d db)),
      snd (serviceCreateNewService u uid d db))" for u d
    by (rule acts_event [where e = "CreateService u d"]) simp
qed

lemma update_acts: "acts D True uid db (route_updateApiByApiDraftId T D uid req db)"
  unfolding route_updateApiByApiDraftId_def
proof (intro acting_rules)
  fix i d n m p de l rq rs
  obtain r db' where h: "apiUpdateApiByApiDraftId i d uid n m p de l rq rs db = (r, db')" by (metis surj_pair)
  then have "db' = handle D uid (UpdateApi i d n m p de l rq rs) db" by simp
  then show "acts D True uid db (case apiUpdateApiByApiDraftId i d uid n m p de l rq rs db of
         (r, db') \<Rightarrow> if (case r of Reply st _ _ \<Rightarrow> st = 200 | _ \<Rightarrow> False) \<and> list_ex null_code rs then (raised, db) else (answer bare r, db'))"
    unfolding h by (auto simp: acts_def simp del: handle.simps)
qed

lemma routes_act: "list_all route_acts routes"
proof -
  have own: "acts D True uid db (route_getHisNewestServicesByOwnerId T D uid req db)" for T D uid req db
    unfolding route_getHisNewestServicesByOwnerId_def Let_def by (auto intro!: acting_rules)
  have "list_all route_acts serviceRouterV1"
    by (simp add: serviceRouterV1_def route_acts_def service_writes_act create_acts own) (simp add: service_handlers acting_rules)
  moreover have "list_all route_acts apiRouterV1"
    by (simp add: apiRouterV1_def route_acts_def api_writes_act update_acts) (simp add: api_handlers acting_rules Let_def)
  ultimately show ?thesis using user_routes_act by (simp add: routes_def)
qed

text \<open>
  Whatever a client sends, the database is left alone, or an account is registered, or it is changed as by an event of
  the user whose valid token came with the request.
\<close>

theorem requests_are_events:
  "snd (serve base T D req db) = db \<or>
   (\<exists>n p nn em r. snd (serve base T D req db) = handle D 0 (Register n p nn em r) db) \<or>
   (\<exists>uid e. jwt_decode D (clock D) (or_str (bearer_token req) []) = Some uid \<and> user_of db uid \<noteq> None \<and>
      snd (serve base T D req db) = handle D uid e db)"
proof (cases "Option.bind (request_path base req) (\<lambda>p. find_route p (hr_method req))")
  case None
  then show ?thesis by (simp add: serve_def)
next
  case (Some r)
  then obtain p m token h ty where r: "r = (p, m, token, h, ty)" "(p, m, token, h, ty) \<in> set routes"
    by (metis (no_types, lifting) bind_eq_Some_conv find_Some_iff find_route_def nth_mem prod_cases5)
  have act: "acts D token uid db (h T D uid req db)" for uid
    using routes_act r(2) by (auto simp: list_all_iff route_acts_def)
  show ?thesis
  proof (cases token)
    case False
    then show ?thesis using act [of 0] Some r(1) by (simp add: serve_def acts_def del: handle.simps) blast
  next
    case True
    show ?thesis
    proof (cases "authenticate D p (bearer_token req) db")
      case (Identity u)
      then obtain i where i: "jwt_decode D (clock D) (or_str (bearer_token req) []) = Some i" "user_of db i = Some u"
        by (auto simp: authenticate_def userGetUserById_def or_str_def split: option.splits be_reply.splits if_splits)
      have u: "usr_id u = i" using i(2) by (auto simp: get_row_def find_Some_iff)
      have "serve base T D req db = h T D i req db" using Identity Some r(1) True u by (simp add: serve_def)
      then show ?thesis using act [of i] i True by (simp add: acts_def del: handle.simps) blast
    qed (use Some r(1) True in \<open>simp_all add: serve_def\<close>)
  qed
qed

text \<open>So a server that only handles requests stays in a run.\<close>

lemma http_stays_served: "served db \<Longrightarrow> any_order D \<Longrightarrow> served (snd (serve base T D req db))"
  using requests_are_events [of base T D req db] served.request [of db D] by metis

end
