(* ===== verification/Be_Typed.thy ===== *)
theory Be_Typed
  imports Be_Http
begin

text \<open>
  The answers of the back end have the types the front end declares for them (\<open>services/*/types.ts\<close>).  The rows they are
  made of have the declared values in every run: types and locations of parameters are members of their enumerations,
  users have a nickname and an address, and a deleted service has the time of its deletion.
\<close>

section \<open>Rows with declared values\<close>

definition declared_types :: "be_row \<Rightarrow> bool" where
  "declared_types r \<longleftrightarrow> pr_type r \<in> set ParamTypes \<and> (\<forall>t. pr_act r = Some t \<longrightarrow> t \<in> set ParamTypes)"

definition row_typed :: "param_kind \<Rightarrow> be_row \<Rightarrow> bool" where
  "row_typed kind r \<longleftrightarrow> declared_types r \<and>
     (case kind of
        RequestKind \<Rightarrow> pr_status r = None \<and> (\<exists>l\<in>set ParamLocations. pr_location r = Some l)
      | ResponseKind \<Rightarrow> pr_location r = None \<and> pr_default r = None \<and> pr_status r \<noteq> None)"

definition rows_typed :: "param_kind \<Rightarrow> be_row table \<Rightarrow> bool" where
  "rows_typed kind t \<longleftrightarrow> (\<forall>r\<in>set (tb_rows t). row_typed kind r)"

definition side_typed :: "side \<Rightarrow> bool" where
  "side_typed sd \<longleftrightarrow> rows_typed RequestKind (sd_req sd) \<and> rows_typed ResponseKind (sd_resp sd)"

definition user_typed :: "user_row \<Rightarrow> bool" where
  "user_typed u \<longleftrightarrow> usr_nickname u \<noteq> None \<and> usr_email u \<noteq> None"

definition service_typed :: "service_row \<Rightarrow> bool" where
  "service_typed s \<longleftrightarrow> (srv_is_deleted s \<longrightarrow> srv_deleted_at s \<noteq> None)"

definition db_typed :: "database \<Rightarrow> bool" where
  "db_typed db \<longleftrightarrow> (\<forall>u\<in>set (tb_rows (db_users db)). user_typed u) \<and> (\<forall>s\<in>set (tb_rows (db_services db)). service_typed s) \<and>
     side_typed (db_published db) \<and> side_typed (db_drafts db)"

text \<open>Storing and copying parameters keeps their types.\<close>

lemma row_typed_moved [simp]:
  "row_typed kind (r\<lparr>pr_id := i\<rparr>) = row_typed kind r" "row_typed kind (r\<lparr>pr_api := a\<rparr>) = row_typed kind r"
  "row_typed kind (r\<lparr>pr_parent := p\<rparr>) = row_typed kind r"
  by (simp_all add: row_typed_def declared_types_def split: param_kind.split)

lemma rows_typed_insert: "rows_typed kind t \<Longrightarrow> row_typed kind (f (tb_seq t)) \<Longrightarrow> rows_typed kind (snd (insert_row f t))"
  by (auto simp: rows_typed_def insert_row_def)

lemma rows_typed_delete: "rows_typed kind t \<Longrightarrow> rows_typed kind (delete_rows P t)"
  by (auto simp: rows_typed_def delete_rows_def)

lemma enums_declared:
  "type_enum t \<in> set ParamTypes" "location_enum l \<in> set ParamLocations" "child_type_enum a = Some t' \<Longrightarrow> t' \<in> set ParamTypes"
proof -
  have "''string'' \<in> set ParamTypes" "''body'' \<in> set ParamLocations" by (simp_all add: ParamTypes_def ParamLocations_def)
  then show "type_enum t \<in> set ParamTypes" "location_enum l \<in> set ParamLocations" by (simp_all add: type_enum_def location_enum_def)
  show "child_type_enum a = Some t' \<Longrightarrow> t' \<in> set ParamTypes" by (simp add: child_type_enum_def split: option.splits if_splits)
qed

lemma stored_typed: "row_typed kind (param_record kind api parent ploc p i)"
  using enums_declared by (cases kind) (simp_all add: row_typed_def declared_types_def param_record_def)

lemma process_typed: "rows_typed kind t \<Longrightarrow> rows_typed kind (process_params kind api parent ploc ps t)"
proof (induction kind api parent ploc ps t rule: process_params.induct)
  case (2 kind api parent ploc nm ty loc st rq df de ex act ch ps t)
  let ?p = "BeParam nm ty loc st rq df de ex act ch"
  obtain i t1 where i: "insert_row (param_record kind api parent ploc ?p) t = (i, t1)" by (metis surj_pair)
  let ?t2 = "case ch of None \<Rightarrow> t1 | Some cs \<Rightarrow> if nested ty act then process_params kind api (Some i) (Some (param_location ploc loc)) cs t1 else t1"
  have t1: "rows_typed kind t1" using rows_typed_insert [of kind t "param_record kind api parent ploc ?p", OF "2.prems" stored_typed] unfolding i by simp
  have "rows_typed kind ?t2" using t1 "2.IH"(1) [OF refl i [symmetric] refl] by (simp split: option.split)
  then have "rows_typed kind (process_params kind api parent ploc ps ?t2)" by (rule "2.IH"(2) [OF refl i [symmetric] refl refl])
  then show ?case using i by (simp add: Let_def)
qed simp

lemma copy_rows_typed: "copy_rows api rs m t = (m', t') \<Longrightarrow> rows_typed kind t \<Longrightarrow> \<forall>r\<in>set rs. row_typed kind r \<Longrightarrow> rows_typed kind t'"
proof (induction rs arbitrary: m t)
  case (Cons r rs)
  have "rows_typed kind (snd (insert_row (\<lambda>i. r\<lparr>pr_id := i, pr_api := api, pr_parent := None\<rparr>) t))"
    by (rule rows_typed_insert) (use Cons.prems in simp_all)
  then show ?case using Cons by (auto simp: case_prod_unfold)
qed simp

lemma link_rows_typed: "link_rows rs m t = Some t' \<Longrightarrow> rows_typed kind t \<Longrightarrow> rows_typed kind t'"
proof (induction rs arbitrary: t)
  case (Cons r rs)
  have "rows_typed kind (update_row pr_id i (\<lambda>x. x\<lparr>pr_parent := Some p\<rparr>) t)" for i p
    using Cons.prems(2) unfolding rows_typed_def by (intro update_row_ball) simp_all
  then show ?case using Cons by (auto split: option.splits)
qed simp

lemma copy_params_typed:
  "copy_params api rs t = Some t' \<Longrightarrow> rows_typed kind t \<Longrightarrow> \<forall>r\<in>set rs. row_typed kind r \<Longrightarrow> rows_typed kind t'"
  using copy_rows_typed link_rows_typed by (fastforce simp: copy_params_def split: prod.splits)

lemma copy_recursively_typed:
  "rows_typed kind t \<Longrightarrow> \<forall>r\<in>set (rows_of_forest ts). row_typed kind r \<Longrightarrow> rows_typed kind (copy_params_recursively api q ts t)"
proof (induction api q ts t rule: copy_params_recursively.induct)
  case (2 api q r cs ts t)
  obtain i t1 where i: "insert_row (\<lambda>i. r\<lparr>pr_id := i, pr_api := api, pr_parent := q\<rparr>) t = (i, t1)" by (metis surj_pair)
  have "rows_typed kind (snd (insert_row (\<lambda>i. r\<lparr>pr_id := i, pr_api := api, pr_parent := q\<rparr>) t))"
    by (rule rows_typed_insert) (use 2 in simp_all)
  then have "rows_typed kind t1" by (simp add: i)
  then have "rows_typed kind (copy_params_recursively api (Some i) cs t1)" by (rule "2.IH"(1) [OF i [symmetric]]) (use 2 in simp)
  then have "rows_typed kind (copy_params_recursively api q ts (copy_params_recursively api (Some i) cs t1))"
    by (rule "2.IH"(2) [OF i [symmetric]]) (use 2 in simp)
  then show ?case using i by simp
qed simp

lemma subtree_rows: "p \<in> set rows \<Longrightarrow> set (rows_of_forest [subtree n rows p]) \<subseteq> set rows"
proof (induction n arbitrary: p)
  case (Suc n)
  have f: "set (rows_of_forest ts) = (\<Union>t\<in>set ts. set (rows_of_forest [t]))" for ts
  proof (induction ts)
    case (Cons t ts)
    then show ?case by (cases t) auto
  qed simp
  have "set (rows_of_forest (map (subtree n rows) (children_of rows p))) \<subseteq> set rows"
    unfolding f [of "map (subtree n rows) (children_of rows p)"] using Suc.IH by (auto simp: children_of_def)
  then show ?case using Suc.prems by simp
qed simp

section \<open>Changes keep the types\<close>

lemma side_typed_api [simp]: "side_typed (sd\<lparr>sd_api := t\<rparr>) = side_typed sd"
  by (simp add: side_typed_def)

lemma insert_api_typed: "insert_api f sd = Some (n, sd') \<Longrightarrow> side_typed sd \<Longrightarrow> side_typed sd'"
  by (auto simp: insert_api_def split: prod.splits if_splits)

lemma ordered_typed: "any_order D \<Longrightarrow> rows_typed kind t \<Longrightarrow> \<forall>r\<in>set (params_in_order D (rows_for a t)). row_typed kind r"
proof -
  assume o: "any_order D" and t: "rows_typed kind t"
  have "set (params_in_order D (rows_for a t)) = set (rows_for a t)" using any_orderD(1) [OF o] mset_eq_setD by blast
  then show ?thesis using t by (auto simp: rows_typed_def rows_for_def)
qed

lemma copy_api_typed:
  assumes "copy_api D src p a sd = Some sd'" "any_order D" "side_typed src" "side_typed sd"
  shows "side_typed sd'"
proof -
  obtain i sd1 rq rs where s: "insert_api (\<lambda>i. a\<lparr>apr_id := i, apr_parent := p\<rparr>) sd = Some (i, sd1)"
    "copy_params i (params_in_order D (rows_for (apr_id a) (sd_req src))) (sd_req sd1) = Some rq"
    "copy_params i (params_in_order D (rows_for (apr_id a) (sd_resp src))) (sd_resp sd1) = Some rs"
    "sd' = sd1\<lparr>sd_req := rq, sd_resp := rs\<rparr>"
    using assms(1) by (auto simp: copy_api_def split: option.splits prod.splits)
  have sd1: "side_typed sd1" by (rule insert_api_typed [OF s(1) assms(4)])
  then have "rows_typed RequestKind rq" "rows_typed ResponseKind rs"
    using copy_params_typed [OF s(2)] copy_params_typed [OF s(3)] ordered_typed [OF assms(2)] assms(3) by (auto simp: side_typed_def)
  then show ?thesis by (simp add: s(4) side_typed_def)
qed

lemma copy_apis_typed:
  "copy_apis D src p as sd = Some sd' \<Longrightarrow> any_order D \<Longrightarrow> side_typed src \<Longrightarrow> side_typed sd \<Longrightarrow> side_typed sd'"
  by (induction as arbitrary: sd) (auto split: option.splits dest: copy_api_typed)

lemma removed_typed:
  "side_typed sd \<Longrightarrow> side_typed (delete_apis p sd)" "side_typed sd \<Longrightarrow> side_typed (delete_api i sd)" "side_typed (set_category P c sd) = side_typed sd"
  by (simp_all add: side_typed_def delete_apis_def delete_api_def clear_params_def set_category_def Let_def rows_typed_delete)

lemma rewrite_typed: "rewrite_api i f rq rs sd = Some sd' \<Longrightarrow> side_typed sd \<Longrightarrow> side_typed sd'"
  by (auto simp: rewrite_api_def side_typed_def clear_params_def Let_def intro!: process_typed rows_typed_delete split: if_splits)

lemma objects_typed:
  assumes "any_order D" "rows_typed kind t"
  shows "\<forall>r\<in>set (rows_of_forest (param_objects D a t)). row_typed kind r"
proof -
  let ?rows = "params_in_order D (tb_rows t)"
  have s: "set ?rows = set (tb_rows t)" using any_orderD(1) [OF assms(1)] mset_eq_setD by blast
  have f: "set (rows_of_forest ts) = (\<Union>x\<in>set ts. set (rows_of_forest [x]))" for ts
  proof (induction ts)
    case (Cons t ts)
    then show ?case by (cases t) auto
  qed simp
  have "set (rows_of_forest [subtree n ?rows p]) \<subseteq> set (tb_rows t)" if "p \<in> set (params_in_order D (rows_for a t))" for n p
  proof -
    have "set (params_in_order D (rows_for a t)) = set (rows_for a t)" using any_orderD(1) [OF assms(1)] mset_eq_setD by blast
    then have "p \<in> set ?rows" using that s by (auto simp: rows_for_def)
    then show ?thesis using subtree_rows s by blast
  qed
  then have "set (rows_of_forest (param_objects D a t)) \<subseteq> set (tb_rows t)"
    unfolding f [of "param_objects D a t"] by (auto simp: param_objects_def Let_def)
  then show ?thesis using assms(2) by (auto simp: rows_typed_def)
qed

lemma db_typedD:
  assumes "db_typed db"
  shows "\<forall>u\<in>set (tb_rows (db_users db)). user_typed u" "\<forall>s\<in>set (tb_rows (db_services db)). service_typed s"
    "side_typed (db_published db)" "side_typed (db_drafts db)"
  using assms by (simp_all add: db_typed_def)

lemma register_rows: "userRegister D n p nn em r db = (rep, db') \<Longrightarrow> db_typed db \<Longrightarrow> db_typed db'"
  by (auto simp: userRegister_def db_typed_def insert_row_def user_typed_def split: if_splits)

lemma rows_updated:
  assumes "db_typed db"
  shows "(\<And>s. service_typed s \<Longrightarrow> service_typed (f s)) \<Longrightarrow> db_typed (db\<lparr>db_services := update_row srv_id i f (db_services db)\<rparr>)"
    and "(\<And>u. user_typed u \<Longrightarrow> user_typed (g u)) \<Longrightarrow> db_typed (db\<lparr>db_users := update_row usr_id i g (db_users db)\<rparr>)"
proof -
  assume "\<And>s. service_typed s \<Longrightarrow> service_typed (f s)"
  then have "\<forall>s\<in>set (tb_rows (update_row srv_id i f (db_services db))). service_typed s"
    by (rule update_row_ball) (use db_typedD(2) [OF assms] in blast)+
  then show "db_typed (db\<lparr>db_services := update_row srv_id i f (db_services db)\<rparr>)" using db_typedD [OF assms] by (simp add: db_typed_def)
next
  assume "\<And>u. user_typed u \<Longrightarrow> user_typed (g u)"
  then have "\<forall>u\<in>set (tb_rows (update_row usr_id i g (db_users db))). user_typed u"
    by (rule update_row_ball) (use db_typedD(1) [OF assms] in blast)+
  then show "db_typed (db\<lparr>db_users := update_row usr_id i g (db_users db)\<rparr>)" using db_typedD [OF assms] by (simp add: db_typed_def)
qed

lemma password_typed:
  assumes "userModifyPassword D i old new db = (rep, db')" "db_typed db"
  shows "db_typed db'"
proof -
  have "db_typed (db\<lparr>db_users := update_row usr_id i (\<lambda>u. u\<lparr>usr_password := hashpw D new\<rparr>) (db_users db)\<rparr>)"
    by (rule rows_updated(2) [OF assms(2)]) (simp add: user_typed_def)
  then show ?thesis using assms by (auto simp: userModifyPassword_def split: option.splits if_splits)
qed

lemma effect_typed:
  assumes "effect D uid db db'" "any_order D" "db_typed db"
  shows "db_typed db'"
  using assms(1)
proof (cases rule: effect.cases)
  case registered
  then show ?thesis using register_rows assms(3) by blast
next
  case password_changed
  then show ?thesis using password_typed assms(3) by blast
next
  case created
  then show ?thesis using assms(3) by (simp add: db_typed_def insert_row_def service_typed_def)
next
  case (marked i s b t)
  show ?thesis unfolding marked(1) by (rule rows_updated(1) [OF assms(3)]) (use marked(4) in \<open>simp add: service_typed_def\<close>)
next
  case (toggled i s c ms)
  show ?thesis unfolding toggled(1) by (rule rows_updated(1) [OF assms(3)]) (simp add: service_typed_def)
next
  case (started i s dr)
  then show ?thesis using copy_apis_typed [OF started(5) assms(2)] db_typedD [OF assms(3)] by (simp add: db_typed_def)
next
  case (committed i it s pb v)
  have "side_typed pb" by (rule copy_apis_typed [OF committed(6) assms(2)]) (use db_typedD [OF assms(3)] removed_typed in auto)
  moreover have "\<forall>s\<in>set (tb_rows (update_row srv_id (srv_id s) (\<lambda>s. s\<lparr>srv_description := itr_description it, srv_version := v\<rparr>) (db_services db))). service_typed s"
    by (rule update_row_ball) (use db_typedD(2) [OF assms(3)] in \<open>simp_all add: service_typed_def\<close>)
  ultimately show ?thesis using db_typedD [OF assms(3)] by (simp add: committed(1) db_typed_def)
next
  case (added i it s f c n dr)
  then show ?thesis using insert_api_typed assms(3) by (auto simp: db_typed_def)
next
  case (copied i it s d a n dr)
  have dr: "side_typed dr" using insert_api_typed copied db_typedD(4) [OF assms(3)] by blast
  then have "rows_typed RequestKind (sd_req dr)" "rows_typed ResponseKind (sd_resp dr)" by (simp_all add: side_typed_def)
  then have "side_typed (dr\<lparr>sd_req := copy_params_recursively n None (param_objects D d (sd_req dr)) (sd_req dr),
      sd_resp := copy_params_recursively n None (param_objects D d (sd_resp dr)) (sd_resp dr)\<rparr>)"
    using objects_typed [OF assms(2)] by (simp add: side_typed_def copy_recursively_typed)
  then show ?thesis using db_typedD [OF assms(3)] by (simp add: copied(1) db_typed_def)
next
  case rewritten
  then show ?thesis using rewrite_typed assms(3) by (auto simp: db_typed_def)
qed (use assms(3) removed_typed in \<open>simp_all add: db_typed_def\<close>)

lemma run_typed: "served db \<Longrightarrow> db_typed db"
proof (induction rule: served.induct)
  case empty
  then show ?case by (simp add: db_typed_def empty_database_def empty_side_def empty_table_def side_typed_def rows_typed_def)
next
  case (request db D uid e)
  then show ?case using handle_effect [of D uid e db] effect_typed by metis
next
  case (level db i l)
  show ?case unfolding set_level_def by (rule rows_updated(2) [OF level.IH]) (simp add: user_typed_def)
qed

end
