(* ===== verification/Be_Answers.thy ===== *)
theory Be_Answers
  imports Be_Typed
begin

text \<open>
  An answer with status 200 has the type that the front end declares for it, for every route and in every run; where the
  declaration and the server differ, \<open>answer_type\<close> is the type the answers do have.
\<close>

section \<open>Rows\<close>

lemma null_text: "conforms TString (null_or JStr x) \<or> null_or JStr x = JNull" "conforms TNumber (null_or JInt y) \<or> null_or JInt y = JNull"
  by (cases x; simp) (cases y; simp)

lemma user_conforms: "user_typed u \<Longrightarrow> conforms (TInterface UserProfile_ts) (user_json T u)"
  unfolding user_json_def by (rule conformsI) (auto simp: user_typed_def UserProfile_ts_def)

definition known_user :: "database \<Rightarrow> int \<Rightarrow> bool" where
  "known_user db i \<longleftrightarrow> (\<exists>u. user_of db i = Some u \<and> user_typed u)"

lemma user_of_conforms: "known_user db i \<Longrightarrow> conforms (TInterface UserProfile_ts) (user_of_json T db i)"
  using user_conforms by (auto simp: user_of_json_def known_user_def)

lemma known_users: "db_typed db \<Longrightarrow> i \<in> user_ids db \<Longrightarrow> known_user db i"
proof -
  assume t: "db_typed db" and "i \<in> user_ids db"
  then obtain u where u: "user_of db i = Some u" using user_of_ids by blast
  then have "u \<in> set (tb_rows (db_users db))" by (auto simp: get_row_def find_Some_iff)
  then show ?thesis using u db_typedD(1) [OF t] by (auto simp: known_user_def)
qed

lemma maybe_user: "db_typed db \<Longrightarrow> user_of_json T db i = JNull \<or> conforms (TInterface UserProfile_ts) (user_of_json T db i)"
proof (cases "user_of db i")
  case (Some u)
  assume "db_typed db"
  moreover have "u \<in> set (tb_rows (db_users db))" using Some by (auto simp: get_row_def find_Some_iff)
  ultimately have "known_user db i" using Some db_typedD(1) by (auto simp: known_user_def)
  then show ?thesis using user_of_conforms by blast
qed (simp add: user_of_json_def)

lemma item_conforms:
  assumes "db_typed db" "include \<in> {item_columns, ''owner'' # item_columns, ''deleted_at'' # item_columns, ''owner'' # ''deleted_at'' # item_columns}"
  shows "conforms (TInterface ServiceItem_ts) (service_item T db include s)"
proof -
  have o: "user_of_json T db (srv_owner_id s) = JNull \<or> conforms (TInterface UserProfile_ts) (user_of_json T db (srv_owner_id s))"
    by (rule maybe_user [OF assms(1)])
  from assms(2) show ?thesis
    unfolding service_item_def
    by (cases "srv_description s"; elim insertE emptyE; intro conformsI; use o in \<open>simp add: service_columns_def ServiceItem_ts_def item_columns_def\<close>; blast?)
qed

lemma deleted_conforms:
  assumes "db_typed db" "service_typed s" "srv_is_deleted s"
  shows "conforms (TInterface DeletedServiceItem_ts) (service_item T db (''deleted_at'' # item_columns) s)"
proof -
  have "conforms (TInterface ServiceItem_ts) (service_item T db (''deleted_at'' # item_columns) s)" by (rule item_conforms [OF assms(1)]) simp
  then show ?thesis
    using assms(2,3) unfolding service_item_def DeletedServiceItem_ts_def
    by (intro conformsI) (auto dest!: conformsD simp: service_columns_def item_columns_def service_typed_def)
qed

lemma category_conforms: "conforms (TInterface ApiCategory_ts) (category_json c)" "conforms (TInterface api_ApiCategory_ts) (category_json c)"
  unfolding category_json_def
  by (cases "ctr_description c"; intro conformsI; simp add: ApiCategory_ts_def api_ApiCategory_ts_def)+

lemma brief_conforms: "conforms (TInterface ApiBrief_ts) (JObj (api_columns T d a))" "conforms (TInterface api_ApiBrief_ts) (JObj (api_columns T d a))"
  using enum_texts(1) [of "apr_method a"] enum_texts(2) [of "apr_level a"]
  by (cases "apr_description a"; cases "apr_category_id a"; intro conformsI;
      simp add: api_columns_def ApiBrief_ts_def api_ApiBrief_ts_def HttpMethod_ts_def ApiLevel_ts_def Let_def)+

lemma iteration_conforms: "conforms (TInterface ServiceIteration_ts) (JObj (iteration_columns T it))"
  by (cases "itr_version it"; cases "itr_description it"; intro conformsI; simp add: iteration_columns_def ServiceIteration_ts_def)

lemma service_columns_conforms: "conforms (TInterface ServiceItem_ts) (JObj (service_columns T s))"
  by (cases "srv_description s"; intro conformsI; simp add: service_columns_def ServiceItem_ts_def)

lemma list_all_map_conforms: "(\<And>x. x \<in> set xs \<Longrightarrow> conforms t (f x)) \<Longrightarrow> list_all (conforms t) (map f xs)"
  by (simp add: list_all_iff)

lemma detail_conforms:
  assumes "db_typed db" "\<forall>i\<in>set (srv_maintainers s). known_user db i"
  shows "conforms (TInterface ServiceDetail_ts) (service_detail T db s)"
proof -
  have o: "user_of_json T db (srv_owner_id s) = JNull \<or> conforms (TInterface UserProfile_ts) (user_of_json T db (srv_owner_id s))"
    by (rule maybe_user [OF assms(1)])
  have l: "null_or (\<lambda>t. JStr (iso T t)) (srv_deleted_at s) = JNull \<or> conforms TString (null_or (\<lambda>t. JStr (iso T t)) (srv_deleted_at s))"
    by (cases "srv_deleted_at s") simp_all
  have a: "list_all (conforms (TInterface UserProfile_ts)) (map (user_of_json T db) (srv_maintainers s))"
    "list_all (conforms (TInterface ServiceIteration_ts)) (map (\<lambda>it. JObj (iteration_columns T it)) (filter (\<lambda>it. itr_service_id it = srv_id s) (tb_rows (db_iterations db))))"
    "list_all (conforms (TInterface ApiCategory_ts)) (map category_json (filter (\<lambda>c. ctr_service_id c = srv_id s) (tb_rows (db_categories db))))"
    "list_all (conforms (TInterface ApiBrief_ts)) (map (\<lambda>a. JObj (api_columns T False a)) (apis_for (srv_id s) (db_published db)))"
    by (rule list_all_map_conforms; use assms(2) user_of_conforms iteration_conforms category_conforms brief_conforms in blast)+
  have "conforms (TInterface ServiceItem_ts) (service_detail T db s)"
    unfolding service_detail_def
    by (cases "srv_description s"; intro conformsI; use o in \<open>simp add: service_columns_def ServiceItem_ts_def\<close>; blast?)
  then have i: "list_all (has_member conforms (service_columns T s @
     [(''owner'', user_of_json T db (srv_owner_id s)), (''maintainers'', JArr (map (user_of_json T db) (srv_maintainers s))),
      (''iterations'', JArr (map (\<lambda>it. JObj (iteration_columns T it)) (filter (\<lambda>it. itr_service_id it = srv_id s) (tb_rows (db_iterations db))))),
      (''api_categories'', JArr (map category_json (filter (\<lambda>c. ctr_service_id c = srv_id s) (tb_rows (db_categories db))))),
      (''apis'', JArr (map (\<lambda>a. JObj (api_columns T False a)) (apis_for (srv_id s) (db_published db))))])) ServiceItem_ts"
    unfolding service_detail_def by (rule conformsD)
  show ?thesis
    unfolding service_detail_def ServiceDetail_ts_def
    by (intro conformsI; simp only: list_all_append i simp_thms; cases "srv_deleted_at s"; use o a in \<open>simp add: service_columns_def\<close>; blast?)
qed

lemma iteration_detail_conforms:
  assumes "known_user db (itr_creator_id it)"
  shows "conforms (TInterface ServiceIterationDetail_ts) (iteration_detail T db it)"
proof -
  have c: "conforms (TInterface UserProfile_ts) (user_of_json T db (itr_creator_id it))" by (rule user_of_conforms [OF assms])
  have s: "null_or (\<lambda>s. JObj (service_columns T s)) x = JNull \<or> conforms (TInterface ServiceItem_ts) (null_or (\<lambda>s. JObj (service_columns T s)) x)" for x
    using service_columns_conforms by (cases x) auto
  have a: "list_all (conforms (TInterface ApiBrief_ts)) (map (\<lambda>a. JObj (api_columns T True a)) (apis_for (itr_id it) (db_drafts db)))"
    by (rule list_all_map_conforms) (rule brief_conforms)
  show ?thesis
    unfolding iteration_detail_def
    by (cases "itr_version it"; cases "itr_description it"; intro conformsI;
        use c s [of "service_of db (itr_service_id it)"] a in \<open>simp add: iteration_columns_def ServiceIterationDetail_ts_def ServiceIteration_ts_def\<close>; blast?)
qed

section \<open>Parameters\<close>

lemma null_conforms [simp]:
  "conforms (TNull TString) (null_or JStr x)" "conforms (TNull TNumber) (null_or JInt y)"
  "(\<And>t. x = Some t \<Longrightarrow> t \<in> set ParamTypes) \<Longrightarrow> conforms (TNull ParamType_ts) (null_or JStr x)"
  by (cases x; cases y; simp add: ParamType_ts_def ParamTypes_def)+

lemma type_conforms: "t \<in> set ParamTypes \<Longrightarrow> conforms ParamType_ts (JStr t)" "l \<in> set ParamLocations \<Longrightarrow> conforms ParamLocation_ts (JStr l)"
  by (simp_all add: ParamType_ts_def ParamTypes_def ParamLocation_ts_def ParamLocations_def)

definition param_tree_ts :: "param_kind \<Rightarrow> bool \<Rightarrow> ts_type" where
  "param_tree_ts kind draft =
     (case kind of
        RequestKind \<Rightarrow> if draft then RequestParamDraft_ts else RequestParam_ts
      | ResponseKind \<Rightarrow> if draft then ResponseParamDraft_ts else ResponseParam_ts)"

text \<open>The members of an interface of parameters but for the children.\<close>

fun tree_fields :: "ts_type \<Rightarrow> members" where
  "tree_fields (TTree fs k) = fs"
| "tree_fields t = []"

lemma param_tree: "param_tree_ts kind draft = TTree (tree_fields (param_tree_ts kind draft)) ''children_params''"
  by (cases kind) (simp_all add: param_tree_ts_def RequestParam_ts_def RequestParamDraft_ts_def ResponseParam_ts_def ResponseParamDraft_ts_def)

lemma row_conforms:
  assumes "row_typed kind r"
  shows "list_all (has_member conforms (param_columns T draft r @ rest)) (tree_fields (param_tree_ts kind draft))"
proof -
  have d: "pr_type r \<in> set ParamTypes" "\<And>t. pr_act r = Some t \<Longrightarrow> t \<in> set ParamTypes"
    using assms by (simp_all add: row_typed_def declared_types_def)
  have t: "conforms ParamType_ts (JStr (pr_type r))" by (rule type_conforms(1) [OF d(1)])
  have a: "conforms (TNull ParamType_ts) (null_or JStr (pr_act r))" by (rule null_conforms(3)) (rule d(2))
  show ?thesis
  proof (cases kind)
    case RequestKind
    then obtain l where l: "pr_location r = Some l" "pr_status r = None" "conforms ParamLocation_ts (JStr l)"
      using assms type_conforms by (auto simp: row_typed_def)
    show ?thesis
      by (cases draft; simp add: RequestKind param_tree_ts_def RequestParam_ts_def RequestParamDraft_ts_def param_columns_def l t a del: conforms.simps(5))
  next
    case ResponseKind
    then obtain c where c: "pr_status r = Some c" "pr_location r = None" using assms by (auto simp: row_typed_def)
    show ?thesis
      by (cases draft; simp add: ResponseKind param_tree_ts_def ResponseParam_ts_def ResponseParamDraft_ts_def param_columns_def c t a del: conforms.simps(5))
  qed
qed

lemma tree_conforms:
  assumes "\<forall>r\<in>set rows. row_typed kind r"
  shows "p \<in> set rows \<Longrightarrow> conforms (param_tree_ts kind draft) (ptree_json T draft (subtree n rows p))"
proof (induction n arbitrary: p)
  case 0
  let ?fs = "tree_fields (param_tree_ts kind draft)"
  have "branches ''children_params'' (param_columns T draft p @ []) = Some []"
    by (simp add: branches_def param_columns_def split: option.split)
  then show ?case
    using row_conforms [of kind p T draft "[]"] assms 0 by (subst param_tree) simp
next
  case (Suc n)
  let ?cs = "map (subtree n rows) (children_of rows p)"
  let ?rest = "if ?cs = [] then [] else [(''children_params'', JArr (map (ptree_json T draft) ?cs))]"
  have c: "\<forall>q\<in>set (children_of rows p). conforms (param_tree_ts kind draft) (ptree_json T draft (subtree n rows q))"
    using Suc.IH by (simp add: children_of_def)
  have "branches ''children_params'' (param_columns T draft p @ ?rest) = Some (map (ptree_json T draft) ?cs)"
    by (simp add: branches_def param_columns_def split: option.split)
  moreover have "list_all (conforms (TTree (tree_fields (param_tree_ts kind draft)) ''children_params'')) (map (ptree_json T draft) ?cs)"
    using c unfolding param_tree [symmetric] by (simp add: list_all_iff)
  ultimately show ?case
    using row_conforms [of kind p T draft ?rest] assms Suc.prems by (subst param_tree) simp
qed

lemma roots_conform:
  assumes "\<forall>r\<in>set rows. row_typed kind r"
  shows "list_all (conforms (param_tree_ts kind draft)) (map (ptree_json T draft) (roots_where P rows))"
  using tree_conforms [OF assms] by (simp add: list_all_iff roots_where_def)

lemma params_conform:
  assumes "\<forall>r\<in>set rows. row_typed RequestKind r" "\<forall>r\<in>set rows'. row_typed ResponseKind r"
  shows
    "conforms (TInterface (map (\<lambda>l. (l, False, TArray (param_tree_ts RequestKind draft))) ParamLocations))
       (JObj (map (\<lambda>(l, ts). (l, JArr (map (ptree_json T draft) ts))) (organizeReqParams rows)))"
    "conforms (TRecord (TArray (param_tree_ts ResponseKind draft)))
       (JObj (map (\<lambda>(c, ts). (int_str c, JArr (map (ptree_json T draft) ts))) (organizeRespParams rows')))"
proof -
  show "conforms (TInterface (map (\<lambda>l. (l, False, TArray (param_tree_ts RequestKind draft))) ParamLocations))
       (JObj (map (\<lambda>(l, ts). (l, JArr (map (ptree_json T draft) ts))) (organizeReqParams rows)))"
    by (intro conformsI) (simp add: organizeReqParams_def ParamLocations_def roots_conform [OF assms(1)])
  show "conforms (TRecord (TArray (param_tree_ts ResponseKind draft)))
       (JObj (map (\<lambda>(c, ts). (int_str c, JArr (map (ptree_json T draft) ts))) (organizeRespParams rows')))"
    using roots_conform [OF assms(2)] by (auto simp: organizeRespParams_def list_all_iff comp_def)
qed

lemma api_conforms:
  assumes "db_typed db" "\<forall>r\<in>set rows. row_typed RequestKind r" "\<forall>r\<in>set rows'. row_typed ResponseKind r"
    "ans = \<lparr>aa_api = a, aa_request_params_by_location = organizeReqParams rows, aa_response_params_by_status_code = organizeRespParams rows'\<rparr>"
  shows "conforms (TInterface (if draft then ApiDraftDetail_ts else ApiDetail_ts)) (api_json T db draft ans)"
proof -
  have o: "user_of_json T db (apr_owner_id a) = JNull \<or> conforms (TInterface UserProfile_ts) (user_of_json T db (apr_owner_id a))"
    by (rule maybe_user [OF assms(1)])
  note p = params_conform [OF assms(2,3), of draft T]
  note e = enum_texts(1) [of "apr_method a"] enum_texts(2) [of "apr_level a"]
  show ?thesis
    unfolding api_json_def assms(4)
    by (cases draft; cases "apr_description a"; cases "apr_category_id a"; intro conformsI;
        use o p e in \<open>simp add: api_columns_def Let_def ApiDraftDetail_ts_def ApiDraftItem_ts_def ApiDetail_ts_def api_ApiBrief_ts_def
          HttpMethod_ts_def ApiLevel_ts_def param_tree_ts_def\<close>; blast?)
qed

end
