(* ===== verification/Be_Export.thy ===== *)
theory Be_Export
  imports Be_Openapi
begin

text \<open>
  What an exported document promises: it refers only to schemas it declares, and every API of the version has its operation
  with all its parameters, as long as no two of them share path and method.
\<close>

section \<open>References\<close>

function json_refs :: "jval \<Rightarrow> string list" where
  "json_refs (JObj ms) = concat (map (\<lambda>m. (if fst m = ''$ref'' then (case snd m of JStr s \<Rightarrow> [s] | _ \<Rightarrow> []) else []) @ json_refs (snd m)) ms)"
| "json_refs (JArr vs) = concat (map json_refs vs)"
| "json_refs (JStr s) = []"
| "json_refs (JInt n) = []"
| "json_refs (JBool b) = []"
| "json_refs JNull = []"
| "json_refs JUndefined = []"
| "json_refs (JText v) = []"
  by pat_completeness auto

termination
proof (relation "measure size", goal_cases)
  case (2 ms m)
  then have "(fst m, snd m) \<in> set ms" by simp
  then show ?case using size_pair [of "fst m" "snd m" ms] by simp
qed (auto simp: size_element)

text \<open>The JSON of a float is a number or, for infinities and NaN, \<open>null\<close>: it holds no reference.\<close>

definition float_law :: "(string \<Rightarrow> jval option) \<Rightarrow> bool" where
  "float_law py_float \<longleftrightarrow> (\<forall>s v. py_float s = Some v \<longrightarrow> json_refs v = [])"

text \<open>No member is a reference.\<close>

definition plain :: "(string \<times> jval) list \<Rightarrow> bool" where
  "plain ms \<longleftrightarrow> json_refs (JObj ms) = []"

lemma plain_simps [simp]:
  "plain []" "plain (m # ms) \<longleftrightarrow> (fst m = ''$ref'' \<longrightarrow> (case snd m of JStr s \<Rightarrow> False | _ \<Rightarrow> True)) \<and> json_refs (snd m) = [] \<and> plain ms"
  "plain (ms @ ns) \<longleftrightarrow> plain ms \<and> plain ns"
  by (auto simp: plain_def split: jval.splits)

lemma schema_plain: "plain (get_type_schema t)"
proof -
  have "list_all (\<lambda>x. plain (snd x))
     [(''string'', [(''type'', JStr ''string'')]), (''int'', [(''type'', JStr ''integer''), (''format'', JStr ''int64'')]),
      (''double'', [(''type'', JStr ''number''), (''format'', JStr ''double'')]), (''boolean'', [(''type'', JStr ''boolean'')]),
      (''binary'', [(''type'', JStr ''string''), (''format'', JStr ''binary'')]), (''object'', [(''type'', JStr ''object'')]),
      (''array'', [(''type'', JStr ''array'')])]" by simp
  then show ?thesis
    unfolding get_type_schema_def list_all_iff by (auto split: option.splits dest!: map_of_SomeD)
qed

lemma plain_default:
  assumes "float_law py_float" "plain ms" "with_default py_float r ms = Some v"
  shows "json_refs v = []"
proof -
  have "json_refs w = []" if "default_json py_float ty d = Some w" for ty d w
    using that assms(1) by (auto simp: default_json_def float_law_def split: if_splits)
  moreover have "plain (ms @ (case pr_example r of None \<Rightarrow> [] | Some e \<Rightarrow> if e = [] then [] else [(''example'', JStr e)]))"
    using assms(2) by (simp split: option.splits)
  ultimately show ?thesis
    using assms(3) unfolding plain_def with_default_def Let_def by (auto split: option.splits if_splits)
qed

lemma plain_required: "json_refs (JArr (required_names ts)) = []"
  by (simp add: required_names_def comp_def)

definition not_text :: "jval \<Rightarrow> bool" where
  "not_text v = (case v of JStr s \<Rightarrow> False | _ \<Rightarrow> True)"

lemma not_text_simps [simp]: "not_text (JStr s) = False" "not_text (JObj ms)" "not_text (JBool b)"
  by (simp_all add: not_text_def)

lemma not_text_case: "not_text v \<Longrightarrow> (case v of JStr s \<Rightarrow> [s] | _ \<Rightarrow> []) = []" "not_text v \<Longrightarrow> (case v of JStr s \<Rightarrow> False | _ \<Rightarrow> True)"
  by (simp_all add: not_text_def split: jval.splits)

lemma plain_object: "list_all (\<lambda>m. json_refs (snd m) = [] \<and> not_text (snd m)) ps \<Longrightarrow> plain ps \<and> plain (object_members ps ts)"
proof -
  assume "list_all (\<lambda>m. json_refs (snd m) = [] \<and> not_text (snd m)) ps"
  then have "plain ps" by (induction ps) (auto simp: not_text_case)
  then show ?thesis using plain_required [of ts] unfolding object_members_def by (auto simp: plain_def)
qed

text \<open>A schema is an object without references.\<close>

definition schema_ok :: "jval \<Rightarrow> bool" where
  "schema_ok v \<longleftrightarrow> json_refs v = [] \<and> not_text v"

lemma set_map_set: "set (map_set k v d) \<subseteq> insert (k, v) (set d)"
  by (induction k v d rule: map_set.induct) auto

lemma with_default_object: "with_default py_float r ms = Some v \<Longrightarrow> \<exists>xs. v = JObj xs"
  by (auto simp: with_default_def Let_def split: option.splits if_splits)

lemma schema_from:
  assumes "float_law py_float" "plain ms" "with_default py_float r ms = Some v"
  shows "schema_ok v"
  using plain_default [OF assms] with_default_object [OF assms(3)] by (auto simp: schema_ok_def)

lemma plain_items: "plain ms \<Longrightarrow> plain [(''items'', JObj ms)]"
  by (simp add: plain_def)

lemma object_plain: "list_all (\<lambda>m. schema_ok (snd m)) ps \<Longrightarrow> plain (object_members ps ts)"
  using plain_object [of ps ts] by (simp add: schema_ok_def)

lemma schemas_plain:
  shows "float_law py_float \<Longrightarrow> build_param_schema py_float t = Some v \<Longrightarrow> schema_ok v"
    and "float_law py_float \<Longrightarrow> build_properties py_float ps ts = Some qs \<Longrightarrow> list_all (\<lambda>m. schema_ok (snd m)) ps \<Longrightarrow> list_all (\<lambda>m. schema_ok (snd m)) qs"
proof (induction py_float t and py_float ps ts arbitrary: v and qs rule: build_param_schema_build_properties.induct)
  case (1 py_float r cs)
  have o: "plain (object_members ps cs)" if "build_properties py_float [] cs = Some ps" "pr_type r = ''object'' \<or> (pr_type r = ''array'' \<and> pr_act r = Some ''object'')" for ps
    using 1 that object_plain by fastforce
  consider ps where "build_properties py_float [] cs = Some ps" "pr_type r = ''object''" "with_default py_float r (get_type_schema (Some (pr_type r)) @ object_members ps cs) = Some v"
    | ps where "build_properties py_float [] cs = Some ps" "pr_type r = ''array''" "pr_act r = Some ''object''"
        "with_default py_float r (get_type_schema (Some (pr_type r)) @ [(''items'', JObj ((''type'', JStr ''object'') # object_members ps cs))]) = Some v"
    | "with_default py_float r (get_type_schema (Some (pr_type r)) @ [(''items'', JObj (get_type_schema (pr_act r)))]) = Some v"
    | "with_default py_float r (get_type_schema (Some (pr_type r))) = Some v"
    using "1.prems"(2) by (auto split: if_splits option.splits)
  then show ?case
  proof cases
    case 1
    then show ?thesis using schema_from [OF "1.prems"(1) _ 1(3)] o schema_plain by simp
  next
    case 2
    have "plain [(''items'', JObj ((''type'', JStr ''object'') # object_members ps cs))]" by (rule plain_items) (use o 2 in simp)
    then show ?thesis using schema_from [OF "1.prems"(1) _ 2(4)] schema_plain by simp
  next
    case 3
    then show ?thesis using schema_from [OF "1.prems"(1) _ 3] schema_plain plain_items [OF schema_plain] by simp
  next
    case 4
    then show ?thesis using schema_from [OF "1.prems"(1) _ 4] schema_plain by simp
  qed
next
  case (3 py_float ps t ts)
  obtain s where s: "build_param_schema py_float t = Some s" "build_properties py_float (map_set (pr_name (pt_row t)) s ps) ts = Some qs"
    using "3.prems"(2) by (auto split: option.splits)
  have "schema_ok s" using 3 s by blast
  then have "list_all (\<lambda>m. schema_ok (snd m)) (map_set (pr_name (pt_row t)) s ps)"
    using "3.prems"(3) set_map_set [of "pr_name (pt_row t)" s ps] by (auto simp: list_all_iff)
  then show ?case using 3 s by blast
qed simp


section \<open>Closed documents\<close>

definition closed_in :: "string set \<Rightarrow> jval \<Rightarrow> bool" where
  "closed_in N v \<longleftrightarrow> set (json_refs v) \<subseteq> ref_path ` N \<and> not_text v"

lemma closed_mono: "closed_in N v \<Longrightarrow> N \<subseteq> N' \<Longrightarrow> closed_in N' v"
  unfolding closed_in_def by blast

lemma refs_Cons:
  "json_refs (JObj ((k, v) # ms)) = (if k = ''$ref'' then (case v of JStr s \<Rightarrow> [s] | _ \<Rightarrow> []) else []) @ json_refs v @ json_refs (JObj ms)"
  "json_refs (JObj []) = []" "json_refs (JObj (ms @ ns)) = json_refs (JObj ms) @ json_refs (JObj ns)"
  by simp_all

lemma closed_member: "closed_in N v \<Longrightarrow> closed_in N (JObj ms) \<Longrightarrow> closed_in N (JObj ((k, v) # ms))"
proof -
  assume v: "closed_in N v" and ms: "closed_in N (JObj ms)"
  have "(case v of JStr s \<Rightarrow> [s] | _ \<Rightarrow> []) = []" by (rule not_text_case) (use v in \<open>simp add: closed_in_def\<close>)
  then have "json_refs (JObj ((k, v) # ms)) = json_refs v @ json_refs (JObj ms)" unfolding refs_Cons by (simp only: if_cancel append_Nil)
  moreover have "set (json_refs v) \<subseteq> ref_path ` N" "set (json_refs (JObj ms)) \<subseteq> ref_path ` N"
    using v ms unfolding closed_in_def by blast+
  moreover have "not_text (JObj ((k, v) # ms))" by simp
  ultimately show ?thesis unfolding closed_in_def by (simp only: set_append Un_least simp_thms)
qed

lemma closed_text: "k \<noteq> ''$ref'' \<Longrightarrow> json_refs v = [] \<Longrightarrow> closed_in N (JObj ms) \<Longrightarrow> closed_in N (JObj ((k, v) # ms))"
  unfolding closed_in_def refs_Cons by (simp del: json_refs.simps)

lemma closed_empty: "closed_in N (JObj [])" "closed_in N (JBool b)"
  by (simp_all add: closed_in_def)

lemma closed_append: "closed_in N (JObj ms) \<Longrightarrow> closed_in N (JObj ns) \<Longrightarrow> closed_in N (JObj (ms @ ns))"
  unfolding closed_in_def refs_Cons by (simp del: json_refs.simps)

lemma closed_members: "list_all (\<lambda>m. closed_in N (snd m)) ms \<Longrightarrow> closed_in N (JObj ms)"
  by (induction ms) (auto intro: closed_empty closed_member)

lemma closed_schema: "schema_ok v \<Longrightarrow> closed_in N v"
  by (simp add: schema_ok_def closed_in_def)

lemma closed_content: "n \<in> N \<Longrightarrow> closed_in N (JObj (json_content (schema_ref n) # []))"
  by (auto simp: closed_in_def json_content_def schema_ref_def)

lemma keys_set: "fst ` set (map_set k v d) = insert k (fst ` set d)"
  by (induction k v d rule: map_set.induct) auto

definition schemas_ok :: "(string \<times> jval) list \<Rightarrow> bool" where
  "schemas_ok schemas \<longleftrightarrow> list_all (\<lambda>m. schema_ok (snd m)) schemas"

lemma schemas_ok_set: "schemas_ok d \<Longrightarrow> schema_ok v \<Longrightarrow> schemas_ok (map_set k v d)"
  using set_map_set [of k v d] by (auto simp: schemas_ok_def list_all_iff)

lemma root_ok:
  assumes "float_law py_float" "build_root_schema py_float ts = Some s"
  shows "schema_ok s"
proof -
  obtain ps where ps: "build_properties py_float [] ts = Some ps"
    "s = JObj ([(''type'', JStr ''object''), (''properties'', JObj ps)] @ (if required_names ts = [] then [] else [(''required'', JArr (required_names ts))]) @
       [(''additionalProperties'', JBool False)])"
    using assms(2) by (auto simp: build_root_schema_def split: option.splits)
  have "list_all (\<lambda>m. schema_ok (snd m)) ps" using schemas_plain(2) [OF assms(1) ps(1)] by simp
  then have "plain ps" using plain_object [of ps ts] by (simp add: schema_ok_def)
  then have "plain ([(''type'', JStr ''object''), (''properties'', JObj ps)] @ (if required_names ts = [] then [] else [(''required'', JArr (required_names ts))]) @
       [(''additionalProperties'', JBool False)])"
    using plain_required [of ts] by (simp add: plain_def)
  then show ?thesis unfolding ps(2) schema_ok_def plain_def by (simp only: not_text_simps simp_thms)
qed

lemma request_body_closed:
  assumes "float_law py_float" "api_request_body py_float c body schemas = Some (rb, schemas')" "schemas_ok schemas"
  shows "schemas_ok schemas' \<and> fst ` set schemas \<subseteq> fst ` set schemas' \<and> closed_in (fst ` set schemas') (JObj rb)"
proof (cases "body = []")
  case True
  then show ?thesis using assms by (auto simp: api_request_body_def closed_empty)
next
  case False
  let ?n = "c @ ''Request''"
  obtain s where s: "build_root_schema py_float body = Some s" "schemas' = map_set ?n s schemas"
    "rb = [(''requestBody'', JObj [(''required'', JBool True), json_content (schema_ref ?n)])]"
    using assms(2) False by (auto simp: api_request_body_def Let_def)
  then show ?thesis
    using schemas_ok_set [OF assms(3) root_ok [OF assms(1) s(1)]]
      closed_member [OF closed_text [OF _ _ closed_content [of ?n "fst ` set schemas'"]] closed_empty(1), of "''required''" "JBool True" "''requestBody''"]
    by (simp add: keys_set subset_insertI)
qed

lemma responses_closed:
  assumes "float_law py_float"
  shows "api_responses py_float c d schemas = Some (rs, schemas') \<Longrightarrow> schemas_ok schemas \<Longrightarrow>
    schemas_ok schemas' \<and> fst ` set schemas \<subseteq> fst ` set schemas' \<and> closed_in (fst ` set schemas') (JObj rs)"
proof (induction d arbitrary: schemas rs)
  case (Cons x rest)
  obtain k ts where x: "x = (k, ts)" by force
  let ?n = "c @ ''Response'' @ (if int_str k = ''200'' then [] else int_str k)"
  obtain s rs' where s: "build_root_schema py_float ts = Some s" "api_responses py_float c rest (map_set ?n s schemas) = Some (rs', schemas')"
    "rs = (int_str k, JObj [(''description'', JStr (''Response for '' @ int_str k)), json_content (schema_ref ?n)]) # rs'"
    using Cons.prems(1) unfolding x by (auto simp: Let_def split: option.splits)
  have IH: "schemas_ok schemas' \<and> fst ` set (map_set ?n s schemas) \<subseteq> fst ` set schemas' \<and> closed_in (fst ` set schemas') (JObj rs')"
    by (rule Cons.IH [OF s(2) schemas_ok_set [OF Cons.prems(2) root_ok [OF assms s(1)]]])
  then have "?n \<in> fst ` set schemas'" unfolding keys_set by blast
  then show ?case
    using IH closed_member [OF closed_text [OF _ _ closed_content [of ?n "fst ` set schemas'"]], of "''description''" "JStr (''Response for '' @ int_str k)" rs' "int_str k"]
    unfolding s(3) keys_set by simp
qed (simp add: closed_empty)


text \<open>While the APIs are gone through, the schemas hold no reference and every operation refers to one of them only.\<close>

definition export_inv :: "openapi \<Rightarrow> bool" where
  "export_inv oa \<longleftrightarrow> schemas_ok (oa_schemas oa) \<and>
     list_all (\<lambda>(p, d). list_all (\<lambda>m. closed_in (fst ` set (oa_schemas oa)) (snd m)) d) (oa_paths oa)"

lemma parameter_plain:
  assumes "float_law py_float" "parameter_json py_float l t = Some v"
  shows "json_refs v = []"
proof -
  obtain s where s: "build_param_schema py_float t = Some s"
    "v = JObj ([(''name'', JStr (pr_name (pt_row t))), (''in'', JStr l), (''required'', JBool (pr_required (pt_row t))), (''schema'', s)] @
       (case pr_description (pt_row t) of None \<Rightarrow> [] | Some d \<Rightarrow> if d = [] then [] else [(''description'', JStr d)]))"
    using assms(2) by (auto simp: parameter_json_def)
  have "schema_ok s" by (rule schemas_plain(1) [OF assms(1) s(1)])
  then have "plain ([(''name'', JStr (pr_name (pt_row t))), (''in'', JStr l), (''required'', JBool (pr_required (pt_row t))), (''schema'', s)] @
       (case pr_description (pt_row t) of None \<Rightarrow> [] | Some d \<Rightarrow> if d = [] then [] else [(''description'', JStr d)]))"
    by (simp add: schema_ok_def split: option.splits)
  then show ?thesis unfolding s(2) plain_def by simp
qed

lemma map_all_iff: "map_all f xs = Some ys \<longleftrightarrow> map f xs = map Some ys"
proof (induction xs arbitrary: ys)
  case (Cons x xs)
  then show ?case by (cases ys) (auto split: option.splits)
qed auto

lemma map_all_length: "map_all f xs = Some ys \<Longrightarrow> length ys = length xs"
  unfolding map_all_iff by (metis length_map)

lemma parameters_plain:
  assumes "float_law py_float" "api_parameters py_float d = Some ps"
  shows "json_refs (JArr ps) = []"
proof -
  have "json_refs v = []" if "v \<in> set ps" for v
  proof -
    have "Some v \<in> (\<lambda>(l, t). parameter_json py_float l t) ` set (concat (map (\<lambda>l. map (Pair l) (trees_at l d)) [''query'', ''path'', ''header'', ''cookie'']))"
      using that assms(2) unfolding api_parameters_def map_all_iff by (metis image_eqI list.set_map)
    then show ?thesis using parameter_plain [OF assms(1)] by auto
  qed
  then show ?thesis by simp
qed

lemma operation_closed:
  assumes "json_refs (JArr ps) = []" "closed_in N (JObj rs)" "closed_in N (JObj rb)"
  shows "closed_in N (operation a ps rs rb)"
proof -
  have d: "json_refs (null_or JStr (apr_description a)) = []" by (simp add: null_or_def split: option.splits)
  have "closed_in N (JObj ((''description'', null_or JStr (apr_description a)) # (''operationId'', JStr (apr_name a)) # (''parameters'', JArr ps) #
       (''responses'', JObj rs) # (''deprecated'', JBool (\<not> apr_is_enabled a)) # rb))"
    by (intro closed_text closed_member d assms closed_empty) (simp_all del: json_refs.simps(2) add: assms)
  then show ?thesis by (simp only: operation_def append_Cons append_Nil)
qed

lemma add_api_inv:
  assumes "float_law py_float" "add_api py_float x oa = Some oa'" "export_inv oa"
  shows "export_inv oa' \<and> fst ` set (oa_schemas oa) \<subseteq> fst ` set (oa_schemas oa')"
proof -
  let ?d = "aa_request_params_by_location x" and ?c = "to_component_name (apr_name (aa_api x))" and ?a = "aa_api x"
  obtain ps rb s1 rs s2 where w: "api_parameters py_float ?d = Some ps"
    "api_request_body py_float ?c (trees_at ''body'' ?d) (oa_schemas oa) = Some (rb, s1)"
    "api_responses py_float ?c (aa_response_params_by_status_code x) s1 = Some (rs, s2)"
    "oa' = \<lparr>oa_paths = map_set (apr_path ?a) (map_set (method_key (apr_method ?a)) (operation ?a ps rs rb) (path_item oa (apr_path ?a))) (oa_paths oa), oa_schemas = s2\<rparr>"
    using assms(2) by (auto simp: add_api_def Let_def split: option.splits prod.splits)
  have B: "schemas_ok s1" "fst ` set (oa_schemas oa) \<subseteq> fst ` set s1" "closed_in (fst ` set s1) (JObj rb)"
    using request_body_closed [OF assms(1) w(2)] assms(3) by (auto simp: export_inv_def)
  have R: "schemas_ok s2" "fst ` set s1 \<subseteq> fst ` set s2" "closed_in (fst ` set s2) (JObj rs)"
    using responses_closed [OF assms(1) w(3) B(1)] by auto
  let ?N = "fst ` set s2"
  have op: "closed_in ?N (operation ?a ps rs rb)"
    by (rule operation_closed [OF parameters_plain [OF assms(1) w(1)] R(3) closed_mono [OF B(3) R(2)]])
  have old: "list_all (\<lambda>m. closed_in ?N (snd m)) d" if "(p, d) \<in> set (oa_paths oa)" for p d
    using that assms(3) closed_mono subset_trans [OF B(2) R(2)] by (fastforce simp: export_inv_def list_all_iff)
  have "list_all (\<lambda>m. closed_in ?N (snd m)) (path_item oa (apr_path ?a))"
    using old by (auto simp: path_item_def split: option.splits dest: map_of_SomeD)
  then have "list_all (\<lambda>m. closed_in ?N (snd m)) (map_set (method_key (apr_method ?a)) (operation ?a ps rs rb) (path_item oa (apr_path ?a)))"
    using op set_map_set by (fastforce simp: list_all_iff)
  then have "\<forall>(p, d) \<in> set (oa_paths oa'). list_all (\<lambda>m. closed_in ?N (snd m)) d"
    unfolding w(4) using set_map_set old by fastforce
  then show ?thesis using R(1) subset_trans [OF B(2) R(2)] unfolding export_inv_def list_all_iff [where xs = "oa_paths oa'"] by (simp add: w(4))
qed

lemma add_all_inv: "float_law py_float \<Longrightarrow> add_all py_float xs oa = Some oa' \<Longrightarrow> export_inv oa \<Longrightarrow> export_inv oa'"
proof (induction xs arbitrary: oa)
  case (Cons x xs)
  then show ?case using add_api_inv [OF Cons.prems(1)] by (auto split: option.splits)
qed simp

lemma document_refs:
  assumes "export_inv oa"
  shows "set (json_refs (document_json v c oa)) \<subseteq> ref_path ` fst ` set (oa_schemas oa)"
proof -
  let ?N = "fst ` set (oa_schemas oa)"
  have ds: "json_refs (document_description v) = []"
    by (cases v) (simp_all add: document_description_def null_or_def split: option.splits)
  have paths: "closed_in ?N (JObj (map (\<lambda>(p, d). (p, JObj d)) (oa_paths oa)))"
    using assms by (intro closed_members) (fastforce simp: export_inv_def list_all_iff intro!: closed_members)
  have schemas: "closed_in ?N (JObj (oa_schemas oa))"
    using assms by (intro closed_members) (auto simp: export_inv_def schemas_ok_def list_all_iff intro: closed_schema)
  have n: "json_refs (null_or JStr t) = []" for t by (simp add: null_or_def split: option.splits)
  have ver: "json_refs (case v of LatestFound s \<Rightarrow> JStr (srv_version s) | IterationFound s it \<Rightarrow> null_or JStr (itr_version it)) = []"
    using n by (cases v) simp_all
  have "closed_in ?N (document_json v c oa)"
    unfolding document_json_def by (intro closed_text closed_member paths schemas ds n ver closed_empty) simp_all
  then show ?thesis by (simp only: closed_in_def)
qed


section \<open>Operations\<close>

fun json_at :: "jval \<Rightarrow> string list \<Rightarrow> jval option" where
  "json_at v [] = Some v"
| "json_at v (k # ks) = (case v of JObj ms \<Rightarrow> (case map_of ms k of None \<Rightarrow> None | Some w \<Rightarrow> json_at w ks) | _ \<Rightarrow> None)"

definition op_key :: "api_answer \<Rightarrow> string \<times> string" where
  "op_key x = (apr_path (aa_api x), method_key (apr_method (aa_api x)))"

definition op_at :: "openapi \<Rightarrow> string \<times> string \<Rightarrow> jval option" where
  "op_at oa k = map_of (path_item oa (fst k)) (snd k)"

lemma method_key_inj: "method_key m = method_key n \<longleftrightarrow> m = n"
proof -
  have "method_key GET = ''get''" "method_key POST = ''post''" "method_key PUT = ''put''" "method_key DELETE = ''delete''"
    "method_key PATCH = ''patch''" by code_simp+
  then show ?thesis by (cases m; cases n) simp_all
qed

lemma add_api_at:
  assumes "add_api py_float x oa = Some oa'"
  shows "\<exists>ps rb s1 rs s2. api_parameters py_float (aa_request_params_by_location x) = Some ps \<and>
    api_request_body py_float (to_component_name (apr_name (aa_api x))) (trees_at ''body'' (aa_request_params_by_location x)) (oa_schemas oa) = Some (rb, s1) \<and>
    api_responses py_float (to_component_name (apr_name (aa_api x))) (aa_response_params_by_status_code x) s1 = Some (rs, s2) \<and>
    op_at oa' k = (if k = op_key x then Some (operation (aa_api x) ps rs rb) else op_at oa k)"
proof -
  let ?d = "aa_request_params_by_location x" and ?c = "to_component_name (apr_name (aa_api x))" and ?a = "aa_api x"
  obtain ps rb s1 rs s2 where w: "api_parameters py_float ?d = Some ps"
    "api_request_body py_float ?c (trees_at ''body'' ?d) (oa_schemas oa) = Some (rb, s1)"
    "api_responses py_float ?c (aa_response_params_by_status_code x) s1 = Some (rs, s2)"
    "oa' = \<lparr>oa_paths = map_set (apr_path ?a) (map_set (method_key (apr_method ?a)) (operation ?a ps rs rb) (path_item oa (apr_path ?a))) (oa_paths oa), oa_schemas = s2\<rparr>"
    using assms by (auto simp: add_api_def Let_def split: option.splits prod.splits)
  have "op_at oa' k = (if k = op_key x then Some (operation ?a ps rs rb) else op_at oa k)"
    by (cases k) (auto simp: w(4) op_at_def op_key_def path_item_def split: option.splits)
  then show ?thesis using w by blast
qed

lemma add_all_other: "add_all py_float xs oa = Some oa' \<Longrightarrow> k \<notin> op_key ` set xs \<Longrightarrow> op_at oa' k = op_at oa k"
proof (induction xs arbitrary: oa)
  case (Cons x xs)
  obtain oa1 where o: "add_api py_float x oa = Some oa1" "add_all py_float xs oa1 = Some oa'"
    using Cons.prems(1) by (auto split: option.splits)
  show ?case using Cons.IH [OF o(2)] add_api_at [OF o(1), of k] Cons.prems(2) by auto
qed simp

text \<open>What the operation of an API says: the schemas of its body and its answers are referred to by name.\<close>

definition schema_path :: "string list" where
  "schema_path = [''content'', ''application/json'', ''schema'', ''$ref'']"

definition response_component :: "string \<Rightarrow> int \<Rightarrow> string" where
  "response_component name c = to_component_name name @ ''Response'' @ (if int_str c = ''200'' then [] else int_str c)"

definition documents :: "(string \<Rightarrow> jval option) \<Rightarrow> api_answer \<Rightarrow> jval \<Rightarrow> bool" where
  "documents py_float x op \<longleftrightarrow>
     (let a = aa_api x; d = aa_request_params_by_location x in
     json_at op [''operationId''] = Some (JStr (apr_name a)) \<and>
     json_at op [''description''] = Some (null_or JStr (apr_description a)) \<and>
     json_at op [''deprecated''] = Some (JBool (\<not> apr_is_enabled a)) \<and>
     json_at op (''requestBody'' # schema_path) =
       (if trees_at ''body'' d = [] then None else Some (JStr (ref_path (to_component_name (apr_name a) @ ''Request'')))) \<and>
     (\<exists>ps. json_at op [''parameters''] = Some (JArr ps) \<and>
       map (\<lambda>p. (json_at p [''name''], json_at p [''in''], json_at p [''required''], json_at p [''schema''])) ps =
       concat (map (\<lambda>l. map (\<lambda>t. (Some (JStr (pr_name (pt_row t))), Some (JStr l), Some (JBool (pr_required (pt_row t))), build_param_schema py_float t))
         (trees_at l d)) [''query'', ''path'', ''header'', ''cookie''])) \<and>
     (\<exists>rs. json_at op [''responses''] = Some (JObj rs) \<and>
       map (\<lambda>(k, r). (k, json_at r schema_path)) rs =
       map (\<lambda>(c, ts). (int_str c, Some (JStr (ref_path (response_component (apr_name a) c))))) (aa_response_params_by_status_code x)))"

lemma parameter_at:
  "parameter_json py_float l t = Some v \<Longrightarrow> (json_at v [''name''], json_at v [''in''], json_at v [''required''], json_at v [''schema'']) =
     (Some (JStr (pr_name (pt_row t))), Some (JStr l), Some (JBool (pr_required (pt_row t))), build_param_schema py_float t)"
  by (auto simp: parameter_json_def)

lemma responses_at:
  "api_responses py_float (to_component_name n) xs s = Some (rs, s') \<Longrightarrow>
     map (\<lambda>(k, r). (k, json_at r schema_path)) rs = map (\<lambda>(c, ts). (int_str c, Some (JStr (ref_path (response_component n c))))) xs"
proof (induction xs arbitrary: s rs)
  case (Cons x xs)
  obtain c ts where x: "x = (c, ts)" by (cases x)
  from Cons.prems obtain t rs' where "api_responses py_float (to_component_name n) xs t = Some (rs', s')"
    "rs = (int_str c, JObj [(''description'', JStr (''Response for '' @ int_str c)), json_content (schema_ref (response_component n c))]) # rs'"
    by (auto simp: x Let_def response_component_def split: option.splits)
  then show ?case using Cons.IH by (simp add: x schema_path_def json_content_def schema_ref_def)
qed simp

lemma body_at:
  "api_request_body py_float c ts s = Some (rb, s') \<Longrightarrow>
     json_at (operation a ps rs rb) (''requestBody'' # schema_path) = (if ts = [] then None else Some (JStr (ref_path (c @ ''Request''))))"
  by (auto simp: api_request_body_def Let_def operation_def schema_path_def json_content_def schema_ref_def split: if_splits)

lemma map_some_eq: "map f xs = map Some ys \<Longrightarrow> (\<And>x y. x \<in> set xs \<Longrightarrow> f x = Some y \<Longrightarrow> g y = h x) \<Longrightarrow> map g ys = map h xs"
proof (induction xs arbitrary: ys)
  case (Cons x xs)
  then show ?case by (cases ys) auto
qed simp

lemma operation_documents:
  assumes "api_parameters py_float (aa_request_params_by_location x) = Some ps"
    "api_request_body py_float (to_component_name (apr_name (aa_api x))) (trees_at ''body'' (aa_request_params_by_location x)) s = Some (rb, s')"
    "api_responses py_float (to_component_name (apr_name (aa_api x))) (aa_response_params_by_status_code x) s' = Some (rs, s'')"
  shows "documents py_float x (operation (aa_api x) ps rs rb)"
proof -
  let ?d = "aa_request_params_by_location x" and ?op = "operation (aa_api x) ps rs rb"
  let ?ls = "[''query'', ''path'', ''header'', ''cookie'']"
  let ?f = "\<lambda>p. (json_at p [''name''], json_at p [''in''], json_at p [''required''], json_at p [''schema''])"
  let ?g = "\<lambda>l t. (Some (JStr (pr_name (pt_row t))), Some (JStr l), Some (JBool (pr_required (pt_row t))), build_param_schema py_float t)"
  have "map ?f ps = map (\<lambda>(l, t). ?g l t) (concat (map (\<lambda>l. map (Pair l) (trees_at l ?d)) ?ls))"
    by (rule map_some_eq [OF assms(1) [unfolded api_parameters_def map_all_iff]]) (use parameter_at in fastforce)
  then have "map ?f ps = concat (map (\<lambda>l. map (?g l) (trees_at l ?d)) ?ls)" by (simp add: comp_def)
  moreover have "json_at ?op [''parameters''] = Some (JArr ps)" "json_at ?op [''responses''] = Some (JObj rs)"
    "json_at ?op [''operationId''] = Some (JStr (apr_name (aa_api x)))" "json_at ?op [''description''] = Some (null_or JStr (apr_description (aa_api x)))"
    "json_at ?op [''deprecated''] = Some (JBool (\<not> apr_is_enabled (aa_api x)))"
    by (simp_all add: operation_def)
  ultimately show ?thesis
    unfolding documents_def Let_def using body_at [OF assms(2)] responses_at [OF assms(3)] by blast
qed

lemma add_all_op:
  "add_all py_float xs oa = Some oa' \<Longrightarrow> distinct (map op_key xs) \<Longrightarrow> x \<in> set xs \<Longrightarrow> \<exists>op. op_at oa' (op_key x) = Some op \<and> documents py_float x op"
proof (induction xs arbitrary: oa)
  case (Cons y xs)
  obtain oa1 where o: "add_api py_float y oa = Some oa1" "add_all py_float xs oa1 = Some oa'"
    using Cons.prems(1) by (auto split: option.splits)
  show ?case
  proof (cases "x \<in> set xs")
    case True
    then show ?thesis using Cons.IH [OF o(2)] Cons.prems(2) by simp
  next
    case False
    then have x: "x = y" using Cons.prems(3) by simp
    have "op_at oa' (op_key x) = op_at oa1 (op_key x)" by (rule add_all_other [OF o(2)]) (use Cons.prems(2) x in simp)
    then show ?thesis using add_api_at [OF o(1), of "op_key x"] operation_documents unfolding x by fastforce
  qed
qed simp

lemma document_at:
  "json_at (document_json v c oa) [''components'', ''schemas'', n] = map_of (oa_schemas oa) n"
  "json_at (document_json v c oa) [''paths'', p, m] = op_at oa (p, m)"
proof -
  show "json_at (document_json v c oa) [''components'', ''schemas'', n] = map_of (oa_schemas oa) n"
    by (simp add: document_json_def split: option.splits)
  have "map_of (map (\<lambda>(p, d). (p, JObj d)) ps) p = map_option JObj (map_of ps p)" for ps by (induction ps) auto
  then show "json_at (document_json v c oa) [''paths'', p, m] = op_at oa (p, m)"
    by (simp add: document_json_def op_at_def path_item_def split: option.splits)
qed

lemma exported:
  assumes "serviceExportOpenapiByUuidAndVersion D py_float uuid version uid db = Reply st msg (Some (doc, latest))"
  obtains v oa c where "find_version uuid version db = Inr v" "add_all py_float (exported_apis D v db) no_apis = Some oa" "doc = document_json v c oa"
proof -
  obtain v apis where v: "serviceGetServiceByUuidAndVersion uuid version uid db = Reply st msg (Some (v, apis)) \<or>
      serviceGetServiceByUuidAndVersion uuid version uid db = Reply 200 ''Get service success'' (Some (v, apis))" "openapiTemplate D py_float v db = Some doc"
    using assms by (auto simp: serviceExportOpenapiByUuidAndVersion_def serviceGetServiceByUuidAndVersion_def guarded_def
        split: be_reply.splits option.splits sum.splits version_found.splits verdict.splits if_splits)
  have f: "find_version uuid version db = Inr v"
    using v(1) by (auto simp: serviceGetServiceByUuidAndVersion_def guarded_def split: sum.splits version_found.splits verdict.splits if_splits)
  then show ?thesis using v(2) that by (auto simp: openapiTemplate_def split: option.splits)
qed


section \<open>The exported document\<close>

text \<open>
  An exported document is closed: whatever it refers to is the path of a schema that its \<open>components\<close> declare, and this
  schema holds no reference, so a reader that resolves references comes to an end.
\<close>

theorem export_closed:
  assumes "serviceExportOpenapiByUuidAndVersion D py_float uuid version uid db = Reply st msg (Some (doc, latest))" "float_law py_float"
    "r \<in> set (json_refs doc)"
  shows "\<exists>n s. r = ref_path n \<and> json_at doc [''components'', ''schemas'', n] = Some s \<and> json_refs s = []"
proof -
  from exported [OF assms(1)] obtain v oa c where v: "add_all py_float (exported_apis D v db) no_apis = Some oa" "doc = document_json v c oa"
    by blast
  have "export_inv no_apis" by (simp add: export_inv_def no_apis_def schemas_ok_def)
  then have inv: "export_inv oa" by (rule add_all_inv [OF assms(2) v(1)])
  obtain n where n: "r = ref_path n" "n \<in> fst ` set (oa_schemas oa)"
    using document_refs [OF inv, of v c] assms(3) unfolding v(2) by blast
  then obtain s where s: "map_of (oa_schemas oa) n = Some s" by (metis dom_map_of_conv_image_fst domD)
  have "json_refs s = []"
    using inv map_of_SomeD [OF s] by (auto simp: export_inv_def schemas_ok_def schema_ok_def list_all_iff)
  then show ?thesis using n(1) s unfolding v(2) document_at by blast
qed

text \<open>An export of the API that is submitted in \<open>Be_Front\<close>, once its iteration is committed.\<close>

definition demo_published :: database where
  "demo_published = handle demo_server 1 (Be_Run.CommitIteration 1 ''1.0.0'') (snd (updateApiByApiDraftId 1 1 demo_submission demo_run))"

definition demo_export :: jval where
  "demo_export =
     (case serviceExportOpenapiByUuidAndVersion demo_server (\<lambda>s. None) ''x/y'' ''latest'' 1 demo_published of
        Reply st msg (Some (doc, latest)) \<Rightarrow> doc
      | _ \<Rightarrow> JNull)"

lemma demo_exported:
  "serviceExportOpenapiByUuidAndVersion demo_server (\<lambda>s. None) ''x/y'' ''latest'' 1 demo_published = Reply 200 ''Get service success'' (Some (demo_export, True))"
proof -
  have "(case serviceExportOpenapiByUuidAndVersion demo_server (\<lambda>s. None) ''x/y'' ''latest'' 1 demo_published of
      Reply st msg (Some (doc, latest)) \<Rightarrow> st = 200 \<and> msg = ''Get service success'' \<and> latest | _ \<Rightarrow> False)" by code_simp
  then show ?thesis by (auto simp: demo_export_def split: be_reply.splits option.splits)
qed

theorem export_closed_witness:
  "\<exists>s. json_at demo_export [''components'', ''schemas'', ''FindRequest''] = Some s \<and> json_refs s = []"
proof -
  have r: "''#/components/schemas/FindRequest'' \<in> set (json_refs demo_export)" by code_simp
  have inj: "''#/components/schemas/FindRequest'' = ref_path n \<Longrightarrow> n = ''FindRequest''" for n by (simp add: ref_path_def)
  show ?thesis using export_closed [OF demo_exported _ r] inj by (auto simp: float_law_def)
qed

text \<open>
  C40: The export is complete: if no two APIs of the version share path and method, every API of it has its operation in the
  document, with its name, its description, the flag of an API that is not enabled, a request body exactly when it has
  parameters in the body, all its other parameters, with name, location, schema and whether they are required, in the order
  in which they are read, and a response for each of its status codes.
\<close>

theorem export_complete:
  assumes "serviceExportOpenapiByUuidAndVersion D py_float uuid version uid db = Reply st msg (Some (doc, latest))"
    "find_version uuid version db = Inr v" "x \<in> set (exported_apis D v db)"
    "distinct (map (\<lambda>y. (apr_path (aa_api y), apr_method (aa_api y))) (exported_apis D v db))"
  shows "\<exists>op. json_at doc [''paths'', apr_path (aa_api x), method_key (apr_method (aa_api x))] = Some op \<and> documents py_float x op"
proof -
  from exported [OF assms(1)] assms(2) obtain oa c where v: "add_all py_float (exported_apis D v db) no_apis = Some oa" "doc = document_json v c oa"
    by (metis sum.inject(2))
  have "distinct (map op_key (exported_apis D v db))"
    using assms(4) by (simp add: distinct_map op_key_def inj_on_def method_key_inj)
  from add_all_op [OF v(1) this assms(3)] show ?thesis unfolding v(2) document_at op_key_def by blast
qed

theorem export_complete_witness:
  "\<exists>op. json_at demo_export [''paths'', ''/f/{id}'', ''post''] = Some op \<and> json_at op [''operationId''] = Some (JStr ''find'') \<and>
     json_at op (''requestBody'' # schema_path) = Some (JStr ''#/components/schemas/FindRequest'')"
proof -
  obtain s where s: "find_version ''x/y'' ''latest'' demo_published = Inr (LatestFound s)" "srv_id s = 1"
  proof -
    have "(case find_version ''x/y'' ''latest'' demo_published of Inr (LatestFound s) \<Rightarrow> srv_id s = 1 | _ \<Rightarrow> False)" by code_simp
    then show ?thesis using that by (auto split: sum.splits version_found.splits)
  qed
  let ?L = "map (api_answer_of demo_server (db_published demo_published)) (apis_in_order demo_server (apis_for 1 (db_published demo_published)))"
  have L: "exported_apis demo_server (LatestFound s) demo_published = ?L" by (simp add: exported_apis_def s(2))
  have "map (\<lambda>y. (apr_path (aa_api y), apr_method (aa_api y), apr_name (aa_api y), trees_at ''body'' (aa_request_params_by_location y) = [])) ?L =
      [(''/f/{id}'', POST, ''find'', False)]" by code_simp
  then obtain x where x: "?L = [x]" "apr_path (aa_api x) = ''/f/{id}''" "apr_method (aa_api x) = POST" "apr_name (aa_api x) = ''find''"
    "trees_at ''body'' (aa_request_params_by_location x) \<noteq> []" by auto
  have k: "method_key POST = ''post''" "ref_path (to_component_name ''find'' @ ''Request'') = ''#/components/schemas/FindRequest''"
    by code_simp+
  show ?thesis
    using export_complete [OF demo_exported s(1), unfolded L x(1), of x] x(2-) k by (auto simp: documents_def Let_def simp del: json_at.simps)
qed

text \<open>
  The names of the schemas of an API depend on its ASCII letters and digits only, and the schema of a later API replaces
  that of an earlier one with the same name.
\<close>

lemma split_on_blank: "list_all ((=) c) s \<Longrightarrow> list_all ((=) []) (split_on c s)"
  by (induction s) auto

lemma nameless_component:
  assumes "list_all (\<lambda>c. \<not> is_alnum c) name"
  shows "to_component_name name = []"
proof -
  let ?f = "\<lambda>c. if is_alnum c then c else CHR '' ''"
  have u: "is_upper c \<Longrightarrow> is_alnum c" for c by (simp add: is_alnum_def)
  have "map ?f (concat (map (\<lambda>x. if is_upper x then [CHR '' '', x] else [x]) cs)) = replicate (length cs) CHR '' ''"
    if "list_all (\<lambda>c. \<not> is_alnum c) cs" for cs
    using that u by (induction cs) auto
  then have "list_all ((=) CHR '' '') (map ?f (spaced name))"
    using assms by (cases name) (auto simp: spaced_def list_all_iff)
  then have "list_all ((=) []) (split_on CHR '' '' (map ?f (spaced name)))" by (rule split_on_blank)
  then have "map py_capitalize (split_on CHR '' '' (map ?f (spaced name))) = map (\<lambda>x. []) (split_on CHR '' '' (map ?f (spaced name)))"
    by (auto simp: list_all_iff py_capitalize_def)
  then show ?thesis by (simp add: to_component_name_def)
qed

lemma responses_other:
  "api_responses py_float c d schemas = Some (rs, schemas') \<Longrightarrow> map_of schemas' (c @ ''Request'') = map_of schemas (c @ ''Request'')"
  by (induction d arbitrary: schemas rs) (auto simp: Let_def split: option.splits prod.splits)

lemma later_schema:
  assumes "add_api py_float x oa = Some oa'" "trees_at ''body'' (aa_request_params_by_location x) \<noteq> []"
  shows "map_of (oa_schemas oa') (to_component_name (apr_name (aa_api x)) @ ''Request'') =
    build_root_schema py_float (trees_at ''body'' (aa_request_params_by_location x))"
  using assms responses_other by (fastforce simp: add_api_def api_request_body_def Let_def split: option.splits prod.splits)

end
