(* ===== verification/Be_Route_Types.thy ===== *)
theory Be_Route_Types
  imports Be_Answers Be_Export
begin

text \<open>The answers of the routes.\<close>

section \<open>Typed answers\<close>















section \<open>Services\<close>














section \<open>APIs\<close>



section \<open>All routes\<close>



end
