(* ===== verification/Spec2Isabelle.thy ===== *)
theory Spec2Isabelle
  imports Cli_Commands Cli_Endpoints Generated_Client Fe_Forms Fe_Page Fe_Response_Tabs Fe_Param_Table Fe_Session Be_Front Be_Refine
    Be_Route_Types
begin

text \<open>
  Verification of CAM (Clean, Accurate, Maintainable), an API-management system.  The repository has
  three programs: a back end in Python (\<open>src/BE-CAM\<close>), which keeps services, their APIs and their versions in a
  database, a React front end (\<open>src/FE-CAM\<close>) in which they are edited, and a command-line tool
  (\<open>src/cam-fe-code-generator\<close>) that pulls the APIs of the configured services and generates TypeScript clients
  for them.  The development covers the three programs: the two TypeScript programs see the server as requests and
  replies, and the properties that span the programs put the model of the server in its place.

  \<^bold>\<open>Conventions.\<close>  Strings are lists of ASCII characters; Chinese interface texts appear as English
  literals and never influence control flow.  An interface is a record, a union a datatype, an optional
  member an option.  A JavaScript object used as a dictionary is its list of own properties in
  enumeration order.  Numbers are \<open>int\<close> or \<open>nat\<close> (the programs use ids, times and version parts below
  \<open>2^53\<close>); the numbers a user types as status codes are read in every notation JavaScript knows.  A thrown error or rejected promise is a value of the result type.  What is not in
  the sources of a program is a parameter: the server of the two clients (an \<open>endpoint\<close> is a function of its state and the request),
  the formatter (prettier), the prompts and the table printer of the tool, the form and dialog library and
  the persistence middleware of the front end; for the back end the record \<open>server_env\<close> holds the order in which
  the database returns rows, the clock, the mail server, \<open>bcrypt\<close> and \<open>jose\<close>.

  \<^bold>\<open>Shared theories.\<close>
  \<^item> \<open>Prelude\<close>: the JavaScript string functions the code uses and their laws; the locale \<open>codec\<close>, what is
    printed is read back, is interpreted for tree keys, status codes, local times and page addresses
    (\<open>tree_key\<close>, \<open>status_code\<close>, \<open>local_time\<close>, \<open>page_address\<close>).
  \<^item> \<open>Js_Object\<close>: objects and \<open>Map\<close>s as dictionaries; the locale \<open>dictionary\<close> states their contract and is
    interpreted for both (\<open>js_map\<close>, \<open>js_object\<close>).
  \<^item> \<open>Js_Numeral\<close>: \<open>Number(s)\<close> and \<open>String(n)\<close> on decimal, exponent and radix notations; \<open>Js_Date\<close>: the
    calendar and local time of \<open>Date\<close>, with the proofs that dates and day numbers correspond.
  \<^item> \<open>Api_Types\<close>: the data model of \<open>services/*/types.ts\<close> of both packages.
  \<^item> \<open>Http\<close>: requests, replies, endpoints, and the locale \<open>session_store\<close>, the contract of the place where
    the token is kept; it is interpreted for \<open>~/.camrc\<close> (\<open>camrc\<close>, in \<open>Token_Manager\<close>) and for the browser's
    storage (\<open>local_storage\<close>, in \<open>Fe_Request\<close>).

  \<^bold>\<open>The command-line tool.\<close>
  \<^item> \<open>Cli_Utils\<close>: \<open>utils/utils.ts\<close>; \<open>Generator\<close>: \<open>services/code-generate/generator.ts\<close>, with an abstract
    syntax of interface declarations that the printed text is proved to render, every member having the
    type its parameter calls for and every generated type being declared before it is used.
  \<^item> \<open>Service_Class\<close>: the templates of the service class and the request demo; \<open>Generated_Client\<close>: what a
    generated method does when it is called (URL, data, query, headers).
  \<^item> \<open>Node_World\<close>: the file system, the console, and the state-and-outcome monad of the commands; the
    locale \<open>world_preorder\<close> carries frame conditions through it (interpretations \<open>touches\<close>, \<open>camrc_only\<close>,
    \<open>tree\<close>, \<open>inv_pres\<close>).
  \<^item> \<open>Token_Manager\<close>: \<open>utils/data-manager.ts\<close> and \<open>request/index.ts\<close>; \<open>Cli_Endpoints\<close>: the functions of
    \<open>services/apis\<close> that no command uses yet.
  \<^item> \<open>Code_Generate\<close>: \<open>services/code-generate/index.ts\<close>, and its properties: \<open>Code_Generate_Frame\<close> (what a pull
    may touch), \<open>Code_Generate_Props\<close> (what it leaves in the output directory), \<open>Code_Generate_Total\<close> (it
    returns, every service being generated from what the server answered for it, or skipped); \<open>Service_Config\<close>: adding and removing services.
  \<^item> \<open>Cli_Commands\<close>: the commands of \<open>cli/\<close> and sequences of them as a step relation, with the invariant they
    keep.

  \<^bold>\<open>The front end.\<close>
  \<^item> \<open>Fe_Params\<close>: the API editor (\<open>components/ApiManagement/ApiEdit\<close>): payloads, tree editing, submission;
    \<open>Fe_Param_Table\<close>: the columns of the parameter table and its nested tables as a step relation, with the
    types it keeps; \<open>Fe_Response_Tabs\<close>: the tabs by status code, with a refinement to the map from codes to
    rows.
  \<^item> \<open>Fe_Version\<close>: the version of a finished iteration; \<open>Fe_Tree\<close>: the tree of APIs, drag and drop.
  \<^item> \<open>Fe_Request\<close>: \<open>request/index.ts\<close> over the browser state, and every function of \<open>services/\<close>.
  \<^item> \<open>Fe_User\<close>: the user store (\<open>hooks/useUser.tsx\<close>), with a step relation for a page's life in which each method
    runs to its end; \<open>Fe_Session\<close>: the same store while requests are under way and answered in any order.
  \<^item> \<open>Fe_Service_List\<close>, \<open>Fe_This_Service\<close>, \<open>Fe_Iteration\<close>: the three hooks of \<open>hooks/useService.tsx\<close>, with
    \<open>LoggedInView\<close>, the version selector and \<open>hooks/useApi.tsx\<close>.  The service page is a step relation in
    which several requests are under way and are answered in any order.
  \<^item> \<open>Fe_Header\<close>: maintainers and members of a service, and the agreement of the list shown with the set the
    server keeps.
  \<^item> \<open>Fe_Format\<close>: \<open>utils.tsx\<close> (dates, tags, avatars, confirmation); \<open>Fe_Detail\<close>: the read-only view of an API;
    \<open>Fe_Views\<close>: the table of services, the user search, the patterns of the forms, routes and their guard.
  \<^item> \<open>Fe_Forms\<close>: every form with its fields, rules, controls and options, and the dialogs that read it; the
    laws of the form library are the hypothesis \<open>form_library\<close>, under which its verdict is the one of the rules.
  \<^item> \<open>Fe_Page\<close>: the API page as a whole (what is shown, which operations are offered in which mode), the editor
    as a step relation in which a save is under way while the form is used and other APIs are shown, and the
    frame with the profile.
  \<^item> \<open>Ts_Interfaces\<close>: TypeScript types and the JSON values that have them; \<open>Services_Types\<close>: every interface of
    \<open>services/user/types.ts\<close>, \<open>services/service/types.ts\<close> and \<open>services/api/types.ts\<close> as a value of that type.

  \<^bold>\<open>The back end.\<close>
  \<^item> \<open>Be_Params\<close>: tables with ids drawn from a sequence, the rows of parameters, their storage from a tree
    (\<open>_process_params_recursively\<close>), the trees built from them (\<open>organizeReqParams\<close>, \<open>organizeRespParams\<close>) and the
    copying of rows; \<open>holds\<close> relates a table to the multiset of designs it stores.  \<open>Be_Store\<close>: the tables of APIs,
    published and drafts, and the effect of each operation on the contents of a service or an iteration.
  \<^item> \<open>Be_Database\<close>: \<open>database/models.py\<close>, the answers, the tests of permission; \<open>Be_User\<close>: \<open>services/user.py\<close> and
    \<open>authentication.py\<close>; \<open>Be_Service\<close>: \<open>services/service.py\<close>; \<open>Be_Api\<close>: \<open>services/api.py\<close>.  An exception is an answer,
    the session that it leaves changes nothing.
  \<^item> \<open>Be_Run\<close>: the requests and a step relation with one rule per kind of change; \<open>Be_Invariant\<close>: the invariant of the
    database, kept by every rule; \<open>Be_Server\<close>: runs of requests, authorization, and what stays after a commit;
    \<open>Be_Promises\<close>: the properties of the back end, with a run that they are applied to; \<open>Be_Refine\<close>: the refinement
    of an abstract server that maps services and iterations to their contents, one abstract step per request.
  \<^item> \<open>Be_Front\<close>: the editor, the server and the code generator together, and the maintainers on the page and in the
    database.

  \<^item> \<open>Be_Json\<close>: rows and answers as JSON; \<open>Be_Wire\<close>: the parameters of a request and the errors of the framework;
    \<open>Be_Openapi\<close> and \<open>Be_Export\<close>: the exported OpenAPI document, closed and complete; \<open>Be_Routes\<close> and \<open>Be_Serve\<close>: every
    route of \<open>subRouters/v1\<close> and the server that dispatches to them; \<open>Be_Agree\<close>: each request function of the front end
    reaches its handler with the values it was given; \<open>Be_Http\<close>: what any request can change; \<open>Be_Typed\<close>, \<open>Be_Answers\<close> and
    \<open>Be_Route_Types\<close>: the answers have the types the front end declares.

  \<^bold>\<open>Properties across components\<close> are in \<open>Be_Front\<close>, \<open>Be_Route_Types\<close> and in this theory: the files of a pull are closed under imports, path
  parameters of a draft that editor and server accept are substituted by the generated client, and a service created in the
  front end can be added by the tool under its identifier.

  \<^bold>\<open>Bounds.\<close>  No definition uses fuel: all recursion is on the data (parameter trees, lists of services and
  APIs), so every operation is total, and loops over requests end with the list they run through.  The trees that the
  server builds from rows are unfolded to the number of rows, which no path in them exceeds (\<open>forest_depth_le\<close>).

  \<^bold>\<open>Not modelled.\<close>  Of the back end: the texts of mails, the lengths of columns, and the process that serves the routes; the times of
  creation and change are parameters of the printed rows.  Of the front end: styles, translations and the texts of labels; the clipboard and the
  colour of the confirmation button; \<open>Date.parse\<close> on texts the code does not match itself (a parameter, it is
  implementation-defined); the validator of the third-party form library, a parameter of the forms.  The
  pattern that excludes Chinese characters always holds here, since characters are bytes.
  The answers with the parameters of an API have natural numbers as status codes: a \<open>null\<close> or negative code, which the
  texts \<open>Infinity\<close> and \<open>-5\<close> give, is represented in what the editor sends and in the database, not in what is shown.
  Interleaving is modelled for the service page, for the editor and for the session; the other asynchronous
  handlers run to their end before the next one starts, and a debounced search counts as one handler.
\<close>

section \<open>Generated files across components\<close>

lemma generated_imports_declared:
  assumes "generated_from apis ns opts" "i \<in> set (allImportInterfaces opts)"
  shows "js_includes ns (''export interface '' @ i @ '' {'')"
proof -
  from assms(1) obtain rs where rs: "map generateTSCode apis = map Inr rs" "ns = namespace_text (map fst rs)" "opts = map snd rs"
    by (auto simp: generated_from_def)
  from assms(2) obtain nss opt where r: "(nss, opt) \<in> set rs" "i \<in> set (option_interfaces opt)"
    by (auto simp: set_allImportInterfaces rs(3))
  from r(1) have "Inr (nss, opt) \<in> set (map generateTSCode apis)" unfolding rs(1) by force
  then obtain api where "generateTSCode api = Inr (nss, opt)" by (metis (no_types) imageE list.set_map)
  from api_imports_declared [OF this r(2)] obtain t where t: "t \<in> set nss" "prefix (''export interface '' @ i @ '' {'') t"
    by (auto simp: declares_def list_ex_iff)
  let ?p = "''export interface '' @ i @ '' {''"
  from t(2) obtain z where "t = ?p @ z" by (auto simp: prefix_def)
  then have "js_includes t ?p" using js_includes_refl by metis
  then have "js_includes (join (NL @ NL) nss) ?p" using t(1) js_includes_join by blast
  then have "js_includes (NL @ NL @ join (NL @ NL) nss) ?p"
    using js_includes_appendI [of _ ?p "NL @ NL" "[]"] by simp
  then have "js_includes (concat (map (\<lambda>ns. NL @ NL @ join (NL @ NL) ns) (map fst rs))) ?p"
    using r(1) by (intro js_includes_concat [of nss]) force+
  then show ?thesis
    using js_includes_appendI [of _ ?p autoGeneratePrefix "[]"] by (simp add: rs(2) namespace_text_def)
qed

text \<open>
  C3: The generated packages are closed: after a pull returns, every service that has an \<open>index.ts\<close>
  has it formatted from a service class all of whose imported interface names are declared in the
  (formatted) text of the \<open>namespaces.ts\<close> next to it.
\<close>

theorem pulled_imports_declared:
  assumes "config_at w = Some config" "names_valid config" "distinct (obj_keys (services_of config))"
    and "services_of config \<noteq> []" "fs_ok (w_fs w)"
    and "pullAllApisInAllServices ssrv asrv pr w = (Ret x, w')"
    and "n \<in> set (obj_keys (services_of config))"
  shows "w_fs w' (outDir_path w config @ [n, ''index.ts'']) = None \<or> (\<exists>ns opts.
    text_at (w_fs w') (outDir_path w config @ [n, ''index.ts''])
      (formatted pr (autoGeneratePrefix @ NL @ serviceClassCode n opts)) \<and>
    text_at (w_fs w') (outDir_path w config @ [n, ''namespaces.ts'']) (formatted pr ns) \<and>
    list_all (\<lambda>i. js_includes ns (''export interface '' @ i @ '' {'')) (allImportInterfaces opts))"
proof (cases "w_fs w' (outDir_path w config @ [n, ''index.ts''])")
  case (Some f)
  have "service_consistent pr (outDir_path w config) (w_fs w') n"
    using pull_consistent_all [OF assms(1-6)] assms(7) unfolding list_all_iff by blast
  with Some obtain apis ns opts where "generated_from apis ns opts"
    "text_at (w_fs w') (outDir_path w config @ [n, ''namespaces.ts'']) (formatted pr ns)"
    "text_at (w_fs w') (outDir_path w config @ [n, ''index.ts''])
       (formatted pr (autoGeneratePrefix @ NL @ serviceClassCode n opts))"
    unfolding service_consistent_def service_files_def by auto
  then show ?thesis using generated_imports_declared unfolding list_all_iff by blast
qed simp

theorem pulled_imports_declared_witness:
  "\<exists>w'. pullAllApisInAllServices demo_ssrv demo_asrv Some demo_world = (Ret (), w') \<and>
    (w_fs w' [''proj'', ''gen'', ''user'', ''index.ts''] = None \<or>
     (\<exists>ns opts. text_at (w_fs w') [''proj'', ''gen'', ''user'', ''namespaces.ts''] ns \<and>
        list_all (\<lambda>i. js_includes ns (''export interface '' @ i @ '' {'')) (allImportInterfaces opts)))"
proof -
  obtain w' where p: "pullAllApisInAllServices demo_ssrv demo_asrv Some demo_world = (Ret (), w')" using demo_pull by blast
  from pulled_imports_declared [OF demo_config_at demo_names _ _ demo_fs_ok p, of "''user''"]
  have "w_fs w' [''proj'', ''gen'', ''user'', ''index.ts''] = None \<or>
     (\<exists>ns opts. text_at (w_fs w') [''proj'', ''gen'', ''user'', ''namespaces.ts''] ns \<and>
        list_all (\<lambda>i. js_includes ns (''export interface '' @ i @ '' {'')) (allImportInterfaces opts))"
    by (auto simp: demo_services demo_outDir formatted_def)
  with p show ?thesis by blast
qed

section \<open>From the API editor to the generated client\<close>

lemma included_hole:
  assumes "list_all piece_ok ps" "brace_free f" "js_includes (render_url ps) (''{'' @ f @ ''}'')"
  shows "Hole f \<in> set ps"
  using find_no_placeholder [OF assms(1,2)] assms(3) unfolding js_includes_def placeholder_def by blast

lemma fill_pieces_ok:
  assumes "list_all piece_ok ps" "\<forall>f\<in>set fs. \<forall>v. req f = Some v \<longrightarrow> brace_free v"
  shows "list_all piece_ok (map (fill (req |` set fs)) ps)"
  using assms(1)
proof (induction ps)
  case (Cons p ps)
  then show ?case using assms(2) by (cases p) (auto simp: restrict_map_def split: option.splits)
qed simp

lemma fill_removes_hole:
  assumes "f \<in> set fs" "req f = Some v"
  shows "Hole f \<notin> set (map (fill (req |` set fs)) ps)"
proof (induction ps)
  case (Cons p ps)
  then show ?case using assms by (cases p) (auto simp: restrict_map_def split: option.splits)
qed simp

lemma tab_param:
  assumes "distinct (map fst rq)" "f \<in># tab_names rq l"
  shows "\<exists>p\<in>set (transformReqParamsToApiInput (Some rq)). ri_location p = l \<and> ri_name p = f"
proof -
  obtain items x where x: "map_of rq l = Some items" "x \<in> set items" "pi_name x = f"
    using assms(2) by (auto simp: tab_names_def split: option.splits)
  have "ri_location (req_item l x) = l" "ri_name (req_item l x) = pi_name x" by (cases x; simp)+
  moreover have "(l, items) \<in> set rq" using map_of_SomeD [OF x(1)] .
  then have "req_item l x \<in> set (transformReqParamsToApiInput (Some rq))"
    using x(2) by (force simp: transformReqParamsToApiInput_def processReqItems_def)
  ultimately show ?thesis using x(3) by blast
qed

lemma submitted_path_param:
  assumes "check_submit d values = Inr u" "fv_request_params values = Some rq" "distinct (map fst rq)" "f \<in># tab_names rq ''path''"
  shows "js_includes (fv_path values) (placeholder f)"
proof -
  have "\<exists>u. check_submit d values = Inr u" using assms(1) by blast
  then show ?thesis
    using tab_param [OF assms(3,4)] assms(2) by (auto simp: check_submit_Inr Let_def list_all_iff placeholder_def)
qed

lemma base_joined:
  assumes "js_trim path = path" "path = ''/'' @ p" "\<not> prefix ''/'' p"
  shows "genBaseURL (BaseString base) path = drop_end is_slash (js_trim base) @ ''/'' @ p"
proof -
  have "dropWhile is_slash p = p" using assms(3) by (cases p) (auto simp: is_slash_def)
  then show ?thesis using assms(1,2) by (simp add: genBaseURL_def is_slash_def)
qed

text \<open>
  C1: Path parameters end to end: when the editor submits a draft and the server accepts it, the generator makes a method
  from what the server returns, the path parameters of the method are those of the form, each has its placeholder in the
  path, and the method calls a URL in which each of them has been replaced by the caller's value and no placeholder of a
  path parameter is left.  The path starts with one slash, is without white space at its ends, and consists of literal
  text and placeholders, each once; the names, the values and the base address have no brace and no value has a dollar
  sign.
\<close>

theorem submitted_path_params_filled:
  assumes "served db" "any_order D" "check_submit d values = Inr u" "updateApiByApiDraftId i uid u db = (Reply 200 m r, db')"
    and "fv_request_params values = Some rq" "distinct (map fst rq)" "set (map fst rq) \<subseteq> set ParamLocations" "fv_response_params values = Some rs"
    and "fv_path values = ''/'' @ render_url ps" "js_trim (fv_path values) = fv_path values" "\<not> prefix ''/'' (render_url ps)"
    and "list_all piece_ok ps" "distinct (holes ps)" "brace_free (drop_end is_slash (js_trim base))"
    and "\<forall>f\<in>#tab_names rq ''path''. brace_free f \<and> (\<exists>v. req f = Some v \<and> value_ok v)"
  shows "\<exists>ans ns opt. apiGetApiById D d uid False db' = Reply 200 ''Get api success'' (Some ans) \<and>
    generateTSCode (api_detail_of OfIteration ans) = Inr (ns, opt) \<and>
    mset (reqPathFields opt) = tab_names rq ''path'' \<and> set (reqPathFields opt) \<subseteq> set (holes ps) \<and>
    rc_url (call_method (BaseString base) opt req) =
      drop_end is_slash (js_trim base) @ ''/'' @ render_url (map (fill (req |` set_mset (tab_names rq ''path''))) ps) \<and>
    (\<forall>f\<in>#tab_names rq ''path''. \<not> js_includes (rc_url (call_method (BaseString base) opt req)) (placeholder f))"
proof -
  let ?b = "drop_end is_slash (js_trim base) @ ''/''"
  let ?qs = "Lit ?b # ps" and ?F = "set_mset (tab_names rq ''path'')"
  obtain ans ns opt where a: "apiGetApiById D d uid False db' = Reply 200 ''Get api success'' (Some ans)"
    and g: "generateTSCode (api_detail_of OfIteration ans) = Inr (ns, opt)" and o: "apiPath opt = fv_path values" "mset (reqPathFields opt) = tab_names rq ''path''"
    using edited_code [OF run_keeps_database [OF assms(1)] assms(2-8)] by blast
  have F: "set (reqPathFields opt) = ?F" by (metis o(2) set_mset_mset)
  have vals: "list_all brace_free (reqPathFields opt)" "\<forall>f\<in>set (reqPathFields opt). \<forall>v. req f = Some v \<longrightarrow> value_ok v"
    using assms(15) unfolding F [symmetric] by (auto simp: list_all_iff)
  have q: "list_all piece_ok ?qs" "distinct (holes ?qs)" using assms(12-14) by (simp_all add: brace_free_def)
  have "Hole f \<in> set ?qs" if f: "f \<in># tab_names rq ''path''" for f
  proof -
    have "js_includes (render_url ?qs) (''{'' @ f @ ''}'')"
      using js_includes_appendI [of "fv_path values" "placeholder f" "drop_end is_slash (js_trim base)" "[]"] submitted_path_param [OF assms(3,5,6) f]
      by (simp add: assms(9) placeholder_def)
    then show ?thesis using assms(15) f by (intro included_hole [OF q(1)]) auto
  qed
  then have holes: "?F \<subseteq> set (holes ps)" by (force simp: set_holes)
  have "genBaseURL (BaseString base) (apiPath opt) = render_url ?qs" using base_joined [OF assms(10,9,11)] by (simp add: o(1))
  then have url: "rc_url (call_method (BaseString base) opt req) = render_url (map (fill (req |` ?F)) ?qs)"
    using fold_replace_fill [OF q vals] by (simp add: call_method_def F)
  have "\<not> js_includes (render_url (map (fill (req |` ?F)) ?qs)) (placeholder f)" if f: "f \<in># tab_names rq ''path''" for f
  proof -
    obtain v where "req f = Some v" "brace_free f" using assms(15) f by blast
    moreover have "list_all piece_ok (map (fill (req |` ?F)) ?qs)"
      using vals(2) unfolding F [symmetric] by (intro fill_pieces_ok q(1)) (auto simp: value_ok_def)
    moreover have "Hole f \<notin> set (map (fill (req |` ?F)) ?qs)"
      using fill_removes_hole [of f "reqPathFields opt" req v ?qs] f calculation(1) by (simp add: F)
    ultimately show ?thesis unfolding js_includes_def not_not by (intro find_no_placeholder)
  qed
  then show ?thesis using a g o(2) holes url by (intro exI conjI) (auto simp: F)
qed

definition demo_id_request :: request_object where
  "demo_id_request = [''id'' \<mapsto> ''42'']"

theorem submitted_path_params_filled_witness:
  "\<exists>ans ns opt. apiGetApiById demo_server 1 1 False (snd (updateApiByApiDraftId 1 1 demo_submission demo_run)) = Reply 200 ''Get api success'' (Some ans) \<and>
    generateTSCode (api_detail_of OfIteration ans) = Inr (ns, opt) \<and>
    rc_url (call_method (BaseString ''http://h/'') opt demo_id_request) = ''http://h/f/42''"
proof -
  let ?ps = "[Lit ''f/'', Hole ''id'']"
  have t: "tab_names (the (fv_request_params demo_edited)) ''path'' = {#''id''#}" by (simp add: tab_names_def demo_edited_def demo_row_def)
  have p: "fv_path demo_edited = ''/'' @ render_url ?ps" "js_trim (fv_path demo_edited) = fv_path demo_edited" "\<not> prefix ''/'' (render_url ?ps)"
    by (simp_all add: demo_edited_def placeholder_def js_trim_def is_space_def drop_end_def)
  have q: "list_all piece_ok ?ps" "distinct (holes ?ps)" "brace_free (drop_end is_slash (js_trim ''http://h/''))"
    by (simp_all add: brace_free_def js_trim_def is_space_def drop_end_def is_slash_def)
  have v: "\<forall>f\<in>#tab_names (the (fv_request_params demo_edited)) ''path''. brace_free f \<and> (\<exists>v. demo_id_request f = Some v \<and> value_ok v)"
    by (simp add: t brace_free_def demo_id_request_def value_ok_def)
  have r: "fv_request_params demo_edited = Some (the (fv_request_params demo_edited))" "fv_response_params demo_edited = Some (the (fv_response_params demo_edited))"
    "distinct (map fst (the (fv_request_params demo_edited)))" "set (map fst (the (fv_request_params demo_edited))) \<subseteq> set ParamLocations"
    by (simp_all add: demo_edited_def ParamLocations_def)
  have "drop_end is_slash (js_trim ''http://h/'') @ ''/'' @ render_url (map (fill (demo_id_request |` {''id''})) ?ps) = ''http://h/f/42''"
    by (simp add: drop_end_def js_trim_def is_space_def is_slash_def demo_id_request_def)
  then show ?thesis
    using submitted_path_params_filled [OF demo_served demo_order demo_submitted demo_accepted r(1,3,4,2) p q v] unfolding t by auto
qed

text \<open>
  The generated method calls \<open>replace\<close> once for a path parameter: of a placeholder that the path has twice, which the editor
  accepts, the second one is sent as it is.
\<close>

lemma repeated_placeholder_stays:
  "replace_field [''id'' \<mapsto> ''7''] ''id'' ''/a/{id}/b/{id}'' = ''/a/7/b/{id}''"
  by (simp add: replace_field_def js_replace_def placeholder_def find_sub.simps)

section \<open>From the front end to the command-line tool\<close>

lemma store_accepted:
  assumes "config_at w = Some c" "fs_ok (w_fs w)" "config_safe w c" "config_ok c"
    and "isValidFilename n" "u \<noteq> []" "v \<noteq> []" "CHR ''@'' \<notin> set u" "CHR ''@'' \<notin> set v"
    and "\<not> service_present c n" "\<not> list_ex (\<lambda>x. uuid_of x = u) (map snd (services_of c))"
    and "GetServiceByUuidAndVersion ssrv u v w = (Ret res, w1)" "status res = 200"
  shows "config_at (snd (storeServiceInfo ssrv asrv pr n u v w)) = Some (add_entry n u v c)"
proof -
  have ok: "config_ok (add_entry n u v c)" by (rule add_entry_ok [OF assms(4,10,11,5-9)])
  have c1: "camrc_only w w1" by (rule keepsD [OF endpoints_camrc_only(3) assms(12)])
  have "config_at w1 = Some c" "fs_ok (w_fs w1)" "config_safe w1 c"
    using camrc_only_config_at [OF c1] c1 assms(1-3) config_safe_eq [of w1 w c c] by (auto simp: camrc_only_def touches_def)
  then have "config_at (snd (rewrite_and_pull ssrv asrv pr (add_entry n u v c) msg w1)) = Some (add_entry n u v c)" for msg
    using rewrite_and_pull_config config_ok_names [OF ok] by fastforce
  then show ?thesis
    unfolding store_unfold [OF assms(1,10,11)] try_exit_config using assms(12,13) by (simp add: bind_def)
qed

text \<open>
  C4: A service created in the front end can be used by the tool.  For every identifier that the creation form accepts, the
  address that the list opens is read back to the identifier.  When neither name nor identifier is configured yet and the
  server knows the version, \<open>cam add\<close> with \<open>name:uuid@version\<close>, or with \<open>name:uuid\<close> for the latest version, leaves in the
  configuration file exactly one more service, under the name, whose text is split again into the identifier and the
  version, however the pull that follows ends.
\<close>

theorem created_service_addable:
  assumes "uuid_match u" "isValidFilename n" "CHR ''@'' \<notin> set n" "isValidVersion v"
    and "ident = n @ '':'' @ u @ ''@'' @ v \<and> ver = v \<or> ident = n @ '':'' @ u \<and> ver = ''latest''"
    and "config_at w = Some c" "fs_ok (w_fs w)" "config_safe w c" "config_ok c"
    and "\<not> service_present c n" "u \<notin> set (map (uuid_of \<circ> snd) (services_of c))"
    and "\<forall>ls. \<exists>res w1. GetServiceByUuidAndVersion ssrv u ver (w\<lparr>w_console := ls\<rparr>) = (Ret res, w1) \<and> status res = 200"
  shows "page_uuid (handleViewService u) = u \<and>
    (\<exists>c'. config_at (snd (addService ssrv asrv pr ident w)) = Some c' \<and> cfg_outDir c' = cfg_outDir c \<and>
       map_of (services_of c') = (map_of (services_of c))(n \<mapsto> u @ ''@'' @ ver) \<and> n \<notin> set (obj_keys (services_of c)) \<and>
       split_on CHR ''@'' (u @ ''@'' @ ver) = [u, ver])"
proof -
  have u: "u \<noteq> []" "CHR ''@'' \<notin> set u" "CHR '':'' \<notin> set u" using uuid_match_chars [OF assms(1)] by blast+
  have ver: "ver \<noteq> []" "CHR ''@'' \<notin> set ver" using assms(5) version_no_at(1,2) [OF assms(4)] by auto
  have new: "\<not> list_ex (\<lambda>x. uuid_of x = u) (map snd (services_of c))" using assms(11) by (auto simp: list_ex_iff)
  have p: "parse_ident ident = Inr (n, u, ver)" using assms(5) parse_ident_printed [OF assms(2,3) u assms(4)] by blast
  obtain ls where run: "addService ssrv asrv pr ident w = storeServiceInfo ssrv asrv pr n u ver (w\<lparr>w_console := ls\<rparr>)"
    unfolding addService_parse p by (auto simp: bind_console)
  let ?w = "w\<lparr>w_console := ls\<rparr>"
  have w: "config_at ?w = Some c" "fs_ok (w_fs ?w)" "config_safe ?w c" using assms(6-8) config_safe_eq [of ?w w c c] by simp_all
  obtain res w1 where "GetServiceByUuidAndVersion ssrv u ver ?w = (Ret res, w1)" "status res = 200" using assms(12) by blast
  then have "config_at (snd (addService ssrv asrv pr ident w)) = Some (add_entry n u ver c)"
    unfolding run using store_accepted [OF w assms(9,2) u(1) ver(1) u(2) ver(2) assms(10) new] by blast
  moreover have "n \<notin> set (obj_keys (services_of c))" using absent_name [OF assms(10)] assms(9) by (simp add: config_ok_def)
  ultimately show ?thesis using page_uuid_opened [OF assms(1)] split_entry [OF u(2) ver(2)] by (simp del: set_map)
qed

theorem created_service_addable_witness:
  "\<exists>c'. config_at (snd (addService demo_ssrv demo_asrv Some ''order:shop/order/v1@1.0.0'' demo_world)) = Some c' \<and>
    map_of (services_of c') ''order'' = Some ''shop/order/v1@1.0.0'' \<and> page_uuid (handleViewService ''shop/order/v1'') = ''shop/order/v1''"
proof -
  have v: "isValidVersion ''1.0.0''" by (simp add: isValidVersion_def version_regex_def all_digits_def is_digit_def)
  have new: "\<not> service_present demo_config ''order''" "''shop/order/v1'' \<notin> set (map (uuid_of \<circ> snd) (services_of demo_config))"
    by (simp_all add: demo_config_def service_present_def services_of_def obj_truthy_def object_prototype_members_def uuid_of_def)
  have s: "\<forall>ls. \<exists>res w1. GetServiceByUuidAndVersion demo_ssrv ''shop/order/v1'' ''1.0.0'' (demo_world\<lparr>w_console := ls\<rparr>) = (Ret res, w1) \<and> status res = 200"
    by (simp add: demo_get_service demo_service_def)
  have i: "''order:shop/order/v1@1.0.0'' = ''order'' @ '':'' @ ''shop/order/v1'' @ ''@'' @ ''1.0.0'' \<and> ''1.0.0'' = ''1.0.0'' \<or>
      ''order:shop/order/v1@1.0.0'' = ''order'' @ '':'' @ ''shop/order/v1'' \<and> ''1.0.0'' = ''latest''" by simp
  show ?thesis
    using created_service_addable [OF demo_uuid demo_valid_names(2) _ v i demo_facts new s, of demo_asrv Some] by auto
qed

end
